(* ===== verification/Prelude.thy ===== *)
theory Prelude
  imports Complex_Main
begin

text \<open>
  Shared vocabulary of the development: thrown errors, database transactions in state-passing
  style (what \<open>withTransaction\<close> of \<open>services/x402-facilitator/src/db/pool.ts\<close> gives its
  callback), the three shapes of SQL statement the service uses on a table (select, sum, update
  where), and the locales for the interfaces that several components share.

  A table is a list of rows in insertion order when the code scans, sums or orders it, and a map
  from its primary key when the code only reads and writes single rows.
\<close>

section \<open>Rule collections\<close>

named_theorems tx_simps "evaluation of the transaction combinators"
named_theorems row_simps "characteristic equations of the table helpers"

section \<open>Errors\<close>

text \<open>
  \<open>Thrown msg\<close> is \<open>throw new Error(msg)\<close> in the TypeScript.  \<open>Pg e\<close> is an error raised by
  PostgreSQL because a constraint of \<open>db/migrate.ts\<close> is violated or a value does not fit its
  column; the driver turns it into a rejected promise, that is, an exception too.
\<close>

datatype pg_error =
    UniqueViolation string
  | CheckViolation string
  | ForeignKeyViolation string
  | NumericOverflow string

datatype error = Thrown string | Pg pg_error

section \<open>Transactions as state transformers with errors\<close>

type_synonym ('s, 'a) tx = "'s \<Rightarrow> error + ('a \<times> 's)"

definition returnT :: "'a \<Rightarrow> ('s, 'a) tx" where
  "returnT a = (\<lambda>s. Inr (a, s))"

definition throwT :: "error \<Rightarrow> ('s, 'a) tx" where
  "throwT e = (\<lambda>_. Inl e)"

definition bindT :: "('s, 'a) tx \<Rightarrow> ('a \<Rightarrow> ('s, 'b) tx) \<Rightarrow> ('s, 'b) tx" where
  "bindT m f = (\<lambda>s. case m s of Inl e \<Rightarrow> Inl e | Inr (a, s') \<Rightarrow> f a s')"

definition thenT :: "('s, 'a) tx \<Rightarrow> ('s, 'b) tx \<Rightarrow> ('s, 'b) tx" where
  "thenT m n = bindT m (\<lambda>_. n)"

definition getT :: "('s \<Rightarrow> 'a) \<Rightarrow> ('s, 'a) tx" where
  "getT f = (\<lambda>s. Inr (f s, s))"

definition modifyT :: "('s \<Rightarrow> 's) \<Rightarrow> ('s, unit) tx" where
  "modifyT f = (\<lambda>s. Inr ((), f s))"

definition ensureT :: "('s \<Rightarrow> bool) \<Rightarrow> error \<Rightarrow> ('s, unit) tx" where
  "ensureT c e = (\<lambda>s. if c s then Inr ((), s) else Inl e)"

text \<open>
  \<open>withTransaction\<close>: \<open>BEGIN\<close>, the callback, then \<open>COMMIT\<close>; an exception anywhere in the
  callback runs \<open>ROLLBACK\<close> and is rethrown, so the state a failed transaction leaves behind is
  the state it started from.
\<close>

definition withTransaction :: "('s, 'a) tx \<Rightarrow> 's \<Rightarrow> (error + 'a) \<times> 's" where
  "withTransaction m s =
     (case m s of Inl e \<Rightarrow> (Inl e, s) | Inr (a, s') \<Rightarrow> (Inr a, s'))"

lemma tx_eval [tx_simps, simp]:
  "returnT a s = Inr (a, s)"
  "throwT e s = Inl e"
  "getT g s = Inr (g s, s)"
  "modifyT h s = Inr ((), h s)"
  by (simp_all add: returnT_def throwT_def getT_def modifyT_def)

lemma ensureT_pass [tx_simps, simp]: "c s \<Longrightarrow> ensureT c e s = Inr ((), s)"
  by (simp add: ensureT_def)

lemma ensureT_fail [tx_simps, simp]: "\<not> c s \<Longrightarrow> ensureT c e s = Inl e"
  by (simp add: ensureT_def)

lemma bindT_Inr [tx_simps, simp]: "m s = Inr (a, s') \<Longrightarrow> bindT m f s = f a s'"
  by (simp add: bindT_def)

lemma bindT_Inl [tx_simps, simp]: "m s = Inl e \<Longrightarrow> bindT m f s = Inl e"
  by (simp add: bindT_def)

lemma thenT_Inr [tx_simps, simp]: "m s = Inr (a, s') \<Longrightarrow> thenT m n s = n s'"
  by (simp add: thenT_def)

lemma thenT_Inl [tx_simps, simp]: "m s = Inl e \<Longrightarrow> thenT m n s = Inl e"
  by (simp add: thenT_def)

lemma bindT_if [tx_simps]:
  "bindT (\<lambda>s. if c s then m s else n s) f s = (if c s then bindT m f s else bindT n f s)"
  by (simp add: bindT_def)

lemma bindT_success:
  "bindT m f s = Inr r \<longleftrightarrow> (\<exists>a s'. m s = Inr (a, s') \<and> f a s' = Inr r)"
  by (auto simp: bindT_def split: sum.splits)

lemma thenT_success:
  "thenT m n s = Inr r \<longleftrightarrow> (\<exists>a s'. m s = Inr (a, s') \<and> n s' = Inr r)"
  by (simp add: thenT_def bindT_success)

lemma bindT_successE:
  assumes "bindT m f s = Inr r"
  obtains a s' where "m s = Inr (a, s')" and "f a s' = Inr r"
  using assms by (auto simp: bindT_success)

lemma thenT_successE:
  assumes "thenT m n s = Inr r"
  obtains a s' where "m s = Inr (a, s')" and "n s' = Inr r"
  using assms by (auto simp: thenT_success)

lemma ensureT_success [simp]: "ensureT c e s = Inr r \<longleftrightarrow> c s \<and> r = ((), s)"
  by (auto simp: ensureT_def)

lemma withTransaction_commit [simp]:
  "m s = Inr (a, s') \<Longrightarrow> withTransaction m s = (Inr a, s')"
  by (simp add: withTransaction_def)

lemma withTransaction_rollback [simp]:
  "m s = Inl e \<Longrightarrow> withTransaction m s = (Inl e, s)"
  by (simp add: withTransaction_def)

lemma withTransaction_success:
  "withTransaction m s = (Inr a, s') \<longleftrightarrow> m s = Inr (a, s')"
  by (auto simp: withTransaction_def split: sum.splits)

lemma withTransaction_failure:
  "withTransaction m s = (Inl e, s') \<longleftrightarrow> m s = Inl e \<and> s' = s"
  by (auto simp: withTransaction_def split: sum.splits)

text \<open>The committed state of a run, for runs that are known to succeed.\<close>

definition run_state :: "('s, 'a) tx \<Rightarrow> 's \<Rightarrow> 's" where
  "run_state m s = snd (withTransaction m s)"

lemma run_state_success: "isl (m s) = False \<Longrightarrow> \<exists>a. m s = Inr (a, run_state m s)"
  by (cases "m s") (auto simp: run_state_def)

text \<open>A predicate that every committed run keeps is kept by the transaction as a whole.\<close>

lemma withTransaction_invariant:
  assumes "I s" and "\<And>a s'. m s = Inr (a, s') \<Longrightarrow> I s'"
  shows "I (snd (withTransaction m s))"
  using assms by (auto simp: withTransaction_def split: sum.splits)

section \<open>Reading and updating tables\<close>

text \<open>\<open>UPDATE t SET .. WHERE p\<close> on a list of rows.\<close>

definition update_where :: "('r \<Rightarrow> bool) \<Rightarrow> ('r \<Rightarrow> 'r) \<Rightarrow> 'r list \<Rightarrow> 'r list" where
  "update_where p f rows = map (\<lambda>r. if p r then f r else r) rows"

text \<open>\<open>SELECT COALESCE(SUM(g), 0) FROM t WHERE p\<close>.\<close>

definition sum_where :: "('r \<Rightarrow> bool) \<Rightarrow> ('r \<Rightarrow> int) \<Rightarrow> 'r list \<Rightarrow> int" where
  "sum_where p g rows = sum_list (map g (filter p rows))"

lemma update_where_simps [row_simps, simp]:
  "update_where p f [] = []"
  "update_where p f (r # rs) = (if p r then f r else r) # update_where p f rs"
  by (simp_all add: update_where_def)

lemma sum_where_simps [row_simps, simp]:
  "sum_where p g [] = 0"
  "sum_where p g (r # rs) = (if p r then g r else 0) + sum_where p g rs"
  by (simp_all add: sum_where_def)

lemma sum_where_append [row_simps, simp]:
  "sum_where p g (xs @ ys) = sum_where p g xs + sum_where p g ys"
  by (simp add: sum_where_def)

lemma sum_where_none: "(\<And>r. r \<in> set rows \<Longrightarrow> \<not> p r) \<Longrightarrow> sum_where p g rows = 0"
  by (induction rows) auto

lemma sum_where_cong:
  "(\<And>r. r \<in> set rows \<Longrightarrow> p r = q r) \<Longrightarrow>
   (\<And>r. r \<in> set rows \<Longrightarrow> q r \<Longrightarrow> g r = h r) \<Longrightarrow>
   sum_where p g rows = sum_where q h rows"
  by (induction rows) auto

lemma sum_where_nonneg:
  "(\<And>r. r \<in> set rows \<Longrightarrow> p r \<Longrightarrow> 0 \<le> g r) \<Longrightarrow> 0 \<le> sum_where p g rows"
  by (induction rows) auto

lemma sum_where_split:
  "sum_where p g rows = sum_where (\<lambda>r. p r \<and> q r) g rows + sum_where (\<lambda>r. p r \<and> \<not> q r) g rows"
  by (induction rows) auto

lemma sum_where_ge_member:
  assumes "r \<in> set rows" and "p r" and "\<And>x. x \<in> set rows \<Longrightarrow> p x \<Longrightarrow> 0 \<le> g x"
  shows "g r \<le> sum_where p g rows"
  using assms
proof (induction rows)
  case Nil
  then show ?case by simp
next
  case (Cons x xs)
  have "0 \<le> sum_where p g xs"
    using Cons.prems(3) by (intro sum_where_nonneg) auto
  with Cons show ?case by (auto intro: order_trans)
qed

lemma set_update_where: "set (update_where p f rows) = (\<lambda>r. if p r then f r else r) ` set rows"
  by (auto simp: update_where_def)

lemma length_update_where [simp]: "length (update_where p f rows) = length rows"
  by (simp add: update_where_def)

lemma map_update_where:
  "(\<And>r. p r \<Longrightarrow> k (f r) = k r) \<Longrightarrow> map k (update_where p f rows) = map k rows"
  by (auto simp: update_where_def)

lemma update_where_id: "(\<And>r. r \<in> set rows \<Longrightarrow> \<not> p r) \<Longrightarrow> update_where p f rows = rows"
  by (induction rows) auto

text \<open>Replacing one element of a list changes a sum over it by the difference of the two.\<close>

lemma sum_list_map_update:
  fixes f :: "'a \<Rightarrow> int"
  shows "i < length xs \<Longrightarrow> sum_list (map f (xs[i := y])) = sum_list (map f xs) - f (xs ! i) + f y"
proof (induction xs arbitrary: i)
  case Nil
  then show ?case by simp
next
  case (Cons x xs)
  then show ?case by (cases i) auto
qed

text \<open>
  The key lemma behind every balance argument: updating the one row with a given primary key
  changes a conditional sum by exactly the difference of that row's contributions.
\<close>

lemma sum_where_update_key:
  assumes "distinct (map k rows)" and "r \<in> set rows"
  shows "sum_where p g (update_where (\<lambda>x. k x = k r) f rows) =
         sum_where p g rows - (if p r then g r else 0) + (if p (f r) then g (f r) else 0)"
  using assms
proof (induction rows)
  case Nil
  then show ?case by simp
next
  case (Cons x xs)
  show ?case
  proof (cases "x = r")
    case True
    with Cons.prems have "k r \<notin> k ` set xs" by simp
    then have "update_where (\<lambda>y. k y = k r) f xs = xs"
      by (intro update_where_id) (metis imageI)
    with True show ?thesis by simp
  next
    case False
    with Cons.prems have "r \<in> set xs" and "distinct (map k xs)" and "k x \<noteq> k r" by auto
    with Cons.IH show ?thesis by simp
  qed
qed

lemma find_Some_mem: "find p xs = Some x \<Longrightarrow> x \<in> set xs \<and> p x"
  by (auto simp: find_Some_iff in_set_conv_nth)

lemma find_unique:
  "distinct (map k rows) \<Longrightarrow> r \<in> set rows \<Longrightarrow> find (\<lambda>x. k x = k r) rows = Some r"
  by (induction rows) auto

lemma find_Some_unique:
  assumes "r \<in> set rows" and "p r" and "\<And>x. x \<in> set rows \<Longrightarrow> p x \<Longrightarrow> x = r"
  shows "find p rows = Some r"
proof (cases "find p rows")
  case None
  with assms(1,2) show ?thesis by (auto simp: find_None_iff)
next
  case (Some x)
  with assms(3) find_Some_mem [OF Some] show ?thesis by simp
qed

lemma find_append:
  "find p (xs @ ys) = (case find p xs of Some x \<Rightarrow> Some x | None \<Rightarrow> find p ys)"
  by (induction xs) auto

lemma find_update_where_key:
  "(\<And>x. p x \<Longrightarrow> k (f x) = k x) \<Longrightarrow>
   find (\<lambda>x. k x = v) (update_where p f rows) =
   map_option (\<lambda>r. if p r then f r else r) (find (\<lambda>x. k x = v) rows)"
  by (induction rows) auto

section \<open>Interface: single-row stores with an upsert\<close>

text \<open>
  \<open>INSERT .. ON CONFLICT (key) DO NOTHING\<close> and the keyed \<open>UPDATE\<close> that follows it are used on
  several tables (pool reserves, prefunded balances, nonce guards, sessions).  A provider gives
  the lookup of its table and the single-row write; the laws are the two read-over-write laws.
\<close>

definition insert_if_absent ::
  "('s \<Rightarrow> 'k \<Rightarrow> 'r option) \<Rightarrow> ('k \<Rightarrow> 'r \<Rightarrow> 's \<Rightarrow> 's) \<Rightarrow> 'k \<Rightarrow> 'r \<Rightarrow> 's \<Rightarrow> 's" where
  "insert_if_absent lookup put k r s = (case lookup s k of None \<Rightarrow> put k r s | Some _ \<Rightarrow> s)"

locale keyed_store =
  fixes lookup :: "'s \<Rightarrow> 'k \<Rightarrow> 'r option"
    and put :: "'k \<Rightarrow> 'r \<Rightarrow> 's \<Rightarrow> 's"
  assumes lookup_put_same: "lookup (put k r s) k = Some r"
    and lookup_put_other: "k' \<noteq> k \<Longrightarrow> lookup (put k r s) k' = lookup s k'"
begin

lemma lookup_insert_same:
  "lookup (insert_if_absent lookup put k r s) k = Some (case lookup s k of None \<Rightarrow> r | Some x \<Rightarrow> x)"
  by (simp add: insert_if_absent_def lookup_put_same split: option.split)

lemma lookup_insert_other:
  "k' \<noteq> k \<Longrightarrow> lookup (insert_if_absent lookup put k r s) k' = lookup s k'"
  by (simp add: insert_if_absent_def lookup_put_other split: option.split)

lemma insert_present: "lookup s k = Some x \<Longrightarrow> insert_if_absent lookup put k r s = s"
  by (simp add: insert_if_absent_def)

lemma insert_absent: "lookup s k = None \<Longrightarrow> insert_if_absent lookup put k r s = put k r s"
  by (simp add: insert_if_absent_def)

lemma insert_idem:
  "insert_if_absent lookup put k r' (insert_if_absent lookup put k r s) =
   insert_if_absent lookup put k r s"
  by (simp add: insert_if_absent_def lookup_put_same split: option.split)

end

section \<open>Interface: state machines and their invariants\<close>

text \<open>
  A component that answers requests forever: a set of initial states and a step relation (one
  committed or rolled-back transaction per step).  The provider proves that its invariant holds
  at the start and survives every step; the client reasons about all reachable states.
\<close>

locale invariant_system =
  fixes start :: "'s \<Rightarrow> bool"
    and step :: "'s \<Rightarrow> 's \<Rightarrow> bool"
    and inv :: "'s \<Rightarrow> bool"
  assumes inv_start: "start s \<Longrightarrow> inv s"
    and inv_step: "step s s' \<Longrightarrow> inv s \<Longrightarrow> inv s'"
begin

lemma inv_steps: "step\<^sup>*\<^sup>* s s' \<Longrightarrow> inv s \<Longrightarrow> inv s'"
  by (induction rule: rtranclp_induct) (auto intro: inv_step)

lemma inv_reachable: "start s0 \<Longrightarrow> step\<^sup>*\<^sup>* s0 s \<Longrightarrow> inv s"
  by (blast intro: inv_steps inv_start)

end

section \<open>Interface: operations keyed by a client reference\<close>

text \<open>
  Repayments, funding events and collateral events carry a client-chosen reference that makes a
  retry harmless: a run that commits records its reference, and a run whose reference is already
  recorded leaves the state as it is, whatever clock and generated ids it runs with.
\<close>

locale idempotent_operation =
  fixes apply_op :: "'e \<Rightarrow> 'p \<Rightarrow> 's \<Rightarrow> (error + 'r) \<times> 's"
    and recorded :: "'p \<Rightarrow> 's \<Rightarrow> bool"
  assumes commit_records: "apply_op e p s = (Inr r, s') \<Longrightarrow> recorded p s'"
    and replay_unchanged: "recorded p s \<Longrightarrow> snd (apply_op e p s) = s"
    and failure_unchanged: "apply_op e p s = (Inl err, s') \<Longrightarrow> s' = s"
begin

lemma replays_unchanged: "recorded p s \<Longrightarrow> fold (\<lambda>e t. snd (apply_op e p t)) es s = s"
  by (induction es) (simp_all add: replay_unchanged)

lemma retries_unchanged:
  "apply_op e p s = (Inr r, s') \<Longrightarrow> fold (\<lambda>e t. snd (apply_op e p t)) es s' = s'"
  by (rule replays_unchanged) (rule commit_records)

text \<open>Retrying until the first success and beyond applies the operation at most once.\<close>

lemma at_most_once:
  "fold (\<lambda>e t. snd (apply_op e p t)) es s \<in> {s} \<union> {snd (apply_op e p s) | e. e \<in> set es}"
proof (induction es)
  case Nil
  then show ?case by simp
next
  case (Cons e es)
  show ?case
  proof (cases "fst (apply_op e p s)")
    case (Inl err)
    then have "snd (apply_op e p s) = s" by (metis failure_unchanged prod.collapse)
    with Cons show ?thesis by auto
  next
    case (Inr r)
    then have "recorded p (snd (apply_op e p s))" by (metis commit_records prod.collapse)
    then show ?thesis by (auto simp: replays_unchanged)
  qed
qed

end

end
