(* ===== verification/Micro.thy ===== *)
theory Micro
  imports Prelude
begin

text \<open>
  Amounts.  Every amount of the service is an integer number of micro-USDC.  In TypeScript it is a
  \<open>bigint\<close>, in PostgreSQL a \<open>NUMERIC(30, 0)\<close>, and it crosses between the two as decimal text
  (\<open>toString(10)\<close> one way, \<open>::text\<close> the other).  This theory models that text: the decimal
  rendering, JavaScript's \<open>String.prototype.trim\<close> and \<open>BigInt(string)\<close>, and the parsers of
  \<open>db/queries.ts\<close>, \<open>routes/kizuna.ts\<close> and \<open>protocol/request-compat.ts\<close> built on them.

  A JavaScript string is a list of code units; a \<open>char\<close> here is a code unit below 256.
\<close>

section \<open>Decimal text\<close>

definition digit_char :: "nat \<Rightarrow> char" where
  "digit_char d = char_of (48 + d)"

definition is_digit :: "char \<Rightarrow> bool" where
  "is_digit c = (48 \<le> (of_char c :: nat) \<and> (of_char c :: nat) \<le> 57)"

definition digit_value :: "char \<Rightarrow> nat" where
  "digit_value c = of_char c - 48"

fun nat_text :: "nat \<Rightarrow> string" where
  "nat_text n = (if n < 10 then [digit_char n] else nat_text (n div 10) @ [digit_char (n mod 10)])"

declare nat_text.simps [simp del]

definition digits_value :: "string \<Rightarrow> nat" where
  "digits_value ds = foldl (\<lambda>a c. 10 * a + digit_value c) 0 ds"

text \<open>The same value computed in integers, for evaluation.\<close>

definition digits_int :: "string \<Rightarrow> int" where
  "digits_int ds = foldl (\<lambda>a c. 10 * a + int (digit_value c)) 0 ds"

lemma int_digits_value [code_unfold]: "int (digits_value ds) = digits_int ds"
proof -
  have "int (foldl (\<lambda>a c. 10 * a + digit_value c) n ds) =
        foldl (\<lambda>a c. 10 * a + int (digit_value c)) (int n) ds" for n
    by (induction ds arbitrary: n) simp_all
  from this [of 0] show ?thesis by (simp add: digits_value_def digits_int_def)
qed

text \<open>\<open>value.toString(10)\<close> of a bigint, and \<open>column::text\<close> of a \<open>NUMERIC(30, 0)\<close>.\<close>

definition numeric_text :: "int \<Rightarrow> string" where
  "numeric_text i = (if i < 0 then CHR ''-'' # nat_text (nat (- i)) else nat_text (nat i))"

text \<open>The same text computed in integers, for evaluation.\<close>

fun int_text :: "int \<Rightarrow> string" where
  "int_text i = (if i < 10 then [digit_char (nat i)] else int_text (i div 10) @ [digit_char (nat (i mod 10))])"

declare int_text.simps [simp del]

lemma int_text_nat: "0 \<le> i \<Longrightarrow> int_text i = nat_text (nat i)"
proof (induction i rule: int_text.induct)
  case (1 i)
  have div: "nat (i div 10) = nat i div 10" and mod: "nat (i mod 10) = nat i mod 10"
    using 1 by (simp_all add: nat_div_distrib nat_mod_distrib)
  have small: "nat i < 10 \<longleftrightarrow> i < 10" by linarith
  show ?case
  proof (cases "i < 10")
    case True
    with small show ?thesis by (simp add: int_text.simps [of i] nat_text.simps [of "nat i"])
  next
    case False
    moreover from this have "int_text (i div 10) = nat_text (nat i div 10)"
      using 1 div by (simp add: pos_imp_zdiv_nonneg_iff)
    ultimately show ?thesis using mod small
      by (simp add: int_text.simps [of i] nat_text.simps [of "nat i"])
  qed
qed

lemma numeric_text_code [code]:
  "numeric_text i = (if i < 0 then CHR ''-'' # int_text (- i) else int_text i)"
  by (simp add: numeric_text_def int_text_nat)

lemma of_char_digit_char [simp]: "d < 10 \<Longrightarrow> (of_char (digit_char d) :: nat) = 48 + d"
  by (simp add: digit_char_def of_char_of)

lemma is_digit_digit_char [simp]: "d < 10 \<Longrightarrow> is_digit (digit_char d)"
  by (simp add: is_digit_def)

lemma digit_value_digit_char [simp]: "d < 10 \<Longrightarrow> digit_value (digit_char d) = d"
  by (simp add: digit_value_def)

lemma digits_value_snoc [simp]:
  "digits_value (ds @ [c]) = 10 * digits_value ds + digit_value c"
  by (simp add: digits_value_def)

lemma digits_value_single [simp]: "digits_value [c] = digit_value c"
  by (simp add: digits_value_def)

lemma digits_value_Nil [simp]: "digits_value [] = 0"
  by (simp add: digits_value_def)

lemma digits_value_nat_text [simp]: "digits_value (nat_text n) = n"
proof (induction n rule: nat_text.induct)
  case (1 n)
  then show ?case by (cases "n < 10") (simp_all add: nat_text.simps [of n])
qed

lemma nat_text_digits [simp]: "list_all is_digit (nat_text n)"
proof (induction n rule: nat_text.induct)
  case (1 n)
  then show ?case by (cases "n < 10") (simp_all add: nat_text.simps [of n])
qed

lemma nat_text_not_Nil [simp]: "nat_text n \<noteq> []"
  by (subst nat_text.simps) simp

lemma digits_value_append:
  "digits_value (xs @ ys) = digits_value xs * 10 ^ length ys + digits_value ys"
proof (induction ys rule: rev_induct)
  case Nil
  then show ?case by simp
next
  case (snoc y ys)
  have "digits_value (xs @ ys @ [y]) = 10 * digits_value (xs @ ys) + digit_value y"
    by (metis append_assoc digits_value_snoc)
  with snoc show ?case by (simp add: algebra_simps)
qed

lemma digits_value_bound: "list_all is_digit ds \<Longrightarrow> digits_value ds < 10 ^ length ds"
proof (induction ds rule: rev_induct)
  case Nil
  then show ?case by simp
next
  case (snoc d ds)
  then have "digit_value d \<le> 9" and "digits_value ds < 10 ^ length ds"
    by (auto simp: is_digit_def digit_value_def)
  then show ?case by simp
qed

section \<open>JavaScript: trim and BigInt(string)\<close>

definition js_space :: "char \<Rightarrow> bool" where
  "js_space c = ((of_char c :: nat) \<in> {9, 10, 11, 12, 13, 32, 160})"

definition js_trim :: "string \<Rightarrow> string" where
  "js_trim s = rev (dropWhile js_space (rev (dropWhile js_space s)))"

definition decimal_value :: "string \<Rightarrow> int option" where
  "decimal_value ds =
     (if ds \<noteq> [] \<and> list_all is_digit ds then Some (int (digits_value ds)) else None)"

definition radix_digit :: "char \<Rightarrow> nat option" where
  "radix_digit c =
     (let n = (of_char c :: nat) in
      if 48 \<le> n \<and> n \<le> 57 then Some (n - 48)
      else if 97 \<le> n \<and> n \<le> 102 then Some (n - 87)
      else if 65 \<le> n \<and> n \<le> 70 then Some (n - 55)
      else None)"

fun radix_value :: "nat \<Rightarrow> nat \<Rightarrow> string \<Rightarrow> nat option" where
  "radix_value b acc [] = Some acc"
| "radix_value b acc (c # cs) =
     (case radix_digit c of
        None \<Rightarrow> None
      | Some d \<Rightarrow> if d < b then radix_value b (b * acc + d) cs else None)"

text \<open>
  \<open>BigInt(s)\<close>: white space around the literal is ignored, the empty string is \<open>0n\<close>, a sign is
  allowed before decimal digits only, the prefixes \<open>0x\<close>, \<open>0o\<close> and \<open>0b\<close> select a radix; anything else
  is a \<open>SyntaxError\<close> (\<open>None\<close>).
\<close>

definition BigInt_of_string :: "string \<Rightarrow> int option" where
  "BigInt_of_string s =
     (let t = js_trim s; p = take 2 t; r = drop 2 t in
      if t = [] then Some 0
      else if p = ''0x'' \<or> p = ''0X'' then
        (if r = [] then None else map_option int (radix_value 16 0 r))
      else if p = ''0o'' \<or> p = ''0O'' then
        (if r = [] then None else map_option int (radix_value 8 0 r))
      else if p = ''0b'' \<or> p = ''0B'' then
        (if r = [] then None else map_option int (radix_value 2 0 r))
      else if hd t = CHR ''-'' then map_option uminus (decimal_value (tl t))
      else if hd t = CHR ''+'' then decimal_value (tl t)
      else decimal_value t)"

lemma digit_not_space: "is_digit c \<Longrightarrow> \<not> js_space c"
  by (auto simp: is_digit_def js_space_def)

lemma js_trim_id:
  assumes "s \<noteq> []" and "\<not> js_space (hd s)" and "\<not> js_space (last s)"
  shows "js_trim s = s"
proof -
  have "dropWhile js_space s = s" using assms by (cases s) auto
  moreover have "dropWhile js_space (rev s) = rev s"
    using assms by (cases s rule: rev_cases) auto
  ultimately show ?thesis by (simp add: js_trim_def)
qed

lemma sign_not_space [simp]: "\<not> js_space CHR ''-''" "\<not> js_space CHR ''+''" "\<not> js_space CHR ''.''"
  by (simp_all add: js_space_def)

lemma js_trim_digits:
  assumes "ds \<noteq> []" and "list_all is_digit ds"
  shows "js_trim ds = ds"
  using assms by (intro js_trim_id) (auto simp: list_all_iff digit_not_space)

lemma js_trim_neg_digits:
  assumes "ds \<noteq> []" and "list_all is_digit ds"
  shows "js_trim (CHR ''-'' # ds) = CHR ''-'' # ds"
  using assms by (intro js_trim_id) (auto simp: list_all_iff digit_not_space)

lemma digits_no_prefix:
  assumes "list_all is_digit ds" and "\<not> is_digit c"
  shows "take 2 ds \<noteq> [CHR ''0'', c]"
proof
  assume "take 2 ds = [CHR ''0'', c]"
  then have "c \<in> set ds" by (metis in_set_takeD list.set_intros(1,2))
  with assms show False by (auto simp: list_all_iff)
qed

lemma not_digit_letters [simp]:
  "\<not> is_digit CHR ''x''" "\<not> is_digit CHR ''X''" "\<not> is_digit CHR ''o''" "\<not> is_digit CHR ''O''"
  "\<not> is_digit CHR ''b''" "\<not> is_digit CHR ''B''" "\<not> is_digit CHR ''-''" "\<not> is_digit CHR ''+''"
  "\<not> is_digit CHR ''.''"
  by (simp_all add: is_digit_def)

lemma BigInt_digits:
  assumes "ds \<noteq> []" and "list_all is_digit ds"
  shows "BigInt_of_string ds = Some (int (digits_value ds))"
proof -
  have hd: "hd ds \<noteq> CHR ''-''" "hd ds \<noteq> CHR ''+''"
    using assms by (auto simp: list_all_iff neq_Nil_conv)
  show ?thesis
    using assms hd
    by (simp add: BigInt_of_string_def Let_def js_trim_digits digits_no_prefix decimal_value_def)
qed

lemma BigInt_neg_digits:
  assumes "ds \<noteq> []" and "list_all is_digit ds"
  shows "BigInt_of_string (CHR ''-'' # ds) = Some (- int (digits_value ds))"
proof -
  obtain d ds' where "ds = d # ds'" using assms(1) by (cases ds) auto
  with assms show ?thesis
    by (simp add: BigInt_of_string_def Let_def js_trim_neg_digits decimal_value_def)
qed

lemma BigInt_numeric_text [simp]: "BigInt_of_string (numeric_text i) = Some i"
  by (simp add: numeric_text_def BigInt_digits BigInt_neg_digits)

lemma numeric_text_inj: "numeric_text i = numeric_text j \<Longrightarrow> i = j"
  by (metis BigInt_numeric_text option.inject)

lemma numeric_text_eq_iff [simp]: "numeric_text i = numeric_text j \<longleftrightarrow> i = j"
  by (auto dest: numeric_text_inj)

section \<open>parseMicro and toNumericDelta (db/queries.ts)\<close>

text \<open>
  \<open>if (!value) return 0n\<close> covers null, undefined and the empty string; a negative or unreadable
  value is \<open>0n\<close> as well.
\<close>

definition parseMicro :: "string option \<Rightarrow> int" where
  "parseMicro v =
     (case v of
        None \<Rightarrow> 0
      | Some s \<Rightarrow> if s = [] then 0
                  else (case BigInt_of_string s of
                          None \<Rightarrow> 0
                        | Some parsed \<Rightarrow> if 0 \<le> parsed then parsed else 0))"

definition toNumericDelta :: "int \<Rightarrow> string" where
  "toNumericDelta i = numeric_text i"

lemma numeric_text_not_Nil [simp]: "numeric_text i \<noteq> []"
  by (simp add: numeric_text_def)

lemma parseMicro_numeric_text [simp]: "parseMicro (Some (numeric_text i)) = max 0 i"
  by (simp add: parseMicro_def)

lemma parseMicro_None [simp]: "parseMicro None = 0"
  by (simp add: parseMicro_def)

lemma parseMicro_nonneg: "0 \<le> parseMicro v"
  by (simp add: parseMicro_def split: option.splits)

section \<open>NUMERIC(30, 0) columns\<close>

text \<open>
  The micro columns are \<open>NUMERIC(30, 0)\<close> with a \<open>CHECK (.. >= 0)\<close>.  \<open>numeric30\<close> is the range of
  values that such a column accepts; a write outside it makes the statement fail.
\<close>

definition numeric30_fits :: "int \<Rightarrow> bool" where
  "numeric30_fits i = (- (10 ^ 30) < i \<and> i < 10 ^ 30)"

definition numeric30 :: "int \<Rightarrow> bool" where
  "numeric30 i = (0 \<le> i \<and> i < 10 ^ 30)"

lemma numeric30_zero [simp]: "numeric30 0"
  by (simp add: numeric30_def)

lemma numeric30_nonneg: "numeric30 i \<Longrightarrow> 0 \<le> i"
  by (simp add: numeric30_def)

section \<open>NUMERIC(20, 6) columns\<close>

text \<open>
  USDC amounts in \<open>settlements\<close> and \<open>fee_ledger\<close> are \<open>NUMERIC(20, 6)\<close>: a write rounds to six decimals,
  halves away from zero, and fails when the result needs more than 14 digits before the point.
\<close>

definition numeric6 :: "rat \<Rightarrow> rat" where
  "numeric6 x =
     (if x < 0 then - of_int \<lfloor>- x * 10 ^ 6 + 1 / 2\<rfloor> else of_int \<lfloor>x * 10 ^ 6 + 1 / 2\<rfloor>) / 10 ^ 6"

definition numeric6_fits :: "rat \<Rightarrow> bool" where
  "numeric6_fits x = (\<bar>numeric6 x\<bar> < 10 ^ 14)"

lemma numeric6_micro: "numeric6 (of_int n / 10 ^ 6) = of_int n / 10 ^ 6"
proof -
  have "\<lfloor>of_int n + 1 / 2 :: rat\<rfloor> = n" by linarith
  moreover have "\<lfloor>- of_int n + 1 / 2 :: rat\<rfloor> = - n" by linarith
  ultimately show ?thesis by (simp add: numeric6_def)
qed

section \<open>parseUsdcMicroAmountBigint (protocol/request-compat.ts)\<close>

text \<open>\<open>String.prototype.padEnd(n, '0')\<close>.\<close>

definition pad_end :: "nat \<Rightarrow> char \<Rightarrow> string \<Rightarrow> string" where
  "pad_end n c s = s @ replicate (n - length s) c"

text \<open>
  A requirement amount is either a plain digit string, read as micro-USDC, or \<open>whole.fraction\<close> with at
  most six fraction digits, read as USDC.  Anything else, and zero, is refused.  \<open>USDC_MICRO\<close> is
  \<open>10 ** 6\<close>.
\<close>

definition parseUsdcMicroAmountBigint :: "string \<Rightarrow> int option" where
  "parseUsdcMicroAmountBigint amountRaw =
     (let trimmed = js_trim amountRaw in
      if trimmed = [] then None
      else if list_all is_digit trimmed then
        (let units = int (digits_value trimmed) in if 0 < units then Some units else None)
      else
        (let whole = takeWhile (\<lambda>c. c \<noteq> CHR ''.'') trimmed;
             rest = dropWhile (\<lambda>c. c \<noteq> CHR ''.'') trimmed in
         case rest of
           [] \<Rightarrow> None
         | _ # fraction \<Rightarrow>
             if whole \<noteq> [] \<and> list_all is_digit whole \<and> list_all is_digit fraction
                \<and> 1 \<le> length fraction \<and> length fraction \<le> 6
             then (let units = int (digits_value whole) * 10 ^ 6
                               + int (digits_value (pad_end 6 CHR ''0'' fraction)) in
                   if 0 < units then Some units else None)
             else None))"

lemma digits_value_zeros [simp]: "digits_value (replicate n CHR ''0'') = 0"
proof (induction n)
  case 0
  then show ?case by simp
next
  case (Suc n)
  have "replicate (Suc n) CHR ''0'' = replicate n CHR ''0'' @ [CHR ''0'']"
    by (simp add: replicate_append_same)
  with Suc show ?case by (simp add: digit_value_def del: replicate.simps)
qed

lemma digits_value_pad_end:
  "length ds \<le> n \<Longrightarrow> digits_value (pad_end n CHR ''0'' ds) = digits_value ds * 10 ^ (n - length ds)"
  by (simp add: pad_end_def digits_value_append)

lemma parseUsdc_digits:
  assumes "ds \<noteq> []" and "list_all is_digit ds"
  shows "parseUsdcMicroAmountBigint ds =
         (if 0 < digits_value ds then Some (int (digits_value ds)) else None)"
  using assms by (simp add: parseUsdcMicroAmountBigint_def js_trim_digits Let_def)

lemma parseUsdc_decimal:
  assumes w: "whole \<noteq> []" "list_all is_digit whole"
    and f: "list_all is_digit fraction" "1 \<le> length fraction" "length fraction \<le> 6"
  shows "parseUsdcMicroAmountBigint (whole @ CHR ''.'' # fraction) =
         (let units = int (digits_value whole) * 10 ^ 6
                      + int (digits_value fraction) * 10 ^ (6 - length fraction) in
          if 0 < units then Some units else None)"
proof -
  let ?s = "whole @ CHR ''.'' # fraction"
  have frac_ne: "fraction \<noteq> []" using f by auto
  have trim: "js_trim ?s = ?s"
    using w f frac_ne
    by (intro js_trim_id) (auto simp: list_all_iff digit_not_space hd_append)
  have nd: "\<not> list_all is_digit ?s" by simp
  have nodot: "\<And>c. c \<in> set whole \<Longrightarrow> c \<noteq> CHR ''.''"
    using w by (auto simp: list_all_iff)
  have tw: "takeWhile (\<lambda>c. c \<noteq> CHR ''.'') ?s = whole"
    using nodot by (simp add: takeWhile_append2)
  have dw: "dropWhile (\<lambda>c. c \<noteq> CHR ''.'') ?s = CHR ''.'' # fraction"
    using nodot by (simp add: dropWhile_append2)
  show ?thesis
    using w f
    by (simp add: parseUsdcMicroAmountBigint_def trim nd tw dw Let_def digits_value_pad_end)
qed

lemma parseUsdc_positive: "parseUsdcMicroAmountBigint s = Some u \<Longrightarrow> 0 < u"
  by (auto simp: parseUsdcMicroAmountBigint_def Let_def split: if_splits list.splits)

end
