(* ===== verification/Json.thy ===== *)
theory Json
  imports Micro
begin

text \<open>
  Request bodies, kernel responses and event metadata are values of type \<open>unknown\<close> that come out of
  \<open>JSON.parse\<close>.  A missing property is \<open>None\<close>, so the helpers take a \<open>json option\<close>.  A JSON number
  is a finite double and is modelled by the rational number it denotes; an object is its list of
  properties, keys pairwise different.
\<close>

datatype json =
    JNull
  | JBool bool
  | JNum rat
  | JStr string
  | JArr "json list"
  | JObj "(string \<times> json) list"

type_synonym json_object = "(string \<times> json) list"

text \<open>\<open>record[key]\<close> on a parsed object.\<close>

definition jget :: "json_object \<Rightarrow> string \<Rightarrow> json option" where
  "jget obj k = map_of obj k"

text \<open>\<open>asRecord(x)?.key\<close>: undefined when \<open>x\<close> is not an object.\<close>

definition jget_opt :: "json_object option \<Rightarrow> string \<Rightarrow> json option" where
  "jget_opt obj k = (case obj of None \<Rightarrow> None | Some ob \<Rightarrow> jget ob k)"

text \<open>\<open>asRecord\<close>: objects only, neither null nor an array.\<close>

definition asRecord :: "json option \<Rightarrow> json_object option" where
  "asRecord v = (case v of Some (JObj ob) \<Rightarrow> Some ob | _ \<Rightarrow> None)"

text \<open>\<open>asString\<close>: a string with something left after trimming.\<close>

definition asString :: "json option \<Rightarrow> string option" where
  "asString v =
     (case v of
        Some (JStr s) \<Rightarrow> if js_trim s \<noteq> [] then Some (js_trim s) else None
      | _ \<Rightarrow> None)"

definition asNumber :: "json option \<Rightarrow> rat option" where
  "asNumber v = (case v of Some (JNum n) \<Rightarrow> Some n | _ \<Rightarrow> None)"

definition asBoolean :: "json option \<Rightarrow> bool option" where
  "asBoolean v = (case v of Some (JBool b) \<Rightarrow> Some b | _ \<Rightarrow> None)"

text \<open>\<open>a || b\<close> on \<open>string | undefined\<close> values, where a present value is never empty.\<close>

definition or_else :: "'a option \<Rightarrow> 'a option \<Rightarrow> 'a option" where
  "or_else a b = (case a of Some x \<Rightarrow> Some x | None \<Rightarrow> b)"

lemma or_else_simps [simp]:
  "or_else (Some x) b = Some x" "or_else None b = b"
  by (simp_all add: or_else_def)

lemma or_else_Some_iff: "or_else a b = Some x \<longleftrightarrow> a = Some x \<or> (a = None \<and> b = Some x)"
  by (cases a) simp_all

lemma asString_not_Nil: "asString v = Some s \<Longrightarrow> s \<noteq> []"
  by (auto simp: asString_def split: option.splits json.splits if_splits)

lemma asString_None [simp]: "asString None = None"
  by (simp add: asString_def)

lemma asString_JStr: "asString (Some (JStr s)) = (if js_trim s \<noteq> [] then Some (js_trim s) else None)"
  by (simp add: asString_def)

section \<open>parsePositiveMicro and parseNonNegativeMicro (routes/kizuna.ts)\<close>

text \<open>\<open>Number.isSafeInteger\<close>.\<close>

definition safe_integer :: "rat \<Rightarrow> bool" where
  "safe_integer n = (of_int \<lfloor>n\<rfloor> = n \<and> \<bar>n\<bar> \<le> 9007199254740991)"

definition parseNonNegativeMicro :: "json option \<Rightarrow> int option" where
  "parseNonNegativeMicro v =
     (case v of
        Some (JNum n) \<Rightarrow> if safe_integer n \<and> 0 \<le> n then Some \<lfloor>n\<rfloor> else None
      | Some (JStr s) \<Rightarrow> decimal_value (js_trim s)
      | _ \<Rightarrow> None)"

definition parsePositiveMicro :: "json option \<Rightarrow> int option" where
  "parsePositiveMicro v =
     (case v of
        Some (JNum n) \<Rightarrow> if safe_integer n \<and> 0 < n then Some \<lfloor>n\<rfloor> else None
      | Some (JStr s) \<Rightarrow>
          (case decimal_value (js_trim s) of
             None \<Rightarrow> None
           | Some parsed \<Rightarrow> if 0 < parsed then Some parsed else None)
      | _ \<Rightarrow> None)"

lemma parsePositiveMicro_pos: "parsePositiveMicro v = Some n \<Longrightarrow> 0 < n"
  by (auto simp: parsePositiveMicro_def safe_integer_def zero_less_floor
           split: option.splits json.splits if_splits)

lemma parseNonNegativeMicro_nonneg: "parseNonNegativeMicro v = Some n \<Longrightarrow> 0 \<le> n"
  by (auto simp: parseNonNegativeMicro_def decimal_value_def
           split: option.splits json.splits if_splits)

end
