(* ===== verification/Schema.thy ===== *)
theory Schema
  imports Json
begin

text \<open>
  The database of the x402 facilitator: one record per row type of \<open>db/queries.ts\<close>, and \<open>db\<close>, the
  tables of \<open>db/migrate.ts\<close>.  Micro amounts are the integers that the \<open>NUMERIC(30, 0)\<close> columns hold;
  instants are milliseconds; ids are the text of the generated UUIDs.  Enumerated text columns with
  a \<open>CHECK (.. IN ..)\<close> are datatypes.
\<close>

section \<open>Enumerations\<close>

datatype lane = Enterprise | CryptoFast

datatype funding_mode = FundNone | Prefunded | Collateralized

datatype account_status = AccountActive | AccountSuspended

datatype reservation_status = Reserved | Consumed | Released | Expired

datatype debt_status = Open | Closed | WrittenOff

datatype flow = Deposit | Withdraw

datatype position_status = PositionActive | PositionFrozen | PositionClosed

datatype pool_status = PoolActive | PoolPaused | PoolFrozen

datatype trust_event_type =
    SettlementConfirmed
  | RepaymentReceived
  | CollateralDeposited
  | CollateralWithdrawn

text \<open>The text form of a lane, used in keys and messages.\<close>

fun lane_text :: "lane \<Rightarrow> string" where
  "lane_text Enterprise = ''enterprise''"
| "lane_text CryptoFast = ''crypto-fast''"

lemma lane_text_inj: "lane_text a = lane_text b \<Longrightarrow> a = b"
  by (cases a; cases b) simp_all

section \<open>Row types\<close>

record kizuna_account =
  a_agent_id :: string
  a_payer_wallet :: string
  a_repay_wallet :: string
  a_passport_address :: "string option"
  a_networks :: "string list"
  a_mandate_single_limit_micro :: "int option"
  a_mandate_daily_limit_micro :: "int option"
  a_mandate_monthly_limit_micro :: "int option"
  a_mandate_human_approval_micro :: "int option"
  a_status :: account_status
  a_created_at :: int
  a_updated_at :: int

record kizuna_decision =
  dc_id :: string
  dc_agent_id :: string
  dc_payer_wallet :: string
  dc_repay_wallet :: string
  dc_request_nonce :: string
  dc_network :: string
  dc_lane :: lane
  dc_pool_id :: string
  dc_requested_micro :: int
  dc_approved :: bool
  dc_approved_micro :: int
  dc_available_micro :: int
  dc_outstanding_micro :: int
  dc_score_raw :: int
  dc_reason_codes :: "string list"
  dc_tier :: string
  dc_policy_pack_id :: "string option"
  dc_policy_pack_version :: "string option"
  dc_risk_band :: "string option"
  dc_risk_action :: "string option"
  dc_ltv_bps :: "int option"
  dc_health_factor :: "rat option"
  dc_request_hash :: "string option"
  dc_signing_kid :: "string option"
  dc_envelope_version :: "string option"
  dc_decision_envelope_hash :: "string option"
  dc_created_at :: int

record kizuna_reservation =
  r_id :: string
  r_decision_id :: string
  r_agent_id :: string
  r_payer_wallet :: string
  r_request_nonce :: string
  r_network :: string
  r_lane :: lane
  r_pool_id :: string
  r_amount_micro :: int
  r_funding_mode :: funding_mode
  r_locked_micro :: int
  r_status :: reservation_status
  r_expires_at :: int
  r_settlement_id :: "string option"
  r_tx_hash :: "string option"
  r_created_at :: int
  r_updated_at :: int

record kizuna_debt =
  d_id :: string
  d_agent_id :: string
  d_payer_wallet :: string
  d_repay_wallet :: string
  d_network :: string
  d_lane :: lane
  d_pool_id :: string
  d_settlement_id :: string
  d_decision_id :: "string option"
  d_reservation_id :: "string option"
  d_decision_envelope_hash :: "string option"
  d_principal_micro :: int
  d_outstanding_micro :: int
  d_status :: debt_status
  d_tx_hash :: "string option"
  d_created_at :: int
  d_updated_at :: int
  d_closed_at :: "int option"

record kizuna_repayment =
  rp_id :: string
  rp_agent_id :: string
  rp_debt_id :: "string option"
  rp_reference_id :: string
  rp_amount_micro :: int
  rp_applied_micro :: int
  rp_created_at :: int

record pool_reserve =
  pr_lane :: lane
  pr_reserved_micro :: int
  pr_outstanding_micro :: int
  pr_collateral_value_micro :: int
  pr_updated_at :: int

record fastpath_pool =
  fp_status :: pool_status
  fp_ltv_cap_bps :: int
  fp_reserve_ratio_bps :: int
  fp_min_health_factor :: rat
  fp_max_single_micro :: int

record collateral_asset =
  ca_symbol :: string
  ca_chain :: string
  ca_haircut_bps :: int
  ca_volatility_buffer_bps :: int
  ca_active :: bool

record collateral_position =
  cp_id :: string
  cp_agent_id :: string
  cp_pool_id :: string
  cp_collateral_account :: string
  cp_asset_id :: string
  cp_deposited_micro :: int
  cp_withdrawn_micro :: int
  cp_locked_micro :: int
  cp_status :: position_status
  cp_created_at :: int
  cp_updated_at :: int

record collateral_event =
  ce_agent_id :: string
  ce_pool_id :: string
  ce_lane :: lane
  ce_collateral_account :: string
  ce_asset_id :: string
  ce_reference_id :: string
  ce_event_type :: flow
  ce_amount_micro :: int
  ce_tx_hash :: "string option"
  ce_created_at :: int

record health_snapshot =
  hs_agent_id :: string
  hs_lane :: lane
  hs_pool_id :: string
  hs_collateral_value_micro :: int
  hs_debt_outstanding_micro :: int
  hs_ltv_bps :: int
  hs_health_factor :: rat
  hs_created_at :: int

record billable_event =
  be_id :: string
  be_reservation_id :: string
  be_settlement_id :: string
  be_debt_id :: "string option"
  be_agent_id :: string
  be_payer_wallet :: string
  be_merchant_wallet :: string
  be_network :: string
  be_lane :: lane
  be_pool_id :: string
  be_amount_micro :: int
  be_idempotency_key :: string
  be_emitted_at :: int

record enterprise_balance =
  eb_available_micro :: int
  eb_reserved_micro :: int
  eb_spent_micro :: int
  eb_updated_at :: int

record funding_event =
  fe_id :: string
  fe_agent_id :: string
  fe_lane :: lane
  fe_pool_id :: string
  fe_reference_id :: string
  fe_event_type :: flow
  fe_amount_micro :: int
  fe_tx_hash :: "string option"
  fe_metadata :: json_object
  fe_created_at :: int

record trust_payload =
  tp_event_id :: string
  tp_entity_id :: string
  tp_event_type :: trust_event_type
  tp_occurred_at :: int
  tp_lane :: lane
  tp_pool_id :: string
  tp_network :: "string option"
  tp_amount_micro :: "string option"
  tp_currency :: "string option"
  tp_tx_hash :: "string option"
  tp_reference_id :: "string option"
  tp_settlement_id :: "string option"
  tp_reservation_id :: "string option"
  tp_debt_id :: "string option"
  tp_payer_wallet :: "string option"
  tp_repay_wallet :: "string option"
  tp_merchant_wallet :: "string option"
  tp_collateral_account :: "string option"
  tp_asset_id :: "string option"
  tp_metadata :: json_object

record outbox_row =
  ob_id :: string
  ob_event_id :: string
  ob_event_type :: trust_event_type
  ob_entity_id :: string
  ob_idempotency_key :: string
  ob_payload :: trust_payload
  ob_attempt_count :: int
  ob_next_attempt_at :: int
  ob_leased_until :: "int option"
  ob_last_attempt_at :: "int option"
  ob_last_http_status :: "int option"
  ob_last_error :: "string option"
  ob_delivered_at :: "int option"
  ob_created_at :: int
  ob_updated_at :: int

datatype settlement_status = SettlementPending | SettlementConfirmedS | SettlementFailed

record settlement_row =
  st_id :: string
  st_merchant_wallet :: string
  st_payer_wallet :: string
  st_amount :: rat
  st_fee_amount :: rat
  st_asset :: string
  st_tx_hash :: string
  st_status :: settlement_status
  st_network :: string
  st_created_at :: int

record fee_row =
  fl_settlement_id :: "string option"
  fl_escrow_id :: "string option"
  fl_fee_type :: string
  fl_amount :: rat
  fl_treasury_tx :: "string option"

record nonce_guard =
  ng_usage :: string
  ng_network :: string
  ng_resource :: string
  ng_amount :: rat
  ng_created_at :: int
  ng_tx_hash :: "string option"
  ng_settlement_id :: "string option"

record session_challenge =
  sc_payer_wallet :: string
  sc_network :: string
  sc_merchant_wallet :: string
  sc_max_total_micro :: int
  sc_max_single_micro :: "int option"
  sc_session_expires_at :: int
  sc_message :: string
  sc_expires_at :: int
  sc_used_at :: "int option"

record payment_session =
  ps_payer_wallet :: string
  ps_network :: string
  ps_merchant_wallet :: string
  ps_max_total_micro :: int
  ps_max_single_micro :: "int option"
  ps_spent_micro :: int
  ps_expires_at :: int
  ps_last_used_at :: "int option"
  ps_revoked_at :: "int option"

section \<open>The database\<close>

record db =
  t_accounts :: "string \<rightharpoonup> kizuna_account"
  t_decisions :: "kizuna_decision list"
  t_reservations :: "kizuna_reservation list"
  t_debts :: "kizuna_debt list"
  t_repayments :: "kizuna_repayment list"
  t_settlements :: "settlement_row list"
  t_fee_ledger :: "fee_row list"
  t_pool_reserves :: "string \<rightharpoonup> pool_reserve"
  t_fastpath_pools :: "string \<rightharpoonup> fastpath_pool"
  t_collateral_assets :: "string \<rightharpoonup> collateral_asset"
  t_collateral_positions :: "collateral_position list"
  t_collateral_events :: "collateral_event list"
  t_health_snapshots :: "health_snapshot list"
  t_billable_events :: "billable_event list"
  t_enterprise_balances :: "string \<times> string \<rightharpoonup> enterprise_balance"
  t_funding_events :: "funding_event list"
  t_outbox :: "outbox_row list"
  t_nonce_guard :: "string \<times> string \<rightharpoonup> nonce_guard"
  t_session_challenges :: "string \<rightharpoonup> session_challenge"
  t_payment_sessions :: "string \<rightharpoonup> payment_session"

text \<open>
  What a transaction takes from its surroundings: \<open>NOW()\<close> of the database (the transaction's start
  time), \<open>Date.now()\<close> of the process, the ids that successive \<open>gen_random_uuid()\<close> calls return, and
  the hash function \<open>createHash('sha256').update(text).digest('hex')\<close> of Node's crypto module.
\<close>

record env =
  env_now :: int
  env_date_now :: int
  env_uuid :: "nat \<Rightarrow> string"
  env_sha256 :: "string \<Rightarrow> string"

text \<open>The rows that the migrations insert.\<close>

definition seed_reserve :: "lane \<Rightarrow> int \<Rightarrow> pool_reserve" where
  "seed_reserve l now =
     \<lparr>pr_lane = l, pr_reserved_micro = 0, pr_outstanding_micro = 0,
      pr_collateral_value_micro = 0, pr_updated_at = now\<rparr>"

definition seed_db :: "int \<Rightarrow> db" where
  "seed_db now =
     \<lparr>t_accounts = Map.empty, t_decisions = [], t_reservations = [], t_debts = [],
      t_repayments = [], t_settlements = [], t_fee_ledger = [],
      t_pool_reserves =
        [''enterprise-main'' \<mapsto> seed_reserve Enterprise now,
         ''fastpath-main'' \<mapsto> seed_reserve CryptoFast now],
      t_fastpath_pools =
        [''fastpath-main'' \<mapsto>
           \<lparr>fp_status = PoolActive, fp_ltv_cap_bps = 6000, fp_reserve_ratio_bps = 10000,
            fp_min_health_factor = 3 / 2, fp_max_single_micro = 2000000\<rparr>],
      t_collateral_assets =
        [''usdc'' \<mapsto>
           \<lparr>ca_symbol = ''USDC'', ca_chain = ''multi'', ca_haircut_bps = 0,
            ca_volatility_buffer_bps = 0, ca_active = True\<rparr>],
      t_collateral_positions = [], t_collateral_events = [], t_health_snapshots = [],
      t_billable_events = [], t_enterprise_balances = Map.empty, t_funding_events = [],
      t_outbox = [], t_nonce_guard = Map.empty, t_session_challenges = Map.empty,
      t_payment_sessions = Map.empty\<rparr>"

section \<open>Constraint checks shared by the inserts\<close>

definition check_numeric30 :: "string \<Rightarrow> int \<Rightarrow> (db, unit) tx" where
  "check_numeric30 col v =
     (\<lambda>s. if \<not> numeric30_fits v then Inl (Pg (NumericOverflow col))
          else if v < 0 then Inl (Pg (CheckViolation col))
          else Inr ((), s))"

lemma check_numeric30_success [simp]:
  "check_numeric30 col v s = Inr r \<longleftrightarrow> numeric30 v \<and> r = ((), s)"
  by (auto simp: check_numeric30_def numeric30_def numeric30_fits_def)

lemma check_numeric30_ok [simp]: "numeric30 v \<Longrightarrow> check_numeric30 col v s = Inr ((), s)"
  by simp

definition fk_account :: "string \<Rightarrow> (db, unit) tx" where
  "fk_account agent = ensureT (\<lambda>s. t_accounts s agent \<noteq> None) (Pg (ForeignKeyViolation ''agent_id''))"

lemma fk_account_success [simp]:
  "fk_account agent s = Inr r \<longleftrightarrow> t_accounts s agent \<noteq> None \<and> r = ((), s)"
  by (auto simp: fk_account_def)

section \<open>Sample values for the witnesses\<close>

definition sample_env :: "int \<Rightarrow> env" where
  "sample_env now =
     \<lparr>env_now = now, env_date_now = now, env_uuid = nat_text, env_sha256 = (\<lambda>t. t)\<rparr>"

lemma sample_env_sel [simp]:
  "env_now (sample_env t) = t" "env_date_now (sample_env t) = t" "env_sha256 (sample_env t) x = x"
  "env_uuid (sample_env t) n = nat_text n"
  by (simp_all add: sample_env_def)

definition sample_account :: kizuna_account where
  "sample_account =
     \<lparr>a_agent_id = ''agent-1'', a_payer_wallet = ''payer'', a_repay_wallet = ''repay'',
      a_passport_address = None, a_networks = [''eip155:8453''], a_mandate_single_limit_micro = None,
      a_mandate_daily_limit_micro = None, a_mandate_monthly_limit_micro = None,
      a_mandate_human_approval_micro = None, a_status = AccountActive, a_created_at = 0,
      a_updated_at = 0\<rparr>"

definition sample_decision :: kizuna_decision where
  "sample_decision =
     \<lparr>dc_id = ''dec-1'', dc_agent_id = ''agent-1'', dc_payer_wallet = ''payer'',
      dc_repay_wallet = ''repay'', dc_request_nonce = ''n1'', dc_network = ''eip155:8453'',
      dc_lane = Enterprise, dc_pool_id = ''enterprise-main'', dc_requested_micro = 50,
      dc_approved = True, dc_approved_micro = 50, dc_available_micro = 100,
      dc_outstanding_micro = 0, dc_score_raw = 700, dc_reason_codes = [], dc_tier = ''gold'',
      dc_policy_pack_id = None, dc_policy_pack_version = None, dc_risk_band = None,
      dc_risk_action = None, dc_ltv_bps = None, dc_health_factor = None, dc_request_hash = None,
      dc_signing_kid = None, dc_envelope_version = None, dc_decision_envelope_hash = None,
      dc_created_at = 0\<rparr>"

definition sample_funding :: funding_event where
  "sample_funding =
     \<lparr>fe_id = ''fund-1'', fe_agent_id = ''agent-1'', fe_lane = Enterprise,
      fe_pool_id = ''enterprise-main'', fe_reference_id = ''ref-1'', fe_event_type = Deposit,
      fe_amount_micro = 100, fe_tx_hash = None, fe_metadata = [], fe_created_at = 0\<rparr>"

text \<open>One account with 100 micro-USDC of prefunding and one underwriting decision.\<close>

definition sample_ledger :: db where
  "sample_ledger = (seed_db 0)
     \<lparr>t_accounts := [''agent-1'' \<mapsto> sample_account],
      t_decisions := [sample_decision],
      t_enterprise_balances :=
        [(''agent-1'', ''enterprise-main'') \<mapsto>
           \<lparr>eb_available_micro = 100, eb_reserved_micro = 0, eb_spent_micro = 0, eb_updated_at = 0\<rparr>],
      t_funding_events := [sample_funding]\<rparr>"

end
