(* ===== verification/Pools.thy ===== *)
theory Pools
  imports Schema
begin

text \<open>
  The two balance tables that every ledger transaction updates: the reserve row of a pool and the
  prefunded balance of an agent in a pool (\<open>bumpKizunaPoolReserve\<close> and
  \<open>mutateKizunaEnterpriseBalance\<close> of \<open>db/queries.ts\<close>), with the notion of a balance row that agrees
  with totals computed from other tables.
\<close>

section \<open>Pool reserves\<close>

definition put_reserve :: "string \<Rightarrow> pool_reserve \<Rightarrow> db \<Rightarrow> db" where
  "put_reserve pool row s = s\<lparr>t_pool_reserves := (t_pool_reserves s)(pool \<mapsto> row)\<rparr>"

interpretation reserves: keyed_store t_pool_reserves put_reserve
  by unfold_locales (simp_all add: put_reserve_def)

definition ensureKizunaPoolReserve :: "env \<Rightarrow> string \<Rightarrow> lane \<Rightarrow> (db, unit) tx" where
  "ensureKizunaPoolReserve e poolId l =
     modifyT (insert_if_absent t_pool_reserves put_reserve poolId (seed_reserve l (env_now e)))"

text \<open>
  The update names both the pool and the lane, so it changes no row when the pool is registered
  for the other lane.  \<open>GREATEST(.., 0)\<close> is \<open>max\<close>; a value that does not fit the column raises.
\<close>

definition bumped_reserve :: "env \<Rightarrow> int \<Rightarrow> int \<Rightarrow> int \<Rightarrow> pool_reserve \<Rightarrow> pool_reserve" where
  "bumped_reserve e reservedDelta outstandingDelta collateralDelta r =
     r\<lparr>pr_reserved_micro := max (pr_reserved_micro r + reservedDelta) 0,
       pr_outstanding_micro := max (pr_outstanding_micro r + outstandingDelta) 0,
       pr_collateral_value_micro := max (pr_collateral_value_micro r + collateralDelta) 0,
       pr_updated_at := env_now e\<rparr>"

definition reserve_fits :: "pool_reserve \<Rightarrow> bool" where
  "reserve_fits r = (numeric30 (pr_reserved_micro r) \<and> numeric30 (pr_outstanding_micro r) \<and>
                     numeric30 (pr_collateral_value_micro r))"

definition bumpKizunaPoolReserve ::
  "env \<Rightarrow> string \<Rightarrow> lane \<Rightarrow> int \<Rightarrow> int \<Rightarrow> int \<Rightarrow> (db, unit) tx" where
  "bumpKizunaPoolReserve e poolId l reservedDelta outstandingDelta collateralDelta =
     thenT (ensureKizunaPoolReserve e poolId l) (\<lambda>s.
       case t_pool_reserves s poolId of
         None \<Rightarrow> Inr ((), s)
       | Some row \<Rightarrow>
           (if pr_lane row \<noteq> l then Inr ((), s)
            else (let row' = bumped_reserve e reservedDelta outstandingDelta collateralDelta row in
                  if reserve_fits row' then Inr ((), put_reserve poolId row' s)
                  else Inl (Pg (NumericOverflow ''kizuna_pool_reserves'')))))"

text \<open>The reserve table after a bump that did not overflow.\<close>

definition bumped_table ::
  "env \<Rightarrow> string \<Rightarrow> lane \<Rightarrow> int \<Rightarrow> int \<Rightarrow> int \<Rightarrow> (string \<rightharpoonup> pool_reserve) \<Rightarrow> (string \<rightharpoonup> pool_reserve)" where
  "bumped_table e poolId l dr do dc R =
     (let row = (case R poolId of None \<Rightarrow> seed_reserve l (env_now e) | Some r \<Rightarrow> r) in
      R(poolId \<mapsto> (if pr_lane row = l then bumped_reserve e dr do dc row else row)))"

lemma bump_success:
  assumes "bumpKizunaPoolReserve e pool l dr do dc s = Inr (u, s')"
  shows "s' = s\<lparr>t_pool_reserves := bumped_table e pool l dr do dc (t_pool_reserves s)\<rparr>"
  using assms
  by (auto simp: bumpKizunaPoolReserve_def ensureKizunaPoolReserve_def thenT_def bindT_def
        insert_if_absent_def put_reserve_def bumped_table_def Let_def seed_reserve_def fun_upd_idem
      split: option.splits if_splits)

lemma bump_fits:
  assumes "bumpKizunaPoolReserve e pool l dr do dc s = Inr (u, s')"
    and "\<And>p r. t_pool_reserves s p = Some r \<Longrightarrow> reserve_fits r"
    and "t_pool_reserves s' p = Some r"
  shows "reserve_fits r"
  using assms
  by (auto simp: bumpKizunaPoolReserve_def ensureKizunaPoolReserve_def thenT_def bindT_def
        insert_if_absent_def put_reserve_def seed_reserve_def reserve_fits_def Let_def
      split: option.splits if_splits)

text \<open>
  A reserve table that agrees with per-lane totals: the row of a pool holds the totals of its own
  lane, and a pool without a row has no totals at all.
\<close>

definition reserve_matches :: "pool_reserve option \<Rightarrow> (lane \<Rightarrow> int) \<Rightarrow> (lane \<Rightarrow> int) \<Rightarrow> bool" where
  "reserve_matches ro reserved outstanding =
     (case ro of
        None \<Rightarrow> \<forall>l. reserved l = 0 \<and> outstanding l = 0
      | Some row \<Rightarrow> pr_reserved_micro row = reserved (pr_lane row) \<and>
                    pr_outstanding_micro row = outstanding (pr_lane row))"

definition reserves_agree ::
  "(string \<rightharpoonup> pool_reserve) \<Rightarrow> (string \<Rightarrow> lane \<Rightarrow> int) \<Rightarrow> (string \<Rightarrow> lane \<Rightarrow> int) \<Rightarrow> bool" where
  "reserves_agree R reserved outstanding = (\<forall>p. reserve_matches (R p) (reserved p) (outstanding p))"

lemma reserve_matches_simps [simp]:
  "reserve_matches None f g \<longleftrightarrow> (\<forall>l. f l = 0 \<and> g l = 0)"
  "reserve_matches (Some row) f g \<longleftrightarrow>
     pr_reserved_micro row = f (pr_lane row) \<and> pr_outstanding_micro row = g (pr_lane row)"
  by (simp_all add: reserve_matches_def)

lemma reserves_agree_at: "reserves_agree R f g \<Longrightarrow> reserve_matches (R p) (f p) (g p)"
  by (simp add: reserves_agree_def)

lemma reserves_agreeD:
  "reserves_agree R f g \<Longrightarrow> R p = Some row \<Longrightarrow>
   pr_reserved_micro row = f p (pr_lane row) \<and> pr_outstanding_micro row = g p (pr_lane row)"
  using reserves_agree_at [of R f g p] by simp

lemma bumped_table_other: "p \<noteq> pool \<Longrightarrow> bumped_table e pool l dr do dc R p = R p"
  by (simp add: bumped_table_def Let_def)

text \<open>
  A bump by the change of the totals keeps the agreement.  The premises say that only the totals of
  the bumped pool and lane change, by the deltas, and stay nonnegative (so the clamp is idle).
\<close>

lemma bump_agree:
  assumes agree: "reserves_agree R f g"
    and f': "\<And>p k. f' p k = f p k + (if p = pool \<and> k = l then dr else 0)"
    and g': "\<And>p k. g' p k = g p k + (if p = pool \<and> k = l then do else 0)"
    and nonneg: "0 \<le> f' pool l" "0 \<le> g' pool l"
  shows "reserves_agree (bumped_table e pool l dr do dc R) f' g'"
  unfolding reserves_agree_def
proof
  fix p
  note at = reserves_agree_at [OF agree, of p]
  show "reserve_matches (bumped_table e pool l dr do dc R p) (f' p) (g' p)"
  proof (cases "p = pool")
    case True
    with at nonneg show ?thesis
      by (cases "R pool")
        (auto simp: bumped_table_def Let_def bumped_reserve_def seed_reserve_def f' g')
  next
    case False
    with at have "reserve_matches (R p) (f' p) (g' p)"
      by (cases "R p") (simp_all add: f' g')
    with False show ?thesis by (simp add: bumped_table_other)
  qed
qed

lemma bump_zero_agree:
  "reserves_agree R f g \<Longrightarrow> 0 \<le> f pool l \<Longrightarrow> 0 \<le> g pool l \<Longrightarrow>
   reserves_agree (bumped_table e pool l 0 0 dc R) f g"
  by (rule bump_agree) simp_all

section \<open>Prefunded balances\<close>

definition put_balance :: "string \<times> string \<Rightarrow> enterprise_balance \<Rightarrow> db \<Rightarrow> db" where
  "put_balance k row s = s\<lparr>t_enterprise_balances := (t_enterprise_balances s)(k \<mapsto> row)\<rparr>"

interpretation balances: keyed_store t_enterprise_balances put_balance
  by unfold_locales (simp_all add: put_balance_def)

definition empty_balance :: "int \<Rightarrow> enterprise_balance" where
  "empty_balance now =
     \<lparr>eb_available_micro = 0, eb_reserved_micro = 0, eb_spent_micro = 0, eb_updated_at = now\<rparr>"

definition ensureKizunaEnterpriseBalance :: "env \<Rightarrow> string \<Rightarrow> string \<Rightarrow> (db, unit) tx" where
  "ensureKizunaEnterpriseBalance e agentId poolId = (\<lambda>s.
     if t_enterprise_balances s (agentId, poolId) \<noteq> None then Inr ((), s)
     else thenT (fk_account agentId)
            (modifyT (put_balance (agentId, poolId) (empty_balance (env_now e)))) s)"

definition moved_balance :: "env \<Rightarrow> int \<Rightarrow> int \<Rightarrow> int \<Rightarrow> enterprise_balance \<Rightarrow> enterprise_balance" where
  "moved_balance e availableDelta reservedDelta spentDelta b =
     b\<lparr>eb_available_micro := eb_available_micro b + availableDelta,
       eb_reserved_micro := eb_reserved_micro b + reservedDelta,
       eb_spent_micro := eb_spent_micro b + spentDelta,
       eb_updated_at := env_now e\<rparr>"

definition at_least :: "int \<Rightarrow> int option \<Rightarrow> bool" where
  "at_least x bound = (case bound of None \<Rightarrow> True | Some m \<Rightarrow> m \<le> x)"

text \<open>
  The guarded update: it returns the changed row, or \<open>None\<close> when the \<open>WHERE\<close> clause rejects the move
  (a component would become negative or a minimum is not met); the row then stays as it is.
\<close>

definition mutateKizunaEnterpriseBalance ::
  "env \<Rightarrow> string \<Rightarrow> string \<Rightarrow> int \<Rightarrow> int \<Rightarrow> int \<Rightarrow> int option \<Rightarrow> int option
   \<Rightarrow> (db, enterprise_balance option) tx" where
  "mutateKizunaEnterpriseBalance e agentId poolId availableDelta reservedDelta spentDelta
       minAvailable minReserved =
     thenT (ensureKizunaEnterpriseBalance e agentId poolId) (\<lambda>s.
       case t_enterprise_balances s (agentId, poolId) of
         None \<Rightarrow> Inr (None, s)
       | Some b \<Rightarrow>
           (let b' = moved_balance e availableDelta reservedDelta spentDelta b in
            if 0 \<le> eb_available_micro b' \<and> 0 \<le> eb_reserved_micro b' \<and> 0 \<le> eb_spent_micro b'
               \<and> at_least (eb_available_micro b) minAvailable
               \<and> at_least (eb_reserved_micro b) minReserved
            then (if numeric30 (eb_available_micro b') \<and> numeric30 (eb_reserved_micro b')
                     \<and> numeric30 (eb_spent_micro b')
                  then Inr (Some b', put_balance (agentId, poolId) b' s)
                  else Inl (Pg (NumericOverflow ''kizuna_enterprise_balances'')))
            else Inr (None, s)))"

definition moved_table ::
  "env \<Rightarrow> string \<times> string \<Rightarrow> int \<Rightarrow> int \<Rightarrow> int \<Rightarrow> (string \<times> string \<rightharpoonup> enterprise_balance)
   \<Rightarrow> (string \<times> string \<rightharpoonup> enterprise_balance)" where
  "moved_table e k da dr ds B =
     B(k \<mapsto> moved_balance e da dr ds
             (case B k of None \<Rightarrow> empty_balance (env_now e) | Some b \<Rightarrow> b))"

lemma mutate_success:
  assumes "mutateKizunaEnterpriseBalance e a p da dr ds ma mr s = Inr (Some b, s')"
  shows "s' = s\<lparr>t_enterprise_balances := moved_table e (a, p) da dr ds (t_enterprise_balances s)\<rparr>"
    and "t_enterprise_balances s' (a, p) = Some b"
    and "numeric30 (eb_available_micro b)" and "numeric30 (eb_reserved_micro b)"
    and "numeric30 (eb_spent_micro b)"
  using assms
  by (auto simp: mutateKizunaEnterpriseBalance_def ensureKizunaEnterpriseBalance_def thenT_def
        bindT_def put_balance_def moved_table_def fk_account_def ensureT_def Let_def
      split: option.splits if_splits)

text \<open>
  A rejected move changes no balance that exists; at most it leaves behind the empty row that
  \<open>ensure\<close> inserted.
\<close>

lemma mutate_rejected:
  assumes "mutateKizunaEnterpriseBalance e a p da dr ds ma mr s = Inr (None, s')"
  shows "s' = s \<or> (t_enterprise_balances s (a, p) = None \<and>
                   s' = put_balance (a, p) (empty_balance (env_now e)) s)"
  using assms
  by (auto simp: mutateKizunaEnterpriseBalance_def ensureKizunaEnterpriseBalance_def thenT_def
        bindT_def fk_account_def ensureT_def Let_def split: option.splits if_splits)

text \<open>
  A balance table that agrees with totals per agent and pool.  A missing row stands for zeros.
\<close>

definition balance_matches :: "enterprise_balance option \<Rightarrow> int \<Rightarrow> int \<Rightarrow> int \<Rightarrow> bool" where
  "balance_matches bo funded reserved spent =
     (case bo of
        None \<Rightarrow> funded = 0 \<and> reserved = 0 \<and> spent = 0
      | Some b \<Rightarrow> 0 \<le> eb_available_micro b \<and> 0 \<le> eb_reserved_micro b \<and> 0 \<le> eb_spent_micro b \<and>
                  eb_available_micro b + eb_reserved_micro b + eb_spent_micro b = funded \<and>
                  eb_reserved_micro b = reserved \<and> eb_spent_micro b = spent)"

definition balances_agree ::
  "(string \<times> string \<rightharpoonup> enterprise_balance) \<Rightarrow> (string \<times> string \<Rightarrow> int) \<Rightarrow>
   (string \<times> string \<Rightarrow> int) \<Rightarrow> (string \<times> string \<Rightarrow> int) \<Rightarrow> bool" where
  "balances_agree B funded reserved spent =
     (\<forall>k. balance_matches (B k) (funded k) (reserved k) (spent k))"

lemma balance_matches_simps [simp]:
  "balance_matches None f r sp \<longleftrightarrow> f = 0 \<and> r = 0 \<and> sp = 0"
  "balance_matches (Some b) f r sp \<longleftrightarrow>
     0 \<le> eb_available_micro b \<and> 0 \<le> eb_reserved_micro b \<and> 0 \<le> eb_spent_micro b \<and>
     eb_available_micro b + eb_reserved_micro b + eb_spent_micro b = f \<and>
     eb_reserved_micro b = r \<and> eb_spent_micro b = sp"
  by (simp_all add: balance_matches_def)

lemma balances_agree_at:
  "balances_agree B f r sp \<Longrightarrow> balance_matches (B k) (f k) (r k) (sp k)"
  unfolding balances_agree_def by (rule spec)

lemma moved_table_other: "k \<noteq> k0 \<Longrightarrow> moved_table e k0 da dr ds B k = B k"
  by (simp add: moved_table_def)

lemma mutate_agree:
  assumes run: "mutateKizunaEnterpriseBalance e a p da dr ds ma mr s = Inr (Some b, s')"
    and agree: "balances_agree (t_enterprise_balances s) f r sp"
    and f': "\<And>k. f' k = f k + (if k = (a, p) then da + dr + ds else 0)"
    and r': "\<And>k. r' k = r k + (if k = (a, p) then dr else 0)"
    and sp': "\<And>k. sp' k = sp k + (if k = (a, p) then ds else 0)"
  shows "balances_agree (t_enterprise_balances s') f' r' sp'"
  unfolding balances_agree_def
proof
  fix k
  note s' = mutate_success(1) [OF run] and at = mutate_success(2) [OF run]
  have fits: "0 \<le> eb_available_micro b" "0 \<le> eb_reserved_micro b" "0 \<le> eb_spent_micro b"
    using mutate_success(3-5) [OF run] by (simp_all add: numeric30_nonneg)
  note old = balances_agree_at [OF agree, of k]
  show "balance_matches (t_enterprise_balances s' k) (f' k) (r' k) (sp' k)"
  proof (cases "k = (a, p)")
    case True
    have "b = moved_balance e da dr ds
                (case t_enterprise_balances s (a, p) of
                   None \<Rightarrow> empty_balance (env_now e) | Some x \<Rightarrow> x)"
      using at by (simp add: s' moved_table_def)
    with True at fits old show ?thesis
      by (cases "t_enterprise_balances s (a, p)")
        (simp_all add: moved_balance_def empty_balance_def f' r' sp')
  next
    case False
    with old show ?thesis by (simp add: s' moved_table_other f' r' sp')
  qed
qed

end
