(* ===== verification/Totals.thy ===== *)
theory Totals
  imports Pools
begin

text \<open>
  The abstract view of the ledger: the totals that the balance tables must show, computed from the
  rows that justify them, and the ledger invariant.  A pool reserve row shows the reserved amount of
  the live reservations and the outstanding amount of the open debts of its pool and lane.  A
  prefunded balance shows, per agent and pool, what funding events brought in, split into available,
  locked by reservations and spent by settlements.
\<close>

section \<open>Totals\<close>

definition reserved_total :: "db \<Rightarrow> string \<Rightarrow> lane \<Rightarrow> int" where
  "reserved_total s p l =
     sum_where (\<lambda>r. r_status r = Reserved \<and> r_pool_id r = p \<and> r_lane r = l)
       r_amount_micro (t_reservations s)"

definition outstanding_total :: "db \<Rightarrow> string \<Rightarrow> lane \<Rightarrow> int" where
  "outstanding_total s p l =
     sum_where (\<lambda>d. d_status d = Open \<and> d_pool_id d = p \<and> d_lane d = l)
       d_outstanding_micro (t_debts s)"

text \<open>
  A prefunded reservation holds its lock while it is live.  A settlement turns the lock into spent
  money only in the enterprise lane; in the other lane the lock stays where it is.
\<close>

definition holds_lock :: "kizuna_reservation \<Rightarrow> bool" where
  "holds_lock r =
     (r_funding_mode r = Prefunded \<and>
      (r_status r = Reserved \<or> (r_status r = Consumed \<and> r_lane r \<noteq> Enterprise)))"

definition spent_lock :: "kizuna_reservation \<Rightarrow> bool" where
  "spent_lock r = (r_funding_mode r = Prefunded \<and> r_status r = Consumed \<and> r_lane r = Enterprise)"

definition r_account :: "kizuna_reservation \<Rightarrow> string \<times> string" where
  "r_account r = (r_agent_id r, r_pool_id r)"

definition locked_total :: "db \<Rightarrow> string \<times> string \<Rightarrow> int" where
  "locked_total s k =
     sum_where (\<lambda>r. holds_lock r \<and> r_account r = k) r_locked_micro (t_reservations s)"

definition spent_total :: "db \<Rightarrow> string \<times> string \<Rightarrow> int" where
  "spent_total s k =
     sum_where (\<lambda>r. spent_lock r \<and> r_account r = k) r_locked_micro (t_reservations s)"

definition signed_flow :: "flow \<Rightarrow> int \<Rightarrow> int" where
  "signed_flow f n = (case f of Deposit \<Rightarrow> n | Withdraw \<Rightarrow> - n)"

definition funded_total :: "db \<Rightarrow> string \<times> string \<Rightarrow> int" where
  "funded_total s k =
     sum_where (\<lambda>v. (fe_agent_id v, fe_pool_id v) = k)
       (\<lambda>v. signed_flow (fe_event_type v) (fe_amount_micro v)) (t_funding_events s)"

definition repaid_total :: "db \<Rightarrow> string \<Rightarrow> int" where
  "repaid_total s a = sum_where (\<lambda>p. rp_agent_id p = a) rp_applied_micro (t_repayments s)"

definition paid_down_total :: "db \<Rightarrow> string \<Rightarrow> int" where
  "paid_down_total s a =
     sum_where (\<lambda>d. d_agent_id d = a) (\<lambda>d. d_principal_micro d - d_outstanding_micro d) (t_debts s)"

section \<open>The ledger invariant\<close>

definition reservations_ok :: "db \<Rightarrow> bool" where
  "reservations_ok s =
     (distinct (map r_id (t_reservations s)) \<and>
      list_all (\<lambda>r. 0 \<le> r_amount_micro r \<and> 0 \<le> r_locked_micro r \<and>
                    (r_funding_mode r = Prefunded \<longrightarrow> 0 < r_locked_micro r)) (t_reservations s))"

definition debts_ok :: "db \<Rightarrow> bool" where
  "debts_ok s =
     (distinct (map d_id (t_debts s)) \<and> distinct (map d_settlement_id (t_debts s)) \<and>
      list_all (\<lambda>d. 0 \<le> d_outstanding_micro d \<and> d_outstanding_micro d \<le> d_principal_micro d \<and>
                    (d_status d = Closed \<longrightarrow> d_outstanding_micro d = 0)) (t_debts s))"

definition pools_ok :: "db \<Rightarrow> bool" where
  "pools_ok s = reserves_agree (t_pool_reserves s) (reserved_total s) (outstanding_total s)"

definition balances_ok :: "db \<Rightarrow> bool" where
  "balances_ok s =
     balances_agree (t_enterprise_balances s) (funded_total s) (locked_total s) (spent_total s)"

definition repayments_ok :: "db \<Rightarrow> bool" where
  "repayments_ok s = (\<forall>a. repaid_total s a = paid_down_total s a)"

definition ledger_ok :: "db \<Rightarrow> bool" where
  "ledger_ok s =
     (reservations_ok s \<and> debts_ok s \<and> pools_ok s \<and> balances_ok s \<and> repayments_ok s)"

lemma ledger_okI [intro?]:
  "reservations_ok s \<Longrightarrow> debts_ok s \<Longrightarrow> pools_ok s \<Longrightarrow> balances_ok s \<Longrightarrow> repayments_ok s \<Longrightarrow> ledger_ok s"
  by (simp add: ledger_ok_def)

lemma ledger_okD:
  assumes "ledger_ok s"
  shows "reservations_ok s" "debts_ok s" "pools_ok s" "balances_ok s" "repayments_ok s"
  using assms by (simp_all add: ledger_ok_def)

text \<open>The invariant reads seven tables; a change elsewhere keeps it.\<close>

lemma ledger_ok_frame:
  assumes "ledger_ok s"
    and "t_reservations s' = t_reservations s" and "t_debts s' = t_debts s"
    and "t_repayments s' = t_repayments s" and "t_pool_reserves s' = t_pool_reserves s"
    and "t_enterprise_balances s' = t_enterprise_balances s"
    and "t_funding_events s' = t_funding_events s"
  shows "ledger_ok s'"
proof -
  have "reserved_total s' = reserved_total s" "outstanding_total s' = outstanding_total s"
    "locked_total s' = locked_total s" "spent_total s' = spent_total s"
    "funded_total s' = funded_total s" "repaid_total s' = repaid_total s"
    "paid_down_total s' = paid_down_total s"
    using assms(2-) by (auto simp: reserved_total_def outstanding_total_def locked_total_def
        spent_total_def funded_total_def repaid_total_def paid_down_total_def fun_eq_iff)
  with assms show ?thesis
    by (simp add: ledger_ok_def reservations_ok_def debts_ok_def pools_ok_def balances_ok_def
        repayments_ok_def)
qed

lemma ledger_ok_seed: "ledger_ok (seed_db now)"
  by (simp add: ledger_ok_def reservations_ok_def debts_ok_def pools_ok_def balances_ok_def
      repayments_ok_def seed_db_def reserves_agree_def balances_agree_def reserved_total_def
      outstanding_total_def locked_total_def spent_total_def funded_total_def repaid_total_def
      paid_down_total_def seed_reserve_def)

section \<open>Moving a reservation to another status\<close>

definition set_reservation ::
  "string \<Rightarrow> (kizuna_reservation \<Rightarrow> kizuna_reservation) \<Rightarrow> db \<Rightarrow> db" where
  "set_reservation rid f s =
     s\<lparr>t_reservations := update_where (\<lambda>r. r_id r = rid) f (t_reservations s)\<rparr>"

text \<open>An update that keeps the identity and the amounts of a reservation.\<close>

definition keeps_terms :: "(kizuna_reservation \<Rightarrow> kizuna_reservation) \<Rightarrow> bool" where
  "keeps_terms f =
     (\<forall>r. r_id (f r) = r_id r \<and> r_agent_id (f r) = r_agent_id r \<and> r_pool_id (f r) = r_pool_id r \<and>
          r_lane (f r) = r_lane r \<and> r_amount_micro (f r) = r_amount_micro r \<and>
          r_funding_mode (f r) = r_funding_mode r \<and> r_locked_micro (f r) = r_locked_micro r)"

lemma keeps_termsD:
  "keeps_terms f \<Longrightarrow>
   r_id (f r) = r_id r \<and> r_agent_id (f r) = r_agent_id r \<and> r_pool_id (f r) = r_pool_id r \<and>
   r_lane (f r) = r_lane r \<and> r_amount_micro (f r) = r_amount_micro r \<and>
   r_funding_mode (f r) = r_funding_mode r \<and> r_locked_micro (f r) = r_locked_micro r"
  by (simp add: keeps_terms_def)

lemma reservations_ok_set:
  assumes "reservations_ok s" and "keeps_terms f"
  shows "reservations_ok (set_reservation rid f s)"
proof -
  have "map r_id (update_where (\<lambda>r. r_id r = rid) f (t_reservations s)) = map r_id (t_reservations s)"
    by (rule map_update_where) (simp add: keeps_termsD [OF assms(2)])
  with assms show ?thesis
    by (auto simp: reservations_ok_def set_reservation_def list_all_iff set_update_where
        keeps_termsD [OF assms(2)])
qed

lemma reserved_total_set:
  assumes "reservations_ok s" and "r \<in> set (t_reservations s)" and "keeps_terms f"
    and "r_status r = Reserved" and "r_status (f r) \<noteq> Reserved"
  shows "reserved_total (set_reservation (r_id r) f s) p l =
         reserved_total s p l + (if p = r_pool_id r \<and> l = r_lane r then - r_amount_micro r else 0)"
  using assms keeps_termsD [OF assms(3), of r]
  by (auto simp: reserved_total_def set_reservation_def reservations_ok_def sum_where_update_key)

lemma locked_total_set:
  assumes "reservations_ok s" and "r \<in> set (t_reservations s)" and "keeps_terms f"
  shows "locked_total (set_reservation (r_id r) f s) k =
         locked_total s k +
         (if k = r_account r then (if holds_lock (f r) then r_locked_micro r else 0)
                                  - (if holds_lock r then r_locked_micro r else 0) else 0)"
  using assms keeps_termsD [OF assms(3), of r]
  by (auto simp: locked_total_def set_reservation_def reservations_ok_def sum_where_update_key
      r_account_def)

lemma spent_total_set:
  assumes "reservations_ok s" and "r \<in> set (t_reservations s)" and "keeps_terms f"
  shows "spent_total (set_reservation (r_id r) f s) k =
         spent_total s k +
         (if k = r_account r then (if spent_lock (f r) then r_locked_micro r else 0)
                                  - (if spent_lock r then r_locked_micro r else 0) else 0)"
  using assms keeps_termsD [OF assms(3), of r]
  by (auto simp: spent_total_def set_reservation_def reservations_ok_def sum_where_update_key
      r_account_def)

lemma reserved_total_nonneg: "reservations_ok s \<Longrightarrow> 0 \<le> reserved_total s p l"
  by (auto simp: reserved_total_def reservations_ok_def list_all_iff intro!: sum_where_nonneg)

lemma outstanding_total_nonneg: "debts_ok s \<Longrightarrow> 0 \<le> outstanding_total s p l"
  by (auto simp: outstanding_total_def debts_ok_def list_all_iff intro!: sum_where_nonneg)

lemma reserved_total_ge:
  assumes "reservations_ok s" and "r \<in> set (t_reservations s)" and "r_status r = Reserved"
  shows "r_amount_micro r \<le> reserved_total s (r_pool_id r) (r_lane r)"
  unfolding reserved_total_def
  by (rule sum_where_ge_member) (use assms in \<open>auto simp: reservations_ok_def list_all_iff\<close>)

lemma reservations_okD:
  "reservations_ok s \<Longrightarrow> r \<in> set (t_reservations s) \<Longrightarrow>
   0 \<le> r_amount_micro r \<and> 0 \<le> r_locked_micro r \<and> (r_funding_mode r = Prefunded \<longrightarrow> 0 < r_locked_micro r)"
  by (auto simp: reservations_ok_def list_all_iff)

lemma debts_okD:
  "debts_ok s \<Longrightarrow> d \<in> set (t_debts s) \<Longrightarrow>
   0 \<le> d_outstanding_micro d \<and> d_outstanding_micro d \<le> d_principal_micro d"
  by (auto simp: debts_ok_def list_all_iff)

lemma locked_total_ge:
  assumes "reservations_ok s" and "r \<in> set (t_reservations s)" and "holds_lock r"
  shows "r_locked_micro r \<le> locked_total s (r_account r)"
  unfolding locked_total_def
  by (rule sum_where_ge_member) (use assms in \<open>auto simp: reservations_ok_def list_all_iff\<close>)

section \<open>What a balance shows\<close>

definition prefund_available :: "db \<Rightarrow> string \<times> string \<Rightarrow> int" where
  "prefund_available s k =
     (case t_enterprise_balances s k of None \<Rightarrow> 0 | Some b \<Rightarrow> eb_available_micro b)"

lemma prefund_available_eq:
  "balances_ok s \<Longrightarrow> prefund_available s k = funded_total s k - locked_total s k - spent_total s k"
  using balances_agree_at [of _ _ _ _ k]
  by (fastforce simp: balances_ok_def prefund_available_def split: option.split)

lemma prefund_available_nonneg: "balances_ok s \<Longrightarrow> 0 \<le> prefund_available s k"
  using balances_agree_at [of _ _ _ _ k]
  by (fastforce simp: balances_ok_def prefund_available_def split: option.split)

lemma spent_total_nonneg: "reservations_ok s \<Longrightarrow> 0 \<le> spent_total s k"
  by (auto simp: spent_total_def reservations_ok_def list_all_iff intro!: sum_where_nonneg)

lemma locked_total_nonneg: "reservations_ok s \<Longrightarrow> 0 \<le> locked_total s k"
  by (auto simp: locked_total_def reservations_ok_def list_all_iff intro!: sum_where_nonneg)

lemma ledger_ok_sample: "ledger_ok sample_ledger"
  by (simp add: ledger_ok_def reservations_ok_def debts_ok_def pools_ok_def balances_ok_def
      repayments_ok_def sample_ledger_def sample_funding_def seed_db_def reserves_agree_def
      balances_agree_def reserved_total_def outstanding_total_def locked_total_def spent_total_def
      funded_total_def repaid_total_def paid_down_total_def seed_reserve_def signed_flow_def)

end
