(* ===== verification/Reservations.thy ===== *)
theory Reservations
  imports Totals
begin

text \<open>
  Underwriting decisions and credit reservations: \<open>insertKizunaUnderwriteDecision\<close>,
  \<open>createKizunaReservation\<close>, \<open>releaseKizunaReservation\<close> and the lookups of \<open>db/queries.ts\<close>.
\<close>

section \<open>Prefund moves\<close>

text \<open>
  The block that four transactions share: move money inside a prefunded balance and throw when the
  guarded update changed no row.
\<close>

definition move_prefund ::
  "env \<Rightarrow> string \<Rightarrow> string \<Rightarrow> int \<Rightarrow> int \<Rightarrow> int \<Rightarrow> int option \<Rightarrow> int option \<Rightarrow> string \<Rightarrow> (db, unit) tx" where
  "move_prefund e agentId poolId da dr ds minAvailable minReserved msg =
     bindT (mutateKizunaEnterpriseBalance e agentId poolId da dr ds minAvailable minReserved)
       (\<lambda>balance. if balance = None then throwT (Thrown msg) else returnT ())"

lemma move_prefund_success:
  assumes "move_prefund e a p da dr ds ma mr msg s = Inr (u, s')"
  obtains b where "mutateKizunaEnterpriseBalance e a p da dr ds ma mr s = Inr (Some b, s')"
  using assms by (auto simp: move_prefund_def bindT_success split: if_splits)

lemma move_prefund_table:
  assumes "move_prefund e a p da dr ds ma mr msg s = Inr (u, s')"
  shows "s' = s\<lparr>t_enterprise_balances := moved_table e (a, p) da dr ds (t_enterprise_balances s)\<rparr>"
  using assms by (elim move_prefund_success) (rule mutate_success(1))

lemma move_prefund_agree:
  assumes "move_prefund e a p da dr ds ma mr msg s = Inr (u, s')"
    and "balances_agree (t_enterprise_balances s) f r sp"
    and "\<And>k. f' k = f k + (if k = (a, p) then da + dr + ds else 0)"
    and "\<And>k. r' k = r k + (if k = (a, p) then dr else 0)"
    and "\<And>k. sp' k = sp k + (if k = (a, p) then ds else 0)"
  shows "balances_agree (t_enterprise_balances s') f' r' sp'"
  using assms by (elim move_prefund_success) (rule mutate_agree)

section \<open>Decisions\<close>

definition getKizunaAccount :: "string \<Rightarrow> db \<Rightarrow> kizuna_account option" where
  "getKizunaAccount agentId s = t_accounts s agentId"

text \<open>
  The outstanding debt of an agent, over all its open debts or over one lane or pool.  An empty
  scope string selects nothing in the code, because the test is \<open>if (scope?.poolId)\<close>.
\<close>

definition scope_matches :: "lane option \<Rightarrow> string option \<Rightarrow> kizuna_debt \<Rightarrow> bool" where
  "scope_matches l p d =
     ((case l of None \<Rightarrow> True | Some x \<Rightarrow> d_lane d = x) \<and>
      (case p of None \<Rightarrow> True | Some x \<Rightarrow> x = [] \<or> d_pool_id d = x))"

definition open_in_scope :: "string \<Rightarrow> lane option \<Rightarrow> string option \<Rightarrow> kizuna_debt \<Rightarrow> bool" where
  "open_in_scope agentId l p d =
     (d_agent_id d = agentId \<and> d_status d = Open \<and> scope_matches l p d)"

definition getKizunaOutstandingMicro :: "string \<Rightarrow> lane option \<Rightarrow> string option \<Rightarrow> db \<Rightarrow> int" where
  "getKizunaOutstandingMicro agentId l p s =
     parseMicro (Some (numeric_text
       (sum_where (open_in_scope agentId l p) d_outstanding_micro (t_debts s))))"

definition in_range_opt :: "('a::linorder) \<Rightarrow> 'a \<Rightarrow> 'a option \<Rightarrow> bool" where
  "in_range_opt lo hi v = (case v of None \<Rightarrow> True | Some x \<Rightarrow> lo \<le> x \<and> x \<le> hi)"

definition one_of :: "string list \<Rightarrow> string option \<Rightarrow> bool" where
  "one_of allowed v = (case v of None \<Rightarrow> True | Some x \<Rightarrow> x \<in> set allowed)"

definition decision_checks :: "kizuna_decision \<Rightarrow> (db, unit) tx" where
  "decision_checks d =
     thenT (check_numeric30 ''requested_micro'' (dc_requested_micro d))
    (thenT (check_numeric30 ''approved_micro'' (dc_approved_micro d))
    (thenT (check_numeric30 ''available_micro'' (dc_available_micro d))
    (thenT (check_numeric30 ''outstanding_micro'' (dc_outstanding_micro d))
    (ensureT (\<lambda>_. in_range_opt 0 10000 (dc_ltv_bps d) \<and>
                  (case dc_health_factor d of None \<Rightarrow> True | Some h \<Rightarrow> 0 \<le> h) \<and>
                  one_of [''none'', ''freeze'', ''throttle'', ''unfreeze''] (dc_risk_action d) \<and>
                  one_of [''kizuna-envelope-v1'', ''kizuna-envelope-v2''] (dc_envelope_version d))
       (Pg (CheckViolation ''kizuna_underwrite_decisions''))))))"

text \<open>The parameter record carries the column values; id and creation time are the defaults.\<close>

definition insertKizunaUnderwriteDecision ::
  "env \<Rightarrow> string \<Rightarrow> kizuna_decision \<Rightarrow> (db, kizuna_decision) tx" where
  "insertKizunaUnderwriteDecision e uid params =
     (let row = params\<lparr>dc_id := uid, dc_created_at := env_now e\<rparr> in
      thenT (decision_checks row)
     (thenT (ensureT (\<lambda>s. uid \<notin> dc_id ` set (t_decisions s)) (Pg (UniqueViolation ''decision_pkey'')))
     (thenT (ensureT (\<lambda>s. (dc_payer_wallet row, dc_request_nonce row) \<notin>
                           (\<lambda>d. (dc_payer_wallet d, dc_request_nonce d)) ` set (t_decisions s))
                (Pg (UniqueViolation ''uq_kizuna_decision_nonce'')))
     (thenT (fk_account (dc_agent_id row))
     (thenT (modifyT (\<lambda>s. s\<lparr>t_decisions := t_decisions s @ [row]\<rparr>))
     (returnT row))))))"

lemma insert_decision_success:
  assumes "insertKizunaUnderwriteDecision e uid params s = Inr (row, s')"
  shows "row = params\<lparr>dc_id := uid, dc_created_at := env_now e\<rparr>"
    and "s' = s\<lparr>t_decisions := t_decisions s @ [row]\<rparr>"
    and "uid \<notin> dc_id ` set (t_decisions s)"
    and "(dc_payer_wallet row, dc_request_nonce row) \<notin>
         (\<lambda>d. (dc_payer_wallet d, dc_request_nonce d)) ` set (t_decisions s)"
  using assms
  by (auto simp: insertKizunaUnderwriteDecision_def decision_checks_def Let_def thenT_success)

section \<open>Creating a reservation\<close>

record reservation_params =
  rv_decisionId :: string
  rv_agentId :: string
  rv_payerWallet :: string
  rv_requestNonce :: string
  rv_network :: string
  rv_lane :: lane
  rv_poolId :: string
  rv_amountMicro :: int
  rv_ttlMs :: int
  rv_fundingMode :: "funding_mode option"
  rv_lockedMicro :: "string option"

definition reservation_row ::
  "env \<Rightarrow> string \<Rightarrow> reservation_params \<Rightarrow> funding_mode \<Rightarrow> int \<Rightarrow> kizuna_reservation" where
  "reservation_row e uid p fundingMode lockedMicro =
     \<lparr>r_id = uid, r_decision_id = rv_decisionId p, r_agent_id = rv_agentId p,
      r_payer_wallet = rv_payerWallet p, r_request_nonce = rv_requestNonce p,
      r_network = rv_network p, r_lane = rv_lane p, r_pool_id = rv_poolId p,
      r_amount_micro = rv_amountMicro p, r_funding_mode = fundingMode, r_locked_micro = lockedMicro,
      r_status = Reserved, r_expires_at = env_now e + rv_ttlMs p, r_settlement_id = None,
      r_tx_hash = None, r_created_at = env_now e, r_updated_at = env_now e\<rparr>"

definition insert_reservation :: "kizuna_reservation \<Rightarrow> (db, unit) tx" where
  "insert_reservation row =
     thenT (check_numeric30 ''amount_micro'' (r_amount_micro row))
    (thenT (check_numeric30 ''locked_micro'' (r_locked_micro row))
    (thenT (ensureT (\<lambda>s. r_id row \<notin> r_id ` set (t_reservations s))
              (Pg (UniqueViolation ''reservation_pkey'')))
    (thenT (ensureT (\<lambda>s. (r_payer_wallet row, r_request_nonce row) \<notin>
                          (\<lambda>r. (r_payer_wallet r, r_request_nonce r)) ` set (t_reservations s))
              (Pg (UniqueViolation ''uq_kizuna_reservation_nonce'')))
    (thenT (ensureT (\<lambda>s. r_decision_id row \<in> dc_id ` set (t_decisions s))
              (Pg (ForeignKeyViolation ''decision_id'')))
    (thenT (fk_account (r_agent_id row))
    (modifyT (\<lambda>s. s\<lparr>t_reservations := t_reservations s @ [row]\<rparr>)))))))"

definition default_funding_mode :: "reservation_params \<Rightarrow> funding_mode" where
  "default_funding_mode p =
     (case rv_fundingMode p of
        Some m \<Rightarrow> m
      | None \<Rightarrow> if rv_lane p = CryptoFast then Collateralized else FundNone)"

definition lock_prefund :: "env \<Rightarrow> kizuna_reservation \<Rightarrow> (db, unit) tx" where
  "lock_prefund e row =
     (if r_funding_mode row = Prefunded then
        (let locked = parseMicro (Some (numeric_text (r_locked_micro row))) in
         move_prefund e (r_agent_id row) (r_pool_id row) (- locked) locked 0 (Some locked) None
           ''kizuna_prefund_insufficient'')
      else returnT ())"

definition createKizunaReservation ::
  "env \<Rightarrow> string \<Rightarrow> reservation_params \<Rightarrow> (db, kizuna_reservation) tx" where
  "createKizunaReservation e uid p =
     (let fundingMode = default_funding_mode p;
          lockedMicro = parseMicro (rv_lockedMicro p);
          row = reservation_row e uid p fundingMode lockedMicro in
      if fundingMode = Prefunded \<and> lockedMicro \<le> 0
      then throwT (Thrown ''kizuna_prefund_lock_invalid'')
      else thenT (insert_reservation row)
          (thenT (bumpKizunaPoolReserve e (r_pool_id row) (r_lane row)
                    (parseMicro (Some (numeric_text (r_amount_micro row)))) 0 0)
          (thenT (lock_prefund e row)
          (returnT row))))"

lemma insert_reservation_success:
  assumes "insert_reservation row s = Inr (u, s')"
  shows "s' = s\<lparr>t_reservations := t_reservations s @ [row]\<rparr>"
    and "0 \<le> r_amount_micro row" and "0 \<le> r_locked_micro row"
    and "r_id row \<notin> r_id ` set (t_reservations s)"
    and "(r_payer_wallet row, r_request_nonce row) \<notin>
         (\<lambda>r. (r_payer_wallet r, r_request_nonce r)) ` set (t_reservations s)"
    and "r_decision_id row \<in> dc_id ` set (t_decisions s)"
    and "t_accounts s (r_agent_id row) \<noteq> None"
  using assms by (auto simp: insert_reservation_def thenT_success numeric30_def)

section \<open>Releasing a reservation\<close>

definition set_status :: "env \<Rightarrow> reservation_status \<Rightarrow> kizuna_reservation \<Rightarrow> kizuna_reservation" where
  "set_status e st r = r\<lparr>r_status := st, r_updated_at := env_now e\<rparr>"

lemma keeps_terms_set_status [simp]: "keeps_terms (set_status e st)"
  by (simp add: keeps_terms_def set_status_def)

lemma set_status_status [simp]: "r_status (set_status e st r) = st"
  by (simp add: set_status_def)

definition unlock_prefund :: "env \<Rightarrow> kizuna_reservation \<Rightarrow> (db, unit) tx" where
  "unlock_prefund e row =
     (if r_funding_mode row = Prefunded then
        (let locked = parseMicro (Some (numeric_text (r_locked_micro row))) in
         move_prefund e (r_agent_id row) (r_pool_id row) locked (- locked) 0 None (Some locked)
           ''kizuna_prefund_release_failed'')
      else returnT ())"

text \<open>Give the reserved credit of a row back: its pool reserve and its prefund lock.\<close>

definition return_credit :: "env \<Rightarrow> kizuna_reservation \<Rightarrow> (db, unit) tx" where
  "return_credit e row =
     thenT (bumpKizunaPoolReserve e (r_pool_id row) (r_lane row)
              (- parseMicro (Some (numeric_text (r_amount_micro row)))) 0 0)
           (unlock_prefund e row)"

definition releaseKizunaReservation ::
  "env \<Rightarrow> string \<Rightarrow> reservation_status \<Rightarrow> (db, unit) tx" where
  "releaseKizunaReservation e reservationId status = (\<lambda>s.
     case find (\<lambda>r. r_id r = reservationId \<and> r_status r = Reserved) (t_reservations s) of
       None \<Rightarrow> Inr ((), s)
     | Some row \<Rightarrow>
         thenT (modifyT (\<lambda>s. s\<lparr>t_reservations :=
                  update_where (\<lambda>r. r_id r = reservationId \<and> r_status r = Reserved)
                    (set_status e status) (t_reservations s)\<rparr>))
               (return_credit e row) s)"

section \<open>Lookups\<close>

definition getKizunaReservationById :: "string \<Rightarrow> db \<Rightarrow> kizuna_reservation option" where
  "getKizunaReservationById reservationId s = find (\<lambda>r. r_id r = reservationId) (t_reservations s)"

definition getKizunaReservationByNonce ::
  "string \<Rightarrow> string \<Rightarrow> db \<Rightarrow> (kizuna_reservation \<times> kizuna_decision) option" where
  "getKizunaReservationByNonce payerWallet requestNonce s =
     (case find (\<lambda>r. r_payer_wallet r = payerWallet \<and> r_request_nonce r = requestNonce \<and>
                     r_decision_id r \<in> dc_id ` set (t_decisions s)) (t_reservations s) of
        None \<Rightarrow> None
      | Some r \<Rightarrow>
          (case find (\<lambda>d. dc_id d = r_decision_id r) (t_decisions s) of
             None \<Rightarrow> None
           | Some d \<Rightarrow> Some (r, d)))"

section \<open>The ledger invariant across reservations\<close>

lemma create_stages:
  assumes "createKizunaReservation e uid p s = Inr (row, s')"
  obtains s1 s2 where
    "row = reservation_row e uid p (default_funding_mode p) (parseMicro (rv_lockedMicro p))"
    "default_funding_mode p = Prefunded \<longrightarrow> 0 < r_locked_micro row"
    "insert_reservation row s = Inr ((), s1)"
    "bumpKizunaPoolReserve e (r_pool_id row) (r_lane row) (r_amount_micro row) 0 0 s1 = Inr ((), s2)"
    "lock_prefund e row s2 = Inr ((), s')"
proof -
  define row0 where "row0 = reservation_row e uid p (default_funding_mode p) (parseMicro (rv_lockedMicro p))"
  from assms have guard: "\<not> (default_funding_mode p = Prefunded \<and> parseMicro (rv_lockedMicro p) \<le> 0)"
    and chain: "thenT (insert_reservation row0)
      (thenT (bumpKizunaPoolReserve e (r_pool_id row0) (r_lane row0)
                (parseMicro (Some (numeric_text (r_amount_micro row0)))) 0 0)
      (thenT (lock_prefund e row0) (returnT row0))) s = Inr (row, s')"
    by (auto simp: createKizunaReservation_def Let_def row0_def split: if_splits)
  from chain obtain s1 s2 s3 where ins: "insert_reservation row0 s = Inr ((), s1)"
    and bump: "bumpKizunaPoolReserve e (r_pool_id row0) (r_lane row0)
                (parseMicro (Some (numeric_text (r_amount_micro row0)))) 0 0 s1 = Inr ((), s2)"
    and lock: "lock_prefund e row0 s2 = Inr ((), s3)" and ret: "returnT row0 s3 = Inr (row, s')"
    by (auto elim!: thenT_successE)
  have row: "row = row0" "s' = s3" using ret by simp_all
  have amt: "parseMicro (Some (numeric_text (r_amount_micro row0))) = r_amount_micro row0"
    using insert_reservation_success(2) [OF ins] by simp
  have locked: "r_locked_micro row0 = parseMicro (rv_lockedMicro p)"
    by (simp add: row0_def reservation_row_def)
  show thesis
  proof (rule that [of s1 s2])
    show "row = reservation_row e uid p (default_funding_mode p) (parseMicro (rv_lockedMicro p))"
      by (simp add: row(1) row0_def)
    show "default_funding_mode p = Prefunded \<longrightarrow> 0 < r_locked_micro row"
      using guard by (auto simp: row(1) locked)
  qed (simp_all only: row ins lock bump [unfolded amt])
qed

lemma lock_prefund_cases:
  assumes "lock_prefund e row s = Inr (u, s')" and "0 \<le> r_locked_micro row"
  shows "if r_funding_mode row = Prefunded
         then move_prefund e (r_agent_id row) (r_pool_id row) (- r_locked_micro row) (r_locked_micro row) 0
                (Some (r_locked_micro row)) None ''kizuna_prefund_insufficient'' s = Inr ((), s')
         else s' = s"
  using assms by (auto simp: lock_prefund_def Let_def split: if_splits)

lemma unlock_prefund_cases:
  assumes "unlock_prefund e row s = Inr (u, s')" and "0 \<le> r_locked_micro row"
  shows "if r_funding_mode row = Prefunded
         then move_prefund e (r_agent_id row) (r_pool_id row) (r_locked_micro row) (- r_locked_micro row) 0
                None (Some (r_locked_micro row)) ''kizuna_prefund_release_failed'' s = Inr ((), s')
         else s' = s"
  using assms by (auto simp: unlock_prefund_def Let_def split: if_splits)

lemma totals_append_reservation:
  "reserved_total (s\<lparr>t_reservations := t_reservations s @ [row]\<rparr>) p l =
   reserved_total s p l +
   (if r_status row = Reserved \<and> p = r_pool_id row \<and> l = r_lane row then r_amount_micro row else 0)"
  "locked_total (s\<lparr>t_reservations := t_reservations s @ [row]\<rparr>) k =
   locked_total s k + (if holds_lock row \<and> k = r_account row then r_locked_micro row else 0)"
  "spent_total (s\<lparr>t_reservations := t_reservations s @ [row]\<rparr>) k =
   spent_total s k + (if spent_lock row \<and> k = r_account row then r_locked_micro row else 0)"
  by (auto simp: reserved_total_def locked_total_def spent_total_def)

text \<open>
  The tables that a reservation step leaves alone, and the parts of the invariant that rest on them.
\<close>

definition same_debt_side :: "db \<Rightarrow> db \<Rightarrow> bool" where
  "same_debt_side s s' =
     (t_debts s' = t_debts s \<and> t_repayments s' = t_repayments s \<and>
      t_funding_events s' = t_funding_events s)"

lemma same_debt_side_ok:
  assumes "same_debt_side s s'"
  shows "debts_ok s' = debts_ok s" and "repayments_ok s' = repayments_ok s"
    and "outstanding_total s' = outstanding_total s" and "funded_total s' = funded_total s"
  using assms
  by (auto simp: same_debt_side_def debts_ok_def repayments_ok_def outstanding_total_def
      funded_total_def repaid_total_def paid_down_total_def fun_eq_iff)

lemma create_effect:
  assumes "createKizunaReservation e uid p s = Inr (row, s')"
  shows "t_reservations s' = t_reservations s @ [row]"
    and "t_pool_reserves s' = bumped_table e (r_pool_id row) (r_lane row) (r_amount_micro row) 0 0
                                (t_pool_reserves s)"
    and "same_debt_side s s'" and "t_decisions s' = t_decisions s" and "t_outbox s' = t_outbox s"
    and "t_settlements s' = t_settlements s" and "t_accounts s' = t_accounts s"
    and "r_status row = Reserved" and "r_id row = uid"
    and "r_funding_mode row = default_funding_mode p"
    and "0 \<le> r_amount_micro row" and "0 \<le> r_locked_micro row"
    and "r_id row \<notin> r_id ` set (t_reservations s)"
    and "if r_funding_mode row = Prefunded
         then \<exists>s2. t_enterprise_balances s2 = t_enterprise_balances s \<and>
                move_prefund e (r_agent_id row) (r_pool_id row) (- r_locked_micro row)
                  (r_locked_micro row) 0 (Some (r_locked_micro row)) None
                  ''kizuna_prefund_insufficient'' s2 = Inr ((), s')
         else t_enterprise_balances s' = t_enterprise_balances s"
proof -
  from assms obtain s1 s2 where
    row: "row = reservation_row e uid p (default_funding_mode p) (parseMicro (rv_lockedMicro p))"
    and ins: "insert_reservation row s = Inr ((), s1)"
    and bump: "bumpKizunaPoolReserve e (r_pool_id row) (r_lane row) (r_amount_micro row) 0 0 s1 = Inr ((), s2)"
    and lock: "lock_prefund e row s2 = Inr ((), s')"
    by (rule create_stages)
  note s1 = insert_reservation_success(1) [OF ins] and s2 = bump_success [OF bump]
  note lock' = lock_prefund_cases [OF lock insert_reservation_success(3) [OF ins]]
  have "\<exists>B. s' = s2\<lparr>t_enterprise_balances := B\<rparr>"
  proof (cases "r_funding_mode row = Prefunded")
    case True
    with lock' show ?thesis by (auto dest: move_prefund_table)
  next
    case False
    with lock' have "s' = s2\<lparr>t_enterprise_balances := t_enterprise_balances s2\<rparr>" by simp
    then show ?thesis by blast
  qed
  then show "t_reservations s' = t_reservations s @ [row]"
    "t_pool_reserves s' = bumped_table e (r_pool_id row) (r_lane row) (r_amount_micro row) 0 0
                            (t_pool_reserves s)"
    "same_debt_side s s'" "t_decisions s' = t_decisions s" "t_outbox s' = t_outbox s"
    "t_settlements s' = t_settlements s" "t_accounts s' = t_accounts s"
    by (auto simp: s1 s2 same_debt_side_def)
  show "r_status row = Reserved" "r_id row = uid" "r_funding_mode row = default_funding_mode p"
    by (simp_all add: row reservation_row_def)
  show "0 \<le> r_amount_micro row" "0 \<le> r_locked_micro row" "r_id row \<notin> r_id ` set (t_reservations s)"
    using insert_reservation_success(2-4) [OF ins] by simp_all
  have "t_enterprise_balances s2 = t_enterprise_balances s" by (simp add: s1 s2)
  with lock' show "if r_funding_mode row = Prefunded
         then \<exists>s2. t_enterprise_balances s2 = t_enterprise_balances s \<and>
                move_prefund e (r_agent_id row) (r_pool_id row) (- r_locked_micro row)
                  (r_locked_micro row) 0 (Some (r_locked_micro row)) None
                  ''kizuna_prefund_insufficient'' s2 = Inr ((), s')
         else t_enterprise_balances s' = t_enterprise_balances s"
    by (auto split: if_splits)
qed

lemma create_positive_lock:
  "createKizunaReservation e uid p s = Inr (row, s') \<Longrightarrow>
   default_funding_mode p = Prefunded \<longrightarrow> 0 < r_locked_micro row"
  by (erule create_stages) simp

lemma create_lock_amount:
  "createKizunaReservation e uid p s = Inr (row, s') \<Longrightarrow>
   r_locked_micro row = parseMicro (rv_lockedMicro p) \<and> r_agent_id row = rv_agentId p \<and>
   r_pool_id row = rv_poolId p \<and> r_lane row = rv_lane p \<and> r_amount_micro row = rv_amountMicro p"
  by (erule create_stages) (simp add: reservation_row_def)

lemma create_totals:
  assumes "createKizunaReservation e uid p s = Inr (row, s')"
  shows "reserved_total s' q k = reserved_total s q k +
           (if q = r_pool_id row \<and> k = r_lane row then r_amount_micro row else 0)"
    and "locked_total s' m = locked_total s m +
           (if holds_lock row \<and> m = r_account row then r_locked_micro row else 0)"
    and "spent_total s' m = spent_total s m"
  using create_effect(8) [OF assms]
  by (auto simp: reserved_total_def locked_total_def spent_total_def create_effect(1) [OF assms]
      spent_lock_def)

lemma create_reservations_ok:
  "reservations_ok s \<Longrightarrow> createKizunaReservation e uid p s = Inr (row, s') \<Longrightarrow> reservations_ok s'"
  using create_effect(1,10-13) [of e uid p s row s'] create_positive_lock [of e uid p s row s']
  by (auto simp: reservations_ok_def)

lemma create_balances_ok:
  assumes ok: "balances_ok s" and run: "createKizunaReservation e uid p s = Inr (row, s')"
  shows "balances_ok s'"
proof (cases "r_funding_mode row = Prefunded")
  case True
  with create_effect(14) [OF run] obtain s2 where
    same: "t_enterprise_balances s2 = t_enterprise_balances s"
    and mv: "move_prefund e (r_agent_id row) (r_pool_id row) (- r_locked_micro row)
               (r_locked_micro row) 0 (Some (r_locked_micro row)) None
               ''kizuna_prefund_insufficient'' s2 = Inr ((), s')"
    by auto
  have "balances_agree (t_enterprise_balances s2) (funded_total s) (locked_total s) (spent_total s)"
    using ok by (simp add: same balances_ok_def)
  then show ?thesis
    unfolding balances_ok_def
    by (rule move_prefund_agree [OF mv])
      (use True create_effect(8) [OF run] in
        \<open>auto simp: create_totals [OF run] same_debt_side_ok [OF create_effect(3) [OF run]]
           holds_lock_def r_account_def\<close>)
next
  case False
  then have eqs: "locked_total s' = locked_total s" "spent_total s' = spent_total s"
    by (auto simp: create_totals [OF run] holds_lock_def fun_eq_iff)
  have "t_enterprise_balances s' = t_enterprise_balances s"
    using False create_effect(14) [OF run] by simp
  with ok show ?thesis
    by (simp only: balances_ok_def eqs same_debt_side_ok(4) [OF create_effect(3) [OF run]])
qed

lemma create_ledger_ok:
  assumes ok: "ledger_ok s" and run: "createKizunaReservation e uid p s = Inr (row, s')"
  shows "ledger_ok s'"
proof -
  note same = same_debt_side_ok [OF create_effect(3) [OF run]]
  have res: "reservations_ok s'" using create_reservations_ok [OF ledger_okD(1) [OF ok] run] .
  have nn: "0 \<le> reserved_total s' (r_pool_id row) (r_lane row)"
    "0 \<le> outstanding_total s' (r_pool_id row) (r_lane row)"
    using reserved_total_nonneg [OF res] outstanding_total_nonneg [of s'] ledger_okD(2) [OF ok] same(1)
    by simp_all
  have "pools_ok s'"
    unfolding pools_ok_def create_effect(2) [OF run]
    by (rule bump_agree [OF ledger_okD(3) [OF ok, unfolded pools_ok_def]])
      (rule nn | simp add: create_totals [OF run] same)+
  with ok res create_balances_ok [OF ledger_okD(4) [OF ok] run] show ?thesis
    by (simp add: ledger_ok_def same)
qed

text \<open>Returning the credit of a reservation that has just left the reserved state.\<close>

lemma return_credit_stages:
  assumes "return_credit e r s = Inr (u, s')" and "0 \<le> r_amount_micro r" and "0 \<le> r_locked_micro r"
  obtains s1 where
    "s1 = s\<lparr>t_pool_reserves := bumped_table e (r_pool_id r) (r_lane r) (- r_amount_micro r) 0 0 (t_pool_reserves s)\<rparr>"
    "if r_funding_mode r = Prefunded
     then move_prefund e (r_agent_id r) (r_pool_id r) (r_locked_micro r) (- r_locked_micro r) 0
            None (Some (r_locked_micro r)) ''kizuna_prefund_release_failed'' s1 = Inr ((), s')
     else s' = s1"
proof -
  from assms(1,2) obtain s1 where
    "bumpKizunaPoolReserve e (r_pool_id r) (r_lane r) (- r_amount_micro r) 0 0 s = Inr ((), s1)"
    "unlock_prefund e r s1 = Inr ((), s')"
    by (auto simp: return_credit_def thenT_success)
  with that [OF bump_success] unlock_prefund_cases [OF _ assms(3)] show thesis by blast
qed

text \<open>The facts about one such return are shared by release and expiry.\<close>

lemma return_credit_effect:
  assumes ok: "reservations_ok s" and r: "r \<in> set (t_reservations s)"
    and run: "return_credit e r (set_reservation (r_id r) f s) = Inr (u, s')"
  shows "t_reservations s' = update_where (\<lambda>x. r_id x = r_id r) f (t_reservations s)"
    and "t_pool_reserves s' = bumped_table e (r_pool_id r) (r_lane r) (- r_amount_micro r) 0 0
                                (t_pool_reserves s)"
    and "same_debt_side s s'"
    and "if r_funding_mode r = Prefunded
         then \<exists>s1. t_enterprise_balances s1 = t_enterprise_balances s \<and>
                move_prefund e (r_agent_id r) (r_pool_id r) (r_locked_micro r) (- r_locked_micro r) 0
                  None (Some (r_locked_micro r)) ''kizuna_prefund_release_failed'' s1 = Inr ((), s')
         else t_enterprise_balances s' = t_enterprise_balances s"
proof -
  let ?s0 = "set_reservation (r_id r) f s"
  from run reservations_okD [OF ok r] obtain s1 where
    s1: "s1 = ?s0\<lparr>t_pool_reserves := bumped_table e (r_pool_id r) (r_lane r) (- r_amount_micro r) 0 0
                                       (t_pool_reserves ?s0)\<rparr>"
    and unlock: "if r_funding_mode r = Prefunded
     then move_prefund e (r_agent_id r) (r_pool_id r) (r_locked_micro r) (- r_locked_micro r) 0
            None (Some (r_locked_micro r)) ''kizuna_prefund_release_failed'' s1 = Inr ((), s')
     else s' = s1"
    by (auto elim: return_credit_stages)
  have "\<exists>B. s' = s1\<lparr>t_enterprise_balances := B\<rparr>"
  proof (cases "r_funding_mode r = Prefunded")
    case True
    with unlock show ?thesis by (auto dest: move_prefund_table)
  next
    case False
    with unlock have "s' = s1\<lparr>t_enterprise_balances := t_enterprise_balances s1\<rparr>" by simp
    then show ?thesis by blast
  qed
  then show "t_reservations s' = update_where (\<lambda>x. r_id x = r_id r) f (t_reservations s)"
    "t_pool_reserves s' = bumped_table e (r_pool_id r) (r_lane r) (- r_amount_micro r) 0 0 (t_pool_reserves s)"
    "same_debt_side s s'"
    by (auto simp: s1 set_reservation_def same_debt_side_def)
  have "t_enterprise_balances s1 = t_enterprise_balances s" by (simp add: s1 set_reservation_def)
  with unlock show "if r_funding_mode r = Prefunded
         then \<exists>s1. t_enterprise_balances s1 = t_enterprise_balances s \<and>
                move_prefund e (r_agent_id r) (r_pool_id r) (r_locked_micro r) (- r_locked_micro r) 0
                  None (Some (r_locked_micro r)) ''kizuna_prefund_release_failed'' s1 = Inr ((), s')
         else t_enterprise_balances s' = t_enterprise_balances s"
    by (auto split: if_splits)
qed

lemma return_credit_totals:
  assumes ok: "reservations_ok s" and r: "r \<in> set (t_reservations s)" "r_status r = Reserved"
    and f: "keeps_terms f" "r_status (f r) \<noteq> Reserved" "r_status (f r) \<noteq> Consumed"
    and run: "return_credit e r (set_reservation (r_id r) f s) = Inr (u, s')"
  shows "reserved_total s' q k = reserved_total s q k +
           (if q = r_pool_id r \<and> k = r_lane r then - r_amount_micro r else 0)"
    and "locked_total s' m = locked_total s m +
           (if holds_lock r \<and> m = r_account r then - r_locked_micro r else 0)"
    and "spent_total s' m = spent_total s m"
  using reserved_total_set [OF ok r(1) f(1) r(2) f(2), of q k] locked_total_set [OF ok r(1) f(1), of m]
    spent_total_set [OF ok r(1) f(1), of m] f(2,3) r(2)
  by (auto simp: reserved_total_def locked_total_def spent_total_def holds_lock_def spent_lock_def
      return_credit_effect(1) [OF ok r(1) run] set_reservation_def)

lemma return_credit_balances_ok:
  assumes ok: "reservations_ok s" "balances_ok s"
    and r: "r \<in> set (t_reservations s)" "r_status r = Reserved"
    and f: "keeps_terms f" "r_status (f r) \<noteq> Reserved" "r_status (f r) \<noteq> Consumed"
    and run: "return_credit e r (set_reservation (r_id r) f s) = Inr (u, s')"
  shows "balances_ok s'"
proof (cases "r_funding_mode r = Prefunded")
  case True
  with return_credit_effect(4) [OF ok(1) r(1) run] obtain s1 where
    same: "t_enterprise_balances s1 = t_enterprise_balances s"
    and mv: "move_prefund e (r_agent_id r) (r_pool_id r) (r_locked_micro r) (- r_locked_micro r) 0
               None (Some (r_locked_micro r)) ''kizuna_prefund_release_failed'' s1 = Inr ((), s')"
    by auto
  have "balances_agree (t_enterprise_balances s1) (funded_total s) (locked_total s) (spent_total s)"
    using ok by (simp add: same balances_ok_def)
  then show ?thesis
    unfolding balances_ok_def
    by (rule move_prefund_agree [OF mv])
      (use True r(2) in \<open>auto simp: return_credit_totals [OF ok(1) r f run]
         same_debt_side_ok [OF return_credit_effect(3) [OF ok(1) r(1) run]] holds_lock_def r_account_def\<close>)
next
  case False
  then have eqs: "locked_total s' = locked_total s" "spent_total s' = spent_total s"
    by (auto simp: return_credit_totals [OF ok(1) r f run] holds_lock_def fun_eq_iff)
  have "t_enterprise_balances s' = t_enterprise_balances s"
    using False return_credit_effect(4) [OF ok(1) r(1) run] by simp
  with ok show ?thesis
    by (simp only: balances_ok_def eqs same_debt_side_ok(4) [OF return_credit_effect(3) [OF ok(1) r(1) run]])
qed

lemma return_credit_ledger_ok:
  assumes ok: "ledger_ok s" and r: "r \<in> set (t_reservations s)" "r_status r = Reserved"
    and f: "keeps_terms f" "r_status (f r) \<noteq> Reserved" "r_status (f r) \<noteq> Consumed"
    and run: "return_credit e r (set_reservation (r_id r) f s) = Inr (u, s')"
  shows "ledger_ok s'"
proof -
  note rok = ledger_okD(1) [OF ok]
  note same = same_debt_side_ok [OF return_credit_effect(3) [OF rok r(1) run]]
  note tot = return_credit_totals [OF rok r f run]
  have res: "reservations_ok s'"
    using reservations_ok_set [OF rok f(1), of "r_id r"] return_credit_effect(1) [OF rok r(1) run]
    by (simp add: reservations_ok_def set_reservation_def)
  have nn: "0 \<le> reserved_total s' (r_pool_id r) (r_lane r)"
    "0 \<le> outstanding_total s' (r_pool_id r) (r_lane r)"
    using reserved_total_nonneg [OF res] outstanding_total_nonneg [of s'] ledger_okD(2) [OF ok] same(1)
    by simp_all
  have "pools_ok s'"
    unfolding pools_ok_def return_credit_effect(2) [OF rok r(1) run]
    by (rule bump_agree [OF ledger_okD(3) [OF ok, unfolded pools_ok_def]])
      (rule nn | simp add: tot same)+
  with ok res return_credit_balances_ok [OF rok ledger_okD(4) [OF ok] r f run] show ?thesis
    by (simp add: ledger_ok_def same)
qed

lemma release_unfold:
  assumes "reservations_ok s" and "r \<in> set (t_reservations s)" and "r_status r = Reserved"
  shows "releaseKizunaReservation e (r_id r) st s =
         return_credit e r (set_reservation (r_id r) (set_status e st) s)"
proof -
  have dist: "distinct (map r_id (t_reservations s))"
    using assms(1) by (simp add: reservations_ok_def)
  have uniq: "x = r" if "x \<in> set (t_reservations s)" "r_id x = r_id r" for x
    using dist assms(2) that by (auto simp: distinct_map inj_on_def)
  have "find (\<lambda>x. r_id x = r_id r \<and> r_status x = Reserved) (t_reservations s) = Some r"
    by (rule find_Some_unique) (use assms uniq in auto)
  moreover have "update_where (\<lambda>x. r_id x = r_id r \<and> r_status x = Reserved) (set_status e st) (t_reservations s)
      = update_where (\<lambda>x. r_id x = r_id r) (set_status e st) (t_reservations s)"
    unfolding update_where_def using uniq assms(3) by (intro map_cong) auto
  ultimately show ?thesis
    by (simp add: releaseKizunaReservation_def set_reservation_def thenT_def bindT_def)
qed

lemma release_no_effect:
  assumes "\<And>r. r \<in> set (t_reservations s) \<Longrightarrow> r_id r = rid \<Longrightarrow> r_status r \<noteq> Reserved"
  shows "releaseKizunaReservation e rid st s = Inr ((), s)"
proof -
  have "find (\<lambda>x. r_id x = rid \<and> r_status x = Reserved) (t_reservations s) = None"
    using assms by (auto simp: find_None_iff)
  then show ?thesis by (simp add: releaseKizunaReservation_def)
qed

lemma release_ledger_ok:
  assumes ok: "ledger_ok s" and st: "st = Released \<or> st = Expired"
    and run: "releaseKizunaReservation e rid st s = Inr (u, s')"
  shows "ledger_ok s'"
proof (cases "\<exists>r \<in> set (t_reservations s). r_id r = rid \<and> r_status r = Reserved")
  case True
  then obtain r where r: "r \<in> set (t_reservations s)" "r_id r = rid" "r_status r = Reserved" by blast
  have "return_credit e r (set_reservation (r_id r) (set_status e st) s) = Inr (u, s')"
    using run release_unfold [OF ledger_okD(1) [OF ok] r(1,3)] r(2) by simp
  then show ?thesis
    by (rule return_credit_ledger_ok [OF ok r(1,3), rotated -1]) (use st in auto)
next
  case False
  then have "releaseKizunaReservation e rid st s = Inr ((), s)"
    by (intro release_no_effect) blast
  with run ok show ?thesis by simp
qed

section \<open>Properties\<close>

text \<open>
  Claim C6.  Prefunded credit is never overdrawn: a prefunded reservation that is created locks exactly the
  requested lock amount, which was available before; the available balance drops by it, the locked
  total rises by it, and the money that funding events brought in stays the same.
\<close>

theorem create_prefund_locks:
  assumes "ledger_ok s" and "default_funding_mode p = Prefunded"
    and "createKizunaReservation e uid p s = Inr (row, s')"
  shows "let k = (rv_agentId p, rv_poolId p); locked = parseMicro (rv_lockedMicro p) in
         0 < locked \<and> locked \<le> prefund_available s k \<and>
         prefund_available s' k = prefund_available s k - locked \<and>
         locked_total s' k = locked_total s k + locked \<and> funded_total s' k = funded_total s k"
proof -
  note run = assms(3)
  note eff = create_effect [OF run]
  have k: "r_account row = (rv_agentId p, rv_poolId p)" "holds_lock row"
    and lk: "r_locked_micro row = parseMicro (rv_lockedMicro p)"
    using create_lock_amount [OF run] eff(8,10) assms(2) by (auto simp: r_account_def holds_lock_def)
  have ok': "balances_ok s'" using create_ledger_ok [OF assms(1) run] by (rule ledger_okD)
  show ?thesis
    using prefund_available_nonneg [OF ok', of "(rv_agentId p, rv_poolId p)"] assms(2)
      create_positive_lock [OF run]
    by (simp add: Let_def prefund_available_eq [OF ok'] prefund_available_eq [OF ledger_okD(4) [OF assms(1)]]
        create_totals [OF run] k lk same_debt_side_ok [OF eff(3)])
qed

lemma created_row_live:
  assumes "ledger_ok s" and "createKizunaReservation e uid p s = Inr (row, s')"
  shows "row \<in> set (t_reservations s')" "r_status row = Reserved" "reservations_ok s'"
  using create_effect(1,8) [OF assms(2)] create_reservations_ok [OF ledger_okD(1) [OF assms(1)] assms(2)]
  by simp_all

text \<open>
  Claim C7.  Reserving and releasing is a round trip: after a reservation is created and then released or
  expired, every prefunded balance and every pool's reserved and outstanding totals are as before, and
  releasing the same reservation again changes nothing, so credit is given back exactly once.
\<close>

theorem reserve_release_roundtrip:
  assumes "ledger_ok s" and create: "createKizunaReservation e1 uid p s = Inr (row, s1)"
    and st: "st = Released \<or> st = Expired"
    and release: "releaseKizunaReservation e2 (r_id row) st s1 = Inr ((), s2)"
  shows "prefund_available s2 k = prefund_available s k \<and>
         reserved_total s2 q l = reserved_total s q l \<and>
         outstanding_total s2 q l = outstanding_total s q l \<and>
         ledger_ok s2 \<and> releaseKizunaReservation e3 (r_id row) st' s2 = Inr ((), s2)"
proof -
  have ok1: "ledger_ok s1" by (rule create_ledger_ok [OF assms(1) create])
  note live = created_row_live [OF assms(1) create]
  have ret: "return_credit e2 row (set_reservation (r_id row) (set_status e2 st) s1) = Inr ((), s2)"
    using release release_unfold [OF live(3,1,2)] by simp
  have f: "r_status (set_status e2 st row) \<noteq> Reserved" "r_status (set_status e2 st row) \<noteq> Consumed"
    using st by auto
  note tot = return_credit_totals [OF live(3,1,2) keeps_terms_set_status f ret]
  have ok2: "ledger_ok s2" by (rule release_ledger_ok [OF ok1 st release])
  note same1 = same_debt_side_ok [OF create_effect(3) [OF create]]
  note same2 = same_debt_side_ok [OF return_credit_effect(3) [OF live(3,1) ret]]
  have "releaseKizunaReservation e3 (r_id row) st' s2 = Inr ((), s2)"
    by (rule release_no_effect)
      (use st in \<open>auto simp: return_credit_effect(1) [OF live(3,1) ret] set_update_where set_status_def\<close>)
  with ok2 show ?thesis
    using prefund_available_eq [OF ledger_okD(4) [OF ok2]] prefund_available_eq [OF ledger_okD(4) [OF assms(1)]]
    by (auto simp: tot create_totals [OF create] same1 same2)
qed

lemma bump_down_succeeds:
  assumes "\<And>p r. t_pool_reserves s p = Some r \<Longrightarrow> reserve_fits r" and "dr \<le> 0" and "do \<le> 0"
  shows "\<exists>s'. bumpKizunaPoolReserve e pool l dr do 0 s = Inr ((), s')"
  using assms(2,3) assms(1) [of pool]
  by (cases "t_pool_reserves s pool") (auto simp: bumpKizunaPoolReserve_def ensureKizunaPoolReserve_def thenT_def bindT_def
      insert_if_absent_def put_reserve_def seed_reserve_def reserve_fits_def bumped_reserve_def
      numeric30_def Let_def)

lemma unlock_succeeds:
  assumes ok: "reservations_ok s0" "balances_ok s0" and r: "r \<in> set (t_reservations s0)" "r_status r = Reserved"
    and funded: "funded_total s0 (r_account r) < 10 ^ 30"
    and same: "t_enterprise_balances s = t_enterprise_balances s0"
  shows "\<exists>s'. unlock_prefund e r s = Inr ((), s')"
proof (cases "r_funding_mode r = Prefunded")
  case True
  let ?k = "r_account r"
  have lock: "holds_lock r" "0 < r_locked_micro r" "r_locked_micro r \<le> locked_total s0 ?k"
    using True r reservations_okD [OF ok(1) r(1)] locked_total_ge [OF ok(1) r(1)]
    by (auto simp: holds_lock_def)
  note at = balances_agree_at [OF ok(2) [unfolded balances_ok_def], of ?k]
  obtain b where b: "t_enterprise_balances s0 ?k = Some b"
    using at lock by (cases "t_enterprise_balances s0 ?k") auto
  with at lock funded show ?thesis
    by (simp add: unlock_prefund_def True Let_def move_prefund_def bindT_def
        mutateKizunaEnterpriseBalance_def ensureKizunaEnterpriseBalance_def thenT_def same
        r_account_def moved_balance_def at_least_def numeric30_def)
qed (simp add: unlock_prefund_def)

text \<open>
  Claim C8.  Reserved credit can always be given back: in a consistent ledger whose columns are within range,
  releasing any reservation id, live or not, never fails.
\<close>

theorem release_always_succeeds:
  assumes ok: "ledger_ok s" and fits: "\<forall>p r. t_pool_reserves s p = Some r \<longrightarrow> reserve_fits r"
    and funded: "\<forall>k. funded_total s k < 10 ^ 30"
  shows "\<exists>s'. withTransaction (releaseKizunaReservation e rid st) s = (Inr (), s')"
proof (cases "\<exists>r \<in> set (t_reservations s). r_id r = rid \<and> r_status r = Reserved")
  case True
  then obtain r where r: "r \<in> set (t_reservations s)" "r_id r = rid" "r_status r = Reserved" by blast
  let ?s0 = "set_reservation (r_id r) (set_status e st) s"
  note nonneg = reservations_okD [OF ledger_okD(1) [OF ok] r(1)]
  obtain s1 where bump: "bumpKizunaPoolReserve e (r_pool_id r) (r_lane r) (- r_amount_micro r) 0 0 ?s0 = Inr ((), s1)"
    using bump_down_succeeds [of ?s0 "- r_amount_micro r" 0 e "r_pool_id r" "r_lane r"] fits nonneg
    by (auto simp: set_reservation_def)
  have "t_enterprise_balances s1 = t_enterprise_balances s"
    using bump_success [OF bump] by (simp add: set_reservation_def)
  then obtain s' where "unlock_prefund e r s1 = Inr ((), s')"
    using unlock_succeeds [OF ledger_okD(1,4) [OF ok] r(1,3)] funded by blast
  with bump nonneg have "return_credit e r ?s0 = Inr ((), s')"
    by (simp add: return_credit_def)
  then show ?thesis
    using release_unfold [OF ledger_okD(1) [OF ok] r(1,3)] r(2) by (auto simp: withTransaction_success)
next
  case False
  then have "releaseKizunaReservation e rid st s = Inr ((), s)"
    by (intro release_no_effect) blast
  then show ?thesis by simp
qed

section \<open>Witnesses\<close>

definition sample_params :: reservation_params where
  "sample_params =
     \<lparr>rv_decisionId = ''dec-1'', rv_agentId = ''agent-1'', rv_payerWallet = ''payer'',
      rv_requestNonce = ''n1'', rv_network = ''eip155:8453'', rv_lane = Enterprise,
      rv_poolId = ''enterprise-main'', rv_amountMicro = 50, rv_ttlMs = 1000,
      rv_fundingMode = Some Prefunded, rv_lockedMicro = Some (numeric_text 50)\<rparr>"

definition sample_row :: kizuna_reservation where
  "sample_row = reservation_row (sample_env 10) ''res-1'' sample_params Prefunded 50"

definition sample_reserved :: db where
  "sample_reserved = sample_ledger
     \<lparr>t_reservations := [sample_row],
      t_pool_reserves := bumped_table (sample_env 10) ''enterprise-main'' Enterprise 50 0 0
                           (t_pool_reserves sample_ledger),
      t_enterprise_balances := moved_table (sample_env 10) (''agent-1'', ''enterprise-main'') (- 50) 50 0
                           (t_enterprise_balances sample_ledger)\<rparr>"

lemmas sample_defs =
  sample_params_def sample_row_def sample_reserved_def sample_ledger_def sample_account_def
  sample_decision_def sample_funding_def seed_db_def seed_reserve_def

lemma sample_create:
  "createKizunaReservation (sample_env 10) ''res-1'' sample_params sample_ledger =
   Inr (sample_row, sample_reserved)"
  by (simp add: createKizunaReservation_def Let_def default_funding_mode_def insert_reservation_def
      reservation_row_def thenT_def bindT_def check_numeric30_def numeric30_fits_def fk_account_def
      ensureT_def bumpKizunaPoolReserve_def ensureKizunaPoolReserve_def insert_if_absent_def
      put_reserve_def bumped_reserve_def reserve_fits_def numeric30_def lock_prefund_def
      move_prefund_def mutateKizunaEnterpriseBalance_def ensureKizunaEnterpriseBalance_def
      moved_balance_def at_least_def put_balance_def bumped_table_def moved_table_def sample_defs)

lemma ledger_ok_sample_reserved: "ledger_ok sample_reserved"
  by (rule create_ledger_ok [OF ledger_ok_sample sample_create])

definition sample_released :: db where
  "sample_released = snd (withTransaction (releaseKizunaReservation (sample_env 20) ''res-1'' Released) sample_reserved)"

lemma sample_release:
  "releaseKizunaReservation (sample_env 20) ''res-1'' Released sample_reserved = Inr ((), sample_released)"
proof -
  have "\<exists>s. releaseKizunaReservation (sample_env 20) ''res-1'' Released sample_reserved = Inr ((), s)"
    by (simp add: releaseKizunaReservation_def return_credit_def Let_def reservation_row_def
        set_status_def thenT_def bindT_def bumpKizunaPoolReserve_def ensureKizunaPoolReserve_def
        insert_if_absent_def put_reserve_def bumped_reserve_def reserve_fits_def numeric30_def
        unlock_prefund_def move_prefund_def mutateKizunaEnterpriseBalance_def
        ensureKizunaEnterpriseBalance_def moved_balance_def at_least_def put_balance_def
        bumped_table_def moved_table_def sample_defs)
  then show ?thesis by (auto simp: sample_released_def)
qed

theorem create_prefund_locks_witness:
  "let k = (''agent-1'', ''enterprise-main'') in
   50 \<le> prefund_available sample_ledger k \<and>
   prefund_available sample_reserved k = prefund_available sample_ledger k - 50 \<and>
   locked_total sample_reserved k = locked_total sample_ledger k + 50"
  using create_prefund_locks [OF ledger_ok_sample _ sample_create]
  by (simp add: sample_params_def default_funding_mode_def Let_def)

theorem reserve_release_roundtrip_witness:
  "prefund_available sample_released (''agent-1'', ''enterprise-main'') =
     prefund_available sample_ledger (''agent-1'', ''enterprise-main'') \<and>
   releaseKizunaReservation (sample_env 30) ''res-1'' Expired sample_released = Inr ((), sample_released)"
proof -
  have "r_id sample_row = ''res-1''" by (simp add: sample_row_def reservation_row_def)
  then show ?thesis
    using reserve_release_roundtrip [OF ledger_ok_sample sample_create, of Released "sample_env 20"
        sample_released "(''agent-1'', ''enterprise-main'')" _ _ "sample_env 30" Expired] sample_release
    by simp
qed

theorem release_always_succeeds_witness:
  "\<exists>s'. withTransaction (releaseKizunaReservation (sample_env 40) ''res-1'' Expired) sample_reserved = (Inr (), s')"
proof (rule release_always_succeeds [OF ledger_ok_sample_reserved])
  show "\<forall>p r. t_pool_reserves sample_reserved p = Some r \<longrightarrow> reserve_fits r"
    by (auto simp: sample_defs bumped_table_def bumped_reserve_def reserve_fits_def numeric30_def
        split: if_splits)
  show "\<forall>k. funded_total sample_reserved k < 10 ^ 30"
    by (simp add: funded_total_def sample_defs signed_flow_def)
qed

end
