(* ===== verification/Outbox.thy ===== *)
theory Outbox
  imports Schema "HOL-Library.Product_Lexorder"
begin

text \<open>
  The trust-event outbox of \<open>db/queries.ts\<close>: events are queued inside the ledger transactions,
  leased in batches by the delivery worker, marked delivered or failed, and requeued by an operator.
  \<open>FOR UPDATE SKIP LOCKED\<close> leaves out rows that a concurrent transaction has locked; those row ids
  are the argument \<open>locked\<close>.  The rows that \<open>RETURNING\<close> gives are listed in table order.
\<close>

section \<open>Operations\<close>

definition buildFairscaleTrustEventId :: "env \<Rightarrow> string \<Rightarrow> string" where
  "buildFairscaleTrustEventId e idempotencyKey = env_sha256 e idempotencyKey"

text \<open>
  The queue input is the payload without its event id; \<open>?? null\<close> and \<open>?? {}\<close> are already \<open>None\<close>
  and the empty object here.  A row with the same idempotency key makes the insert do nothing; the
  other constraints of the table raise.
\<close>

definition queueFairscaleTrustEventOutbox ::
  "env \<Rightarrow> string \<Rightarrow> string \<Rightarrow> trust_payload \<Rightarrow> (db, unit) tx" where
  "queueFairscaleTrustEventOutbox e uid idempotencyKey input = (\<lambda>s.
     let eventId = buildFairscaleTrustEventId e idempotencyKey;
         row = \<lparr>ob_id = uid, ob_event_id = eventId, ob_event_type = tp_event_type input,
                ob_entity_id = tp_entity_id input, ob_idempotency_key = idempotencyKey,
                ob_payload = input\<lparr>tp_event_id := eventId\<rparr>, ob_attempt_count = 0,
                ob_next_attempt_at = env_now e, ob_leased_until = None, ob_last_attempt_at = None,
                ob_last_http_status = None, ob_last_error = None, ob_delivered_at = None,
                ob_created_at = env_now e, ob_updated_at = env_now e\<rparr>
     in if idempotencyKey \<in> ob_idempotency_key ` set (t_outbox s) then Inr ((), s)
        else if uid \<in> ob_id ` set (t_outbox s) then Inl (Pg (UniqueViolation ''outbox_pkey''))
        else if eventId \<in> ob_event_id ` set (t_outbox s)
          then Inl (Pg (UniqueViolation ''uq_kizuna_fairscale_event_id''))
        else if t_accounts s (tp_entity_id input) = None
          then Inl (Pg (ForeignKeyViolation ''entity_id''))
        else Inr ((), s\<lparr>t_outbox := t_outbox s @ [row]\<rparr>))"

definition outbox_due :: "int \<Rightarrow> outbox_row \<Rightarrow> bool" where
  "outbox_due now r =
     (ob_delivered_at r = None \<and> ob_next_attempt_at r \<le> now \<and>
      (case ob_leased_until r of None \<Rightarrow> True | Some t \<Rightarrow> t \<le> now))"

definition outbox_order :: "outbox_row \<Rightarrow> int \<times> int" where
  "outbox_order r = (ob_next_attempt_at r, ob_created_at r)"

definition clamp_limit :: "int \<Rightarrow> int \<Rightarrow> nat" where
  "clamp_limit limit upper = nat (max 1 (min limit upper))"

definition leaseFairscaleTrustEventBatch ::
  "env \<Rightarrow> (string \<Rightarrow> bool) \<Rightarrow> int \<Rightarrow> int \<Rightarrow> (db, outbox_row list) tx" where
  "leaseFairscaleTrustEventBatch e locked limit leaseMs = (\<lambda>s.
     let safeLimit = clamp_limit limit 100;
         due = take safeLimit
                 (sort_key outbox_order
                    (filter (\<lambda>r. outbox_due (env_now e) r \<and> \<not> locked (ob_id r)) (t_outbox s)));
         ids = map ob_id due;
         outbox' = update_where (\<lambda>r. ob_id r \<in> set ids)
                     (\<lambda>r. r\<lparr>ob_leased_until := Some (env_now e + max 1 leaseMs),
                            ob_updated_at := env_now e\<rparr>) (t_outbox s)
     in Inr (filter (\<lambda>r. ob_id r \<in> set ids) outbox', s\<lparr>t_outbox := outbox'\<rparr>))"

definition markFairscaleTrustEventsDelivered ::
  "env \<Rightarrow> string list \<Rightarrow> int option \<Rightarrow> (db, unit) tx" where
  "markFairscaleTrustEventsDelivered e ids httpStatus =
     (if ids = [] then returnT ()
      else modifyT (\<lambda>s. s\<lparr>t_outbox := update_where (\<lambda>r. ob_id r \<in> set ids)
             (\<lambda>r. r\<lparr>ob_leased_until := None, ob_last_attempt_at := Some (env_now e),
                    ob_last_http_status := httpStatus, ob_last_error := None,
                    ob_delivered_at := Some (env_now e), ob_updated_at := env_now e\<rparr>)
             (t_outbox s)\<rparr>))"

definition markFairscaleTrustEventAttemptFailed ::
  "env \<Rightarrow> string \<Rightarrow> int option \<Rightarrow> string option \<Rightarrow> int \<Rightarrow> (db, unit) tx" where
  "markFairscaleTrustEventAttemptFailed e evt httpStatus err nextAttemptAt =
     modifyT (\<lambda>s. s\<lparr>t_outbox := update_where (\<lambda>r. ob_id r = evt)
       (\<lambda>r. r\<lparr>ob_attempt_count := ob_attempt_count r + 1, ob_leased_until := None,
              ob_last_attempt_at := Some (env_now e), ob_last_http_status := httpStatus,
              ob_last_error := Some (take 2000 (case err of None \<Rightarrow> '''' | Some m \<Rightarrow> m)),
              ob_next_attempt_at := nextAttemptAt, ob_updated_at := env_now e\<rparr>)
       (t_outbox s)\<rparr>)"

definition requeueFairscaleTrustEvents :: "env \<Rightarrow> int option \<Rightarrow> bool \<Rightarrow> (db, nat) tx" where
  "requeueFairscaleTrustEvents e limit failedOnly = (\<lambda>s.
     let safeLimit = clamp_limit (case limit of None \<Rightarrow> 50 | Some l \<Rightarrow> l) 200;
         target = take safeLimit
                    (sort_key outbox_order
                       (filter (\<lambda>r. ob_delivered_at r = None \<and>
                                    (\<not> failedOnly \<or> 0 < ob_attempt_count r)) (t_outbox s)));
         ids = map ob_id target
     in Inr (length (filter (\<lambda>r. ob_id r \<in> set ids) (t_outbox s)),
             s\<lparr>t_outbox := update_where (\<lambda>r. ob_id r \<in> set ids)
                  (\<lambda>r. r\<lparr>ob_next_attempt_at := env_now e, ob_leased_until := None,
                         ob_updated_at := env_now e\<rparr>) (t_outbox s)\<rparr>))"

record outbox_summary =
  os_total :: nat
  os_pending :: nat
  os_ready :: nat
  os_leased :: nat
  os_retrying :: nat
  os_failed :: nat
  os_delivered :: nat

definition count_where :: "('r \<Rightarrow> bool) \<Rightarrow> 'r list \<Rightarrow> nat" where
  "count_where p rows = length (filter p rows)"

text \<open>The seven counters of the summary; its three date columns are not modelled.\<close>

definition getFairscaleTrustEventOutboxSummary :: "env \<Rightarrow> db \<Rightarrow> outbox_summary" where
  "getFairscaleTrustEventOutboxSummary e s =
     \<lparr>os_total = length (t_outbox s),
      os_pending = count_where (\<lambda>r. ob_delivered_at r = None) (t_outbox s),
      os_ready = count_where (outbox_due (env_now e)) (t_outbox s),
      os_leased = count_where (\<lambda>r. ob_delivered_at r = None \<and>
                     (case ob_leased_until r of None \<Rightarrow> False | Some t \<Rightarrow> env_now e < t)) (t_outbox s),
      os_retrying = count_where (\<lambda>r. ob_delivered_at r = None \<and> 0 < ob_attempt_count r) (t_outbox s),
      os_failed = count_where (\<lambda>r. ob_delivered_at r = None \<and> ob_last_error r \<noteq> None) (t_outbox s),
      os_delivered = count_where (\<lambda>r. ob_delivered_at r \<noteq> None) (t_outbox s)\<rparr>"

section \<open>Queueing\<close>

text \<open>What a successful queue call may change: the outbox only, by at most one appended row.\<close>

lemma queue_success:
  assumes "queueFairscaleTrustEventOutbox e uid key input s = Inr (u, s')"
  shows "\<exists>rows. s' = s\<lparr>t_outbox := rows\<rparr>"
proof (cases "key \<in> ob_idempotency_key ` set (t_outbox s)")
  case True
  with assms have "s' = s\<lparr>t_outbox := t_outbox s\<rparr>"
    by (simp add: queueFairscaleTrustEventOutbox_def)
  then show ?thesis by blast
next
  case False
  with assms show ?thesis
    by (auto simp: queueFairscaleTrustEventOutbox_def Let_def split: if_splits)
qed

lemma queue_present:
  "key \<in> ob_idempotency_key ` set (t_outbox s) \<Longrightarrow>
   queueFairscaleTrustEventOutbox e uid key input s = Inr ((), s)"
  by (simp add: queueFairscaleTrustEventOutbox_def)

text \<open>The key is in the outbox afterwards, and the keys and event ids stay pairwise different.\<close>

definition outbox_keys_ok :: "db \<Rightarrow> bool" where
  "outbox_keys_ok s =
     (distinct (map ob_id (t_outbox s)) \<and> distinct (map ob_idempotency_key (t_outbox s)) \<and>
      distinct (map ob_event_id (t_outbox s)))"

lemma queue_records_key:
  "queueFairscaleTrustEventOutbox e uid key input s = Inr (u, s') \<Longrightarrow>
   key \<in> ob_idempotency_key ` set (t_outbox s')"
  by (auto simp: queueFairscaleTrustEventOutbox_def Let_def split: if_splits)

lemma queue_keys_ok:
  "queueFairscaleTrustEventOutbox e uid key input s = Inr (u, s') \<Longrightarrow>
   outbox_keys_ok s \<Longrightarrow> outbox_keys_ok s'"
  by (auto simp: queueFairscaleTrustEventOutbox_def outbox_keys_ok_def Let_def split: if_splits)

section \<open>Leasing\<close>

lemma clamp_limit_bounds: "1 \<le> upper \<Longrightarrow> 1 \<le> clamp_limit l upper \<and> int (clamp_limit l upper) \<le> upper"
  by (auto simp: clamp_limit_def)

lemma length_filter_ids:
  assumes "distinct (map k rows)" and "set chosen \<subseteq> set rows" and "distinct (map k chosen)"
  shows "length (filter (\<lambda>r. k r \<in> set (map k chosen)) rows) = length chosen"
proof -
  have inj: "inj_on k (set rows)" using assms(1) by (simp add: distinct_map)
  have "set (filter (\<lambda>r. k r \<in> set (map k chosen)) rows) = set chosen"
    using assms(2) inj by (auto simp: inj_on_def)
  moreover have "distinct (filter (\<lambda>r. k r \<in> set (map k chosen)) rows)"
    using assms(1) by (simp add: distinct_map)
  moreover have "distinct chosen" using assms(3) by (simp add: distinct_map)
  ultimately show ?thesis by (metis distinct_card)
qed

lemma filter_update_where_key:
  "(\<And>r. k (f r) = k r) \<Longrightarrow>
   filter (\<lambda>r. k r \<in> K) (update_where p f rows) = update_where p f (filter (\<lambda>r. k r \<in> K) rows)"
  by (induction rows) auto

definition due_batch :: "env \<Rightarrow> (string \<Rightarrow> bool) \<Rightarrow> int \<Rightarrow> db \<Rightarrow> outbox_row list" where
  "due_batch e locked limit s =
     take (clamp_limit limit 100)
       (sort_key outbox_order
          (filter (\<lambda>r. outbox_due (env_now e) r \<and> \<not> locked (ob_id r)) (t_outbox s)))"

lemma due_batch_mem:
  "r \<in> set (due_batch e locked limit s) \<Longrightarrow>
   r \<in> set (t_outbox s) \<and> outbox_due (env_now e) r \<and> \<not> locked (ob_id r)"
  by (auto simp: due_batch_def dest!: in_set_takeD)

lemma due_batch_distinct:
  assumes "distinct (map ob_id (t_outbox s))"
  shows "distinct (map ob_id (due_batch e locked limit s))"
proof -
  have "distinct (map ob_id (filter P (t_outbox s)))" for P
    using assms by (rule distinct_map_filter)
  then have "distinct (map ob_id (sort_key outbox_order (filter P (t_outbox s))))" for P
    by (metis (no_types, lifting) distinct_map distinct_sort set_sort)
  then show ?thesis
    unfolding due_batch_def take_map [symmetric] by (rule distinct_take)
qed

lemma lease_eq:
  "leaseFairscaleTrustEventBatch e locked limit ms s =
   (let ids = ob_id ` set (due_batch e locked limit s);
        outbox' = update_where (\<lambda>r. ob_id r \<in> ids)
                    (\<lambda>r. r\<lparr>ob_leased_until := Some (env_now e + max 1 ms),
                           ob_updated_at := env_now e\<rparr>) (t_outbox s)
    in Inr (filter (\<lambda>r. ob_id r \<in> ids) outbox', s\<lparr>t_outbox := outbox'\<rparr>))"
  by (simp add: leaseFairscaleTrustEventBatch_def due_batch_def Let_def)


section \<open>Delivery is final\<close>

text \<open>
  The life of the outbox as a state machine: ledger transactions queue events; the worker leases,
  delivers and reports failures; the operator requeues.
\<close>

inductive outbox_step :: "db \<Rightarrow> db \<Rightarrow> bool" where
  step_queue: "queueFairscaleTrustEventOutbox e uid key input s = Inr (u, s') \<Longrightarrow> outbox_step s s'"
| step_lease: "leaseFairscaleTrustEventBatch e locked limit ms s = Inr (b, s') \<Longrightarrow> outbox_step s s'"
| step_delivered: "markFairscaleTrustEventsDelivered e ids st s = Inr (u, s') \<Longrightarrow> outbox_step s s'"
| step_failed:
    "markFairscaleTrustEventAttemptFailed e evt st err nxt s = Inr (u, s') \<Longrightarrow> outbox_step s s'"
| step_requeue: "requeueFairscaleTrustEvents e lmt failedOnly s = Inr (n, s') \<Longrightarrow> outbox_step s s'"

inductive_cases outbox_stepE: "outbox_step s s'"

definition delivered :: "string \<Rightarrow> db \<Rightarrow> bool" where
  "delivered evt s = (\<exists>r \<in> set (t_outbox s). ob_id r = evt \<and> ob_delivered_at r \<noteq> None)"

definition delivered_inv :: "string \<Rightarrow> db \<Rightarrow> bool" where
  "delivered_inv evt s = (distinct (map ob_id (t_outbox s)) \<and> delivered evt s)"

lemma delivered_inv_update_where:
  assumes "delivered_inv evt s" and "\<And>r. ob_id (f r) = ob_id r"
    and "\<And>r. ob_delivered_at r \<noteq> None \<Longrightarrow> ob_delivered_at (f r) \<noteq> None"
  shows "delivered_inv evt (s\<lparr>t_outbox := update_where p f (t_outbox s)\<rparr>)"
proof -
  have "map ob_id (update_where p f (t_outbox s)) = map ob_id (t_outbox s)"
    by (rule map_update_where) (rule assms(2))
  moreover have "delivered evt (s\<lparr>t_outbox := update_where p f (t_outbox s)\<rparr>)"
  proof -
    obtain d where d: "d \<in> set (t_outbox s)" "ob_id d = evt" "ob_delivered_at d \<noteq> None"
      using assms(1) unfolding delivered_inv_def delivered_def by blast
    let ?d = "if p d then f d else d"
    have "?d \<in> set (update_where p f (t_outbox s))"
      unfolding set_update_where using d(1) by (rule imageI)
    moreover have "ob_id ?d = evt" and "ob_delivered_at ?d \<noteq> None"
      using assms(2,3) d by simp_all
    ultimately show ?thesis
      unfolding delivered_def by auto
  qed
  ultimately show ?thesis using assms(1) by (simp add: delivered_inv_def)
qed

lemma delivered_inv_append:
  "delivered_inv evt s \<Longrightarrow> ob_id row \<notin> ob_id ` set (t_outbox s) \<Longrightarrow>
   delivered_inv evt (s\<lparr>t_outbox := t_outbox s @ [row]\<rparr>)"
  by (auto simp: delivered_inv_def delivered_def)

lemma delivered_inv_step: "outbox_step s s' \<Longrightarrow> delivered_inv evt s \<Longrightarrow> delivered_inv evt s'"
proof (erule outbox_stepE)
  fix e uid key input u
  assume "queueFairscaleTrustEventOutbox e uid key input s = Inr (u, s')" "delivered_inv evt s"
  then show "delivered_inv evt s'"
    by (auto simp: queueFairscaleTrustEventOutbox_def Let_def
             intro!: delivered_inv_append split: if_splits)
qed (auto simp: lease_eq Let_def markFairscaleTrustEventsDelivered_def
       markFairscaleTrustEventAttemptFailed_def requeueFairscaleTrustEvents_def
     intro!: delivered_inv_update_where split: if_splits)

interpretation outbox_life: invariant_system "delivered_inv evt" outbox_step "delivered_inv evt" for evt
  by unfold_locales (auto intro: delivered_inv_step)

lemma delivered_not_leased:
  assumes "delivered_inv evt s"
    and "leaseFairscaleTrustEventBatch e locked limit ms s = Inr (batch, s')"
  shows "evt \<notin> ob_id ` set batch"
proof
  assume "evt \<in> ob_id ` set batch"
  then obtain r where r: "r \<in> set (due_batch e locked limit s)" "ob_id r = evt"
    using assms(2) by (auto simp: lease_eq Let_def)
  obtain d where d: "d \<in> set (t_outbox s)" "ob_id d = evt" "ob_delivered_at d \<noteq> None"
    using assms(1) by (auto simp: delivered_inv_def delivered_def)
  have "r \<in> set (t_outbox s)" and "ob_delivered_at r = None"
    using due_batch_mem [OF r(1)] by (auto simp: outbox_due_def)
  with r(2) d assms(1) have "r = d"
    by (auto simp: delivered_inv_def distinct_map inj_on_def)
  with d \<open>ob_delivered_at r = None\<close> show False by simp
qed

text \<open>
  Delivery is final: once an outbox row is delivered, no sequence of queue, lease, delivery,
  failure and requeue operations makes it undelivered or puts it into a leased batch again.
\<close>

theorem delivered_is_final:
  assumes "delivered_inv evt s" and "outbox_step\<^sup>*\<^sup>* s s'"
    and "leaseFairscaleTrustEventBatch e locked limit ms s' = Inr (batch, s'')"
  shows "delivered evt s' \<and> evt \<notin> ob_id ` set batch"
proof -
  have "delivered_inv evt s'"
    using assms(1,2) by (rule outbox_life.inv_reachable)
  then show ?thesis
    using delivered_not_leased [OF _ assms(3)] by (simp add: delivered_inv_def)
qed

section \<open>Witnesses\<close>

definition sample_event :: outbox_row where
  "sample_event =
     \<lparr>ob_id = ''ev-1'', ob_event_id = ''h1'', ob_event_type = RepaymentReceived,
      ob_entity_id = ''agent-1'', ob_idempotency_key = ''repayment:agent-1:r1'',
      ob_payload = \<lparr>tp_event_id = ''h1'', tp_entity_id = ''agent-1'', tp_event_type = RepaymentReceived,
         tp_occurred_at = 0, tp_lane = Enterprise, tp_pool_id = ''enterprise-main'', tp_network = None,
         tp_amount_micro = None, tp_currency = None, tp_tx_hash = None, tp_reference_id = None,
         tp_settlement_id = None, tp_reservation_id = None, tp_debt_id = None, tp_payer_wallet = None,
         tp_repay_wallet = None, tp_merchant_wallet = None, tp_collateral_account = None,
         tp_asset_id = None, tp_metadata = []\<rparr>,
      ob_attempt_count = 0, ob_next_attempt_at = 0, ob_leased_until = None, ob_last_attempt_at = None,
      ob_last_http_status = None, ob_last_error = None, ob_delivered_at = None, ob_created_at = 0,
      ob_updated_at = 0\<rparr>"

definition sample_outbox :: "outbox_row \<Rightarrow> db" where
  "sample_outbox r = (seed_db 0)\<lparr>t_outbox := [r]\<rparr>"

definition leased_event :: outbox_row where
  "leased_event = sample_event\<lparr>ob_leased_until := Some 1010, ob_updated_at := 10\<rparr>"

definition delivered_event :: outbox_row where
  "delivered_event = sample_event\<lparr>ob_delivered_at := Some 5, ob_attempt_count := 1\<rparr>"

lemma sample_lease:
  "leaseFairscaleTrustEventBatch (sample_env 10) (\<lambda>_. False) 5 1000 (sample_outbox sample_event) =
   Inr ([leased_event], sample_outbox leased_event)"
  "leaseFairscaleTrustEventBatch (sample_env 500) (\<lambda>_. False) 5 1000 (sample_outbox leased_event) =
   Inr ([], sample_outbox leased_event)"
  by (simp_all add: leaseFairscaleTrustEventBatch_def outbox_due_def sample_outbox_def leased_event_def
      sample_event_def clamp_limit_def)


lemma sample_requeue:
  "outbox_step (sample_outbox delivered_event) (sample_outbox delivered_event)"
  by (rule step_requeue [of "sample_env 20" None False _ 0])
    (simp add: requeueFairscaleTrustEvents_def sample_outbox_def delivered_event_def clamp_limit_def)

lemma sample_lease_delivered:
  "leaseFairscaleTrustEventBatch (sample_env 30) (\<lambda>_. False) 5 1000 (sample_outbox delivered_event) =
   Inr ([], sample_outbox delivered_event)"
  by (simp add: leaseFairscaleTrustEventBatch_def outbox_due_def sample_outbox_def delivered_event_def
      clamp_limit_def)

theorem delivered_is_final_witness:
  "delivered ''ev-1'' (sample_outbox delivered_event) \<and> ''ev-1'' \<notin> ob_id ` set ([] :: outbox_row list)"
  by (rule delivered_is_final [OF _ r_into_rtranclp [of outbox_step, OF sample_requeue] sample_lease_delivered])
    (simp add: delivered_inv_def delivered_def sample_outbox_def delivered_event_def sample_event_def)

end
