(* ===== verification/Settlement.thy ===== *)
theory Settlement
  imports Reservations Outbox
begin

text \<open>
  Settlement of a reservation: the \<open>settlements\<close> table operations and \<open>finalizeKizunaSettlement\<close> of
  \<open>db/queries.ts\<close>, split at the statements of its transaction.
\<close>

section \<open>The settlements table\<close>

definition insertSettlement ::
  "env \<Rightarrow> string \<Rightarrow> string \<Rightarrow> string \<Rightarrow> rat \<Rightarrow> rat \<Rightarrow> string \<Rightarrow> string \<Rightarrow> settlement_status \<Rightarrow> string
   \<Rightarrow> (db, settlement_row) tx" where
  "insertSettlement e uid merchantWallet payerWallet amount feeAmount asset txHash status network =
     (let row = \<lparr>st_id = uid, st_merchant_wallet = merchantWallet, st_payer_wallet = payerWallet,
                 st_amount = numeric6 amount, st_fee_amount = numeric6 feeAmount, st_asset = asset,
                 st_tx_hash = txHash, st_status = status, st_network = network,
                 st_created_at = env_now e\<rparr> in
      thenT (ensureT (\<lambda>_. numeric6_fits amount \<and> numeric6_fits feeAmount)
               (Pg (NumericOverflow ''settlements'')))
     (thenT (ensureT (\<lambda>s. uid \<notin> st_id ` set (t_settlements s)) (Pg (UniqueViolation ''settlements_pkey'')))
     (thenT (modifyT (\<lambda>s. s\<lparr>t_settlements := t_settlements s @ [row]\<rparr>))
     (returnT row))))"

definition updateSettlementStatus :: "string \<Rightarrow> settlement_status \<Rightarrow> string option \<Rightarrow> (db, unit) tx" where
  "updateSettlementStatus sid status txHash =
     modifyT (\<lambda>s. s\<lparr>t_settlements := update_where (\<lambda>r. st_id r = sid)
       (\<lambda>r. case txHash of
              Some h \<Rightarrow> if h \<noteq> [] then r\<lparr>st_status := status, st_tx_hash := h\<rparr> else r\<lparr>st_status := status\<rparr>
            | None \<Rightarrow> r\<lparr>st_status := status\<rparr>) (t_settlements s)\<rparr>)"

definition confirm_row :: "string \<Rightarrow> rat \<Rightarrow> settlement_row \<Rightarrow> settlement_row" where
  "confirm_row txHash feeAmount r =
     r\<lparr>st_status := SettlementConfirmedS, st_tx_hash := txHash, st_fee_amount := numeric6 feeAmount\<rparr>"

definition updateSettlementConfirmed :: "string \<Rightarrow> string \<Rightarrow> rat \<Rightarrow> (db, unit) tx" where
  "updateSettlementConfirmed sid txHash feeAmount =
     thenT (ensureT (\<lambda>s. sid \<in> st_id ` set (t_settlements s) \<longrightarrow> numeric6_fits feeAmount)
              (Pg (NumericOverflow ''fee_amount'')))
           (modifyT (\<lambda>s. s\<lparr>t_settlements := update_where (\<lambda>r. st_id r = sid)
              (confirm_row txHash feeAmount) (t_settlements s)\<rparr>))"

definition getSettlementById :: "string \<Rightarrow> db \<Rightarrow> settlement_row option" where
  "getSettlementById sid s = find (\<lambda>r. st_id r = sid) (t_settlements s)"

text \<open>\<open>INSERT INTO fee_ledger\<close>, whose settlement reference must exist.\<close>

definition insert_fee_row :: "fee_row \<Rightarrow> (db, unit) tx" where
  "insert_fee_row row =
     thenT (ensureT (\<lambda>s. (case fl_settlement_id row of None \<Rightarrow> True
                          | Some sid \<Rightarrow> sid \<in> st_id ` set (t_settlements s)))
              (Pg (ForeignKeyViolation ''settlement_id'')))
    (thenT (ensureT (\<lambda>_. numeric6_fits (fl_amount row)) (Pg (NumericOverflow ''fee_ledger'')))
    (modifyT (\<lambda>s. s\<lparr>t_fee_ledger := t_fee_ledger s @ [row\<lparr>fl_amount := numeric6 (fl_amount row)\<rparr>]\<rparr>)))"

section \<open>finalizeKizunaSettlement\<close>

record finalize_params =
  fz_reservationId :: string
  fz_settlementId :: string
  fz_txHash :: string
  fz_feeAmount :: rat
  fz_feeTxHash :: "string option"
  fz_lane :: "lane option"
  fz_poolId :: "string option"
  fz_decisionEnvelopeHash :: "string option"

record finalize_result =
  fr_lane :: lane
  fr_poolId :: string
  fr_reservationId :: string
  fr_settlementId :: string
  fr_agentId :: string
  fr_payerWallet :: string
  fr_network :: string
  fr_txHash :: string
  fr_amountMicro :: string
  fr_fundingConsumedMicro :: string
  fr_debt :: "kizuna_debt option"

fun reservation_status_text :: "reservation_status \<Rightarrow> string" where
  "reservation_status_text Reserved = ''reserved''"
| "reservation_status_text Consumed = ''consumed''"
| "reservation_status_text Released = ''released''"
| "reservation_status_text Expired = ''expired''"

text \<open>The inner join of the reservation with its decision, by reservation id.\<close>

definition load_reservation :: "string \<Rightarrow> db \<Rightarrow> (kizuna_reservation \<times> kizuna_decision) option" where
  "load_reservation rid s =
     (case find (\<lambda>r. r_id r = rid) (t_reservations s) of
        None \<Rightarrow> None
      | Some r \<Rightarrow> map_option (Pair r) (find (\<lambda>d. dc_id d = r_decision_id r) (t_decisions s)))"

text \<open>
  The expired branch: status, pool reserve and prefund lock are updated, and then the code throws,
  so that \<open>withTransaction\<close> rolls all of it back.
\<close>

definition finalize_expired ::
  "env \<Rightarrow> kizuna_reservation \<Rightarrow> (db, finalize_result) tx" where
  "finalize_expired e r =
     thenT (modifyT (set_reservation (r_id r) (set_status e Expired)))
    (thenT (return_credit e r)
    (throwT (Thrown ''kizuna_reservation_expired'')))"

definition isPrefundedEnterprise :: "kizuna_reservation \<Rightarrow> bool" where
  "isPrefundedEnterprise r = (r_lane r = Enterprise \<and> r_funding_mode r = Prefunded)"

definition confirm_settlement :: "finalize_params \<Rightarrow> (db, unit) tx" where
  "confirm_settlement p =
     thenT (updateSettlementConfirmed (fz_settlementId p) (fz_txHash p) (fz_feeAmount p))
           (insert_fee_row \<lparr>fl_settlement_id = Some (fz_settlementId p), fl_escrow_id = None,
              fl_fee_type = ''settlement'', fl_amount = fz_feeAmount p, fl_treasury_tx = fz_feeTxHash p\<rparr>)"

definition consume_prefund :: "env \<Rightarrow> kizuna_reservation \<Rightarrow> (db, unit) tx" where
  "consume_prefund e r =
     (let locked = parseMicro (Some (numeric_text (r_locked_micro r))) in
      if locked \<le> 0 then throwT (Thrown ''kizuna_prefund_lock_invalid'')
      else move_prefund e (r_agent_id r) (r_pool_id r) 0 (- locked) locked None (Some locked)
             ''kizuna_prefund_consume_failed'')"

definition new_debt ::
  "env \<Rightarrow> finalize_params \<Rightarrow> kizuna_reservation \<Rightarrow> kizuna_decision \<Rightarrow> kizuna_debt" where
  "new_debt e p r d =
     \<lparr>d_id = env_uuid e 0, d_agent_id = r_agent_id r, d_payer_wallet = r_payer_wallet r,
      d_repay_wallet = dc_repay_wallet d, d_network = r_network r, d_lane = r_lane r,
      d_pool_id = r_pool_id r, d_settlement_id = fz_settlementId p,
      d_decision_id = Some (r_decision_id r), d_reservation_id = Some (r_id r),
      d_decision_envelope_hash = or_else (fz_decisionEnvelopeHash p) (dc_decision_envelope_hash d),
      d_principal_micro = r_amount_micro r, d_outstanding_micro = r_amount_micro r, d_status = Open,
      d_tx_hash = Some (fz_txHash p), d_created_at = env_now e, d_updated_at = env_now e,
      d_closed_at = None\<rparr>"

text \<open>
  \<open>INSERT INTO kizuna_debts .. ON CONFLICT (settlement_id) DO UPDATE .. RETURNING\<close>.  The decision and
  the reservation it refers to are rows that the transaction has just read.
\<close>

definition upsert_debt :: "env \<Rightarrow> kizuna_debt \<Rightarrow> (db, kizuna_debt) tx" where
  "upsert_debt e row = (\<lambda>s.
     case find (\<lambda>d. d_settlement_id d = d_settlement_id row) (t_debts s) of
       Some old \<Rightarrow>
         (let upd = (\<lambda>d. d\<lparr>d_tx_hash := d_tx_hash row,
                  d_decision_envelope_hash := or_else (d_decision_envelope_hash row) (d_decision_envelope_hash d),
                  d_updated_at := env_now e\<rparr>)
          in Inr (upd old, s\<lparr>t_debts := update_where (\<lambda>d. d_settlement_id d = d_settlement_id row) upd
                                       (t_debts s)\<rparr>))
     | None \<Rightarrow>
         thenT (check_numeric30 ''principal_micro'' (d_principal_micro row))
        (thenT (ensureT (\<lambda>s. d_id row \<notin> d_id ` set (t_debts s)) (Pg (UniqueViolation ''kizuna_debts_pkey'')))
        (thenT (ensureT (\<lambda>s. d_settlement_id row \<in> st_id ` set (t_settlements s))
                  (Pg (ForeignKeyViolation ''settlement_id'')))
        (thenT (fk_account (d_agent_id row))
        (thenT (modifyT (\<lambda>s. s\<lparr>t_debts := t_debts s @ [row]\<rparr>))
        (returnT row))))) s)"

definition settle_funds ::
  "env \<Rightarrow> finalize_params \<Rightarrow> kizuna_reservation \<Rightarrow> kizuna_decision \<Rightarrow> (db, kizuna_debt option) tx" where
  "settle_funds e p r d =
     (if isPrefundedEnterprise r then thenT (consume_prefund e r) (returnT None)
      else bindT (upsert_debt e (new_debt e p r d)) (\<lambda>debt. returnT (Some debt)))"

definition consume_row :: "env \<Rightarrow> finalize_params \<Rightarrow> kizuna_reservation \<Rightarrow> kizuna_reservation" where
  "consume_row e p r =
     r\<lparr>r_status := Consumed, r_settlement_id := Some (fz_settlementId p),
       r_tx_hash := Some (fz_txHash p), r_updated_at := env_now e\<rparr>"

definition settlement_merchant :: "finalize_params \<Rightarrow> (db, string) tx" where
  "settlement_merchant p = (\<lambda>s.
     case getSettlementById (fz_settlementId p) s of
       Some row \<Rightarrow> if st_merchant_wallet row \<noteq> [] then Inr (st_merchant_wallet row, s)
                   else Inl (Thrown ''kizuna_settlement_not_found'')
     | None \<Rightarrow> Inl (Thrown ''kizuna_settlement_not_found''))"

text \<open>
  The billing row; its \<open>payload\<close> column repeats the other columns and is left out.  A row for the same
  reservation and settlement makes the insert do nothing.
\<close>

definition billable_row ::
  "env \<Rightarrow> finalize_params \<Rightarrow> kizuna_reservation \<Rightarrow> kizuna_debt option \<Rightarrow> string \<Rightarrow> billable_event" where
  "billable_row e p r debt merchantWallet =
     \<lparr>be_id = env_uuid e 1, be_reservation_id = r_id r, be_settlement_id = fz_settlementId p,
      be_debt_id = map_option d_id debt, be_agent_id = r_agent_id r,
      be_payer_wallet = r_payer_wallet r, be_merchant_wallet = merchantWallet,
      be_network = r_network r, be_lane = r_lane r, be_pool_id = r_pool_id r,
      be_amount_micro = r_amount_micro r,
      be_idempotency_key = r_id r @ '':'' @ fz_settlementId p, be_emitted_at = env_now e\<rparr>"

definition insert_billable :: "billable_event \<Rightarrow> (db, unit) tx" where
  "insert_billable row = (\<lambda>s.
     if (be_reservation_id row, be_settlement_id row) \<in>
        (\<lambda>b. (be_reservation_id b, be_settlement_id b)) ` set (t_billable_events s) then Inr ((), s)
     else
       thenT (ensureT (\<lambda>s. be_id row \<notin> be_id ` set (t_billable_events s))
                (Pg (UniqueViolation ''billable_pkey'')))
      (thenT (ensureT (\<lambda>s. be_idempotency_key row \<notin> be_idempotency_key ` set (t_billable_events s))
                (Pg (UniqueViolation ''uq_kizuna_billable_idempotency_key'')))
      (modifyT (\<lambda>s. s\<lparr>t_billable_events := t_billable_events s @ [row]\<rparr>))) s)"

definition opt_text :: "string option \<Rightarrow> json" where
  "opt_text v = (case v of None \<Rightarrow> JNull | Some t \<Rightarrow> JStr t)"

definition fundingConsumedMicro :: "kizuna_reservation \<Rightarrow> string" where
  "fundingConsumedMicro r = (if isPrefundedEnterprise r then numeric_text (r_locked_micro r) else ''0'')"

definition settlement_event ::
  "env \<Rightarrow> finalize_params \<Rightarrow> kizuna_reservation \<Rightarrow> kizuna_decision \<Rightarrow> kizuna_debt option \<Rightarrow> string
   \<Rightarrow> trust_payload" where
  "settlement_event e p r d debt merchantWallet =
     \<lparr>tp_event_id = '''', tp_entity_id = r_agent_id r, tp_event_type = SettlementConfirmed,
      tp_occurred_at = env_date_now e, tp_lane = r_lane r, tp_pool_id = r_pool_id r,
      tp_network = Some (r_network r), tp_amount_micro = Some (numeric_text (r_amount_micro r)),
      tp_currency = Some ''USDC'', tp_tx_hash = Some (fz_txHash p), tp_reference_id = None,
      tp_settlement_id = Some (fz_settlementId p), tp_reservation_id = Some (r_id r),
      tp_debt_id = map_option d_id debt, tp_payer_wallet = Some (r_payer_wallet r),
      tp_repay_wallet = Some (dc_repay_wallet d), tp_merchant_wallet = Some merchantWallet,
      tp_collateral_account = None, tp_asset_id = None,
      tp_metadata =
        [(''decisionId'', JStr (r_decision_id r)),
         (''decisionEnvelopeHash'',
            opt_text (or_else (fz_decisionEnvelopeHash p) (dc_decision_envelope_hash d))),
         (''fundingConsumedMicro'', JStr (fundingConsumedMicro r))]\<rparr>"

definition settlement_key :: "finalize_params \<Rightarrow> kizuna_reservation \<Rightarrow> string" where
  "settlement_key p r = ''settlement:'' @ r_id r @ '':'' @ fz_settlementId p"

definition finalize_live ::
  "env \<Rightarrow> finalize_params \<Rightarrow> kizuna_reservation \<Rightarrow> kizuna_decision \<Rightarrow> (db, finalize_result) tx" where
  "finalize_live e p r d =
     thenT (confirm_settlement p)
    (bindT (settle_funds e p r d) (\<lambda>debt.
     thenT (modifyT (set_reservation (r_id r) (consume_row e p)))
    (bindT (settlement_merchant p) (\<lambda>merchantWallet.
     thenT (insert_billable (billable_row e p r debt merchantWallet))
    (thenT (queueFairscaleTrustEventOutbox e (env_uuid e 2) (settlement_key p r)
              (settlement_event e p r d debt merchantWallet))
    (thenT (bumpKizunaPoolReserve e (r_pool_id r) (r_lane r)
              (- parseMicro (Some (numeric_text (r_amount_micro r))))
              (if isPrefundedEnterprise r then 0 else parseMicro (Some (numeric_text (r_amount_micro r)))) 0)
    (returnT \<lparr>fr_lane = r_lane r, fr_poolId = r_pool_id r, fr_reservationId = r_id r,
              fr_settlementId = fz_settlementId p, fr_agentId = r_agent_id r,
              fr_payerWallet = r_payer_wallet r, fr_network = r_network r, fr_txHash = fz_txHash p,
              fr_amountMicro = numeric_text (r_amount_micro r),
              fr_fundingConsumedMicro = fundingConsumedMicro r, fr_debt = debt\<rparr>)))))))"

definition finalizeKizunaSettlement :: "env \<Rightarrow> finalize_params \<Rightarrow> (db, finalize_result) tx" where
  "finalizeKizunaSettlement e p = (\<lambda>s.
     case load_reservation (fz_reservationId p) s of
       None \<Rightarrow> Inl (Thrown ''kizuna_reservation_not_found'')
     | Some (r, d) \<Rightarrow>
         if r_status r \<noteq> Reserved
         then Inl (Thrown (''kizuna_reservation_'' @ reservation_status_text (r_status r)))
         else if fz_lane p \<noteq> None \<and> fz_lane p \<noteq> Some (r_lane r)
         then Inl (Thrown ''kizuna_lane_mismatch'')
         else if fz_poolId p \<notin> {None, Some []} \<and> fz_poolId p \<noteq> Some (r_pool_id r)
         then Inl (Thrown ''kizuna_pool_mismatch'')
         else if r_expires_at r \<le> env_date_now e then finalize_expired e r s
         else finalize_live e p r d s)"

definition getKizunaDebtBySettlementId :: "string \<Rightarrow> db \<Rightarrow> kizuna_debt option" where
  "getKizunaDebtBySettlementId sid s = find (\<lambda>d. d_settlement_id d = sid) (t_debts s)"

definition getKizunaDebtByReservationId :: "string \<Rightarrow> db \<Rightarrow> kizuna_debt option" where
  "getKizunaDebtByReservationId rid s = find (\<lambda>d. d_reservation_id d = Some rid) (t_debts s)"

definition getKizunaBillableSettlementEvent :: "string \<Rightarrow> string \<Rightarrow> db \<Rightarrow> billable_event option" where
  "getKizunaBillableSettlementEvent rid sid s =
     find (\<lambda>b. be_reservation_id b = rid \<and> be_settlement_id b = sid) (t_billable_events s)"

section \<open>The stages of a live settlement\<close>

lemma confirm_settlement_success:
  assumes "confirm_settlement p s = Inr (u, s')"
  shows "\<exists>S F. s' = s\<lparr>t_settlements := S, t_fee_ledger := F\<rparr>"
    and "t_settlements s' = update_where (\<lambda>r. st_id r = fz_settlementId p)
                              (confirm_row (fz_txHash p) (fz_feeAmount p)) (t_settlements s)"
    and "fz_settlementId p \<in> st_id ` set (t_settlements s)"
proof -
  have ids: "st_id ` set (update_where q (confirm_row h f) rows) = st_id ` set rows" for q h f rows
  proof -
    have "map st_id (update_where q (confirm_row h f) rows) = map st_id rows"
      by (rule map_update_where) (simp add: confirm_row_def)
    then show ?thesis by (metis list.set_map)
  qed
  show "\<exists>S F. s' = s\<lparr>t_settlements := S, t_fee_ledger := F\<rparr>"
    "t_settlements s' = update_where (\<lambda>r. st_id r = fz_settlementId p)
                              (confirm_row (fz_txHash p) (fz_feeAmount p)) (t_settlements s)"
    using assms
    by (auto simp: confirm_settlement_def updateSettlementConfirmed_def insert_fee_row_def thenT_success)
  show "fz_settlementId p \<in> st_id ` set (t_settlements s)"
    using assms
    by (simp add: confirm_settlement_def updateSettlementConfirmed_def insert_fee_row_def thenT_success ids)
qed

lemma upsert_debt_fresh:
  assumes "upsert_debt e row s = Inr (debt, s')" and "d_settlement_id row \<notin> d_settlement_id ` set (t_debts s)"
  shows "debt = row" and "s' = s\<lparr>t_debts := t_debts s @ [row]\<rparr>"
    and "d_id row \<notin> d_id ` set (t_debts s)" and "0 \<le> d_principal_micro row"
proof -
  have "find (\<lambda>d. d_settlement_id d = d_settlement_id row) (t_debts s) = None"
    unfolding find_None_iff using assms(2) by (metis imageI)
  with assms(1) show "debt = row" "s' = s\<lparr>t_debts := t_debts s @ [row]\<rparr>"
    "d_id row \<notin> d_id ` set (t_debts s)" "0 \<le> d_principal_micro row"
    by (auto simp: upsert_debt_def thenT_success numeric30_def)
qed

lemma consume_prefund_success:
  assumes "consume_prefund e r s = Inr (u, s')" and "0 \<le> r_locked_micro r"
  shows "move_prefund e (r_agent_id r) (r_pool_id r) 0 (- r_locked_micro r) (r_locked_micro r) None
           (Some (r_locked_micro r)) ''kizuna_prefund_consume_failed'' s = Inr ((), s')"
  using assms by (auto simp: consume_prefund_def Let_def split: if_splits)

lemma insert_billable_success:
  assumes "insert_billable row s = Inr (u, s')"
  shows "\<exists>B. s' = s\<lparr>t_billable_events := B\<rparr>"
    and "(be_reservation_id row, be_settlement_id row) \<in>
         (\<lambda>b. (be_reservation_id b, be_settlement_id b)) ` set (t_billable_events s')"
proof -
  show "\<exists>B. s' = s\<lparr>t_billable_events := B\<rparr>"
  proof (cases "(be_reservation_id row, be_settlement_id row) \<in>
        (\<lambda>b. (be_reservation_id b, be_settlement_id b)) ` set (t_billable_events s)")
    case True
    with assms have "s' = s\<lparr>t_billable_events := t_billable_events s\<rparr>"
      by (simp add: insert_billable_def)
    then show ?thesis by blast
  next
    case False
    with assms show ?thesis by (auto simp: insert_billable_def thenT_success)
  qed
  show "(be_reservation_id row, be_settlement_id row) \<in>
         (\<lambda>b. (be_reservation_id b, be_settlement_id b)) ` set (t_billable_events s')"
    using assms by (auto simp: insert_billable_def thenT_success split: if_splits)
qed

lemma finalize_live_stages:
  assumes "finalize_live e p r d s = Inr (res, s')" and "0 \<le> r_amount_micro r"
  obtains s1 s2 mw s4 s5 where
    "confirm_settlement p s = Inr ((), s1)"
    "settle_funds e p r d s1 = Inr (fr_debt res, s2)"
    "settlement_merchant p (set_reservation (r_id r) (consume_row e p) s2) =
       Inr (mw, set_reservation (r_id r) (consume_row e p) s2)"
    "insert_billable (billable_row e p r (fr_debt res) mw)
       (set_reservation (r_id r) (consume_row e p) s2) = Inr ((), s4)"
    "queueFairscaleTrustEventOutbox e (env_uuid e 2) (settlement_key p r)
       (settlement_event e p r d (fr_debt res) mw) s4 = Inr ((), s5)"
    "bumpKizunaPoolReserve e (r_pool_id r) (r_lane r) (- r_amount_micro r)
       (if isPrefundedEnterprise r then 0 else r_amount_micro r) 0 s5 = Inr ((), s')"
proof -
  have mw_same: "t = t'" if "settlement_merchant p t = Inr (mw, t')" for t t' mw
    using that by (auto simp: settlement_merchant_def split: option.splits if_splits)
  from assms(1) obtain s1 s2 s3 s4 s5 s6 mw debt where
    "confirm_settlement p s = Inr ((), s1)" "settle_funds e p r d s1 = Inr (debt, s2)"
    "settlement_merchant p (set_reservation (r_id r) (consume_row e p) s2) = Inr (mw, s3)"
    "insert_billable (billable_row e p r debt mw) s3 = Inr ((), s4)"
    "queueFairscaleTrustEventOutbox e (env_uuid e 2) (settlement_key p r)
       (settlement_event e p r d debt mw) s4 = Inr ((), s5)"
    "bumpKizunaPoolReserve e (r_pool_id r) (r_lane r)
       (- parseMicro (Some (numeric_text (r_amount_micro r))))
       (if isPrefundedEnterprise r then 0 else parseMicro (Some (numeric_text (r_amount_micro r)))) 0 s5
       = Inr ((), s6)"
    "fr_debt res = debt" "s' = s6"
    unfolding finalize_live_def
    by (auto elim!: thenT_successE bindT_successE)
  with assms(2) mw_same that show thesis by (metis max.absorb2 parseMicro_numeric_text)
qed

text \<open>What a live settlement does to the ledger tables.\<close>

lemma finalize_live_effect:
  assumes run: "finalize_live e p r d s = Inr (res, s')"
    and nonneg: "0 \<le> r_amount_micro r" "0 \<le> r_locked_micro r"
    and fresh: "fz_settlementId p \<notin> d_settlement_id ` set (t_debts s)"
  shows "t_reservations s' = update_where (\<lambda>x. r_id x = r_id r) (consume_row e p) (t_reservations s)"
    and "t_debts s' = (if isPrefundedEnterprise r then t_debts s else t_debts s @ [new_debt e p r d])"
    and "fr_debt res = (if isPrefundedEnterprise r then None else Some (new_debt e p r d))"
    and "\<not> isPrefundedEnterprise r \<longrightarrow> env_uuid e 0 \<notin> d_id ` set (t_debts s)"
    and "t_pool_reserves s' = bumped_table e (r_pool_id r) (r_lane r) (- r_amount_micro r)
           (if isPrefundedEnterprise r then 0 else r_amount_micro r) 0 (t_pool_reserves s)"
    and "t_repayments s' = t_repayments s" and "t_funding_events s' = t_funding_events s"
    and "t_decisions s' = t_decisions s" and "t_accounts s' = t_accounts s"
    and "if isPrefundedEnterprise r
         then \<exists>a b. t_enterprise_balances a = t_enterprise_balances s \<and>
                t_enterprise_balances b = t_enterprise_balances s' \<and>
                move_prefund e (r_agent_id r) (r_pool_id r) 0 (- r_locked_micro r) (r_locked_micro r) None
                  (Some (r_locked_micro r)) ''kizuna_prefund_consume_failed'' a = Inr ((), b)
         else t_enterprise_balances s' = t_enterprise_balances s"
proof -
  from run nonneg(1) obtain s1 s2 mw s4 s5 where
    c: "confirm_settlement p s = Inr ((), s1)"
    and f: "settle_funds e p r d s1 = Inr (fr_debt res, s2)"
    and b: "insert_billable (billable_row e p r (fr_debt res) mw)
              (set_reservation (r_id r) (consume_row e p) s2) = Inr ((), s4)"
    and o: "queueFairscaleTrustEventOutbox e (env_uuid e 2) (settlement_key p r)
              (settlement_event e p r d (fr_debt res) mw) s4 = Inr ((), s5)"
    and u: "bumpKizunaPoolReserve e (r_pool_id r) (r_lane r) (- r_amount_micro r)
              (if isPrefundedEnterprise r then 0 else r_amount_micro r) 0 s5 = Inr ((), s')"
    by (rule finalize_live_stages)
  obtain S F where s1: "s1 = s\<lparr>t_settlements := S, t_fee_ledger := F\<rparr>"
    using confirm_settlement_success(1) [OF c] by blast
  obtain B where s4: "s4 = (set_reservation (r_id r) (consume_row e p) s2)\<lparr>t_billable_events := B\<rparr>"
    using insert_billable_success(1) [OF b] by blast
  obtain O' where s5: "s5 = s4\<lparr>t_outbox := O'\<rparr>"
    using queue_success [OF o] by blast
  note s' = bump_success [OF u]
  have funds: "if isPrefundedEnterprise r
     then fr_debt res = None \<and> (\<exists>E. s2 = s1\<lparr>t_enterprise_balances := E\<rparr>) \<and>
          move_prefund e (r_agent_id r) (r_pool_id r) 0 (- r_locked_micro r) (r_locked_micro r) None
            (Some (r_locked_micro r)) ''kizuna_prefund_consume_failed'' s1 = Inr ((), s2)
     else fr_debt res = Some (new_debt e p r d) \<and> s2 = s1\<lparr>t_debts := t_debts s1 @ [new_debt e p r d]\<rparr> \<and>
          env_uuid e 0 \<notin> d_id ` set (t_debts s)"
  proof (cases "isPrefundedEnterprise r")
    case True
    with f have cp: "consume_prefund e r s1 = Inr ((), s2)" "fr_debt res = None"
      by (auto simp: settle_funds_def thenT_success)
    with True consume_prefund_success [OF cp(1) nonneg(2)] show ?thesis
      by (auto dest: move_prefund_table)
  next
    case False
    with f obtain debt where ud: "upsert_debt e (new_debt e p r d) s1 = Inr (debt, s2)" "fr_debt res = Some debt"
      by (auto simp: settle_funds_def bindT_success)
    have "d_settlement_id (new_debt e p r d) \<notin> d_settlement_id ` set (t_debts s1)"
      using fresh by (simp add: s1 new_debt_def)
    note up = upsert_debt_fresh [OF ud(1) this]
    have "env_uuid e 0 \<notin> d_id ` set (t_debts s)"
      using up(3) by (simp add: s1 new_debt_def)
    with False up(1,2) ud(2) show ?thesis by simp
  qed
  show "t_reservations s' = update_where (\<lambda>x. r_id x = r_id r) (consume_row e p) (t_reservations s)"
    "t_debts s' = (if isPrefundedEnterprise r then t_debts s else t_debts s @ [new_debt e p r d])"
    "fr_debt res = (if isPrefundedEnterprise r then None else Some (new_debt e p r d))"
    "\<not> isPrefundedEnterprise r \<longrightarrow> env_uuid e 0 \<notin> d_id ` set (t_debts s)"
    "t_pool_reserves s' = bumped_table e (r_pool_id r) (r_lane r) (- r_amount_micro r)
           (if isPrefundedEnterprise r then 0 else r_amount_micro r) 0 (t_pool_reserves s)"
    "t_repayments s' = t_repayments s" "t_funding_events s' = t_funding_events s"
    "t_decisions s' = t_decisions s" "t_accounts s' = t_accounts s"
    using funds by (auto simp: s' s5 s4 s1 set_reservation_def split: if_splits)
  show "if isPrefundedEnterprise r
         then \<exists>a b. t_enterprise_balances a = t_enterprise_balances s \<and>
                t_enterprise_balances b = t_enterprise_balances s' \<and>
                move_prefund e (r_agent_id r) (r_pool_id r) 0 (- r_locked_micro r) (r_locked_micro r) None
                  (Some (r_locked_micro r)) ''kizuna_prefund_consume_failed'' a = Inr ((), b)
         else t_enterprise_balances s' = t_enterprise_balances s"
  proof (cases "isPrefundedEnterprise r")
    case True
    have "t_enterprise_balances s1 = t_enterprise_balances s"
      "t_enterprise_balances s2 = t_enterprise_balances s'"
      by (simp_all add: s1 s' s5 s4 set_reservation_def)
    with True funds show ?thesis by auto
  next
    case False
    with funds show ?thesis by (simp add: s' s5 s4 s1 set_reservation_def)
  qed
qed

section \<open>The ledger invariant across settlements\<close>

lemma keeps_terms_consume [simp]: "keeps_terms (consume_row e p)"
  by (simp add: keeps_terms_def consume_row_def)

lemma consume_row_status [simp]: "r_status (consume_row e p r) = Consumed"
  by (simp add: consume_row_def)

lemma load_reservation_Some:
  assumes "load_reservation rid s = Some (r, d)"
  shows "r \<in> set (t_reservations s)" "r_id r = rid" "d \<in> set (t_decisions s)"
  using assms by (auto simp: load_reservation_def split: option.splits dest: find_Some_mem)

lemma finalize_success:
  assumes "finalizeKizunaSettlement e p s = Inr (res, s')"
  obtains r d where "load_reservation (fz_reservationId p) s = Some (r, d)" "r_status r = Reserved"
    "env_date_now e < r_expires_at r" "fz_lane p \<in> {None, Some (r_lane r)}"
    "finalize_live e p r d s = Inr (res, s')"
proof -
  have "finalize_expired e r s \<noteq> Inr (res, s')" for r
    by (auto simp: finalize_expired_def thenT_success)
  with assms that show thesis
    by (auto simp: finalizeKizunaSettlement_def split: option.splits if_splits)
qed

lemma finalize_live_totals:
  assumes run: "finalize_live e p r d s = Inr (res, s')"
    and ok: "reservations_ok s" and r: "r \<in> set (t_reservations s)" "r_status r = Reserved"
    and fresh: "fz_settlementId p \<notin> d_settlement_id ` set (t_debts s)"
  shows "reserved_total s' q k = reserved_total s q k +
           (if q = r_pool_id r \<and> k = r_lane r then - r_amount_micro r else 0)"
    and "outstanding_total s' q k = outstanding_total s q k +
           (if q = r_pool_id r \<and> k = r_lane r
            then (if isPrefundedEnterprise r then 0 else r_amount_micro r) else 0)"
    and "locked_total s' m = locked_total s m +
           (if m = r_account r then (if isPrefundedEnterprise r then - r_locked_micro r else 0) else 0)"
    and "spent_total s' m = spent_total s m +
           (if m = r_account r then (if isPrefundedEnterprise r then r_locked_micro r else 0) else 0)"
    and "funded_total s' = funded_total s" and "repaid_total s' = repaid_total s"
    and "paid_down_total s' = paid_down_total s"
proof -
  note nonneg = reservations_okD [OF ok r(1)]
  note eff = finalize_live_effect [OF run _ _ fresh]
  have f: "r_status (consume_row e p r) \<noteq> Reserved" by simp
  show "reserved_total s' q k = reserved_total s q k +
           (if q = r_pool_id r \<and> k = r_lane r then - r_amount_micro r else 0)"
    using reserved_total_set [OF ok r(1) keeps_terms_consume r(2) f, of q k] nonneg
    by (simp add: reserved_total_def eff(1) set_reservation_def)
  show "outstanding_total s' q k = outstanding_total s q k +
           (if q = r_pool_id r \<and> k = r_lane r
            then (if isPrefundedEnterprise r then 0 else r_amount_micro r) else 0)"
    using nonneg by (auto simp: outstanding_total_def eff(2) new_debt_def)
  have pe: "isPrefundedEnterprise r \<longleftrightarrow> holds_lock r \<and> \<not> holds_lock (consume_row e p r)"
    "isPrefundedEnterprise r \<longleftrightarrow> spent_lock (consume_row e p r)" "\<not> spent_lock r"
    using r(2) by (auto simp: isPrefundedEnterprise_def holds_lock_def spent_lock_def consume_row_def)
  show "locked_total s' m = locked_total s m +
           (if m = r_account r then (if isPrefundedEnterprise r then - r_locked_micro r else 0) else 0)"
    using locked_total_set [OF ok r(1) keeps_terms_consume, of e p m] nonneg pe r(2)
    by (auto simp: locked_total_def eff(1) set_reservation_def holds_lock_def consume_row_def)
  show "spent_total s' m = spent_total s m +
           (if m = r_account r then (if isPrefundedEnterprise r then r_locked_micro r else 0) else 0)"
    using spent_total_set [OF ok r(1) keeps_terms_consume, of e p m] nonneg pe
    by (simp add: spent_total_def eff(1) set_reservation_def)
  show "funded_total s' = funded_total s" "repaid_total s' = repaid_total s"
    "paid_down_total s' = paid_down_total s"
    using nonneg by (auto simp: funded_total_def repaid_total_def paid_down_total_def eff(2,6,7)
        new_debt_def fun_eq_iff)
qed

lemma finalize_live_balances_ok:
  assumes run: "finalize_live e p r d s = Inr (res, s')"
    and ok: "reservations_ok s" "balances_ok s" and r: "r \<in> set (t_reservations s)" "r_status r = Reserved"
    and fresh: "fz_settlementId p \<notin> d_settlement_id ` set (t_debts s)"
  shows "balances_ok s'"
proof (cases "isPrefundedEnterprise r")
  case True
  with finalize_live_effect(10) [OF run _ _ fresh] reservations_okD [OF ok(1) r(1)] obtain a b where
    same: "t_enterprise_balances a = t_enterprise_balances s" "t_enterprise_balances b = t_enterprise_balances s'"
    and mv: "move_prefund e (r_agent_id r) (r_pool_id r) 0 (- r_locked_micro r) (r_locked_micro r) None
               (Some (r_locked_micro r)) ''kizuna_prefund_consume_failed'' a = Inr ((), b)"
    by auto
  have "balances_agree (t_enterprise_balances a) (funded_total s) (locked_total s) (spent_total s)"
    using ok by (simp add: same balances_ok_def)
  then have "balances_agree (t_enterprise_balances b) (funded_total s') (locked_total s') (spent_total s')"
    by (rule move_prefund_agree [OF mv])
      (use True in \<open>auto simp: finalize_live_totals [OF run ok(1) r fresh] r_account_def\<close>)
  then show ?thesis by (simp add: same balances_ok_def)
next
  case False
  have eqs: "locked_total s' = locked_total s" "spent_total s' = spent_total s"
    using False by (auto simp: finalize_live_totals [OF run ok(1) r fresh] fun_eq_iff)
  have "t_enterprise_balances s' = t_enterprise_balances s"
    using False finalize_live_effect(10) [OF run _ _ fresh] reservations_okD [OF ok(1) r(1)] by simp
  with ok show ?thesis
    by (simp only: balances_ok_def eqs finalize_live_totals(5) [OF run ok(1) r fresh])
qed

lemma finalize_live_debts_ok:
  assumes run: "finalize_live e p r d s = Inr (res, s')"
    and ok: "debts_ok s" and nonneg: "0 \<le> r_amount_micro r" "0 \<le> r_locked_micro r"
    and fresh: "fz_settlementId p \<notin> d_settlement_id ` set (t_debts s)"
  shows "debts_ok s'"
proof (cases "isPrefundedEnterprise r")
  case True
  with ok show ?thesis by (simp add: debts_ok_def finalize_live_effect(2) [OF run nonneg fresh])
next
  case False
  with ok fresh nonneg finalize_live_effect(4) [OF run nonneg fresh] show ?thesis
    by (simp add: debts_ok_def finalize_live_effect(2) [OF run nonneg fresh] new_debt_def)
qed

lemma finalize_ledger_ok:
  assumes ok: "ledger_ok s" and run: "finalizeKizunaSettlement e p s = Inr (res, s')"
    and fresh: "fz_settlementId p \<notin> d_settlement_id ` set (t_debts s)"
  shows "ledger_ok s'"
proof -
  note rok = ledger_okD(1) [OF ok]
  from run obtain r d where ld: "load_reservation (fz_reservationId p) s = Some (r, d)"
    and st: "r_status r = Reserved" and live: "finalize_live e p r d s = Inr (res, s')"
    by (rule finalize_success)
  note r = load_reservation_Some(1) [OF ld]
  note nonneg = reservations_okD [OF rok r, THEN conjunct1] reservations_okD [OF rok r, THEN conjunct2, THEN conjunct1]
  note eff = finalize_live_effect [OF live nonneg fresh]
  note tot = finalize_live_totals [OF live rok r st fresh]
  have res: "reservations_ok s'"
    using reservations_ok_set [OF rok keeps_terms_consume, of "r_id r" e p]
    by (simp add: reservations_ok_def set_reservation_def eff(1))
  have debts: "debts_ok s'"
    by (rule finalize_live_debts_ok [OF live ledger_okD(2) [OF ok] nonneg fresh])
  have nn: "0 \<le> reserved_total s' (r_pool_id r) (r_lane r)" "0 \<le> outstanding_total s' (r_pool_id r) (r_lane r)"
    using reserved_total_nonneg [OF res] outstanding_total_nonneg [OF debts] .
  have "pools_ok s'"
    unfolding pools_ok_def eff(5)
    by (rule bump_agree [OF ledger_okD(3) [OF ok, unfolded pools_ok_def]])
      (rule nn | simp add: tot)+
  moreover have "repayments_ok s'"
    using ledger_okD(5) [OF ok] by (simp add: repayments_ok_def tot(6,7))
  ultimately show ?thesis
    using res debts finalize_live_balances_ok [OF live rok ledger_okD(4) [OF ok] r st fresh]
    by (simp add: ledger_ok_def)
qed

section \<open>Properties\<close>

text \<open>
  A reservation is settled at most once: after a successful settlement every further settlement
  attempt for the same reservation throws \<open>kizuna_reservation_consumed\<close> and changes nothing, and releasing
  it changes nothing either.
\<close>

theorem settled_once:
  assumes ok: "reservations_ok s" and run: "finalizeKizunaSettlement e p s = Inr (res, s')"
    and fresh: "fz_settlementId p \<notin> d_settlement_id ` set (t_debts s)"
    and again: "fz_reservationId p' = fz_reservationId p"
  shows "withTransaction (finalizeKizunaSettlement e' p') s' =
           (Inl (Thrown ''kizuna_reservation_consumed''), s') \<and>
         withTransaction (releaseKizunaReservation e' (fz_reservationId p) st) s' = (Inr (), s')"
proof -
  from run obtain r d where ld: "load_reservation (fz_reservationId p) s = Some (r, d)"
    and live: "finalize_live e p r d s = Inr (res, s')"
    by (rule finalize_success)
  note r = load_reservation_Some(1,2) [OF ld]
  have nonneg: "0 \<le> r_amount_micro r" "0 \<le> r_locked_micro r"
    using reservations_okD [OF ok r(1)] by simp_all
  note eff = finalize_live_effect [OF live nonneg fresh]
  have dist: "distinct (map r_id (t_reservations s))" using ok by (simp add: reservations_ok_def)
  have fd: "find (\<lambda>x. r_id x = fz_reservationId p) (t_reservations s) = Some r"
    using find_unique [OF dist r(1)] r(2) by simp
  have fd': "find (\<lambda>x. r_id x = fz_reservationId p) (t_reservations s') = Some (consume_row e p r)"
    unfolding eff(1) using r(2) fd
    by (subst find_update_where_key) (simp_all add: consume_row_def)
  have "load_reservation (fz_reservationId p) s' = Some (consume_row e p r, d)"
    using ld fd by (auto simp: load_reservation_def fd' eff(8) consume_row_def)
  then have "finalizeKizunaSettlement e' p' s' = Inl (Thrown ''kizuna_reservation_consumed'')"
    by (simp add: finalizeKizunaSettlement_def again)
  moreover have "releaseKizunaReservation e' (fz_reservationId p) st s' = Inr ((), s')"
    by (rule release_no_effect)
      (use dist r in \<open>auto simp: eff(1) set_update_where consume_row_def\<close>)
  ultimately show ?thesis by simp
qed

text \<open>
  Claim C4.  What a settlement does with the money.  A prefunded enterprise reservation turns its lock into
  spent money and creates no debt; every other reservation creates one open debt of exactly the reserved
  amount, with that reservation and settlement on it.  The reserved total drops by the amount, the
  available prefund does not change, and the ledger stays consistent.
\<close>

theorem settlement_moves_reserved_amount:
  assumes ok: "ledger_ok s" and run: "finalizeKizunaSettlement e p s = Inr (res, s')"
    and fresh: "fz_settlementId p \<notin> d_settlement_id ` set (t_debts s)"
  shows "\<exists>r \<in> set (t_reservations s). r_id r = fz_reservationId p \<and> r_status r = Reserved \<and>
           reserved_total s' (r_pool_id r) (r_lane r) = reserved_total s (r_pool_id r) (r_lane r) - r_amount_micro r \<and>
           prefund_available s' (r_account r) = prefund_available s (r_account r) \<and> ledger_ok s' \<and>
           (if r_lane r = Enterprise \<and> r_funding_mode r = Prefunded
            then fr_debt res = None \<and> t_debts s' = t_debts s \<and>
                 spent_total s' (r_account r) = spent_total s (r_account r) + r_locked_micro r
            else (\<exists>debt. fr_debt res = Some debt \<and> t_debts s' = t_debts s @ [debt] \<and>
                    d_status debt = Open \<and> d_principal_micro debt = r_amount_micro r \<and>
                    d_outstanding_micro debt = r_amount_micro r \<and>
                    d_reservation_id debt = Some (r_id r) \<and> d_settlement_id debt = fz_settlementId p) \<and>
                 spent_total s' (r_account r) = spent_total s (r_account r))"
proof -
  note rok = ledger_okD(1) [OF ok]
  from run obtain r d where ld: "load_reservation (fz_reservationId p) s = Some (r, d)"
    and st: "r_status r = Reserved" and live: "finalize_live e p r d s = Inr (res, s')"
    by (rule finalize_success)
  note r = load_reservation_Some(1,2) [OF ld]
  have nonneg: "0 \<le> r_amount_micro r" "0 \<le> r_locked_micro r"
    using reservations_okD [OF rok r(1)] by simp_all
  note eff = finalize_live_effect [OF live nonneg fresh]
  note tot = finalize_live_totals [OF live rok r(1) st fresh]
  have ok': "ledger_ok s'" by (rule finalize_ledger_ok [OF ok run fresh])
  have avail: "prefund_available s' (r_account r) = prefund_available s (r_account r)"
    by (simp add: prefund_available_eq [OF ledger_okD(4) [OF ok]] prefund_available_eq [OF ledger_okD(4) [OF ok']] tot)
  show ?thesis
    by (rule bexI [OF _ r(1)])
      (use r(2) st ok' avail in \<open>auto simp: tot eff(2,3) isPrefundedEnterprise_def new_debt_def\<close>)
qed

text \<open>
  Settling too late has no effect on the ledger at all: the branch that marks an expired
  reservation and gives its credit back always ends in a throw, so the transaction is rolled back and the
  reservation is still \<open>reserved\<close>.
\<close>

theorem expired_settlement_rolls_back:
  assumes "load_reservation (fz_reservationId p) s = Some (r, d)" and "r_expires_at r \<le> env_date_now e"
  shows "\<exists>err. withTransaction (finalizeKizunaSettlement e p) s = (Inl err, s)"
proof (cases "finalizeKizunaSettlement e p s")
  case (Inl err)
  then show ?thesis by simp
next
  case (Inr x)
  then show ?thesis
    using assms by (cases x) (auto elim!: finalize_success)
qed

text \<open>
   Every confirmed settlement is billed and published: a successful settlement leaves its settlement
  row confirmed with the transaction hash, a billing event for the reservation and settlement, and a trust
  event with the settlement's key in the outbox.
\<close>

theorem settlement_recorded:
  assumes run: "finalizeKizunaSettlement e p s = Inr (res, s')" and ok: "reservations_ok s"
  shows "(\<exists>row \<in> set (t_settlements s'). st_id row = fz_settlementId p \<and>
            st_status row = SettlementConfirmedS \<and> st_tx_hash row = fz_txHash p) \<and>
         (\<exists>b \<in> set (t_billable_events s'). be_reservation_id b = fz_reservationId p \<and>
            be_settlement_id b = fz_settlementId p) \<and>
         ''settlement:'' @ fz_reservationId p @ '':'' @ fz_settlementId p
            \<in> ob_idempotency_key ` set (t_outbox s')"
proof -
  from run obtain r d where ld: "load_reservation (fz_reservationId p) s = Some (r, d)"
    and live: "finalize_live e p r d s = Inr (res, s')"
    by (rule finalize_success)
  note r = load_reservation_Some(1,2) [OF ld]
  have "0 \<le> r_amount_micro r" using reservations_okD [OF ok r(1)] by simp
  with live obtain s1 s2 mw s4 s5 where
    c: "confirm_settlement p s = Inr ((), s1)" and f: "settle_funds e p r d s1 = Inr (fr_debt res, s2)"
    and b: "insert_billable (billable_row e p r (fr_debt res) mw)
              (set_reservation (r_id r) (consume_row e p) s2) = Inr ((), s4)"
    and q: "queueFairscaleTrustEventOutbox e (env_uuid e 2) (settlement_key p r)
              (settlement_event e p r d (fr_debt res) mw) s4 = Inr ((), s5)"
    and u: "bumpKizunaPoolReserve e (r_pool_id r) (r_lane r) (- r_amount_micro r)
              (if isPrefundedEnterprise r then 0 else r_amount_micro r) 0 s5 = Inr ((), s')"
    by (rule finalize_live_stages)
  have same2: "t_settlements s2 = t_settlements s1"
    using f by (auto simp: settle_funds_def thenT_success bindT_success consume_prefund_def Let_def
        upsert_debt_def dest!: move_prefund_table split: if_splits option.splits)
  obtain B where s4: "s4 = (set_reservation (r_id r) (consume_row e p) s2)\<lparr>t_billable_events := B\<rparr>"
    using insert_billable_success(1) [OF b] by blast
  obtain O' where s5: "s5 = s4\<lparr>t_outbox := O'\<rparr>" using queue_success [OF q] by blast
  have tabs: "t_settlements s' = t_settlements s1" "t_billable_events s' = t_billable_events s4"
    "t_outbox s' = t_outbox s5"
    by (simp_all add: bump_success [OF u] s5 s4 set_reservation_def same2)
  obtain x where "x \<in> set (t_settlements s)" "st_id x = fz_settlementId p"
    using confirm_settlement_success(3) [OF c] by auto
  then have "\<exists>row \<in> set (t_settlements s'). st_id row = fz_settlementId p \<and>
            st_status row = SettlementConfirmedS \<and> st_tx_hash row = fz_txHash p"
    unfolding tabs confirm_settlement_success(2) [OF c] set_update_where
    by (intro bexI [of _ "confirm_row (fz_txHash p) (fz_feeAmount p) x"]) (auto simp: confirm_row_def image_iff)
  moreover have "\<exists>b \<in> set (t_billable_events s'). be_reservation_id b = fz_reservationId p \<and>
            be_settlement_id b = fz_settlementId p"
    using insert_billable_success(2) [OF b] r(2) by (auto simp: tabs billable_row_def)
  moreover have "''settlement:'' @ fz_reservationId p @ '':'' @ fz_settlementId p
            \<in> ob_idempotency_key ` set (t_outbox s')"
    using queue_records_key [OF q] r(2) by (simp add: tabs settlement_key_def)
  ultimately show ?thesis by blast
qed

text \<open>
   The funding mode alone does not decide how a settlement is funded: when a reservation that
  locked prefunded money is recorded in the crypto-fast lane, settling it creates a debt for the full
  amount while the lock stays locked, and no release can free it any more.
\<close>

theorem fast_lane_prefund_stays_locked:
  assumes ok: "ledger_ok s" and run: "finalizeKizunaSettlement e p s = Inr (res, s')"
    and fresh: "fz_settlementId p \<notin> d_settlement_id ` set (t_debts s)"
    and r: "r \<in> set (t_reservations s)" "r_id r = fz_reservationId p"
    and mode: "r_funding_mode r = Prefunded" "r_lane r = CryptoFast"
  shows "locked_total s' (r_account r) = locked_total s (r_account r) \<and>
         r_locked_micro r \<le> locked_total s' (r_account r) \<and>
         outstanding_total s' (r_pool_id r) CryptoFast =
           outstanding_total s (r_pool_id r) CryptoFast + r_amount_micro r \<and>
         releaseKizunaReservation e' (r_id r) st s' = Inr ((), s')"
proof -
  note rok = ledger_okD(1) [OF ok]
  from run obtain r' d where ld: "load_reservation (fz_reservationId p) s = Some (r', d)"
    and st': "r_status r' = Reserved" and live': "finalize_live e p r' d s = Inr (res, s')"
    by (rule finalize_success)
  have same: "r' = r"
    using load_reservation_Some(1,2) [OF ld] r rok by (auto simp: reservations_ok_def distinct_map inj_on_def)
  note live_st = st' [unfolded same] and live = live' [unfolded same]
  have nonneg: "0 \<le> r_amount_micro r" "0 \<le> r_locked_micro r"
    using reservations_okD [OF rok r(1)] by simp_all
  note eff = finalize_live_effect [OF live nonneg fresh]
  note tot = finalize_live_totals [OF live rok r(1) live_st fresh]
  have npe: "\<not> isPrefundedEnterprise r" and lk: "holds_lock r"
    using mode live_st by (simp_all add: isPrefundedEnterprise_def holds_lock_def)
  have "releaseKizunaReservation e' (r_id r) st s' = Inr ((), s')"
    by (rule release_no_effect)
      (use rok r in \<open>auto simp: eff(1) set_update_where consume_row_def reservations_ok_def\<close>)
  with locked_total_ge [OF rok r(1) lk] npe show ?thesis by (simp add: tot mode)
qed

section \<open>Witnesses\<close>

definition sample_settlement :: settlement_row where
  "sample_settlement =
     \<lparr>st_id = ''set-1'', st_merchant_wallet = ''merchant'', st_payer_wallet = ''payer'', st_amount = 0,
      st_fee_amount = 0, st_asset = ''USDC'', st_tx_hash = [], st_status = SettlementPending,
      st_network = ''eip155:8453'', st_created_at = 0\<rparr>"

definition sample_finalize :: finalize_params where
  "sample_finalize =
     \<lparr>fz_reservationId = ''res-1'', fz_settlementId = ''set-1'', fz_txHash = ''0xabc'', fz_feeAmount = 0,
      fz_feeTxHash = None, fz_lane = None, fz_poolId = None, fz_decisionEnvelopeHash = None\<rparr>"

definition sample_settling :: "kizuna_reservation \<Rightarrow> db" where
  "sample_settling r = sample_reserved\<lparr>t_reservations := [r], t_settlements := [sample_settlement]\<rparr>"

definition sample_settled :: "kizuna_reservation \<Rightarrow> db" where
  "sample_settled r =
     run_state (finalizeKizunaSettlement (sample_env 20) sample_finalize) (sample_settling r)"

lemma sample_settle:
  "\<exists>res. finalizeKizunaSettlement (sample_env 20) sample_finalize (sample_settling sample_row) =
     Inr (res, sample_settled sample_row)"
  unfolding sample_settled_def by (rule run_state_success) code_simp

lemma ledger_ok_sample_settling: "ledger_ok (sample_settling sample_row)"
  by (rule ledger_ok_frame [OF ledger_ok_sample_reserved])
    (simp_all add: sample_settling_def sample_reserved_def)

lemma sample_settlement_fresh:
  "fz_settlementId sample_finalize \<notin> d_settlement_id ` set (t_debts (sample_settling r))"
  by (simp add: sample_settling_def sample_reserved_def sample_ledger_def seed_db_def)

theorem settled_once_witness:
  "withTransaction (finalizeKizunaSettlement (sample_env 30) sample_finalize) (sample_settled sample_row) =
     (Inl (Thrown ''kizuna_reservation_consumed''), sample_settled sample_row) \<and>
   withTransaction (releaseKizunaReservation (sample_env 30) ''res-1'' Expired) (sample_settled sample_row) =
     (Inr (), sample_settled sample_row)"
proof -
  obtain res where run: "finalizeKizunaSettlement (sample_env 20) sample_finalize (sample_settling sample_row) =
      Inr (res, sample_settled sample_row)"
    using sample_settle by blast
  have "fz_reservationId sample_finalize = ''res-1''" by (simp add: sample_finalize_def)
  then show ?thesis
    using settled_once [OF ledger_okD(1) [OF ledger_ok_sample_settling] run sample_settlement_fresh refl,
        of "sample_env 30" Expired] by simp
qed

theorem settlement_moves_reserved_amount_witness:
  "\<exists>r \<in> set (t_reservations (sample_settling sample_row)). r_status r = Reserved \<and>
     prefund_available (sample_settled sample_row) (r_account r) =
       prefund_available (sample_settling sample_row) (r_account r) \<and>
     ledger_ok (sample_settled sample_row)"
proof -
  obtain res where run: "finalizeKizunaSettlement (sample_env 20) sample_finalize (sample_settling sample_row) =
      Inr (res, sample_settled sample_row)"
    using sample_settle by blast
  show ?thesis
    using settlement_moves_reserved_amount [OF ledger_ok_sample_settling run sample_settlement_fresh]
    by blast
qed

theorem expired_settlement_rolls_back_witness:
  "\<exists>err. withTransaction (finalizeKizunaSettlement (sample_env 5000) sample_finalize) (sample_settling sample_row)
     = (Inl err, sample_settling sample_row)"
  by (rule expired_settlement_rolls_back [of _ _ sample_row sample_decision])
    (simp_all add: load_reservation_def sample_settling_def sample_reserved_def sample_row_def
       sample_finalize_def reservation_row_def sample_params_def sample_ledger_def sample_decision_def)

theorem settlement_recorded_witness:
  "''settlement:res-1:set-1'' \<in> ob_idempotency_key ` set (t_outbox (sample_settled sample_row))"
proof -
  obtain res where run: "finalizeKizunaSettlement (sample_env 20) sample_finalize (sample_settling sample_row) =
      Inr (res, sample_settled sample_row)"
    using sample_settle by blast
  show ?thesis
    using settlement_recorded [OF run ledger_okD(1) [OF ledger_ok_sample_settling]]
    by (simp add: sample_finalize_def)
qed

text \<open>A prefunded reservation recorded in the crypto-fast lane.\<close>

definition sample_fast_params :: reservation_params where
  "sample_fast_params = sample_params\<lparr>rv_lane := CryptoFast\<rparr>"

definition sample_fast_row :: kizuna_reservation where
  "sample_fast_row = reservation_row (sample_env 10) ''res-1'' sample_fast_params Prefunded 50"

definition sample_fast :: db where
  "sample_fast =
     (run_state (createKizunaReservation (sample_env 10) ''res-1'' sample_fast_params) sample_ledger)
       \<lparr>t_settlements := [sample_settlement]\<rparr>"

lemma ledger_ok_sample_fast: "ledger_ok sample_fast"
proof -
  have "\<exists>a. createKizunaReservation (sample_env 10) ''res-1'' sample_fast_params sample_ledger =
      Inr (a, run_state (createKizunaReservation (sample_env 10) ''res-1'' sample_fast_params) sample_ledger)"
    by (rule run_state_success) code_simp
  then obtain a where "createKizunaReservation (sample_env 10) ''res-1'' sample_fast_params sample_ledger =
      Inr (a, run_state (createKizunaReservation (sample_env 10) ''res-1'' sample_fast_params) sample_ledger)"
    by blast
  note ok = create_ledger_ok [OF ledger_ok_sample this]
  show ?thesis by (rule ledger_ok_frame [OF ok]) (simp_all add: sample_fast_def)
qed

theorem fast_lane_prefund_stays_locked_witness:
  "50 \<le> locked_total
          (run_state (finalizeKizunaSettlement (sample_env 20) sample_finalize) sample_fast)
          (''agent-1'', ''enterprise-main'')"
proof -
  have "\<exists>a. finalizeKizunaSettlement (sample_env 20) sample_finalize sample_fast =
      Inr (a, run_state (finalizeKizunaSettlement (sample_env 20) sample_finalize) sample_fast)"
    by (rule run_state_success) code_simp
  then obtain a where run: "finalizeKizunaSettlement (sample_env 20) sample_finalize sample_fast =
      Inr (a, run_state (finalizeKizunaSettlement (sample_env 20) sample_finalize) sample_fast)"
    by blast
  have fresh: "fz_settlementId sample_finalize \<notin> d_settlement_id ` set (t_debts sample_fast)"
    by code_simp
  have row: "t_reservations sample_fast = [sample_fast_row]" by code_simp
  have sel: "r_id sample_fast_row = fz_reservationId sample_finalize" "r_funding_mode sample_fast_row = Prefunded"
    "r_lane sample_fast_row = CryptoFast" "r_locked_micro sample_fast_row = 50"
    "r_account sample_fast_row = (''agent-1'', ''enterprise-main'')"
    by code_simp+
  have mem: "sample_fast_row \<in> set (t_reservations sample_fast)" by (simp add: row)
  show ?thesis
    using fast_lane_prefund_stays_locked [OF ledger_ok_sample_fast run fresh mem sel(1-3)]
    unfolding sel by blast
qed

end
