(* ===== verification/Repayment.thy ===== *)
theory Repayment
  imports Settlement "HOL-Library.Multiset"
begin

text \<open>
  Repayment of credit: \<open>applyKizunaRepayment\<close> of \<open>db/queries.ts\<close>.  The loop over the open debts is the
  recursion \<open>repay_loop\<close>; its three mutable variables and the map of pool deltas are its accumulator.
\<close>

section \<open>The transaction\<close>

record repay_params =
  rq_agentId :: string
  rq_amountMicro :: int
  rq_referenceId :: string
  rq_lane :: "lane option"
  rq_poolId :: "string option"

record repay_result =
  rr_repayment :: kizuna_repayment
  rr_idempotent :: bool
  rr_outstandingMicro :: string

text \<open>
  The key of a delta is the text \<open>lane:pool\<close>; a lane text has no colon, so the pair is the same key.
  The list keeps the insertion order of the JavaScript \<open>Map\<close>.
\<close>

type_synonym deltas = "((lane \<times> string) \<times> int) list"

fun add_delta :: "(lane \<times> string) \<Rightarrow> int \<Rightarrow> deltas \<Rightarrow> deltas" where
  "add_delta k a [] = [(k, a)]"
| "add_delta k a ((k', b) # ds) = (if k' = k then (k', b + a) # ds else (k', b) # add_delta k a ds)"

record repay_acc =
  ra_remaining :: int
  ra_applied :: int
  ra_primary :: "kizuna_debt option"
  ra_deltas :: deltas

definition pay_row :: "env \<Rightarrow> int \<Rightarrow> kizuna_debt \<Rightarrow> kizuna_debt" where
  "pay_row e nextOutstanding d =
     d\<lparr>d_outstanding_micro := nextOutstanding,
       d_status := (if nextOutstanding = 0 then Closed else Open),
       d_updated_at := env_now e,
       d_closed_at := (if nextOutstanding = 0 then Some (env_now e) else None)\<rparr>"

definition set_debt :: "string \<Rightarrow> (kizuna_debt \<Rightarrow> kizuna_debt) \<Rightarrow> db \<Rightarrow> db" where
  "set_debt did f s = s\<lparr>t_debts := update_where (\<lambda>d. d_id d = did) f (t_debts s)\<rparr>"

definition pay_acc :: "kizuna_debt \<Rightarrow> int \<Rightarrow> repay_acc \<Rightarrow> repay_acc" where
  "pay_acc debt payment acc =
     \<lparr>ra_remaining = ra_remaining acc - payment, ra_applied = ra_applied acc + payment,
      ra_primary = (case ra_primary acc of None \<Rightarrow> Some debt | Some d \<Rightarrow> Some d),
      ra_deltas = add_delta (d_lane debt, d_pool_id debt) payment (ra_deltas acc)\<rparr>"

fun repay_loop :: "env \<Rightarrow> kizuna_debt list \<Rightarrow> repay_acc \<Rightarrow> (db, repay_acc) tx" where
  "repay_loop e [] acc = returnT acc"
| "repay_loop e (debt # rest) acc =
     (if ra_remaining acc \<le> 0 then returnT acc
      else (let debtOutstanding = parseMicro (Some (numeric_text (d_outstanding_micro debt))) in
            if debtOutstanding \<le> 0 then repay_loop e rest acc
            else (let payment = (if debtOutstanding < ra_remaining acc then debtOutstanding
                                 else ra_remaining acc);
                      nextOutstanding = debtOutstanding - payment in
                  thenT (modifyT (set_debt (d_id debt) (pay_row e nextOutstanding)))
                        (repay_loop e rest (pay_acc debt payment acc)))))"

fun bump_outstanding :: "env \<Rightarrow> deltas \<Rightarrow> (db, unit) tx" where
  "bump_outstanding e [] = returnT ()"
| "bump_outstanding e (((l, pool), amount) # ds) =
     thenT (bumpKizunaPoolReserve e pool l 0 (- amount) 0) (bump_outstanding e ds)"

definition insert_repayment :: "kizuna_repayment \<Rightarrow> (db, unit) tx" where
  "insert_repayment row =
     thenT (check_numeric30 ''amount_micro'' (rp_amount_micro row))
    (thenT (check_numeric30 ''applied_micro'' (rp_applied_micro row))
    (thenT (ensureT (\<lambda>s. rp_id row \<notin> rp_id ` set (t_repayments s)) (Pg (UniqueViolation ''repayments_pkey'')))
    (thenT (ensureT (\<lambda>s. (rp_agent_id row, rp_reference_id row) \<notin>
                          (\<lambda>p. (rp_agent_id p, rp_reference_id p)) ` set (t_repayments s))
              (Pg (UniqueViolation ''uq_kizuna_repayment_reference'')))
    (thenT (fk_account (rp_agent_id row))
    (modifyT (\<lambda>s. s\<lparr>t_repayments := t_repayments s @ [row]\<rparr>))))))"

definition scope_outstanding :: "repay_params \<Rightarrow> db \<Rightarrow> int" where
  "scope_outstanding p s =
     sum_where (open_in_scope (rq_agentId p) (rq_lane p) (rq_poolId p)) d_outstanding_micro (t_debts s)"

definition opt_lane :: "lane option \<Rightarrow> json" where
  "opt_lane v = (case v of None \<Rightarrow> JNull | Some l \<Rightarrow> JStr (lane_text l))"

definition repayment_event :: "repay_params \<Rightarrow> kizuna_repayment \<Rightarrow> kizuna_debt \<Rightarrow> trust_payload" where
  "repayment_event p row primary =
     \<lparr>tp_event_id = [], tp_entity_id = rq_agentId p, tp_event_type = RepaymentReceived,
      tp_occurred_at = rp_created_at row, tp_lane = d_lane primary, tp_pool_id = d_pool_id primary,
      tp_network = Some (d_network primary), tp_amount_micro = Some (numeric_text (rp_applied_micro row)),
      tp_currency = Some ''USDC'', tp_tx_hash = None, tp_reference_id = Some (rq_referenceId p),
      tp_settlement_id = None, tp_reservation_id = None, tp_debt_id = Some (d_id primary),
      tp_payer_wallet = Some (d_payer_wallet primary), tp_repay_wallet = Some (d_repay_wallet primary),
      tp_merchant_wallet = None, tp_collateral_account = None, tp_asset_id = None,
      tp_metadata =
        [(''source'', JStr ''credits''),
         (''requestedAmountMicro'', JStr (numeric_text (rq_amountMicro p))),
         (''scopedLane'', opt_lane (rq_lane p)),
         (''scopedPoolId'', opt_text (rq_poolId p))]\<rparr>"

definition repayment_key :: "string \<Rightarrow> string \<Rightarrow> string" where
  "repayment_key agentId referenceId = ''repayment:'' @ agentId @ '':'' @ referenceId"

text \<open>\<open>if (applied > 0n && primaryDebt)\<close> queue the trust event.\<close>

definition queue_repayment_event ::
  "env \<Rightarrow> repay_params \<Rightarrow> kizuna_repayment \<Rightarrow> repay_acc \<Rightarrow> (db, unit) tx" where
  "queue_repayment_event e p row acc =
     (case ra_primary acc of
        Some primary \<Rightarrow>
          if 0 < ra_applied acc
          then queueFairscaleTrustEventOutbox e (env_uuid e 1)
                 (repayment_key (rq_agentId p) (rq_referenceId p)) (repayment_event p row primary)
          else returnT ()
      | None \<Rightarrow> returnT ())"

definition open_debts :: "repay_params \<Rightarrow> db \<Rightarrow> kizuna_debt list" where
  "open_debts p s =
     sort_key d_created_at (filter (open_in_scope (rq_agentId p) (rq_lane p) (rq_poolId p)) (t_debts s))"

definition repay_start :: "repay_params \<Rightarrow> repay_acc" where
  "repay_start p =
     \<lparr>ra_remaining = parseMicro (Some (numeric_text (rq_amountMicro p))), ra_applied = 0,
      ra_primary = None, ra_deltas = []\<rparr>"

definition repayment_row :: "env \<Rightarrow> repay_params \<Rightarrow> repay_acc \<Rightarrow> kizuna_repayment" where
  "repayment_row e p acc =
     \<lparr>rp_id = env_uuid e 0, rp_agent_id = rq_agentId p, rp_debt_id = map_option d_id (ra_primary acc),
      rp_reference_id = rq_referenceId p, rp_amount_micro = rq_amountMicro p,
      rp_applied_micro = ra_applied acc, rp_created_at = env_now e\<rparr>"

definition same_reference :: "string \<Rightarrow> string \<Rightarrow> kizuna_repayment \<Rightarrow> bool" where
  "same_reference agentId referenceId r = (rp_agent_id r = agentId \<and> rp_reference_id r = referenceId)"

definition getKizunaRepaymentByReference :: "string \<Rightarrow> string \<Rightarrow> db \<Rightarrow> kizuna_repayment option" where
  "getKizunaRepaymentByReference agentId referenceId s =
     find (same_reference agentId referenceId) (t_repayments s)"

definition repay_new :: "env \<Rightarrow> repay_params \<Rightarrow> (db, repay_result) tx" where
  "repay_new e p = (\<lambda>s.
     bindT (repay_loop e (open_debts p s) (repay_start p)) (\<lambda>acc.
     let row = repayment_row e p acc in
     thenT (bump_outstanding e (ra_deltas acc))
    (thenT (insert_repayment row)
    (thenT (queue_repayment_event e p row acc)
    (bindT (getT (scope_outstanding p)) (\<lambda>out.
     returnT \<lparr>rr_repayment = row, rr_idempotent = False, rr_outstandingMicro = numeric_text out\<rparr>))))) s)"

text \<open>
  The amount parameter is the decimal text of an integer in the code (\<open>toString(10)\<close> of a bigint at
  every call); it is that integer here.
\<close>

definition applyKizunaRepayment :: "env \<Rightarrow> repay_params \<Rightarrow> (db, repay_result) tx" where
  "applyKizunaRepayment e p = (\<lambda>s.
     case getKizunaRepaymentByReference (rq_agentId p) (rq_referenceId p) s of
       Some row \<Rightarrow> Inr (\<lparr>rr_repayment = row, rr_idempotent = True,
                         rr_outstandingMicro = numeric_text (scope_outstanding p s)\<rparr>, s)
     | None \<Rightarrow> repay_new e p s)"

section \<open>Deltas\<close>

definition delta_of :: "deltas \<Rightarrow> string \<Rightarrow> lane \<Rightarrow> int" where
  "delta_of ds p l = sum_where (\<lambda>x. fst x = (l, p)) snd ds"

lemma delta_of_Nil [simp]: "delta_of [] p l = 0"
  by (simp add: delta_of_def)

lemma delta_of_add [simp]:
  "delta_of (add_delta k a ds) p l = delta_of ds p l + (if k = (l, p) then a else 0)"
  by (induction k a ds rule: add_delta.induct) (auto simp: delta_of_def)

lemma bump_outstanding_agree:
  assumes "bump_outstanding e ds s = Inr (u, s')"
    and "reserves_agree (t_pool_reserves s) f g"
    and "\<forall>x \<in> set ds. 0 \<le> snd x" and "\<And>p l. 0 \<le> f p l"
    and "\<And>p l. delta_of ds p l \<le> g p l"
  shows "(\<exists>R. s' = s\<lparr>t_pool_reserves := R\<rparr>) \<and>
         reserves_agree (t_pool_reserves s') f (\<lambda>p l. g p l - delta_of ds p l)"
  using assms
proof (induction e ds arbitrary: s g rule: bump_outstanding.induct)
  case (1 e)
  then show ?case by (auto intro: exI [of _ "t_pool_reserves s'"])
next
  case (2 e l0 pool amount ds)
  from 2(2) obtain s1 where b: "bumpKizunaPoolReserve e pool l0 0 (- amount) 0 s = Inr ((), s1)"
    and rest: "bump_outstanding e ds s1 = Inr (u, s')"
    by (auto simp: thenT_success)
  let ?g1 = "\<lambda>p l. g p l - (if (l0, pool) = (l, p) then amount else 0)"
  have dl: "delta_of (((l0, pool), amount) # ds) p l =
      (if (l0, pool) = (l, p) then amount else 0) + delta_of ds p l" for p l
    by (simp add: delta_of_def)
  have nn: "0 \<le> delta_of ds p l" for p l
    using 2(4) by (auto simp: delta_of_def intro!: sum_where_nonneg)
  have g1: "0 \<le> ?g1 pool l0" using 2(6) [of pool l0] nn [of pool l0] by (simp add: dl)
  have "reserves_agree (t_pool_reserves s1) f ?g1"
    unfolding bump_success [OF b]
    using bump_agree [OF 2(3), of f pool l0 0 ?g1 "- amount" e 0] g1 2(5) by auto
  from 2(1) [OF rest this] 2(4-6) dl nn
  have IH: "(\<exists>R. s' = s1\<lparr>t_pool_reserves := R\<rparr>) \<and>
      reserves_agree (t_pool_reserves s') f (\<lambda>p l. ?g1 p l - delta_of ds p l)"
    by (metis (no_types, lifting) add.commute le_diff_eq list.set_intros(2))
  moreover have "(\<lambda>p l. ?g1 p l - delta_of ds p l) =
      (\<lambda>p l. g p l - delta_of (((l0, pool), amount) # ds) p l)"
    by (intro ext) (simp add: dl)
  ultimately show ?case using bump_success [OF b] by auto
qed

section \<open>One payment\<close>

lemma debts_ok_mem:
  "debts_ok s \<Longrightarrow> d \<in> set (t_debts s) \<Longrightarrow>
   distinct (map d_id (t_debts s)) \<and> 0 \<le> d_outstanding_micro d \<and> d_outstanding_micro d \<le> d_principal_micro d"
  by (auto simp: debts_ok_def list_all_iff)

lemma pay_row_keys [simp]:
  "d_id (pay_row e n d) = d_id d" "d_agent_id (pay_row e n d) = d_agent_id d"
  "d_lane (pay_row e n d) = d_lane d" "d_pool_id (pay_row e n d) = d_pool_id d"
  "d_settlement_id (pay_row e n d) = d_settlement_id d"
  "d_principal_micro (pay_row e n d) = d_principal_micro d"
  "d_outstanding_micro (pay_row e n d) = n"
  by (simp_all add: pay_row_def)

lemma open_sum_pay:
  assumes "debts_ok s" and "d \<in> set (t_debts s)" and "d_status d = Open"
    and "\<And>n. Q (pay_row e n d) = Q d"
  shows "sum_where (\<lambda>x. d_status x = Open \<and> Q x) d_outstanding_micro (t_debts (set_debt (d_id d) (pay_row e n) s)) =
         sum_where (\<lambda>x. d_status x = Open \<and> Q x) d_outstanding_micro (t_debts s)
         - (if Q d then d_outstanding_micro d - n else 0)"
proof -
  have dist: "distinct (map d_id (t_debts s))" using debts_ok_mem [OF assms(1,2)] by simp
  have st: "d_status (pay_row e n d) = (if n = 0 then Closed else Open)" by (simp add: pay_row_def)
  show ?thesis
    using assms(3,4) by (simp add: set_debt_def sum_where_update_key [OF dist assms(2)] st)
qed

lemma debts_ok_pay:
  assumes "debts_ok s" and "d \<in> set (t_debts s)" and "0 \<le> n" and "n \<le> d_outstanding_micro d"
  shows "debts_ok (set_debt (d_id d) (pay_row e n) s)"
proof -
  have keys: "map k (update_where (\<lambda>x. d_id x = d_id d) (pay_row e n) (t_debts s)) = map k (t_debts s)"
    if "k = d_id \<or> k = d_settlement_id" for k :: "kizuna_debt \<Rightarrow> string"
    using that by (intro map_update_where) auto
  have same: "x = d" if "x \<in> set (t_debts s)" "d_id x = d_id d" for x
    using assms(1,2) that by (auto simp: debts_ok_def distinct_map inj_on_def)
  have "n \<le> d_principal_micro d" using debts_ok_mem [OF assms(1,2)] assms(4) by simp
  then show ?thesis
    using assms(1,3)
    by (auto simp: debts_ok_def set_debt_def keys list_all_iff set_update_where pay_row_def dest: same)
qed

lemma totals_pay:
  assumes "debts_ok s" and "d \<in> set (t_debts s)" and "d_status d = Open"
  shows "outstanding_total (set_debt (d_id d) (pay_row e n) s) p l =
           outstanding_total s p l
           - (if (d_lane d, d_pool_id d) = (l, p) then d_outstanding_micro d - n else 0)"
    and "paid_down_total (set_debt (d_id d) (pay_row e n) s) a =
           paid_down_total s a + (if a = d_agent_id d then d_outstanding_micro d - n else 0)"
proof -
  show "outstanding_total (set_debt (d_id d) (pay_row e n) s) p l =
           outstanding_total s p l
           - (if (d_lane d, d_pool_id d) = (l, p) then d_outstanding_micro d - n else 0)"
    unfolding outstanding_total_def
    using open_sum_pay [OF assms, of "\<lambda>x. d_pool_id x = p \<and> d_lane x = l" e n] by auto
  have dist: "distinct (map d_id (t_debts s))" using debts_ok_mem [OF assms(1,2)] by simp
  show "paid_down_total (set_debt (d_id d) (pay_row e n) s) a =
           paid_down_total s a + (if a = d_agent_id d then d_outstanding_micro d - n else 0)"
    by (simp add: paid_down_total_def set_debt_def sum_where_update_key [OF dist assms(2)])
qed

section \<open>The loop\<close>

text \<open>
  What a payment of the loop may assume, and the rule for facts that every payment keeps: \<open>P\<close> relates
  the accumulator to the database.
\<close>

definition payable :: "db \<Rightarrow> kizuna_debt list \<Rightarrow> bool" where
  "payable s rows =
     (distinct (map d_id rows) \<and> (\<forall>d \<in> set rows. d \<in> set (t_debts s) \<and> d_status d = Open))"

lemma payable_tail:
  assumes "payable s (d # rest)"
  shows "payable (set_debt (d_id d) f s) rest" and "payable s rest"
proof -
  have "x \<in> set (t_debts (set_debt (d_id d) f s))" if "x \<in> set rest" for x
  proof -
    have "d_id d \<notin> d_id ` set rest" using assms by (simp add: payable_def)
    with that have "d_id x \<noteq> d_id d" by (metis imageI)
    moreover have "x \<in> set (t_debts s)" using assms that by (simp add: payable_def)
    ultimately show ?thesis by (force simp: set_debt_def set_update_where)
  qed
  with assms show "payable (set_debt (d_id d) f s) rest" by (auto simp: payable_def)
  show "payable s rest" using assms by (simp add: payable_def)
qed

lemma repay_loop_rule:
  assumes "repay_loop e rows acc s = Inr (acc', s')" and "debts_ok s" and "payable s rows"
    and "P acc s"
    and "\<And>d acc s pay. d \<in> set rows \<Longrightarrow> P acc s \<Longrightarrow> debts_ok s \<Longrightarrow> d \<in> set (t_debts s) \<Longrightarrow> d_status d = Open \<Longrightarrow>
           0 < pay \<Longrightarrow> pay \<le> d_outstanding_micro d \<Longrightarrow> pay \<le> ra_remaining acc \<Longrightarrow>
           P (pay_acc d pay acc) (set_debt (d_id d) (pay_row e (d_outstanding_micro d - pay)) s)"
  shows "P acc' s' \<and> debts_ok s'"
  using assms
proof (induction e rows acc arbitrary: s rule: repay_loop.induct)
  case (1 e acc)
  then show ?case by auto
next
  case (2 e d rest acc)
  have d: "d \<in> set (t_debts s)" "d_status d = Open" using 2(5) by (auto simp: payable_def)
  have nn: "0 \<le> d_outstanding_micro d" using debts_ok_mem [OF 2(4) d(1)] by simp
  show ?case
  proof (cases "ra_remaining acc \<le> 0")
    case True
    with 2 show ?thesis by simp
  next
    case more: False
    show ?thesis
    proof (cases "d_outstanding_micro d \<le> 0")
      case True
      with more nn 2(3) have "repay_loop e rest acc s = Inr (acc', s')" by (simp add: Let_def)
      with more True nn 2(1,4-7) payable_tail(2) [OF 2(5)] show ?thesis by simp
    next
      case False
      define pay where "pay = (if d_outstanding_micro d < ra_remaining acc then d_outstanding_micro d
                               else ra_remaining acc)"
      let ?s1 = "set_debt (d_id d) (pay_row e (d_outstanding_micro d - pay)) s"
      have pay: "0 < pay" "pay \<le> d_outstanding_micro d" "pay \<le> ra_remaining acc"
        using more False by (auto simp: pay_def)
      have run: "repay_loop e rest (pay_acc d pay acc) ?s1 = Inr (acc', s')"
        using 2(3) more False nn by (simp add: Let_def pay_def thenT_def bindT_def)
      have ok1: "debts_ok ?s1" using debts_ok_pay [OF 2(4) d(1)] pay by simp
      have P1: "P (pay_acc d pay acc) ?s1" using 2(7) [of d acc s pay] 2(4,6) d pay by simp
      show ?thesis
        using 2(2) [OF more _ _ _ _ run ok1 payable_tail(1) [OF 2(5)] P1] more False nn 2(7)
        by (simp add: pay_def)
    qed
  qed
qed

text \<open>The loop variables against the database it started from.\<close>

definition repay_inv :: "repay_params \<Rightarrow> db \<Rightarrow> repay_acc \<Rightarrow> db \<Rightarrow> bool" where
  "repay_inv p s0 acc s =
     ((\<exists>D. s = s0\<lparr>t_debts := D\<rparr>) \<and> (\<forall>x \<in> set (ra_deltas acc). 0 \<le> snd x) \<and> 0 \<le> ra_applied acc \<and>
      (0 < ra_applied acc \<longrightarrow> ra_primary acc \<noteq> None) \<and>
      (\<forall>q l. outstanding_total s q l = outstanding_total s0 q l - delta_of (ra_deltas acc) q l) \<and>
      (\<forall>a. paid_down_total s a = paid_down_total s0 a + (if a = rq_agentId p then ra_applied acc else 0)) \<and>
      scope_outstanding p s = scope_outstanding p s0 - ra_applied acc)"

lemma add_delta_nonneg:
  "\<forall>x \<in> set ds. 0 \<le> snd x \<Longrightarrow> 0 \<le> a \<Longrightarrow> \<forall>x \<in> set (add_delta k a ds). 0 \<le> snd x"
  by (induction k a ds rule: add_delta.induct) auto

lemma scope_pay:
  assumes "debts_ok s" and "d \<in> set (t_debts s)" and "d_status d = Open"
    and "open_in_scope (rq_agentId p) (rq_lane p) (rq_poolId p) d"
  shows "scope_outstanding p (set_debt (d_id d) (pay_row e n) s) =
         scope_outstanding p s - (d_outstanding_micro d - n)"
proof -
  let ?Q = "\<lambda>x. d_agent_id x = rq_agentId p \<and> scope_matches (rq_lane p) (rq_poolId p) x"
  have eq: "open_in_scope (rq_agentId p) (rq_lane p) (rq_poolId p) = (\<lambda>x. d_status x = Open \<and> ?Q x)"
    by (auto simp: open_in_scope_def fun_eq_iff)
  have Q: "?Q (pay_row e m d) = ?Q d" for m by (simp add: scope_matches_def split: option.split)
  show ?thesis
    using open_sum_pay [OF assms(1-3), of ?Q e n] Q assms(4) by (simp add: scope_outstanding_def eq)
qed

lemma repay_inv_pay:
  assumes "repay_inv p s0 acc s" and "debts_ok s" and "d \<in> set (t_debts s)" and "d_status d = Open"
    and "open_in_scope (rq_agentId p) (rq_lane p) (rq_poolId p) d" and "0 < pay"
  shows "repay_inv p s0 (pay_acc d pay acc) (set_debt (d_id d) (pay_row e (d_outstanding_micro d - pay)) s)"
proof -
  have agent: "d_agent_id d = rq_agentId p" using assms(5) by (simp add: open_in_scope_def)
  have "\<exists>D. set_debt (d_id d) (pay_row e (d_outstanding_micro d - pay)) s = s0\<lparr>t_debts := D\<rparr>"
    using assms(1) by (auto simp: repay_inv_def set_debt_def)
  with assms(1,6) add_delta_nonneg [of "ra_deltas acc" pay] show ?thesis
    unfolding repay_inv_def
    by (auto simp: pay_acc_def totals_pay [OF assms(2-4)] scope_pay [OF assms(2-5)] agent
        split: option.splits)
qed

lemma open_debts_mem:
  "d \<in> set (open_debts p s) \<longleftrightarrow>
   d \<in> set (t_debts s) \<and> open_in_scope (rq_agentId p) (rq_lane p) (rq_poolId p) d"
  by (auto simp: open_debts_def)

lemma payable_open_debts:
  assumes "debts_ok s"
  shows "payable s (open_debts p s)"
proof -
  have "distinct (map d_id (filter P (t_debts s)))" for P
    using assms by (intro distinct_map_filter) (simp add: debts_ok_def)
  then have "distinct (map d_id (open_debts p s))"
    unfolding open_debts_def by (metis (no_types, lifting) distinct_map distinct_sort set_sort)
  then show ?thesis by (auto simp: payable_def open_debts_mem open_in_scope_def)
qed

lemma repay_loop_inv:
  assumes "repay_loop e (open_debts p s) (repay_start p) s = Inr (acc, s')" and "debts_ok s"
  shows "repay_inv p s acc s' \<and> debts_ok s'"
proof (rule repay_loop_rule [OF assms payable_open_debts [OF assms(2)]])
  have "s = s\<lparr>t_debts := t_debts s\<rparr>" by simp
  then have "\<exists>D. s = s\<lparr>t_debts := D\<rparr>" by blast
  then show "repay_inv p s (repay_start p) s" by (simp add: repay_inv_def repay_start_def)
next
  fix d acc t and pay :: int
  assume "d \<in> set (open_debts p s)" "repay_inv p s acc t" "debts_ok t" "d \<in> set (t_debts t)"
    "d_status d = Open" "0 < pay"
  then show "repay_inv p s (pay_acc d pay acc) (set_debt (d_id d) (pay_row e (d_outstanding_micro d - pay)) t)"
    by (intro repay_inv_pay) (auto simp: open_debts_mem)
qed

text \<open>The loop always returns, and what it applied is the smaller of the amount and the debts.\<close>

lemma repay_loop_applied:
  assumes "\<forall>d \<in> set rows. 0 \<le> d_outstanding_micro d" and "0 \<le> ra_remaining acc"
  shows "\<exists>acc' s'. repay_loop e rows acc s = Inr (acc', s') \<and>
           ra_applied acc' = ra_applied acc + min (ra_remaining acc) (sum_list (map d_outstanding_micro rows))"
  using assms
proof (induction e rows acc arbitrary: s rule: repay_loop.induct)
  case (1 e acc)
  then show ?case by simp
next
  case (2 e d rest acc)
  have rest: "0 \<le> sum_list (map d_outstanding_micro rest)"
    using 2(3) by (auto intro!: sum_list_nonneg)
  show ?case
  proof (cases "ra_remaining acc \<le> 0")
    case True
    with 2(3,4) rest show ?thesis by simp
  next
    case more: False
    show ?thesis
    proof (cases "d_outstanding_micro d \<le> 0")
      case True
      with 2(3) have z: "d_outstanding_micro d = 0" by auto
      with more 2(1) [of "parseMicro (Some (numeric_text (d_outstanding_micro d)))" s] 2(3,4)
      show ?thesis by (simp add: Let_def)
    next
      case False
      define pay where "pay = (if d_outstanding_micro d < ra_remaining acc then d_outstanding_micro d
                               else ra_remaining acc)"
      let ?s1 = "set_debt (d_id d) (pay_row e (d_outstanding_micro d - pay)) s"
      have step: "repay_loop e (d # rest) acc s = repay_loop e rest (pay_acc d pay acc) ?s1"
        using more False by (simp add: Let_def pay_def thenT_def bindT_def)
      have "\<exists>acc' s'. repay_loop e rest (pay_acc d pay acc) ?s1 = Inr (acc', s') \<and>
           ra_applied acc' = ra_applied (pay_acc d pay acc) +
             min (ra_remaining (pay_acc d pay acc)) (sum_list (map d_outstanding_micro rest))"
        using 2(2) [OF more, of _ pay _ ?s1] more False 2(3,4) by (simp add: pay_def pay_acc_def)
      then show ?thesis
        unfolding step using rest by (auto simp: pay_acc_def pay_def min_def)
    qed
  qed
qed

section \<open>The transaction as a whole\<close>

lemma repay_new_stages:
  assumes "repay_new e p s = Inr (res, s')"
  obtains acc s1 s2 s3 where
    "repay_loop e (open_debts p s) (repay_start p) s = Inr (acc, s1)"
    "bump_outstanding e (ra_deltas acc) s1 = Inr ((), s2)"
    "insert_repayment (repayment_row e p acc) s2 = Inr ((), s3)"
    "queue_repayment_event e p (repayment_row e p acc) acc s3 = Inr ((), s')"
    "res = \<lparr>rr_repayment = repayment_row e p acc, rr_idempotent = False,
            rr_outstandingMicro = numeric_text (scope_outstanding p s')\<rparr>"
  using assms unfolding repay_new_def
  by (auto simp: Let_def elim!: bindT_successE thenT_successE)

lemma insert_repayment_success:
  assumes "insert_repayment row s = Inr (u, s')"
  shows "s' = s\<lparr>t_repayments := t_repayments s @ [row]\<rparr>" and "0 \<le> rp_amount_micro row"
  using assms by (auto simp: insert_repayment_def thenT_success numeric30_def)

lemma queue_repayment_event_success:
  assumes "queue_repayment_event e p row acc s = Inr (u, s')"
  shows "\<exists>rows. s' = s\<lparr>t_outbox := rows\<rparr>"
proof -
  have "s = s\<lparr>t_outbox := t_outbox s\<rparr>" by simp
  then have refl: "\<exists>rows. s = s\<lparr>t_outbox := rows\<rparr>" by blast
  show ?thesis
    using assms refl
    by (auto simp: queue_repayment_event_def split: option.splits if_splits dest: queue_success)
qed

lemma sum_list_sort_key: "sum_list (map f (sort_key k xs)) = sum_list (map f xs)" for f :: "'a \<Rightarrow> int"
  by (metis mset_map mset_sort sum_mset_sum_list)

text \<open>Everything a fresh repayment does, in terms of the loop's result.\<close>

lemma repay_new_effect:
  assumes ok: "ledger_ok s" and run: "repay_new e p s = Inr (res, s')"
  obtains acc where "rr_repayment res = repayment_row e p acc" and "\<not> rr_idempotent res"
    and "rr_outstandingMicro res = numeric_text (scope_outstanding p s')"
    and "ra_applied acc = min (rq_amountMicro p) (scope_outstanding p s)" and "0 \<le> rq_amountMicro p"
    and "scope_outstanding p s' = scope_outstanding p s - ra_applied acc"
    and "t_repayments s' = t_repayments s @ [repayment_row e p acc]"
    and "t_reservations s' = t_reservations s"
    and "ledger_ok s'" and "\<exists>s1. repay_loop e (open_debts p s) (repay_start p) s = Inr (acc, s1) \<and>
                              t_debts s' = t_debts s1"
proof -
  from run obtain acc s1 s2 s3 where
    lp: "repay_loop e (open_debts p s) (repay_start p) s = Inr (acc, s1)"
    and b: "bump_outstanding e (ra_deltas acc) s1 = Inr ((), s2)"
    and i: "insert_repayment (repayment_row e p acc) s2 = Inr ((), s3)"
    and q: "queue_repayment_event e p (repayment_row e p acc) acc s3 = Inr ((), s')"
    and res: "res = \<lparr>rr_repayment = repayment_row e p acc, rr_idempotent = False,
            rr_outstandingMicro = numeric_text (scope_outstanding p s')\<rparr>"
    by (rule repay_new_stages)
  note okd = ledger_okD [OF ok]
  have inv: "repay_inv p s acc s1" and dok1: "debts_ok s1" using repay_loop_inv [OF lp okd(2)] by auto
  obtain D where s1: "s1 = s\<lparr>t_debts := D\<rparr>" using inv by (auto simp: repay_inv_def)
  have tot1: "outstanding_total s1 = (\<lambda>q l. outstanding_total s q l - delta_of (ra_deltas acc) q l)"
    using inv by (intro ext) (simp add: repay_inv_def)
  have "delta_of (ra_deltas acc) q l \<le> outstanding_total s q l" for q l
    using outstanding_total_nonneg [OF dok1, of q l] by (simp add: tot1)
  moreover have "reserves_agree (t_pool_reserves s1) (reserved_total s) (outstanding_total s)"
    using okd(3) by (simp add: pools_ok_def s1)
  ultimately have "(\<exists>R. s2 = s1\<lparr>t_pool_reserves := R\<rparr>) \<and>
      reserves_agree (t_pool_reserves s2) (reserved_total s) (outstanding_total s1)"
    unfolding tot1
    using inv reserved_total_nonneg [OF okd(1)] by (intro bump_outstanding_agree [OF b]) (auto simp: repay_inv_def)
  then obtain R where s2: "s2 = s1\<lparr>t_pool_reserves := R\<rparr>"
    and agree: "reserves_agree R (reserved_total s) (outstanding_total s1)" by auto
  note s3 = insert_repayment_success [OF i]
  obtain rows where s': "s' = s3\<lparr>t_outbox := rows\<rparr>" using queue_repayment_event_success [OF q] by blast
  have amount: "0 \<le> rq_amountMicro p" using s3(2) by (simp add: repayment_row_def)
  have tabs: "t_debts s' = t_debts s1" "t_pool_reserves s' = R" "t_reservations s' = t_reservations s"
    "t_repayments s' = t_repayments s @ [repayment_row e p acc]"
    "t_enterprise_balances s' = t_enterprise_balances s" "t_funding_events s' = t_funding_events s"
    by (simp_all add: s' s3 s2 s1)
  have same: "reserved_total s' = reserved_total s" "outstanding_total s' = outstanding_total s1"
    "locked_total s' = locked_total s" "spent_total s' = spent_total s" "funded_total s' = funded_total s"
    "paid_down_total s' = paid_down_total s1" "scope_outstanding p s' = scope_outstanding p s1"
    by (auto simp: tabs reserved_total_def outstanding_total_def locked_total_def spent_total_def
        funded_total_def paid_down_total_def scope_outstanding_def fun_eq_iff)
  have "repaid_total s' a = repaid_total s a + (if a = rq_agentId p then ra_applied acc else 0)" for a
    by (simp add: repaid_total_def tabs repayment_row_def)
  then have "repayments_ok s'"
    using okd(5) inv by (simp add: repayments_ok_def same repay_inv_def)
  then have ok': "ledger_ok s'"
    using okd(1,4) dok1 agree
    by (simp add: ledger_ok_def reservations_ok_def debts_ok_def pools_ok_def balances_ok_def same tabs)
  have nn: "\<forall>d \<in> set (open_debts p s). 0 \<le> d_outstanding_micro d"
    using debts_okD [OF okd(2)] by (auto simp: open_debts_mem)
  have sum: "sum_list (map d_outstanding_micro (open_debts p s)) = scope_outstanding p s"
    by (simp add: open_debts_def scope_outstanding_def sum_where_def sum_list_sort_key)
  have "ra_applied acc = min (rq_amountMicro p) (scope_outstanding p s)"
    using repay_loop_applied [OF nn, of "repay_start p" e s] lp amount
    by (auto simp: repay_start_def sum)
  then show thesis
    using that [of acc] res amount ok' lp inv tabs same by (auto simp: repay_inv_def)
qed

lemma repayment_ledger_ok:
  assumes "ledger_ok s" and "applyKizunaRepayment e p s = Inr (res, s')"
  shows "ledger_ok s'"
  using assms by (auto simp: applyKizunaRepayment_def split: option.splits elim: repay_new_effect)

section \<open>First in, first out\<close>

text \<open>
  The specification of the loop: a sum of money paid down a list of debts in order.
\<close>

fun pay_off :: "int \<Rightarrow> int list \<Rightarrow> int list" where
  "pay_off money [] = []"
| "pay_off money (o1 # os) = (o1 - min money o1) # pay_off (money - min money o1) os"

definition debt_outstanding :: "db \<Rightarrow> string \<Rightarrow> int" where
  "debt_outstanding s did =
     (case find (\<lambda>d. d_id d = did) (t_debts s) of None \<Rightarrow> 0 | Some d \<Rightarrow> d_outstanding_micro d)"

lemma pay_off_zero: "\<forall>o1 \<in> set os. 0 \<le> o1 \<Longrightarrow> pay_off 0 os = os"
  by (induction os) auto

lemma debt_outstanding_mem:
  "debts_ok s \<Longrightarrow> d \<in> set (t_debts s) \<Longrightarrow> debt_outstanding s (d_id d) = d_outstanding_micro d"
  by (simp add: debt_outstanding_def debts_ok_def find_unique)

lemma debt_outstanding_set:
  assumes "debts_ok s" and "d \<in> set (t_debts s)"
  shows "debt_outstanding (set_debt (d_id d) (pay_row e n) s) did =
         (if did = d_id d then n else debt_outstanding s did)"
proof -
  have "find (\<lambda>x. d_id x = did) (update_where (\<lambda>x. d_id x = d_id d) (pay_row e n) (t_debts s)) =
      map_option (\<lambda>r. if d_id r = d_id d then pay_row e n r else r) (find (\<lambda>x. d_id x = did) (t_debts s))"
    by (rule find_update_where_key) simp
  moreover have "find (\<lambda>x. d_id x = d_id d) (t_debts s) = Some d"
    using assms by (simp add: debts_ok_def find_unique)
  ultimately show ?thesis
    by (auto simp: debt_outstanding_def set_debt_def split: option.splits dest: find_Some_mem)
qed

lemma repay_loop_pay_off:
  assumes "repay_loop e rows acc s = Inr (acc', s')" and "debts_ok s" and "payable s rows"
    and "0 \<le> ra_remaining acc"
  shows "map (\<lambda>d. debt_outstanding s' (d_id d)) rows =
           pay_off (ra_remaining acc) (map d_outstanding_micro rows) \<and>
         (\<forall>did. did \<notin> d_id ` set rows \<longrightarrow> debt_outstanding s' did = debt_outstanding s did)"
  using assms
proof (induction e rows acc arbitrary: s rule: repay_loop.induct)
  case (1 e acc)
  then show ?case by simp
next
  case (2 e d rest acc)
  have d: "d \<in> set (t_debts s)" "d_id d \<notin> d_id ` set rest" using 2(5) by (auto simp: payable_def)
  have nn: "0 \<le> d_outstanding_micro x" if "x \<in> set (d # rest)" for x
    using that 2(4,5) debts_ok_mem by (auto simp: payable_def)
  have out: "debt_outstanding s (d_id x) = d_outstanding_micro x" if "x \<in> set (d # rest)" for x
    using that 2(4,5) debt_outstanding_mem by (auto simp: payable_def)
  show ?case
  proof (cases "ra_remaining acc \<le> 0")
    case True
    with 2(3,6) have "s' = s" "ra_remaining acc = 0" by simp_all
    with nn out show ?thesis by (simp add: pay_off_zero)
  next
    case more: False
    show ?thesis
    proof (cases "d_outstanding_micro d \<le> 0")
      case True
      with nn have z: "d_outstanding_micro d = 0" by (meson antisym list.set_intros(1))
      with more 2(3) have "repay_loop e rest acc s = Inr (acc', s')" by (simp add: Let_def)
      with more z 2(1,4,6) payable_tail(2) [OF 2(5)]
      have IH: "map (\<lambda>d. debt_outstanding s' (d_id d)) rest =
           pay_off (ra_remaining acc) (map d_outstanding_micro rest) \<and>
         (\<forall>did. did \<notin> d_id ` set rest \<longrightarrow> debt_outstanding s' did = debt_outstanding s did)"
        by simp
      with z 2(6) out d(2) show ?thesis by simp
    next
      case False
      define pay where "pay = (if d_outstanding_micro d < ra_remaining acc then d_outstanding_micro d
                               else ra_remaining acc)"
      let ?s1 = "set_debt (d_id d) (pay_row e (d_outstanding_micro d - pay)) s"
      have pay: "pay = min (ra_remaining acc) (d_outstanding_micro d)" "0 \<le> pay"
        using more False by (auto simp: pay_def)
      have run: "repay_loop e rest (pay_acc d pay acc) ?s1 = Inr (acc', s')"
        using 2(3) more False by (simp add: Let_def pay_def thenT_def bindT_def)
      have ok1: "debts_ok ?s1" using pay by (intro debts_ok_pay [OF 2(4) d(1)]) auto
      have rem: "0 \<le> ra_remaining (pay_acc d pay acc)" using pay by (simp add: pay_acc_def)
      have "map (\<lambda>d. debt_outstanding s' (d_id d)) rest =
           pay_off (ra_remaining acc - pay) (map d_outstanding_micro rest) \<and>
         (\<forall>did. did \<notin> d_id ` set rest \<longrightarrow> debt_outstanding s' did = debt_outstanding ?s1 did)"
        using 2(2) [OF more _ _ _ _ run ok1 payable_tail(1) [OF 2(5)] rem] more False
        by (simp add: pay_def pay_acc_def)
      with d show ?thesis
        by (simp add: debt_outstanding_set [OF 2(4) d(1)] pay(1))
    qed
  qed
qed

section \<open>Retries\<close>

definition repayment_recorded :: "repay_params \<Rightarrow> db \<Rightarrow> bool" where
  "repayment_recorded p s = (getKizunaRepaymentByReference (rq_agentId p) (rq_referenceId p) s \<noteq> None)"

definition run_repayment :: "env \<Rightarrow> repay_params \<Rightarrow> db \<Rightarrow> (error + repay_result) \<times> db" where
  "run_repayment e p = withTransaction (applyKizunaRepayment e p)"

lemma repay_new_records:
  assumes "repay_new e p s = Inr (res, s')"
  shows "repayment_recorded p s'"
proof -
  from assms obtain acc s1 s2 s3 where
    i: "insert_repayment (repayment_row e p acc) s2 = Inr ((), s3)"
    and q: "queue_repayment_event e p (repayment_row e p acc) acc s3 = Inr ((), s')"
    by (rule repay_new_stages)
  have "repayment_row e p acc \<in> set (t_repayments s')"
    using insert_repayment_success(1) [OF i] queue_repayment_event_success [OF q] by auto
  moreover have "same_reference (rq_agentId p) (rq_referenceId p) (repayment_row e p acc)"
    by (simp add: same_reference_def repayment_row_def)
  ultimately show ?thesis
    unfolding repayment_recorded_def getKizunaRepaymentByReference_def find_None_iff by blast
qed

interpretation repay: idempotent_operation run_repayment repayment_recorded
proof
  show "repayment_recorded p s'" if "run_repayment e p s = (Inr r, s')" for e p s r s'
    using that repay_new_records
    by (auto simp: run_repayment_def withTransaction_success applyKizunaRepayment_def
        repayment_recorded_def split: option.splits)
  show "snd (run_repayment e p s) = s" if "repayment_recorded p s" for e p s
    using that by (auto simp: run_repayment_def applyKizunaRepayment_def repayment_recorded_def)
  show "s' = s" if "run_repayment e p s = (Inl err, s')" for e p s err s'
    using that by (simp add: run_repayment_def withTransaction_failure)
qed

section \<open>Properties\<close>

text \<open>
   A repayment applies exactly the smaller of its amount and what is owed in its scope: the recorded
  applied amount, the drop of the outstanding debt in scope and the reported outstanding amount agree,
  and the ledger stays consistent.
\<close>

theorem repayment_applies_minimum:
  assumes "ledger_ok s" and "applyKizunaRepayment e p s = Inr (res, s')" and "\<not> rr_idempotent res"
  shows "rp_applied_micro (rr_repayment res) = min (rq_amountMicro p) (scope_outstanding p s) \<and>
         scope_outstanding p s' = scope_outstanding p s - rp_applied_micro (rr_repayment res) \<and>
         rr_outstandingMicro res = numeric_text (scope_outstanding p s') \<and>
         t_repayments s' = t_repayments s @ [rr_repayment res] \<and> ledger_ok s'"
proof -
  have new: "repay_new e p s = Inr (res, s')"
    using assms(2,3) by (auto simp: applyKizunaRepayment_def split: option.splits)
  show ?thesis
  proof (rule repay_new_effect [OF assms(1) new])
    fix acc
    assume row: "rr_repayment res = repayment_row e p acc"
      and eff: "rr_outstandingMicro res = numeric_text (scope_outstanding p s')"
        "ra_applied acc = min (rq_amountMicro p) (scope_outstanding p s)"
        "scope_outstanding p s' = scope_outstanding p s - ra_applied acc"
        "t_repayments s' = t_repayments s @ [repayment_row e p acc]" "ledger_ok s'"
    have "rp_applied_micro (rr_repayment res) = ra_applied acc" by (simp add: row repayment_row_def)
    then show ?thesis using eff row by (metis (no_types))
  qed
qed

text \<open>
  Claim C5.  Repayments are applied first in, first out: over the open debts in scope, oldest first, the new
  outstanding amounts are those of paying down the list in order, and no other debt changes.
\<close>

theorem repayment_is_fifo:
  assumes "ledger_ok s" and "applyKizunaRepayment e p s = Inr (res, s')" and "\<not> rr_idempotent res"
  shows "map (\<lambda>d. debt_outstanding s' (d_id d)) (open_debts p s) =
           pay_off (rq_amountMicro p) (map d_outstanding_micro (open_debts p s)) \<and>
         (\<forall>did. did \<notin> d_id ` set (open_debts p s) \<longrightarrow> debt_outstanding s' did = debt_outstanding s did)"
proof -
  have new: "repay_new e p s = Inr (res, s')"
    using assms(2,3) by (auto simp: applyKizunaRepayment_def split: option.splits)
  obtain acc s1 where
    lp: "repay_loop e (open_debts p s) (repay_start p) s = Inr (acc, s1)"
    and same: "t_debts s' = t_debts s1" and amount: "0 \<le> rq_amountMicro p"
    by (rule repay_new_effect [OF assms(1) new]) blast
  have "debt_outstanding s' did = debt_outstanding s1 did" for did
    by (simp add: debt_outstanding_def same)
  then show ?thesis
    using repay_loop_pay_off [OF lp ledger_okD(2) [OF assms(1)] payable_open_debts [OF ledger_okD(2) [OF assms(1)]]]
      amount by (simp add: repay_start_def)
qed

text \<open>
   Retrying a repayment is harmless: once a repayment with a reference has committed, any number of
  further runs with the same reference, at any later time, leaves the database as it is.
\<close>

theorem repayment_retries_harmless:
  assumes "withTransaction (applyKizunaRepayment e p) s = (Inr res, s')"
  shows "fold (\<lambda>e t. snd (withTransaction (applyKizunaRepayment e p) t)) es s' = s'"
  using repay.retries_unchanged [of e p s res s' es] assms by (simp add: run_repayment_def)

section \<open>Witnesses\<close>

definition sample_debt :: "string \<Rightarrow> int \<Rightarrow> int \<Rightarrow> kizuna_debt" where
  "sample_debt did amount created =
     \<lparr>d_id = did, d_agent_id = ''agent-1'', d_payer_wallet = ''payer'', d_repay_wallet = ''repay'',
      d_network = ''eip155:8453'', d_lane = Enterprise, d_pool_id = ''enterprise-main'',
      d_settlement_id = CHR ''s'' # did, d_decision_id = None, d_reservation_id = None,
      d_decision_envelope_hash = None, d_principal_micro = amount, d_outstanding_micro = amount,
      d_status = Open, d_tx_hash = None, d_created_at = created, d_updated_at = created,
      d_closed_at = None\<rparr>"

definition sample_owing :: db where
  "sample_owing = sample_ledger
     \<lparr>t_debts := [sample_debt ''debt-2'' 40 2, sample_debt ''debt-1'' 30 1],
      t_pool_reserves := [''enterprise-main'' \<mapsto> (seed_reserve Enterprise 0)\<lparr>pr_outstanding_micro := 70\<rparr>]\<rparr>"

lemma ledger_ok_sample_owing: "ledger_ok sample_owing"
  by (simp add: ledger_ok_def reservations_ok_def debts_ok_def pools_ok_def balances_ok_def
      repayments_ok_def sample_owing_def sample_debt_def sample_ledger_def sample_funding_def seed_db_def
      reserves_agree_def balances_agree_def reserved_total_def outstanding_total_def locked_total_def
      spent_total_def funded_total_def repaid_total_def paid_down_total_def seed_reserve_def signed_flow_def)

definition sample_repay :: repay_params where
  "sample_repay =
     \<lparr>rq_agentId = ''agent-1'', rq_amountMicro = 50, rq_referenceId = ''r1'', rq_lane = None, rq_poolId = None\<rparr>"

definition sample_repaid :: db where
  "sample_repaid = run_state (applyKizunaRepayment (sample_env 100) sample_repay) sample_owing"

lemma sample_repayment_run:
  obtains res where "applyKizunaRepayment (sample_env 100) sample_repay sample_owing = Inr (res, sample_repaid)"
    and "\<not> rr_idempotent res"
proof -
  have "\<exists>res. applyKizunaRepayment (sample_env 100) sample_repay sample_owing = Inr (res, sample_repaid)"
    unfolding sample_repaid_def by (rule run_state_success) code_simp
  then obtain res where run: "applyKizunaRepayment (sample_env 100) sample_repay sample_owing = Inr (res, sample_repaid)"
    by blast
  have "getKizunaRepaymentByReference (rq_agentId sample_repay) (rq_referenceId sample_repay) sample_owing = None"
    by code_simp
  with run have "repay_new (sample_env 100) sample_repay sample_owing = Inr (res, sample_repaid)"
    by (simp add: applyKizunaRepayment_def)
  then have "\<not> rr_idempotent res" by (rule repay_new_stages) simp
  with run that show thesis by blast
qed

theorem repayment_applies_minimum_witness:
  "scope_outstanding sample_repay sample_repaid = scope_outstanding sample_repay sample_owing - 50"
proof -
  obtain res where run: "applyKizunaRepayment (sample_env 100) sample_repay sample_owing = Inr (res, sample_repaid)"
    and fresh: "\<not> rr_idempotent res" by (rule sample_repayment_run)
  have "min (rq_amountMicro sample_repay) (scope_outstanding sample_repay sample_owing) = 50" by code_simp
  then show ?thesis
    using repayment_applies_minimum [OF ledger_ok_sample_owing run fresh] by simp
qed

theorem repayment_is_fifo_witness:
  "map (\<lambda>d. debt_outstanding sample_repaid (d_id d)) (open_debts sample_repay sample_owing) = [0, 20]"
proof -
  obtain res where run: "applyKizunaRepayment (sample_env 100) sample_repay sample_owing = Inr (res, sample_repaid)"
    and fresh: "\<not> rr_idempotent res" by (rule sample_repayment_run)
  have "pay_off (rq_amountMicro sample_repay) (map d_outstanding_micro (open_debts sample_repay sample_owing)) = [0, 20]"
    by code_simp
  then show ?thesis
    using repayment_is_fifo [OF ledger_ok_sample_owing run fresh] by simp
qed

theorem repayment_retries_harmless_witness:
  "fold (\<lambda>e t. snd (withTransaction (applyKizunaRepayment e sample_repay) t))
     [sample_env 200, sample_env 300] sample_repaid = sample_repaid"
proof -
  obtain res where run: "applyKizunaRepayment (sample_env 100) sample_repay sample_owing = Inr (res, sample_repaid)"
    by (rule sample_repayment_run)
  show ?thesis
    by (rule repayment_retries_harmless [of "sample_env 100" sample_repay sample_owing res]) (simp add: run)
qed

end
