(* ===== verification/Funding.thy ===== *)
theory Funding
  imports Reservations
begin

text \<open>
  Prefunding of an agent's balance in a pool: \<open>applyKizunaFundingEvent\<close> and the balance and event
  lookups of \<open>db/queries.ts\<close>.
\<close>

section \<open>The transaction\<close>

record funding_params =
  fd_agentId :: string
  fd_lane :: lane
  fd_poolId :: string
  fd_referenceId :: string
  fd_eventType :: flow
  fd_amountMicro :: string
  fd_txHash :: "string option"
  fd_metadata :: json_object

record funding_result =
  fg_idempotent :: bool
  fg_event :: funding_event
  fg_balance :: enterprise_balance

definition getKizunaEnterpriseBalance :: "string \<Rightarrow> string \<Rightarrow> db \<Rightarrow> enterprise_balance option" where
  "getKizunaEnterpriseBalance agentId poolId s = t_enterprise_balances s (agentId, poolId)"

definition same_funding_reference :: "funding_params \<Rightarrow> funding_event \<Rightarrow> bool" where
  "same_funding_reference p v =
     (fe_agent_id v = fd_agentId p \<and> fe_pool_id v = fd_poolId p \<and> fe_reference_id v = fd_referenceId p)"

text \<open>\<open>ORDER BY created_at DESC LIMIT\<close>, newest first, with the limit clamped to 1..200.\<close>

definition listKizunaFundingEvents :: "string \<Rightarrow> int \<Rightarrow> string option \<Rightarrow> db \<Rightarrow> funding_event list" where
  "listKizunaFundingEvents agentId limit poolId s =
     take (nat (max 1 (min limit 200)))
       (sort_key (\<lambda>v. - fe_created_at v)
          (filter (\<lambda>v. fe_agent_id v = agentId \<and>
                       (case poolId of None \<Rightarrow> True | Some p \<Rightarrow> p = [] \<or> fe_pool_id v = p))
             (t_funding_events s)))"

definition insert_funding_event :: "env \<Rightarrow> funding_event \<Rightarrow> (db, unit) tx" where
  "insert_funding_event e row =
     thenT (check_numeric30 ''amount_micro'' (fe_amount_micro row))
    (thenT (ensureT (\<lambda>s. fe_id row \<notin> fe_id ` set (t_funding_events s)) (Pg (UniqueViolation ''funding_pkey'')))
    (thenT (fk_account (fe_agent_id row))
    (modifyT (\<lambda>s. s\<lparr>t_funding_events := t_funding_events s @ [row]\<rparr>))))"

text \<open>
  The replay branch.  The balance is read on another connection; nothing has been written yet, so
  it sees the same rows.
\<close>

definition replay_funding :: "funding_params \<Rightarrow> int \<Rightarrow> funding_event \<Rightarrow> (db, funding_result) tx" where
  "replay_funding p amount event = (\<lambda>s.
     if fe_event_type event \<noteq> fd_eventType p \<or> numeric_text (fe_amount_micro event) \<noteq> numeric_text amount
     then Inl (Thrown ''kizuna_funding_reference_conflict'')
     else (case getKizunaEnterpriseBalance (fd_agentId p) (fd_poolId p) s of
             None \<Rightarrow> Inl (Thrown ''kizuna_enterprise_balance_missing'')
           | Some balance \<Rightarrow> Inr (\<lparr>fg_idempotent = True, fg_event = event, fg_balance = balance\<rparr>, s)))"

definition funding_row :: "env \<Rightarrow> funding_params \<Rightarrow> int \<Rightarrow> funding_event" where
  "funding_row e p amount =
     \<lparr>fe_id = env_uuid e 0, fe_agent_id = fd_agentId p, fe_lane = fd_lane p, fe_pool_id = fd_poolId p,
      fe_reference_id = fd_referenceId p, fe_event_type = fd_eventType p, fe_amount_micro = amount,
      fe_tx_hash = fd_txHash p, fe_metadata = fd_metadata p, fe_created_at = env_now e\<rparr>"

definition new_funding :: "env \<Rightarrow> funding_params \<Rightarrow> int \<Rightarrow> (db, funding_result) tx" where
  "new_funding e p amount =
     bindT (mutateKizunaEnterpriseBalance e (fd_agentId p) (fd_poolId p)
              (case fd_eventType p of Deposit \<Rightarrow> amount | Withdraw \<Rightarrow> - amount) 0 0
              (case fd_eventType p of Deposit \<Rightarrow> None | Withdraw \<Rightarrow> Some amount) None)
       (\<lambda>balance. case balance of
          None \<Rightarrow> throwT (Thrown ''kizuna_funding_insufficient_available'')
        | Some b \<Rightarrow> thenT (insert_funding_event e (funding_row e p amount))
                     (returnT \<lparr>fg_idempotent = False, fg_event = funding_row e p amount, fg_balance = b\<rparr>))"

definition applyKizunaFundingEvent :: "env \<Rightarrow> funding_params \<Rightarrow> (db, funding_result) tx" where
  "applyKizunaFundingEvent e p = (\<lambda>s.
     let amount = parseMicro (Some (fd_amountMicro p)) in
     if amount \<le> 0 then Inl (Thrown ''kizuna_funding_amount_invalid'')
     else (case find (same_funding_reference p) (t_funding_events s) of
             Some event \<Rightarrow> replay_funding p amount event s
           | None \<Rightarrow> new_funding e p amount s))"

section \<open>The ledger invariant\<close>

lemma new_funding_effect:
  assumes "new_funding e p amount s = Inr (res, s')"
  obtains b s1 where
    "mutateKizunaEnterpriseBalance e (fd_agentId p) (fd_poolId p) (signed_flow (fd_eventType p) amount) 0 0
       (case fd_eventType p of Deposit \<Rightarrow> None | Withdraw \<Rightarrow> Some amount) None s = Inr (Some b, s1)"
    "s' = s1\<lparr>t_funding_events := t_funding_events s1 @ [funding_row e p amount]\<rparr>"
    "res = \<lparr>fg_idempotent = False, fg_event = funding_row e p amount, fg_balance = b\<rparr>"
  using assms
  by (auto simp: new_funding_def bindT_success thenT_success insert_funding_event_def
      signed_flow_def cong: flow.case_cong split: option.splits)

lemma new_funding_ledger_ok:
  assumes ok: "ledger_ok s" and run: "new_funding e p amount s = Inr (res, s')"
  shows "ledger_ok s'"
    and "funded_total s' k =
           funded_total s k + (if k = (fd_agentId p, fd_poolId p) then signed_flow (fd_eventType p) amount else 0)"
    and "t_reservations s' = t_reservations s"
proof -
  from run obtain b s1 where
    m: "mutateKizunaEnterpriseBalance e (fd_agentId p) (fd_poolId p) (signed_flow (fd_eventType p) amount) 0 0
       (case fd_eventType p of Deposit \<Rightarrow> None | Withdraw \<Rightarrow> Some amount) None s = Inr (Some b, s1)"
    and s': "s' = s1\<lparr>t_funding_events := t_funding_events s1 @ [funding_row e p amount]\<rparr>"
    by (rule new_funding_effect)
  note s1 = mutate_success(1) [OF m]
  have funded: "funded_total s' k = funded_total s k +
      (if k = (fd_agentId p, fd_poolId p) then signed_flow (fd_eventType p) amount else 0)" for k
    by (auto simp: funded_total_def s' s1 funding_row_def)
  have same: "reserved_total s' = reserved_total s" "outstanding_total s' = outstanding_total s"
    "locked_total s' = locked_total s" "spent_total s' = spent_total s"
    "repaid_total s' = repaid_total s" "paid_down_total s' = paid_down_total s"
    by (auto simp: s' s1 reserved_total_def outstanding_total_def locked_total_def spent_total_def
        repaid_total_def paid_down_total_def fun_eq_iff)
  have "balances_agree (t_enterprise_balances s1) (funded_total s') (locked_total s') (spent_total s')"
    by (rule mutate_agree [OF m ledger_okD(4) [OF ok, unfolded balances_ok_def]]) (simp_all add: funded same)
  then have "balances_ok s'" by (simp add: balances_ok_def s')
  then show "ledger_ok s'"
    using ledger_okD(1-3,5) [OF ok]
    by (simp add: ledger_ok_def reservations_ok_def debts_ok_def pools_ok_def repayments_ok_def same)
      (simp add: s' s1)
  show "funded_total s' k = funded_total s k +
      (if k = (fd_agentId p, fd_poolId p) then signed_flow (fd_eventType p) amount else 0)"
    by (rule funded)
  show "t_reservations s' = t_reservations s" by (simp add: s' s1)
qed

lemma funding_cases:
  assumes "applyKizunaFundingEvent e p s = Inr (res, s')"
  shows "0 < parseMicro (Some (fd_amountMicro p)) \<and>
         ((fg_idempotent res \<and> s' = s \<and> fg_event res \<in> set (t_funding_events s) \<and>
           same_funding_reference p (fg_event res) \<and> fe_event_type (fg_event res) = fd_eventType p \<and>
           fe_amount_micro (fg_event res) = parseMicro (Some (fd_amountMicro p)))
          \<or> (\<not> fg_idempotent res \<and> new_funding e p (parseMicro (Some (fd_amountMicro p))) s = Inr (res, s')))"
  using assms
  by (auto simp: applyKizunaFundingEvent_def Let_def replay_funding_def
      split: if_splits option.splits dest: find_Some_mem elim!: new_funding_effect)

lemma funding_ledger_ok:
  "ledger_ok s \<Longrightarrow> applyKizunaFundingEvent e p s = Inr (res, s') \<Longrightarrow> ledger_ok s'"
  by (drule funding_cases) (auto intro: new_funding_ledger_ok(1))

section \<open>Retries\<close>

definition funding_recorded :: "funding_params \<Rightarrow> db \<Rightarrow> bool" where
  "funding_recorded p s = (find (same_funding_reference p) (t_funding_events s) \<noteq> None)"

definition run_funding :: "env \<Rightarrow> funding_params \<Rightarrow> db \<Rightarrow> (error + funding_result) \<times> db" where
  "run_funding e p = withTransaction (applyKizunaFundingEvent e p)"

lemma funding_recorded_replay:
  assumes "funding_recorded p s"
  shows "snd (run_funding e p s) = s"
proof (cases "applyKizunaFundingEvent e p s")
  case (Inl err)
  then show ?thesis by (simp add: run_funding_def)
next
  case (Inr x)
  obtain res s' where x: "x = (res, s')" by (cases x)
  have "s' = s"
    using Inr assms unfolding x
    by (auto simp: applyKizunaFundingEvent_def Let_def replay_funding_def funding_recorded_def
        split: if_splits option.splits)
  with Inr x show ?thesis by (simp add: run_funding_def)
qed

interpretation funding: idempotent_operation run_funding funding_recorded
proof
  show "funding_recorded p s'" if "run_funding e p s = (Inr r, s')" for e p s r s'
  proof -
    have run: "applyKizunaFundingEvent e p s = Inr (r, s')"
      using that by (simp add: run_funding_def withTransaction_success)
    have "\<exists>v \<in> set (t_funding_events s'). same_funding_reference p v"
      using funding_cases [OF run]
      by (auto elim!: new_funding_effect simp: funding_row_def same_funding_reference_def)
    then show ?thesis by (auto simp: funding_recorded_def find_None_iff)
  qed
  show "snd (run_funding e p s) = s" if "funding_recorded p s" for e p s
    using that by (rule funding_recorded_replay)
  show "s' = s" if "run_funding e p s = (Inl err, s')" for e p s err s'
    using that by (simp add: run_funding_def withTransaction_failure)
qed

section \<open>Properties\<close>

text \<open>
  A funding event moves the available balance by exactly its amount and nothing else: a deposit adds
  it, a withdrawal takes it and only if it is available; locked and spent money stay the same.
\<close>

theorem funding_moves_available:
  assumes ok: "ledger_ok s" and run: "applyKizunaFundingEvent e p s = Inr (res, s')" and "\<not> fg_idempotent res"
  shows "let k = (fd_agentId p, fd_poolId p); amount = parseMicro (Some (fd_amountMicro p)) in
         0 < amount \<and> prefund_available s' k = prefund_available s k + signed_flow (fd_eventType p) amount \<and>
         0 \<le> prefund_available s' k \<and> locked_total s' k = locked_total s k \<and> spent_total s' k = spent_total s k \<and>
         (\<forall>k'. k' \<noteq> k \<longrightarrow> prefund_available s' k' = prefund_available s k') \<and> ledger_ok s'"
proof -
  note c = funding_cases [OF run]
  with assms(3) have new: "new_funding e p (parseMicro (Some (fd_amountMicro p))) s = Inr (res, s')" by auto
  note eff = new_funding_ledger_ok [OF ok new]
  have same: "locked_total s' = locked_total s" "spent_total s' = spent_total s"
    by (simp_all add: fun_eq_iff locked_total_def spent_total_def eff(3))
  show ?thesis
    using c prefund_available_nonneg [OF ledger_okD(4) [OF eff(1)]]
    by (auto simp: Let_def prefund_available_eq [OF ledger_okD(4) [OF eff(1)]]
        prefund_available_eq [OF ledger_okD(4) [OF ok]] eff(1,2) same)
qed

text \<open>The unique constraint on agent, pool and reference is kept.\<close>

definition funding_key :: "funding_event \<Rightarrow> string \<times> string \<times> string" where
  "funding_key v = (fe_agent_id v, fe_pool_id v, fe_reference_id v)"

definition funding_keys_ok :: "db \<Rightarrow> bool" where
  "funding_keys_ok s = distinct (map funding_key (t_funding_events s))"

lemma same_funding_reference_key:
  "same_funding_reference p v \<longleftrightarrow> funding_key v = (fd_agentId p, fd_poolId p, fd_referenceId p)"
  by (auto simp: same_funding_reference_def funding_key_def)

lemma funding_keys_kept:
  assumes "applyKizunaFundingEvent e p s = Inr (res, s')" and "funding_keys_ok s"
  shows "funding_keys_ok s'"
proof (cases "find (same_funding_reference p) (t_funding_events s)")
  case (Some v)
  then have "s' = s"
    using assms(1) by (auto simp: applyKizunaFundingEvent_def Let_def replay_funding_def
        split: if_splits option.splits)
  with assms(2) show ?thesis by simp
next
  case None
  then have new: "new_funding e p (parseMicro (Some (fd_amountMicro p))) s = Inr (res, s')"
    using assms(1) by (auto simp: applyKizunaFundingEvent_def Let_def split: if_splits)
  have fresh: "funding_key (funding_row e p n) \<notin> funding_key ` set (t_funding_events s)" for n
    using None by (auto simp: find_None_iff same_funding_reference_key funding_key_def funding_row_def)
  from new obtain b s1 where
    m: "mutateKizunaEnterpriseBalance e (fd_agentId p) (fd_poolId p)
          (signed_flow (fd_eventType p) (parseMicro (Some (fd_amountMicro p)))) 0 0
          (case fd_eventType p of Deposit \<Rightarrow> None | Withdraw \<Rightarrow> Some (parseMicro (Some (fd_amountMicro p)))) None s
          = Inr (Some b, s1)"
    and s': "s' = s1\<lparr>t_funding_events := t_funding_events s1 @
                    [funding_row e p (parseMicro (Some (fd_amountMicro p)))]\<rparr>"
    by (rule new_funding_effect)
  have "t_funding_events s1 = t_funding_events s" by (simp add: mutate_success(1) [OF m])
  with assms(2) fresh show ?thesis by (simp add: funding_keys_ok_def s')
qed

text \<open>
  Claim C9.  A funding reference is used once: after a funding event has committed, further runs with its
  reference never change the database, and a run with another type or amount is refused as a conflict.
\<close>

theorem funding_reference_used_once:
  assumes "withTransaction (applyKizunaFundingEvent e p) s = (Inr res, s')" and "funding_keys_ok s"
    and "fd_agentId q = fd_agentId p" "fd_poolId q = fd_poolId p" "fd_referenceId q = fd_referenceId p"
    and "0 < parseMicro (Some (fd_amountMicro q))"
  shows "snd (withTransaction (applyKizunaFundingEvent e' q) s') = s' \<and>
         (fd_eventType q \<noteq> fd_eventType p \<or>
            parseMicro (Some (fd_amountMicro q)) \<noteq> parseMicro (Some (fd_amountMicro p)) \<longrightarrow>
          fst (withTransaction (applyKizunaFundingEvent e' q) s') =
            Inl (Thrown ''kizuna_funding_reference_conflict''))"
proof -
  have run: "applyKizunaFundingEvent e p s = Inr (res, s')"
    using assms(1) by (simp add: withTransaction_success)
  have sr: "same_funding_reference q = same_funding_reference p"
    using assms(3-5) by (simp add: same_funding_reference_def fun_eq_iff)
  have rec: "funding_recorded p s'"
    using funding.commit_records [of e p s res s'] assms(1) by (simp add: run_funding_def)
  then have "funding_recorded q s'" by (simp add: funding_recorded_def sr)
  then have same: "snd (withTransaction (applyKizunaFundingEvent e' q) s') = s'"
    using funding_recorded_replay [of q s' e'] by (simp add: run_funding_def)
  have ev: "fg_event res \<in> set (t_funding_events s')" "same_funding_reference p (fg_event res)"
    "fe_event_type (fg_event res) = fd_eventType p"
    "fe_amount_micro (fg_event res) = parseMicro (Some (fd_amountMicro p))"
    using funding_cases [OF run]
    by (auto elim!: new_funding_effect simp: funding_row_def same_funding_reference_def)
  have uniq: "v = fg_event res" if "v \<in> set (t_funding_events s')" "same_funding_reference p v" for v
    using funding_keys_kept [OF run assms(2)] ev(1,2) that
    by (auto simp: funding_keys_ok_def same_funding_reference_key distinct_map inj_on_def)
  have found: "find (same_funding_reference p) (t_funding_events s') = Some (fg_event res)"
    by (rule find_Some_unique) (rule ev(1) ev(2) uniq | assumption)+
  have "applyKizunaFundingEvent e' q s' = Inl (Thrown ''kizuna_funding_reference_conflict'')"
    if "fd_eventType q \<noteq> fd_eventType p \<or>
        parseMicro (Some (fd_amountMicro q)) \<noteq> parseMicro (Some (fd_amountMicro p))"
  proof -
    have conflict: "fe_event_type (fg_event res) \<noteq> fd_eventType q \<or>
        numeric_text (fe_amount_micro (fg_event res)) \<noteq> numeric_text (parseMicro (Some (fd_amountMicro q)))"
      using that ev(3,4) by (elim disjE) simp_all
    have pos: "\<not> parseMicro (Some (fd_amountMicro q)) \<le> 0" using assms(6) by simp
    have "replay_funding q (parseMicro (Some (fd_amountMicro q))) (fg_event res) s' =
        Inl (Thrown ''kizuna_funding_reference_conflict'')"
      unfolding replay_funding_def by (rule if_P [OF conflict])
    then show ?thesis
      by (simp only: applyKizunaFundingEvent_def Let_def sr found option.case if_not_P [OF pos])
  qed
  then have "withTransaction (applyKizunaFundingEvent e' q) s' =
      (Inl (Thrown ''kizuna_funding_reference_conflict''), s')"
    if "fd_eventType q \<noteq> fd_eventType p \<or>
        parseMicro (Some (fd_amountMicro q)) \<noteq> parseMicro (Some (fd_amountMicro p))"
    using that by (intro withTransaction_rollback)
  then have "fst (withTransaction (applyKizunaFundingEvent e' q) s') =
      Inl (Thrown ''kizuna_funding_reference_conflict'')"
    if "fd_eventType q \<noteq> fd_eventType p \<or>
        parseMicro (Some (fd_amountMicro q)) \<noteq> parseMicro (Some (fd_amountMicro p))"
    using that by (metis fst_conv)
  with same show ?thesis by (intro conjI impI)
qed

section \<open>Witnesses\<close>

definition sample_deposit :: "flow \<Rightarrow> funding_params" where
  "sample_deposit f =
     \<lparr>fd_agentId = ''agent-1'', fd_lane = Enterprise, fd_poolId = ''enterprise-main'',
      fd_referenceId = ''ref-2'', fd_eventType = f, fd_amountMicro = ''25'', fd_txHash = None,
      fd_metadata = []\<rparr>"

definition sample_funded :: db where
  "sample_funded = run_state (applyKizunaFundingEvent (sample_env 5) (sample_deposit Deposit)) sample_ledger"

lemma sample_funding_run:
  "\<exists>res. applyKizunaFundingEvent (sample_env 5) (sample_deposit Deposit) sample_ledger = Inr (res, sample_funded)"
  unfolding sample_funded_def by (rule run_state_success) code_simp

lemma sample_deposit_fresh:
  "find (same_funding_reference (sample_deposit Deposit)) (t_funding_events sample_ledger) = None"
  by code_simp

theorem funding_moves_available_witness:
  "prefund_available sample_funded (''agent-1'', ''enterprise-main'') =
   prefund_available sample_ledger (''agent-1'', ''enterprise-main'') + 25"
proof -
  obtain res where run: "applyKizunaFundingEvent (sample_env 5) (sample_deposit Deposit) sample_ledger = Inr (res, sample_funded)"
    using sample_funding_run by blast
  have "\<not> fg_idempotent res"
    using funding_cases [OF run] sample_deposit_fresh by (auto simp: find_None_iff)
  moreover have "parseMicro (Some (fd_amountMicro (sample_deposit Deposit))) = 25" by code_simp
  ultimately show ?thesis
    using funding_moves_available [OF ledger_ok_sample run]
    by (simp add: Let_def sample_deposit_def signed_flow_def)
qed

theorem funding_reference_used_once_witness:
  "fst (withTransaction (applyKizunaFundingEvent (sample_env 9) (sample_deposit Withdraw)) sample_funded) =
     Inl (Thrown ''kizuna_funding_reference_conflict'')"
proof -
  obtain res where run: "applyKizunaFundingEvent (sample_env 5) (sample_deposit Deposit) sample_ledger = Inr (res, sample_funded)"
    using sample_funding_run by blast
  have run': "withTransaction (applyKizunaFundingEvent (sample_env 5) (sample_deposit Deposit)) sample_ledger =
      (Inr res, sample_funded)"
    by (simp add: run)
  have "parseMicro (Some (fd_amountMicro (sample_deposit Withdraw))) = 25" "funding_keys_ok sample_ledger"
    by code_simp+
  then show ?thesis
    using funding_reference_used_once [OF run', of "sample_deposit Withdraw" "sample_env 9"]
    by (simp add: sample_deposit_def)
qed

end
