(* ===== verification/Pg_Numeric.thy ===== *)
theory Pg_Numeric
  imports Micro
begin

text \<open>
  Division in SQL.  The collateral queries of \<open>db/queries.ts\<close> compute \<open>(amount * (10000 - haircut)) / 10000\<close>
  in PostgreSQL's \<open>NUMERIC\<close> and read the result as text.  The quotient of two integral numerics is not
  an integer: PostgreSQL keeps at least 16 significant digits, and the text shows every digit of the
  result's scale, zeros included (\<open>SELECT (100::numeric / 10000)::text\<close> is \<open>0.01000000000000000000\<close>).
  The scale is computed from the base-10000 digits of the operands as in the server's
  \<open>select_div_scale\<close>.  Only nonnegative values occur.
\<close>

section \<open>Values with a display scale\<close>

datatype pgnum = PgNum (pg_mantissa: nat) (pg_scale: nat)

definition pg_int :: "nat \<Rightarrow> pgnum" where
  "pg_int n = PgNum n 0"

fun weight4 :: "nat \<Rightarrow> nat" where
  "weight4 n = (if n < 10000 then 0 else Suc (weight4 (n div 10000)))"

declare weight4.simps [simp del]

definition first_digit4 :: "nat \<Rightarrow> nat" where
  "first_digit4 n = n div 10000 ^ weight4 n"

definition select_div_scale :: "nat \<Rightarrow> nat \<Rightarrow> nat" where
  "select_div_scale a b =
     (let qweight = int (weight4 a) - int (weight4 b) - (if first_digit4 a \<le> first_digit4 b then 1 else 0)
      in nat (max 0 (16 - 4 * qweight)))"

text \<open>Division of integral values, rounded half up at the selected scale.\<close>

definition pg_div :: "nat \<Rightarrow> nat \<Rightarrow> pgnum" where
  "pg_div a b = (let sc = select_div_scale a b in PgNum ((2 * a * 10 ^ sc + b) div (2 * b)) sc)"

text \<open>Addition keeps the larger scale.\<close>

definition pg_add :: "pgnum \<Rightarrow> pgnum \<Rightarrow> pgnum" where
  "pg_add x y =
     (let sc = max (pg_scale x) (pg_scale y) in
      PgNum (pg_mantissa x * 10 ^ (sc - pg_scale x) + pg_mantissa y * 10 ^ (sc - pg_scale y)) sc)"

text \<open>\<open>COALESCE(SUM(..), 0)\<close>.\<close>

definition pg_sum :: "pgnum list \<Rightarrow> pgnum" where
  "pg_sum xs = (case xs of [] \<Rightarrow> pg_int 0 | x # rest \<Rightarrow> fold (\<lambda>y acc. pg_add acc y) rest x)"

definition pad_start :: "nat \<Rightarrow> char \<Rightarrow> string \<Rightarrow> string" where
  "pad_start n c s = replicate (n - length s) c @ s"

text \<open>\<open>value::text\<close>.\<close>

definition pg_text :: "pgnum \<Rightarrow> string" where
  "pg_text x =
     (if pg_scale x = 0 then nat_text (pg_mantissa x)
      else nat_text (pg_mantissa x div 10 ^ pg_scale x) @ CHR ''.'' #
           pad_start (pg_scale x) CHR ''0'' (nat_text (pg_mantissa x mod 10 ^ pg_scale x)))"

section \<open>Reading such a text as a BigInt\<close>

lemma BigInt_point:
  assumes "whole \<noteq> []" "list_all is_digit whole" "fraction \<noteq> []" "list_all is_digit fraction"
  shows "BigInt_of_string (whole @ CHR ''.'' # fraction) = None"
proof -
  define t where "t = whole @ CHR ''.'' # fraction"
  have trim: "js_trim t = t"
    unfolding t_def
    using assms by (intro js_trim_id) (auto simp: list_all_iff digit_not_space hd_append)
  have ne: "t \<noteq> []" by (simp add: t_def)
  have hd: "hd t \<noteq> CHR ''-''" "hd t \<noteq> CHR ''+''"
    using assms by (auto simp: t_def list_all_iff hd_append neq_Nil_conv)
  have pre: "take 2 t \<noteq> [CHR ''0'', c]" if "\<not> is_digit c" "c \<noteq> CHR ''.''" for c
  proof
    assume "take 2 t = [CHR ''0'', c]"
    then have "c \<in> set t" by (metis in_set_takeD list.set_intros(1,2))
    with assms that show False by (auto simp: t_def list_all_iff)
  qed
  have "decimal_value t = None" by (simp add: decimal_value_def t_def)
  then have "BigInt_of_string t = None"
    using hd ne by (simp add: BigInt_of_string_def Let_def trim pre)
  then show ?thesis by (simp add: t_def)
qed

lemma pad_start_digits [simp]:
  "list_all is_digit (pad_start n CHR ''0'' (nat_text m))" "pad_start n CHR ''0'' (nat_text m) \<noteq> []"
  by (auto simp: pad_start_def list_all_iff is_digit_def dest: bspec [OF nat_text_digits [unfolded list_all_iff]])

text \<open>A text with a decimal point is not a BigInt, so \<open>parseMicro\<close> makes it zero.\<close>

lemma parseMicro_scaled: "0 < pg_scale x \<Longrightarrow> parseMicro (Some (pg_text x)) = 0"
  by (simp add: parseMicro_def pg_text_def BigInt_point)

lemma parseMicro_unscaled: "pg_scale x = 0 \<Longrightarrow> parseMicro (Some (pg_text x)) = int (pg_mantissa x)"
  by (simp add: parseMicro_def pg_text_def BigInt_digits)

lemma weight4_bound: "n < 10000 ^ Suc k \<Longrightarrow> weight4 n \<le> k"
proof (induction k arbitrary: n)
  case 0
  then show ?case by (simp add: weight4.simps)
next
  case (Suc k)
  have "n div 10000 < 10000 ^ Suc k"
    using Suc.prems by (simp add: less_mult_imp_div_less)
  with Suc.IH show ?case by (subst weight4.simps) simp
qed

lemma div_10000_scaled:
  assumes "a < 10 ^ 20"
  shows "0 < pg_scale (pg_div a 10000)"
proof -
  have "weight4 a \<le> 4" using assms by (intro weight4_bound) simp
  moreover have "weight4 10000 = 1" by (simp add: weight4.simps)
  ultimately show ?thesis by (simp add: pg_div_def select_div_scale_def Let_def)
qed

lemma pg_scale_add: "pg_scale (pg_add x y) = max (pg_scale x) (pg_scale y)"
  by (simp add: pg_add_def Let_def)

lemma pg_scale_fold: "pg_scale x \<le> pg_scale (fold (\<lambda>y acc. pg_add acc y) ys x)"
proof (induction ys arbitrary: x)
  case Nil
  then show ?case by simp
next
  case (Cons y ys)
  have "pg_scale x \<le> pg_scale (pg_add x y)" by (simp add: pg_scale_add)
  also have "\<dots> \<le> pg_scale (fold (\<lambda>y acc. pg_add acc y) ys (pg_add x y))" by (rule Cons.IH)
  finally show ?case by simp
qed

lemma pg_scale_sum: "xs \<noteq> [] \<Longrightarrow> 0 < pg_scale (hd xs) \<Longrightarrow> 0 < pg_scale (pg_sum xs)"
  using pg_scale_fold [of "hd xs" "tl xs"] by (cases xs) (simp_all add: pg_sum_def)

end
