(* ===== verification/Collateral.thy ===== *)
theory Collateral
  imports Settlement Pg_Numeric
begin

text \<open>
  Collateral of the crypto-fast lane: positions, their valuation, and
  \<open>applyKizunaCollateralEvent\<close> of \<open>db/queries.ts\<close>.  Health factors are quotients of doubles in the
  code and exact rationals here.
\<close>

section \<open>Valuation\<close>

record asset_view =
  av_assetId :: string
  av_symbol :: string
  av_availableMicro :: string
  av_haircutBps :: int
  av_effectiveCollateralMicro :: string

record position_view =
  pv_collateralAccount :: string
  pv_totalAvailableMicro :: string
  pv_effectiveCollateralMicro :: string
  pv_assets :: "asset_view list"

record collateral_summary =
  cs_poolId :: string
  cs_totalAvailableMicro :: string
  cs_effectiveCollateralMicro :: string
  cs_outstandingMicro :: string
  cs_ltvBps :: int
  cs_healthFactor :: rat

text \<open>\<open>GREATEST(deposited - withdrawn - locked, 0)\<close> and its value after the haircut.\<close>

definition position_available :: "collateral_position \<Rightarrow> int" where
  "position_available p = max (cp_deposited_micro p - cp_withdrawn_micro p - cp_locked_micro p) 0"

definition effective_value :: "collateral_asset \<Rightarrow> collateral_position \<Rightarrow> pgnum" where
  "effective_value a p = pg_div (nat (position_available p * (10000 - ca_haircut_bps a))) 10000"

text \<open>The inner join of positions with their assets.\<close>

fun join_assets ::
  "(string \<rightharpoonup> collateral_asset) \<Rightarrow> collateral_position list \<Rightarrow> (collateral_position \<times> collateral_asset) list" where
  "join_assets A [] = []"
| "join_assets A (p # ps) =
     (case A (cp_asset_id p) of None \<Rightarrow> join_assets A ps | Some a \<Rightarrow> (p, a) # join_assets A ps)"

definition asset_view_of :: "collateral_position \<times> collateral_asset \<Rightarrow> asset_view" where
  "asset_view_of x =
     \<lparr>av_assetId = cp_asset_id (fst x), av_symbol = ca_symbol (snd x),
      av_availableMicro = numeric_text (position_available (fst x)),
      av_haircutBps = ca_haircut_bps (snd x),
      av_effectiveCollateralMicro = pg_text (effective_value (snd x) (fst x))\<rparr>"

definition getKizunaCollateralPosition ::
  "string \<Rightarrow> string \<Rightarrow> string \<Rightarrow> db \<Rightarrow> position_view option" where
  "getKizunaCollateralPosition agentId poolId collateralAccount s =
     (let rows = map asset_view_of (join_assets (t_collateral_assets s)
                   (filter (\<lambda>p. cp_agent_id p = agentId \<and> cp_pool_id p = poolId \<and>
                                cp_collateral_account p = collateralAccount \<and> cp_status p = PositionActive)
                      (t_collateral_positions s)));
          totalAvailable = sum_list (map (\<lambda>r. parseMicro (Some (av_availableMicro r))) rows);
          totalEffective = sum_list (map (\<lambda>r. parseMicro (Some (av_effectiveCollateralMicro r))) rows)
      in if rows = [] then None
         else Some \<lparr>pv_collateralAccount = collateralAccount,
                    pv_totalAvailableMicro = numeric_text totalAvailable,
                    pv_effectiveCollateralMicro = numeric_text totalEffective,
                    pv_assets = rows\<rparr>)"

definition getKizunaPoolReserve :: "string \<Rightarrow> db \<Rightarrow> pool_reserve option" where
  "getKizunaPoolReserve poolId s = t_pool_reserves s poolId"

definition getKizunaFastpathPool :: "string \<Rightarrow> db \<Rightarrow> fastpath_pool option" where
  "getKizunaFastpathPool poolId s = t_fastpath_pools s poolId"

definition getKizunaCollateralAsset :: "string \<Rightarrow> db \<Rightarrow> collateral_asset option" where
  "getKizunaCollateralAsset assetId s = t_collateral_assets s assetId"

definition ltv_of :: "int \<Rightarrow> int \<Rightarrow> int" where
  "ltv_of outstanding collateral =
     max 0 (min 10000 (if 0 < collateral then (outstanding * 10000) div collateral else 0))"

definition health_of :: "int \<Rightarrow> int \<Rightarrow> int \<Rightarrow> rat" where
  "health_of outstanding collateral ltvCapBps =
     (if 0 < outstanding then (of_int collateral * of_int ltvCapBps) / (of_int outstanding * 10000) else 9999)"

text \<open>
  \<open>pool?.ltv_cap_bps || 6500\<close> in the summary (a cap of zero counts as absent).  An infinite health
  factor is reported as 9999.
\<close>

definition getKizunaCollateralSummary :: "string \<Rightarrow> string \<Rightarrow> db \<Rightarrow> collateral_summary option" where
  "getKizunaCollateralSummary agentId poolId s =
     (case getKizunaPoolReserve poolId s of
        None \<Rightarrow> None
      | Some reserve \<Rightarrow>
          (let rows = join_assets (t_collateral_assets s)
                        (filter (\<lambda>p. cp_agent_id p = agentId \<and> cp_pool_id p = poolId \<and>
                                     cp_status p = PositionActive) (t_collateral_positions s));
               effectiveCollateral = parseMicro (Some (pg_text (pg_sum
                  (map (\<lambda>x. effective_value (snd x) (fst x)) rows))));
               totalAvailable = parseMicro (Some (numeric_text
                  (sum_list (map (\<lambda>x. position_available (fst x)) rows))));
               outstanding = parseMicro (Some (numeric_text (pr_outstanding_micro reserve)));
               ltvCapBps = (case getKizunaFastpathPool poolId s of
                              Some pool \<Rightarrow> if fp_ltv_cap_bps pool \<noteq> 0 then fp_ltv_cap_bps pool else 6500
                            | None \<Rightarrow> 6500)
           in Some \<lparr>cs_poolId = poolId, cs_totalAvailableMicro = numeric_text totalAvailable,
                    cs_effectiveCollateralMicro = numeric_text effectiveCollateral,
                    cs_outstandingMicro = numeric_text outstanding,
                    cs_ltvBps = ltv_of outstanding effectiveCollateral,
                    cs_healthFactor = health_of outstanding effectiveCollateral ltvCapBps\<rparr>))"

record pool_view =
  pw_poolId :: string
  pw_lane :: lane
  pw_status :: pool_status
  pw_ltvCapBps :: "int option"
  pw_reserveRatioBps :: "int option"
  pw_minHealthFactor :: "rat option"
  pw_maxSingleMicro :: "int option"
  pw_reservedMicro :: int
  pw_outstandingMicro :: int
  pw_collateralValueMicro :: int
  pw_updatedAt :: int

definition getKizunaPool :: "string \<Rightarrow> db \<Rightarrow> pool_view option" where
  "getKizunaPool poolId s =
     (case getKizunaPoolReserve poolId s of
        None \<Rightarrow> None
      | Some reserve \<Rightarrow>
          (let fastpath = getKizunaFastpathPool poolId s in
           Some \<lparr>pw_poolId = poolId, pw_lane = pr_lane reserve,
                 pw_status = (case fastpath of None \<Rightarrow> PoolActive | Some f \<Rightarrow> fp_status f),
                 pw_ltvCapBps = map_option fp_ltv_cap_bps fastpath,
                 pw_reserveRatioBps = map_option fp_reserve_ratio_bps fastpath,
                 pw_minHealthFactor = map_option fp_min_health_factor fastpath,
                 pw_maxSingleMicro = map_option fp_max_single_micro fastpath,
                 pw_reservedMicro = pr_reserved_micro reserve,
                 pw_outstandingMicro = pr_outstanding_micro reserve,
                 pw_collateralValueMicro = pr_collateral_value_micro reserve,
                 pw_updatedAt = pr_updated_at reserve\<rparr>))"

section \<open>applyKizunaCollateralEvent\<close>

record collateral_params =
  co_agentId :: string
  co_lane :: lane
  co_poolId :: string
  co_collateralAccount :: string
  co_assetId :: string
  co_amountMicro :: string
  co_eventType :: flow
  co_referenceId :: string
  co_txHash :: "string option"

record collateral_result =
  cr_idempotent :: bool
  cr_position :: collateral_position
  cr_poolReserve :: pool_reserve
  cr_ltvBps :: int
  cr_healthFactor :: rat
  cr_effectiveCollateralMicro :: string
  cr_outstandingMicro :: string

definition same_position :: "collateral_params \<Rightarrow> collateral_position \<Rightarrow> bool" where
  "same_position p x =
     (cp_agent_id x = co_agentId p \<and> cp_pool_id x = co_poolId p \<and>
      cp_collateral_account x = co_collateralAccount p \<and> cp_asset_id x = co_assetId p)"

definition same_collateral_reference :: "collateral_params \<Rightarrow> collateral_event \<Rightarrow> bool" where
  "same_collateral_reference p v = (ce_agent_id v = co_agentId p \<and> ce_reference_id v = co_referenceId p)"

text \<open>The replay branch looks up the position and pool that the new request names.\<close>

definition replay_collateral :: "collateral_params \<Rightarrow> (db, collateral_result) tx" where
  "replay_collateral p = (\<lambda>s.
     case (find (same_position p) (t_collateral_positions s), t_pool_reserves s (co_poolId p),
           getKizunaCollateralSummary (co_agentId p) (co_poolId p) s) of
       (Some position, Some reserve, Some summary) \<Rightarrow>
         Inr (\<lparr>cr_idempotent = True, cr_position = position, cr_poolReserve = reserve,
               cr_ltvBps = cs_ltvBps summary, cr_healthFactor = cs_healthFactor summary,
               cr_effectiveCollateralMicro = cs_effectiveCollateralMicro summary,
               cr_outstandingMicro = cs_outstandingMicro summary\<rparr>, s)
     | _ \<Rightarrow> Inl (Thrown ''kizuna_collateral_state_missing''))"

definition add_deposit :: "env \<Rightarrow> int \<Rightarrow> collateral_position \<Rightarrow> collateral_position" where
  "add_deposit e amount x =
     x\<lparr>cp_deposited_micro := cp_deposited_micro x + amount, cp_updated_at := env_now e\<rparr>"

definition add_withdrawal :: "env \<Rightarrow> int \<Rightarrow> collateral_position \<Rightarrow> collateral_position" where
  "add_withdrawal e amount x =
     x\<lparr>cp_withdrawn_micro := cp_withdrawn_micro x + amount, cp_updated_at := env_now e\<rparr>"

definition new_position :: "env \<Rightarrow> collateral_params \<Rightarrow> int \<Rightarrow> collateral_position" where
  "new_position e p amount =
     \<lparr>cp_id = env_uuid e 0, cp_agent_id = co_agentId p, cp_pool_id = co_poolId p,
      cp_collateral_account = co_collateralAccount p, cp_asset_id = co_assetId p,
      cp_deposited_micro = amount, cp_withdrawn_micro = 0, cp_locked_micro = 0,
      cp_status = PositionActive, cp_created_at = env_now e, cp_updated_at = env_now e\<rparr>"

text \<open>
  \<open>INSERT .. ON CONFLICT (agent_id, pool_id, collateral_account, asset_id) DO UPDATE .. RETURNING\<close>.
\<close>

definition deposit_position :: "env \<Rightarrow> collateral_params \<Rightarrow> int \<Rightarrow> (db, collateral_position) tx" where
  "deposit_position e p amount = (\<lambda>s.
     case find (same_position p) (t_collateral_positions s) of
       Some old \<Rightarrow>
         thenT (check_numeric30 ''deposited_micro'' (cp_deposited_micro (add_deposit e amount old)))
        (thenT (modifyT (\<lambda>s. s\<lparr>t_collateral_positions :=
                  update_where (same_position p) (add_deposit e amount) (t_collateral_positions s)\<rparr>))
        (returnT (add_deposit e amount old))) s
     | None \<Rightarrow>
         thenT (check_numeric30 ''deposited_micro'' amount)
        (thenT (ensureT (\<lambda>s. env_uuid e 0 \<notin> cp_id ` set (t_collateral_positions s))
                  (Pg (UniqueViolation ''positions_pkey'')))
        (thenT (fk_account (co_agentId p))
        (thenT (modifyT (\<lambda>s. s\<lparr>t_collateral_positions := t_collateral_positions s @ [new_position e p amount]\<rparr>))
        (returnT (new_position e p amount))))) s)"

definition can_withdraw :: "collateral_params \<Rightarrow> int \<Rightarrow> collateral_position \<Rightarrow> bool" where
  "can_withdraw p amount x =
     (same_position p x \<and> cp_status x = PositionActive \<and>
      amount \<le> cp_deposited_micro x - cp_withdrawn_micro x - cp_locked_micro x)"

definition withdraw_position :: "env \<Rightarrow> collateral_params \<Rightarrow> int \<Rightarrow> (db, collateral_position) tx" where
  "withdraw_position e p amount = (\<lambda>s.
     case find (can_withdraw p amount) (t_collateral_positions s) of
       None \<Rightarrow> Inl (Thrown ''kizuna_collateral_withdraw_insufficient_available'')
     | Some old \<Rightarrow>
         thenT (check_numeric30 ''withdrawn_micro'' (cp_withdrawn_micro (add_withdrawal e amount old)))
        (thenT (modifyT (\<lambda>s. s\<lparr>t_collateral_positions :=
                  update_where (can_withdraw p amount) (add_withdrawal e amount) (t_collateral_positions s)\<rparr>))
        (returnT (add_withdrawal e amount old))) s)"

definition move_position :: "env \<Rightarrow> collateral_params \<Rightarrow> int \<Rightarrow> (db, collateral_position) tx" where
  "move_position e p amount =
     (case co_eventType p of Deposit \<Rightarrow> deposit_position e p amount | Withdraw \<Rightarrow> withdraw_position e p amount)"

definition insert_collateral_event :: "env \<Rightarrow> collateral_params \<Rightarrow> int \<Rightarrow> (db, unit) tx" where
  "insert_collateral_event e p amount =
     thenT (check_numeric30 ''amount_micro'' amount)
    (thenT (fk_account (co_agentId p))
    (modifyT (\<lambda>s. s\<lparr>t_collateral_events := t_collateral_events s @
       [\<lparr>ce_agent_id = co_agentId p, ce_pool_id = co_poolId p, ce_lane = co_lane p,
         ce_collateral_account = co_collateralAccount p, ce_asset_id = co_assetId p,
         ce_reference_id = co_referenceId p, ce_event_type = co_eventType p,
         ce_amount_micro = amount, ce_tx_hash = co_txHash p, ce_created_at = env_now e\<rparr>]\<rparr>)))"

definition insert_snapshot :: "env \<Rightarrow> collateral_params \<Rightarrow> int \<Rightarrow> int \<Rightarrow> int \<Rightarrow> rat \<Rightarrow> (db, unit) tx" where
  "insert_snapshot e p collateralValue outstanding ltvBps healthFactor =
     thenT (ensureT (\<lambda>_. numeric6_fits healthFactor) (Pg (NumericOverflow ''health_factor'')))
    (thenT (ensureT (\<lambda>_. 0 \<le> healthFactor) (Pg (CheckViolation ''chk_kizuna_health_factor'')))
    (modifyT (\<lambda>s. s\<lparr>t_health_snapshots := t_health_snapshots s @
       [\<lparr>hs_agent_id = co_agentId p, hs_lane = co_lane p, hs_pool_id = co_poolId p,
         hs_collateral_value_micro = collateralValue, hs_debt_outstanding_micro = outstanding,
         hs_ltv_bps = ltvBps, hs_health_factor = numeric6 healthFactor, hs_created_at = env_now e\<rparr>]\<rparr>)))"

definition collateral_event_payload ::
  "env \<Rightarrow> collateral_params \<Rightarrow> collateral_asset \<Rightarrow> int \<Rightarrow> int \<Rightarrow> int \<Rightarrow> int \<Rightarrow> rat \<Rightarrow> trust_payload" where
  "collateral_event_payload e p asset amount collateralValue outstanding ltvBps healthFactor =
     \<lparr>tp_event_id = [], tp_entity_id = co_agentId p,
      tp_event_type = (case co_eventType p of Deposit \<Rightarrow> CollateralDeposited | Withdraw \<Rightarrow> CollateralWithdrawn),
      tp_occurred_at = env_date_now e, tp_lane = co_lane p, tp_pool_id = co_poolId p, tp_network = None,
      tp_amount_micro = Some (numeric_text amount), tp_currency = Some (ca_symbol asset),
      tp_tx_hash = co_txHash p, tp_reference_id = Some (co_referenceId p), tp_settlement_id = None,
      tp_reservation_id = None, tp_debt_id = None, tp_payer_wallet = None, tp_repay_wallet = None,
      tp_merchant_wallet = None, tp_collateral_account = Some (co_collateralAccount p),
      tp_asset_id = Some (co_assetId p),
      tp_metadata =
        [(''healthFactor'', JNum healthFactor), (''ltvBps'', JNum (of_int ltvBps)),
         (''effectiveCollateralMicro'', JStr (numeric_text collateralValue)),
         (''outstandingMicro'', JStr (numeric_text outstanding))]\<rparr>"

definition collateral_key :: "string \<Rightarrow> string \<Rightarrow> string" where
  "collateral_key agentId referenceId = ''collateral:'' @ agentId @ '':'' @ referenceId"

definition haircut_value :: "collateral_asset \<Rightarrow> int \<Rightarrow> int" where
  "haircut_value asset amount = (amount * (10000 - ca_haircut_bps asset)) div 10000"

text \<open>The valuation, snapshot and event that follow the change of the position.\<close>

definition publish_collateral ::
  "env \<Rightarrow> collateral_params \<Rightarrow> collateral_asset \<Rightarrow> int \<Rightarrow> collateral_position \<Rightarrow> pool_reserve \<Rightarrow> int \<Rightarrow> int
   \<Rightarrow> int \<Rightarrow> rat \<Rightarrow> (db, collateral_result) tx" where
  "publish_collateral e p asset amount position reserve collateralValue outstanding ltvBps healthFactor =
     thenT (insert_snapshot e p collateralValue outstanding ltvBps healthFactor)
    (thenT (queueFairscaleTrustEventOutbox e (env_uuid e 1)
              (collateral_key (co_agentId p) (co_referenceId p))
              (collateral_event_payload e p asset amount collateralValue outstanding ltvBps healthFactor))
    (returnT \<lparr>cr_idempotent = False, cr_position = position, cr_poolReserve = reserve,
              cr_ltvBps = ltvBps, cr_healthFactor = healthFactor,
              cr_effectiveCollateralMicro = numeric_text collateralValue,
              cr_outstandingMicro = numeric_text outstanding\<rparr>))"

definition report_collateral ::
  "env \<Rightarrow> collateral_params \<Rightarrow> collateral_asset \<Rightarrow> int \<Rightarrow> collateral_position \<Rightarrow> (db, collateral_result) tx" where
  "report_collateral e p asset amount position = (\<lambda>s.
     case t_pool_reserves s (co_poolId p) of
       None \<Rightarrow> Inl (Thrown ''kizuna_pool_not_found'')
     | Some reserve \<Rightarrow>
         (let ltvCapBps = (case t_fastpath_pools s (co_poolId p) of None \<Rightarrow> 6500 | Some f \<Rightarrow> fp_ltv_cap_bps f);
              collateralValue = parseMicro (Some (numeric_text (pr_collateral_value_micro reserve)));
              outstanding = parseMicro (Some (numeric_text (pr_outstanding_micro reserve)))
          in publish_collateral e p asset amount position reserve collateralValue outstanding
               (ltv_of outstanding collateralValue) (health_of outstanding collateralValue ltvCapBps) s))"

definition new_collateral ::
  "env \<Rightarrow> collateral_params \<Rightarrow> collateral_asset \<Rightarrow> int \<Rightarrow> (db, collateral_result) tx" where
  "new_collateral e p asset amount =
     bindT (move_position e p amount) (\<lambda>position.
     thenT (insert_collateral_event e p amount)
    (thenT (bumpKizunaPoolReserve e (co_poolId p) (co_lane p) 0 0
              (case co_eventType p of Deposit \<Rightarrow> haircut_value asset amount
                                    | Withdraw \<Rightarrow> - haircut_value asset amount))
    (report_collateral e p asset amount position)))"

definition applyKizunaCollateralEvent :: "env \<Rightarrow> collateral_params \<Rightarrow> (db, collateral_result) tx" where
  "applyKizunaCollateralEvent e p = (\<lambda>s.
     case find (same_collateral_reference p) (t_collateral_events s) of
       Some _ \<Rightarrow> replay_collateral p s
     | None \<Rightarrow>
         (case t_collateral_assets s (co_assetId p) of
            None \<Rightarrow> Inl (Thrown ''kizuna_collateral_asset_not_supported'')
          | Some asset \<Rightarrow>
              if \<not> ca_active asset then Inl (Thrown ''kizuna_collateral_asset_not_supported'')
              else (let amount = parseMicro (Some (co_amountMicro p)) in
                    if amount \<le> 0 then Inl (Thrown ''kizuna_collateral_amount_invalid'')
                    else new_collateral e p asset amount s)))"

section \<open>What an event changes\<close>

lemma report_collateral_success:
  assumes "report_collateral e p asset amount position s = Inr (res, s')"
  shows "\<exists>H B. s' = s\<lparr>t_health_snapshots := H, t_outbox := B\<rparr>"
    and "cr_position res = position" and "\<not> cr_idempotent res"
proof -
  from assms obtain reserve cv out l h where
    "publish_collateral e p asset amount position reserve cv out l h s = Inr (res, s')"
    by (auto simp: report_collateral_def Let_def split: option.splits)
  then obtain s1 where i: "insert_snapshot e p cv out l h s = Inr ((), s1)"
    and q: "queueFairscaleTrustEventOutbox e (env_uuid e 1) (collateral_key (co_agentId p) (co_referenceId p))
              (collateral_event_payload e p asset amount cv out l h) s1 = Inr ((), s')"
    and res: "cr_position res = position" "\<not> cr_idempotent res"
    unfolding publish_collateral_def by (elim thenT_successE) auto
  have s1: "\<exists>H. s1 = s\<lparr>t_health_snapshots := H\<rparr>"
    using i by (auto simp: insert_snapshot_def thenT_success)
  from queue_success [OF q] s1 show "\<exists>H B. s' = s\<lparr>t_health_snapshots := H, t_outbox := B\<rparr>" by auto
  show "cr_position res = position" "\<not> cr_idempotent res" by (fact res)+
qed

lemma new_collateral_stages:
  assumes "new_collateral e p asset amount s = Inr (res, s')"
  obtains s1 where
    "move_position e p amount s = Inr (cr_position res, s1)" and "\<not> cr_idempotent res"
    and "t_collateral_positions s' = t_collateral_positions s1"
    and "\<exists>v. t_collateral_events s' = t_collateral_events s1 @ [v] \<and> same_collateral_reference p v"
    and "\<exists>dc. t_pool_reserves s' = bumped_table e (co_poolId p) (co_lane p) 0 0 dc (t_pool_reserves s1)"
    and "t_reservations s' = t_reservations s1" and "t_debts s' = t_debts s1"
    and "t_repayments s' = t_repayments s1" and "t_enterprise_balances s' = t_enterprise_balances s1"
    and "t_funding_events s' = t_funding_events s1"
proof -
  from assms obtain position s1 s2 s3 dc where
    m: "move_position e p amount s = Inr (position, s1)"
    and i: "insert_collateral_event e p amount s1 = Inr ((), s2)"
    and b: "bumpKizunaPoolReserve e (co_poolId p) (co_lane p) 0 0 dc s2 = Inr ((), s3)"
    and r: "report_collateral e p asset amount position s3 = Inr (res, s')"
    by (auto simp: new_collateral_def elim!: bindT_successE thenT_successE)
  obtain v where s2: "s2 = s1\<lparr>t_collateral_events := t_collateral_events s1 @ [v]\<rparr>"
    and v: "same_collateral_reference p v"
    using i by (auto simp: insert_collateral_event_def thenT_success same_collateral_reference_def)
  obtain H B where s': "s' = s3\<lparr>t_health_snapshots := H, t_outbox := B\<rparr>"
    using report_collateral_success(1) [OF r] by blast
  note rs = report_collateral_success(2,3) [OF r]
  show thesis
    using that [of s1] m rs v by (auto simp: s' bump_success [OF b] s2)
qed

lemma move_position_success:
  assumes "move_position e p amount s = Inr (position, s')"
  shows "\<exists>P. s' = s\<lparr>t_collateral_positions := P\<rparr>"
  using assms
  by (auto simp: move_position_def deposit_position_def withdraw_position_def thenT_success
      split: flow.splits option.splits)

lemma collateral_ledger_ok:
  assumes ok: "ledger_ok s" and run: "applyKizunaCollateralEvent e p s = Inr (res, s')"
  shows "ledger_ok s'"
proof (cases "find (same_collateral_reference p) (t_collateral_events s)")
  case (Some v)
  with run have "s' = s"
    by (auto simp: applyKizunaCollateralEvent_def replay_collateral_def split: option.splits)
  with ok show ?thesis by simp
next
  case None
  with run obtain asset amount where new: "new_collateral e p asset amount s = Inr (res, s')"
    by (auto simp: applyKizunaCollateralEvent_def Let_def split: option.splits if_splits)
  then obtain s1 where m: "move_position e p amount s = Inr (cr_position res, s1)"
    and b: "\<exists>dc. t_pool_reserves s' = bumped_table e (co_poolId p) (co_lane p) 0 0 dc (t_pool_reserves s1)"
    and tabs: "t_reservations s' = t_reservations s1" "t_debts s' = t_debts s1" "t_repayments s' = t_repayments s1"
      "t_enterprise_balances s' = t_enterprise_balances s1" "t_funding_events s' = t_funding_events s1"
    by (rule new_collateral_stages)
  obtain P where s1: "s1 = s\<lparr>t_collateral_positions := P\<rparr>" using move_position_success [OF m] by blast
  have ok': "ledger_ok (s'\<lparr>t_pool_reserves := t_pool_reserves s\<rparr>)"
    by (rule ledger_ok_frame [OF ok]) (simp_all add: tabs s1)
  have same: "reserved_total s' = reserved_total s" "outstanding_total s' = outstanding_total s"
    by (auto simp: reserved_total_def outstanding_total_def tabs s1 fun_eq_iff)
  have "pools_ok s'"
    using b bump_zero_agree [OF ledger_okD(3) [OF ok, unfolded pools_ok_def]]
      reserved_total_nonneg [OF ledger_okD(1) [OF ok]] outstanding_total_nonneg [OF ledger_okD(2) [OF ok]]
    by (auto simp: pools_ok_def same s1)
  moreover have "reservations_ok s'" "debts_ok s'" "balances_ok s'" "repayments_ok s'"
    using ledger_okD [OF ok']
    by (simp_all add: reservations_ok_def debts_ok_def balances_ok_def repayments_ok_def funded_total_def
        locked_total_def spent_total_def repaid_total_def paid_down_total_def balances_agree_def)
  ultimately show ?thesis by (simp add: ledger_ok_def)
qed

section \<open>Positions\<close>

definition position_key :: "collateral_position \<Rightarrow> string \<times> string \<times> string \<times> string" where
  "position_key x = (cp_agent_id x, cp_pool_id x, cp_collateral_account x, cp_asset_id x)"

definition position_net :: "collateral_position \<Rightarrow> int" where
  "position_net x = cp_deposited_micro x - cp_withdrawn_micro x - cp_locked_micro x"

definition positions_ok :: "db \<Rightarrow> bool" where
  "positions_ok s =
     (distinct (map position_key (t_collateral_positions s)) \<and>
      list_all (\<lambda>x. 0 \<le> position_net x) (t_collateral_positions s))"

definition net_of :: "collateral_params \<Rightarrow> db \<Rightarrow> int" where
  "net_of p s = (case find (same_position p) (t_collateral_positions s) of None \<Rightarrow> 0 | Some x \<Rightarrow> position_net x)"

lemma same_position_key:
  "same_position p x \<longleftrightarrow> position_key x = (co_agentId p, co_poolId p, co_collateralAccount p, co_assetId p)"
  by (auto simp: same_position_def position_key_def)

lemma position_changes [simp]:
  "position_key (add_deposit e n x) = position_key x" "position_net (add_deposit e n x) = position_net x + n"
  "position_key (add_withdrawal e n x) = position_key x" "position_net (add_withdrawal e n x) = position_net x - n"
  "position_key (new_position e p n) = (co_agentId p, co_poolId p, co_collateralAccount p, co_assetId p)"
  "position_net (new_position e p n) = n"
  by (simp_all add: position_key_def position_net_def add_deposit_def add_withdrawal_def new_position_def)

lemma update_same_position:
  assumes "positions_ok s" and "find (same_position p) (t_collateral_positions s) = Some x"
    and "\<And>y. position_key (f y) = position_key y" and "0 \<le> position_net (f x)"
    and "s' = s\<lparr>t_collateral_positions := update_where (same_position p) f (t_collateral_positions s)\<rparr>"
  shows "positions_ok s'" and "find (same_position p) (t_collateral_positions s') = Some (f x)"
    and "filter (\<lambda>y. \<not> same_position p y) (t_collateral_positions s') =
         filter (\<lambda>y. \<not> same_position p y) (t_collateral_positions s)"
proof -
  let ?rows = "t_collateral_positions s"
  have x: "x \<in> set ?rows" "same_position p x" using find_Some_mem [OF assms(2)] by auto
  have uniq: "y = x" if "y \<in> set ?rows" "same_position p y" for y
    using that x assms(1) by (auto simp: positions_ok_def distinct_map inj_on_def same_position_key)
  have "map position_key (update_where (same_position p) f ?rows) = map position_key ?rows"
    by (rule map_update_where) (rule assms(3))
  moreover have "0 \<le> position_net y" if "y \<in> set (update_where (same_position p) f ?rows)" for y
    using that assms(1,4) uniq by (auto simp: set_update_where positions_ok_def list_all_iff)
  ultimately show "positions_ok s'"
    using assms(1) by (simp add: positions_ok_def assms(5) list_all_iff)
  have "find (same_position p) (update_where (same_position p) f ?rows) =
      map_option (\<lambda>r. if same_position p r then f r else r) (find (same_position p) ?rows)"
    unfolding same_position_key by (rule find_update_where_key) (rule assms(3))
  with assms(2) x(2) show "find (same_position p) (t_collateral_positions s') = Some (f x)"
    by (simp add: assms(5))
  have "same_position p (f y) = same_position p y" for y by (simp add: same_position_key assms(3))
  then have "filter (\<lambda>y. \<not> same_position p y) (update_where (same_position p) f rows) =
      filter (\<lambda>y. \<not> same_position p y) rows" for rows
    by (induction rows) auto
  then show "filter (\<lambda>y. \<not> same_position p y) (t_collateral_positions s') =
         filter (\<lambda>y. \<not> same_position p y) ?rows" by (simp add: assms(5))
qed

lemma move_position_effect:
  assumes ok: "positions_ok s" and run: "move_position e p amount s = Inr (position, s')" and "0 < amount"
  shows "positions_ok s' \<and> find (same_position p) (t_collateral_positions s') = Some position \<and>
         position_net position = net_of p s + signed_flow (co_eventType p) amount \<and>
         filter (\<lambda>y. \<not> same_position p y) (t_collateral_positions s') =
           filter (\<lambda>y. \<not> same_position p y) (t_collateral_positions s)"
proof (cases "co_eventType p")
  case Deposit
  show ?thesis
  proof (cases "find (same_position p) (t_collateral_positions s)")
    case None
    with run Deposit have s': "position = new_position e p amount"
      "s' = s\<lparr>t_collateral_positions := t_collateral_positions s @ [position]\<rparr>"
      by (auto simp: move_position_def deposit_position_def thenT_success)
    have none: "\<forall>x \<in> set (t_collateral_positions s). \<not> same_position p x"
      using None by (simp add: find_None_iff)
    moreover have "same_position p position" by (simp add: s'(1) same_position_key)
    moreover have "position_key position \<notin> position_key ` set (t_collateral_positions s)"
      using none by (auto simp: s'(1) same_position_key)
    ultimately show ?thesis
      using ok None Deposit assms(3)
      by (simp add: positions_ok_def s' find_append net_of_def signed_flow_def)
  next
    case (Some x)
    with run Deposit have s': "position = add_deposit e amount x"
      "s' = s\<lparr>t_collateral_positions := update_where (same_position p) (add_deposit e amount) (t_collateral_positions s)\<rparr>"
      by (auto simp: move_position_def deposit_position_def thenT_success)
    have "0 \<le> position_net x"
      using ok find_Some_mem [OF Some] by (auto simp: positions_ok_def list_all_iff)
    then have "0 \<le> position_net (add_deposit e amount x)" using assms(3) by simp
    note upd = update_same_position [OF ok Some position_changes(1) this s'(2)]
    then show ?thesis using Deposit by (simp add: s'(1) net_of_def Some signed_flow_def)
  qed
next
  case Withdraw
  with run obtain x where f: "find (can_withdraw p amount) (t_collateral_positions s) = Some x"
    and s': "position = add_withdrawal e amount x"
      "s' = s\<lparr>t_collateral_positions := update_where (can_withdraw p amount) (add_withdrawal e amount) (t_collateral_positions s)\<rparr>"
    by (auto simp: move_position_def withdraw_position_def thenT_success split: option.splits)
  have x: "x \<in> set (t_collateral_positions s)" "can_withdraw p amount x" using find_Some_mem [OF f] by auto
  have uniq: "y = x" if "y \<in> set (t_collateral_positions s)" "same_position p y" for y
    using that x ok by (auto simp: positions_ok_def distinct_map inj_on_def same_position_key can_withdraw_def)
  have fx: "find (same_position p) (t_collateral_positions s) = Some x"
  proof (rule find_Some_unique [OF x(1)])
    show "same_position p x" using x(2) by (simp add: can_withdraw_def)
  qed (rule uniq)
  have "update_where (can_withdraw p amount) (add_withdrawal e amount) (t_collateral_positions s) =
      update_where (same_position p) (add_withdrawal e amount) (t_collateral_positions s)"
    unfolding update_where_def using x uniq by (intro map_cong) (auto simp: can_withdraw_def)
  note s'2 = s'(2) [unfolded this]
  have "0 \<le> position_net (add_withdrawal e amount x)"
    using x(2) by (simp add: can_withdraw_def position_net_def add_withdrawal_def)
  note upd = update_same_position [OF ok fx position_changes(3) this s'2]
  then show ?thesis using Withdraw by (simp add: s'(1) net_of_def fx signed_flow_def)
qed

section \<open>Retries\<close>

definition collateral_recorded :: "collateral_params \<Rightarrow> db \<Rightarrow> bool" where
  "collateral_recorded p s = (find (same_collateral_reference p) (t_collateral_events s) \<noteq> None)"

definition run_collateral :: "env \<Rightarrow> collateral_params \<Rightarrow> db \<Rightarrow> (error + collateral_result) \<times> db" where
  "run_collateral e p = withTransaction (applyKizunaCollateralEvent e p)"

lemma collateral_recorded_replay:
  assumes "collateral_recorded p s"
  shows "applyKizunaCollateralEvent e p s = replay_collateral p s" and "snd (run_collateral e p s) = s"
proof -
  show "applyKizunaCollateralEvent e p s = replay_collateral p s"
    using assms by (auto simp: applyKizunaCollateralEvent_def collateral_recorded_def)
  then show "snd (run_collateral e p s) = s"
    by (auto simp: run_collateral_def withTransaction_def replay_collateral_def split: option.splits)
qed

lemma collateral_cases:
  assumes "applyKizunaCollateralEvent e p s = Inr (res, s')" and "\<not> cr_idempotent res"
  obtains asset where "t_collateral_assets s (co_assetId p) = Some asset" "ca_active asset"
    "0 < parseMicro (Some (co_amountMicro p))"
    "new_collateral e p asset (parseMicro (Some (co_amountMicro p))) s = Inr (res, s')"
  using assms
  by (auto simp: applyKizunaCollateralEvent_def replay_collateral_def Let_def
      split: option.splits if_splits)

interpretation collateral: idempotent_operation run_collateral collateral_recorded
proof
  show "collateral_recorded p s'" if "run_collateral e p s = (Inr r, s')" for e p s r s'
  proof (cases "collateral_recorded p s")
    case True
    then have "snd (run_collateral e p s) = s" by (rule collateral_recorded_replay)
    with True that show ?thesis by simp
  next
    case False
    have run: "applyKizunaCollateralEvent e p s = Inr (r, s')"
      using that by (simp add: run_collateral_def withTransaction_success)
    with False obtain asset amount where "new_collateral e p asset amount s = Inr (r, s')"
      by (auto simp: applyKizunaCollateralEvent_def collateral_recorded_def Let_def split: option.splits if_splits)
    then have "\<exists>evs v. t_collateral_events s' = evs @ [v] \<and> same_collateral_reference p v"
      by (rule new_collateral_stages) blast
    then show ?thesis by (auto simp: collateral_recorded_def find_None_iff)
  qed
  show "snd (run_collateral e p s) = s" if "collateral_recorded p s" for e p s
    using that by (rule collateral_recorded_replay(2))
  show "s' = s" if "run_collateral e p s = (Inl err, s')" for e p s err s'
    using that by (simp add: run_collateral_def withTransaction_failure)
qed

section \<open>Properties\<close>

text \<open>
  A collateral event moves exactly one position by exactly its amount: a deposit adds it, a
  withdrawal takes it and only from free collateral; every other position stays, no position becomes
  negative, and the credit ledger stays consistent.
\<close>

theorem collateral_moves_position:
  assumes ok: "positions_ok s" "ledger_ok s"
    and run: "applyKizunaCollateralEvent e p s = Inr (res, s')" and new: "\<not> cr_idempotent res"
  shows "let amount = parseMicro (Some (co_amountMicro p)) in
         0 < amount \<and> net_of p s' = net_of p s + signed_flow (co_eventType p) amount \<and> 0 \<le> net_of p s' \<and>
         find (same_position p) (t_collateral_positions s') = Some (cr_position res) \<and>
         filter (\<lambda>y. \<not> same_position p y) (t_collateral_positions s') =
           filter (\<lambda>y. \<not> same_position p y) (t_collateral_positions s) \<and>
         positions_ok s' \<and> ledger_ok s'"
proof -
  from run new obtain asset where pos: "0 < parseMicro (Some (co_amountMicro p))"
    and nc: "new_collateral e p asset (parseMicro (Some (co_amountMicro p))) s = Inr (res, s')"
    by (rule collateral_cases)
  from nc obtain s1 where m: "move_position e p (parseMicro (Some (co_amountMicro p))) s = Inr (cr_position res, s1)"
    and same: "t_collateral_positions s' = t_collateral_positions s1"
    by (rule new_collateral_stages)
  note eff = move_position_effect [OF ok(1) m pos]
  have pok: "positions_ok s'" using eff by (simp add: positions_ok_def same)
  have "cr_position res \<in> set (t_collateral_positions s1)"
    using eff find_Some_mem by metis
  with pok have "0 \<le> position_net (cr_position res)"
    by (simp add: positions_ok_def list_all_iff same)
  then show ?thesis
    using eff pos pok collateral_ledger_ok [OF ok(2) run] by (simp add: Let_def net_of_def same)
qed

text \<open>
  A collateral reference is consumed for good: once an event with a reference has committed, any
  later request of the agent with the same reference leaves the database unchanged, also one with another
  amount, another position or the opposite direction; unlike funding it is never refused as a conflict.
\<close>

theorem collateral_reference_shadows:
  assumes "withTransaction (applyKizunaCollateralEvent e p) s = (Inr res, s')"
    and "co_agentId q = co_agentId p" and "co_referenceId q = co_referenceId p"
  shows "snd (withTransaction (applyKizunaCollateralEvent e' q) s') = s' \<and>
         fst (withTransaction (applyKizunaCollateralEvent e' q) s') \<in>
           {Inl (Thrown ''kizuna_collateral_state_missing'')} \<union> {Inr r | r. cr_idempotent r}"
proof -
  have "same_collateral_reference q = same_collateral_reference p"
    using assms(2,3) by (simp add: same_collateral_reference_def fun_eq_iff)
  moreover have "collateral_recorded p s'"
    using collateral.commit_records [of e p s res s'] assms(1) by (simp add: run_collateral_def)
  ultimately have rec: "collateral_recorded q s'" by (simp add: collateral_recorded_def)
  have "snd (run_collateral e' q s') = s'" by (rule collateral_recorded_replay(2) [OF rec])
  moreover have "fst (withTransaction (replay_collateral q) s') \<in>
      {Inl (Thrown ''kizuna_collateral_state_missing'')} \<union> {Inr r | r. cr_idempotent r}"
    by (auto simp: withTransaction_def replay_collateral_def split: option.splits)
  ultimately show ?thesis
    by (simp add: run_collateral_def withTransaction_def collateral_recorded_replay(1) [OF rec])
qed

lemma effective_value_scaled:
  "position_available x * (10000 - ca_haircut_bps a) < 10 ^ 20 \<Longrightarrow> 0 < pg_scale (effective_value a x)"
  unfolding effective_value_def by (rule div_10000_scaled) simp

text \<open>
   The collateral summary and position lookups report no effective collateral at all: for amounts
  below ten billion USDC the SQL quotient is a text with a decimal point, which \<open>parseMicro\<close> reads as
  zero, whatever was deposited.
\<close>

theorem summary_reports_no_collateral:
  assumes "\<forall>x \<in> set (t_collateral_positions s). position_available x < 10 ^ 16"
    and "\<forall>a. t_collateral_assets s a \<noteq> None \<longrightarrow> 0 \<le> ca_haircut_bps (the (t_collateral_assets s a)) \<and>
                ca_haircut_bps (the (t_collateral_assets s a)) \<le> 10000"
    and "getKizunaCollateralSummary agentId poolId s = Some summary"
    and "getKizunaCollateralPosition agentId poolId account s = Some position"
  shows "cs_effectiveCollateralMicro summary = numeric_text 0 \<and> cs_ltvBps summary = 0 \<and>
         pv_effectiveCollateralMicro position = numeric_text 0"
proof -
  let ?A = "t_collateral_assets s"
  have scaled: "0 < pg_scale (effective_value (snd x) (fst x))"
    if "x \<in> set (join_assets ?A rows)" "set rows \<subseteq> set (t_collateral_positions s)" for x rows
  proof -
    have "fst x \<in> set rows \<and> ?A (cp_asset_id (fst x)) = Some (snd x)"
      using that(1) by (induction rows) (auto split: option.splits)
    then have "fst x \<in> set (t_collateral_positions s)" "0 \<le> ca_haircut_bps (snd x)" "ca_haircut_bps (snd x) \<le> 10000"
      using that(2) assms(2) by (auto dest: spec [of _ "cp_asset_id (fst x)"])
    moreover then have "position_available (fst x) < 10 ^ 16" using assms(1) by blast
    moreover have "0 \<le> position_available (fst x)" by (simp add: position_available_def)
    ultimately have "position_available (fst x) * (10000 - ca_haircut_bps (snd x)) \<le> position_available (fst x) * 10000"
      by (intro mult_left_mono) auto
    with \<open>position_available (fst x) < 10 ^ 16\<close>
    show ?thesis by (intro effective_value_scaled) simp
  qed
  define Q :: "collateral_position \<Rightarrow> bool"
    where "Q = (\<lambda>x. cp_agent_id x = agentId \<and> cp_pool_id x = poolId \<and> cp_status x = PositionActive)"
  define rows where "rows = join_assets ?A (filter Q (t_collateral_positions s))"
  have "parseMicro (Some (pg_text (pg_sum (map (\<lambda>x. effective_value (snd x) (fst x)) rows)))) = 0"
  proof (cases rows)
    case Nil
    then show ?thesis by (simp add: pg_sum_def pg_int_def parseMicro_unscaled)
  next
    case (Cons x xs)
    then have "0 < pg_scale (effective_value (snd x) (fst x))"
      using scaled [of x "filter Q (t_collateral_positions s)"] by (simp add: rows_def)
    with Cons show ?thesis by (intro parseMicro_scaled pg_scale_sum) simp_all
  qed
  then have s0: "cs_effectiveCollateralMicro summary = numeric_text 0 \<and> cs_ltvBps summary = 0"
    using assms(3) by (auto simp: getKizunaCollateralSummary_def Let_def rows_def Q_def ltv_of_def
        split: option.splits)
  have "parseMicro (Some (av_effectiveCollateralMicro (asset_view_of x))) = 0"
    if "x \<in> set (join_assets ?A (filter R (t_collateral_positions s)))" for x R
    using scaled [OF that] by (simp add: asset_view_of_def parseMicro_scaled)
  then have "sum_list (map (\<lambda>r. parseMicro (Some (av_effectiveCollateralMicro r)))
      (map asset_view_of (join_assets ?A (filter R (t_collateral_positions s))))) = 0" for R
    unfolding map_map by (subst map_cong [OF refl, of _ _ "\<lambda>_. 0"]) simp_all
  with s0 assms(4) show ?thesis
    by (auto simp: getKizunaCollateralPosition_def Let_def split: if_splits)
qed

section \<open>Witnesses\<close>

definition sample_collateral :: "flow \<Rightarrow> collateral_params" where
  "sample_collateral f =
     \<lparr>co_agentId = ''agent-1'', co_lane = CryptoFast, co_poolId = ''fastpath-main'',
      co_collateralAccount = ''vault'', co_assetId = ''usdc'', co_amountMicro = ''40'', co_eventType = f,
      co_referenceId = ''c1'', co_txHash = None\<rparr>"

definition sample_deposited :: db where
  "sample_deposited = run_state (applyKizunaCollateralEvent (sample_env 7) (sample_collateral Deposit)) sample_ledger"

lemma sample_collateral_run:
  obtains res where "applyKizunaCollateralEvent (sample_env 7) (sample_collateral Deposit) sample_ledger = Inr (res, sample_deposited)"
    and "\<not> cr_idempotent res"
proof -
  have "\<exists>res. applyKizunaCollateralEvent (sample_env 7) (sample_collateral Deposit) sample_ledger = Inr (res, sample_deposited)"
    unfolding sample_deposited_def by (rule run_state_success) code_simp
  then obtain res where run: "applyKizunaCollateralEvent (sample_env 7) (sample_collateral Deposit) sample_ledger = Inr (res, sample_deposited)"
    by blast
  have "find (same_collateral_reference (sample_collateral Deposit)) (t_collateral_events sample_ledger) = None"
    by code_simp
  with run obtain asset amount where
    "new_collateral (sample_env 7) (sample_collateral Deposit) asset amount sample_ledger = Inr (res, sample_deposited)"
    by (auto simp: applyKizunaCollateralEvent_def Let_def split: option.splits if_splits)
  then have "\<not> cr_idempotent res" by (rule new_collateral_stages)
  with run that show thesis by blast
qed

theorem collateral_moves_position_witness:
  "net_of (sample_collateral Deposit) sample_deposited = net_of (sample_collateral Deposit) sample_ledger + 40"
proof -
  obtain res where run: "applyKizunaCollateralEvent (sample_env 7) (sample_collateral Deposit) sample_ledger = Inr (res, sample_deposited)"
    and new: "\<not> cr_idempotent res" by (rule sample_collateral_run)
  have "positions_ok sample_ledger" by code_simp
  moreover have "parseMicro (Some (co_amountMicro (sample_collateral Deposit))) = 40" by code_simp
  ultimately show ?thesis
    using collateral_moves_position [OF _ ledger_ok_sample run new]
    by (simp add: Let_def sample_collateral_def signed_flow_def)
qed

theorem collateral_reference_shadows_witness:
  "snd (withTransaction (applyKizunaCollateralEvent (sample_env 9) (sample_collateral Withdraw)) sample_deposited)
     = sample_deposited"
proof -
  obtain res where run: "applyKizunaCollateralEvent (sample_env 7) (sample_collateral Deposit) sample_ledger = Inr (res, sample_deposited)"
    by (rule sample_collateral_run)
  have "withTransaction (applyKizunaCollateralEvent (sample_env 7) (sample_collateral Deposit)) sample_ledger =
      (Inr res, sample_deposited)" by (simp add: run)
  then show ?thesis
    using collateral_reference_shadows [of "sample_env 7" "sample_collateral Deposit" sample_ledger res
        sample_deposited "sample_collateral Withdraw" "sample_env 9"]
    by (simp add: sample_collateral_def)
qed

definition sample_position :: collateral_position where
  "sample_position = new_position (sample_env 7) (sample_collateral Deposit) 5000000"

definition sample_secured :: db where
  "sample_secured = sample_ledger\<lparr>t_collateral_positions := [sample_position]\<rparr>"

theorem summary_reports_no_collateral_witness:
  "\<exists>summary position.
     getKizunaCollateralSummary ''agent-1'' ''fastpath-main'' sample_secured = Some summary \<and>
     getKizunaCollateralPosition ''agent-1'' ''fastpath-main'' ''vault'' sample_secured = Some position \<and>
     pv_totalAvailableMicro position = numeric_text 5000000 \<and>
     pv_effectiveCollateralMicro position = numeric_text 0 \<and> cs_effectiveCollateralMicro summary = numeric_text 0"
proof -
  obtain summary where s: "getKizunaCollateralSummary ''agent-1'' ''fastpath-main'' sample_secured = Some summary"
    by (simp add: getKizunaCollateralSummary_def getKizunaPoolReserve_def sample_secured_def sample_ledger_def
        seed_db_def Let_def)
  obtain position where p: "getKizunaCollateralPosition ''agent-1'' ''fastpath-main'' ''vault'' sample_secured = Some position"
    and t: "pv_totalAvailableMicro position = numeric_text 5000000"
    by (simp add: getKizunaCollateralPosition_def sample_secured_def sample_ledger_def seed_db_def Let_def
        sample_position_def new_position_def sample_collateral_def asset_view_of_def position_available_def)
  have h1: "\<forall>x \<in> set (t_collateral_positions sample_secured). position_available x < 10 ^ 16"
    by (simp add: sample_secured_def sample_position_def new_position_def position_available_def)
  have h2: "\<forall>a. t_collateral_assets sample_secured a \<noteq> None \<longrightarrow>
      0 \<le> ca_haircut_bps (the (t_collateral_assets sample_secured a)) \<and>
      ca_haircut_bps (the (t_collateral_assets sample_secured a)) \<le> 10000"
    by (simp add: sample_secured_def sample_ledger_def seed_db_def)
  show ?thesis
    using summary_reports_no_collateral [OF h1 h2 s p] s p t by blast
qed

end
