(* ===== verification/Ledger_System.thy ===== *)
theory Ledger_System
  imports Repayment Funding Collateral
begin

text \<open>
  The ledger as a state machine.  A step is one database operation of the service, committed or
  rolled back; PostgreSQL's row locks and unique constraints serialise the transactions that touch
  the same rows, so a run of the service is a sequence of such steps in some order.
\<close>

section \<open>Accounts\<close>

text \<open>
  \<open>upsertKizunaAccount\<close>, without the registry columns: an existing account keeps its status and
  creation time.
\<close>

definition mandate_ok :: "int option \<Rightarrow> bool" where
  "mandate_ok v = (case v of None \<Rightarrow> True | Some n \<Rightarrow> numeric30 n)"

definition upsertKizunaAccount :: "env \<Rightarrow> kizuna_account \<Rightarrow> (db, kizuna_account) tx" where
  "upsertKizunaAccount e params = (\<lambda>s.
     let row = (case t_accounts s (a_agent_id params) of
                  None \<Rightarrow> params\<lparr>a_status := AccountActive, a_created_at := env_now e, a_updated_at := env_now e\<rparr>
                | Some old \<Rightarrow> params\<lparr>a_status := a_status old, a_created_at := a_created_at old,
                                    a_updated_at := env_now e\<rparr>)
     in if mandate_ok (a_mandate_single_limit_micro params) \<and> mandate_ok (a_mandate_daily_limit_micro params) \<and>
           mandate_ok (a_mandate_monthly_limit_micro params) \<and> mandate_ok (a_mandate_human_approval_micro params)
        then Inr (row, s\<lparr>t_accounts := (t_accounts s)(a_agent_id params \<mapsto> row)\<rparr>)
        else Inl (Pg (CheckViolation ''kizuna_accounts'')))"

section \<open>Steps\<close>

text \<open>
  A settlement is finalised under the id of a \<open>settlements\<close> row that \<open>routes/settle.ts\<close> inserts for
  that purpose just before, so no debt carries that id yet.
\<close>

inductive ledger_step :: "db \<Rightarrow> db \<Rightarrow> bool" where
  step_account: "ledger_step s (snd (withTransaction (upsertKizunaAccount e a) s))"
| step_decision: "ledger_step s (snd (withTransaction (insertKizunaUnderwriteDecision e uid d) s))"
| step_create: "ledger_step s (snd (withTransaction (createKizunaReservation e uid p) s))"
| step_release:
    "st = Released \<or> st = Expired \<Longrightarrow>
     ledger_step s (snd (withTransaction (releaseKizunaReservation e rid st) s))"
| step_settlement:
    "ledger_step s (snd (withTransaction (insertSettlement e uid m w amt fee asset tx sst net) s))"
| step_settlement_status: "ledger_step s (snd (withTransaction (updateSettlementStatus sid sst txo) s))"
| step_finalize:
    "fz_settlementId f \<notin> d_settlement_id ` set (t_debts s) \<Longrightarrow>
     ledger_step s (snd (withTransaction (finalizeKizunaSettlement e f) s))"
| step_repay: "ledger_step s (snd (withTransaction (applyKizunaRepayment e q) s))"
| step_fund: "ledger_step s (snd (withTransaction (applyKizunaFundingEvent e g) s))"
| step_collateral: "ledger_step s (snd (withTransaction (applyKizunaCollateralEvent e c) s))"
| step_outbox: "outbox_step s s' \<Longrightarrow> ledger_step s s'"

inductive_cases ledger_stepE: "ledger_step s s'"

lemma outbox_step_frame: "outbox_step s s' \<Longrightarrow> \<exists>rows. s' = s\<lparr>t_outbox := rows\<rparr>"
proof (erule outbox_stepE)
  fix e ids st u
  assume "markFairscaleTrustEventsDelivered e ids st s = Inr (u, s')"
  moreover have "\<exists>rows. s = s\<lparr>t_outbox := rows\<rparr>" by (rule exI [of _ "t_outbox s"]) simp
  ultimately show "\<exists>rows. s' = s\<lparr>t_outbox := rows\<rparr>"
    by (auto simp: markFairscaleTrustEventsDelivered_def split: if_splits)
qed (auto dest: queue_success simp: lease_eq Let_def markFairscaleTrustEventAttemptFailed_def
     requeueFairscaleTrustEvents_def)

lemma account_frame:
  "upsertKizunaAccount e a s = Inr (row, s') \<Longrightarrow> \<exists>A. s' = s\<lparr>t_accounts := A\<rparr>"
  by (auto simp: upsertKizunaAccount_def Let_def split: if_splits)

lemma insertSettlement_frame:
  "insertSettlement e uid m w amt fee asset tx sst net s = Inr (row, s') \<Longrightarrow>
   s' = s\<lparr>t_settlements := t_settlements s @ [row]\<rparr> \<and> st_id row = uid \<and> uid \<notin> st_id ` set (t_settlements s)"
  by (auto simp: insertSettlement_def Let_def thenT_success)

lemma updateSettlementStatus_frame:
  "updateSettlementStatus sid sst txo s = Inr (row, s') \<Longrightarrow> \<exists>S. s' = s\<lparr>t_settlements := S\<rparr>"
  by (auto simp: updateSettlementStatus_def)

section \<open>Every debt has its own settled reservation\<close>

definition debt_links_ok :: "db \<Rightarrow> bool" where
  "debt_links_ok s =
     (distinct (filter (\<lambda>x. x \<noteq> None) (map d_reservation_id (t_debts s))) \<and>
      (\<forall>rid. Some rid \<in> d_reservation_id ` set (t_debts s) \<longrightarrow>
         (\<exists>r \<in> set (t_reservations s). r_id r = rid \<and> r_status r = Consumed)))"

lemma debt_linkD:
  "debt_links_ok s \<Longrightarrow> Some rid \<in> d_reservation_id ` set (t_debts s) \<Longrightarrow>
   \<exists>r \<in> set (t_reservations s). r_id r = rid \<and> r_status r = Consumed"
  by (simp add: debt_links_ok_def)

definition sys_ok :: "db \<Rightarrow> bool" where
  "sys_ok s = (ledger_ok s \<and> debt_links_ok s)"

text \<open>How a step may change the reservations: new rows, and rows that were \<open>reserved\<close>.\<close>

definition settled_rows_kept :: "db \<Rightarrow> db \<Rightarrow> bool" where
  "settled_rows_kept s s' =
     (\<forall>r \<in> set (t_reservations s). r_status r \<noteq> Reserved \<longrightarrow> r \<in> set (t_reservations s'))"

lemma settled_rows_kept_same: "t_reservations s' = t_reservations s \<Longrightarrow> settled_rows_kept s s'"
  by (simp add: settled_rows_kept_def)

lemma settled_rows_kept_update:
  assumes "reservations_ok s" and "r \<in> set (t_reservations s)" and "r_status r = Reserved"
    and "t_reservations s' = update_where (\<lambda>x. r_id x = r_id r) f (t_reservations s)"
  shows "settled_rows_kept s s'"
proof -
  have "r_id x \<noteq> r_id r" if "x \<in> set (t_reservations s)" "r_status x \<noteq> Reserved" for x
    using that assms(1-3) by (auto simp: reservations_ok_def distinct_map inj_on_def)
  then show ?thesis by (force simp: settled_rows_kept_def assms(4) set_update_where)
qed

lemma debt_links_mono:
  assumes "debt_links_ok s" and "settled_rows_kept s s'"
    and "map d_reservation_id (t_debts s') = map d_reservation_id (t_debts s)"
  shows "debt_links_ok s'"
proof -
  have "\<exists>r \<in> set (t_reservations s'). r_id r = rid \<and> r_status r = Consumed"
    if "Some rid \<in> d_reservation_id ` set (t_debts s')" for rid
  proof -
    have "Some rid \<in> set (map d_reservation_id (t_debts s))" using that assms(3) by (metis list.set_map)
    then obtain r where "r \<in> set (t_reservations s)" "r_id r = rid" "r_status r = Consumed"
      using debt_linkD [OF assms(1)] by auto
    with assms(2) show ?thesis by (auto simp: settled_rows_kept_def)
  qed
  with assms(1,3) show ?thesis
    by (simp add: debt_links_ok_def)
qed

lemma repay_loop_links:
  assumes "repay_loop e rows acc s = Inr (acc', s')" and "debts_ok s" and "payable s rows"
  shows "map d_reservation_id (t_debts s') = map d_reservation_id (t_debts s)"
proof -
  have "map d_reservation_id (t_debts s') = map d_reservation_id (t_debts s) \<and> debts_ok s'"
  proof (rule repay_loop_rule [OF assms])
    show "map d_reservation_id (t_debts (set_debt (d_id d) (pay_row e (d_outstanding_micro d - pay)) t)) =
        map d_reservation_id (t_debts s)"
      if "map d_reservation_id (t_debts t) = map d_reservation_id (t_debts s)" for d t and pay :: int
      using that by (simp add: set_debt_def map_update_where pay_row_def)
  qed simp
  then show ?thesis by simp
qed

section \<open>One step\<close>

definition good_step :: "db \<Rightarrow> db \<Rightarrow> bool" where
  "good_step s s' = (sys_ok s' \<and> settled_rows_kept s s')"

lemma good_step_refl: "sys_ok s \<Longrightarrow> good_step s s"
  by (simp add: good_step_def settled_rows_kept_def)

lemma good_step_tx:
  assumes "sys_ok s" and "\<And>a s'. m s = Inr (a, s') \<Longrightarrow> good_step s s'"
  shows "good_step s (snd (withTransaction m s))"
  using assms good_step_refl by (auto simp: withTransaction_def split: sum.splits)

lemma good_step_frame:
  assumes "sys_ok s" and "ledger_ok s'" and "t_reservations s' = t_reservations s"
    and "map d_reservation_id (t_debts s') = map d_reservation_id (t_debts s)"
  shows "good_step s s'"
  using assms debt_links_mono [OF _ settled_rows_kept_same [OF assms(3)] assms(4)]
  by (simp add: good_step_def sys_ok_def settled_rows_kept_same)

lemma good_create:
  assumes ok: "sys_ok s" and run: "createKizunaReservation e uid p s = Inr (row, s')"
  shows "good_step s s'"
proof -
  have kept: "settled_rows_kept s s'" by (simp add: settled_rows_kept_def create_effect(1) [OF run])
  have "t_debts s' = t_debts s" using create_effect(3) [OF run] by (simp add: same_debt_side_def)
  with kept ok create_ledger_ok [OF _ run] show ?thesis
    by (auto simp: good_step_def sys_ok_def intro: debt_links_mono)
qed

lemma good_release:
  assumes ok: "sys_ok s" and st: "st = Released \<or> st = Expired"
    and run: "releaseKizunaReservation e rid st s = Inr (u, s')"
  shows "good_step s s'"
proof (cases "\<exists>r \<in> set (t_reservations s). r_id r = rid \<and> r_status r = Reserved")
  case True
  then obtain r where r: "r \<in> set (t_reservations s)" "r_id r = rid" "r_status r = Reserved" by blast
  have lok: "ledger_ok s" and rok: "reservations_ok s"
    using ok ledger_okD(1) by (auto simp: sys_ok_def)
  have rc: "return_credit e r (set_reservation (r_id r) (set_status e st) s) = Inr (u, s')"
    using run release_unfold [OF rok r(1,3)] r(2) by simp
  have kept: "settled_rows_kept s s'"
    by (rule settled_rows_kept_update [OF rok r(1,3) return_credit_effect(1) [OF rok r(1) rc]])
  have "t_debts s' = t_debts s"
    using return_credit_effect(3) [OF rok r(1) rc] by (simp add: same_debt_side_def)
  with kept ok release_ledger_ok [OF lok st run] show ?thesis
    by (auto simp: good_step_def sys_ok_def intro: debt_links_mono)
next
  case False
  then have "releaseKizunaReservation e rid st s = Inr ((), s)" by (intro release_no_effect) blast
  with run ok show ?thesis by (simp add: good_step_refl)
qed

lemma good_finalize:
  assumes ok: "sys_ok s" and fresh: "fz_settlementId p \<notin> d_settlement_id ` set (t_debts s)"
    and run: "finalizeKizunaSettlement e p s = Inr (res, s')"
  shows "good_step s s'"
proof -
  have lok: "ledger_ok s" and rok: "reservations_ok s" and links: "debt_links_ok s"
    using ok ledger_okD(1) by (auto simp: sys_ok_def)
  from run obtain r d where ld: "load_reservation (fz_reservationId p) s = Some (r, d)"
    and st: "r_status r = Reserved" and live: "finalize_live e p r d s = Inr (res, s')"
    by (rule finalize_success)
  note r = load_reservation_Some(1) [OF ld]
  have nonneg: "0 \<le> r_amount_micro r" "0 \<le> r_locked_micro r" using reservations_okD [OF rok r] by simp_all
  note eff = finalize_live_effect [OF live nonneg fresh]
  have kept: "settled_rows_kept s s'" by (rule settled_rows_kept_update [OF rok r st eff(1)])
  have "debt_links_ok s'"
  proof (cases "isPrefundedEnterprise r")
    case True
    then show ?thesis by (intro debt_links_mono [OF links kept]) (simp add: eff(2))
  next
    case False
    have "r_id x \<noteq> r_id r" if "x \<in> set (t_reservations s)" "r_status x = Consumed" for x
      using that r st rok by (auto simp: reservations_ok_def distinct_map inj_on_def)
    then have new: "Some (r_id r) \<notin> d_reservation_id ` set (t_debts s)"
      using debt_linkD [OF links] by blast
    have "debt_links_ok (s'\<lparr>t_debts := t_debts s\<rparr>)"
      by (rule debt_links_mono [OF links]) (use kept in \<open>simp_all add: settled_rows_kept_def\<close>)
    moreover have "consume_row e p r \<in> set (t_reservations s')"
      using r by (auto simp: eff(1) set_update_where)
    moreover have "r_id (consume_row e p r) = r_id r" by (simp add: consume_row_def)
    ultimately show ?thesis
      using new False
      by (auto simp: debt_links_ok_def eff(2) new_debt_def intro!: bexI [of _ "consume_row e p r"])
  qed
  with finalize_ledger_ok [OF lok run fresh] kept show ?thesis by (simp add: good_step_def sys_ok_def)
qed

lemma good_repay:
  assumes ok: "sys_ok s" and run: "applyKizunaRepayment e q s = Inr (res, s')"
  shows "good_step s s'"
proof (cases "getKizunaRepaymentByReference (rq_agentId q) (rq_referenceId q) s")
  case (Some row)
  with run have "s' = s" by (auto simp: applyKizunaRepayment_def)
  with ok show ?thesis by (simp add: good_step_refl)
next
  case None
  have lok: "ledger_ok s" using ok by (simp add: sys_ok_def)
  have new: "repay_new e q s = Inr (res, s')" using run None by (simp add: applyKizunaRepayment_def)
  show ?thesis
  proof (rule repay_new_effect [OF lok new])
    fix acc
    assume res: "t_reservations s' = t_reservations s" and ok': "ledger_ok s'"
      and "\<exists>s1. repay_loop e (open_debts q s) (repay_start q) s = Inr (acc, s1) \<and> t_debts s' = t_debts s1"
    then obtain s1 where lp: "repay_loop e (open_debts q s) (repay_start q) s = Inr (acc, s1)"
      and d: "t_debts s' = t_debts s1" by blast
    have "map d_reservation_id (t_debts s') = map d_reservation_id (t_debts s)"
      unfolding d
      by (rule repay_loop_links [OF lp ledger_okD(2) [OF lok] payable_open_debts [OF ledger_okD(2) [OF lok]]])
    with ok ok' res show ?thesis by (intro good_step_frame)
  qed
qed

lemma good_fund:
  assumes ok: "sys_ok s" and run: "applyKizunaFundingEvent e g s = Inr (res, s')"
  shows "good_step s s'"
proof (cases "fg_idempotent res")
  case True
  with funding_cases [OF run] ok show ?thesis by (auto intro: good_step_refl)
next
  case False
  with funding_cases [OF run] have new: "new_funding e g (parseMicro (Some (fd_amountMicro g))) s = Inr (res, s')"
    by auto
  have lok: "ledger_ok s" using ok by (simp add: sys_ok_def)
  have "t_debts s' = t_debts s" using new by (elim new_funding_effect) (auto dest!: mutate_success(1))
  with ok new_funding_ledger_ok [OF lok new] show ?thesis by (intro good_step_frame) simp_all
qed

lemma good_collateral:
  assumes ok: "sys_ok s" and run: "applyKizunaCollateralEvent e c s = Inr (res, s')"
  shows "good_step s s'"
proof (cases "cr_idempotent res")
  case True
  have "s' = s"
  proof (cases "collateral_recorded c s")
    case True
    then show ?thesis
      using run collateral_recorded_replay(1) [OF True]
      by (auto simp: replay_collateral_def split: option.splits)
  next
    case False
    with run \<open>cr_idempotent res\<close> show ?thesis
      by (auto simp: applyKizunaCollateralEvent_def collateral_recorded_def Let_def
          split: option.splits if_splits elim: new_collateral_stages)
  qed
  with ok show ?thesis by (simp add: good_step_refl)
next
  case False
  from run False obtain asset where
    new: "new_collateral e c asset (parseMicro (Some (co_amountMicro c))) s = Inr (res, s')"
    by (rule collateral_cases)
  have lok: "ledger_ok s" using ok by (simp add: sys_ok_def)
  from new obtain s1 where m: "move_position e c (parseMicro (Some (co_amountMicro c))) s = Inr (cr_position res, s1)"
    and tabs: "t_reservations s' = t_reservations s1" "t_debts s' = t_debts s1"
    by (rule new_collateral_stages)
  obtain P where "s1 = s\<lparr>t_collateral_positions := P\<rparr>" using move_position_success [OF m] by blast
  with ok tabs collateral_ledger_ok [OF lok run] show ?thesis by (intro good_step_frame) simp_all
qed

lemma good_frame_only:
  assumes "sys_ok s" and "t_reservations s' = t_reservations s" and "t_debts s' = t_debts s"
    and "t_repayments s' = t_repayments s" and "t_pool_reserves s' = t_pool_reserves s"
    and "t_enterprise_balances s' = t_enterprise_balances s"
    and "t_funding_events s' = t_funding_events s"
  shows "good_step s s'"
  using assms ledger_ok_frame [of s s'] by (intro good_step_frame) (simp_all add: sys_ok_def)

lemma ledger_step_good: "ledger_step s s' \<Longrightarrow> sys_ok s \<Longrightarrow> good_step s s'"
proof (erule ledger_stepE)
  assume ok: "sys_ok s"
  show "good_step s s'" if "s' = snd (withTransaction (upsertKizunaAccount e a) s)" for e a
    unfolding that by (rule good_step_tx [OF ok]) (auto dest!: account_frame intro!: good_frame_only ok)
  show "good_step s s'" if "s' = snd (withTransaction (insertKizunaUnderwriteDecision e uid d) s)" for e uid d
    unfolding that by (rule good_step_tx [OF ok])
      (auto dest!: insert_decision_success(2) intro!: good_frame_only ok)
  show "good_step s s'" if "s' = snd (withTransaction (createKizunaReservation e uid p) s)" for e uid p
    unfolding that by (rule good_step_tx [OF ok]) (rule good_create [OF ok])
  show "good_step s s'" if "s' = snd (withTransaction (releaseKizunaReservation e rid st) s)"
    "st = Released \<or> st = Expired" for e rid st
    unfolding that(1) by (rule good_step_tx [OF ok]) (rule good_release [OF ok that(2)])
  show "good_step s s'"
    if "s' = snd (withTransaction (insertSettlement e uid m w amt fee asset tx sst net) s)"
    for e uid m w amt fee asset tx sst net
    unfolding that by (rule good_step_tx [OF ok]) (auto dest!: insertSettlement_frame intro!: good_frame_only ok)
  show "good_step s s'" if "s' = snd (withTransaction (updateSettlementStatus sid sst txo) s)" for sid sst txo
    unfolding that by (rule good_step_tx [OF ok])
      (auto dest!: updateSettlementStatus_frame intro!: good_frame_only ok)
  show "good_step s s'" if "s' = snd (withTransaction (finalizeKizunaSettlement e f) s)"
    "fz_settlementId f \<notin> d_settlement_id ` set (t_debts s)" for e f
    unfolding that(1) by (rule good_step_tx [OF ok]) (rule good_finalize [OF ok that(2)])
  show "good_step s s'" if "s' = snd (withTransaction (applyKizunaRepayment e q) s)" for e q
    unfolding that by (rule good_step_tx [OF ok]) (rule good_repay [OF ok])
  show "good_step s s'" if "s' = snd (withTransaction (applyKizunaFundingEvent e g) s)" for e g
    unfolding that by (rule good_step_tx [OF ok]) (rule good_fund [OF ok])
  show "good_step s s'" if "s' = snd (withTransaction (applyKizunaCollateralEvent e c) s)" for e c
    unfolding that by (rule good_step_tx [OF ok]) (rule good_collateral [OF ok])
  show "good_step s s'" if "outbox_step s s'"
    using outbox_step_frame [OF that] by (auto intro!: good_frame_only ok)
qed

section \<open>All reachable ledgers\<close>

lemma sys_ok_seed: "sys_ok (seed_db now)"
  by (simp add: sys_ok_def ledger_ok_seed debt_links_ok_def) (simp add: seed_db_def)

interpretation ledger: invariant_system "\<lambda>s. s \<in> range seed_db" ledger_step sys_ok
proof
  show "sys_ok s" if "s \<in> range seed_db" for s using that sys_ok_seed by auto
  show "sys_ok s'" if "ledger_step s s'" "sys_ok s" for s s'
    using ledger_step_good [OF that] by (simp add: good_step_def)
qed

lemma reachable_ok: "ledger_step\<^sup>*\<^sup>* (seed_db now) s \<Longrightarrow> sys_ok s"
  using ledger.inv_reachable [of "seed_db now" s] by simp

lemma steps_keep_settled:
  assumes "ledger_step\<^sup>*\<^sup>* s s'" and "sys_ok s" and "r \<in> set (t_reservations s)" and "r_status r \<noteq> Reserved"
  shows "r \<in> set (t_reservations s')"
proof -
  have "sys_ok s' \<and> r \<in> set (t_reservations s')"
    using assms
  proof (induction rule: rtranclp_induct)
    case base
    then show ?case by simp
  next
    case (step t u)
    then have "good_step t u" by (intro ledger_step_good) auto
    with step show ?case by (auto simp: good_step_def settled_rows_kept_def)
  qed
  then show ?thesis ..
qed

section \<open>Properties\<close>

text \<open>
  Claim C1.  The ledger always balances.  In every state that the service can reach from the migrated database,
  by any sequence of underwriting, reservation, release, settlement, repayment, funding, collateral and
  outbox operations, committed or failed: each pool row shows exactly the reserved amounts of its live
  reservations and the outstanding amounts of its open debts; each prefunded balance is nonnegative, splits
  exactly the money that funding events brought in, and shows exactly what is locked and spent; and for each
  agent the repayments applied are exactly what its debts were paid down by.
\<close>

theorem ledger_always_balances:
  assumes "ledger_step\<^sup>*\<^sup>* (seed_db now) s"
  shows "(\<forall>p row. t_pool_reserves s p = Some row \<longrightarrow>
            pr_reserved_micro row = reserved_total s p (pr_lane row) \<and>
            pr_outstanding_micro row = outstanding_total s p (pr_lane row)) \<and>
         (\<forall>k b. t_enterprise_balances s k = Some b \<longrightarrow>
            0 \<le> eb_available_micro b \<and> 0 \<le> eb_reserved_micro b \<and> 0 \<le> eb_spent_micro b \<and>
            eb_available_micro b + eb_reserved_micro b + eb_spent_micro b = funded_total s k \<and>
            eb_reserved_micro b = locked_total s k \<and> eb_spent_micro b = spent_total s k) \<and>
         (\<forall>a. repaid_total s a = paid_down_total s a)"
proof -
  have ok: "ledger_ok s" using reachable_ok [OF assms] by (simp add: sys_ok_def)
  have "balance_matches (t_enterprise_balances s k) (funded_total s k) (locked_total s k) (spent_total s k)" for k
    by (rule balances_agree_at) (rule ledger_okD(4) [OF ok, unfolded balances_ok_def])
  then have "0 \<le> eb_available_micro b \<and> 0 \<le> eb_reserved_micro b \<and> 0 \<le> eb_spent_micro b \<and>
            eb_available_micro b + eb_reserved_micro b + eb_spent_micro b = funded_total s k \<and>
            eb_reserved_micro b = locked_total s k \<and> eb_spent_micro b = spent_total s k"
    if "t_enterprise_balances s k = Some b" for k b
    using that by (metis balance_matches_simps(2))
  moreover have "\<forall>a. repaid_total s a = paid_down_total s a"
    using ledger_okD(5) [OF ok] by (simp add: repayments_ok_def)
  ultimately show ?thesis
    using reserves_agreeD [OF ledger_okD(3) [OF ok, unfolded pools_ok_def]] by blast
qed

text \<open>
  Claim C2.  A reservation leaves the reserved state once: when it is consumed, released or expired, its row
  never changes again, whatever the service does afterwards.
\<close>

theorem settled_reservation_is_final:
  assumes "ledger_step\<^sup>*\<^sup>* (seed_db now) s" and "ledger_step\<^sup>*\<^sup>* s s'"
    and "r \<in> set (t_reservations s)" and "r_status r \<noteq> Reserved"
  shows "r \<in> set (t_reservations s')"
  using steps_keep_settled [OF assms(2) reachable_ok [OF assms(1)] assms(3,4)] .

text \<open>
  Claim C3.  No reservation is charged twice: in every reachable state two debts of the same reservation are
  the same debt, and that reservation is consumed.
\<close>

theorem one_debt_per_reservation:
  assumes "ledger_step\<^sup>*\<^sup>* (seed_db now) s" and "d \<in> set (t_debts s)" "d' \<in> set (t_debts s)"
    and "d_reservation_id d = Some rid" "d_reservation_id d' = Some rid"
  shows "d = d' \<and> (\<exists>r \<in> set (t_reservations s). r_id r = rid \<and> r_status r = Consumed)"
proof -
  have links: "debt_links_ok s" using reachable_ok [OF assms(1)] by (simp add: sys_ok_def)
  have "\<exists>r \<in> set (t_reservations s). r_id r = rid \<and> r_status r = Consumed"
    using debt_linkD [OF links] assms(2,4) by force
  moreover have "d = d'"
  proof -
    have "distinct (map d_reservation_id (filter (\<lambda>d. d_reservation_id d \<noteq> None) (t_debts s)))"
      using links by (simp add: debt_links_ok_def filter_map comp_def)
    then show ?thesis using assms(2-5) by (auto simp: distinct_map inj_on_def)
  qed
  ultimately show ?thesis by blast
qed

section \<open>Witnesses\<close>

text \<open>
  A run of the service: an account is created and funded, a request is underwritten, reserved
  against the prefund and settled.
\<close>

definition demo_params :: reservation_params where
  "demo_params = sample_params\<lparr>rv_amountMicro := 20, rv_lockedMicro := Some ''20''\<rparr>"

definition demo1 :: db where
  "demo1 = snd (withTransaction (upsertKizunaAccount (sample_env 1) sample_account) (seed_db 0))"

definition demo2 :: db where
  "demo2 = snd (withTransaction (applyKizunaFundingEvent (sample_env 2) (sample_deposit Deposit)) demo1)"

definition demo3 :: db where
  "demo3 = snd (withTransaction (insertKizunaUnderwriteDecision (sample_env 3) ''dec-1'' sample_decision) demo2)"

definition demo4 :: db where
  "demo4 = snd (withTransaction (createKizunaReservation (sample_env 4) ''res-1'' demo_params) demo3)"

definition demo5 :: db where
  "demo5 = snd (withTransaction (insertSettlement (sample_env 5) ''set-1'' ''merchant'' ''payer'' 0 0 ''USDC'' []
     SettlementPending ''eip155:8453'') demo4)"

definition demo6 :: db where
  "demo6 = snd (withTransaction (finalizeKizunaSettlement (sample_env 6) sample_finalize) demo5)"

lemma demo_run: "ledger_step\<^sup>*\<^sup>* (seed_db 0) demo6"
proof -
  have "ledger_step (seed_db 0) demo1" unfolding demo1_def by (rule step_account)
  moreover have "ledger_step demo1 demo2" unfolding demo2_def by (rule step_fund)
  moreover have "ledger_step demo2 demo3" unfolding demo3_def by (rule step_decision)
  moreover have "ledger_step demo3 demo4" unfolding demo4_def by (rule step_create)
  moreover have "ledger_step demo4 demo5" unfolding demo5_def by (rule step_settlement)
  moreover have "ledger_step demo5 demo6"
    unfolding demo6_def by (rule step_finalize) code_simp
  ultimately show ?thesis by (meson rtranclp.rtrancl_into_rtrancl rtranclp.rtrancl_refl)
qed

lemma demo_balance:
  "map_option (\<lambda>b. (eb_available_micro b, eb_reserved_micro b, eb_spent_micro b))
     (t_enterprise_balances demo6 (''agent-1'', ''enterprise-main'')) = Some (5, 0, 20)"
  by code_simp

theorem ledger_always_balances_witness:
  "funded_total demo6 (''agent-1'', ''enterprise-main'') = 25 \<and>
   spent_total demo6 (''agent-1'', ''enterprise-main'') = 20"
proof -
  obtain b where b: "t_enterprise_balances demo6 (''agent-1'', ''enterprise-main'') = Some b"
    and v: "eb_available_micro b = 5" "eb_reserved_micro b = 0" "eb_spent_micro b = 20"
    using demo_balance by auto
  show ?thesis
    using ledger_always_balances [OF demo_run, THEN conjunct2, THEN conjunct1, rule_format, OF b] v by simp
qed

definition demo_row :: kizuna_reservation where
  "demo_row = consume_row (sample_env 6) sample_finalize
     (reservation_row (sample_env 4) ''res-1'' demo_params Prefunded 20)"

theorem settled_reservation_is_final_witness:
  "demo_row \<in> set (t_reservations
     (snd (withTransaction (releaseKizunaReservation (sample_env 9) ''res-1'' Released) demo6)))"
proof (rule settled_reservation_is_final [OF demo_run])
  show "ledger_step\<^sup>*\<^sup>* demo6 (snd (withTransaction (releaseKizunaReservation (sample_env 9) ''res-1'' Released) demo6))"
    by (rule r_into_rtranclp [of ledger_step]) (rule step_release, simp)
  show "demo_row \<in> set (t_reservations demo6)" by code_simp
  show "r_status demo_row \<noteq> Reserved" by code_simp
qed

text \<open>The same run with a reservation that is not prefunded, so that settling it leaves a debt.\<close>

definition demo4_credit :: db where
  "demo4_credit = snd (withTransaction (createKizunaReservation (sample_env 4) ''res-1''
     (demo_params\<lparr>rv_fundingMode := None\<rparr>)) demo3)"

definition demo5_credit :: db where
  "demo5_credit = snd (withTransaction (insertSettlement (sample_env 5) ''set-1'' ''merchant'' ''payer'' 0 0 ''USDC'' []
     SettlementPending ''eip155:8453'') demo4_credit)"

definition demo6_credit :: db where
  "demo6_credit = snd (withTransaction (finalizeKizunaSettlement (sample_env 6) sample_finalize) demo5_credit)"

lemma demo_credit_run: "ledger_step\<^sup>*\<^sup>* (seed_db 0) demo6_credit"
proof -
  have "ledger_step (seed_db 0) demo1" unfolding demo1_def by (rule step_account)
  moreover have "ledger_step demo1 demo2" unfolding demo2_def by (rule step_fund)
  moreover have "ledger_step demo2 demo3" unfolding demo3_def by (rule step_decision)
  moreover have "ledger_step demo3 demo4_credit" unfolding demo4_credit_def by (rule step_create)
  moreover have "ledger_step demo4_credit demo5_credit" unfolding demo5_credit_def by (rule step_settlement)
  moreover have "ledger_step demo5_credit demo6_credit"
    unfolding demo6_credit_def by (rule step_finalize) code_simp
  ultimately show ?thesis by (meson rtranclp.rtrancl_into_rtrancl rtranclp.rtrancl_refl)
qed

theorem one_debt_per_reservation_witness:
  "\<exists>r \<in> set (t_reservations demo6_credit). r_id r = ''res-1'' \<and> r_status r = Consumed"
proof -
  let ?d = "hd (t_debts demo6_credit)"
  have "t_debts demo6_credit \<noteq> []" by code_simp
  then have mem: "?d \<in> set (t_debts demo6_credit)" by simp
  have link: "d_reservation_id ?d = Some ''res-1''" by code_simp
  show ?thesis using one_debt_per_reservation [OF demo_credit_run mem mem link link] by blast
qed

end
