(* ===== verification/Js_Number.thy ===== *)
theory Js_Number
  imports Json "HOL-Library.Log_Nat"
begin

text \<open>
  JavaScript numbers.  A finite double is the rational number it denotes; \<open>fl\<close> rounds an exact result
  to the nearest double, ties to even, with gradual underflow, and \<open>double_of\<close> adds the overflow to
  infinity.  On top of it: \<open>Number(string)\<close>, \<open>Math.round\<close> and \<open>String(number)\<close>, and the error bound
  that the amount parsers rely on.  The sign of zero is not kept: no code modelled here looks at it.
\<close>

section \<open>Rounding to binary64\<close>

definition pow2 :: "int \<Rightarrow> rat" where
  "pow2 e = (if 0 \<le> e then 2 ^ nat e else 1 / 2 ^ nat (- e))"

text \<open>The exponent \<open>e\<close> with \<open>2 ^ e \<le> x < 2 ^ (e + 1)\<close>, for positive \<open>x\<close>.\<close>

definition floor_log2 :: "rat \<Rightarrow> int" where
  "floor_log2 x =
     (let (n, d) = quotient_of x; e = bitlen n - bitlen d in if pow2 e \<le> x then e else e - 1)"

definition ulp :: "rat \<Rightarrow> rat" where
  "ulp x = pow2 (max (floor_log2 x - 52) (- 1074))"

definition round_half_even :: "rat \<Rightarrow> int" where
  "round_half_even q =
     (let f = \<lfloor>q\<rfloor>; r = q - of_int f in
      if r < 1 / 2 then f else if 1 / 2 < r then f + 1 else if even f then f else f + 1)"

definition fl :: "rat \<Rightarrow> rat" where
  "fl x =
     (if x = 0 then 0
      else if 0 < x then of_int (round_half_even (x / ulp x)) * ulp x
      else - (of_int (round_half_even (- x / ulp (- x))) * ulp (- x)))"

datatype js_num = NaN | Infinite bool | Finite rat

definition double_of :: "rat \<Rightarrow> js_num" where
  "double_of x =
     (if fl x \<noteq> 0 \<and> 1024 \<le> floor_log2 \<bar>fl x\<bar> then Infinite (x < 0) else Finite (fl x))"

lemma pow2_pos [simp]: "0 < pow2 e"
  by (simp add: pow2_def)

lemma pow2_zero [simp]: "pow2 0 = 1"
  by (simp add: pow2_def)

lemma pow2_add: "pow2 (a + b) = pow2 a * pow2 b"
proof -
  have powi: "pow2 e = 2 powi e" for e
    by (simp add: pow2_def power_int_def power_one_over inverse_eq_divide)
  show ?thesis by (simp add: powi power_int_add)
qed

lemma pow2_mono: "a \<le> b \<Longrightarrow> pow2 a \<le> pow2 b"
proof -
  assume "a \<le> b"
  then have "pow2 b = pow2 a * 2 ^ nat (b - a)"
    using pow2_add [of a "b - a"] by (simp add: pow2_def)
  moreover have "pow2 a * 1 \<le> pow2 a * 2 ^ nat (b - a)"
    by (intro mult_left_mono) (simp_all add: less_imp_le)
  ultimately show ?thesis by simp
qed

lemma pow2_suc: "pow2 (e + 1) = 2 * pow2 e"
  by (simp add: pow2_add) (simp add: pow2_def)

lemma pow2_less_imp: "pow2 a < pow2 b \<Longrightarrow> a < b"
  using pow2_mono [of b a] by (cases "a < b") auto

lemma bitlen_range:
  assumes "0 < n"
  shows "pow2 (bitlen n - 1) \<le> of_int n" and "of_int n < pow2 (bitlen n)"
proof -
  have b: "2 ^ nat (bitlen n - 1) \<le> n" "n < 2 ^ nat (bitlen n)" and pos: "0 < bitlen n"
    using bitlen_bounds [OF assms] bitlen_nonneg [of n] bitlen_eq_zero_iff [of n] assms by auto
  have "(2 ^ nat (bitlen n - 1) :: rat) = of_int (2 ^ nat (bitlen n - 1))" by simp
  also have "\<dots> \<le> of_int n" using b(1) of_int_le_iff by blast
  finally show "pow2 (bitlen n - 1) \<le> of_int n" using pos by (simp add: pow2_def)
  have "(of_int n :: rat) < of_int (2 ^ nat (bitlen n))" using b(2) of_int_less_iff by blast
  then show "of_int n < pow2 (bitlen n)" using pos by (simp add: pow2_def)
qed

lemma floor_log2_bounds:
  assumes "0 < x"
  shows "pow2 (floor_log2 x) \<le> x" and "x < pow2 (floor_log2 x + 1)"
proof -
  obtain n d where q: "quotient_of x = (n, d)" by (cases "quotient_of x")
  have d: "0 < d" and x: "x = of_int n / of_int d"
    using quotient_of_denom_pos [OF q] quotient_of_div [OF q] by auto
  with assms have n: "0 < n" by (simp add: zero_less_divide_iff)
  let ?e = "bitlen n - bitlen d"
  have drat: "(0 :: rat) < of_int d" using d by simp
  note bn = bitlen_range [OF n] and bd = bitlen_range [OF d]
  have "x * of_int d = of_int n" using x d by simp
  have hi: "x < pow2 (?e + 1)"
  proof -
    have "pow2 (?e + 1) * of_int d \<ge> pow2 (?e + 1) * pow2 (bitlen d - 1)"
      using bd(1) by (intro mult_left_mono) (simp_all add: less_imp_le)
    moreover have "pow2 (?e + 1) * pow2 (bitlen d - 1) = pow2 (bitlen n)"
      by (simp flip: pow2_add)
    ultimately have "of_int n < pow2 (?e + 1) * of_int d" using bn(2) by simp
    then show ?thesis using drat by (simp add: x pos_divide_less_eq)
  qed
  have lo: "pow2 (?e - 1) \<le> x"
  proof -
    have "pow2 (?e - 1) * of_int d \<le> pow2 (?e - 1) * pow2 (bitlen d)"
      using bd(2) by (intro mult_left_mono) (simp_all add: less_imp_le)
    moreover have "pow2 (?e - 1) * pow2 (bitlen d) = pow2 (bitlen n - 1)"
      by (simp flip: pow2_add)
    ultimately have "pow2 (?e - 1) * of_int d \<le> of_int n" using bn(1) by simp
    then show ?thesis using drat by (simp add: x pos_le_divide_eq)
  qed
  have fe: "floor_log2 x = (if pow2 ?e \<le> x then ?e else ?e - 1)"
    by (simp add: floor_log2_def q)
  show "pow2 (floor_log2 x) \<le> x" using lo by (simp add: fe)
  show "x < pow2 (floor_log2 x + 1)" using hi by (simp add: fe)
qed

lemma round_half_even_error: "\<bar>of_int (round_half_even q) - q\<bar> \<le> 1 / 2"
  unfolding round_half_even_def Let_def
  using floor_correct [of q] by (auto simp: abs_le_iff)

lemma round_half_even_int [simp]: "round_half_even (of_int n) = n"
  by (simp add: round_half_even_def)

lemma ulp_pos [simp]: "0 < ulp x"
  by (simp add: ulp_def)

lemma fl_zero [simp]: "fl 0 = 0"
  by (simp add: fl_def)

lemma fl_minus [simp]: "fl (- x) = - fl x"
  by (simp add: fl_def)

lemma fl_error: "0 < x \<Longrightarrow> \<bar>fl x - x\<bar> \<le> ulp x / 2"
proof -
  assume "0 < x"
  have "\<bar>fl x - x\<bar> = \<bar>of_int (round_half_even (x / ulp x)) - x / ulp x\<bar> * ulp x"
    using \<open>0 < x\<close> ulp_pos [of x]
    by (simp add: fl_def abs_mult_pos left_diff_distrib less_imp_le less_imp_neq [THEN not_sym])
  also have "\<dots> \<le> 1 / 2 * ulp x"
    by (intro mult_right_mono round_half_even_error) (simp add: less_imp_le)
  finally show ?thesis by simp
qed

lemma ulp_normal: "0 < x \<Longrightarrow> pow2 (- 1022) \<le> x \<Longrightarrow> ulp x \<le> x * pow2 (- 52)"
proof -
  assume x: "0 < x" and n: "pow2 (- 1022) \<le> x"
  have "pow2 (- 1022) < pow2 (floor_log2 x + 1)" using floor_log2_bounds(2) [OF x] n by simp
  then have "- 1022 \<le> floor_log2 x" using pow2_less_imp by fastforce
  then have "max (floor_log2 x - 52) (- 1074) = floor_log2 x + - 52" by simp
  then have "ulp x = pow2 (floor_log2 x) * pow2 (- 52)"
    unfolding ulp_def by (simp only: pow2_add)
  also have "\<dots> \<le> x * pow2 (- 52)"
    using floor_log2_bounds(1) [OF x] by (intro mult_right_mono) (simp_all add: less_imp_le)
  finally show ?thesis .
qed

text \<open>The relative error of one rounding in the normal range is at most \<open>2 ^ -53\<close>.\<close>

lemma fl_relative_error:
  assumes "0 < x" and "pow2 (- 1022) \<le> x"
  shows "\<bar>fl x - x\<bar> \<le> x / 2 ^ 53"
proof -
  have "\<bar>fl x - x\<bar> \<le> ulp x / 2" using assms(1) by (rule fl_error)
  also have "\<dots> \<le> x * pow2 (- 52) / 2" using ulp_normal [OF assms] by simp
  also have "\<dots> = x / 2 ^ 53" by (simp add: pow2_def)
  finally show ?thesis .
qed

lemma fl_nonneg: "0 \<le> x \<Longrightarrow> 0 \<le> fl x"
proof -
  assume "0 \<le> x"
  moreover have "0 \<le> round_half_even q" if "0 \<le> q" for q
    using that round_half_even_error [of q] floor_correct [of q]
    by (auto simp: round_half_even_def Let_def)
  ultimately show ?thesis by (auto simp: fl_def less_imp_le intro!: mult_nonneg_nonneg)
qed

lemma fl_exact:
  assumes "0 < x" and "x = of_int m * ulp x"
  shows "fl x = x"
proof -
  have "x / ulp x = of_int m"
    using assms(2) ulp_pos [of x] by (metis nonzero_mult_div_cancel_right less_irrefl)
  then show ?thesis using assms by (simp add: fl_def)
qed

text \<open>Integers below \<open>2 ^ 53\<close> are doubles.\<close>

lemma fl_int:
  assumes "0 \<le> n" and "n < 2 ^ 53"
  shows "fl (of_int n) = of_int n"
proof (cases "n = 0")
  case True
  then show ?thesis by simp
next
  case False
  let ?x = "of_int n :: rat" and ?e = "max (floor_log2 (of_int n) - 52) (- 1074)"
  have x: "0 < ?x" using False assms by simp
  have "?x < of_int (2 ^ 53)" using assms(2) of_int_less_iff by blast
  then have "?x < pow2 53" by (simp add: pow2_def)
  with floor_log2_bounds(1) [OF x] have "pow2 (floor_log2 ?x) < pow2 53" by simp
  then have "?e \<le> 0" using pow2_less_imp by fastforce
  then have "?x = of_int (n * 2 ^ nat (- ?e)) * ulp ?x"
    unfolding ulp_def by (auto simp: pow2_def)
  with x show ?thesis by (rule fl_exact)
qed

lemma double_of_small: "\<bar>fl x\<bar> < 2 ^ 53 \<Longrightarrow> double_of x = Finite (fl x)"
proof -
  assume x: "\<bar>fl x\<bar> < 2 ^ 53"
  have "floor_log2 \<bar>fl x\<bar> < 53" if "fl x \<noteq> 0"
  proof (rule pow2_less_imp)
    show "pow2 (floor_log2 \<bar>fl x\<bar>) < pow2 53"
      using floor_log2_bounds(1) [of "\<bar>fl x\<bar>"] that x by (simp add: pow2_def)
  qed
  then show ?thesis by (auto simp: double_of_def)
qed

lemma double_of_int: "0 \<le> n \<Longrightarrow> n < 2 ^ 53 \<Longrightarrow> double_of (of_int n) = Finite (of_int n)"
proof -
  assume n: "0 \<le> n" "n < 2 ^ 53"
  have "(of_int n :: rat) < of_int (2 ^ 53)" using n(2) of_int_less_iff by blast
  with n show ?thesis by (simp add: double_of_small fl_int)
qed

section \<open>Number(string)\<close>

text \<open>
  The grammar of \<open>StringToNumber\<close>: white space around the literal is ignored and the empty string is
  0; \<open>Infinity\<close> with an optional sign; unsigned hexadecimal, octal and binary literals; a decimal
  literal with an optional sign, fraction and exponent.  Everything else is \<open>NaN\<close>.
\<close>

definition signed_digits :: "string \<Rightarrow> int option" where
  "signed_digits t =
     (case t of
        [] \<Rightarrow> None
      | c # r \<Rightarrow> if c = CHR ''-'' then map_option uminus (decimal_value r)
                 else if c = CHR ''+'' then decimal_value r
                 else decimal_value t)"

definition pow10 :: "int \<Rightarrow> rat" where
  "pow10 e = (if 0 \<le> e then 10 ^ nat e else 1 / 10 ^ nat (- e))"

definition decimal_mantissa :: "string \<Rightarrow> rat option" where
  "decimal_mantissa m =
     (let whole = takeWhile is_digit m in
      case dropWhile is_digit m of
        [] \<Rightarrow> if whole = [] then None else Some (of_int (int (digits_value whole)))
      | c # fraction \<Rightarrow>
          if c = CHR ''.'' \<and> list_all is_digit fraction \<and> (whole \<noteq> [] \<or> fraction \<noteq> [])
          then Some (of_int (int (digits_value (whole @ fraction))) / 10 ^ length fraction)
          else None)"

definition is_exponent_mark :: "char \<Rightarrow> bool" where
  "is_exponent_mark c = (c = CHR ''e'' \<or> c = CHR ''E'')"

definition decimal_literal :: "string \<Rightarrow> rat option" where
  "decimal_literal t =
     (case decimal_mantissa (takeWhile (\<lambda>c. \<not> is_exponent_mark c) t) of
        None \<Rightarrow> None
      | Some m \<Rightarrow>
          (case dropWhile (\<lambda>c. \<not> is_exponent_mark c) t of
             [] \<Rightarrow> Some m
           | _ # ex \<Rightarrow> map_option (\<lambda>e. m * pow10 e) (signed_digits ex)))"

definition js_Number :: "string \<Rightarrow> js_num" where
  "js_Number s =
     (let t = js_trim s; p = take 2 t; r = drop 2 t;
          radix = (\<lambda>b. if r = [] then NaN
                       else (case radix_value b 0 r of None \<Rightarrow> NaN | Some n \<Rightarrow> double_of (of_int (int n))));
          decimal = (\<lambda>neg u.
            if u = ''Infinity'' then Infinite neg
            else (case decimal_literal u of
                    None \<Rightarrow> NaN
                  | Some q \<Rightarrow> double_of (if neg then - q else q))) in
      if t = [] then Finite 0
      else if p = ''0x'' \<or> p = ''0X'' then radix 16
      else if p = ''0o'' \<or> p = ''0O'' then radix 8
      else if p = ''0b'' \<or> p = ''0B'' then radix 2
      else if hd t = CHR ''-'' then decimal True (tl t)
      else if hd t = CHR ''+'' then decimal False (tl t)
      else decimal False t)"

definition js_Math_round :: "rat \<Rightarrow> int" where
  "js_Math_round x = \<lfloor>x + 1 / 2\<rfloor>"

lemma takeWhile_all: "list_all p xs \<Longrightarrow> takeWhile p xs = xs"
  by (simp add: list_all_iff)

lemma dropWhile_all: "list_all p xs \<Longrightarrow> dropWhile p xs = []"
  by (simp add: list_all_iff)

lemma digits_not_exponent: "list_all is_digit ds \<Longrightarrow> list_all (\<lambda>c. \<not> is_exponent_mark c) ds"
  by (auto simp: list_all_iff is_exponent_mark_def is_digit_def)

lemma decimal_literal_digits:
  assumes "ds \<noteq> []" and "list_all is_digit ds"
  shows "decimal_literal ds = Some (of_nat (digits_value ds))"
  using assms digits_not_exponent [OF assms(2)]
  by (simp add: decimal_literal_def takeWhile_all dropWhile_all decimal_mantissa_def Let_def)

lemma decimal_literal_point:
  assumes w: "whole \<noteq> []" "list_all is_digit whole" and f: "list_all is_digit fraction"
  shows "decimal_literal (whole @ CHR ''.'' # fraction) =
         Some (of_nat (digits_value (whole @ fraction)) / 10 ^ length fraction)"
proof -
  have "list_all (\<lambda>c. \<not> is_exponent_mark c) (whole @ CHR ''.'' # fraction)"
    using digits_not_exponent [OF w(2)] digits_not_exponent [OF f]
    by (simp add: is_exponent_mark_def)
  moreover have "takeWhile is_digit (whole @ CHR ''.'' # fraction) = whole"
    "dropWhile is_digit (whole @ CHR ''.'' # fraction) = CHR ''.'' # fraction"
    using w by (auto simp: list_all_iff takeWhile_append2 dropWhile_append2)
  ultimately show ?thesis
    using w f by (simp add: decimal_literal_def takeWhile_all dropWhile_all decimal_mantissa_def Let_def)
qed

text \<open>A literal that starts with a digit and has no letter is read as an unsigned decimal.\<close>

lemma js_Number_unsigned:
  assumes "js_trim t = t" and "t = d # r" and "is_digit d"
    and "\<And>c. c \<in> set r \<Longrightarrow> is_digit c \<or> c = CHR ''.''"
    and "decimal_literal t = Some q"
  shows "js_Number t = double_of q"
proof -
  have pre: "take 2 t \<noteq> [CHR ''0'', c]" if "\<not> is_digit c" "c \<noteq> CHR ''.''" for c
  proof
    assume "take 2 t = [CHR ''0'', c]"
    with assms(2) have "c \<in> set r" by (cases r) auto
    with that assms(4) show False by blast
  qed
  have "d \<noteq> CHR ''-''" "d \<noteq> CHR ''+''" "d \<noteq> CHR ''I''" using assms(3) by (auto simp: is_digit_def)
  with assms(2) have hd: "t \<noteq> []" "hd t \<noteq> CHR ''-''" "hd t \<noteq> CHR ''+''" "t \<noteq> ''Infinity''" by auto
  have px: "take 2 t \<noteq> ''0x''" "take 2 t \<noteq> ''0X''" "take 2 t \<noteq> ''0o''" "take 2 t \<noteq> ''0O''"
    "take 2 t \<noteq> ''0b''" "take 2 t \<noteq> ''0B''"
    by (intro pre; simp)+
  show ?thesis
    unfolding js_Number_def Let_def assms(1)
    by (simp only: hd px assms(5) option.simps if_False simp_thms)
qed

lemma js_Number_digits:
  assumes "ds \<noteq> []" and "list_all is_digit ds"
  shows "js_Number ds = double_of (of_nat (digits_value ds))"
proof -
  obtain d r where "ds = d # r" using assms(1) by (cases ds) auto
  with assms show ?thesis
    by (intro js_Number_unsigned [of ds d r] js_trim_digits decimal_literal_digits)
       (auto simp: list_all_iff)
qed

lemma js_Number_point:
  assumes w: "whole \<noteq> []" "list_all is_digit whole" and f: "fraction \<noteq> []" "list_all is_digit fraction"
  shows "js_Number (whole @ CHR ''.'' # fraction) =
         double_of (of_nat (digits_value (whole @ fraction)) / 10 ^ length fraction)"
proof -
  obtain d r where d: "whole = d # r" using w(1) by (cases whole) auto
  have trim: "js_trim (whole @ CHR ''.'' # fraction) = whole @ CHR ''.'' # fraction"
    using w f by (intro js_trim_id) (auto simp: list_all_iff digit_not_space hd_append)
  show ?thesis
    using w f d trim decimal_literal_point [OF w f(2)]
    by (intro js_Number_unsigned [of _ d "r @ CHR ''.'' # fraction"]) (auto simp: list_all_iff)
qed

lemma js_Math_round_near: "\<bar>x - of_int n\<bar> < 1 / 2 \<Longrightarrow> js_Math_round x = n"
  unfolding js_Math_round_def by (rule floor_unique) linarith+

end
