(* ===== verification/Js_Text.thy ===== *)
theory Js_Text
  imports Js_Number
begin

text \<open>
  JavaScript strings: \<open>split\<close>, \<open>join\<close> and template literals, \<open>startsWith\<close>, the decimal text of a
  number, \<open>JSON.stringify\<close>, and \<open>Buffer.from(text).toString('base64')\<close>.  Strings are lists of code
  units below 256, so \<open>Buffer.from\<close> encodes a unit from 128 on in two UTF-8 bytes.
\<close>

section \<open>split and join\<close>

fun js_split :: "char \<Rightarrow> string \<Rightarrow> string list" where
  "js_split d [] = [[]]"
| "js_split d (c # cs) =
     (if c = d then [] # js_split d cs
      else (case js_split d cs of [] \<Rightarrow> [[c]] | p # ps \<Rightarrow> (c # p) # ps))"

fun js_join :: "char \<Rightarrow> string list \<Rightarrow> string" where
  "js_join d [] = []"
| "js_join d [p] = p"
| "js_join d (p # q # ps) = p @ d # js_join d (q # ps)"

lemma js_split_not_Nil [simp]: "js_split d s \<noteq> []"
  by (induction s) (auto split: list.splits)

lemma js_split_no_delim: "d \<notin> set s \<Longrightarrow> js_split d s = [s]"
  by (induction s) auto

lemma js_split_piece: "d \<notin> set p \<Longrightarrow> js_split d (p @ d # s) = p # js_split d s"
  by (induction p) auto

lemma js_split_join:
  "ps \<noteq> [] \<Longrightarrow> (\<And>p. p \<in> set ps \<Longrightarrow> d \<notin> set p) \<Longrightarrow> js_split d (js_join d ps) = ps"
  by (induction d ps rule: js_join.induct) (auto simp: js_split_no_delim js_split_piece)

lemma js_join_split [simp]: "js_join d (js_split d s) = s"
proof (induction s)
  case Nil
  then show ?case by simp
next
  case (Cons c s)
  obtain p ps where s: "js_split d s = p # ps" by (cases "js_split d s") auto
  with Cons show ?case by (cases ps) auto
qed

lemma js_split_snoc:
  "d \<notin> set q \<Longrightarrow> js_split d (s @ d # q) = js_split d s @ [q]"
  by (induction s) (auto simp: js_split_no_delim split: list.splits)

lemma js_join_inj:
  assumes "js_join d ps = js_join d qs" and "ps \<noteq> []" "qs \<noteq> []"
    and "\<And>p. p \<in> set ps \<Longrightarrow> d \<notin> set p" and "\<And>q. q \<in> set qs \<Longrightarrow> d \<notin> set q"
  shows "ps = qs"
  using assms js_split_join by metis

section \<open>Number to string\<close>

fun int_length :: "int \<Rightarrow> nat" where
  "int_length n = (if n < 10 then 1 else Suc (int_length (n div 10)))"

declare int_length.simps [simp del]

text \<open>The \<open>s\<close> with \<open>10 ^ (s - 1) \<le> x < 10 ^ s\<close>, for positive \<open>x\<close>.\<close>

definition decimal_exponent :: "rat \<Rightarrow> int" where
  "decimal_exponent x =
     (if 1 \<le> x then int (int_length \<lfloor>x\<rfloor>)
      else (let m = int (int_length \<lfloor>1 / x\<rfloor>) in if x < pow10 (1 - m) then 1 - m else 2 - m))"

text \<open>
  The shortest digit strings that denote a double, as in \<open>Number::toString\<close>: the least number \<open>k\<close> of
  digits for which one of the two \<open>k\<close>-digit neighbours of \<open>x\<close> rounds to \<open>x\<close>, and of two such neighbours
  the closer one (the even one in a tie).
\<close>

definition shortest_candidate :: "rat \<Rightarrow> int \<Rightarrow> nat \<Rightarrow> int option" where
  "shortest_candidate x s k =
     (let scale = pow10 (s - int k); q = x / scale; lower = \<lfloor>q\<rfloor>; upper = lower + 1;
          ok = (\<lambda>n. 10 ^ (k - 1) \<le> n \<and> n < 10 ^ k \<and> fl (of_int n * scale) = x) in
      if ok lower \<and> ok upper then
        (if q - of_int lower < of_int upper - q then Some lower
         else if of_int upper - q < q - of_int lower then Some upper
         else if even lower then Some lower else Some upper)
      else if ok lower then Some lower
      else if ok upper then Some upper
      else None)"

fun shortest_from :: "rat \<Rightarrow> int \<Rightarrow> nat list \<Rightarrow> int \<times> nat" where
  "shortest_from x s [] = (\<lfloor>x / pow10 (s - 17)\<rfloor>, 17)"
| "shortest_from x s (k # ks) =
     (case shortest_candidate x s k of Some n \<Rightarrow> (n, k) | None \<Rightarrow> shortest_from x s ks)"

definition shortest_decimal :: "rat \<Rightarrow> int \<times> nat" where
  "shortest_decimal x = shortest_from x (decimal_exponent x) [1 ..< 18]"

definition positive_number_text :: "rat \<Rightarrow> string" where
  "positive_number_text x =
     (let s = decimal_exponent x; (n, k) = shortest_decimal x; ds = numeric_text n; e = s - 1;
          exponent = (if 0 \<le> e then CHR ''+'' # numeric_text e else numeric_text e) in
      if int k \<le> s \<and> s \<le> 21 then ds @ replicate (nat (s - int k)) CHR ''0''
      else if 0 < s \<and> s \<le> 21 then take (nat s) ds @ CHR ''.'' # drop (nat s) ds
      else if - 6 < s \<and> s \<le> 0 then ''0.'' @ replicate (nat (- s)) CHR ''0'' @ ds
      else if k = 1 then ds @ CHR ''e'' # exponent
      else take 1 ds @ CHR ''.'' # drop 1 ds @ CHR ''e'' # exponent)"

definition js_number_text :: "rat \<Rightarrow> string" where
  "js_number_text x =
     (if x = 0 then ''0''
      else if x < 0 then CHR ''-'' # positive_number_text (- x)
      else positive_number_text x)"

section \<open>JSON.stringify\<close>

definition hex_digit :: "nat \<Rightarrow> char" where
  "hex_digit d = (if d < 10 then char_of (48 + d) else char_of (87 + d))"

text \<open>\<open>buffer.toString('hex')\<close>.\<close>

definition hex_text :: "nat list \<Rightarrow> string" where
  "hex_text bs = concat (map (\<lambda>b. [hex_digit (b div 16 mod 16), hex_digit (b mod 16)]) bs)"

definition json_escape :: "char \<Rightarrow> string" where
  "json_escape c =
     (let n = (of_char c :: nat) in
      if n = 8 then [CHR 0x5C, CHR ''b'']
      else if n = 9 then [CHR 0x5C, CHR ''t'']
      else if n = 10 then [CHR 0x5C, CHR ''n'']
      else if n = 12 then [CHR 0x5C, CHR ''f'']
      else if n = 13 then [CHR 0x5C, CHR ''r'']
      else if n = 34 then [CHR 0x5C, CHR 0x22]
      else if n = 92 then [CHR 0x5C, CHR 0x5C]
      else if n < 32 then [CHR 0x5C, CHR ''u'', CHR ''0'', CHR ''0'', hex_digit (n div 16), hex_digit (n mod 16)]
      else [c])"

definition json_quote :: "string \<Rightarrow> string" where
  "json_quote s = CHR 0x22 # concat (map json_escape s) @ [CHR 0x22]"

text \<open>An object lists its properties in the order in which JavaScript enumerates them.\<close>

fun JSON_stringify :: "json \<Rightarrow> string"
  and stringify_items :: "json list \<Rightarrow> string list"
  and stringify_properties :: "(string \<times> json) list \<Rightarrow> string list" where
  "JSON_stringify JNull = ''null''"
| "JSON_stringify (JBool b) = (if b then ''true'' else ''false'')"
| "JSON_stringify (JNum n) = js_number_text n"
| "JSON_stringify (JStr s) = json_quote s"
| "JSON_stringify (JArr xs) = CHR ''['' # js_join CHR '','' (stringify_items xs) @ '']''"
| "JSON_stringify (JObj ps) = CHR ''{'' # js_join CHR '','' (stringify_properties ps) @ ''}''"
| "stringify_items [] = []"
| "stringify_items (x # xs) = JSON_stringify x # stringify_items xs"
| "stringify_properties [] = []"
| "stringify_properties ((k, v) # ps) =
     (json_quote k @ CHR '':'' # JSON_stringify v) # stringify_properties ps"

section \<open>Base64\<close>

definition utf8_bytes :: "string \<Rightarrow> nat list" where
  "utf8_bytes s =
     concat (map (\<lambda>c. let n = (of_char c :: nat) in
                      if n < 128 then [n] else [192 + n div 64, 128 + n mod 64]) s)"

definition base64_alphabet :: string where
  "base64_alphabet = ''ABCDEFGHIJKLMNOPQRSTUVWXYZabcdefghijklmnopqrstuvwxyz0123456789+/''"

definition base64_char :: "nat \<Rightarrow> char" where
  "base64_char n = base64_alphabet ! (n mod 64)"

fun base64 :: "nat list \<Rightarrow> string" where
  "base64 [] = []"
| "base64 [a] = [base64_char (a div 4), base64_char (a mod 4 * 16), CHR ''='', CHR ''='']"
| "base64 [a, b] =
     [base64_char (a div 4), base64_char (a mod 4 * 16 + b div 16), base64_char (b mod 16 * 4), CHR ''='']"
| "base64 (a # b # c # bs) =
     base64_char (a div 4) # base64_char (a mod 4 * 16 + b div 16)
     # base64_char (b mod 16 * 4 + c div 64) # base64_char (c mod 64) # base64 bs"

lemma base64_alphabet_length [simp]: "length base64_alphabet = 64"
  by (simp add: base64_alphabet_def)

lemma base64_char_in: "base64_char n \<in> set base64_alphabet"
  unfolding base64_char_def by (rule nth_mem) simp

text \<open>A base64 text holds no colon, so it is the last part of a payment header again when split.\<close>

lemma base64_no_colon: "CHR '':'' \<notin> set (base64 bs)"
proof -
  have "CHR '':'' \<notin> set base64_alphabet" by (simp add: base64_alphabet_def)
  then have "base64_char n \<noteq> CHR '':''" for n using base64_char_in [of n] by metis
  then show ?thesis by (induction bs rule: base64.induct) (auto dest: sym)
qed

lemma base64_not_Nil: "bs \<noteq> [] \<Longrightarrow> base64 bs \<noteq> []"
  by (cases bs rule: base64.cases) auto

lemma base64_chars: "c \<in> set (base64 bs) \<Longrightarrow> c = CHR ''='' \<or> c \<in> set base64_alphabet"
  by (induction bs rule: base64.induct) (auto intro: base64_char_in)

lemma base64_length: "length (base64 bs) \<le> 4 * (length bs div 3 + 1)"
  by (induction bs rule: base64.induct) auto

lemma base64_char_not_pad: "base64_char n \<noteq> CHR ''=''"
proof -
  have "CHR ''='' \<notin> set base64_alphabet" by (simp add: base64_alphabet_def)
  then show ?thesis using base64_char_in [of n] by metis
qed

section \<open>Base64 decoding and letter case\<close>

text \<open>
  \<open>Buffer.from(text, 'base64')\<close>: reads up to the first padding character, accepts both alphabets,
  skips anything else, and drops an incomplete last byte.
\<close>

definition base64_value :: "char \<Rightarrow> nat option" where
  "base64_value c =
     (let n = (of_char c :: nat) in
      if 65 \<le> n \<and> n \<le> 90 then Some (n - 65)
      else if 97 \<le> n \<and> n \<le> 122 then Some (n - 71)
      else if 48 \<le> n \<and> n \<le> 57 then Some (n + 4)
      else if n = 43 \<or> n = 45 then Some 62
      else if n = 47 \<or> n = 95 then Some 63
      else None)"

fun base64_bytes :: "nat list \<Rightarrow> nat list" where
  "base64_bytes (a # b # c # d # rest) =
     (a * 4 + b div 16) # (b mod 16 * 16 + c div 4) # (c mod 4 * 64 + d) # base64_bytes rest"
| "base64_bytes [a, b, c] = [a * 4 + b div 16, b mod 16 * 16 + c div 4]"
| "base64_bytes [a, b] = [a * 4 + b div 16]"
| "base64_bytes _ = []"

definition buffer_from_base64 :: "string \<Rightarrow> nat list" where
  "buffer_from_base64 s = base64_bytes (List.map_filter base64_value (takeWhile (\<lambda>c. c \<noteq> CHR ''='') s))"

text \<open>\<open>toLowerCase\<close> on code units below 256.\<close>

definition ascii_lower :: "char \<Rightarrow> char" where
  "ascii_lower c = (let n = (of_char c :: nat) in
     if 65 \<le> n \<and> n \<le> 90 \<or> 192 \<le> n \<and> n \<le> 222 \<and> n \<noteq> 215 then char_of (n + 32) else c)"

definition js_lower :: "string \<Rightarrow> string" where
  "js_lower s = map ascii_lower s"

end
