(* ===== verification/Networks.thy ===== *)
theory Networks
  imports Js_Text
begin

text \<open>
  Network identifiers (\<open>protocol/networks.ts\<close>) and the text of session payments (\<open>services/session.ts\<close>):
  the payment header \<open>session:<network>:<token>.<nonce>\<close> and the message a payer signs to open a
  session.  Address validation belongs to two libraries (\<open>isAddress\<close> of ethers, the \<open>PublicKey\<close>
  constructor of web3.js); the two predicates are arguments.
\<close>

section \<open>Networks\<close>

definition SOLANA_MAINNET_CAIP2 :: string where
  "SOLANA_MAINNET_CAIP2 = ''solana:5eykt4UsFv8P8NJdTREpY1vzqKqZKvdp''"

definition SOLANA_DEVNET_CAIP2 :: string where
  "SOLANA_DEVNET_CAIP2 = ''solana:EtWTRABZaYq6iMfeYKouRu166VU2xqa1''"

definition BASE_MAINNET_CAIP2 :: string where
  "BASE_MAINNET_CAIP2 = ''eip155:8453''"

definition SOLANA_MAINNET_ALIASES :: "string list" where
  "SOLANA_MAINNET_ALIASES = [SOLANA_MAINNET_CAIP2, ''solana:mainnet'', ''solana:mainnet-beta'']"

definition SOLANA_DEVNET_ALIASES :: "string list" where
  "SOLANA_DEVNET_ALIASES = [SOLANA_DEVNET_CAIP2, ''solana:devnet'']"

definition BASE_MAINNET_ALIASES :: "string list" where
  "BASE_MAINNET_ALIASES = [BASE_MAINNET_CAIP2]"

definition canonicalizeNetwork :: "string \<Rightarrow> string option" where
  "canonicalizeNetwork network =
     (let trimmed = js_trim network in
      if trimmed \<in> set SOLANA_MAINNET_ALIASES then Some SOLANA_MAINNET_CAIP2
      else if trimmed \<in> set SOLANA_DEVNET_ALIASES then Some SOLANA_DEVNET_CAIP2
      else if trimmed \<in> set BASE_MAINNET_ALIASES then Some BASE_MAINNET_CAIP2
      else None)"

definition isSolanaMainnet :: "string \<Rightarrow> bool" where
  "isSolanaMainnet network = (canonicalizeNetwork network = Some SOLANA_MAINNET_CAIP2)"

definition isBaseMainnet :: "string \<Rightarrow> bool" where
  "isBaseMainnet network = (canonicalizeNetwork network = Some BASE_MAINNET_CAIP2)"

definition getSupportedNetworkIds :: "bool \<Rightarrow> string list" where
  "getSupportedNetworkIds baseEnabled =
     (if baseEnabled then [SOLANA_MAINNET_CAIP2, BASE_MAINNET_CAIP2] else [SOLANA_MAINNET_CAIP2])"

definition isSupportedNetwork :: "string \<Rightarrow> bool \<Rightarrow> bool" where
  "isSupportedNetwork network baseEnabled =
     (let canonical = canonicalizeNetwork network in
      if canonical = Some SOLANA_MAINNET_CAIP2 then True
      else if canonical = Some BASE_MAINNET_CAIP2 then baseEnabled
      else False)"

text \<open>The two address checks of the libraries.\<close>

record address_checks =
  ac_isAddress :: "string \<Rightarrow> bool"
  ac_isPublicKey :: "string \<Rightarrow> bool"

definition isValidPayerForNetwork :: "address_checks \<Rightarrow> string \<Rightarrow> string \<Rightarrow> bool" where
  "isValidPayerForNetwork ac payer network =
     (case canonicalizeNetwork network of
        None \<Rightarrow> False
      | Some canonical \<Rightarrow>
          if canonical = BASE_MAINNET_CAIP2 then ac_isAddress ac payer else ac_isPublicKey ac payer)"

text \<open>
  The cryptographic libraries: ethers' \<open>verifyMessage\<close> (the recovered address, or an exception), the
  detached Ed25519 check for a public key, base58 decoding, and the contract-wallet aware check of
  \<open>services/evm-signature.ts\<close> with its chain lookup.
\<close>

record signature_libs =
  sl_verifyMessage :: "string \<Rightarrow> string \<Rightarrow> string option"
  sl_ed25519 :: "string \<Rightarrow> nat list \<Rightarrow> string \<Rightarrow> bool"
  sl_bs58_decode :: "string \<Rightarrow> nat list option"
  sl_verifyEvmMessage :: "string \<Rightarrow> string \<Rightarrow> string \<Rightarrow> bool"

lemma caip2_trimmed [simp]:
  "js_trim SOLANA_MAINNET_CAIP2 = SOLANA_MAINNET_CAIP2"
  "js_trim SOLANA_DEVNET_CAIP2 = SOLANA_DEVNET_CAIP2"
  "js_trim BASE_MAINNET_CAIP2 = BASE_MAINNET_CAIP2"
  by code_simp+

lemma caip2_distinct [simp]:
  "SOLANA_MAINNET_CAIP2 \<noteq> SOLANA_DEVNET_CAIP2" "SOLANA_MAINNET_CAIP2 \<noteq> BASE_MAINNET_CAIP2"
  "SOLANA_DEVNET_CAIP2 \<noteq> BASE_MAINNET_CAIP2" "SOLANA_DEVNET_CAIP2 \<noteq> SOLANA_MAINNET_CAIP2"
  "BASE_MAINNET_CAIP2 \<noteq> SOLANA_MAINNET_CAIP2" "BASE_MAINNET_CAIP2 \<noteq> SOLANA_DEVNET_CAIP2"
  by code_simp+

lemma canonical_fixed [simp]:
  "canonicalizeNetwork SOLANA_MAINNET_CAIP2 = Some SOLANA_MAINNET_CAIP2"
  "canonicalizeNetwork SOLANA_DEVNET_CAIP2 = Some SOLANA_DEVNET_CAIP2"
  "canonicalizeNetwork BASE_MAINNET_CAIP2 = Some BASE_MAINNET_CAIP2"
  by code_simp+

lemma canonicalizeNetwork_cases:
  "canonicalizeNetwork n = Some c \<Longrightarrow>
   c \<in> {SOLANA_MAINNET_CAIP2, SOLANA_DEVNET_CAIP2, BASE_MAINNET_CAIP2}"
  by (auto simp: canonicalizeNetwork_def Let_def split: if_splits)

lemma canonicalizeNetwork_idem:
  "canonicalizeNetwork n = Some c \<Longrightarrow> canonicalizeNetwork c = Some c"
  using canonicalizeNetwork_cases [of n c] by auto

lemma isSupportedNetwork_listed:
  "isSupportedNetwork n b \<longleftrightarrow> (\<exists>c \<in> set (getSupportedNetworkIds b). canonicalizeNetwork n = Some c)"
  by (auto simp: isSupportedNetwork_def getSupportedNetworkIds_def Let_def)

section \<open>Session payment headers\<close>

definition MAX_SESSION_TOKEN_LENGTH :: nat where "MAX_SESSION_TOKEN_LENGTH = 256"
definition MAX_SESSION_NONCE_LENGTH :: nat where "MAX_SESSION_NONCE_LENGTH = 96"

text \<open>The regular expression \<open>/^[A-Za-z0-9_-]+$/\<close>.\<close>

definition url_safe_char :: "char \<Rightarrow> bool" where
  "url_safe_char c =
     (let n = (of_char c :: nat) in
      48 \<le> n \<and> n \<le> 57 \<or> 65 \<le> n \<and> n \<le> 90 \<or> 97 \<le> n \<and> n \<le> 122 \<or> n = 95 \<or> n = 45)"

definition url_safe :: "string \<Rightarrow> bool" where
  "url_safe s = (s \<noteq> [] \<and> list_all url_safe_char s)"

record session_header =
  sh_network :: string
  sh_token :: string
  sh_nonce :: "string option"

text \<open>\<open>payload.split('.', 2)\<close> keeps the first two pieces and drops the rest.\<close>

definition parseSessionPaymentHeader :: "string \<Rightarrow> session_header option" where
  "parseSessionPaymentHeader header =
     (let parts = js_split CHR '':'' header in
      if header = [] then None
      else if length parts < 3 then None
      else if hd parts \<noteq> ''session'' then None
      else
        (let network = js_trim (js_join CHR '':'' (butlast (tl parts)));
             payload = js_trim (last parts) in
         if network = [] then None
         else if payload = []
                 \<or> length payload > MAX_SESSION_TOKEN_LENGTH + MAX_SESSION_NONCE_LENGTH + 1 then None
         else
           (let pieces = take 2 (js_split CHR ''.'' payload); token = hd pieces in
            if token = [] \<or> length token > MAX_SESSION_TOKEN_LENGTH then None
            else if \<not> url_safe token then None
            else (case tl pieces of
                    [] \<Rightarrow> Some \<lparr>sh_network = network, sh_token = token, sh_nonce = None\<rparr>
                  | nonce # _ \<Rightarrow>
                      if nonce = [] \<or> length nonce > MAX_SESSION_NONCE_LENGTH then None
                      else if \<not> url_safe nonce then None
                      else Some \<lparr>sh_network = network, sh_token = token, sh_nonce = Some nonce\<rparr>))))"

text \<open>\<open>parsePaymentScheme\<close> of \<open>services/signature.ts\<close>: scheme and network of any payment header.\<close>

definition parsePaymentScheme :: "string \<Rightarrow> (string \<times> string) option" where
  "parsePaymentScheme header =
     (let parts = js_split CHR '':'' header in
      if length parts < 3 then None
      else Some (hd parts, js_join CHR '':'' (butlast (tl parts))))"

text \<open>The header text that \<open>routes/session.ts\<close> hands out and its hint describes.\<close>

definition session_header_text :: "string \<Rightarrow> string \<Rightarrow> string option \<Rightarrow> string" where
  "session_header_text network token nonce =
     ''session:'' @ network @ CHR '':'' # token
     @ (case nonce of None \<Rightarrow> [] | Some n \<Rightarrow> CHR ''.'' # n)"

lemma url_safe_char_not [simp]:
  "\<not> url_safe_char CHR '':''" "\<not> url_safe_char CHR ''.''"
  by (simp_all add: url_safe_char_def)

lemma url_safe_not_space: "url_safe_char c \<Longrightarrow> \<not> js_space c"
  by (auto simp: url_safe_char_def js_space_def Let_def)

lemma url_safe_no_sep: "url_safe s \<Longrightarrow> CHR '':'' \<notin> set s \<and> CHR ''.'' \<notin> set s"
  by (auto simp: url_safe_def list_all_iff)

text \<open>Splitting a header gives its scheme, the pieces of the network, and the payload.\<close>

lemma js_split_header:
  assumes "CHR '':'' \<notin> set payload"
  shows "js_split CHR '':'' (''session:'' @ network @ CHR '':'' # payload) =
         ''session'' # js_split CHR '':'' network @ [payload]"
proof -
  have "js_split CHR '':'' (''session'' @ CHR '':'' # network @ CHR '':'' # payload) =
        ''session'' # js_split CHR '':'' (network @ CHR '':'' # payload)"
    by (rule js_split_piece) simp
  then show ?thesis using js_split_snoc [OF assms, of network] by simp
qed

lemma payload_trim:
  assumes "url_safe token" and "\<And>n. nonce = Some n \<Longrightarrow> url_safe n"
  shows "js_trim (token @ (case nonce of None \<Rightarrow> [] | Some n \<Rightarrow> CHR ''.'' # n)) =
         token @ (case nonce of None \<Rightarrow> [] | Some n \<Rightarrow> CHR ''.'' # n)"
proof (rule js_trim_id)
  let ?p = "token @ (case nonce of None \<Rightarrow> [] | Some n \<Rightarrow> CHR ''.'' # n)"
  show "?p \<noteq> []" using assms(1) by (simp add: url_safe_def)
  show "\<not> js_space (hd ?p)"
    using assms(1) by (cases token) (auto simp: url_safe_def url_safe_not_space)
  show "\<not> js_space (last ?p)"
    using assms by (cases nonce) (auto simp: url_safe_def list_all_iff url_safe_not_space)
qed

lemma parse_session_header_text:
  assumes t: "url_safe token" "length token \<le> MAX_SESSION_TOKEN_LENGTH"
    and n: "\<And>n. nonce = Some n \<Longrightarrow> url_safe n \<and> length n \<le> MAX_SESSION_NONCE_LENGTH"
    and w: "js_trim network = network" "network \<noteq> []"
  shows "parseSessionPaymentHeader (session_header_text network token nonce) =
         Some \<lparr>sh_network = network, sh_token = token, sh_nonce = nonce\<rparr>"
proof -
  let ?payload = "token @ (case nonce of None \<Rightarrow> [] | Some n \<Rightarrow> CHR ''.'' # n)"
  have colon: "CHR '':'' \<notin> set ?payload"
    using url_safe_no_sep [OF t(1)] n url_safe_no_sep by (auto split: option.splits)
  have split: "js_split CHR '':'' (session_header_text network token nonce) =
               ''session'' # js_split CHR '':'' network @ [?payload]"
    using js_split_header [OF colon, of network] by (simp add: session_header_text_def)
  have trim: "js_trim ?payload = ?payload" using t n by (intro payload_trim) auto
  have len: "length ?payload \<le> MAX_SESSION_TOKEN_LENGTH + MAX_SESSION_NONCE_LENGTH + 1"
    using t(2) n by (auto split: option.splits)
  have pieces: "take 2 (js_split CHR ''.'' ?payload) = token # (case nonce of None \<Rightarrow> [] | Some n \<Rightarrow> [n])"
  proof (cases nonce)
    case None
    then show ?thesis using url_safe_no_sep [OF t(1)] by (simp add: js_split_no_delim)
  next
    case (Some m)
    then have "CHR ''.'' \<notin> set token" "CHR ''.'' \<notin> set m"
      using url_safe_no_sep [OF t(1)] n [of m] url_safe_no_sep by auto
    with Some show ?thesis by (simp add: js_split_piece js_split_no_delim)
  qed
  have ne: "token \<noteq> []" "?payload \<noteq> []" using t(1) by (simp_all add: url_safe_def)
  have "session_header_text network token nonce \<noteq> []" by (simp add: session_header_text_def)
  moreover have "\<not> length (''session'' # js_split CHR '':'' network @ [?payload]) < 3"
    by (cases "js_split CHR '':'' network") auto
  ultimately show ?thesis
    unfolding parseSessionPaymentHeader_def Let_def split
    using w ne trim len pieces t n
    by (cases nonce) (auto simp: url_safe_def)
qed

section \<open>The message a payer signs to open a session\<close>

record challenge_terms =
  cm_payerWallet :: string
  cm_network :: string
  cm_merchantWallet :: string
  cm_maxTotalMicro :: string
  cm_maxSingleMicro :: "string option"
  cm_sessionExpiresAtIso :: string
  cm_nonce :: string

abbreviation newline :: char where "newline \<equiv> CHR 0x0A"

definition challenge_lines :: "challenge_terms \<Rightarrow> string list" where
  "challenge_lines t =
     [''KAMIYO x402 session authorization'', [],
      ''payer: '' @ cm_payerWallet t,
      ''network: '' @ cm_network t,
      ''merchant: '' @ cm_merchantWallet t,
      ''max_total_micro_usdc: '' @ cm_maxTotalMicro t]
     @ (case cm_maxSingleMicro t of
          None \<Rightarrow> []
        | Some single \<Rightarrow> if single = [] then [] else [''max_single_micro_usdc: '' @ single])
     @ [''session_expires_at: '' @ cm_sessionExpiresAtIso t,
        ''nonce: '' @ cm_nonce t,
        [],
        ''By signing, you authorize session-based x402 payments under this cap until expiry.'']"

definition buildSessionChallengeMessage :: "challenge_terms \<Rightarrow> string" where
  "buildSessionChallengeMessage t = js_join newline (challenge_lines t)"

text \<open>Terms whose fields stay on one line, with an absent rather than an empty single-payment cap.\<close>

definition one_line_terms :: "challenge_terms \<Rightarrow> bool" where
  "one_line_terms t =
     (list_all (\<lambda>f. newline \<notin> set f)
        [cm_payerWallet t, cm_network t, cm_merchantWallet t, cm_maxTotalMicro t,
         cm_sessionExpiresAtIso t, cm_nonce t]
      \<and> (case cm_maxSingleMicro t of None \<Rightarrow> True | Some single \<Rightarrow> single \<noteq> [] \<and> newline \<notin> set single))"

lemma challenge_lines_one_line:
  "one_line_terms t \<Longrightarrow> l \<in> set (challenge_lines t) \<Longrightarrow> newline \<notin> set l"
  by (auto simp: challenge_lines_def one_line_terms_def split: option.splits if_splits)

lemma challenge_lines_inj:
  assumes "challenge_lines t = challenge_lines t'" and "one_line_terms t" "one_line_terms t'"
  shows "t = t'"
  using assms
  by (cases t; cases t'; cases "cm_maxSingleMicro t"; cases "cm_maxSingleMicro t'")
     (auto simp: challenge_lines_def one_line_terms_def)

lemma url_safe_sample: "url_safe ''tok_abc''" "url_safe ''n1''"
  by code_simp+

section \<open>Properties\<close>

text \<open>
  A session payment header survives being written and parsed: for every token and nonce in
  the URL-safe alphabet and within the length limits, and every network text without surrounding
  white space, parsing \<open>session:<network>:<token>.<nonce>\<close> gives back exactly its parts.
\<close>

theorem session_header_roundtrip:
  assumes "url_safe token" and "length token \<le> MAX_SESSION_TOKEN_LENGTH"
    and "url_safe nonce" and "length nonce \<le> MAX_SESSION_NONCE_LENGTH"
    and "js_trim network = network" and "network \<noteq> []"
  shows "parseSessionPaymentHeader (session_header_text network token (Some nonce)) =
           Some \<lparr>sh_network = network, sh_token = token, sh_nonce = Some nonce\<rparr>
         \<and> parseSessionPaymentHeader (session_header_text network token None) =
           Some \<lparr>sh_network = network, sh_token = token, sh_nonce = None\<rparr>"
  using assms parse_session_header_text [of token "Some nonce" network]
    parse_session_header_text [of token None network] by simp

lemma session_header_roundtrip_witness:
  "parseSessionPaymentHeader ''session:solana:5eykt4UsFv8P8NJdTREpY1vzqKqZKvdp:tok_abc.n1'' =
     Some \<lparr>sh_network = SOLANA_MAINNET_CAIP2, sh_token = ''tok_abc'', sh_nonce = Some ''n1''\<rparr>"
proof -
  have "session_header_text SOLANA_MAINNET_CAIP2 ''tok_abc'' (Some ''n1'') =
        ''session:solana:5eykt4UsFv8P8NJdTREpY1vzqKqZKvdp:tok_abc.n1''"
    by code_simp
  with session_header_roundtrip [of "''tok_abc''" "''n1''" SOLANA_MAINNET_CAIP2] show ?thesis
    by (simp add: url_safe_sample MAX_SESSION_TOKEN_LENGTH_def MAX_SESSION_NONCE_LENGTH_def
          SOLANA_MAINNET_CAIP2_def js_trim_def js_space_def)
qed

text \<open>
  The signed message fixes every term of the session: two sets of one-line terms with the
  same challenge message are the same payer, network, merchant, caps, expiry and nonce.
\<close>

theorem challenge_message_binds_terms:
  assumes "one_line_terms t" and "one_line_terms t'"
    and "buildSessionChallengeMessage t = buildSessionChallengeMessage t'"
  shows "t = t'"
proof (rule challenge_lines_inj)
  show "challenge_lines t = challenge_lines t'"
    using assms challenge_lines_one_line
    by (intro js_join_inj [of newline]) (auto simp: buildSessionChallengeMessage_def challenge_lines_def)
qed (use assms in simp_all)

definition sample_terms :: challenge_terms where
  "sample_terms =
     \<lparr>cm_payerWallet = ''payer'', cm_network = BASE_MAINNET_CAIP2, cm_merchantWallet = ''merchant'',
      cm_maxTotalMicro = ''5000000'', cm_maxSingleMicro = Some ''1000000'',
      cm_sessionExpiresAtIso = ''2026-01-08T00:00:00.000Z'', cm_nonce = ''ab12''\<rparr>"

lemma challenge_message_binds_terms_witness:
  "buildSessionChallengeMessage sample_terms
   \<noteq> buildSessionChallengeMessage (sample_terms\<lparr>cm_maxTotalMicro := ''9000000''\<rparr>)"
proof
  let ?t = "sample_terms\<lparr>cm_maxTotalMicro := ''9000000''\<rparr>"
  assume eq: "buildSessionChallengeMessage sample_terms = buildSessionChallengeMessage ?t"
  have "one_line_terms sample_terms" "one_line_terms ?t" by code_simp+
  from challenge_message_binds_terms [OF this eq] show False by (simp add: sample_terms_def)
qed

end
