(* ===== verification/Sessions.thy ===== *)
theory Sessions
  imports Settlement Networks
begin

text \<open>
  The tables behind session payments in \<open>db/queries.ts\<close>: the payment nonce guard, session challenges
  and payment sessions, one definition per query.  Each is a single SQL statement, so each is one
  atomic step.
\<close>

section \<open>Single-row writes\<close>

definition put_guard :: "string \<times> string \<Rightarrow> nonce_guard \<Rightarrow> db \<Rightarrow> db" where
  "put_guard k row s = s\<lparr>t_nonce_guard := (t_nonce_guard s)(k \<mapsto> row)\<rparr>"

definition put_challenge :: "string \<Rightarrow> session_challenge \<Rightarrow> db \<Rightarrow> db" where
  "put_challenge k row s = s\<lparr>t_session_challenges := (t_session_challenges s)(k \<mapsto> row)\<rparr>"

definition put_session :: "string \<Rightarrow> payment_session \<Rightarrow> db \<Rightarrow> db" where
  "put_session k row s = s\<lparr>t_payment_sessions := (t_payment_sessions s)(k \<mapsto> row)\<rparr>"

interpretation guards: keyed_store t_nonce_guard put_guard
  by unfold_locales (simp_all add: put_guard_def)

interpretation challenges: keyed_store t_session_challenges put_challenge
  by unfold_locales (simp_all add: put_challenge_def)

interpretation sessions: keyed_store t_payment_sessions put_session
  by unfold_locales (simp_all add: put_session_def)

section \<open>The payment nonce guard\<close>

text \<open>
  \<open>INSERT .. ON CONFLICT (payer_wallet, nonce) DO NOTHING RETURNING id\<close>: true when the row is new.  The
  amount is a \<open>NUMERIC(20, 6)\<close>; the value is checked against the column before the conflict is.
\<close>

definition reservePaymentNonce ::
  "env \<Rightarrow> string \<Rightarrow> string \<Rightarrow> string \<Rightarrow> string \<Rightarrow> string \<Rightarrow> rat \<Rightarrow> (db, bool) tx" where
  "reservePaymentNonce e payerWallet nonce usage network resource amount =
     (let row = \<lparr>ng_usage = usage, ng_network = network, ng_resource = resource,
                 ng_amount = numeric6 amount, ng_created_at = env_now e, ng_tx_hash = None,
                 ng_settlement_id = None\<rparr>;
          k = (payerWallet, nonce) in
      thenT (ensureT (\<lambda>_. numeric6_fits amount) (Pg (NumericOverflow ''payment_nonce_guard'')))
     (bindT (getT (\<lambda>s. t_nonce_guard s k = None)) (\<lambda>fresh.
      thenT (modifyT (insert_if_absent t_nonce_guard put_guard k row))
     (returnT fresh))))"

definition getPaymentNonceGuard :: "string \<Rightarrow> string \<Rightarrow> db \<Rightarrow> nonce_guard option" where
  "getPaymentNonceGuard payerWallet nonce s = t_nonce_guard s (payerWallet, nonce)"

text \<open>An update of the guard row with a given key; nothing happens when there is none.\<close>

definition update_guard :: "string \<times> string \<Rightarrow> (nonce_guard \<Rightarrow> nonce_guard) \<Rightarrow> db \<Rightarrow> db" where
  "update_guard k f s = (case t_nonce_guard s k of None \<Rightarrow> s | Some row \<Rightarrow> put_guard k (f row) s)"

definition setPaymentNonceSettlementId :: "string \<Rightarrow> string \<Rightarrow> string \<Rightarrow> (db, unit) tx" where
  "setPaymentNonceSettlementId payerWallet nonce settlementId =
     modifyT (update_guard (payerWallet, nonce) (\<lambda>r. r\<lparr>ng_settlement_id := Some settlementId\<rparr>))"

definition setPaymentNonceTxHash :: "string \<Rightarrow> string \<Rightarrow> string \<Rightarrow> (db, unit) tx" where
  "setPaymentNonceTxHash payerWallet nonce txHash =
     modifyT (update_guard (payerWallet, nonce) (\<lambda>r. r\<lparr>ng_tx_hash := Some txHash\<rparr>))"

definition deletePaymentNonceGuard :: "string \<Rightarrow> string \<Rightarrow> (db, unit) tx" where
  "deletePaymentNonceGuard payerWallet nonce =
     modifyT (\<lambda>s. case t_nonce_guard s (payerWallet, nonce) of
                    Some row \<Rightarrow>
                      if ng_tx_hash row = None
                      then s\<lparr>t_nonce_guard := (t_nonce_guard s)((payerWallet, nonce) := None)\<rparr>
                      else s
                  | None \<Rightarrow> s)"

section \<open>Session challenges\<close>

definition challenge_fits :: "session_challenge \<Rightarrow> bool" where
  "challenge_fits c =
     (numeric30_fits (sc_max_total_micro c) \<and>
      (case sc_max_single_micro c of None \<Rightarrow> True | Some m \<Rightarrow> numeric30_fits m))"

definition insertSessionChallenge :: "string \<Rightarrow> session_challenge \<Rightarrow> (db, unit) tx" where
  "insertSessionChallenge nonce row =
     thenT (ensureT (\<lambda>_. challenge_fits row) (Pg (NumericOverflow ''session_challenges'')))
           (modifyT (insert_if_absent t_session_challenges put_challenge nonce row))"

text \<open>A challenge can be used while it is unused and its own expiry lies ahead.\<close>

definition challenge_usable :: "env \<Rightarrow> session_challenge \<Rightarrow> bool" where
  "challenge_usable e c = (sc_used_at c = None \<and> env_now e < sc_expires_at c)"

definition getSessionChallenge :: "env \<Rightarrow> string \<Rightarrow> db \<Rightarrow> session_challenge option" where
  "getSessionChallenge e nonce s =
     (case t_session_challenges s nonce of
        Some c \<Rightarrow> if challenge_usable e c then Some c else None
      | None \<Rightarrow> None)"

definition markSessionChallengeUsed :: "env \<Rightarrow> string \<Rightarrow> (db, bool) tx" where
  "markSessionChallengeUsed e nonce = (\<lambda>s.
     case getSessionChallenge e nonce s of
       None \<Rightarrow> Inr (False, s)
     | Some c \<Rightarrow> Inr (True, put_challenge nonce (c\<lparr>sc_used_at := Some (env_now e)\<rparr>) s))"

section \<open>Payment sessions\<close>

record session_params =
  np_payerWallet :: string
  np_network :: string
  np_merchantWallet :: string
  np_maxTotalMicro :: int
  np_maxSingleMicro :: "int option"
  np_expiresAt :: int

definition new_session :: "session_params \<Rightarrow> payment_session" where
  "new_session p =
     \<lparr>ps_payer_wallet = np_payerWallet p, ps_network = np_network p,
      ps_merchant_wallet = np_merchantWallet p, ps_max_total_micro = np_maxTotalMicro p,
      ps_max_single_micro = np_maxSingleMicro p, ps_spent_micro = 0, ps_expires_at = np_expiresAt p,
      ps_last_used_at = None, ps_revoked_at = None\<rparr>"

definition insertPaymentSession :: "string \<Rightarrow> session_params \<Rightarrow> (db, payment_session) tx" where
  "insertPaymentSession tokenHash p =
     thenT (ensureT (\<lambda>_. numeric30_fits (np_maxTotalMicro p) \<and>
                         (case np_maxSingleMicro p of None \<Rightarrow> True | Some m \<Rightarrow> numeric30_fits m))
              (Pg (NumericOverflow ''payment_sessions'')))
    (thenT (ensureT (\<lambda>s. t_payment_sessions s tokenHash = None)
              (Pg (UniqueViolation ''payment_sessions_token_hash_key'')))
    (thenT (modifyT (put_session tokenHash (new_session p)))
    (returnT (new_session p))))"

definition getPaymentSessionByTokenHash :: "string \<Rightarrow> db \<Rightarrow> payment_session option" where
  "getPaymentSessionByTokenHash tokenHash s = t_payment_sessions s tokenHash"

definition revokePaymentSession :: "env \<Rightarrow> string \<Rightarrow> (db, bool) tx" where
  "revokePaymentSession e tokenHash = (\<lambda>s.
     case t_payment_sessions s tokenHash of
       Some row \<Rightarrow>
         if ps_revoked_at row = None
         then Inr (True, put_session tokenHash (row\<lparr>ps_revoked_at := Some (env_now e)\<rparr>) s)
         else Inr (False, s)
     | None \<Rightarrow> Inr (False, s))"

text \<open>The \<open>WHERE\<close> clause of the spending update: live, unexpired, and room under the cap.\<close>

definition session_has_room :: "env \<Rightarrow> int \<Rightarrow> payment_session \<Rightarrow> bool" where
  "session_has_room e delta row =
     (ps_revoked_at row = None \<and> env_now e < ps_expires_at row
      \<and> ps_spent_micro row + delta \<le> ps_max_total_micro row)"

definition reservePaymentSessionSpend :: "env \<Rightarrow> string \<Rightarrow> int \<Rightarrow> (db, bool) tx" where
  "reservePaymentSessionSpend e tokenHash delta = (\<lambda>s.
     case t_payment_sessions s tokenHash of
       Some row \<Rightarrow>
         if session_has_room e delta row
         then (if numeric30_fits (ps_spent_micro row + delta)
               then Inr (True, put_session tokenHash
                           (row\<lparr>ps_spent_micro := ps_spent_micro row + delta,
                                ps_last_used_at := Some (env_now e)\<rparr>) s)
               else Inl (Pg (NumericOverflow ''spent_micro'')))
         else Inr (False, s)
     | None \<Rightarrow> Inr (False, s))"

definition releasePaymentSessionSpend :: "string \<Rightarrow> int \<Rightarrow> (db, unit) tx" where
  "releasePaymentSessionSpend tokenHash delta =
     modifyT (\<lambda>s. case t_payment_sessions s tokenHash of
                    Some row \<Rightarrow> put_session tokenHash
                                  (row\<lparr>ps_spent_micro := max (ps_spent_micro row - delta) 0\<rparr>) s
                  | None \<Rightarrow> s)"

section \<open>The fee ledger\<close>

definition insertFeeLedger ::
  "string option \<Rightarrow> string option \<Rightarrow> string \<Rightarrow> rat \<Rightarrow> string option \<Rightarrow> (db, unit) tx" where
  "insertFeeLedger settlementId escrowId feeType amount treasuryTx =
     insert_fee_row \<lparr>fl_settlement_id = settlementId, fl_escrow_id = escrowId, fl_fee_type = feeType,
                     fl_amount = amount, fl_treasury_tx = treasuryTx\<rparr>"

section \<open>Tokens\<close>

text \<open>
  \<open>randomBytes(32).toString('base64url')\<close>: base64 with \<open>-\<close> and \<open>_\<close> for \<open>+\<close> and \<open>/\<close> and without padding.  The
  random bytes are an argument.  A token is stored under its SHA-256 only.
\<close>

definition base64url :: "nat list \<Rightarrow> string" where
  "base64url bs =
     map (\<lambda>c. if c = CHR ''+'' then CHR ''-'' else if c = CHR ''/'' then CHR ''_'' else c)
         (filter (\<lambda>c. c \<noteq> CHR ''='') (base64 bs))"

definition generateSessionToken :: "nat list \<Rightarrow> string" where
  "generateSessionToken randomBytes = base64url randomBytes"

definition hashSessionToken :: "env \<Rightarrow> string \<Rightarrow> string" where
  "hashSessionToken e token = env_sha256 e token"

end
