(* ===== verification/Request_Compat.thy ===== *)
theory Request_Compat
  imports Schema Networks
begin

text \<open>
  The request adapters of \<open>protocol/request-compat.ts\<close>: the three shapes of a verify or settle body
  (legacy, header plus requirements, payload plus requirements) are read into one record.
\<close>

section \<open>Results\<close>

datatype input_mode = Legacy | X402

record kizuna_requirement =
  kr_agentId :: string
  kr_repayWallet :: string
  kr_lane :: lane
  kr_collateralAccount :: "string option"
  kr_poolId :: "string option"
  kr_decisionEnvelope :: "json option"

record verify_input =
  vi_mode :: input_mode
  vi_paymentHeader :: string
  vi_resource :: "string option"
  vi_maxAmount :: "rat option"
  vi_requirementAmountRaw :: "string option"
  vi_requirementNetwork :: "string option"
  vi_requirementPayTo :: "string option"
  vi_requirementKizuna :: "kizuna_requirement option"

record settle_input =
  si_mode :: input_mode
  si_paymentHeader :: string
  si_merchantWallet :: string
  si_amount :: "rat option"
  si_asset :: string
  si_requirementAmountRaw :: "string option"
  si_requirementNetwork :: "string option"
  si_requirementResource :: "string option"
  si_requirementKizuna :: "kizuna_requirement option"

text \<open>\<open>{ ok: false, error }\<close> is \<open>Inl error\<close>, \<open>{ ok: true, value }\<close> is \<open>Inr value\<close>.\<close>

type_synonym 'a parsed = "string + 'a"

definition require :: "'a option \<Rightarrow> string \<Rightarrow> ('a \<Rightarrow> 'b parsed) \<Rightarrow> 'b parsed" where
  "require v msg k = (case v of None \<Rightarrow> Inl msg | Some x \<Rightarrow> k x)"

definition bind_parsed :: "'a parsed \<Rightarrow> ('a \<Rightarrow> 'b parsed) \<Rightarrow> 'b parsed" where
  "bind_parsed r k = (case r of Inl e \<Rightarrow> Inl e | Inr x \<Rightarrow> k x)"

section \<open>The payment header\<close>

definition is_string :: "json option \<Rightarrow> bool" where
  "is_string v = (case v of Some (JStr _) \<Rightarrow> True | _ \<Rightarrow> False)"

definition is_number :: "json option \<Rightarrow> bool" where
  "is_number v = (case v of Some (JNum _) \<Rightarrow> True | _ \<Rightarrow> False)"

definition isDecodedPaymentShape :: "json_object \<Rightarrow> bool" where
  "isDecodedPaymentShape payload =
     (is_string (jget payload ''signature'') \<and> is_string (jget payload ''payer'')
      \<and> is_number (jget payload ''timestamp'') \<and> is_string (jget payload ''nonce'')
      \<and> is_string (jget payload ''resource'') \<and> is_string (jget payload ''amount'')
      \<and> is_string (jget payload ''authSignature''))"

definition encodeDecodedPaymentHeader :: "json_object \<Rightarrow> string \<Rightarrow> string \<Rightarrow> string" where
  "encodeDecodedPaymentHeader payload scheme network =
     scheme @ CHR '':'' # network @ CHR '':'' # base64 (utf8_bytes (JSON_stringify (JObj payload)))"

definition extractPaymentHeader :: "json option \<Rightarrow> string \<Rightarrow> string \<Rightarrow> string option" where
  "extractPaymentHeader payload scheme network =
     (case asString payload of
        Some header \<Rightarrow> Some header
      | None \<Rightarrow>
          (case asRecord payload of
             None \<Rightarrow> None
           | Some r \<Rightarrow>
               (case asString (jget r ''paymentHeader'') of
                  Some embeddedHeader \<Rightarrow> Some embeddedHeader
                | None \<Rightarrow>
                    if isDecodedPaymentShape r then Some (encodeDecodedPaymentHeader r scheme network)
                    else None)))"

section \<open>Fields of the requirements, with their fallbacks\<close>

definition accepted_of :: "json_object \<Rightarrow> json_object option" where
  "accepted_of paymentPayload = asRecord (jget paymentPayload ''accepted'')"

definition extractRequirementNetwork :: "json_object \<Rightarrow> json_object \<Rightarrow> string option" where
  "extractRequirementNetwork paymentRequirements paymentPayload =
     or_else (asString (jget paymentRequirements ''network''))
    (or_else (asString (jget_opt (accepted_of paymentPayload) ''network''))
             (asString (jget paymentPayload ''network'')))"

definition extractRequirementAmountRaw :: "json_object \<Rightarrow> json_object \<Rightarrow> string option" where
  "extractRequirementAmountRaw paymentRequirements paymentPayload =
     or_else (asString (jget paymentRequirements ''amount''))
    (or_else (asString (jget paymentRequirements ''maxAmountRequired''))
    (or_else (asString (jget_opt (accepted_of paymentPayload) ''amount''))
             (asString (jget_opt (accepted_of paymentPayload) ''maxAmountRequired''))))"

definition extractResource :: "json_object \<Rightarrow> json_object \<Rightarrow> string option" where
  "extractResource paymentRequirements paymentPayload =
     or_else (asString (jget paymentRequirements ''resource''))
             (asString (jget_opt (asRecord (jget paymentPayload ''resource'')) ''url''))"

definition extractMerchantWallet :: "json_object \<Rightarrow> json_object \<Rightarrow> string option" where
  "extractMerchantWallet paymentRequirements paymentPayload =
     or_else (asString (jget paymentRequirements ''payTo''))
             (asString (jget_opt (accepted_of paymentPayload) ''payTo''))"

definition or_text :: "string option \<Rightarrow> string \<Rightarrow> string" where
  "or_text v fallback = (case v of Some t \<Rightarrow> t | None \<Rightarrow> fallback)"

definition extractAsset :: "json_object \<Rightarrow> json_object \<Rightarrow> string option \<Rightarrow> string" where
  "extractAsset paymentRequirements paymentPayload fallback =
     or_text
       (or_else (asString (jget paymentRequirements ''asset''))
       (or_else (asString (jget_opt (accepted_of paymentPayload) ''asset''))
                (asString (map_option JStr fallback))))
       ''USDC''"

definition extractScheme :: "json_object \<Rightarrow> json_object \<Rightarrow> string" where
  "extractScheme paymentRequirements paymentPayload =
     or_text
       (or_else (asString (jget paymentRequirements ''scheme''))
       (or_else (asString (jget_opt (accepted_of paymentPayload) ''scheme''))
                (asString (jget paymentPayload ''scheme''))))
       ''exact''"

section \<open>The Kizuna extension\<close>

definition parse_lane :: "string \<Rightarrow> lane option" where
  "parse_lane laneRaw =
     (if laneRaw = ''enterprise'' then Some Enterprise
      else if laneRaw = ''crypto-fast'' then Some CryptoFast else None)"

definition extractKizunaRequirement :: "json_object \<Rightarrow> kizuna_requirement option parsed" where
  "extractKizunaRequirement paymentRequirements =
     (case asRecord (jget paymentRequirements ''extra'') of
        None \<Rightarrow> Inr None
      | Some extra \<Rightarrow>
     (case asRecord (jget extra ''kizuna'') of
        None \<Rightarrow> Inr None
      | Some kizuna \<Rightarrow>
          (let collateralAccount = asString (jget kizuna ''collateralAccount'') in
           if asString (jget kizuna ''mode'') \<noteq> Some ''credit'' then
             Inl ''paymentRequirements.extra.kizuna.mode must be credit''
           else require (asString (jget kizuna ''agentId''))
                  ''paymentRequirements.extra.kizuna.agentId is required'' (\<lambda>agentId.
                require (asString (jget kizuna ''repayWallet''))
                  ''paymentRequirements.extra.kizuna.repayWallet is required'' (\<lambda>repayWallet.
                require (parse_lane (or_text (asString (jget kizuna ''lane'')) ''enterprise''))
                  ''paymentRequirements.extra.kizuna.lane must be enterprise or crypto-fast'' (\<lambda>l.
                if l = CryptoFast \<and> collateralAccount = None then
                  Inl ''paymentRequirements.extra.kizuna.collateralAccount is required for lane=crypto-fast''
                else
                  Inr (Some \<lparr>kr_agentId = agentId, kr_repayWallet = repayWallet, kr_lane = l,
                             kr_collateralAccount = collateralAccount,
                             kr_poolId = asString (jget kizuna ''poolId''),
                             kr_decisionEnvelope = jget kizuna ''decisionEnvelope''\<rparr>)))))))"

section \<open>parseVerifyInput\<close>

definition verify_header_requirements :: "json_object \<Rightarrow> string \<Rightarrow> json_object \<Rightarrow> verify_input parsed" where
  "verify_header_requirements ro legacyHeader requirements =
     bind_parsed (extractKizunaRequirement requirements) (\<lambda>kizuna.
     require (asString (jget requirements ''network'')) ''Missing paymentRequirements.network'' (\<lambda>network.
     require (or_else (asString (jget requirements ''amount''))
                      (asString (jget requirements ''maxAmountRequired'')))
             ''Missing paymentRequirements.amount'' (\<lambda>amountRaw.
     Inr \<lparr>vi_mode = X402, vi_paymentHeader = legacyHeader,
          vi_resource = or_else (asString (jget requirements ''resource'')) (asString (jget ro ''resource'')),
          vi_maxAmount = None, vi_requirementAmountRaw = Some amountRaw,
          vi_requirementNetwork = Some network,
          vi_requirementPayTo = asString (jget requirements ''payTo''),
          vi_requirementKizuna = kizuna\<rparr>)))"

definition verify_payload_requirements :: "json_object \<Rightarrow> json_object \<Rightarrow> verify_input parsed" where
  "verify_payload_requirements paymentPayload paymentRequirements =
     bind_parsed (extractKizunaRequirement paymentRequirements) (\<lambda>kizuna.
     require (extractRequirementNetwork paymentRequirements paymentPayload)
             ''Missing paymentRequirements.network'' (\<lambda>network.
     require (extractPaymentHeader (jget paymentPayload ''payload'')
                (extractScheme paymentRequirements paymentPayload) network)
             ''Missing or invalid paymentPayload.payload'' (\<lambda>paymentHeader.
     require (extractRequirementAmountRaw paymentRequirements paymentPayload)
             ''Missing paymentRequirements.amount'' (\<lambda>amountRaw.
     Inr \<lparr>vi_mode = X402, vi_paymentHeader = paymentHeader,
          vi_resource = extractResource paymentRequirements paymentPayload,
          vi_maxAmount = None, vi_requirementAmountRaw = Some amountRaw,
          vi_requirementNetwork = Some network,
          vi_requirementPayTo = extractMerchantWallet paymentRequirements paymentPayload,
          vi_requirementKizuna = kizuna\<rparr>))))"

definition parseVerifyInput :: "json option \<Rightarrow> verify_input parsed" where
  "parseVerifyInput body =
     require (asRecord body) ''Missing request body'' (\<lambda>ro.
       (let requirements = asRecord (jget ro ''paymentRequirements'') in
        case asString (jget ro ''paymentHeader'') of
          Some legacyHeader \<Rightarrow>
            (case requirements of
               Some r \<Rightarrow> verify_header_requirements ro legacyHeader r
             | None \<Rightarrow>
                 Inr \<lparr>vi_mode = Legacy, vi_paymentHeader = legacyHeader,
                      vi_resource = asString (jget ro ''resource''),
                      vi_maxAmount = asNumber (jget ro ''maxAmount''),
                      vi_requirementAmountRaw = None, vi_requirementNetwork = None,
                      vi_requirementPayTo = None, vi_requirementKizuna = None\<rparr>)
        | None \<Rightarrow>
            (case (asRecord (jget ro ''paymentPayload''), requirements) of
               (Some p, Some r) \<Rightarrow> verify_payload_requirements p r
             | _ \<Rightarrow> Inl ''Missing paymentPayload or paymentRequirements'')))"

section \<open>parseSettleInput\<close>

definition settle_header_requirements :: "json_object \<Rightarrow> string \<Rightarrow> json_object \<Rightarrow> settle_input parsed" where
  "settle_header_requirements ro legacyHeader requirements =
     bind_parsed (extractKizunaRequirement requirements) (\<lambda>kizuna.
     require (asString (jget requirements ''network'')) ''Missing paymentRequirements.network'' (\<lambda>network.
     require (or_else (asString (jget requirements ''amount''))
                      (asString (jget requirements ''maxAmountRequired'')))
             ''Missing paymentRequirements.amount'' (\<lambda>amountRaw.
     require (asString (jget requirements ''payTo'')) ''Missing paymentRequirements.payTo'' (\<lambda>merchantWallet.
     Inr \<lparr>si_mode = X402, si_paymentHeader = legacyHeader, si_merchantWallet = merchantWallet,
          si_amount = None,
          si_asset = or_text (or_else (asString (jget requirements ''asset'')) (asString (jget ro ''asset''))) ''USDC'',
          si_requirementAmountRaw = Some amountRaw, si_requirementNetwork = Some network,
          si_requirementResource = asString (jget requirements ''resource''),
          si_requirementKizuna = kizuna\<rparr>))))"

definition settle_payload_requirements ::
  "json_object \<Rightarrow> json_object \<Rightarrow> json_object \<Rightarrow> settle_input parsed" where
  "settle_payload_requirements ro paymentPayload paymentRequirements =
     bind_parsed (extractKizunaRequirement paymentRequirements) (\<lambda>kizuna.
     require (extractRequirementNetwork paymentRequirements paymentPayload)
             ''Missing paymentRequirements.network'' (\<lambda>network.
     require (extractPaymentHeader (jget paymentPayload ''payload'')
                (extractScheme paymentRequirements paymentPayload) network)
             ''Missing or invalid paymentPayload.payload'' (\<lambda>paymentHeader.
     require (extractMerchantWallet paymentRequirements paymentPayload)
             ''Missing paymentRequirements.payTo'' (\<lambda>merchantWallet.
     require (extractRequirementAmountRaw paymentRequirements paymentPayload)
             ''Missing paymentRequirements.amount'' (\<lambda>amountRaw.
     Inr \<lparr>si_mode = X402, si_paymentHeader = paymentHeader, si_merchantWallet = merchantWallet,
          si_amount = None,
          si_asset = extractAsset paymentRequirements paymentPayload (asString (jget ro ''asset'')),
          si_requirementAmountRaw = Some amountRaw, si_requirementNetwork = Some network,
          si_requirementResource = extractResource paymentRequirements paymentPayload,
          si_requirementKizuna = kizuna\<rparr>)))))"

definition parseSettleInput :: "json option \<Rightarrow> settle_input parsed" where
  "parseSettleInput body =
     require (asRecord body) ''Missing request body'' (\<lambda>ro.
       (let requirements = asRecord (jget ro ''paymentRequirements'');
            legacyHeader = asString (jget ro ''paymentHeader'') in
        case (legacyHeader, asString (jget ro ''merchantWallet'')) of
          (Some h, Some w) \<Rightarrow>
            Inr \<lparr>si_mode = Legacy, si_paymentHeader = h, si_merchantWallet = w,
                 si_amount = asNumber (jget ro ''amount''),
                 si_asset = or_text (asString (jget ro ''asset'')) ''USDC'',
                 si_requirementAmountRaw = None, si_requirementNetwork = None,
                 si_requirementResource = None, si_requirementKizuna = None\<rparr>
        | _ \<Rightarrow>
            (case (legacyHeader, requirements) of
               (Some h, Some r) \<Rightarrow> settle_header_requirements ro h r
             | _ \<Rightarrow>
                 (case (asRecord (jget ro ''paymentPayload''), requirements) of
                    (Some p, Some r) \<Rightarrow> settle_payload_requirements ro p r
                  | _ \<Rightarrow> Inl ''Missing paymentPayload or paymentRequirements''))))"

section \<open>Lemmas\<close>

lemma require_Inr: "require v msg k = Inr x \<longleftrightarrow> (\<exists>y. v = Some y \<and> k y = Inr x)"
  by (auto simp: require_def split: option.splits)

lemma bind_parsed_Inr: "bind_parsed r k = Inr x \<longleftrightarrow> (\<exists>y. r = Inr y \<and> k y = Inr x)"
  by (auto simp: bind_parsed_def split: sum.splits)

lemmas parsed_Inr = require_Inr bind_parsed_Inr

lemma or_else_asString_ne: "or_else a b = Some s \<Longrightarrow> (a = Some s \<Longrightarrow> s \<noteq> []) \<Longrightarrow> (b = Some s \<Longrightarrow> s \<noteq> []) \<Longrightarrow> s \<noteq> []"
  by (auto simp: or_else_Some_iff)

lemma extract_not_Nil:
  "extractRequirementNetwork r p = Some s \<Longrightarrow> s \<noteq> []"
  "extractRequirementAmountRaw r p = Some s \<Longrightarrow> s \<noteq> []"
  "extractMerchantWallet r p = Some s \<Longrightarrow> s \<noteq> []"
  by (auto simp: extractRequirementNetwork_def extractRequirementAmountRaw_def extractMerchantWallet_def
        or_else_Some_iff dest: asString_not_Nil)

lemma extractPaymentHeader_not_Nil: "extractPaymentHeader v sch n = Some h \<Longrightarrow> h \<noteq> []"
  by (auto simp: extractPaymentHeader_def encodeDecodedPaymentHeader_def dest: asString_not_Nil
        split: option.splits if_splits)

lemma extractKizuna_Some:
  assumes "extractKizunaRequirement r = Inr (Some k)"
  shows "kr_agentId k \<noteq> [] \<and> kr_repayWallet k \<noteq> []
         \<and> (kr_lane k = Enterprise \<or> kr_collateralAccount k \<noteq> None)"
  using assms
  by (cases "kr_lane k") (auto simp: extractKizunaRequirement_def require_Inr Let_def dest: asString_not_Nil
      split: option.splits if_splits)

lemma bodyE:
  assumes "require (asRecord body) msg k = Inr x"
  obtains ro where "body = Some (JObj ro)" and "k ro = Inr x"
  using assms by (auto simp: require_Inr asRecord_def split: option.splits json.splits)

text \<open>The two ways in which a settle body without a top-level merchant wallet is accepted.\<close>

lemma parseSettle_cases:
  assumes "parseSettleInput body = Inr s"
  obtains (legacy) ro h w where "body = Some (JObj ro)" "asString (jget ro ''paymentHeader'') = Some h"
      "asString (jget ro ''merchantWallet'') = Some w" "si_mode s = Legacy"
      "si_paymentHeader s = h" "si_merchantWallet s = w"
  | (header) ro h r where "body = Some (JObj ro)" "asString (jget ro ''paymentHeader'') = Some h"
      "asString (jget ro ''merchantWallet'') = None"
      "asRecord (jget ro ''paymentRequirements'') = Some r" "settle_header_requirements ro h r = Inr s"
  | (payload) ro p r where "body = Some (JObj ro)" "asString (jget ro ''paymentHeader'') = None"
      "asRecord (jget ro ''paymentPayload'') = Some p"
      "asRecord (jget ro ''paymentRequirements'') = Some r" "settle_payload_requirements ro p r = Inr s"
  using assms
  by (auto simp: parseSettleInput_def Let_def elim!: bodyE split: option.splits)

lemma settle_header_Inr:
  assumes "settle_header_requirements ro h r = Inr s"
  shows "si_mode s = X402 \<and> si_paymentHeader s = h \<and> si_merchantWallet s \<noteq> []
    \<and> (\<exists>k n a v. extractKizunaRequirement r = Inr k \<and> n \<noteq> [] \<and> a \<noteq> []
        \<and> si_requirementKizuna s = k \<and> si_requirementNetwork s = Some n \<and> si_requirementAmountRaw s = Some a
        \<and> verify_header_requirements ro h r = Inr v \<and> vi_mode v = X402 \<and> vi_paymentHeader v = h
        \<and> vi_requirementKizuna v = k \<and> vi_requirementNetwork v = Some n
        \<and> vi_requirementAmountRaw v = Some a \<and> vi_requirementPayTo v = Some (si_merchantWallet s))"
proof -
  from assms obtain k n a w where
    k: "extractKizunaRequirement r = Inr k" and n: "asString (jget r ''network'') = Some n"
    and a: "or_else (asString (jget r ''amount'')) (asString (jget r ''maxAmountRequired'')) = Some a"
    and w: "asString (jget r ''payTo'') = Some w"
    and s: "si_mode s = X402" "si_paymentHeader s = h" "si_merchantWallet s = w"
      "si_requirementKizuna s = k" "si_requirementNetwork s = Some n" "si_requirementAmountRaw s = Some a"
    by (auto simp: settle_header_requirements_def parsed_Inr)
  have "n \<noteq> []" "w \<noteq> []" using n w asString_not_Nil by auto
  moreover have "a \<noteq> []" using a by (auto simp: or_else_Some_iff dest: asString_not_Nil)
  moreover obtain v where "verify_header_requirements ro h r = Inr v" "vi_mode v = X402"
    "vi_paymentHeader v = h" "vi_requirementKizuna v = k" "vi_requirementNetwork v = Some n"
    "vi_requirementAmountRaw v = Some a" "vi_requirementPayTo v = Some w"
    using k n a w by (simp add: verify_header_requirements_def bind_parsed_def require_def)
  ultimately show ?thesis using s k by auto
qed

lemma settle_payload_Inr:
  assumes "settle_payload_requirements ro p r = Inr s"
  shows "si_mode s = X402 \<and> si_paymentHeader s \<noteq> [] \<and> si_merchantWallet s \<noteq> []
    \<and> (\<exists>k n a v. extractKizunaRequirement r = Inr k \<and> n \<noteq> [] \<and> a \<noteq> []
        \<and> si_requirementKizuna s = k \<and> si_requirementNetwork s = Some n \<and> si_requirementAmountRaw s = Some a
        \<and> verify_payload_requirements p r = Inr v \<and> vi_mode v = X402
        \<and> vi_paymentHeader v = si_paymentHeader s
        \<and> vi_requirementKizuna v = k \<and> vi_requirementNetwork v = Some n
        \<and> vi_requirementAmountRaw v = Some a \<and> vi_requirementPayTo v = Some (si_merchantWallet s))"
proof -
  from assms obtain k n h w a where
    k: "extractKizunaRequirement r = Inr k" and n: "extractRequirementNetwork r p = Some n"
    and h: "extractPaymentHeader (jget p ''payload'') (extractScheme r p) n = Some h"
    and w: "extractMerchantWallet r p = Some w" and a: "extractRequirementAmountRaw r p = Some a"
    and s: "si_mode s = X402" "si_paymentHeader s = h" "si_merchantWallet s = w"
      "si_requirementKizuna s = k" "si_requirementNetwork s = Some n" "si_requirementAmountRaw s = Some a"
    by (auto simp: settle_payload_requirements_def parsed_Inr)
  have "n \<noteq> []" "w \<noteq> []" "a \<noteq> []" "h \<noteq> []"
    using n w a h extract_not_Nil extractPaymentHeader_not_Nil by blast+
  moreover obtain v where "verify_payload_requirements p r = Inr v" "vi_mode v = X402"
    "vi_paymentHeader v = h" "vi_requirementKizuna v = k" "vi_requirementNetwork v = Some n"
    "vi_requirementAmountRaw v = Some a" "vi_requirementPayTo v = Some w"
    using k n a w h by (simp add: verify_payload_requirements_def bind_parsed_def require_def)
  ultimately show ?thesis using s k by auto
qed

text \<open>A sample body: header, requirements and the Kizuna extension.\<close>

definition sample_body :: json where
  "sample_body = JObj
     [(''paymentHeader'', JStr ''exact:eip155:8453:Zm9v''),
      (''paymentRequirements'', JObj
        [(''network'', JStr ''eip155:8453''), (''amount'', JStr ''1500000''),
         (''payTo'', JStr ''0x8ba1''),
         (''extra'', JObj [(''kizuna'', JObj [(''mode'', JStr ''credit''), (''agentId'', JStr ''agent-123''),
            (''repayWallet'', JStr ''repay'')])])])]"

section \<open>Properties\<close>

text \<open>
  Claim C39. Verify and settle read a request alike: a body without a top-level merchant wallet that
  the settle adapter accepts is accepted by the verify adapter, with the same payment header,
  network, amount, payee and Kizuna terms, none of them empty; and an accepted Kizuna requirement names
  an agent, a repay wallet and, in the crypto-fast lane, a collateral account.
\<close>

theorem settle_agrees_with_verify:
  assumes "parseSettleInput (Some (JObj ro)) = Inr s"
    and "asString (jget ro ''merchantWallet'') = None"
  shows "\<exists>v n a. parseVerifyInput (Some (JObj ro)) = Inr v \<and> vi_mode v = X402 \<and> si_mode s = X402
           \<and> vi_paymentHeader v = si_paymentHeader s \<and> si_paymentHeader s \<noteq> []
           \<and> vi_requirementNetwork v = Some n \<and> si_requirementNetwork s = Some n \<and> n \<noteq> []
           \<and> vi_requirementAmountRaw v = Some a \<and> si_requirementAmountRaw s = Some a \<and> a \<noteq> []
           \<and> vi_requirementPayTo v = Some (si_merchantWallet s) \<and> si_merchantWallet s \<noteq> []
           \<and> vi_requirementKizuna v = si_requirementKizuna s
           \<and> (case si_requirementKizuna s of
                None \<Rightarrow> True
              | Some k \<Rightarrow> kr_agentId k \<noteq> [] \<and> kr_repayWallet k \<noteq> []
                          \<and> (kr_lane k = Enterprise \<or> kr_collateralAccount k \<noteq> None))"
  using assms(1)
proof (cases rule: parseSettle_cases)
  case (legacy ro' h w)
  with assms(2) show ?thesis by simp
next
  case (header ro' h r)
  then have v: "verify_header_requirements ro h r = parseVerifyInput (Some (JObj ro))" and h: "h \<noteq> []"
    using asString_not_Nil by (auto simp: parseVerifyInput_def require_def asRecord_def)
  from header have s: "settle_header_requirements ro h r = Inr s" by simp
  show ?thesis
    using settle_header_Inr [OF s] h extractKizuna_Some [of r] unfolding v
    by (elim conjE exE) (simp split: option.split)
next
  case (payload ro' p r)
  then have v: "verify_payload_requirements p r = parseVerifyInput (Some (JObj ro))"
    by (auto simp: parseVerifyInput_def require_def asRecord_def)
  from payload have s: "settle_payload_requirements ro p r = Inr s" by simp
  show ?thesis
    using settle_payload_Inr [OF s] extractKizuna_Some [of r] unfolding v
    by (elim conjE exE) (simp split: option.split)
qed

lemma settle_agrees_with_verify_witness:
  "\<exists>s v. parseSettleInput (Some sample_body) = Inr s \<and> parseVerifyInput (Some sample_body) = Inr v
         \<and> vi_requirementKizuna v = si_requirementKizuna s \<and> si_requirementKizuna s \<noteq> None"
proof -
  define ro where "ro = (case sample_body of JObj ps \<Rightarrow> ps | _ \<Rightarrow> [])"
  then have body: "sample_body = JObj ro" by (simp add: sample_body_def)
  have none: "asString (jget ro ''merchantWallet'') = None"
    by (simp add: ro_def sample_body_def jget_def)
  have "\<exists>s. parseSettleInput (Some sample_body) = Inr s \<and> si_requirementKizuna s \<noteq> None"
    by (simp add: parseSettleInput_def settle_header_requirements_def extractKizunaRequirement_def
        require_def bind_parsed_def sample_body_def jget_def asRecord_def asString_def js_trim_def
        js_space_def or_text_def parse_lane_def)
  then obtain s where "parseSettleInput (Some (JObj ro)) = Inr s" "si_requirementKizuna s \<noteq> None"
    unfolding body by blast
  with settle_agrees_with_verify [of ro s] none show ?thesis unfolding body by auto
qed

end
