(* ===== verification/Amounts.thy ===== *)
theory Amounts
  imports Js_Number
begin

text \<open>
  The floating-point amount parsers of \<open>protocol/request-compat.ts\<close>: \<open>parseUsdcMicroAmount\<close>,
  \<open>parseSignedUsdcAmount\<close> and \<open>matchesUsdcAmount\<close>.  A request is priced twice, once by these parsers
  (for the limit checks and the settlement row) and once by the exact \<open>parseUsdcMicroAmountBigint\<close>
  (for the ledger), so the lemmas here compare the two: below \<open>2 ^ 50\<close> micro-USDC, about 1.1 billion
  USDC, the two rounding steps of the first never move an amount off the exact one.
\<close>

section \<open>parseUsdcMicroAmount\<close>

text \<open>\<open>Math.round(n * USDC_MICRO)\<close>, for the finite positive \<open>n\<close> that the callers let through.\<close>

definition scaled_micro :: "rat \<Rightarrow> int option" where
  "scaled_micro n =
     (case double_of (n * 10 ^ 6) of
        Finite y \<Rightarrow> (let units = js_Math_round y in
                     if safe_integer (of_int units) \<and> 0 < units then Some units else None)
      | _ \<Rightarrow> None)"

definition safe_positive :: "js_num \<Rightarrow> int option" where
  "safe_positive v =
     (case v of Finite x \<Rightarrow> if safe_integer x \<and> 0 < x then Some \<lfloor>x\<rfloor> else None | _ \<Rightarrow> None)"

definition parseUsdcMicroAmount :: "string \<Rightarrow> int option" where
  "parseUsdcMicroAmount amountRaw =
     (let trimmed = js_trim amountRaw in
      if trimmed = [] then None
      else if list_all is_digit trimmed then safe_positive (js_Number trimmed)
      else (case js_Number trimmed of
              Finite n \<Rightarrow> if n \<le> 0 then None else scaled_micro n
            | _ \<Rightarrow> None))"

section \<open>parseSignedUsdcAmount\<close>

text \<open>
  The signed amount may be meant in USDC or, when it is a digit string, in micro-USDC; both readings
  are candidates.  With a requirement amount that can be read, the candidate equal to it is taken;
  without one, the smaller candidate.  The result is a number of USDC.
\<close>

definition option_list :: "'a option \<Rightarrow> 'a list" where
  "option_list v = (case v of None \<Rightarrow> [] | Some x \<Rightarrow> [x])"

definition signed_candidates :: "string \<Rightarrow> int list" where
  "signed_candidates trimmed =
     option_list (case js_Number trimmed of
                    Finite n \<Rightarrow> if 0 < n then scaled_micro n else None
                  | _ \<Rightarrow> None)
     @ (if list_all is_digit trimmed then option_list (safe_positive (js_Number trimmed)) else [])"

definition expected_micro :: "string option \<Rightarrow> int option" where
  "expected_micro expectedAmountRaw =
     (case expectedAmountRaw of
        Some t \<Rightarrow> if js_trim t \<noteq> [] then parseUsdcMicroAmount t else None
      | None \<Rightarrow> None)"

definition parseSignedUsdcAmount :: "string \<Rightarrow> string option \<Rightarrow> rat option" where
  "parseSignedUsdcAmount signedAmountRaw expectedAmountRaw =
     (let trimmed = js_trim signedAmountRaw;
          uniq = remdups (signed_candidates trimmed) in
      if trimmed = [] then None
      else if uniq = [] then None
      else (case expected_micro expectedAmountRaw of
              None \<Rightarrow> Some (fl (of_int (Min (set uniq)) / 10 ^ 6))
            | Some expectedMicro \<Rightarrow>
                if expectedMicro \<in> set uniq then Some (fl (of_int expectedMicro / 10 ^ 6)) else None))"

text \<open>\<open>matchesUsdcAmount\<close>; the empty requirement string counts as absent.\<close>

definition matchesUsdcAmount :: "js_num \<Rightarrow> string option \<Rightarrow> bool" where
  "matchesUsdcAmount signedAmount requirementAmountRaw =
     (case requirementAmountRaw of
        None \<Rightarrow> True
      | Some r \<Rightarrow>
          if r = [] then True
          else (case parseUsdcMicroAmount r of
                  None \<Rightarrow> False
                | Some requirementMicro \<Rightarrow>
                    (case signedAmount of
                       Finite x \<Rightarrow>
                         0 < x \<and>
                         (case double_of (x * 10 ^ 6) of
                            Finite y \<Rightarrow> js_Math_round y = requirementMicro
                          | _ \<Rightarrow> False)
                     | _ \<Rightarrow> False)))"

section \<open>The two roundings cancel below 2 ^ 50\<close>

text \<open>
  Rounding a quotient to a double, scaling it by a million and rounding again stays within half a
  unit of the exact integer.
\<close>

lemma scaled_rounding:
  assumes u: "0 < u" "u < 2 ^ 50" and x: "x * 10 ^ 6 = of_int u"
  shows "fl x > 0" and "\<bar>fl (fl x * 10 ^ 6) - of_int u\<bar> < 1 / 2"
    and "fl (fl x * 10 ^ 6) < 2 ^ 53"
proof -
  let ?U = "of_int u :: rat"
  have U: "1 \<le> ?U" "?U < 2 ^ 50"
  proof -
    show "1 \<le> ?U" using u(1) by simp
    have "?U < of_int (2 ^ 50)" using u(2) of_int_less_iff by blast
    then show "?U < 2 ^ 50" by simp
  qed
  have xe: "x = ?U / 10 ^ 6" using x by simp
  have tiny: "pow2 (- 1022) \<le> 1 / 2 ^ 52"
    using pow2_mono [of "- 1022" "- 52"] by (simp add: pow2_def)
  have x0: "0 < x" and xn: "pow2 (- 1022) \<le> x"
  proof -
    show "0 < x" using U by (simp add: xe)
    have "1 / 10 ^ 6 \<le> x" using U by (simp add: xe)
    then show "pow2 (- 1022) \<le> x" using tiny by simp
  qed
  let ?y = "fl x * 10 ^ 6"
  have "?y - ?U = (fl x - x) * 10 ^ 6" unfolding x [symmetric] by (rule left_diff_distrib [symmetric])
  then have "\<bar>?y - ?U\<bar> = \<bar>fl x - x\<bar> * 10 ^ 6" by (simp only: abs_mult) simp
  also have "\<dots> \<le> x / 2 ^ 53 * 10 ^ 6"
    by (intro mult_right_mono fl_relative_error [OF x0 xn]) simp
  also have "\<dots> = ?U / 2 ^ 53" unfolding x [symmetric] by simp
  finally have y: "\<bar>?y - ?U\<bar> \<le> ?U / 2 ^ 53" .
  from y have y2: "?y \<le> ?U + ?U / 2 ^ 53" "?U - ?U / 2 ^ 53 \<le> ?y" by linarith+
  have small: "?U / 2 ^ 53 \<le> ?U / 2" using U by (intro divide_left_mono) simp_all
  with U y2 have y_lo: "1 / 2 \<le> ?y" and y_hi: "?y \<le> 2 * ?U" by linarith+
  then show "fl x > 0" by simp
  have yn: "pow2 (- 1022) \<le> ?y" using tiny y_lo by simp
  have "\<bar>fl ?y - ?y\<bar> \<le> ?y / 2 ^ 53" using y_lo yn by (intro fl_relative_error) simp_all
  moreover have "?y / 2 ^ 53 \<le> 2 * ?U / 2 ^ 53" using y_hi by (intro divide_right_mono) simp_all
  ultimately have z: "\<bar>fl ?y - ?U\<bar> \<le> 3 * ?U / 2 ^ 53" using y by linarith
  show "\<bar>fl ?y - ?U\<bar> < 1 / 2" using U z by simp
  then have "fl ?y < ?U + 1" by linarith
  with U show "fl ?y < 2 ^ 53" by simp
qed

lemma double_of_finite: "0 < x \<Longrightarrow> fl x < 2 ^ 53 \<Longrightarrow> double_of x = Finite (fl x)"
  using fl_nonneg [of x] by (intro double_of_small) simp

lemma scaled_micro_exact:
  assumes "0 < u" and "u < 2 ^ 50" and "x * 10 ^ 6 = of_int u"
  shows "scaled_micro (fl x) = Some u"
proof -
  note r = scaled_rounding [OF assms]
  have "double_of (fl x * 10 ^ 6) = Finite (fl (fl x * 10 ^ 6))"
    using r by (intro double_of_finite) simp_all
  moreover have "js_Math_round (fl (fl x * 10 ^ 6)) = u"
    using r(2) by (rule js_Math_round_near)
  moreover have "\<bar>of_int u :: rat\<bar> \<le> 9007199254740991"
  proof -
    have "u \<le> 9007199254740991" using assms(2) by simp
    then have "(of_int u :: rat) \<le> of_int 9007199254740991" using of_int_le_iff by blast
    with assms(1) show ?thesis by simp
  qed
  ultimately show ?thesis using assms(1) by (simp add: scaled_micro_def safe_integer_def Let_def)
qed

lemma fl_quotient_less:
  assumes "0 < u" and "u < 2 ^ 50" and "x * 10 ^ 6 = of_int u"
  shows "double_of x = Finite (fl x)"
proof (rule double_of_finite)
  have x: "x = of_int u / 10 ^ 6" using assms(3) by simp
  then show "0 < x" using assms(1) by simp
  have "0 < fl x" "\<bar>fl x - x\<bar> \<le> x / 2 ^ 53"
  proof -
    show "0 < fl x" by (rule scaled_rounding(1) [OF assms])
    have "pow2 (- 1022) \<le> 1 / 2 ^ 52" using pow2_mono [of "- 1022" "- 52"] by (simp add: pow2_def)
    moreover have "1 / 10 ^ 6 \<le> x" using assms(1) by (simp add: x)
    ultimately show "\<bar>fl x - x\<bar> \<le> x / 2 ^ 53"
      using \<open>0 < x\<close> by (intro fl_relative_error) simp_all
  qed
  moreover have small: "x < 2 ^ 50"
  proof -
    have "(of_int u :: rat) < of_int (2 ^ 50)" using assms(2) of_int_less_iff by blast
    then show ?thesis by (simp add: x)
  qed
  ultimately have "fl x \<le> x + x / 2 ^ 53" by linarith
  with small show "fl x < 2 ^ 53" by simp
qed

section \<open>Agreement with the exact parser\<close>

lemma parseUsdc_cases:
  assumes "parseUsdcMicroAmountBigint s = Some u"
  obtains (micro) "js_trim s \<noteq> []" "list_all is_digit (js_trim s)" "u = int (digits_value (js_trim s))"
  | (usdc) whole fraction where "js_trim s = whole @ CHR ''.'' # fraction" "whole \<noteq> []"
      "list_all is_digit whole" "fraction \<noteq> []" "list_all is_digit fraction" "length fraction \<le> 6"
      "u = int (digits_value whole) * 10 ^ 6 + int (digits_value (pad_end 6 CHR ''0'' fraction))"
proof (cases "list_all is_digit (js_trim s)")
  case True
  with assms micro show ?thesis by (auto simp: parseUsdcMicroAmountBigint_def Let_def split: if_splits)
next
  case False
  let ?t = "js_trim s"
  from assms False obtain d fraction where r: "dropWhile (\<lambda>c. c \<noteq> CHR ''.'') ?t = d # fraction"
    and c: "takeWhile (\<lambda>c. c \<noteq> CHR ''.'') ?t \<noteq> []" "list_all is_digit (takeWhile (\<lambda>c. c \<noteq> CHR ''.'') ?t)"
      "list_all is_digit fraction" "1 \<le> length fraction" "length fraction \<le> 6"
      "u = int (digits_value (takeWhile (\<lambda>c. c \<noteq> CHR ''.'') ?t)) * 10 ^ 6
           + int (digits_value (pad_end 6 CHR ''0'' fraction))"
    by (auto simp: parseUsdcMicroAmountBigint_def Let_def split: if_splits list.splits)
  have "d = CHR ''.''" using hd_dropWhile [of "\<lambda>c. c \<noteq> CHR ''.''" ?t] r by simp
  with r have "?t = takeWhile (\<lambda>c. c \<noteq> CHR ''.'') ?t @ CHR ''.'' # fraction"
    by (metis takeWhile_dropWhile_id)
  with c show ?thesis by (intro usdc) auto
qed

text \<open>The value of a decimal amount, scaled, is its exact number of micro-USDC.\<close>

lemma decimal_scaled:
  assumes "length fraction \<le> 6"
  shows "(of_nat (digits_value (whole @ fraction)) / 10 ^ length fraction) * (10 ^ 6 :: rat) =
         of_int (int (digits_value whole) * 10 ^ 6 + int (digits_value (pad_end 6 CHR ''0'' fraction)))"
proof -
  let ?k = "length fraction" and ?W = "of_nat (digits_value whole) :: rat"
    and ?F = "of_nat (digits_value fraction) :: rat"
  have p: "(10 ^ 6 :: rat) = 10 ^ ?k * 10 ^ (6 - ?k)" using assms by (simp flip: power_add)
  have "(of_nat (digits_value (whole @ fraction)) / 10 ^ ?k) * (10 ^ 6 :: rat) =
        (?W * 10 ^ ?k + ?F) * 10 ^ (6 - ?k)"
    unfolding p by (simp add: digits_value_append)
  also have "\<dots> = ?W * (10 ^ ?k * 10 ^ (6 - ?k)) + ?F * 10 ^ (6 - ?k)"
    by (simp only: distrib_right mult.assoc)
  also have "\<dots> = ?W * 10 ^ 6 + ?F * 10 ^ (6 - ?k)" by (simp only: p)
  finally show ?thesis using assms by (simp add: digits_value_pad_end)
qed

lemma js_trim_idem [simp]: "js_trim (js_trim s) = js_trim s"
proof (cases "js_trim s = []")
  case True
  moreover have "js_trim [] = []" by (simp add: js_trim_def)
  ultimately show ?thesis by simp
next
  case False
  have last: "\<not> js_space (last (js_trim s))"
    using False by (metis js_trim_def last_rev hd_dropWhile rev_is_Nil_conv)
  have "\<not> js_space (hd (js_trim s))"
  proof -
    let ?d = "dropWhile js_space s"
    have ne: "?d \<noteq> []" using False by (metis js_trim_def dropWhile.simps(1) rev.simps(1))
    obtain p where "rev ?d = p @ dropWhile js_space (rev ?d)"
      by (metis takeWhile_dropWhile_id)
    then have "?d = js_trim s @ rev p" by (metis js_trim_def rev_append rev_rev_ident)
    then have "hd (js_trim s) = hd ?d" using False by (metis hd_append2)
    with ne show ?thesis by (metis hd_dropWhile)
  qed
  with False last show ?thesis by (intro js_trim_id)
qed

lemma safe_positive_int: "0 < n \<Longrightarrow> n < 2 ^ 53 \<Longrightarrow> safe_positive (double_of (of_int n)) = Some n"
proof -
  assume n: "0 < n" "n < 2 ^ 53"
  then have "n \<le> 9007199254740991" by simp
  then have "(of_int n :: rat) \<le> of_int 9007199254740991" using of_int_le_iff by blast
  with n show ?thesis by (simp add: safe_positive_def double_of_int safe_integer_def)
qed

lemma parsers_agree_aux:
  assumes "parseUsdcMicroAmountBigint s = Some u" and "u < 2 ^ 50"
  shows "parseUsdcMicroAmount s = Some u"
  using assms(1)
proof (cases rule: parseUsdc_cases)
  case micro
  have "0 < u" using parseUsdc_positive [OF assms(1)] .
  then have "safe_positive (double_of (of_int u)) = Some u" using assms(2) by (intro safe_positive_int) simp_all
  with micro show ?thesis by (simp add: parseUsdcMicroAmount_def Let_def js_Number_digits)
next
  case (usdc whole fraction)
  let ?x = "of_nat (digits_value (whole @ fraction)) / 10 ^ length fraction :: rat"
  have x: "?x * 10 ^ 6 = of_int u" using decimal_scaled [OF usdc(6)] usdc(7) by simp
  have u: "0 < u" using parseUsdc_positive [OF assms(1)] .
  have "js_Number (js_trim s) = Finite (fl ?x)"
    using js_Number_point [OF usdc(2-5)] fl_quotient_less [OF u assms(2) x] usdc(1) by simp
  moreover have "0 < fl ?x" using scaled_rounding(1) [OF u assms(2) x] .
  moreover have "scaled_micro (fl ?x) = Some u" using scaled_micro_exact [OF u assms(2) x] .
  ultimately show ?thesis using usdc(1) by (simp add: parseUsdcMicroAmount_def Let_def)
qed

text \<open>An amount of at least \<open>2 ^ 50\<close> micro-USDC is never read as a smaller one.\<close>

lemma fl_large: "2 ^ 50 - 1 / 8 \<le> x \<Longrightarrow> 2 ^ 50 - 1 / 4 \<le> fl x"
proof -
  assume x: "2 ^ 50 - 1 / 8 \<le> x"
  have "pow2 (- 1022) \<le> 1" using pow2_mono [of "- 1022" 0] by simp
  then have "\<bar>fl x - x\<bar> \<le> x / 2 ^ 53" using x by (intro fl_relative_error) simp_all
  then have "x - x / 2 ^ 53 \<le> fl x" by linarith
  then have lower: "x * (1 - 1 / 2 ^ 53) \<le> fl x" by (simp only: right_diff_distrib) simp
  have "(2 ^ 50 - 1 / 8) * (1 - 1 / 2 ^ 53) \<le> x * (1 - 1 / 2 ^ 53)"
    using x by (intro mult_right_mono) simp_all
  with lower show ?thesis by simp
qed

lemma fl_large_scaled:
  assumes "2 ^ 50 \<le> x * 10 ^ 6" and "pow2 (- 1022) \<le> x" and "0 < x"
  shows "2 ^ 50 - 1 / 8 \<le> fl x * 10 ^ 6"
proof -
  have "\<bar>fl x - x\<bar> \<le> x / 2 ^ 53" using assms by (intro fl_relative_error)
  then have "x - x / 2 ^ 53 \<le> fl x" by linarith
  then have "x * (1 - 1 / 2 ^ 53) \<le> fl x" by (simp only: right_diff_distrib) simp
  then have "x * (1 - 1 / 2 ^ 53) * 10 ^ 6 \<le> fl x * 10 ^ 6" by (intro mult_right_mono) simp_all
  moreover have "2 ^ 50 * (1 - 1 / 2 ^ 53) \<le> x * 10 ^ 6 * (1 - 1 / 2 ^ 53)"
    using assms(1) by (intro mult_right_mono) simp_all
  ultimately show ?thesis by simp
qed

lemma double_of_Finite: "double_of x = Finite y \<Longrightarrow> y = fl x"
  by (simp add: double_of_def split: if_splits)

lemma scaled_micro_large:
  assumes "2 ^ 50 - 1 / 8 \<le> y * 10 ^ 6" and "scaled_micro y = Some w"
  shows "2 ^ 50 \<le> w"
proof -
  from assms(2) obtain z where z: "double_of (y * 10 ^ 6) = Finite z" and w: "w = js_Math_round z"
    by (auto simp: scaled_micro_def Let_def split: js_num.splits if_splits)
  have "2 ^ 50 - 1 / 4 \<le> z" using fl_large [OF assms(1)] double_of_Finite [OF z] by simp
  then show ?thesis unfolding w js_Math_round_def by (simp add: le_floor_iff)
qed

lemma safe_positive_large:
  assumes "2 ^ 50 \<le> n" and "safe_positive (double_of (of_int n)) = Some w"
  shows "2 ^ 50 \<le> w"
proof -
  have "(of_int (2 ^ 50) :: rat) \<le> of_int n" using assms(1) of_int_le_iff by blast
  then have "2 ^ 50 - 1 / 4 \<le> fl (of_int n)" by (intro fl_large) simp
  moreover from assms(2) have "of_int w = fl (of_int n)"
    by (auto simp: safe_positive_def safe_integer_def dest!: double_of_Finite split: js_num.splits if_splits)
  ultimately have w: "(2 ^ 50 - 1 / 4 :: rat) \<le> of_int w" by simp
  have False if "w < 2 ^ 50"
  proof -
    from that have "w \<le> 2 ^ 50 - 1" by simp
    then have "(of_int w :: rat) \<le> of_int (2 ^ 50 - 1)" using of_int_le_iff by blast
    with w show False by simp
  qed
  then show ?thesis by fastforce
qed

text \<open>What the candidates of a well-formed signed amount can be.\<close>

lemma scaled_micro_value:
  assumes v: "0 < v" and x: "x * 10 ^ 6 = of_int v" and w: "scaled_micro y = Some w"
    and y: "double_of x = Finite y" and small: "w < 2 ^ 50"
  shows "w = v"
proof (cases "v < 2 ^ 50")
  case True
  with scaled_micro_exact [OF v _ x] w double_of_Finite [OF y] show ?thesis by simp
next
  case False
  then have "(of_int (2 ^ 50) :: rat) \<le> of_int v" using of_int_le_iff by (metis not_less)
  then have big: "2 ^ 50 \<le> x * 10 ^ 6" unfolding x by simp
  then have "1 \<le> x" by simp
  moreover have "pow2 (- 1022) \<le> 1" using pow2_mono [of "- 1022" 0] by simp
  ultimately have "2 ^ 50 - 1 / 8 \<le> fl x * 10 ^ 6" using big by (intro fl_large_scaled) linarith+
  with scaled_micro_large w double_of_Finite [OF y] small show ?thesis by fastforce
qed

lemma signed_candidates_values:
  assumes v: "parseUsdcMicroAmountBigint s = Some v" and u: "u \<in> set (signed_candidates (js_trim s))"
    and small: "u < 2 ^ 50"
  shows "u = v \<or> list_all is_digit (js_trim s) \<and> u = v * 10 ^ 6"
  using v
proof (cases rule: parseUsdc_cases)
  case micro
  have v0: "0 < v" using parseUsdc_positive [OF v] .
  have num: "js_Number (js_trim s) = double_of (of_int v)"
    using micro by (simp add: js_Number_digits)
  have "u = v" if "safe_positive (double_of (of_int v)) = Some u"
  proof (cases "v < 2 ^ 50")
    case True
    with that safe_positive_int [of v] v0 show ?thesis by simp
  next
    case False
    with that safe_positive_large [of v u] small show ?thesis by simp
  qed
  moreover have "u = v * 10 ^ 6" if "double_of (of_int v) = Finite y" "scaled_micro y = Some u" for y
    using scaled_micro_value [of "v * 10 ^ 6" "of_int v" y u] that v0 small by simp
  ultimately show ?thesis
    using u num micro by (auto simp: signed_candidates_def option_list_def split: js_num.splits if_splits option.splits)
next
  case (usdc whole fraction)
  let ?x = "of_nat (digits_value (whole @ fraction)) / 10 ^ length fraction :: rat"
  have x: "?x * 10 ^ 6 = of_int v" using decimal_scaled [OF usdc(6)] usdc(7) by simp
  have "js_Number (js_trim s) = double_of ?x" using js_Number_point [OF usdc(2-5)] usdc(1) by simp
  moreover have "\<not> list_all is_digit (js_trim s)" using usdc(1) by simp
  ultimately show ?thesis
    using u scaled_micro_value [OF parseUsdc_positive [OF v] x _ _ small]
    by (auto simp: signed_candidates_def option_list_def split: js_num.splits if_splits option.splits)
qed

lemma parseSigned_Some:
  assumes "parseSignedUsdcAmount s e = Some a" and "expected_micro e = Some u"
  shows "u \<in> set (signed_candidates (js_trim s))" and "a = fl (of_int u / 10 ^ 6)"
  using assms by (auto simp: parseSignedUsdcAmount_def Let_def split: if_splits)

lemma expected_micro_readable:
  assumes "parseUsdcMicroAmountBigint r = Some u" and "u < 2 ^ 50"
  shows "expected_micro (Some r) = Some u"
proof -
  have "js_trim r \<noteq> []" using assms(1) by (auto simp: parseUsdcMicroAmountBigint_def Let_def split: if_splits)
  with parsers_agree_aux [OF assms] show ?thesis by (simp add: expected_micro_def)
qed

section \<open>Properties\<close>

text \<open>
  Claim C38. The floating-point and the exact parser of requirement amounts agree: every amount text
  that the exact parser accepts with less than 2^50 micro-USDC is read as the same number of micro-USDC
  by the parser that goes through doubles.
\<close>

theorem amount_parsers_agree:
  assumes "parseUsdcMicroAmountBigint s = Some u" and "u < 2 ^ 50"
  shows "parseUsdcMicroAmount s = Some u"
  using assms by (rule parsers_agree_aux)

lemma amount_parsers_agree_witness:
  "parseUsdcMicroAmountBigint ''0.1'' = Some 100000 \<and> parseUsdcMicroAmount ''0.1'' = Some 100000"
proof -
  have "parseUsdcMicroAmountBigint ''0.1'' = Some 100000" by code_simp
  with amount_parsers_agree [of "''0.1''" 100000] show ?thesis by simp
qed

text \<open>
  The signed amount is bound to the requirement: when a signed amount in one of the two
  documented forms passes the check against a requirement of less than 2^50 micro-USDC, the amount
  charged is the double nearest to the requirement, and the requirement is the signed amount
  itself, or, when the signed text is a bare digit string, that many whole USDC.
\<close>

theorem signed_amount_binds:
  assumes "parseSignedUsdcAmount signed (Some requirement) = Some charged"
    and "parseUsdcMicroAmountBigint requirement = Some u" and "u < 2 ^ 50"
    and "parseUsdcMicroAmountBigint signed = Some v"
  shows "charged = fl (of_int u / 10 ^ 6)
         \<and> (u = v \<or> list_all is_digit (js_trim signed) \<and> u = v * 10 ^ 6)"
proof -
  have e: "expected_micro (Some requirement) = Some u" by (rule expected_micro_readable [OF assms(2,3)])
  from parseSigned_Some [OF assms(1) e] signed_candidates_values [OF assms(4) _ assms(3)]
  show ?thesis by blast
qed

lemma signed_amount_binds_witness:
  "parseSignedUsdcAmount ''5'' (Some ''5000000'') = Some 5 \<and> (5 :: rat) = fl (of_int 5000000 / 10 ^ 6)"
proof -
  have a: "parseSignedUsdcAmount ''5'' (Some ''5000000'') = Some 5"
    "parseUsdcMicroAmountBigint ''5000000'' = Some 5000000"
    "parseUsdcMicroAmountBigint ''5'' = Some 5" by code_simp+
  with signed_amount_binds [OF a(1,2) _ a(3)] show ?thesis by simp
qed

text \<open>
  A requirement amount that cannot be read, and the requirement 0 among them, switches
  the amount check off: the signed amount is accepted as if no requirement had been given.
\<close>

theorem unreadable_requirement_unchecked:
  assumes "parseUsdcMicroAmount requirement = None"
  shows "parseSignedUsdcAmount signed (Some requirement) = parseSignedUsdcAmount signed None"
proof -
  have "expected_micro (Some requirement) = None" "expected_micro None = None"
    using assms by (simp_all add: expected_micro_def)
  then show ?thesis by (simp add: parseSignedUsdcAmount_def Let_def)
qed

lemma unreadable_requirement_unchecked_witness:
  "parseSignedUsdcAmount ''1.5'' (Some ''0'') = Some (3 / 2)"
proof -
  have "parseUsdcMicroAmount ''0'' = None" "parseSignedUsdcAmount ''1.5'' None = Some (3 / 2)"
    by code_simp+
  with unreadable_requirement_unchecked [of "''0''" "''1.5''"] show ?thesis by simp
qed

end
