(* ===== verification/Fees.thy ===== *)
theory Fees
  imports Amounts
begin

text \<open>
  Reputation, fee discounts (\<open>services/reputation.ts\<close>) and the split of an amount into the merchant's
  net and the facilitator's fee (\<open>services/settlement.ts\<close>, \<open>services/base-settlement.ts\<close>,
  \<open>services/solana-session.ts\<close>).  Scores are JavaScript numbers, so every arithmetic operation on them
  rounds with \<open>fl\<close>; the split is \<open>bigint\<close> arithmetic.
\<close>

section \<open>Reputation score and tiers\<close>

definition calculateReputationScore :: "rat \<Rightarrow> rat \<Rightarrow> rat \<Rightarrow> rat \<Rightarrow> rat" where
  "calculateReputationScore totalTransactions disputesFiled disputesWon averageQuality =
     (if totalTransactions = 0 then 500
      else
        (let txScore = fl (min totalTransactions 100 * 5);
             disputeScore =
               (if 0 < disputesFiled
                then (let winRate = fl (fl (disputesWon / disputesFiled) * 100) in min (fl (winRate * 3)) 300)
                else 150);
             qualityScore = min (fl (averageQuality * 2)) 200 in
         min (fl (fl (txScore + disputeScore) + qualityScore)) 1000))"

datatype trust_tier = Untrusted | New | Basic | Good | Excellent | Trusted

definition getTrustTier :: "rat \<Rightarrow> trust_tier" where
  "getTrustTier score =
     (if score < 200 then Untrusted
      else if score < 350 then New
      else if score < 500 then Basic
      else if score < 700 then Good
      else if score < 850 then Excellent
      else Trusted)"

record volume_tier =
  vt_name :: string
  vt_minMonthlyVolume :: rat
  vt_discountPct :: int

definition VOLUME_TIERS :: "volume_tier list" where
  "VOLUME_TIERS =
     [\<lparr>vt_name = ''starter'', vt_minMonthlyVolume = 0, vt_discountPct = 0\<rparr>,
      \<lparr>vt_name = ''growth'', vt_minMonthlyVolume = 1000, vt_discountPct = 25\<rparr>,
      \<lparr>vt_name = ''scale'', vt_minMonthlyVolume = 10000, vt_discountPct = 50\<rparr>,
      \<lparr>vt_name = ''enterprise'', vt_minMonthlyVolume = 100000, vt_discountPct = 75\<rparr>]"

text \<open>The loop runs from the last tier to the first and returns the first one that is reached.\<close>

definition getVolumeTier :: "rat \<Rightarrow> volume_tier" where
  "getVolumeTier monthlyVolume =
     (case find (\<lambda>t. vt_minMonthlyVolume t \<le> monthlyVolume) (rev VOLUME_TIERS) of
        Some t \<Rightarrow> t
      | None \<Rightarrow> hd VOLUME_TIERS)"

definition calculateFeeDiscountPct :: "rat \<Rightarrow> rat \<Rightarrow> int" where
  "calculateFeeDiscountPct reputationScore monthlyVolume =
     (let pct = vt_discountPct (getVolumeTier monthlyVolume) in
      min (if 900 \<le> reputationScore then pct + 20 else pct) 100)"

definition applyDiscount :: "int \<Rightarrow> int \<Rightarrow> int" where
  "applyDiscount baseFeeBps discountPct =
     (let discountedBps = baseFeeBps - \<lfloor>fl (fl (of_int (baseFeeBps * discountPct)) / 100)\<rfloor> in
      max discountedBps 1)"

section \<open>The reputation record\<close>

record reputation_stats =
  rs_totalTransactions :: rat
  rs_disputesFiled :: rat
  rs_disputesWon :: rat
  rs_disputesLost :: rat
  rs_averageQuality :: rat
  rs_monthlyVolume :: rat

record reputation_record =
  rr_wallet :: string
  rr_stats :: reputation_stats
  rr_reputationScore :: rat
  rr_trustTier :: trust_tier
  rr_volumeTier :: string
  rr_feeDiscountPct :: int
  rr_updatedAt :: int

definition buildReputationRecord :: "int \<Rightarrow> string \<Rightarrow> reputation_stats \<Rightarrow> reputation_record" where
  "buildReputationRecord now wallet stats =
     (let score = calculateReputationScore (rs_totalTransactions stats) (rs_disputesFiled stats)
                    (rs_disputesWon stats) (rs_averageQuality stats) in
      \<lparr>rr_wallet = wallet, rr_stats = stats, rr_reputationScore = score, rr_trustTier = getTrustTier score,
       rr_volumeTier = vt_name (getVolumeTier (rs_monthlyVolume stats)),
       rr_feeDiscountPct = calculateFeeDiscountPct score (rs_monthlyVolume stats),
       rr_updatedAt = now\<rparr>)"

section \<open>Splitting a payment\<close>

text \<open>\<open>(totalMicro * BigInt(feeBps)) / 10_000n\<close> truncates; both operands are nonnegative here.\<close>

definition split_fee :: "int \<Rightarrow> int \<Rightarrow> int" where
  "split_fee totalMicro feeBps = (totalMicro * feeBps) div 10000"

definition split_net :: "int \<Rightarrow> int \<Rightarrow> int" where
  "split_net totalMicro feeBps = totalMicro - split_fee totalMicro feeBps"

definition toBaseUnits :: "rat \<Rightarrow> int" where
  "toBaseUnits amount = js_Math_round (fl (amount * 10 ^ 6))"

definition fromBaseUnits :: "int \<Rightarrow> rat" where
  "fromBaseUnits units = fl (fl (of_int units) / 10 ^ 6)"

definition calculateFee :: "rat \<Rightarrow> rat \<Rightarrow> rat" where
  "calculateFee amount bps =
     fl (of_int \<lceil>fl (fl (fl (amount * bps) / 10000) * 10 ^ 6)\<rceil> / 10 ^ 6)"

section \<open>Lemmas\<close>

lemma getVolumeTier_cases:
  "getVolumeTier v =
     (if 100000 \<le> v then VOLUME_TIERS ! 3 else if 10000 \<le> v then VOLUME_TIERS ! 2
      else if 1000 \<le> v then VOLUME_TIERS ! 1 else VOLUME_TIERS ! 0)"
  by (simp add: getVolumeTier_def VOLUME_TIERS_def)

lemma discount_range: "0 \<le> calculateFeeDiscountPct score v \<and> calculateFeeDiscountPct score v \<le> 95"
  by (simp add: calculateFeeDiscountPct_def getVolumeTier_cases VOLUME_TIERS_def Let_def)

lemma discount_mono:
  "s \<le> s' \<Longrightarrow> v \<le> v' \<Longrightarrow> calculateFeeDiscountPct s v \<le> calculateFeeDiscountPct s' v'"
  by (auto simp: calculateFeeDiscountPct_def getVolumeTier_cases VOLUME_TIERS_def Let_def)

text \<open>Division by 100 of a small product, rounded to a double and then down, is integer division.\<close>

lemma floor_fl_hundredth:
  assumes "0 \<le> p" and "p < 2 ^ 40"
  shows "\<lfloor>fl (of_int p / 100)\<rfloor> = p div 100"
proof -
  let ?q = "p div 100" and ?r = "p mod 100" and ?x = "of_int p / 100 :: rat"
  have "(of_int p :: rat) = 100 * of_int ?q + of_int ?r"
    by (metis mult_div_mod_eq of_int_add of_int_mult of_int_numeral)
  then have x: "?x = of_int ?q + of_int ?r / 100" by (simp add: add_divide_distrib)
  have q: "0 \<le> ?q" "?q < 2 ^ 40" using assms by (simp_all add: div_less_iff_less_mult pos_imp_zdiv_nonneg_iff)
  have r: "0 \<le> ?r" "?r \<le> 99" using pos_mod_bound [of 100 p] by simp_all
  show ?thesis
  proof (cases "?r = 0")
    case True
    then have "fl ?x = of_int ?q" using q fl_int [of ?q] by (simp add: x)
    then show ?thesis by simp
  next
    case False
    with r have lo: "1 / 100 \<le> (of_int ?r / 100 :: rat)" by simp
    have "(of_int ?r :: rat) \<le> of_int 99" using r(2) of_int_le_iff by blast
    then have hi: "of_int ?r / 100 \<le> (99 / 100 :: rat)" by simp
    have x0: "1 / 100 \<le> ?x" using x lo q(1) by simp
    have "pow2 (- 1022) \<le> 1 / 2 ^ 52" using pow2_mono [of "- 1022" "- 52"] by (simp add: pow2_def)
    then have "\<bar>fl ?x - ?x\<bar> \<le> ?x / 2 ^ 53" using x0 by (intro fl_relative_error) simp_all
    moreover have "?x < 2 ^ 40"
    proof -
      have "(of_int p :: rat) < of_int (2 ^ 40)" using assms(2) of_int_less_iff by blast
      then show ?thesis using assms(1) by simp
    qed
    then have "?x / 2 ^ 53 < 1 / 200" by simp
    ultimately have "of_int ?q \<le> fl ?x \<and> fl ?x < of_int ?q + 1" using x lo hi by linarith
    then show ?thesis by (intro floor_unique) simp_all
  qed
qed

lemma applyDiscount_exact:
  assumes "0 \<le> base" "base \<le> 10 ^ 6" and "0 \<le> pct" "pct \<le> 100"
  shows "applyDiscount base pct = max (base - base * pct div 100) 1"
proof -
  have p: "0 \<le> base * pct" using assms by simp
  have "base * pct \<le> 10 ^ 6 * 100" using assms by (intro mult_mono) simp_all
  then have "base * pct < 2 ^ 40" by simp
  with p fl_int [of "base * pct"] floor_fl_hundredth [of "base * pct"] show ?thesis
    by (simp add: applyDiscount_def Let_def)
qed

lemma split_fee_bounds:
  assumes "0 < amt" and "0 \<le> bps" and "bps \<le> 1000"
  shows "0 \<le> split_fee amt bps" and "10 * split_fee amt bps \<le> amt" and "0 < split_net amt bps"
proof -
  show nonneg: "0 \<le> split_fee amt bps" 
    unfolding split_fee_def using assms by (intro div_int_pos_iff [THEN iffD2]) simp
  have "split_fee amt bps \<le> amt * 1000 div 10000"
    unfolding split_fee_def using assms by (intro zdiv_mono1 mult_left_mono) simp_all
  also have "\<dots> = amt div 10" using div_mult_mult1 [of 1000 amt 10] by (simp add: mult.commute)
  finally have "split_fee amt bps \<le> amt div 10" .
  then show ten: "10 * split_fee amt bps \<le> amt" by linarith
  show "0 < split_net amt bps" using nonneg ten assms(1) by (simp add: split_net_def)
qed

section \<open>Properties\<close>

text \<open>
  The fee a merchant pays: for every base fee that the configuration accepts except 0 (1 to
  1000 basis points), every reputation and every volume, the effective fee is the base fee minus its
  discount rounded down in whole basis points, at least 1 and at most the base; the payment is split
  without loss, and the merchant always receives at least nine tenths of it.
\<close>

theorem effective_fee_bounds:
  assumes "1 \<le> base" and "base \<le> 1000" and "0 < amt"
  shows "let pct = calculateFeeDiscountPct score volume; bps = applyDiscount base pct in
           0 \<le> pct \<and> pct \<le> 95 \<and> bps = max (base - base * pct div 100) 1 \<and> 1 \<le> bps \<and> bps \<le> base
           \<and> split_fee amt bps + split_net amt bps = amt
           \<and> 0 \<le> split_fee amt bps \<and> 9 * amt \<le> 10 * split_net amt bps"
proof -
  define pct where "pct = calculateFeeDiscountPct score volume"
  have p: "0 \<le> pct" "pct \<le> 95" using discount_range [of score volume] by (simp_all add: pct_def)
  define bps where "bps = applyDiscount base pct"
  have b: "bps = max (base - base * pct div 100) 1"
    unfolding bps_def using assms p by (intro applyDiscount_exact) simp_all
  have "0 \<le> base * pct div 100" using assms p by (simp add: pos_imp_zdiv_nonneg_iff)
  with b assms have "1 \<le> bps" "bps \<le> base" by simp_all
  then have "0 \<le> bps" "bps \<le> 1000" using assms(2) by simp_all
  with p b \<open>1 \<le> bps\<close> \<open>bps \<le> base\<close> split_fee_bounds [of amt bps] assms(3) show ?thesis
    unfolding Let_def pct_def [symmetric] bps_def [symmetric]
    by (simp add: split_net_def)
qed

lemma effective_fee_bounds_witness:
  "applyDiscount 10 (calculateFeeDiscountPct 950 12000) = 3 \<and> split_net 5000000 3 = 4998500"
proof -
  have d: "calculateFeeDiscountPct 950 12000 = 70"
    by (simp add: calculateFeeDiscountPct_def getVolumeTier_cases VOLUME_TIERS_def)
  then show ?thesis
    using effective_fee_bounds [of 10 5000000 950 12000] by (simp add: Let_def split_net_def split_fee_def)
qed

end
