(* ===== verification/Delegated_Transfer.thy ===== *)
theory Delegated_Transfer
  imports Fees Networks
begin

text \<open>
  The on-chain leg of a session payment: \<open>settleDelegatedPaymentBase\<close> of \<open>services/base-settlement.ts\<close>
  and \<open>settleDelegatedUsdcTransfer\<close> of \<open>services/solana-session.ts\<close>.  What the chains answer is an
  argument: the balance and allowance they report and the fate of each transfer that is sent.  A
  result comes with the micro-USDC that the payer has actually lost.
\<close>

section \<open>What the chain answers\<close>

text \<open>
  A transfer that is sent is confirmed with its hash, rejected without effect, or executed while the
  caller sees an error (the confirmation wait times out, the connection breaks).
\<close>

datatype send_result = Confirmed string | Rejected string | Unconfirmed string

record chain_view =
  ch_balance :: int
  ch_allowance :: int
  ch_delegated :: bool
  ch_net :: send_result
  ch_fee :: send_result

fun moved_by :: "send_result \<Rightarrow> int \<Rightarrow> int" where
  "moved_by (Confirmed _) x = x"
| "moved_by (Rejected _) x = 0"
| "moved_by (Unconfirmed _) x = x"

record onchain =
  oc_txHash :: string
  oc_feeMicro :: int
  oc_netMicro :: int
  oc_feeTxHash :: "string option"

text \<open>An outcome: an error message or a receipt, and what left the payer's account.\<close>

type_synonym transfer_outcome = "(string + onchain) \<times> int"

section \<open>Base\<close>

definition base_fee_transfer :: "bool \<Rightarrow> chain_view \<Rightarrow> string \<Rightarrow> int \<Rightarrow> int \<Rightarrow> transfer_outcome" where
  "base_fee_transfer treasuryValid ch txHash feeMicro netMicro =
     (let receipt = (\<lambda>h. \<lparr>oc_txHash = txHash, oc_feeMicro = feeMicro, oc_netMicro = netMicro, oc_feeTxHash = h\<rparr>) in
      if 0 < feeMicro \<and> treasuryValid then
        (case ch_fee ch of
           Confirmed h \<Rightarrow> (Inr (receipt (Some h)), netMicro + feeMicro)
         | other \<Rightarrow> (Inr (receipt None), netMicro + moved_by other feeMicro))
      else (Inr (receipt None), netMicro))"

definition settleDelegatedPaymentBase ::
  "address_checks \<Rightarrow> bool \<Rightarrow> chain_view \<Rightarrow> string \<Rightarrow> string \<Rightarrow> int \<Rightarrow> int \<Rightarrow> transfer_outcome" where
  "settleDelegatedPaymentBase ac treasuryValid ch payerAddress merchantAddress totalMicro feeBps =
     (let feeMicro = split_fee totalMicro feeBps; netMicro = split_net totalMicro feeBps in
      if \<not> ac_isAddress ac payerAddress then (Inl ''Invalid payer Base address'', 0)
      else if \<not> ac_isAddress ac merchantAddress then (Inl ''Invalid merchant Base address'', 0)
      else if totalMicro \<le> 0 then (Inl ''Amount must be positive'', 0)
      else if netMicro \<le> 0 then (Inl ''Net amount after fees is zero or negative'', 0)
      else if ch_balance ch < totalMicro then (Inl ''Payer Base USDC balance insufficient'', 0)
      else if ch_allowance ch < totalMicro then (Inl ''Payer Base USDC allowance insufficient'', 0)
      else (case ch_net ch of
              Rejected msg \<Rightarrow> (Inl msg, 0)
            | Unconfirmed msg \<Rightarrow> (Inl msg, netMicro)
            | Confirmed txHash \<Rightarrow> base_fee_transfer treasuryValid ch txHash feeMicro netMicro))"

section \<open>Solana\<close>

text \<open>Net and fee travel in one transaction, so they are executed together or not at all.\<close>

definition settleDelegatedUsdcTransfer ::
  "bool \<Rightarrow> chain_view \<Rightarrow> int \<Rightarrow> int \<Rightarrow> transfer_outcome" where
  "settleDelegatedUsdcTransfer hasTreasury ch totalMicro feeBps =
     (let feeMicro = split_fee totalMicro feeBps; netMicro = split_net totalMicro feeBps;
          moved = netMicro + (if hasTreasury \<and> 0 < feeMicro then feeMicro else 0) in
      if netMicro \<le> 0 then (Inl ''Net amount after fees is zero or negative'', 0)
      else if \<not> ch_delegated ch then (Inl ''Payer has not delegated USDC to facilitator'', 0)
      else if ch_allowance ch < totalMicro then (Inl ''Delegated allowance insufficient'', 0)
      else if ch_balance ch < totalMicro then (Inl ''Payer USDC balance insufficient'', 0)
      else (case ch_net ch of
              Rejected msg \<Rightarrow> (Inl msg, 0)
            | Unconfirmed msg \<Rightarrow> (Inl msg, moved)
            | Confirmed txHash \<Rightarrow>
                (Inr \<lparr>oc_txHash = txHash, oc_feeMicro = feeMicro, oc_netMicro = netMicro, oc_feeTxHash = None\<rparr>,
                 moved)))"

section \<open>Lemmas\<close>

text \<open>The transfer of the net amount either reports an error or has happened, never both.\<close>

definition definite :: "chain_view \<Rightarrow> bool" where
  "definite ch = (case ch_net ch of Unconfirmed _ \<Rightarrow> False | _ \<Rightarrow> True)"

definition outcome_ok :: "int \<Rightarrow> bool \<Rightarrow> transfer_outcome \<Rightarrow> bool" where
  "outcome_ok totalMicro certain r =
     (0 \<le> snd r \<and> snd r \<le> totalMicro \<and> (certain \<and> isl (fst r) \<longrightarrow> snd r = 0))"

lemma split_sum: "split_net t b + split_fee t b = t"
  by (simp add: split_net_def)

lemma split_fee_nonneg: "0 < t \<Longrightarrow> 0 \<le> b \<Longrightarrow> 0 \<le> split_fee t b"
  unfolding split_fee_def by (intro div_int_pos_iff [THEN iffD2]) simp

lemma moved_by_range: "0 \<le> x \<Longrightarrow> 0 \<le> moved_by r x \<and> moved_by r x \<le> x"
  by (cases r) simp_all

lemma base_fee_transfer_ok:
  assumes "0 \<le> fee" and "0 \<le> net"
  shows "outcome_ok (net + fee) c (base_fee_transfer tv ch h fee net)"
  using assms
  by (auto simp: outcome_ok_def base_fee_transfer_def Let_def split: send_result.splits)

lemma settle_base_ok:
  assumes "0 < t" and "0 \<le> b"
  shows "outcome_ok t (definite ch) (settleDelegatedPaymentBase ac tv ch p m t b)"
proof -
  have "outcome_ok t (definite ch) (base_fee_transfer tv ch h (split_fee t b) (split_net t b))"
    if "0 < split_net t b" for h
    using base_fee_transfer_ok [of "split_fee t b" "split_net t b"] split_sum [of t b]
      split_fee_nonneg [OF assms] that by simp
  moreover have "split_net t b \<le> t" using split_fee_nonneg [OF assms] by (simp add: split_net_def)
  ultimately show ?thesis
    using assms
    by (auto simp: settleDelegatedPaymentBase_def Let_def outcome_ok_def definite_def split: send_result.splits)
qed

lemma settle_solana_ok:
  assumes "0 < t" and "0 \<le> b"
  shows "outcome_ok t (definite ch) (settleDelegatedUsdcTransfer ht ch t b)"
  using split_sum [of t b] split_fee_nonneg [OF assms] assms
  by (auto simp: settleDelegatedUsdcTransfer_def Let_def outcome_ok_def definite_def split: send_result.splits)

end
