(* ===== verification/Session_Settle.thy ===== *)
theory Session_Settle
  imports Sessions Request_Compat Delegated_Transfer
begin

text \<open>
  The session branch of \<open>POST /settle\<close> (\<open>routes/settle.ts\<close>).  Many requests are in flight at once and
  every \<open>await\<close> lets others run, so a request is a program counter (\<open>phase\<close>) that advances by one
  SQL statement or one chain call at a time, and the system is the database, the requests and the log
  of what left the payers' accounts.  Any statement may fail and the chain may answer anything:
  each step takes what its surroundings answer.
\<close>

section \<open>Responses\<close>

record settle_success =
  ok_txHash :: string
  ok_payer :: string
  ok_amount :: rat
  ok_fee :: rat
  ok_net :: rat
  ok_network :: string
  ok_idempotent :: bool
  ok_feeDiscount :: "(int \<times> int) option"

datatype settle_response =
    SettleFailure nat string string string "string option"
  | SettleSuccess settle_success

definition sendSettleFailure ::
  "nat \<Rightarrow> string \<Rightarrow> string \<Rightarrow> string \<Rightarrow> string option \<Rightarrow> settle_response" where
  "sendSettleFailure status reason message network payer = SettleFailure status reason message network payer"

section \<open>From the body to the session\<close>

record facilitator_config =
  cf_MAX_SETTLEMENT_AMOUNT :: rat
  cf_SETTLEMENT_FEE_BPS :: int
  cf_baseEnabled :: bool
  cf_treasuryValid :: bool
  cf_checks :: address_checks

text \<open>
  The checks before the handler branches on the kind of payment: body, asset, header scheme, network
  and the network of the requirements.  Requests with a Kizuna requirement leave this path here and
  are not requests of this model.
\<close>

definition settle_prefix ::
  "facilitator_config \<Rightarrow> json option \<Rightarrow> settle_response + (settle_input \<times> string \<times> string)" where
  "settle_prefix cf body =
     (case parseSettleInput body of
        Inl err \<Rightarrow> Inl (sendSettleFailure 400 ''invalid_request'' err ''unknown:unknown'' None)
      | Inr inp \<Rightarrow>
          if si_asset inp \<noteq> [] \<and> si_asset inp \<noteq> ''USDC'' then
            Inl (sendSettleFailure 400 ''unsupported_asset'' ''Only USDC supported'' ''unknown:unknown'' None)
          else
            (case parsePaymentScheme (si_paymentHeader inp) of
               None \<Rightarrow> Inl (sendSettleFailure 400 ''unsupported_network'' ''Unsupported network'' ''unknown:unknown'' None)
             | Some (scheme, rawNetwork) \<Rightarrow>
                 (case canonicalizeNetwork rawNetwork of
                    None \<Rightarrow> Inl (sendSettleFailure 400 ''unsupported_network'' ''Unsupported network'' ''unknown:unknown'' None)
                  | Some network \<Rightarrow>
                      if \<not> isSupportedNetwork network (cf_baseEnabled cf) then
                        Inl (sendSettleFailure 400 ''unsupported_network'' ''Unsupported network'' network None)
                      else if (case si_requirementNetwork inp of
                                 None \<Rightarrow> False
                               | Some rn \<Rightarrow> rn \<noteq> [] \<and> canonicalizeNetwork rn \<noteq> Some network) then
                        Inl (sendSettleFailure 400 ''network_mismatch''
                          ''paymentRequirements.network does not match payment payload network'' network None)
                      else Inr (inp, scheme, network))))"

text \<open>The session header checks, up to the session lookup.\<close>

record session_request =
  sr_input :: settle_input
  sr_network :: string
  sr_token :: string
  sr_nonce :: string

definition session_entry ::
  "settle_input \<Rightarrow> string \<Rightarrow> settle_response + session_request" where
  "session_entry inp network =
     (if si_mode inp = Legacy \<and> (case si_amount inp of None \<Rightarrow> True | Some x \<Rightarrow> x \<le> 0) then
        Inl (sendSettleFailure 400 ''invalid_amount'' ''Invalid amount'' network None)
      else
        (case parseSessionPaymentHeader (si_paymentHeader inp) of
           None \<Rightarrow> Inl (sendSettleFailure 400 ''invalid_session_header'' ''Malformed session payment header'' network None)
         | Some h \<Rightarrow>
             if canonicalizeNetwork (sh_network h) \<noteq> Some network then
               Inl (sendSettleFailure 400 ''invalid_session_header'' ''Malformed session payment header'' network None)
             else
               (case sh_nonce h of
                  None \<Rightarrow> Inl (sendSettleFailure 400 ''missing_nonce''
                            ''Session payment header must include a nonce'' network None)
                | Some nonce \<Rightarrow>
                    if si_mode inp \<noteq> X402 then
                      Inl (sendSettleFailure 400 ''invalid_request''
                        ''Session payments require x402 paymentRequirements'' network None)
                    else Inr \<lparr>sr_input = inp, sr_network = network, sr_token = sh_token h, sr_nonce = nonce\<rparr>)))"

text \<open>What the handler knows about a request once the session row has been read and checked.\<close>

record admitted =
  ad_tokenHash :: string
  ad_payer :: string
  ad_nonce :: string
  ad_network :: string
  ad_merchant :: string
  ad_resource :: string
  ad_amountMicro :: int
  ad_amount :: rat

text \<open>
  The checks on the row: revoked, expired (by the process clock), network, merchant, amount, the cap
  that is left, the per-payment cap, the facilitator's limit, the API key's merchant, and the
  merchant address.
\<close>

definition session_limits ::
  "facilitator_config \<Rightarrow> string option \<Rightarrow> session_request \<Rightarrow> string \<Rightarrow> payment_session \<Rightarrow> int
   \<Rightarrow> settle_response + admitted" where
  "session_limits cf apiMerchant q tokenHash row amountMicro =
     (let network = sr_network q; payer = ps_payer_wallet row; merchant = si_merchantWallet (sr_input q);
          amount = fromBaseUnits amountMicro;
          failure = (\<lambda>status reason msg. Inl (sendSettleFailure status reason msg network (Some payer))) in
      if ps_spent_micro row < 0 \<or> ps_max_total_micro row < ps_spent_micro row then
        failure 500 ''server_error'' ''Invalid session limits''
      else if ps_max_total_micro row - ps_spent_micro row < amountMicro then
        failure 400 ''amount_exceeds_limit'' ''Amount exceeds remaining session cap''
      else if (case ps_max_single_micro row of None \<Rightarrow> False | Some m \<Rightarrow> m < amountMicro) then
        failure 400 ''amount_exceeds_limit'' ''Amount exceeds session per-request limit''
      else if cf_MAX_SETTLEMENT_AMOUNT cf < amount then
        failure 400 ''amount_exceeds_limit'' ''Amount exceeds limit''
      else if apiMerchant \<noteq> Some merchant then
        failure 403 ''merchant_mismatch'' ''Merchant wallet does not match API key''
      else if network = BASE_MAINNET_CAIP2 \<and> \<not> ac_isAddress (cf_checks cf) merchant then
        failure 400 ''invalid_wallet'' ''Invalid Base wallet address''
      else if network \<noteq> BASE_MAINNET_CAIP2 \<and> \<not> ac_isPublicKey (cf_checks cf) merchant then
        failure 400 ''invalid_wallet'' ''Invalid Solana wallet address''
      else
        Inr \<lparr>ad_tokenHash = tokenHash, ad_payer = payer, ad_nonce = sr_nonce q, ad_network = network,
             ad_merchant = merchant,
             ad_resource = or_text (si_requirementResource (sr_input q)) [],
             ad_amountMicro = amountMicro, ad_amount = amount\<rparr>)"

definition session_admit ::
  "facilitator_config \<Rightarrow> env \<Rightarrow> string option \<Rightarrow> session_request \<Rightarrow> payment_session option
   \<Rightarrow> settle_response + admitted" where
  "session_admit cf e apiMerchant q found =
     (let network = sr_network q in
      case found of
        None \<Rightarrow> Inl (sendSettleFailure 401 ''invalid_session'' ''Invalid or unknown session token'' network None)
      | Some row \<Rightarrow>
          (let failure = (\<lambda>status reason msg.
                 Inl (sendSettleFailure status reason msg network (Some (ps_payer_wallet row)))) in
           if ps_revoked_at row \<noteq> None then failure 401 ''session_revoked'' ''Session token revoked''
           else if ps_expires_at row \<le> env_date_now e then
             failure 401 ''session_expired'' ''Session token expired''
           else if canonicalizeNetwork (ps_network row) \<noteq> Some network then
             failure 400 ''network_mismatch'' ''Session network does not match payment payload network''
           else if ps_merchant_wallet row \<noteq> si_merchantWallet (sr_input q) then
             failure 400 ''merchant_mismatch'' ''Session token not valid for this merchant''
           else
             (case si_requirementAmountRaw (sr_input q) of
                None \<Rightarrow> failure 400 ''invalid_amount'' ''Missing paymentRequirements.amount''
              | Some raw \<Rightarrow>
                  if raw = [] then failure 400 ''invalid_amount'' ''Missing paymentRequirements.amount''
                  else (case parseUsdcMicroAmountBigint raw of
                          None \<Rightarrow> failure 400 ''invalid_amount'' ''Invalid paymentRequirements.amount''
                        | Some amountMicro \<Rightarrow>
                            session_limits cf apiMerchant q (hashSessionToken e (sr_token q)) row amountMicro))))"

section \<open>One request, step by step\<close>

text \<open>
  The answers a step gets from its surroundings: clock and generated id, whether the SQL statement
  fails, the four reads that price the payment (settlements, disputes, escrow quality, monthly
  volume; any values, since other requests change those tables), and the chain.
\<close>

record surroundings =
  or_env :: env
  or_uuid :: string
  or_dbFails :: bool
  or_totalSettlements :: rat
  or_disputesFiled :: rat
  or_disputesWon :: rat
  or_avgQuality :: rat
  or_monthlyVolume :: rat
  or_chain :: chain_view

record pricing =
  pg_discountPct :: int
  pg_feeBps :: int

datatype phase =
    Arrived "json option" "string option"
  | Elsewhere
  | Admitted admitted
  | Replay admitted
  | ReplayRead admitted string "string option"
  | NonceHeld admitted
  | BudgetRefused admitted
  | BudgetHeld admitted
  | Recorded admitted string
  | Pricing admitted string
  | Paying admitted string pricing
  | Paid admitted string pricing onchain
  | Confirming admitted string pricing onchain
  | Ledgered admitted string pricing onchain
  | Salvaging admitted pricing onchain
  | Failing admitted "string option" string
  | Refunding admitted string
  | NonceDropping admitted string
  | Done "settle_response option"

text \<open>
  A statement outside a transaction: it fails with the connection or in PostgreSQL, leaving the
  database as it was, or commits on its own.
\<close>

definition stmt :: "surroundings \<Rightarrow> (db, 'a) tx \<Rightarrow> db \<Rightarrow> (error + 'a) \<times> db" where
  "stmt w m d = (if or_dbFails w then (Inl (Thrown ''query failed''), d) else withTransaction m d)"

definition price :: "facilitator_config \<Rightarrow> surroundings \<Rightarrow> pricing" where
  "price cf w =
     (let repScore = calculateReputationScore (or_totalSettlements w) (or_disputesFiled w)
                       (or_disputesWon w) (or_avgQuality w);
          pct = calculateFeeDiscountPct repScore (or_monthlyVolume w) in
      \<lparr>pg_discountPct = pct, pg_feeBps = applyDiscount (cf_SETTLEMENT_FEE_BPS cf) pct\<rparr>)"

definition delegated_transfer :: "facilitator_config \<Rightarrow> surroundings \<Rightarrow> admitted \<Rightarrow> int \<Rightarrow> transfer_outcome" where
  "delegated_transfer cf w a feeBps =
     (if ad_network a = BASE_MAINNET_CAIP2
      then settleDelegatedPaymentBase (cf_checks cf) (cf_treasuryValid cf) (or_chain w)
             (ad_payer a) (ad_merchant a) (ad_amountMicro a) feeBps
      else settleDelegatedUsdcTransfer True (or_chain w) (ad_amountMicro a) feeBps)"

definition paid_response :: "admitted \<Rightarrow> pricing \<Rightarrow> onchain \<Rightarrow> settle_response" where
  "paid_response a p oc =
     SettleSuccess \<lparr>ok_txHash = oc_txHash oc, ok_payer = ad_payer a, ok_amount = ad_amount a,
       ok_fee = fromBaseUnits (oc_feeMicro oc), ok_net = fromBaseUnits (oc_netMicro oc),
       ok_network = ad_network a, ok_idempotent = False,
       ok_feeDiscount = (if 0 < pg_discountPct p then Some (pg_discountPct p, pg_feeBps p) else None)\<rparr>"

text \<open>The replayed answer: amounts of the recorded settlement when it can be read.\<close>

definition replay_response :: "admitted \<Rightarrow> string \<Rightarrow> settlement_row option \<Rightarrow> settle_response" where
  "replay_response a txHash found =
     (let amountFromDb = (case found of Some st \<Rightarrow> fl (st_amount st) | None \<Rightarrow> ad_amount a);
          feeFromDb = (case found of Some st \<Rightarrow> fl (st_fee_amount st) | None \<Rightarrow> 0) in
      SettleSuccess \<lparr>ok_txHash = txHash, ok_payer = ad_payer a, ok_amount = amountFromDb,
        ok_fee = feeFromDb, ok_net = fl (amountFromDb - feeFromDb), ok_network = ad_network a,
        ok_idempotent = True, ok_feeDiscount = None\<rparr>)"

definition refuse :: "admitted \<Rightarrow> nat \<Rightarrow> string \<Rightarrow> string \<Rightarrow> phase" where
  "refuse a status reason msg =
     Done (Some (sendSettleFailure status reason msg (ad_network a) (Some (ad_payer a))))"

definition settlement_failed :: "admitted \<Rightarrow> string \<Rightarrow> phase" where
  "settlement_failed a msg = refuse a 500 ''settlement_failed'' (''Settlement failed: '' @ msg)"

definition admit_step :: "facilitator_config \<Rightarrow> surroundings \<Rightarrow> json option \<Rightarrow> string option \<Rightarrow> db \<Rightarrow> phase" where
  "admit_step cf w body apiMerchant d =
     (case settle_prefix cf body of
        Inl r \<Rightarrow> Done (Some r)
      | Inr (inp, scheme, network) \<Rightarrow>
          if si_requirementKizuna inp \<noteq> None then Elsewhere
          else if scheme \<noteq> ''session'' then Elsewhere
          else (case session_entry inp network of
                  Inl r \<Rightarrow> Done (Some r)
                | Inr q \<Rightarrow>
                    if or_dbFails w then Done None
                    else (case session_admit cf (or_env w) apiMerchant q
                                 (getPaymentSessionByTokenHash
                                    (hashSessionToken (or_env w) (sr_token q)) d) of
                            Inl r \<Rightarrow> Done (Some r)
                          | Inr a \<Rightarrow> Admitted a)))"

text \<open>
  One step of a request: the next phase, the database, and the micro-USDC that left the payer.  A
  query outside every \<open>try\<close> that fails is answered by the application's error handler
  (\<open>middleware/error-handler.ts\<close>) and ends the request as \<open>Done None\<close>; one
  followed by \<open>.catch(() => {})\<close> is ignored.
\<close>

definition reserve_nonce_step :: "surroundings \<Rightarrow> admitted \<Rightarrow> db \<Rightarrow> phase \<times> db" where
  "reserve_nonce_step w a d =
     (case stmt w (reservePaymentNonce (or_env w) (ad_payer a) (ad_nonce a) ''settle'' (ad_network a)
                     (ad_resource a) (ad_amount a)) d of
        (Inl _, d') \<Rightarrow> (refuse a 500 ''server_error'' ''Failed to reserve payment nonce'', d')
      | (Inr fresh, d') \<Rightarrow> (if fresh then NonceHeld a else Replay a, d'))"

definition replay_step :: "surroundings \<Rightarrow> admitted \<Rightarrow> db \<Rightarrow> phase" where
  "replay_step w a d =
     (case (if or_dbFails w then None else getPaymentNonceGuard (ad_payer a) (ad_nonce a) d) of
        Some g \<Rightarrow>
          (case ng_tx_hash g of
             Some h \<Rightarrow> if h \<noteq> [] then ReplayRead a h (ng_settlement_id g)
                       else refuse a 409 ''replayed_payment'' ''Payment nonce already used''
           | None \<Rightarrow> refuse a 409 ''replayed_payment'' ''Payment nonce already used'')
      | None \<Rightarrow> refuse a 409 ''replayed_payment'' ''Payment nonce already used'')"

definition replay_read_step :: "surroundings \<Rightarrow> admitted \<Rightarrow> string \<Rightarrow> string option \<Rightarrow> db \<Rightarrow> phase" where
  "replay_read_step w a h sid d =
     Done (Some (replay_response a h
       (case sid of None \<Rightarrow> None | Some i \<Rightarrow> if or_dbFails w then None else getSettlementById i d)))"

definition reserve_budget_step :: "surroundings \<Rightarrow> admitted \<Rightarrow> db \<Rightarrow> phase \<times> db" where
  "reserve_budget_step w a d =
     (case stmt w (reservePaymentSessionSpend (or_env w) (ad_tokenHash a) (ad_amountMicro a)) d of
        (Inl _, d') \<Rightarrow> (Done None, d')
      | (Inr ok, d') \<Rightarrow> (if ok then BudgetHeld a else BudgetRefused a, d'))"

definition insert_settlement_step :: "surroundings \<Rightarrow> admitted \<Rightarrow> db \<Rightarrow> phase \<times> db" where
  "insert_settlement_step w a d =
     (case stmt w (insertSettlement (or_env w) (or_uuid w) (ad_merchant a) (ad_payer a) (ad_amount a) 0
                     ''USDC'' [] SettlementPending (ad_network a)) d of
        (Inl _, d') \<Rightarrow> (Failing a None ''query failed'', d')
      | (Inr st, d') \<Rightarrow> (Recorded a (st_id st), d'))"

definition pay_step ::
  "facilitator_config \<Rightarrow> surroundings \<Rightarrow> admitted \<Rightarrow> string \<Rightarrow> pricing \<Rightarrow> phase \<times> int" where
  "pay_step cf w a sid p =
     (case delegated_transfer cf w a (pg_feeBps p) of
        (Inl msg, moved) \<Rightarrow> (Failing a (Some sid) msg, moved)
      | (Inr oc, moved) \<Rightarrow> (Paid a sid p oc, moved))"

definition treasury_tx :: "admitted \<Rightarrow> onchain \<Rightarrow> string option" where
  "treasury_tx a oc = (if ad_network a = BASE_MAINNET_CAIP2 then oc_feeTxHash oc else Some (oc_txHash oc))"

definition then_phase :: "(error + 'a) \<times> db \<Rightarrow> phase \<Rightarrow> phase \<Rightarrow> phase \<times> db" where
  "then_phase r ok failed = (case r of (Inl _, d') \<Rightarrow> (failed, d') | (Inr _, d') \<Rightarrow> (ok, d'))"

fun request_step :: "facilitator_config \<Rightarrow> surroundings \<Rightarrow> phase \<Rightarrow> db \<Rightarrow> (phase \<times> db) \<times> int" where
  "request_step cf w (Arrived body apiMerchant) d = ((admit_step cf w body apiMerchant d, d), 0)"
| "request_step cf w (Admitted a) d = (reserve_nonce_step w a d, 0)"
| "request_step cf w (Replay a) d = ((replay_step w a d, d), 0)"
| "request_step cf w (ReplayRead a h sid) d = ((replay_read_step w a h sid d, d), 0)"
| "request_step cf w (NonceHeld a) d = (reserve_budget_step w a d, 0)"
| "request_step cf w (BudgetRefused a) d =
     (let r = refuse a 400 ''amount_exceeds_limit'' ''Amount exceeds remaining session cap'' in
      (then_phase (stmt w (deletePaymentNonceGuard (ad_payer a) (ad_nonce a)) d) r r, 0))"
| "request_step cf w (BudgetHeld a) d = (insert_settlement_step w a d, 0)"
| "request_step cf w (Recorded a sid) d =
     (then_phase (stmt w (setPaymentNonceSettlementId (ad_payer a) (ad_nonce a) sid) d)
        (Pricing a sid) (Pricing a sid), 0)"
| "request_step cf w (Pricing a sid) d =
     ((if or_dbFails w then Failing a (Some sid) ''query failed'' else Paying a sid (price cf w), d), 0)"
| "request_step cf w (Paying a sid p) d = ((fst (pay_step cf w a sid p), d), snd (pay_step cf w a sid p))"
| "request_step cf w (Paid a sid p oc) d =
     (then_phase (stmt w (updateSettlementConfirmed sid (oc_txHash oc) (fromBaseUnits (oc_feeMicro oc))) d)
        (Confirming a sid p oc) (Salvaging a p oc), 0)"
| "request_step cf w (Confirming a sid p oc) d =
     (then_phase (stmt w (insertFeeLedger (Some sid) None ''settlement'' (fromBaseUnits (oc_feeMicro oc))
                            (treasury_tx a oc)) d)
        (Ledgered a sid p oc) (Salvaging a p oc), 0)"
| "request_step cf w (Ledgered a sid p oc) d =
     (then_phase (stmt w (setPaymentNonceTxHash (ad_payer a) (ad_nonce a) (oc_txHash oc)) d)
        (Done (Some (paid_response a p oc))) (Salvaging a p oc), 0)"
| "request_step cf w (Salvaging a p oc) d =
     (then_phase (stmt w (setPaymentNonceTxHash (ad_payer a) (ad_nonce a) (oc_txHash oc)) d)
        (Done (Some (paid_response a p oc))) (Done (Some (paid_response a p oc))), 0)"
| "request_step cf w (Failing a sid msg) d =
     (case sid of
        None \<Rightarrow> ((Refunding a msg, d), 0)
      | Some i \<Rightarrow> (then_phase (stmt w (updateSettlementStatus i SettlementFailed None) d)
                    (Refunding a msg) (Done None), 0))"
| "request_step cf w (Refunding a msg) d =
     (then_phase (stmt w (releasePaymentSessionSpend (ad_tokenHash a) (ad_amountMicro a)) d)
        (NonceDropping a msg) (Done None), 0)"
| "request_step cf w (NonceDropping a msg) d =
     (then_phase (stmt w (deletePaymentNonceGuard (ad_payer a) (ad_nonce a)) d)
        (settlement_failed a msg) (settlement_failed a msg), 0)"
| "request_step cf w Elsewhere d = ((Elsewhere, d), 0)"
| "request_step cf w (Done r) d = ((Done r, d), 0)"

section \<open>The system\<close>

record transfer_log =
  tl_tokenHash :: string
  tl_key :: "string \<times> string"
  tl_moved :: int

record settle_system =
  ss_db :: db
  ss_requests :: "phase list"
  ss_log :: "transfer_log list"

text \<open>The session and the nonce that a phase acts for.\<close>

fun phase_admitted :: "phase \<Rightarrow> admitted option" where
  "phase_admitted (Admitted a) = Some a"
| "phase_admitted (Replay a) = Some a"
| "phase_admitted (ReplayRead a _ _) = Some a"
| "phase_admitted (NonceHeld a) = Some a"
| "phase_admitted (BudgetRefused a) = Some a"
| "phase_admitted (BudgetHeld a) = Some a"
| "phase_admitted (Recorded a _) = Some a"
| "phase_admitted (Pricing a _) = Some a"
| "phase_admitted (Paying a _ _) = Some a"
| "phase_admitted (Paid a _ _ _) = Some a"
| "phase_admitted (Confirming a _ _ _) = Some a"
| "phase_admitted (Ledgered a _ _ _) = Some a"
| "phase_admitted (Salvaging a _ _) = Some a"
| "phase_admitted (Failing a _ _) = Some a"
| "phase_admitted (Refunding a _) = Some a"
| "phase_admitted (NonceDropping a _) = Some a"
| "phase_admitted _ = None"

definition log_entry :: "phase \<Rightarrow> int \<Rightarrow> transfer_log list" where
  "log_entry ph moved =
     (case phase_admitted ph of
        Some a \<Rightarrow> if moved \<noteq> 0 then [\<lparr>tl_tokenHash = ad_tokenHash a,
                                      tl_key = (ad_payer a, ad_nonce a), tl_moved = moved\<rparr>] else []
      | None \<Rightarrow> [])"

definition advance :: "facilitator_config \<Rightarrow> surroundings \<Rightarrow> nat \<Rightarrow> settle_system \<Rightarrow> settle_system" where
  "advance cf w i s =
     (if i < length (ss_requests s)
      then (let ph = ss_requests s ! i; r = request_step cf w ph (ss_db s) in
            \<lparr>ss_db = snd (fst r), ss_requests = (ss_requests s)[i := fst (fst r)],
             ss_log = ss_log s @ log_entry ph (snd r)\<rparr>)
      else s)"

section \<open>What each statement does to sessions and guards\<close>

lemma stmt_failed: "stmt w m d = (Inl e, d') \<Longrightarrow> d' = d"
  by (auto simp: stmt_def withTransaction_def split: if_splits sum.splits)

lemma stmt_done: "stmt w m d = (Inr a, d') \<Longrightarrow> m d = Inr (a, d')"
  by (auto simp: stmt_def withTransaction_def split: if_splits sum.splits)

text \<open>Statements that leave sessions and guards alone.\<close>

definition keeps :: "(db, 'a) tx \<Rightarrow> bool" where
  "keeps m = (\<forall>d a d'. m d = Inr (a, d') \<longrightarrow>
      t_payment_sessions d' = t_payment_sessions d \<and> t_nonce_guard d' = t_nonce_guard d)"

lemma keepsD: "keeps m \<Longrightarrow> m d = Inr (a, d') \<Longrightarrow>
    t_payment_sessions d' = t_payment_sessions d \<and> t_nonce_guard d' = t_nonce_guard d"
  by (auto simp: keeps_def)

lemma keeps_settlement_statements:
  "keeps (insertSettlement e uid mw pw amount fee asset h st n)"
  "keeps (updateSettlementStatus sid status h')"
  "keeps (updateSettlementConfirmed sid h fee')"
  "keeps (insertFeeLedger sid' eid ft fee' t)"
  by (auto simp: keeps_def insertSettlement_def updateSettlementStatus_def updateSettlementConfirmed_def
      insertFeeLedger_def insert_fee_row_def Let_def thenT_success)

text \<open>Statements that keep sessions and the set of guarded nonces, but may fill in a guard row.\<close>

definition keeps_keys :: "(db, 'a) tx \<Rightarrow> bool" where
  "keeps_keys m = (\<forall>d a d'. m d = Inr (a, d') \<longrightarrow>
      t_payment_sessions d' = t_payment_sessions d \<and> dom (t_nonce_guard d') = dom (t_nonce_guard d))"

lemma keeps_keysD: "keeps_keys m \<Longrightarrow> m d = Inr (a, d') \<Longrightarrow>
    t_payment_sessions d' = t_payment_sessions d \<and> dom (t_nonce_guard d') = dom (t_nonce_guard d)"
  by (auto simp: keeps_keys_def)

lemma keeps_keys_guard_updates:
  "keeps_keys (setPaymentNonceSettlementId p n sid)" "keeps_keys (setPaymentNonceTxHash p n h)"
  by (auto simp: keeps_keys_def setPaymentNonceSettlementId_def setPaymentNonceTxHash_def
      update_guard_def put_guard_def split: option.splits)

lemma keeps_imp_keys: "keeps m \<Longrightarrow> keeps_keys m"
  by (auto simp: keeps_def keeps_keys_def)

lemma then_phase_keys:
  assumes "keeps_keys m" and "then_phase (stmt w m d) ok failed = (ph, d')"
  shows "t_payment_sessions d' = t_payment_sessions d \<and> dom (t_nonce_guard d') = dom (t_nonce_guard d)
         \<and> (ph = ok \<or> ph = failed)"
  using assms
  by (auto simp: then_phase_def split: prod.splits sum.splits dest!: stmt_failed stmt_done keeps_keysD)

lemma reservePaymentNonce_effect:
  assumes "reservePaymentNonce e p n u nw r a d = Inr (fresh, d')"
  shows "t_payment_sessions d' = t_payment_sessions d"
    and "fresh \<Longrightarrow> t_nonce_guard d (p, n) = None
                 \<and> dom (t_nonce_guard d') = insert (p, n) (dom (t_nonce_guard d))"
    and "\<not> fresh \<Longrightarrow> d' = d"
  using assms
  by (auto simp: reservePaymentNonce_def Let_def thenT_success bindT_success insert_if_absent_def
      put_guard_def split: option.splits)

lemma deletePaymentNonceGuard_effect:
  assumes "deletePaymentNonceGuard p n d = Inr (u, d')"
  shows "t_payment_sessions d' = t_payment_sessions d
         \<and> dom (t_nonce_guard d) - {(p, n)} \<subseteq> dom (t_nonce_guard d')
         \<and> dom (t_nonce_guard d') \<subseteq> dom (t_nonce_guard d)"
  using assms by (auto simp: deletePaymentNonceGuard_def split: option.splits if_splits)

section \<open>Budgets: the session cap\<close>

definition spent_of :: "db \<Rightarrow> string \<Rightarrow> int" where
  "spent_of d tok = (case t_payment_sessions d tok of None \<Rightarrow> 0 | Some row \<Rightarrow> ps_spent_micro row)"

definition cap_of :: "db \<Rightarrow> string \<Rightarrow> int" where
  "cap_of d tok = (case t_payment_sessions d tok of None \<Rightarrow> 0 | Some row \<Rightarrow> max 0 (ps_max_total_micro row))"

definition budget_ok :: "db \<Rightarrow> bool" where
  "budget_ok d = (\<forall>tok. 0 \<le> spent_of d tok \<and> spent_of d tok \<le> cap_of d tok)"

lemma budget_okI:
  "(\<And>tok. 0 \<le> spent_of d tok) \<Longrightarrow> (\<And>tok. spent_of d tok \<le> cap_of d tok) \<Longrightarrow> budget_ok d"
  by (simp add: budget_ok_def)

lemma budget_cong:
  "t_payment_sessions d' = t_payment_sessions d \<Longrightarrow> spent_of d' = spent_of d \<and> cap_of d' = cap_of d"
  by (simp add: spent_of_def cap_of_def fun_eq_iff)

lemma reserveSpend_effect:
  assumes "reservePaymentSessionSpend e tok delta d = Inr (ok, d')" and "0 \<le> delta" and "budget_ok d"
  shows "budget_ok d'" and "t_nonce_guard d' = t_nonce_guard d"
    and "ok \<Longrightarrow> spent_of d' t = spent_of d t + (if t = tok then delta else 0)"
    and "\<not> ok \<Longrightarrow> d' = d"
  using assms
  by (auto simp: reservePaymentSessionSpend_def budget_ok_def spent_of_def cap_of_def put_session_def
      session_has_room_def split: option.splits if_splits)

lemma releaseSpend_effect:
  assumes "releasePaymentSessionSpend tok delta d = Inr (u, d')" and "0 \<le> delta" and "budget_ok d"
  shows "budget_ok d'" and "t_nonce_guard d' = t_nonce_guard d"
    and "spent_of d t - (if t = tok then delta else 0) \<le> spent_of d' t"
proof -
  have d': "cap_of d' t = cap_of d t"
    "spent_of d' t = (if t = tok then max (spent_of d t - delta) 0 else spent_of d t)"
    "t_nonce_guard d' = t_nonce_guard d" for t
    using assms(1,2)
    by (cases "t = tok"; cases "t_payment_sessions d tok";
        auto simp: releasePaymentSessionSpend_def spent_of_def cap_of_def put_session_def)+
  have b: "0 \<le> spent_of d t \<and> spent_of d t \<le> cap_of d t" for t using assms(3) by (simp add: budget_ok_def)
  show "budget_ok d'" unfolding budget_ok_def d' using b assms(2) by (smt (verit))
  show "t_nonce_guard d' = t_nonce_guard d" by (rule d'(3))
  show "spent_of d t - (if t = tok then delta else 0) \<le> spent_of d' t" unfolding d' by simp
qed

lemma insertPaymentSession_effect:
  assumes "insertPaymentSession tok p d = Inr (row, d')" and "budget_ok d"
  shows "budget_ok d'" and "t_nonce_guard d' = t_nonce_guard d" and "spent_of d' = spent_of d"
  using assms
  by (auto simp: insertPaymentSession_def budget_ok_def spent_of_def cap_of_def put_session_def
      new_session_def thenT_success fun_eq_iff split: option.splits if_splits)

lemma revokePaymentSession_effect:
  assumes "revokePaymentSession e tok d = Inr (r, d')"
  shows "spent_of d' = spent_of d" and "cap_of d' = cap_of d" and "t_nonce_guard d' = t_nonce_guard d"
  using assms
  by (auto simp: revokePaymentSession_def spent_of_def cap_of_def put_session_def fun_eq_iff
      split: option.splits if_splits)

section \<open>Who holds what\<close>

text \<open>The amount a request has reserved in its session and not yet paid out.\<close>

fun budget_of :: "phase \<Rightarrow> admitted option" where
  "budget_of (BudgetHeld a) = Some a"
| "budget_of (Recorded a _) = Some a"
| "budget_of (Pricing a _) = Some a"
| "budget_of (Paying a _ _) = Some a"
| "budget_of (Failing a _ _) = Some a"
| "budget_of (Refunding a _) = Some a"
| "budget_of _ = None"

text \<open>The nonce a request has taken and neither paid under nor given back.\<close>

fun nonce_of :: "phase \<Rightarrow> admitted option" where
  "nonce_of (NonceHeld a) = Some a"
| "nonce_of (BudgetRefused a) = Some a"
| "nonce_of (NonceDropping a _) = Some a"
| "nonce_of ph = budget_of ph"

definition held :: "string \<Rightarrow> phase \<Rightarrow> int" where
  "held tok ph = (case budget_of ph of
     Some a \<Rightarrow> if ad_tokenHash a = tok then ad_amountMicro a else 0 | None \<Rightarrow> 0)"

definition owns :: "string \<times> string \<Rightarrow> phase \<Rightarrow> int" where
  "owns k ph = (case nonce_of ph of
     Some a \<Rightarrow> if (ad_payer a, ad_nonce a) = k then 1 else 0 | None \<Rightarrow> 0)"

definition moved_for :: "string \<Rightarrow> transfer_log list \<Rightarrow> int" where
  "moved_for tok entries = sum_where (\<lambda>l. tl_tokenHash l = tok) tl_moved entries"

definition paid_under :: "string \<times> string \<Rightarrow> transfer_log list \<Rightarrow> int" where
  "paid_under k entries = sum_where (\<lambda>l. tl_key l = k) (\<lambda>_. 1) entries"

text \<open>Every admitted request asks for a positive amount, and fees are never negative.\<close>

definition phase_ok :: "phase \<Rightarrow> bool" where
  "phase_ok ph =
     ((case phase_admitted ph of Some a \<Rightarrow> 0 < ad_amountMicro a | None \<Rightarrow> True)
      \<and> (case ph of Paying _ _ p \<Rightarrow> 0 \<le> pg_feeBps p | _ \<Rightarrow> True))"

lemma budget_admitted: "budget_of ph = Some a \<Longrightarrow> phase_admitted ph = Some a"
  by (cases ph) auto

lemma nonce_admitted: "nonce_of ph = Some a \<Longrightarrow> phase_admitted ph = Some a"
  by (cases ph) auto

lemma held_nonneg: "phase_ok ph \<Longrightarrow> 0 \<le> held tok ph"
  by (auto simp: held_def phase_ok_def dest: budget_admitted split: option.splits)

lemma owns_range: "0 \<le> owns k ph \<and> owns k ph \<le> 1"
  by (auto simp: owns_def split: option.splits)

lemma refuse_sel [simp]:
  "budget_of (refuse a st r m) = None" "nonce_of (refuse a st r m) = None"
  "phase_admitted (refuse a st r m) = None"
  "budget_of (settlement_failed a m) = None" "nonce_of (settlement_failed a m) = None"
  "phase_admitted (settlement_failed a m) = None"
  by (simp_all add: refuse_def settlement_failed_def)

text \<open>
  What one step of one request may do: it keeps its amount positive; it can only add slack between
  what a session has spent and what is reserved or paid from it; it takes a nonce only when the
  guard is free and frees a guard only by giving up its own nonce without a payment.
\<close>

definition slack_change :: "string \<Rightarrow> phase \<Rightarrow> db \<Rightarrow> phase \<Rightarrow> db \<Rightarrow> int \<Rightarrow> int" where
  "slack_change tok ph d ph' d' moved =
     (spent_of d' tok - spent_of d tok) - (held tok ph' - held tok ph)
     - moved_for tok (log_entry ph moved)"

definition claim_change :: "string \<times> string \<Rightarrow> phase \<Rightarrow> phase \<Rightarrow> int \<Rightarrow> int" where
  "claim_change k ph ph' moved = owns k ph' - owns k ph + paid_under k (log_entry ph moved)"

definition nonce_rule :: "string \<times> string \<Rightarrow> phase \<Rightarrow> db \<Rightarrow> phase \<Rightarrow> db \<Rightarrow> int \<Rightarrow> bool" where
  "nonce_rule k ph d ph' d' moved =
     ((claim_change k ph ph' moved \<le> 0 \<and> k \<in> dom (t_nonce_guard d'))
      \<or> (claim_change k ph ph' moved \<le> 0 \<and> k \<notin> dom (t_nonce_guard d) \<and> k \<notin> dom (t_nonce_guard d'))
      \<or> (claim_change k ph ph' moved = 1 \<and> k \<notin> dom (t_nonce_guard d) \<and> k \<in> dom (t_nonce_guard d'))
      \<or> (claim_change k ph ph' moved = - 1 \<and> owns k ph = 1))"

definition good_step :: "phase \<Rightarrow> db \<Rightarrow> phase \<Rightarrow> db \<Rightarrow> int \<Rightarrow> bool" where
  "good_step ph d ph' d' moved =
     (phase_ok ph' \<and> budget_ok d' \<and> 0 \<le> moved
      \<and> (\<forall>tok. 0 \<le> slack_change tok ph d ph' d' moved)
      \<and> (\<forall>k. nonce_rule k ph d ph' d' moved))"

lemma log_entry_0 [simp]: "log_entry ph 0 = []"
  by (simp add: log_entry_def split: option.split)

lemma moved_for_simps [simp]: "moved_for tok [] = 0" "paid_under k [] = 0"
  by (simp_all add: moved_for_def paid_under_def)

text \<open>A step that touches neither sessions nor guard keys and does not claim more than before.\<close>

lemma good_step_keep:
  assumes "phase_ok ph'" and "budget_ok d"
    and "t_payment_sessions d' = t_payment_sessions d" and "dom (t_nonce_guard d') = dom (t_nonce_guard d)"
    and "\<And>tok. held tok ph' \<le> held tok ph" and "\<And>k. owns k ph' \<le> owns k ph"
  shows "good_step ph d ph' d' 0"
proof -
  have s: "spent_of d' = spent_of d" "cap_of d' = cap_of d" using budget_cong [OF assms(3)] by auto
  have "budget_ok d'" using assms(2) by (simp add: budget_ok_def s)
  moreover have "nonce_rule k ph d ph' d' 0" for k
    using assms(4) assms(6) [of k] by (auto simp: nonce_rule_def claim_change_def)
  ultimately show ?thesis using assms(1,5) by (simp add: good_step_def slack_change_def s)
qed

lemma phase_ok_simps [simp]:
  "phase_ok (refuse a st r m)" "phase_ok (settlement_failed a m)" "phase_ok (Done x)" "phase_ok Elsewhere"
  "phase_ok (Arrived body api)"
  by (simp_all add: phase_ok_def refuse_def settlement_failed_def)

lemma session_admit_amount:
  "session_admit cf e m q found = Inr a \<Longrightarrow> 0 < ad_amountMicro a"
  by (auto simp: session_admit_def session_limits_def Let_def dest: parseUsdc_positive
      split: option.splits if_splits)

lemma admit_step_phase:
  "phase_ok (admit_step cf w body m d) \<and> budget_of (admit_step cf w body m d) = None
   \<and> nonce_of (admit_step cf w body m d) = None"
  by (auto simp: admit_step_def phase_ok_def dest: session_admit_amount split: sum.split)

lemma held_simps [simp]:
  "budget_of ph = None \<Longrightarrow> held tok ph = 0"
  "budget_of ph = Some a \<Longrightarrow> held tok ph = (if ad_tokenHash a = tok then ad_amountMicro a else 0)"
  by (simp_all add: held_def)

lemma owns_simps [simp]:
  "nonce_of ph = None \<Longrightarrow> owns k ph = 0"
  "nonce_of ph = Some a \<Longrightarrow> owns k ph = (if (ad_payer a, ad_nonce a) = k then 1 else 0)"
  by (simp_all add: owns_def)

lemma reserve_nonce_good:
  assumes "phase_ok (Admitted a)" and "budget_ok d" and "reserve_nonce_step w a d = (ph', d')"
  shows "good_step (Admitted a) d ph' d' 0"
proof -
  let ?m = "reservePaymentNonce (or_env w) (ad_payer a) (ad_nonce a) ''settle'' (ad_network a)
              (ad_resource a) (ad_amount a)"
  consider (failed) "d' = d" "ph' = refuse a 500 ''server_error'' ''Failed to reserve payment nonce''"
    | (fresh) "?m d = Inr (True, d')" "ph' = NonceHeld a"
    | (taken) "?m d = Inr (False, d')" "ph' = Replay a"
    using assms(3) unfolding reserve_nonce_step_def
    by (auto split: prod.splits sum.splits if_splits dest!: stmt_failed stmt_done)
  then show ?thesis
  proof cases
    case failed
    with assms show ?thesis by (intro good_step_keep) simp_all
  next
    case fresh
    note e = reservePaymentNonce_effect(1,2) [OF fresh(1)]
    have s: "spent_of d' = spent_of d" "cap_of d' = cap_of d" using budget_cong [OF e(1)] by auto
    have "nonce_rule k (Admitted a) d ph' d' 0" for k
      using e(2) fresh(2) by (auto simp: nonce_rule_def claim_change_def)
    with assms fresh(2) show ?thesis
      by (simp add: good_step_def slack_change_def s budget_ok_def phase_ok_def)
  next
    case taken
    have "d' = d" using reservePaymentNonce_effect(3) [OF taken(1)] by simp
    with assms taken show ?thesis by (intro good_step_keep) (simp_all add: phase_ok_def)
  qed
qed

lemma reserve_budget_good:
  assumes "phase_ok (NonceHeld a)" and "budget_ok d" and "reserve_budget_step w a d = (ph', d')"
  shows "good_step (NonceHeld a) d ph' d' 0"
proof -
  let ?m = "reservePaymentSessionSpend (or_env w) (ad_tokenHash a) (ad_amountMicro a)"
  have pos: "0 \<le> ad_amountMicro a" using assms(1) by (simp add: phase_ok_def)
  consider (failed) "d' = d" "ph' = Done None" | (held) "?m d = Inr (True, d')" "ph' = BudgetHeld a"
    | (refused) "?m d = Inr (False, d')" "ph' = BudgetRefused a"
    using assms(3) unfolding reserve_budget_step_def
    by (auto split: prod.splits sum.splits if_splits dest!: stmt_failed stmt_done)
  then show ?thesis
  proof cases
    case failed
    with assms show ?thesis by (intro good_step_keep) simp_all
  next
    case held
    note e = reserveSpend_effect [OF held(1) pos assms(2)]
    have "nonce_rule k (NonceHeld a) d ph' d' 0" for k
      using e(2) held(2) by (auto simp: nonce_rule_def claim_change_def)
    with assms(1) e(1,3) held(2) show ?thesis
      by (simp add: good_step_def slack_change_def phase_ok_def)
  next
    case refused
    then have "d' = d" using reserveSpend_effect(4) [OF refused(1) pos assms(2)] by simp
    with assms refused show ?thesis by (intro good_step_keep) (simp_all add: phase_ok_def)
  qed
qed

lemma refund_good:
  assumes "phase_ok (Refunding a msg)" and "budget_ok d"
    and "then_phase (stmt w (releasePaymentSessionSpend (ad_tokenHash a) (ad_amountMicro a)) d)
           (NonceDropping a msg) (Done None) = (ph', d')"
  shows "good_step (Refunding a msg) d ph' d' 0"
proof -
  let ?m = "releasePaymentSessionSpend (ad_tokenHash a) (ad_amountMicro a)"
  have pos: "0 < ad_amountMicro a" using assms(1) by (simp add: phase_ok_def)
  consider (failed) "d' = d" "ph' = Done None" | (released) u where "?m d = Inr (u, d')" "ph' = NonceDropping a msg"
    using assms(3) unfolding then_phase_def
    by (auto split: prod.splits sum.splits dest!: stmt_failed stmt_done)
  then show ?thesis
  proof cases
    case failed
    with assms pos show ?thesis by (intro good_step_keep) simp_all
  next
    case released
    note e = releaseSpend_effect [OF released(1) less_imp_le [OF pos] assms(2)]
    have "nonce_rule k (Refunding a msg) d ph' d' 0" for k
      using e(2) released(2) by (auto simp: nonce_rule_def claim_change_def)
    moreover have "0 \<le> slack_change t (Refunding a msg) d ph' d' 0" for t
      using e(3) [of t] released(2) by (auto simp: slack_change_def)
    ultimately show ?thesis using assms(1) e(1) released(2) by (simp add: good_step_def phase_ok_def)
  qed
qed

text \<open>Both cleanup paths delete the guard of the request's own nonce.\<close>

lemma drop_nonce_good:
  assumes n: "nonce_of ph = Some a" and b: "budget_of ph = None" and "budget_ok d"
    and r: "phase_ok r" "nonce_of r = None" "budget_of r = None"
    and step: "then_phase (stmt w (deletePaymentNonceGuard (ad_payer a) (ad_nonce a)) d) r r = (ph', d')"
  shows "good_step ph d ph' d' 0"
proof -
  let ?m = "deletePaymentNonceGuard (ad_payer a) (ad_nonce a)"
  obtain q where q: "stmt w ?m d = (q, d')" and ph': "ph' = r"
    using step unfolding then_phase_def by (auto split: prod.splits sum.splits)
  have "d' = d \<or> (\<exists>u. ?m d = Inr (u, d'))"
    using stmt_failed [of w ?m d _ d'] stmt_done [of w ?m d _ d'] q by (cases q) auto
  then have e: "t_payment_sessions d' = t_payment_sessions d"
      "dom (t_nonce_guard d) - {(ad_payer a, ad_nonce a)} \<subseteq> dom (t_nonce_guard d')"
      "dom (t_nonce_guard d') \<subseteq> dom (t_nonce_guard d)"
    using deletePaymentNonceGuard_effect [of "ad_payer a" "ad_nonce a" d _ d'] by blast+
  have s: "spent_of d' = spent_of d" "cap_of d' = cap_of d" using budget_cong [OF e(1)] by auto
  have "nonce_rule k ph d ph' d' 0" for k
    using e(2,3) n r ph' by (cases "k = (ad_payer a, ad_nonce a)") (auto simp: nonce_rule_def claim_change_def)
  with r ph' b assms(3) show ?thesis by (simp add: good_step_def slack_change_def s budget_ok_def)
qed

lemma pay_good:
  assumes "phase_ok (Paying a sid p)" and "budget_ok d" and "definite (or_chain w)"
    and "pay_step cf w a sid p = (ph', moved)"
  shows "good_step (Paying a sid p) d ph' d moved"
proof -
  have pos: "0 < ad_amountMicro a" and fee: "0 \<le> pg_feeBps p" using assms(1) by (simp_all add: phase_ok_def)
  have ok: "outcome_ok (ad_amountMicro a) True (delegated_transfer cf w a (pg_feeBps p))"
    using settle_base_ok [OF pos fee, of "or_chain w"] settle_solana_ok [OF pos fee, of "or_chain w"]
      assms(3) by (simp add: delegated_transfer_def)
  consider (failed) msg where "ph' = Failing a (Some sid) msg" "moved = 0"
    | (paid) oc where "ph' = Paid a sid p oc" "0 \<le> moved" "moved \<le> ad_amountMicro a"
    using assms(4) ok unfolding pay_step_def
    by (auto simp: outcome_ok_def split: prod.splits sum.splits)
  then show ?thesis
  proof cases
    case failed
    with assms show ?thesis by (auto intro!: good_step_keep simp: phase_ok_def)
  next
    case paid
    have "nonce_rule k (Paying a sid p) d ph' d moved" for k
      using paid by (auto simp: nonce_rule_def claim_change_def log_entry_def paid_under_def)
    moreover have "0 \<le> slack_change t (Paying a sid p) d ph' d moved" for t
      using paid by (auto simp: slack_change_def log_entry_def moved_for_def)
    ultimately show ?thesis using assms(1,2) paid by (simp add: good_step_def phase_ok_def)
  qed
qed

lemmas statement_keys = keeps_keys_guard_updates keeps_settlement_statements [THEN keeps_imp_keys]

text \<open>A step of a statement that changes neither sessions nor guard keys.\<close>

lemma then_phase_good:
  assumes "phase_ok ph" and "budget_ok d" and "keeps_keys m"
    and "then_phase (stmt w m d) ok failed = (ph', d')"
    and "\<And>q. q = ok \<or> q = failed \<Longrightarrow>
           phase_ok q \<and> (\<forall>tok. held tok q \<le> held tok ph) \<and> (\<forall>k. owns k q \<le> owns k ph)"
  shows "good_step ph d ph' d' 0"
proof -
  note t = then_phase_keys [OF assms(3,4)]
  with assms(5) [of ph'] have "phase_ok ph'" "\<And>tok. held tok ph' \<le> held tok ph" "\<And>k. owns k ph' \<le> owns k ph"
    by auto
  with t assms(2) show ?thesis by (intro good_step_keep) auto
qed

lemma insert_settlement_good:
  assumes "phase_ok (BudgetHeld a)" and "budget_ok d" and "insert_settlement_step w a d = (ph', d')"
  shows "good_step (BudgetHeld a) d ph' d' 0"
proof -
  let ?m = "insertSettlement (or_env w) (or_uuid w) (ad_merchant a) (ad_payer a) (ad_amount a) 0
              ''USDC'' [] SettlementPending (ad_network a)"
  consider (failed) "d' = d" "ph' = Failing a None ''query failed''"
    | (recorded) st where "?m d = Inr (st, d')" "ph' = Recorded a (st_id st)"
    using assms(3) unfolding insert_settlement_step_def
    by (auto split: prod.splits sum.splits dest!: stmt_failed stmt_done)
  then show ?thesis
  proof cases
    case failed
    with assms show ?thesis by (intro good_step_keep) (simp_all add: phase_ok_def)
  next
    case recorded
    from keepsD [OF keeps_settlement_statements(1) recorded(1)] recorded(2) assms(1,2)
    show ?thesis by (intro good_step_keep) (simp_all add: phase_ok_def)
  qed
qed

lemma replay_step_phase:
  "phase_ok (Replay a) \<Longrightarrow> phase_ok (replay_step w a d) \<and> budget_of (replay_step w a d) = None
   \<and> nonce_of (replay_step w a d) = None"
  by (auto simp: replay_step_def phase_ok_def refuse_def split: option.splits)

lemma price_bps: "1 \<le> pg_feeBps (price cf w)"
  by (simp add: price_def applyDiscount_def Let_def)

lemma held_owns_refl [simp]: "held t ph \<le> held t ph" "owns k ph \<le> owns k ph"
  by simp_all

lemma owns_nonneg [simp]: "0 \<le> owns k ph"
  using owns_range by simp

text \<open>Every step of every request is good, provided a transfer that reports an error moved nothing.\<close>

theorem request_step_good:
  assumes ok: "phase_ok ph" and b: "budget_ok d" and c: "definite (or_chain w)"
    and step: "request_step cf w ph d = ((ph', d'), moved)"
  shows "good_step ph d ph' d' moved"
proof (cases ph)
  case (Arrived body api)
  with step b admit_step_phase [of cf w body api d] show ?thesis
    by (auto intro!: good_step_keep)
next
  case (Admitted a)
  with step ok b show ?thesis by (auto intro: reserve_nonce_good)
next
  case (Replay a)
  with step ok b replay_step_phase [of a w d] show ?thesis by (auto intro!: good_step_keep)
next
  case (ReplayRead a h sid)
  with step b show ?thesis by (auto intro!: good_step_keep simp: replay_read_step_def)
next
  case (NonceHeld a)
  with step ok b show ?thesis by (auto intro: reserve_budget_good)
next
  case (BudgetRefused a)
  with step b show ?thesis by (auto simp: Let_def intro!: drop_nonce_good)
next
  case (BudgetHeld a)
  with step ok b show ?thesis by (auto intro: insert_settlement_good)
next
  case (Recorded a sid)
  have m: "moved = 0"
    and t: "then_phase (stmt w (setPaymentNonceSettlementId (ad_payer a) (ad_nonce a) sid) d)
              (Pricing a sid) (Pricing a sid) = (ph', d')"
    using step Recorded by auto
  show ?thesis
    unfolding m using ok Recorded
    by (intro then_phase_good [OF ok b statement_keys(1) t]) (auto simp: phase_ok_def)
next
  case (Pricing a sid)
  with step ok b price_bps [of cf w] show ?thesis
    by (auto intro!: good_step_keep simp: phase_ok_def split: if_splits)
next
  case (Paying a sid p)
  with step ok b c show ?thesis by (auto intro: pay_good simp: prod_eq_iff)
next
  case (Paid a sid p oc)
  have m: "moved = 0"
    and t: "then_phase (stmt w (updateSettlementConfirmed sid (oc_txHash oc) (fromBaseUnits (oc_feeMicro oc))) d)
              (Confirming a sid p oc) (Salvaging a p oc) = (ph', d')"
    using step Paid by auto
  show ?thesis
    unfolding m using ok Paid
    by (intro then_phase_good [OF ok b statement_keys(5) t]) (auto simp: phase_ok_def)
next
  case (Confirming a sid p oc)
  have m: "moved = 0"
    and t: "then_phase (stmt w (insertFeeLedger (Some sid) None ''settlement'' (fromBaseUnits (oc_feeMicro oc))
                (treasury_tx a oc)) d)
              (Ledgered a sid p oc) (Salvaging a p oc) = (ph', d')"
    using step Confirming by auto
  show ?thesis
    unfolding m using ok Confirming
    by (intro then_phase_good [OF ok b statement_keys(6) t]) (auto simp: phase_ok_def)
next
  case (Ledgered a sid p oc)
  have m: "moved = 0"
    and t: "then_phase (stmt w (setPaymentNonceTxHash (ad_payer a) (ad_nonce a) (oc_txHash oc)) d)
              (Done (Some (paid_response a p oc))) (Salvaging a p oc) = (ph', d')"
    using step Ledgered by auto
  show ?thesis
    unfolding m using ok Ledgered
    by (intro then_phase_good [OF ok b statement_keys(2) t]) (auto simp: phase_ok_def)
next
  case (Salvaging a p oc)
  have m: "moved = 0"
    and t: "then_phase (stmt w (setPaymentNonceTxHash (ad_payer a) (ad_nonce a) (oc_txHash oc)) d)
              (Done (Some (paid_response a p oc))) (Done (Some (paid_response a p oc))) = (ph', d')"
    using step Salvaging by auto
  show ?thesis
    unfolding m using ok Salvaging
    by (intro then_phase_good [OF ok b statement_keys(2) t]) (auto simp: phase_ok_def)
next
  case (Failing a sid msg)
  with ok have a: "0 < ad_amountMicro a" by (simp add: phase_ok_def)
  show ?thesis
  proof (cases sid)
    case None
    with Failing step ok b show ?thesis by (auto intro!: good_step_keep simp: phase_ok_def)
  next
    case (Some i)
    then have m: "moved = 0"
      and t: "then_phase (stmt w (updateSettlementStatus i SettlementFailed None) d)
                (Refunding a msg) (Done None) = (ph', d')"
      using step Failing by auto
    show ?thesis
      unfolding m using a Failing
      by (intro then_phase_good [OF ok b statement_keys(4) t]) (auto simp: phase_ok_def)
  qed
next
  case (Refunding a msg)
  with step ok b show ?thesis by (auto intro: refund_good)
next
  case (NonceDropping a msg)
  with step b show ?thesis by (auto intro!: drop_nonce_good)
next
  case Elsewhere
  with step b show ?thesis by (auto intro!: good_step_keep)
next
  case (Done r)
  with step b show ?thesis by (auto intro!: good_step_keep)
qed

section \<open>The whole system\<close>

text \<open>
  What may happen next: a request arrives, a request takes its next step, a session is opened or
  revoked.  \<open>P\<close> restricts what the chains may answer.
\<close>

inductive settle_step :: "facilitator_config \<Rightarrow> (chain_view \<Rightarrow> bool) \<Rightarrow> settle_system \<Rightarrow> settle_system \<Rightarrow> bool"
  for cf P where
  arrive: "settle_step cf P s (s\<lparr>ss_requests := ss_requests s @ [Arrived body apiMerchant]\<rparr>)"
| progress: "P (or_chain w) \<Longrightarrow> settle_step cf P s (advance cf w i s)"
| open_session: "insertPaymentSession tokenHash p (ss_db s) = Inr (row, d') \<Longrightarrow> settle_step cf P s (s\<lparr>ss_db := d'\<rparr>)"
| revoke: "revokePaymentSession e tokenHash (ss_db s) = Inr (r, d') \<Longrightarrow> settle_step cf P s (s\<lparr>ss_db := d'\<rparr>)"

inductive_cases settle_stepE: "settle_step cf P s s'"

text \<open>At the start no session has spent more than its cap, nothing is in flight and nothing was paid.\<close>

definition settle_start :: "settle_system \<Rightarrow> bool" where
  "settle_start s = (budget_ok (ss_db s) \<and> ss_requests s = [] \<and> ss_log s = [])"

definition held_total :: "string \<Rightarrow> settle_system \<Rightarrow> int" where
  "held_total tok s = sum_list (map (held tok) (ss_requests s))"

definition claims :: "string \<times> string \<Rightarrow> settle_system \<Rightarrow> int" where
  "claims k s = sum_list (map (owns k) (ss_requests s)) + paid_under k (ss_log s)"

definition settle_inv :: "settle_system \<Rightarrow> bool" where
  "settle_inv s =
     (budget_ok (ss_db s) \<and> list_all phase_ok (ss_requests s)
      \<and> list_all (\<lambda>l. 0 \<le> tl_moved l) (ss_log s)
      \<and> (\<forall>tok. held_total tok s + moved_for tok (ss_log s) \<le> spent_of (ss_db s) tok)
      \<and> (\<forall>k. claims k s \<le> 1 \<and> (t_nonce_guard (ss_db s) k = None \<longrightarrow> claims k s = 0)))"

lemma moved_for_append [simp]: "moved_for tok (xs @ ys) = moved_for tok xs + moved_for tok ys"
  by (simp add: moved_for_def)

lemma paid_under_append [simp]: "paid_under k (xs @ ys) = paid_under k xs + paid_under k ys"
  by (simp add: paid_under_def)

lemma paid_under_nonneg: "0 \<le> paid_under k xs"
  by (simp add: paid_under_def sum_where_nonneg)

lemma claims_ge_owner:
  assumes "i < length (ss_requests s)"
  shows "owns k (ss_requests s ! i) \<le> claims k s"
proof -
  have "owns k (ss_requests s ! i) \<le> sum_list (map (owns k) (ss_requests s))"
    using assms by (intro member_le_sum_list) (auto simp: owns_nonneg)
  then show ?thesis using paid_under_nonneg [of k "ss_log s"] by (simp add: claims_def)
qed

lemma claims_nonneg: "0 \<le> claims k s"
  using paid_under_nonneg [of k "ss_log s"]
  by (auto simp: claims_def intro!: add_nonneg_nonneg sum_list_nonneg)

lemma advance_inv:
  assumes inv: "settle_inv s" and c: "definite (or_chain w)"
  shows "settle_inv (advance cf w i s)"
proof (cases "i < length (ss_requests s)")
  case False
  with inv show ?thesis by (simp add: advance_def)
next
  case True
  let ?ph = "ss_requests s ! i" and ?d = "ss_db s"
  obtain ph' d' moved where r: "request_step cf w ?ph ?d = ((ph', d'), moved)"
    by (metis surj_pair)
  have ok: "phase_ok ?ph" "budget_ok ?d" using inv True by (auto simp: settle_inv_def list_all_length)
  have g: "good_step ?ph ?d ph' d' moved" by (rule request_step_good [OF ok c r])
  let ?s' = "\<lparr>ss_db = d', ss_requests = (ss_requests s)[i := ph'], ss_log = ss_log s @ log_entry ?ph moved\<rparr>"
  have s': "advance cf w i s = ?s'" using True by (simp add: advance_def r)
  have "list_all phase_ok ((ss_requests s)[i := ph'])"
    using inv g True by (auto simp: settle_inv_def good_step_def list_all_length nth_list_update)
  moreover have "list_all (\<lambda>l. 0 \<le> tl_moved l) (ss_log s @ log_entry ?ph moved)"
    using inv g by (auto simp: settle_inv_def good_step_def log_entry_def split: option.split)
  moreover have "held_total tok ?s' + moved_for tok (ss_log ?s') \<le> spent_of d' tok" for tok
  proof -
    have "0 \<le> slack_change tok ?ph ?d ph' d' moved" using g by (simp add: good_step_def)
    moreover have "held_total tok s + moved_for tok (ss_log s) \<le> spent_of ?d tok"
      using inv by (simp add: settle_inv_def)
    ultimately show ?thesis
      using True by (simp add: slack_change_def held_total_def sum_list_map_update)
  qed
  moreover have "claims k ?s' \<le> 1 \<and> (t_nonce_guard d' k = None \<longrightarrow> claims k ?s' = 0)" for k
  proof -
    have "claims k ?s' = claims k s + claim_change k ?ph ph' moved"
      using True by (simp add: claims_def claim_change_def sum_list_map_update)
    moreover have "nonce_rule k ?ph ?d ph' d' moved" using g unfolding good_step_def by blast
    moreover have "claims k s \<le> 1" "t_nonce_guard ?d k = None \<longrightarrow> claims k s = 0"
      using inv unfolding settle_inv_def by blast+
    ultimately show ?thesis
      using claims_ge_owner [OF True, of k] claims_nonneg [of k ?s']
      by (auto simp: nonce_rule_def domIff)
  qed
  ultimately show ?thesis using g by (simp add: s' settle_inv_def good_step_def)
qed

lemma settle_start_inv: "settle_start s \<Longrightarrow> settle_inv s"
  by (auto simp: settle_start_def settle_inv_def held_total_def claims_def budget_ok_def)

lemma settle_step_inv: "settle_step cf definite s s' \<Longrightarrow> settle_inv s \<Longrightarrow> settle_inv s'"
proof (induction rule: settle_step.induct)
  case (arrive s body apiMerchant)
  then show ?case by (simp add: settle_inv_def held_total_def claims_def held_def owns_def)
next
  case (progress w s i)
  then show ?case by (intro advance_inv)
next
  case (open_session tokenHash p s row d')
  then show ?case using insertPaymentSession_effect [OF open_session(1)]
    by (simp add: settle_inv_def held_total_def claims_def)
next
  case (revoke e tokenHash s r d')
  then show ?case using revokePaymentSession_effect [OF revoke(1)]
    by (simp add: settle_inv_def held_total_def claims_def budget_ok_def)
qed

interpretation settling: invariant_system settle_start "settle_step cf definite" settle_inv
  by unfold_locales (auto intro: settle_start_inv settle_step_inv)

section \<open>Termination of a request\<close>

text \<open>How many steps a request can still take.\<close>

fun phase_rank :: "phase \<Rightarrow> nat" where
  "phase_rank (Arrived _ _) = 14"
| "phase_rank (Admitted _) = 13"
| "phase_rank (NonceHeld _) = 12"
| "phase_rank (BudgetHeld _) = 11"
| "phase_rank (Recorded _ _) = 10"
| "phase_rank (Pricing _ _) = 9"
| "phase_rank (Paying _ _ _) = 8"
| "phase_rank (Paid _ _ _ _) = 7"
| "phase_rank (Confirming _ _ _ _) = 6"
| "phase_rank (Ledgered _ _ _ _) = 5"
| "phase_rank (Salvaging _ _ _) = 4"
| "phase_rank (Failing _ _ _) = 3"
| "phase_rank (Refunding _ _) = 2"
| "phase_rank (NonceDropping _ _) = 1"
| "phase_rank (Replay _) = 2"
| "phase_rank (ReplayRead _ _ _) = 1"
| "phase_rank (BudgetRefused _) = 1"
| "phase_rank Elsewhere = 0"
| "phase_rank (Done _) = 0"

lemma rank_refuse [simp]: "phase_rank (refuse a st r m) = 0" "phase_rank (settlement_failed a m) = 0"
  by (simp_all add: refuse_def settlement_failed_def)

lemma then_phase_rank:
  "phase_rank (fst (then_phase r ok failed)) \<le> max (phase_rank ok) (phase_rank failed)"
  by (auto simp: then_phase_def split: prod.split sum.split)

lemma then_phase_rank_0 [simp]:
  "phase_rank q = 0 \<Longrightarrow> phase_rank (fst (then_phase r q q)) = 0"
  using then_phase_rank [of r q q] by simp

lemma step_rank:
  assumes "0 < phase_rank ph"
  shows "phase_rank (fst (fst (request_step cf w ph d))) < phase_rank ph"
proof -
  have le: "phase_rank ok < n \<Longrightarrow> phase_rank failed < n \<Longrightarrow> phase_rank (fst (then_phase r ok failed)) < n"
    for ok failed n and r :: "(error + unit) \<times> db"
    using then_phase_rank [of r ok failed] by simp
  show ?thesis
    using assms
  proof (cases ph)
    case (Arrived body api)
    then show ?thesis by (auto simp: admit_step_def split: sum.split)
  next
    case (Admitted a)
    then show ?thesis by (auto simp: reserve_nonce_step_def split: prod.split sum.split)
  next
    case (Replay a)
    then show ?thesis by (auto simp: replay_step_def split: option.split)
  next
    case (ReplayRead a h sid)
    then show ?thesis by (simp add: replay_read_step_def)
  next
    case (NonceHeld a)
    then show ?thesis by (auto simp: reserve_budget_step_def split: prod.split sum.split)
  next
    case (BudgetHeld a)
    then show ?thesis by (auto simp: insert_settlement_step_def split: prod.split sum.split)
  next
    case (Paying a sid p)
    then show ?thesis by (auto simp: pay_step_def split: prod.split sum.split)
  next
    case (Failing a sid msg)
    then show ?thesis by (cases sid) (auto intro: le)
  qed (auto intro!: le simp: Let_def)
qed

text \<open>A request run through any surroundings and any databases, one per step.\<close>

fun run_request :: "facilitator_config \<Rightarrow> (surroundings \<times> db) list \<Rightarrow> phase \<Rightarrow> phase" where
  "run_request cf [] ph = ph"
| "run_request cf ((w, d) # ws) ph = run_request cf ws (fst (fst (request_step cf w ph d)))"

definition finished :: "phase \<Rightarrow> bool" where
  "finished ph = (case ph of Done _ \<Rightarrow> True | Elsewhere \<Rightarrow> True | _ \<Rightarrow> False)"

lemma finished_rank: "finished ph \<longleftrightarrow> phase_rank ph = 0"
  by (cases ph) (simp_all add: finished_def)

lemma step_rank_le: "phase_rank (fst (fst (request_step cf w ph d))) \<le> phase_rank ph - 1"
proof (cases "phase_rank ph = 0")
  case True
  then have "ph = Elsewhere \<or> (\<exists>r. ph = Done r)" by (cases ph) simp_all
  then show ?thesis by auto
next
  case False
  with step_rank [of ph cf w d] show ?thesis by simp
qed

lemma run_rank: "phase_rank (run_request cf ws ph) \<le> phase_rank ph - length ws"
proof (induction ws arbitrary: ph)
  case Nil
  then show ?case by simp
next
  case (Cons wd ws)
  obtain w d where wd: "wd = (w, d)" by (cases wd)
  from Cons.IH [of "fst (fst (request_step cf w ph d))"] step_rank_le [of cf w ph d]
  show ?case by (simp add: wd)
qed

section \<open>Runs\<close>

fun run_system :: "facilitator_config \<Rightarrow> (surroundings \<times> nat) list \<Rightarrow> settle_system \<Rightarrow> settle_system" where
  "run_system cf [] s = s"
| "run_system cf ((w, i) # ws) s = run_system cf ws (advance cf w i s)"

lemma run_system_steps:
  "list_all (\<lambda>(w, i). P (or_chain w)) ws \<Longrightarrow> (settle_step cf P)\<^sup>*\<^sup>* s (run_system cf ws s)"
proof (induction ws arbitrary: s)
  case Nil
  then show ?case by simp
next
  case (Cons wi ws)
  obtain w i where wi: "wi = (w, i)" by (cases wi)
  with Cons.prems have "settle_step cf P s (advance cf w i s)" by (intro progress) simp
  moreover have "(settle_step cf P)\<^sup>*\<^sup>* (advance cf w i s) (run_system cf ws (advance cf w i s))"
    using Cons wi by simp
  ultimately show ?case by (simp add: wi)
qed

text \<open>A session with a cap of 100 micro-USDC, and two requests for all of it under one nonce.\<close>

definition demo_config :: facilitator_config where
  "demo_config =
     \<lparr>cf_MAX_SETTLEMENT_AMOUNT = 100000, cf_SETTLEMENT_FEE_BPS = 10, cf_baseEnabled = True,
      cf_treasuryValid = False,
      cf_checks = \<lparr>ac_isAddress = (\<lambda>_. True), ac_isPublicKey = (\<lambda>_. True)\<rparr>\<rparr>"

definition demo_body :: json where
  "demo_body = JObj
     [(''paymentHeader'', JStr ''session:eip155:8453:tok.n1''),
      (''paymentRequirements'', JObj
        [(''network'', JStr ''eip155:8453''), (''amount'', JStr ''100''), (''payTo'', JStr ''m'')])]"

definition demo_session :: payment_session where
  "demo_session =
     \<lparr>ps_payer_wallet = ''payer'', ps_network = ''eip155:8453'', ps_merchant_wallet = ''m'',
      ps_max_total_micro = 100, ps_max_single_micro = None, ps_spent_micro = 0, ps_expires_at = 1000,
      ps_last_used_at = None, ps_revoked_at = None\<rparr>"

definition demo_db :: db where
  "demo_db = (seed_db 0)\<lparr>t_payment_sessions := [''tok'' \<mapsto> demo_session]\<rparr>"

definition demo_admitted :: admitted where
  "demo_admitted =
     \<lparr>ad_tokenHash = ''tok'', ad_payer = ''payer'', ad_nonce = ''n1'', ad_network = ''eip155:8453'',
      ad_merchant = ''m'', ad_resource = [], ad_amountMicro = 100, ad_amount = fromBaseUnits 100\<rparr>"

definition demo_world :: "string \<Rightarrow> send_result \<Rightarrow> surroundings" where
  "demo_world uid sent =
     \<lparr>or_env = sample_env 5, or_uuid = uid, or_dbFails = False, or_totalSettlements = 0, or_disputesFiled = 0,
      or_disputesWon = 0, or_avgQuality = 0, or_monthlyVolume = 0,
      or_chain = \<lparr>ch_balance = 1000, ch_allowance = 1000, ch_delegated = True, ch_net = sent,
                  ch_fee = Rejected ''none''\<rparr>\<rparr>"

definition demo_start :: settle_system where
  "demo_start = \<lparr>ss_db = demo_db, ss_requests = [], ss_log = []\<rparr>"

definition demo_both :: settle_system where
  "demo_both = \<lparr>ss_db = demo_db, ss_requests = [Admitted demo_admitted, Admitted demo_admitted], ss_log = []\<rparr>"

lemmas parse_simps = parseSettleInput_def settle_header_requirements_def extractKizunaRequirement_def
  require_def bind_parsed_def jget_def asRecord_def asString_def js_trim_def js_space_def or_text_def

lemmas network_simps = canonicalizeNetwork_def isSupportedNetwork_def SOLANA_MAINNET_ALIASES_def
  SOLANA_DEVNET_ALIASES_def BASE_MAINNET_ALIASES_def SOLANA_MAINNET_CAIP2_def SOLANA_DEVNET_CAIP2_def
  BASE_MAINNET_CAIP2_def js_trim_def js_space_def

definition demo_input :: settle_input where
  "demo_input =
     \<lparr>si_mode = X402, si_paymentHeader = ''session:eip155:8453:tok.n1'', si_merchantWallet = ''m'',
      si_amount = None, si_asset = ''USDC'', si_requirementAmountRaw = Some ''100'',
      si_requirementNetwork = Some ''eip155:8453'', si_requirementResource = None,
      si_requirementKizuna = None\<rparr>"

lemma demo_prefix:
  "settle_prefix demo_config (Some demo_body) = Inr (demo_input, ''session'', ''eip155:8453'')"
  by (simp add: settle_prefix_def parse_simps demo_body_def parsePaymentScheme_def network_simps
      demo_config_def demo_input_def)

lemma demo_entry:
  "session_entry demo_input ''eip155:8453'' =
     Inr \<lparr>sr_input = demo_input, sr_network = ''eip155:8453'', sr_token = ''tok'', sr_nonce = ''n1''\<rparr>"
proof -
  have "parseSessionPaymentHeader ''session:eip155:8453:tok.n1'' =
          Some \<lparr>sh_network = ''eip155:8453'', sh_token = ''tok'', sh_nonce = Some ''n1''\<rparr>"
    "canonicalizeNetwork ''eip155:8453'' = Some ''eip155:8453''"
    by code_simp+
  then show ?thesis by (simp add: session_entry_def demo_input_def)
qed

lemma demo_session_admit:
  "session_admit demo_config (sample_env 5) (Some ''m'')
     \<lparr>sr_input = demo_input, sr_network = ''eip155:8453'', sr_token = ''tok'', sr_nonce = ''n1''\<rparr>
     (getPaymentSessionByTokenHash ''tok'' demo_db) = Inr demo_admitted"
proof -
  have "parseUsdcMicroAmountBigint ''100'' = Some 100" "canonicalizeNetwork ''eip155:8453'' = Some ''eip155:8453''"
    "fromBaseUnits 100 < 100000"
    by code_simp+
  then show ?thesis
    by (simp add: session_admit_def session_limits_def hashSessionToken_def getPaymentSessionByTokenHash_def
        demo_db_def demo_session_def demo_input_def demo_config_def demo_admitted_def or_text_def)
qed

lemma demo_admit:
  "admit_step demo_config (demo_world uid sent) (Some demo_body) (Some ''m'') demo_db = Admitted demo_admitted"
proof -
  have "si_requirementKizuna demo_input = None" "or_dbFails (demo_world uid sent) = False"
    "or_env (demo_world uid sent) = sample_env 5" "hashSessionToken (sample_env 5) ''tok'' = ''tok''"
    by (simp_all add: demo_input_def demo_world_def hashSessionToken_def)
  then show ?thesis by (simp add: admit_step_def demo_prefix demo_entry demo_session_admit)
qed

lemma demo_start_ok: "settle_start demo_start"
  by (auto simp: settle_start_def demo_start_def budget_ok_def spent_of_def cap_of_def demo_db_def
      demo_session_def seed_db_def)

lemma demo_both_reachable:
  assumes "P (or_chain (demo_world [] (Rejected [])))"
  shows "(settle_step cf P)\<^sup>*\<^sup>* demo_start
           \<lparr>ss_db = demo_db, ss_requests = [Arrived (Some demo_body) (Some ''m''), Arrived (Some demo_body) (Some ''m'')],
            ss_log = []\<rparr>"
    and "(settle_step demo_config P)\<^sup>*\<^sup>* demo_start demo_both"
proof -
  let ?A = "Arrived (Some demo_body) (Some ''m'')"
  let ?s = "\<lambda>ps. \<lparr>ss_db = demo_db, ss_requests = ps, ss_log = []\<rparr>"
  let ?w = "demo_world [] (Rejected [])"
  have one: "settle_step cf P (?s ps) (?s (ps @ [?A]))" for cf ps
    using arrive [of cf P "?s ps" "Some demo_body" "Some ''m''"] by simp
  have two: "(settle_step cf P)\<^sup>*\<^sup>* demo_start (?s [?A, ?A])" for cf
    using one [of cf "[]"] one [of cf "[?A]"] by (simp add: demo_start_def)
  then show "(settle_step cf P)\<^sup>*\<^sup>* demo_start (?s [?A, ?A])" .
  have "run_system demo_config [(?w, 0), (?w, 1)] (?s [?A, ?A]) = demo_both"
    by (simp add: advance_def Let_def demo_admit log_entry_def demo_both_def)
  moreover have "(settle_step demo_config P)\<^sup>*\<^sup>* (?s [?A, ?A]) (run_system demo_config [(?w, 0), (?w, 1)] (?s [?A, ?A]))"
    using assms by (intro run_system_steps) simp
  ultimately show "(settle_step demo_config P)\<^sup>*\<^sup>* demo_start demo_both"
    using two [of demo_config] by (metis rtranclp_trans)
qed

text \<open>
  Runs of the two requests: the first up to its transfer and through its cleanup if it failed, then
  the second up to its transfer.
\<close>

definition demo_run :: "send_result \<Rightarrow> send_result \<Rightarrow> (surroundings \<times> nat) list" where
  "demo_run first second =
     replicate (case first of Confirmed _ \<Rightarrow> 6 | _ \<Rightarrow> 9) (demo_world ''s1'' first, 0)
     @ replicate 6 (demo_world ''s2'' second, 1)"

definition demo_after :: "send_result \<Rightarrow> send_result \<Rightarrow> settle_system" where
  "demo_after first second = run_system demo_config (demo_run first second) demo_both"

lemma demo_after_reachable:
  assumes "\<And>sent uid. sent \<in> {first, second, Rejected []} \<Longrightarrow> P (or_chain (demo_world uid sent))"
  shows "(settle_step demo_config P)\<^sup>*\<^sup>* demo_start (demo_after first second)"
proof -
  have "(settle_step demo_config P)\<^sup>*\<^sup>* demo_both (demo_after first second)"
    unfolding demo_after_def using assms
    by (intro run_system_steps) (auto simp: demo_run_def list_all_iff split: send_result.splits)
  with demo_both_reachable(2) [of P] assms [of "Rejected []" "[]"] show ?thesis
    by (auto intro: rtranclp_trans)
qed

lemma demo_confirmed_run:
  "(let s = demo_after (Confirmed ''h1'') (Confirmed ''h2'') in
      (moved_for ''tok'' (ss_log s), paid_under (''payer'', ''n1'') (ss_log s), cap_of (ss_db s) ''tok''))
   = (100, 1, 100)"
  by code_simp

lemma demo_unconfirmed_run:
  "(let s = demo_after (Unconfirmed ''timed out'') (Confirmed ''h2'') in
      (moved_for ''tok'' (ss_log s), paid_under (''payer'', ''n1'') (ss_log s), cap_of (ss_db s) ''tok''))
   = (200, 2, 100)"
  by code_simp

lemmas demo_confirmed = demo_confirmed_run [unfolded Let_def prod.inject]
lemmas demo_unconfirmed = demo_unconfirmed_run [unfolded Let_def prod.inject]

lemma demo_definite: "definite (or_chain (demo_world uid (Confirmed h)))" "definite (or_chain (demo_world uid (Rejected h)))"
  by (simp_all add: demo_world_def definite_def)

section \<open>Properties\<close>






text \<open>
  A retry of a settled session payment is harmless and gets its answer: when the guard of
  the nonce carries a transaction hash, the request answers success with that hash and the
  idempotent flag in three steps, changes nothing in the database and moves nothing.
\<close>

theorem settled_nonce_replays:
  assumes "t_nonce_guard d (ad_payer a, ad_nonce a) = Some g" and "ng_tx_hash g = Some h" and "h \<noteq> []"
    and "numeric6_fits (ad_amount a)" and "\<not> or_dbFails w"
  shows "request_step cf w (Admitted a) d = ((Replay a, d), 0)
         \<and> (\<exists>r. run_request cf [(w, d), (w, d), (w, d)] (Admitted a) = Done (Some (SettleSuccess r))
                \<and> ok_txHash r = h \<and> ok_idempotent r \<and> ok_payer r = ad_payer a)"
proof -
  have r: "reserve_nonce_step w a d = (Replay a, d)"
    using assms
    by (simp add: reserve_nonce_step_def stmt_def reservePaymentNonce_def Let_def withTransaction_def
        thenT_def bindT_def insert_if_absent_def)
  moreover have "replay_step w a d = ReplayRead a h (ng_settlement_id g)"
    using assms by (simp add: replay_step_def getPaymentNonceGuard_def)
  ultimately show ?thesis by (simp add: replay_read_step_def replay_response_def Let_def)
qed

definition demo_guard :: nonce_guard where
  "demo_guard = \<lparr>ng_usage = ''settle'', ng_network = ''eip155:8453'', ng_resource = [], ng_amount = 1 / 10000,
     ng_created_at = 0, ng_tx_hash = Some ''0xabc'', ng_settlement_id = None\<rparr>"

lemma settled_nonce_replays_witness:
  "\<exists>r. run_request demo_config
         (replicate 3 (demo_world ''s1'' (Confirmed ''h''), put_guard (''payer'', ''n1'') demo_guard demo_db))
         (Admitted demo_admitted) = Done (Some (SettleSuccess r)) \<and> ok_txHash r = ''0xabc''"
proof -
  let ?d = "put_guard (''payer'', ''n1'') demo_guard demo_db" and ?w = "demo_world ''s1'' (Confirmed ''h'')"
  have "t_nonce_guard ?d (ad_payer demo_admitted, ad_nonce demo_admitted) = Some demo_guard"
    by (simp add: put_guard_def demo_admitted_def)
  moreover have "numeric6_fits (ad_amount demo_admitted)" by code_simp
  moreover have "\<not> or_dbFails ?w" by (simp add: demo_world_def)
  moreover have "ng_tx_hash demo_guard = Some ''0xabc''" "''0xabc'' \<noteq> []" by (simp_all add: demo_guard_def)
  ultimately obtain r where
    "run_request demo_config [(?w, ?d), (?w, ?d), (?w, ?d)] (Admitted demo_admitted) = Done (Some (SettleSuccess r))"
    "ok_txHash r = ''0xabc''"
    using settled_nonce_replays [of ?d demo_admitted demo_guard "''0xabc''" ?w demo_config] by blast
  moreover have "replicate 3 x = [x, x, x]" for x :: "surroundings \<times> db" by (simp add: numeral_3_eq_3)
  ultimately show ?thesis by metis
qed

end
