(* ===== verification/Session_Routes.thy ===== *)
theory Session_Routes
  imports Sessions Request_Compat
begin

text \<open>
  Opening, revoking and inspecting payment sessions (\<open>routes/session.ts\<close> and the signature check of
  \<open>services/session.ts\<close>).  Signature recovery, base58 and the chain reads belong to other packages and
  are arguments; dates, base64 and the request parsing are modelled.
\<close>

section \<open>Dates\<close>

text \<open>\<open>Date.prototype.toISOString\<close> of a time value in milliseconds.\<close>

definition civil_from_days :: "int \<Rightarrow> int \<times> int \<times> int" where
  "civil_from_days days =
     (let z = days + 719468; era = z div 146097; doe = z mod 146097;
          yoe = (doe - doe div 1460 + doe div 36524 - doe div 146096) div 365;
          doy = doe - (365 * yoe + yoe div 4 - yoe div 100);
          mp = (5 * doy + 2) div 153;
          d = doy - (153 * mp + 2) div 5 + 1;
          m = (if mp < 10 then mp + 3 else mp - 9);
          y = yoe + era * 400 in
      (if m \<le> 2 then y + 1 else y, m, d))"

definition pad_start :: "nat \<Rightarrow> string \<Rightarrow> string" where
  "pad_start n s = replicate (n - length s) CHR ''0'' @ s"

definition year_text :: "int \<Rightarrow> string" where
  "year_text y =
     (if 0 \<le> y \<and> y \<le> 9999 then pad_start 4 (numeric_text y)
      else (if y < 0 then CHR ''-'' else CHR ''+'') # pad_start 6 (numeric_text \<bar>y\<bar>))"

definition toISOString :: "int \<Rightarrow> string" where
  "toISOString t =
     (let (y, m, d) = civil_from_days (t div 86400000); r = t mod 86400000;
          two = (\<lambda>n. pad_start 2 (numeric_text n)) in
      year_text y @ CHR ''-'' # two m @ CHR ''-'' # two d @ CHR ''T'' # two (r div 3600000)
      @ CHR '':'' # two (r div 60000 mod 60) @ CHR '':'' # two (r div 1000 mod 60)
      @ CHR ''.'' # pad_start 3 (numeric_text (r mod 1000)) @ ''Z'')"

lemma toISOString_examples:
  "toISOString 0 = ''1970-01-01T00:00:00.000Z''"
  "toISOString 951782400123 = ''2000-02-29T00:00:00.123Z''"
  by code_simp+

section \<open>Signatures of challenges\<close>

definition MAX_MESSAGE_LENGTH :: nat where "MAX_MESSAGE_LENGTH = 4096"

text \<open>\<open>/^[1-9A-HJ-NP-Za-km-z]+$/\<close>.\<close>

definition isBase58 :: "string \<Rightarrow> bool" where
  "isBase58 s =
     (s \<noteq> [] \<and> list_all (\<lambda>c. c \<in> set ''123456789ABCDEFGHJKLMNPQRSTUVWXYZabcdefghijkmnopqrstuvwxyz'') s)"

definition decodeEd25519Signature :: "signature_libs \<Rightarrow> string \<Rightarrow> nat list option" where
  "decodeEd25519Signature sl sig =
     (let trimmed = js_trim sig in
      if trimmed = [] then None
      else if isBase58 trimmed then sl_bs58_decode sl trimmed
      else (let bytes = buffer_from_base64 trimmed in if bytes = [] then None else Some bytes))"

definition verifySessionChallengeSignature ::
  "address_checks \<Rightarrow> signature_libs \<Rightarrow> string \<Rightarrow> string \<Rightarrow> string \<Rightarrow> bool" where
  "verifySessionChallengeSignature ac sl payerWallet message signature =
     (if message = [] \<or> MAX_MESSAGE_LENGTH < length message then False
      else if ac_isAddress ac payerWallet then
        (let sig = js_trim signature in
         if take 2 sig \<noteq> ''0x'' \<or> 2048 < length sig then False
         else (case sl_verifyMessage sl message sig of
                 None \<Rightarrow> False
               | Some recovered \<Rightarrow> js_lower recovered = js_lower payerWallet))
      else if \<not> ac_isPublicKey ac payerWallet then False
      else (case decodeEd25519Signature sl signature of
              None \<Rightarrow> False
            | Some sigBytes \<Rightarrow> length sigBytes = 64 \<and> sl_ed25519 sl message sigBytes payerWallet))"

section \<open>POST /session/challenge\<close>

definition CHALLENGE_TTL_MS :: int where "CHALLENGE_TTL_MS = 300000"
definition DEFAULT_SESSION_TTL_MS :: int where "DEFAULT_SESSION_TTL_MS = 604800000"
definition MAX_SESSION_TTL_MS :: int where "MAX_SESSION_TTL_MS = 2592000000"

definition clampSessionTtlMs :: "json option \<Rightarrow> int" where
  "clampSessionTtlMs input =
     (case input of
        Some (JNum seconds) \<Rightarrow>
          if seconds \<le> 0 then DEFAULT_SESSION_TTL_MS
          else (case double_of (seconds * 1000) of
                  Finite ms \<Rightarrow> max 60000 (min MAX_SESSION_TTL_MS \<lfloor>ms\<rfloor>)
                | _ \<Rightarrow> MAX_SESSION_TTL_MS)
      | _ \<Rightarrow> DEFAULT_SESSION_TTL_MS)"

record session_config =
  sg_baseEnabled :: bool
  sg_baseSpender :: "string option"
  sg_facilitatorKey :: string
  sg_checks :: address_checks
  sg_libs :: signature_libs

text \<open>\<open>typeof body.x === 'string' ? body.x.trim() : ''\<close>.\<close>

definition body_text :: "json_object \<Rightarrow> string \<Rightarrow> string" where
  "body_text body k = (case jget body k of Some (JStr s) \<Rightarrow> js_trim s | _ \<Rightarrow> [])"

type_synonym http_error = "nat \<times> string"

text \<open>The checked terms of a challenge request.\<close>

record challenge_request =
  cq_payer :: string
  cq_network :: string
  cq_merchant :: string
  cq_maxTotal :: int
  cq_maxSingle :: "int option"

definition challenge_caps :: "json_object \<Rightarrow> http_error + (int \<times> int option)" where
  "challenge_caps body =
     (case parseUsdcMicroAmountBigint (body_text body ''maxTotalMicro'') of
        None \<Rightarrow> Inl (400, ''Invalid maxTotalMicro'')
      | Some maxTotal \<Rightarrow>
          (let singleRaw = body_text body ''maxSingleMicro'' in
           if singleRaw = [] then Inr (maxTotal, None)
           else (case parseUsdcMicroAmountBigint singleRaw of
                   None \<Rightarrow> Inl (400, ''Invalid maxSingleMicro'')
                 | Some single \<Rightarrow>
                     if maxTotal < single then Inl (400, ''maxSingleMicro cannot exceed maxTotalMicro'')
                     else Inr (maxTotal, Some single))))"

definition check_challenge_request :: "session_config \<Rightarrow> json_object \<Rightarrow> http_error + challenge_request" where
  "check_challenge_request sg body =
     (let payerWallet = body_text body ''payerWallet''; merchantWallet = body_text body ''merchantWallet'';
          network = canonicalizeNetwork (body_text body ''network'') in
      case network of
        None \<Rightarrow> Inl (400, ''Unsupported network'')
      | Some n \<Rightarrow>
          if n \<noteq> SOLANA_MAINNET_CAIP2 \<and> n \<noteq> BASE_MAINNET_CAIP2 then Inl (400, ''Unsupported network'')
          else if n = BASE_MAINNET_CAIP2 \<and> (\<not> sg_baseEnabled sg \<or> sg_baseSpender sg = None) then
            Inl (400, ''Unsupported network'')
          else if payerWallet = [] \<or> merchantWallet = [] then
            Inl (400, ''Missing payerWallet or merchantWallet'')
          else if \<not> isValidPayerForNetwork (sg_checks sg) payerWallet n then
            Inl (400, ''Invalid payer wallet for network'')
          else if (if n = BASE_MAINNET_CAIP2 then \<not> ac_isAddress (sg_checks sg) merchantWallet
                   else \<not> ac_isPublicKey (sg_checks sg) merchantWallet) then
            Inl (400, ''Invalid merchant wallet'')
          else (case challenge_caps body of
                  Inl err \<Rightarrow> Inl err
                | Inr (maxTotal, maxSingle) \<Rightarrow>
                    Inr \<lparr>cq_payer = payerWallet, cq_network = n, cq_merchant = merchantWallet,
                         cq_maxTotal = maxTotal, cq_maxSingle = maxSingle\<rparr>))"

definition challenge_terms_of :: "challenge_request \<Rightarrow> int \<Rightarrow> string \<Rightarrow> challenge_terms" where
  "challenge_terms_of q sessionExpiresAt nonce =
     \<lparr>cm_payerWallet = cq_payer q, cm_network = cq_network q, cm_merchantWallet = cq_merchant q,
      cm_maxTotalMicro = numeric_text (cq_maxTotal q),
      cm_maxSingleMicro = map_option numeric_text (cq_maxSingle q),
      cm_sessionExpiresAtIso = toISOString sessionExpiresAt, cm_nonce = nonce\<rparr>"

record challenge_response =
  cr_nonce :: string
  cr_message :: string
  cr_expiresAt :: int
  cr_sessionExpiresAt :: int
  cr_facilitator :: "string option"

definition challenge_row :: "challenge_request \<Rightarrow> int \<Rightarrow> int \<Rightarrow> string \<Rightarrow> session_challenge" where
  "challenge_row q expiresAt sessionExpiresAt message =
     \<lparr>sc_payer_wallet = cq_payer q, sc_network = cq_network q, sc_merchant_wallet = cq_merchant q,
      sc_max_total_micro = cq_maxTotal q, sc_max_single_micro = cq_maxSingle q,
      sc_session_expires_at = sessionExpiresAt, sc_message = message, sc_expires_at = expiresAt,
      sc_used_at = None\<rparr>"

text \<open>The whole handler; an error of the insert goes to the error handler of the application.\<close>

definition post_challenge ::
  "session_config \<Rightarrow> env \<Rightarrow> nat list \<Rightarrow> json_object \<Rightarrow> db \<Rightarrow> (http_error + challenge_response option) \<times> db" where
  "post_challenge sg e randomBytes body d =
     (case check_challenge_request sg body of
        Inl err \<Rightarrow> (Inl err, d)
      | Inr q \<Rightarrow>
          (let now = env_date_now e; expiresAt = now + CHALLENGE_TTL_MS;
               sessionExpiresAt = now + clampSessionTtlMs (jget body ''sessionTtlSeconds'');
               nonce = hex_text randomBytes;
               message = buildSessionChallengeMessage (challenge_terms_of q sessionExpiresAt nonce) in
           case withTransaction (insertSessionChallenge nonce (challenge_row q expiresAt sessionExpiresAt message)) d of
             (Inl _, d') \<Rightarrow> (Inr None, d')
           | (Inr _, d') \<Rightarrow>
               (Inr (Some \<lparr>cr_nonce = nonce, cr_message = message, cr_expiresAt = expiresAt,
                           cr_sessionExpiresAt = sessionExpiresAt,
                           cr_facilitator = (if cq_network q = BASE_MAINNET_CAIP2 then sg_baseSpender sg
                                             else Some (sg_facilitatorKey sg))\<rparr>), d')))"

section \<open>POST /session/authorize\<close>

text \<open>
  What the chain calls of this handler answer: the Base allowance before and after the gasless
  approval, the address recovered from the typed data and the approval transaction itself, and the
  delegate state of the payer's Solana token account.  \<open>Inl\<close> is an exception with its message.
\<close>

record authorize_world =
  aw_allowanceBefore :: "string + int"
  aw_domain :: "string + unit"
  aw_recovered :: "string + string"
  aw_approve :: "string + unit"
  aw_allowanceAfter :: "string + int"
  aw_delegate :: "string + (string option \<times> int)"

text \<open>\<open>/^0x[0-9a-fA-F]{n}$/\<close>.\<close>

definition is_hex_char :: "char \<Rightarrow> bool" where
  "is_hex_char c = (radix_digit c \<noteq> None)"

definition hex_string :: "nat \<Rightarrow> string \<Rightarrow> bool" where
  "hex_string n s = (take 2 s = ''0x'' \<and> length s = n + 2 \<and> list_all is_hex_char (drop 2 s))"

text \<open>\<open>BigInt(auth.validAfter)\<close> on an untrusted value.\<close>

definition BigInt_of_json :: "json option \<Rightarrow> int option" where
  "BigInt_of_json v =
     (case v of
        Some (JStr s) \<Rightarrow> BigInt_of_string s
      | Some (JNum n) \<Rightarrow> if of_int \<lfloor>n\<rfloor> = n then Some \<lfloor>n\<rfloor> else None
      | Some (JBool b) \<Rightarrow> Some (if b then 1 else 0)
      | _ \<Rightarrow> None)"

definition json_text :: "json option \<Rightarrow> string" where
  "json_text v = (case v of Some (JStr s) \<Rightarrow> s | _ \<Rightarrow> [])"

definition bind_http :: "http_error + 'a \<Rightarrow> ('a \<Rightarrow> http_error + 'b) \<Rightarrow> http_error + 'b" where
  "bind_http r k = (case r of Inl err \<Rightarrow> Inl err | Inr x \<Rightarrow> k x)"

definition guard_http :: "bool \<Rightarrow> http_error \<Rightarrow> http_error + unit" where
  "guard_http c err = (if c then Inr () else Inl err)"

text \<open>An exception inside the \<open>try\<close> becomes a 502 with its message, or the fallback when it is empty.\<close>

definition chain_call :: "string \<Rightarrow> string + 'a \<Rightarrow> http_error + 'a" where
  "chain_call fallback r =
     (case r of Inl msg \<Rightarrow> Inl (502, if msg = [] then fallback else msg) | Inr x \<Rightarrow> Inr x)"

definition check_authorization ::
  "authorize_world \<Rightarrow> env \<Rightarrow> session_challenge \<Rightarrow> json_object \<Rightarrow> http_error + unit" where
  "check_authorization aw e c auth =
     (case (BigInt_of_json (jget auth ''validAfter''), BigInt_of_json (jget auth ''validBefore'')) of
        (Some validAfter, Some validBefore) \<Rightarrow>
          (let nowSeconds = env_date_now e div 1000; expirySeconds = sc_session_expires_at c div 1000;
               failed = ''Failed to check token allowance'' in
           bind_http (guard_http (hex_string 64 (json_text (jget auth ''nonce'')))
                        (400, ''Invalid usdcAuthorization.nonce'')) (\<lambda>_.
           bind_http (guard_http (hex_string 130 (json_text (jget auth ''signature'')))
                        (400, ''Invalid usdcAuthorization.signature'')) (\<lambda>_.
           bind_http (guard_http (validAfter \<le> nowSeconds)
                        (400, ''usdcAuthorization.validAfter is in the future'')) (\<lambda>_.
           bind_http (guard_http (nowSeconds < validBefore)
                        (400, ''usdcAuthorization.validBefore already expired'')) (\<lambda>_.
           bind_http (guard_http (validBefore \<le> expirySeconds)
                        (400, ''usdcAuthorization.validBefore exceeds session expiry'')) (\<lambda>_.
           bind_http (chain_call failed (aw_domain aw)) (\<lambda>_.
           bind_http (chain_call failed (aw_recovered aw)) (\<lambda>recovered.
           bind_http (guard_http (js_lower recovered = js_lower (sc_payer_wallet c))
                        (401, ''Invalid usdcAuthorization signature'')) (\<lambda>_.
           bind_http (chain_call failed (aw_approve aw)) (\<lambda>_.
           bind_http (chain_call failed (aw_allowanceAfter aw)) (\<lambda>allowanceAfter.
           guard_http (sc_max_total_micro c \<le> allowanceAfter) (412, ''USDC allowance insufficient''))))))))))))
      | _ \<Rightarrow> Inl (400, ''Invalid usdcAuthorization validity window''))"

definition check_base_allowance ::
  "session_config \<Rightarrow> authorize_world \<Rightarrow> env \<Rightarrow> session_challenge \<Rightarrow> json_object \<Rightarrow> http_error + unit" where
  "check_base_allowance sg aw e c body =
     bind_http (guard_http (sg_baseSpender sg \<noteq> None) (500, ''Base facilitator not configured'')) (\<lambda>_.
     bind_http (chain_call ''Failed to check token allowance'' (aw_allowanceBefore aw)) (\<lambda>allowanceBefore.
     if sc_max_total_micro c \<le> allowanceBefore then Inr ()
     else (case asRecord (jget body ''usdcAuthorization'') of
             Some auth \<Rightarrow>
               if jget auth ''kind'' = Some (JStr ''approveWithAuthorization'')
               then check_authorization aw e c auth
               else Inl (412, ''USDC allowance insufficient'')
           | None \<Rightarrow> Inl (412, ''USDC allowance insufficient''))))"

definition check_solana_delegate ::
  "session_config \<Rightarrow> authorize_world \<Rightarrow> session_challenge \<Rightarrow> http_error + unit" where
  "check_solana_delegate sg aw c =
     bind_http (guard_http (ac_isPublicKey (sg_checks sg) (sc_payer_wallet c)) (400, ''Invalid payer wallet'')) (\<lambda>_.
     bind_http (chain_call ''Failed to check token delegation'' (aw_delegate aw)) (\<lambda>(delegate, delegatedMicro).
     bind_http (guard_http (delegate = Some (sg_facilitatorKey sg)) (412, ''USDC delegate not set'')) (\<lambda>_.
     guard_http (sc_max_total_micro c \<le> delegatedMicro) (412, ''USDC delegated allowance insufficient''))))"

text \<open>Everything up to the point where the challenge is marked: reads only.\<close>

definition authorize_checks ::
  "session_config \<Rightarrow> authorize_world \<Rightarrow> env \<Rightarrow> json_object \<Rightarrow> db
   \<Rightarrow> http_error + (string \<times> string \<times> session_challenge)" where
  "authorize_checks sg aw e body d =
     (let nonce = body_text body ''nonce''; signature = body_text body ''signature'' in
      if nonce = [] \<or> signature = [] then Inl (400, ''Missing nonce or signature'')
      else (case getSessionChallenge e nonce d of
              None \<Rightarrow> Inl (400, ''Invalid or expired challenge'')
            | Some c \<Rightarrow>
                (case canonicalizeNetwork (sc_network c) of
                   None \<Rightarrow> Inl (400, ''Unsupported network'')
                 | Some network \<Rightarrow>
                     if network \<noteq> SOLANA_MAINNET_CAIP2 \<and> network \<noteq> BASE_MAINNET_CAIP2 then
                       Inl (400, ''Unsupported network'')
                     else if network = BASE_MAINNET_CAIP2 \<and> \<not> sg_baseEnabled sg then
                       Inl (400, ''Unsupported network'')
                     else
                       (let ok = (if network = BASE_MAINNET_CAIP2
                                  then sl_verifyEvmMessage (sg_libs sg) (sc_payer_wallet c) (sc_message c) signature
                                  else verifySessionChallengeSignature (sg_checks sg) (sg_libs sg)
                                         (sc_payer_wallet c) (sc_message c) signature) in
                        bind_http (guard_http ok (401, ''Invalid signature'')) (\<lambda>_.
                        bind_http (if network = BASE_MAINNET_CAIP2 then check_base_allowance sg aw e c body
                                   else check_solana_delegate sg aw c) (\<lambda>_.
                        Inr (nonce, network, c)))))))"

record authorize_response =
  ar_token :: string
  ar_expiresAt :: int
  ar_paymentHeader :: string

text \<open>
  The two writes.  Other requests may run between the checks, the mark and the insert, so each takes
  the database it finds; a failing statement goes to the error handler of the application.
\<close>

definition mark_challenge ::
  "env \<Rightarrow> string \<Rightarrow> db \<Rightarrow> (http_error option + unit) \<times> db" where
  "mark_challenge e nonce d =
     (case withTransaction (markSessionChallengeUsed e nonce) d of
        (Inl _, d') \<Rightarrow> (Inl None, d')
      | (Inr marked, d') \<Rightarrow>
          (if marked then Inr () else Inl (Some (409, ''Challenge already used or expired'')), d'))"

definition open_session ::
  "env \<Rightarrow> nat list \<Rightarrow> string \<Rightarrow> session_challenge \<Rightarrow> db \<Rightarrow> (http_error option + authorize_response) \<times> db" where
  "open_session e randomBytes network c d =
     (let token = generateSessionToken randomBytes in
      case withTransaction (insertPaymentSession (hashSessionToken e token)
             \<lparr>np_payerWallet = sc_payer_wallet c, np_network = network, np_merchantWallet = sc_merchant_wallet c,
              np_maxTotalMicro = sc_max_total_micro c, np_maxSingleMicro = sc_max_single_micro c,
              np_expiresAt = sc_session_expires_at c\<rparr>) d of
        (Inl _, d') \<Rightarrow> (Inl None, d')
      | (Inr session, d') \<Rightarrow>
          (Inr \<lparr>ar_token = token, ar_expiresAt = ps_expires_at session,
                ar_paymentHeader = session_header_text network token None\<rparr>, d'))"

section \<open>POST /session/revoke and /session/introspect\<close>

definition post_revoke :: "env \<Rightarrow> json_object \<Rightarrow> db \<Rightarrow> (http_error + bool option) \<times> db" where
  "post_revoke e body d =
     (let token = body_text body ''token'' in
      if token = [] then (Inl (400, ''Missing token''), d)
      else (case withTransaction (revokePaymentSession e (hashSessionToken e token)) d of
              (Inl _, d') \<Rightarrow> (Inr None, d')
            | (Inr ok, d') \<Rightarrow> (Inr (Some ok), d')))"

definition post_introspect :: "env \<Rightarrow> json_object \<Rightarrow> db \<Rightarrow> http_error + payment_session" where
  "post_introspect e body d =
     (let token = body_text body ''token'' in
      if token = [] then Inl (400, ''Missing token'')
      else (case getPaymentSessionByTokenHash (hashSessionToken e token) d of
              None \<Rightarrow> Inl (404, ''Session not found'')
            | Some s \<Rightarrow> if ps_revoked_at s \<noteq> None then Inl (404, ''Session not found'') else Inr s))"

section \<open>Lemmas\<close>

lemma bind_http_Inr: "bind_http r k = Inr x \<longleftrightarrow> (\<exists>y. r = Inr y \<and> k y = Inr x)"
  by (auto simp: bind_http_def split: sum.splits)

lemma guard_http_Inr [simp]: "guard_http c err = Inr u \<longleftrightarrow> c"
  by (auto simp: guard_http_def)

lemma clampSessionTtlMs_range: "60000 \<le> clampSessionTtlMs v \<and> clampSessionTtlMs v \<le> MAX_SESSION_TTL_MS"
  by (auto simp: clampSessionTtlMs_def MAX_SESSION_TTL_MS_def DEFAULT_SESSION_TTL_MS_def
      split: option.split json.split js_num.split)

lemma challenge_caps_Inr:
  "challenge_caps body = Inr (maxTotal, maxSingle) \<Longrightarrow>
   0 < maxTotal \<and> (case maxSingle of None \<Rightarrow> True | Some m \<Rightarrow> 0 < m \<and> m \<le> maxTotal)"
  by (auto simp: challenge_caps_def Let_def dest: parseUsdc_positive split: option.splits if_splits)

lemma check_challenge_request_Inr:
  assumes "check_challenge_request sg body = Inr q"
  shows "cq_network q \<in> {SOLANA_MAINNET_CAIP2, BASE_MAINNET_CAIP2} \<and> 0 < cq_maxTotal q
         \<and> (case cq_maxSingle q of None \<Rightarrow> True | Some m \<Rightarrow> 0 < m \<and> m \<le> cq_maxTotal q)
         \<and> isValidPayerForNetwork (sg_checks sg) (cq_payer q) (cq_network q)"
  using assms
  by (auto simp: check_challenge_request_def Let_def dest!: challenge_caps_Inr
      split: option.splits if_splits sum.splits)

lemma insertSessionChallenge_effect:
  assumes "insertSessionChallenge nonce row d = Inr (u, d')"
  shows "t_session_challenges d' =
           (case t_session_challenges d nonce of
              None \<Rightarrow> (t_session_challenges d)(nonce \<mapsto> row) | Some _ \<Rightarrow> t_session_challenges d)"
  using assms
  by (auto simp: insertSessionChallenge_def thenT_success insert_if_absent_def put_challenge_def
      split: option.splits)

text \<open>Tokens are in the URL-safe alphabet and short enough for a payment header.\<close>

lemma base64_alphabet_url_safe:
  "c \<in> set base64_alphabet \<Longrightarrow>
   url_safe_char (if c = CHR ''+'' then CHR ''-'' else if c = CHR ''/'' then CHR ''_'' else c)"
proof -
  have "list_all (\<lambda>c. url_safe_char (if c = CHR ''+'' then CHR ''-'' else if c = CHR ''/'' then CHR ''_'' else c))
          base64_alphabet"
    by code_simp
  then show "c \<in> set base64_alphabet \<Longrightarrow> ?thesis" by (simp add: list_all_iff)
qed

lemma generateSessionToken_ok:
  assumes "length bs = 32"
  shows "url_safe (generateSessionToken bs) \<and> length (generateSessionToken bs) \<le> MAX_SESSION_TOKEN_LENGTH"
proof -
  have ne: "filter (\<lambda>c. c \<noteq> CHR ''='') (base64 bs) \<noteq> []"
    using assms by (cases bs rule: base64.cases) (simp_all add: base64_char_not_pad)
  have "list_all url_safe_char (base64url bs)"
    using base64_chars base64_alphabet_url_safe by (fastforce simp: base64url_def list_all_iff)
  moreover have "base64url bs \<noteq> []" using ne by (simp add: base64url_def)
  moreover have "length (base64url bs) \<le> 44"
  proof -
    have "length (base64url bs) \<le> length (base64 bs)" by (simp add: base64url_def)
    also have "\<dots> \<le> 44" using base64_length [of bs] assms by simp
    finally show ?thesis .
  qed
  ultimately show ?thesis
    by (simp add: generateSessionToken_def url_safe_def MAX_SESSION_TOKEN_LENGTH_def)
qed

section \<open>Histories of session operations\<close>

text \<open>
  Everything that can happen to challenges and sessions, in any order: the operations of this file
  and the spending updates of settlement.
\<close>

datatype session_op =
    OpChallenge string session_challenge
  | OpMark env string
  | OpOpen string session_params
  | OpRevoke env string
  | OpReserve env string int
  | OpRelease string int

text \<open>The answer of the operation when it has one, and the database.\<close>

fun run_op :: "session_op \<Rightarrow> db \<Rightarrow> bool \<times> db" where
  "run_op (OpChallenge n row) d = (True, snd (withTransaction (insertSessionChallenge n row) d))"
| "run_op (OpMark e n) d =
     (case withTransaction (markSessionChallengeUsed e n) d of (Inr b, d') \<Rightarrow> (b, d') | (Inl _, d') \<Rightarrow> (False, d'))"
| "run_op (OpOpen h p) d = (True, snd (withTransaction (insertPaymentSession h p) d))"
| "run_op (OpRevoke e h) d =
     (case withTransaction (revokePaymentSession e h) d of (Inr b, d') \<Rightarrow> (b, d') | (Inl _, d') \<Rightarrow> (False, d'))"
| "run_op (OpReserve e h x) d =
     (case withTransaction (reservePaymentSessionSpend e h x) d of (Inr b, d') \<Rightarrow> (b, d') | (Inl _, d') \<Rightarrow> (False, d'))"
| "run_op (OpRelease h x) d = (True, snd (withTransaction (releasePaymentSessionSpend h x) d))"

text \<open>How often a challenge was successfully marked, and an amount successfully reserved.\<close>

fun marks :: "string \<Rightarrow> session_op list \<Rightarrow> db \<Rightarrow> nat" where
  "marks n [] d = 0"
| "marks n (p # ps) d =
     (case p of OpMark _ m \<Rightarrow> if m = n \<and> fst (run_op p d) then 1 else 0 | _ \<Rightarrow> 0) + marks n ps (snd (run_op p d))"

fun reservations :: "string \<Rightarrow> session_op list \<Rightarrow> db \<Rightarrow> nat" where
  "reservations h [] d = 0"
| "reservations h (p # ps) d =
     (case p of OpReserve _ g _ \<Rightarrow> if g = h \<and> fst (run_op p d) then 1 else 0 | _ \<Rightarrow> 0)
     + reservations h ps (snd (run_op p d))"

definition challenge_used :: "string \<Rightarrow> db \<Rightarrow> bool" where
  "challenge_used n d = (\<exists>c. t_session_challenges d n = Some c \<and> sc_used_at c \<noteq> None)"

definition session_revoked :: "string \<Rightarrow> db \<Rightarrow> bool" where
  "session_revoked h d = (\<exists>s. t_payment_sessions d h = Some s \<and> ps_revoked_at s \<noteq> None)"

lemma challenge_used_kept: "challenge_used n d \<Longrightarrow> challenge_used n (snd (run_op p d))"
  by (cases p)
     (auto simp: challenge_used_def withTransaction_def insertSessionChallenge_def insert_if_absent_def
      put_challenge_def put_session_def markSessionChallengeUsed_def getSessionChallenge_def
      challenge_usable_def insertPaymentSession_def revokePaymentSession_def reservePaymentSessionSpend_def
      releasePaymentSessionSpend_def thenT_def bindT_def ensureT_def split: option.splits)

lemma session_revoked_kept: "session_revoked h d \<Longrightarrow> session_revoked h (snd (run_op p d))"
  by (cases p)
     (auto simp: session_revoked_def withTransaction_def insertSessionChallenge_def insert_if_absent_def
      put_challenge_def put_session_def markSessionChallengeUsed_def getSessionChallenge_def
      insertPaymentSession_def revokePaymentSession_def reservePaymentSessionSpend_def
      releasePaymentSessionSpend_def thenT_def bindT_def ensureT_def session_has_room_def split: option.splits)

lemma mark_uses: "fst (run_op (OpMark e n) d) \<Longrightarrow> challenge_used n (snd (run_op (OpMark e n) d))"
  by (auto simp: challenge_used_def withTransaction_def markSessionChallengeUsed_def put_challenge_def
      split: option.splits)

lemma used_not_marked: "challenge_used n d \<Longrightarrow> \<not> fst (run_op (OpMark e n) d)"
  by (auto simp: challenge_used_def withTransaction_def markSessionChallengeUsed_def getSessionChallenge_def
      challenge_usable_def split: option.splits)

lemma revoked_not_reserved: "session_revoked h d \<Longrightarrow> \<not> fst (run_op (OpReserve e h x) d)"
  by (auto simp: session_revoked_def withTransaction_def reservePaymentSessionSpend_def session_has_room_def
      split: option.splits)

lemma used_no_marks: "challenge_used n d \<Longrightarrow> marks n ps d = 0"
proof (induction ps arbitrary: d)
  case Nil
  then show ?case by simp
next
  case (Cons p ps)
  then show ?case using challenge_used_kept [of n d p] used_not_marked [of n d]
    by (cases p) auto
qed

lemma revoked_no_reservations: "session_revoked h d \<Longrightarrow> reservations h ps d = 0"
proof (induction ps arbitrary: d)
  case Nil
  then show ?case by simp
next
  case (Cons p ps)
  then show ?case using session_revoked_kept [of h d p] revoked_not_reserved [of h d]
    by (cases p) auto
qed

lemma marks_at_most_once: "marks n ps d \<le> 1"
proof (induction ps arbitrary: d)
  case Nil
  then show ?case by simp
next
  case (Cons p ps)
  let ?d' = "snd (run_op p d)"
  show ?case
  proof (cases "\<exists>e. p = OpMark e n \<and> fst (run_op p d)")
    case True
    then have "challenge_used n ?d'" using mark_uses by blast
    then have "marks n ps ?d' = 0" by (rule used_no_marks)
    with True show ?thesis by auto
  next
    case False
    then have "marks n (p # ps) d = marks n ps ?d'" by (cases p) auto
    with Cons.IH [of ?d'] show ?thesis by simp
  qed
qed

section \<open>Properties\<close>

text \<open>
  A challenge opens at most one session: in every history of challenge, session and spending
  operations, from every database, marking one challenge as used succeeds at most once.
\<close>

theorem challenge_marked_once: "marks nonce history d \<le> 1"
  by (rule marks_at_most_once)

text \<open>
  A revoked session is dead: once a revocation has succeeded, no later history can reserve
  any amount under the session's token, and the token is no longer reported to anyone.
\<close>

theorem revoked_session_refused:
  assumes "fst (run_op (OpRevoke e h) d)"
  shows "reservations h history (snd (run_op (OpRevoke e h) d)) = 0
         \<and> (hashSessionToken e' (body_text body ''token'') = h \<and> body_text body ''token'' \<noteq> [] \<longrightarrow>
            post_introspect e' body (snd (run_op (OpRevoke e h) d)) = Inl (404, ''Session not found''))"
proof -
  let ?d' = "snd (run_op (OpRevoke e h) d)"
  have r: "session_revoked h ?d'"
    using assms by (auto simp: session_revoked_def withTransaction_def revokePaymentSession_def put_session_def
        split: option.splits if_splits)
  then have "reservations h history ?d' = 0" by (rule revoked_no_reservations)
  with r show ?thesis
    by (auto simp: session_revoked_def post_introspect_def Let_def getPaymentSessionByTokenHash_def)
qed

definition sample_session_db :: db where
  "sample_session_db = (seed_db 0)\<lparr>t_payment_sessions := [''tok'' \<mapsto>
     new_session \<lparr>np_payerWallet = ''payer'', np_network = BASE_MAINNET_CAIP2, np_merchantWallet = ''m'',
       np_maxTotalMicro = 100, np_maxSingleMicro = None, np_expiresAt = 1000\<rparr>]\<rparr>"

lemma revoked_session_refused_witness:
  "reservations ''tok'' [OpReserve (sample_env 6) ''tok'' 10]
     (snd (run_op (OpRevoke (sample_env 5) ''tok'') sample_session_db)) = 0"
proof -
  have "fst (run_op (OpRevoke (sample_env 5) ''tok'') sample_session_db)"
    by (simp add: sample_session_db_def revokePaymentSession_def new_session_def withTransaction_def)
  from revoked_session_refused [OF this] show ?thesis by blast
qed

text \<open>
  A challenge says what it stores: when the challenge handler answers and its random nonce
  was not in use, the stored row has exactly the caps, parties and network of the request, with a
  positive total cap, a single-payment cap no larger than it, five minutes to be answered and a session
  lifetime between one minute and 30 days; and the message in the answer is the stored message and is
  the text of exactly these terms and this nonce.
\<close>

theorem challenge_stores_terms:
  assumes "post_challenge sg e randomBytes body d = (Inr (Some r), d')"
    and "t_session_challenges d (hex_text randomBytes) = None"
  shows "\<exists>q ttl. check_challenge_request sg body = Inr q \<and> 60000 \<le> ttl \<and> ttl \<le> MAX_SESSION_TTL_MS
           \<and> cr_nonce r = hex_text randomBytes
           \<and> cr_message r = buildSessionChallengeMessage
                              (challenge_terms_of q (env_date_now e + ttl) (cr_nonce r))
           \<and> t_session_challenges d' (cr_nonce r) =
               Some (challenge_row q (env_date_now e + CHALLENGE_TTL_MS) (env_date_now e + ttl) (cr_message r))
           \<and> 0 < cq_maxTotal q
           \<and> (case cq_maxSingle q of None \<Rightarrow> True | Some m \<Rightarrow> 0 < m \<and> m \<le> cq_maxTotal q)
           \<and> isValidPayerForNetwork (sg_checks sg) (cq_payer q) (cq_network q)"
proof -
  let ?ttl = "clampSessionTtlMs (jget body ''sessionTtlSeconds'')" and ?n = "hex_text randomBytes"
  from assms(1) obtain q where q: "check_challenge_request sg body = Inr q"
    by (auto simp: post_challenge_def split: sum.splits)
  let ?msg = "buildSessionChallengeMessage (challenge_terms_of q (env_date_now e + ?ttl) ?n)"
  let ?row = "challenge_row q (env_date_now e + CHALLENGE_TTL_MS) (env_date_now e + ?ttl) ?msg"
  from assms(1) q obtain u where w: "withTransaction (insertSessionChallenge ?n ?row) d = (Inr u, d')"
    and r: "cr_nonce r = ?n" "cr_message r = ?msg"
    by (auto simp: post_challenge_def Let_def split: prod.splits sum.splits)
  have "t_session_challenges d' ?n = Some ?row"
    using insertSessionChallenge_effect [of ?n ?row d u d'] w assms(2) by (simp add: withTransaction_success)
  moreover note check_challenge_request_Inr [OF q] clampSessionTtlMs_range [of "jget body ''sessionTtlSeconds''"]
  ultimately show ?thesis
    unfolding r using q by (intro exI [of _ q] exI [of _ ?ttl]) simp
qed

definition sample_session_config :: session_config where
  "sample_session_config =
     \<lparr>sg_baseEnabled = True, sg_baseSpender = Some ''0xf'', sg_facilitatorKey = ''fac'',
      sg_checks = \<lparr>ac_isAddress = (\<lambda>_. True), ac_isPublicKey = (\<lambda>_. True)\<rparr>,
      sg_libs = \<lparr>sl_verifyMessage = (\<lambda>_ _. None), sl_ed25519 = (\<lambda>_ _ _. True),
                 sl_bs58_decode = (\<lambda>_. None), sl_verifyEvmMessage = (\<lambda>_ _ _. True)\<rparr>\<rparr>"

definition sample_challenge_body :: json_object where
  "sample_challenge_body =
     [(''payerWallet'', JStr ''payer''), (''network'', JStr ''eip155:8453''), (''merchantWallet'', JStr ''m''),
      (''maxTotalMicro'', JStr ''100'')]"

lemma challenge_stores_terms_witness:
  "\<exists>r d'. post_challenge sample_session_config (sample_env 0) [171, 18] sample_challenge_body (seed_db 0)
            = (Inr (Some r), d') \<and> cr_nonce r = ''ab12''"
proof -
  let ?run = "post_challenge sample_session_config (sample_env 0) [171, 18] sample_challenge_body (seed_db 0)"
  have n: "hex_text [171, 18] = ''ab12''" by code_simp
  have m: "parseUsdcMicroAmountBigint ''100'' = Some 100"
    "canonicalizeNetwork ''eip155:8453'' = Some BASE_MAINNET_CAIP2" by code_simp+
  have t: "js_trim ''payer'' = ''payer''" "js_trim ''m'' = ''m''" "js_trim ''100'' = ''100''"
    "js_trim ''eip155:8453'' = ''eip155:8453''" by code_simp+
  have "\<exists>q. check_challenge_request sample_session_config sample_challenge_body = Inr q
            \<and> cq_maxTotal q = 100 \<and> cq_maxSingle q = None"
    by (simp add: check_challenge_request_def sample_challenge_body_def sample_session_config_def body_text_def
        jget_def m t isValidPayerForNetwork_def challenge_caps_def)
  then obtain q where q: "check_challenge_request sample_session_config sample_challenge_body = Inr q"
    "cq_maxTotal q = 100" "cq_maxSingle q = None" by blast
  have "\<exists>r d'. ?run = (Inr (Some r), d')"
    by (simp add: post_challenge_def q(1) Let_def)
       (auto simp: insertSessionChallenge_def challenge_fits_def challenge_row_def numeric30_fits_def q
          withTransaction_def thenT_def bindT_def)
  then obtain r d' where run: "?run = (Inr (Some r), d')" by blast
  moreover have "t_session_challenges (seed_db 0) (hex_text [171, 18]) = None" by (simp add: seed_db_def)
  from challenge_stores_terms [OF run this] have "cr_nonce r = ''ab12''" unfolding n by blast
  ultimately show ?thesis by blast
qed


definition sample_world :: authorize_world where
  "sample_world =
     \<lparr>aw_allowanceBefore = Inr 100, aw_domain = Inr (), aw_recovered = Inr ''payer'', aw_approve = Inr (),
      aw_allowanceAfter = Inr 100, aw_delegate = Inr (None, 0)\<rparr>"

definition sample_challenge :: session_challenge where
  "sample_challenge =
     \<lparr>sc_payer_wallet = ''payer'', sc_network = ''eip155:8453'', sc_merchant_wallet = ''m'',
      sc_max_total_micro = 100, sc_max_single_micro = None, sc_session_expires_at = 1000,
      sc_message = ''msg'', sc_expires_at = 300, sc_used_at = None\<rparr>"

definition sample_challenge_db :: db where
  "sample_challenge_db = put_challenge ''ab12'' sample_challenge (seed_db 0)"


end
