(* ===== verification/Js_Json.thy ===== *)
theory Js_Json
  imports Js_Text
begin

text \<open>
  \<open>JSON.parse\<close>, \<open>Buffer.toString('utf-8')\<close> and the round trips between the texts that the facilitator
  writes and the values it reads back: numbers, JSON values, UTF-8 and base64.  A \<open>char\<close> is a code unit
  below 256; a text with a larger code unit, in an escape or in its UTF-8 bytes, is outside the model and
  reads as no text.
\<close>

section \<open>Strings in JSON\<close>

definition simple_escape :: "char \<Rightarrow> char option" where
  "simple_escape e =
     (if e = CHR 0x22 \<or> e = CHR 0x5C \<or> e = CHR ''/'' then Some e
      else if e = CHR ''b'' then Some CHR 0x08
      else if e = CHR ''f'' then Some CHR 0x0C
      else if e = CHR ''n'' then Some CHR 0x0A
      else if e = CHR ''r'' then Some CHR 0x0D
      else if e = CHR ''t'' then Some CHR 0x09
      else None)"

text \<open>The character of \<open>\u00xy\<close>.\<close>

definition unicode_escape :: "char \<Rightarrow> char \<Rightarrow> char \<Rightarrow> char \<Rightarrow> char option" where
  "unicode_escape a b c d =
     (case radix_value 16 0 [a, b, c, d] of
        Some n \<Rightarrow> if n < 256 then Some (char_of n) else None
      | None \<Rightarrow> None)"

text \<open>The rest of a string literal after its opening quote, and what follows it.\<close>

fun read_string :: "string \<Rightarrow> (string \<times> string) option" where
  "read_string [] = None"
| "read_string (c # cs) =
     (if c = CHR 0x22 then Some ([], cs)
      else if c = CHR 0x5C then
        (case cs of
           [] \<Rightarrow> None
         | e # rest \<Rightarrow>
             if e = CHR ''u'' then
               (case rest of
                  p # q # r # t # rest' \<Rightarrow>
                    (case unicode_escape p q r t of
                       None \<Rightarrow> None
                     | Some x \<Rightarrow> map_option (map_prod (Cons x) id) (read_string rest'))
                | _ \<Rightarrow> None)
             else
               (case simple_escape e of
                  None \<Rightarrow> None
                | Some x \<Rightarrow> map_option (map_prod (Cons x) id) (read_string rest)))
      else if (of_char c :: nat) < 32 then None
      else map_option (map_prod (Cons c) id) (read_string cs))"

lemma read_string_shorter: "read_string s = Some (t, r) \<Longrightarrow> length r < length s"
proof (induction "length s" arbitrary: s t r rule: less_induct)
  case less
  have shorter: "read_string u = Some (t', r) \<Longrightarrow> length u < length s \<Longrightarrow> length r < length s" for u t'
    using less.hyps [of u t' r] by simp
  from less.prems show ?case
    by (cases s) (auto split: if_splits list.splits option.splits dest!: shorter)
qed

section \<open>Values\<close>

definition json_space :: "char \<Rightarrow> bool" where
  "json_space c = (c \<in> {CHR '' '', CHR 0x09, CHR 0x0A, CHR 0x0D})"

definition skip_space :: "string \<Rightarrow> string" where
  "skip_space s = dropWhile json_space s"

text \<open>The JSON number grammar: no plus sign, no leading zero, digits on both sides of the point.\<close>

definition exponent_part :: "string \<Rightarrow> bool" where
  "exponent_part t =
     (case t of
        [] \<Rightarrow> True
      | c # r \<Rightarrow> is_exponent_mark c
                 \<and> (let ds = (case r of x # r' \<Rightarrow> if x \<in> {CHR ''+'', CHR ''-''} then r' else r | [] \<Rightarrow> []) in
                    ds \<noteq> [] \<and> list_all is_digit ds))"

definition fraction_part :: "string \<Rightarrow> bool" where
  "fraction_part t =
     (case t of
        c # r \<Rightarrow> if c = CHR ''.'' then takeWhile is_digit r \<noteq> [] \<and> exponent_part (dropWhile is_digit r)
                 else exponent_part t
      | [] \<Rightarrow> True)"

definition json_number :: "string \<Rightarrow> bool" where
  "json_number t =
     (let u = (case t of c # r \<Rightarrow> if c = CHR ''-'' then r else t | [] \<Rightarrow> []);
          whole = takeWhile is_digit u in
      whole \<noteq> [] \<and> (hd whole = CHR ''0'' \<longrightarrow> length whole = 1) \<and> fraction_part (dropWhile is_digit u))"

definition number_char :: "char \<Rightarrow> bool" where
  "number_char c = (is_digit c \<or> c \<in> set ''+-.eE'')"

text \<open>
  A number too large for a double becomes an infinity.  Every reader in this development asks
  whether a number is finite and treats an infinity like a missing value, as it does \<open>null\<close>.
\<close>

definition read_number :: "string \<Rightarrow> (json \<times> string) option" where
  "read_number s =
     (let t = takeWhile number_char s in
      if json_number t
      then Some (case js_Number t of Finite x \<Rightarrow> JNum x | _ \<Rightarrow> JNull, dropWhile number_char s)
      else None)"

definition read_word :: "string \<Rightarrow> json \<Rightarrow> string \<Rightarrow> (json \<times> string) option" where
  "read_word w v s = (if take (length w) s = w then Some (v, drop (length w) s) else None)"

text \<open>An object keeps the place of a repeated key and takes its last value.\<close>

definition put_property :: "(string \<times> json) list \<Rightarrow> string \<Rightarrow> json \<Rightarrow> (string \<times> json) list" where
  "put_property ps k v =
     (if k \<in> fst ` set ps then map (\<lambda>(k', v'). (k', if k' = k then v else v')) ps else ps @ [(k, v)])"

lemma skip_space_length: "length (skip_space s) \<le> length s"
  by (simp add: skip_space_def length_dropWhile_le)

lemma skip_space_Cons: "skip_space s = c # cs \<Longrightarrow> length cs < length s"
  using skip_space_length [of s] by simp

text \<open>
  Recursive descent: a value; the items of an array after its bracket; the properties of an object
  after its brace.  The comparisons of lengths only serve the termination proof: what follows a
  value is always shorter (\<open>read_shorter\<close>).
\<close>

function (sequential) read_value :: "string \<Rightarrow> (json \<times> string) option"
  and read_items :: "string \<Rightarrow> json list \<Rightarrow> (json \<times> string) option"
  and read_properties :: "string \<Rightarrow> (string \<times> json) list \<Rightarrow> (json \<times> string) option" where
  "read_value s =
     (case skip_space s of
        [] \<Rightarrow> None
      | c # cs \<Rightarrow>
          if c = CHR ''{'' then
            (case skip_space cs of
               d # ds \<Rightarrow> if d = CHR ''}'' then Some (JObj [], ds) else read_properties cs []
             | [] \<Rightarrow> None)
          else if c = CHR ''['' then
            (case skip_space cs of
               d # ds \<Rightarrow> if d = CHR '']'' then Some (JArr [], ds) else read_items cs []
             | [] \<Rightarrow> None)
          else if c = CHR 0x22 then map_option (map_prod JStr id) (read_string cs)
          else if c = CHR ''t'' then read_word ''true'' (JBool True) (c # cs)
          else if c = CHR ''f'' then read_word ''false'' (JBool False) (c # cs)
          else if c = CHR ''n'' then read_word ''null'' JNull (c # cs)
          else read_number (c # cs))"
| "read_items s xs =
     (case read_value s of
        None \<Rightarrow> None
      | Some (v, r) \<Rightarrow>
          (case skip_space r of
             [] \<Rightarrow> None
           | c # cs \<Rightarrow>
               if c = CHR '']'' then Some (JArr (xs @ [v]), cs)
               else if c = CHR '','' \<and> length cs < length s then read_items cs (xs @ [v])
               else None))"
| "read_properties s ps =
     (case skip_space s of
        [] \<Rightarrow> None
      | q # qs \<Rightarrow>
          if q \<noteq> CHR 0x22 then None
          else (case read_string qs of
                  None \<Rightarrow> None
                | Some (k, r) \<Rightarrow>
                    (case skip_space r of
                       [] \<Rightarrow> None
                     | c # cs \<Rightarrow>
                         if c \<noteq> CHR '':'' then None
                         else (case read_value cs of
                                 None \<Rightarrow> None
                               | Some (v, r') \<Rightarrow>
                                   (case skip_space r' of
                                      [] \<Rightarrow> None
                                    | d # ds \<Rightarrow>
                                        if d = CHR ''}'' then Some (JObj (put_property ps k v), ds)
                                        else if d = CHR '','' \<and> length ds < length s
                                        then read_properties ds (put_property ps k v)
                                        else None)))))"
  by pat_completeness auto

termination
proof (relation "measure (\<lambda>x. case x of Inl s \<Rightarrow> 2 * length s
                                     | Inr (Inl (s, _)) \<Rightarrow> 2 * length s + 1
                                     | Inr (Inr (s, _)) \<Rightarrow> 2 * length s + 1)", goal_cases)
qed (auto dest!: skip_space_Cons read_string_shorter)

declare read_value.simps [simp del] read_items.simps [simp del] read_properties.simps [simp del]

lemma read_number_shorter: "read_number s = Some (v, r) \<Longrightarrow> length r < length s"
proof -
  assume a: "read_number s = Some (v, r)"
  then have "takeWhile number_char s \<noteq> []" and r: "r = dropWhile number_char s"
    by (auto simp: read_number_def Let_def json_number_def split: if_splits)
  moreover have "length (takeWhile number_char s) + length r = length s"
    unfolding r by (metis length_append takeWhile_dropWhile_id)
  ultimately show ?thesis by (cases "takeWhile number_char s") auto
qed

lemma read_word_shorter: "w \<noteq> [] \<Longrightarrow> read_word w v' s = Some (v, r) \<Longrightarrow> length r < length s"
  by (auto simp: read_word_def split: if_splits) (metis diff_less length_greater_0_conv take_eq_Nil)

text \<open>What follows a parsed value is shorter than the text it was parsed from.\<close>

lemma read_shorter:
  "read_value s = Some (v, r) \<Longrightarrow> length r < length s"
  "read_items s xs = Some (v', r') \<Longrightarrow> length r' < length s"
  "read_properties s ps = Some (v'', r'') \<Longrightarrow> length r'' < length s"
proof (induction s and s xs and s ps arbitrary: v r and v' r' and v'' r''
    rule: read_value_read_items_read_properties.induct)
  case (1 s)
  have n: "read_number (c # cs) = Some (v, r) \<Longrightarrow> length r < Suc (length cs)" for c cs
    using read_number_shorter [of "c # cs"] by simp
  have w: "read_word w u (c # cs) = Some (v, r) \<Longrightarrow> w \<noteq> [] \<Longrightarrow> length r < Suc (length cs)" for c cs w u
    using read_word_shorter [of w u "c # cs"] by simp
  have l: "length r < length cs \<Longrightarrow> skip_space s = c # cs \<Longrightarrow> length r < length s" for c cs
    using skip_space_Cons [of s c cs] by simp
  from "1.prems" show ?case
    unfolding read_value.simps [of s]
    by (auto split: list.splits if_splits option.splits dest!: read_string_shorter n w
        intro: l "1.IH" dest: skip_space_Cons)
next
  case (2 s xs)
  from "2.prems" obtain a b c cs where x: "read_value s = Some (a, b)" "skip_space b = c # cs"
    and y: "r' = cs \<or> (read_items cs (xs @ [a]) = Some (v', r') \<and> c = CHR '','' \<and> length cs < length s)"
    unfolding read_items.simps [of s xs]
    by (auto split: list.splits if_splits option.splits)
  have "length cs < length s" using "2.IH"(1) [OF x(1)] skip_space_Cons [OF x(2)] by simp
  then show ?case using y "2.IH"(2) [OF x(1) refl x(2)] by force
next
  case (3 s ps)
  from "3.prems" obtain qs k r1 cs a b d ds where x: "skip_space s = CHR 0x22 # qs"
      "read_string qs = Some (k, r1)" "skip_space r1 = CHR '':'' # cs" "read_value cs = Some (a, b)"
      "skip_space b = d # ds"
    and y: "r'' = ds \<or> (read_properties ds (put_property ps k a) = Some (v'', r'') \<and> d = CHR '',''
                        \<and> length ds < length s)"
    unfolding read_properties.simps [of s ps]
    by (auto split: list.splits if_splits option.splits)
  have "length ds < length s"
    using "3.IH"(1) [OF x(1) _ x(2) refl x(3) _ x(4)] skip_space_Cons [OF x(1)] read_string_shorter [OF x(2)]
      skip_space_Cons [OF x(3)] skip_space_Cons [OF x(5)] by simp
  then show ?case
    using y "3.IH"(2) [OF x(1) _ x(2) refl x(3) _ x(4) refl x(5)] by force
qed

section \<open>Reading back what was written\<close>

lemma hex_digit_value: "d < 16 \<Longrightarrow> radix_digit (hex_digit d) = Some d"
  by (cases "d < 10") (simp_all add: hex_digit_def radix_digit_def Let_def)

lemma hex_pair:
  assumes "n < 32"
  shows "unicode_escape CHR ''0'' CHR ''0'' (hex_digit (n div 16)) (hex_digit (n mod 16)) = Some (char_of n)"
proof -
  have z: "radix_digit CHR ''0'' = Some 0" by (simp add: radix_digit_def)
  have "n div 16 < 16" using assms by simp
  with assms show ?thesis by (simp add: unicode_escape_def hex_digit_value z)
qed

lemma code_unit: "(c = d) = ((of_char c :: nat) = of_char d)"
  by (simp add: of_char_eq_iff)

lemma read_escaped: "read_string (json_escape c @ t) = map_option (map_prod (Cons c) id) (read_string t)"
proof -
  let ?n = "of_char c :: nat"
  consider "c \<in> {CHR 0x08, CHR 0x09, CHR 0x0A, CHR 0x0C, CHR 0x0D, CHR 0x22, CHR 0x5C}"
    | (low) "?n \<notin> {8, 9, 10, 12, 13, 34, 92}" "?n < 32"
    | (high) "?n \<notin> {8, 9, 10, 12, 13, 34, 92}" "\<not> ?n < 32"
    by (auto simp: code_unit)
  then show ?thesis
  proof cases
    case 1
    then show ?thesis by (auto simp: json_escape_def simple_escape_def)
  next
    case low
    with hex_pair [OF low(2)] show ?thesis by (simp add: json_escape_def Let_def)
  next
    case high
    then show ?thesis by (simp add: json_escape_def code_unit Let_def)
  qed
qed

lemma read_quoted: "read_string (concat (map json_escape s) @ CHR 0x22 # r) = Some (s, r)"
  by (induction s) (simp_all add: read_escaped)

text \<open>A number whose text is a JSON number that reads back as the same number.\<close>

definition number_reads :: "rat \<Rightarrow> bool" where
  "number_reads x =
     (json_number (js_number_text x) \<and> list_all number_char (js_number_text x)
      \<and> js_Number (js_number_text x) = Finite x)"

fun json_reads :: "json \<Rightarrow> bool"
  and items_read :: "json list \<Rightarrow> bool"
  and properties_read :: "(string \<times> json) list \<Rightarrow> bool" where
  "json_reads (JNum n) = number_reads n"
| "json_reads (JArr xs) = items_read xs"
| "json_reads (JObj ps) = (distinct (map fst ps) \<and> properties_read ps)"
| "json_reads _ = True"
| "items_read [] = True"
| "items_read (x # xs) = (json_reads x \<and> items_read xs)"
| "properties_read [] = True"
| "properties_read ((k, v) # ps) = (json_reads v \<and> properties_read ps)"

definition number_ends :: "string \<Rightarrow> bool" where
  "number_ends r = (case r of [] \<Rightarrow> True | c # _ \<Rightarrow> \<not> number_char c)"

lemma number_ends_simps [simp]:
  "number_ends []" "number_ends (CHR '','' # r)" "number_ends (CHR '']'' # r)" "number_ends (CHR ''}'' # r)"
  by (simp_all add: number_ends_def number_char_def is_digit_def)

lemma span_number:
  assumes "list_all number_char t" and "number_ends r"
  shows "takeWhile number_char (t @ r) = t" and "dropWhile number_char (t @ r) = r"
proof -
  have t: "\<And>x. x \<in> set t \<Longrightarrow> number_char x" using assms(1) by (simp add: list_all_iff)
  have "takeWhile number_char r = []" "dropWhile number_char r = r"
    using assms(2) by (cases r; simp add: number_ends_def)+
  with t show "takeWhile number_char (t @ r) = t" "dropWhile number_char (t @ r) = r"
    by (simp_all add: takeWhile_append2 dropWhile_append2)
qed

lemma read_written_number:
  "number_reads x \<Longrightarrow> number_ends r \<Longrightarrow> read_number (js_number_text x @ r) = Some (JNum x, r)"
  by (simp add: read_number_def number_reads_def span_number Let_def)

text \<open>How the text of a value starts.\<close>

definition value_start :: "char \<Rightarrow> bool" where
  "value_start c = (is_digit c \<or> c \<in> set ''-{[tfn'' \<or> c = CHR 0x22)"

lemma json_number_start: "json_number t \<Longrightarrow> \<exists>c cs. t = c # cs \<and> (is_digit c \<or> c = CHR ''-'')"
  by (cases t) (auto simp: json_number_def Let_def split: if_splits)

lemma value_start_text:
  "json_reads v \<Longrightarrow> \<exists>c cs. JSON_stringify v = c # cs \<and> value_start c"
  by (cases v) (auto simp: value_start_def json_quote_def number_reads_def dest: json_number_start)

lemma value_start_char:
  "value_start c \<Longrightarrow> \<not> json_space c \<and> c \<noteq> CHR '']'' \<and> c \<noteq> CHR ''}''"
  by (auto simp: value_start_def json_space_def is_digit_def)

lemma skip_space_start: "\<not> json_space c \<Longrightarrow> skip_space (c # cs) = c # cs"
  by (simp add: skip_space_def)

lemma punctuation_no_space [simp]:
  "\<not> json_space CHR '',''" "\<not> json_space CHR '':''" "\<not> json_space CHR '']''" "\<not> json_space CHR ''}''"
  "\<not> json_space CHR 0x22" "\<not> json_space CHR ''{''" "\<not> json_space CHR ''[''"
  by (simp_all add: json_space_def)

lemma put_property_fresh: "k \<notin> fst ` set ps \<Longrightarrow> put_property ps k v = ps @ [(k, v)]"
  by (simp add: put_property_def)

lemma read_value_other:
  assumes "\<not> json_space c" and "c \<notin> set ''{[tfn'' \<union> {CHR 0x22}"
  shows "read_value (c # cs) = read_number (c # cs)"
  using assms by (simp add: read_value.simps [of "c # cs"] skip_space_start)

lemma skip_value_text:
  "json_reads v \<Longrightarrow> skip_space (JSON_stringify v @ r) = JSON_stringify v @ r
     \<and> (\<exists>c cs. JSON_stringify v @ r = c # cs \<and> c \<noteq> CHR '']'' \<and> c \<noteq> CHR ''}'')"
  using value_start_text [of v] by (auto dest!: value_start_char simp: skip_space_start)

text \<open>Parsing undoes stringifying, whatever follows the text.\<close>

lemma read_written:
  "json_reads v \<Longrightarrow> number_ends r \<Longrightarrow> read_value (JSON_stringify v @ r) = Some (v, r)"
  "items_read xs \<Longrightarrow> xs \<noteq> [] \<Longrightarrow>
     read_items (js_join CHR '','' (stringify_items xs) @ CHR '']'' # r) acc = Some (JArr (acc @ xs), r)"
  "properties_read ps \<Longrightarrow> ps \<noteq> [] \<Longrightarrow> distinct (map fst (acc' @ ps)) \<Longrightarrow>
     read_properties (js_join CHR '','' (stringify_properties ps) @ CHR ''}'' # r) acc' = Some (JObj (acc' @ ps), r)"
proof (induction v and xs and ps arbitrary: r and r acc and r acc' rule:
    JSON_stringify_stringify_items_stringify_properties.induct)
  case 1
  show ?case by (simp add: read_value.simps skip_space_start json_space_def read_word_def)
next
  case (2 b)
  show ?case by (cases b) (simp_all add: read_value.simps skip_space_start json_space_def read_word_def)
next
  case (3 n)
  then obtain c cs where t: "js_number_text n = c # cs" "is_digit c \<or> c = CHR ''-''"
    using json_number_start [of "js_number_text n"] by (auto simp: number_reads_def)
  then have "\<not> json_space c" "c \<notin> set ''{[tfn'' \<union> {CHR 0x22}"
    by (auto simp: json_space_def is_digit_def)
  with read_value_other [of c "cs @ r"] read_written_number [of n r] 3 t show ?case by simp
next
  case (4 s)
  show ?case by (simp add: json_quote_def read_value.simps skip_space_start read_quoted)
next
  case (5 xs)
  show ?case
  proof (cases xs)
    case Nil
    then show ?thesis by (simp add: read_value.simps skip_space_start)
  next
    case (Cons x ys)
    let ?t = "js_join CHR '','' (stringify_items xs) @ CHR '']'' # r"
    have x: "json_reads x" using 5 Cons by simp
    obtain u where "?t = JSON_stringify x @ u"
      by (cases ys) (auto simp: Cons)
    with skip_value_text [OF x, of u] obtain c cs where "skip_space ?t = c # cs" "c \<noteq> CHR '']''" by auto
    moreover have "read_items ?t [] = Some (JArr xs, r)" using "5.IH" [of r "[]"] 5(2) Cons by simp
    ultimately show ?thesis by (simp add: read_value.simps [of "CHR ''['' # _"] skip_space_start)
  qed
next
  case (6 ps)
  show ?case
  proof (cases ps)
    case Nil
    then show ?thesis by (simp add: read_value.simps skip_space_start)
  next
    case (Cons p qs)
    let ?t = "js_join CHR '','' (stringify_properties ps) @ CHR ''}'' # r"
    obtain u where "?t = CHR 0x22 # u"
      by (cases p; cases qs) (auto simp: Cons json_quote_def)
    then have "skip_space ?t = CHR 0x22 # u" by (simp add: skip_space_start)
    moreover have "read_properties ?t [] = Some (JObj ps, r)" using "6.IH" [of "[]" r] 6(2) Cons by simp
    ultimately show ?thesis by (simp add: read_value.simps [of "CHR ''{'' # _"] skip_space_start)
  qed
next
  case 7
  then show ?case by simp
next
  case (8 x xs)
  show ?case
  proof (cases xs)
    case Nil
    with 8 show ?thesis by (simp add: read_items.simps [of "JSON_stringify x @ _"] skip_space_start)
  next
    case (Cons y ys)
    let ?t = "js_join CHR '','' (stringify_items xs) @ CHR '']'' # r"
    have "read_items ?t (acc @ [x]) = Some (JArr ((acc @ [x]) @ xs), r)"
      using "8.IH"(2) [of r "acc @ [x]"] 8(3) Cons by simp
    moreover have "read_value (JSON_stringify x @ CHR '','' # ?t) = Some (x, CHR '','' # ?t)"
      using "8.IH"(1) 8(3) by simp
    ultimately show ?thesis
      using Cons by (simp add: read_items.simps [of "JSON_stringify x @ _"] skip_space_start)
  qed
next
  case 9
  then show ?case by simp
next
  case (10 k v ps)
  have v: "json_reads v" and k: "k \<notin> fst ` set acc'" using 10 by auto
  let ?r = "if ps = [] then CHR ''}'' # r
            else CHR '','' # js_join CHR '','' (stringify_properties ps) @ CHR ''}'' # r"
  let ?t = "json_quote k @ CHR '':'' # JSON_stringify v @ ?r"
  have t: "js_join CHR '','' (stringify_properties ((k, v) # ps)) @ CHR ''}'' # r = ?t"
    by (cases ps) auto
  have q: "skip_space ?t = CHR 0x22 # concat (map json_escape k) @ CHR 0x22 # CHR '':'' # JSON_stringify v @ ?r"
    by (simp add: json_quote_def skip_space_start)
  have rv: "read_value (JSON_stringify v @ ?r) = Some (v, ?r)" using "10.IH"(1) v by simp
  have "read_properties ?t acc' =
        (if ps = [] then Some (JObj (acc' @ [(k, v)]), r)
         else read_properties (js_join CHR '','' (stringify_properties ps) @ CHR ''}'' # r) (acc' @ [(k, v)]))"
    using rv by (subst read_properties.simps) (simp add: q read_quoted skip_space_start put_property_fresh [OF k] json_quote_def)
  also have "\<dots> = Some (JObj (acc' @ (k, v) # ps), r)"
    using "10.IH"(2) [of "acc' @ [(k, v)]" r] 10(3-) by auto
  finally show ?case by (simp only: t)
qed

text \<open>\<open>JSON.parse\<close>: one value with nothing but white space around it.\<close>

definition JSON_parse :: "string \<Rightarrow> json option" where
  "JSON_parse s =
     (case read_value s of
        Some (v, r) \<Rightarrow> if skip_space r = [] then Some v else None
      | None \<Rightarrow> None)"

lemma JSON_parse_stringify: "json_reads v \<Longrightarrow> JSON_parse (JSON_stringify v) = Some v"
  using read_written(1) [of v "[]"] by (simp add: JSON_parse_def skip_space_def)

section \<open>Whole numbers\<close>

lemma int_length_bounds: "0 < n \<Longrightarrow> 10 ^ (int_length n - 1) \<le> n \<and> n < 10 ^ int_length n \<and> 1 \<le> int_length n"
proof (induction n rule: int_length.induct)
  case (1 n)
  show ?case
  proof (cases "n < 10")
    case True
    with 1 show ?thesis by (simp add: int_length.simps [of n])
  next
    case False
    let ?l = "int_length (n div 10)"
    have l: "10 ^ (?l - 1) \<le> n div 10" "n div 10 < 10 ^ ?l" "1 \<le> ?l" using 1 False by auto
    have "(10::int) ^ ?l = 10 * 10 ^ (?l - 1)" using l(3) by (metis Suc_diff_1 less_le_trans less_one power_Suc not_less)
    with l False show ?thesis by (simp add: int_length.simps [of n]) linarith
  qed
qed

lemma digit_char_zero [simp]: "digit_char 0 = CHR ''0''"
  by (simp add: code_unit digit_char_def)

lemma nat_text_times_ten: "0 < m \<Longrightarrow> nat_text (10 * m) = nat_text m @ ''0''"
  by (simp add: nat_text.simps [of "10 * m"])

lemma nat_text_shift: "0 < m \<Longrightarrow> nat_text (m * 10 ^ j) = nat_text m @ replicate j CHR ''0''"
proof (induction j)
  case (Suc j)
  have "nat_text (m * 10 ^ Suc j) = nat_text (10 * (m * 10 ^ j))" by (simp add: ac_simps)
  also have "\<dots> = nat_text (m * 10 ^ j) @ ''0''" using Suc by (intro nat_text_times_ten) simp
  finally show ?case using Suc by (simp add: replicate_append_same)
qed simp

lemma nat_text_first: "0 < n \<Longrightarrow> hd (nat_text n) \<noteq> CHR ''0''"
proof (induction n rule: nat_text.induct)
  case (1 n)
  show ?case
  proof (cases "n < 10")
    case True
    have "digit_value (digit_char n) = n" using True by (rule digit_value_digit_char)
    moreover have "digit_value CHR ''0'' = 0" by (simp add: digit_value_def)
    ultimately show ?thesis using 1(2) True by (auto simp: nat_text.simps [of n] dest: arg_cong [of _ _ digit_value])
  next
    case False
    with 1 show ?thesis by (simp add: nat_text.simps [of n])
  qed
qed

lemma below_2_53: "n \<le> 10 ^ 15 \<Longrightarrow> n < (2::int) ^ 53"
  by simp

text \<open>The candidates of a small whole number are the number without some of its trailing zeros.\<close>

lemma shortest_candidate_whole:
  assumes n: "0 < n" "n < 10 ^ 15" and l: "l = int_length n" and k: "1 \<le> k" "k \<le> l"
  shows "shortest_candidate (of_int n) (int l) k = Some m \<Longrightarrow> m * 10 ^ (l - k) = n"
    and "k = l \<Longrightarrow> shortest_candidate (of_int n) (int l) k = Some n"
proof -
  have b: "10 ^ (l - 1) \<le> n" "n < 10 ^ l" using int_length_bounds [OF n(1)] l by auto
  have "l \<le> 15"
  proof (rule ccontr)
    assume "\<not> l \<le> 15"
    then have "(10::int) ^ 15 \<le> 10 ^ (l - 1)" by (intro power_increasing) auto
    with b n show False by simp
  qed
  have scale: "pow10 (int l - int k) = of_int (10 ^ (l - k))"
    using k by (simp add: pow10_def nat_diff_distrib flip: of_nat_diff)
  have exact: "m' * 10 ^ (l - k) = n"
    if "10 ^ (k - 1) \<le> m'" "m' < 10 ^ k" "fl (of_int m' * pow10 (int l - int k)) = of_int n" for m'
  proof -
    have pos: "0 < m'" using that(1) by (smt (verit) zero_less_power)
    have "m' * 10 ^ (l - k) < 10 ^ k * 10 ^ (l - k)" using that(2) by (intro mult_strict_right_mono) auto
    also have "\<dots> = 10 ^ l" using k by (simp flip: power_add)
    also have "\<dots> \<le> 10 ^ 15" using \<open>l \<le> 15\<close> by (intro power_increasing) auto
    finally have "m' * 10 ^ (l - k) < 2 ^ 53" by simp
    then have "fl (of_int (m' * 10 ^ (l - k))) = of_int (m' * 10 ^ (l - k))"
      using pos by (intro fl_int) (simp add: less_imp_le abs_of_nonneg)
    with that(3) show ?thesis unfolding scale by (metis of_int_eq_iff of_int_mult)
  qed
  show "shortest_candidate (of_int n) (int l) k = Some m \<Longrightarrow> m * 10 ^ (l - k) = n"
    unfolding shortest_candidate_def Let_def by (auto split: if_splits intro: exact)
  have "n + 1 < 2 ^ 53" using below_2_53 [of "n + 1"] n(2) by simp
  then have "fl (of_int n) = of_int n" using n by (intro fl_int) simp_all
  moreover have "fl (of_int (n + 1)) \<noteq> of_int n"
    using fl_int [of "n + 1"] n \<open>n + 1 < 2 ^ 53\<close> by simp
  ultimately show "k = l \<Longrightarrow> shortest_candidate (of_int n) (int l) k = Some n"
    using b k by (simp add: shortest_candidate_def Let_def pow10_def)
qed

lemma shortest_from_whole:
  assumes n: "0 < n" "n < 10 ^ 15" and l: "l = int_length n"
    and ks: "l \<in> set ks" "\<forall>k\<in>set ks. 1 \<le> k" "sorted ks"
  shows "\<exists>m k. shortest_from (of_int n) (int l) ks = (m, k) \<and> k \<le> l \<and> m * 10 ^ (l - k) = n"
  using ks
proof (induction ks)
  case (Cons k ks)
  have k: "1 \<le> k" "k \<le> l" using Cons.prems by auto
  show ?case
  proof (cases "shortest_candidate (of_int n) (int l) k")
    case None
    with shortest_candidate_whole(2) [OF n l k] have "k \<noteq> l" by auto
    with Cons None show ?thesis by auto
  next
    case (Some m)
    with shortest_candidate_whole(1) [OF n l k Some] k show ?thesis by auto
  qed
qed simp

lemma js_number_text_whole:
  assumes "0 \<le> n" and "n < 10 ^ 15"
  shows "js_number_text (of_int n) = numeric_text n"
proof (cases "n = 0")
  case True
  then show ?thesis by (simp add: js_number_text_def numeric_text_def nat_text.simps)
next
  case False
  with assms have n: "0 < n" by simp
  let ?l = "int_length n"
  note b = int_length_bounds [OF n]
  have "?l \<le> 15"
  proof (rule ccontr)
    assume "\<not> ?l \<le> 15"
    then have "(10::int) ^ 15 \<le> 10 ^ (?l - 1)" by (intro power_increasing) auto
    with b assms show False by simp
  qed
  with b have in_range: "?l \<in> set [1..<18]" by auto
  have x: "decimal_exponent (of_int n) = int ?l" using n by (simp add: decimal_exponent_def)
  obtain m k where f: "shortest_decimal (of_int n) = (m, k)" "k \<le> ?l" "m * 10 ^ (?l - k) = n"
    using shortest_from_whole [OF n assms(2) refl in_range] by (auto simp: shortest_decimal_def x)
  have "0 < m * 10 ^ (?l - k)" using f(3) n by simp
  then have m: "0 < m" by (simp add: zero_less_mult_iff)
  then have "nat (m * 10 ^ (?l - k)) = nat m * 10 ^ (?l - k)" by (simp add: nat_mult_distrib nat_power_eq)
  then have "nat n = nat m * 10 ^ (?l - k)" using f(3) by simp
  with nat_text_shift [of "nat m" "?l - k"] m
  have "numeric_text n = numeric_text m @ replicate (?l - k) CHR ''0''"
    using n by (simp add: numeric_text_def)
  with f(1,2) n \<open>?l \<le> 15\<close> show ?thesis
    by (simp add: js_number_text_def positive_number_text_def x Let_def nat_diff_distrib flip: of_nat_diff)
qed

lemma whole_number_reads:
  assumes "0 \<le> n" and "n < 10 ^ 15"
  shows "number_reads (of_int n)"
proof -
  let ?t = "nat_text (nat n)"
  have t: "js_number_text (of_int n) = ?t" using assms by (simp add: js_number_text_whole numeric_text_def)
  have d: "list_all is_digit ?t" "?t \<noteq> []" by (simp_all add: nat_text_digits)
  have "hd ?t = CHR ''0'' \<longrightarrow> length ?t = 1"
    using nat_text_first [of "nat n"] assms(1) by (cases "n = 0") (auto simp: nat_text.simps [of 0])
  moreover have "?t = c # cs \<Longrightarrow> c \<noteq> CHR ''-''" for c cs
    using d by (auto simp: is_digit_def)
  ultimately have "json_number ?t"
    using d by (cases ?t) (auto simp: json_number_def takeWhile_all dropWhile_all fraction_part_def Let_def)
  moreover have "list_all number_char ?t" using d(1) by (auto simp: list_all_iff number_char_def)
  moreover have "js_Number ?t = Finite (of_int n)"
    using js_Number_digits [OF d(2,1)] double_of_int [of n] below_2_53 [of n] assms by (simp add: digits_value_nat_text)
  ultimately show ?thesis by (simp add: number_reads_def t)
qed

section \<open>UTF-8 and base64\<close>

text \<open>\<open>buffer.toString('utf-8')\<close>; bytes that are not UTF-8 decode to U+FFFD, outside the model.\<close>

fun utf8_text :: "nat list \<Rightarrow> string option" where
  "utf8_text [] = Some []"
| "utf8_text (b # bs) =
     (if b < 128 then map_option (Cons (char_of b)) (utf8_text bs)
      else (case bs of
              c # cs \<Rightarrow>
                if (b = 194 \<or> b = 195) \<and> 128 \<le> c \<and> c < 192
                then map_option (Cons (char_of ((b - 192) * 64 + (c - 128)))) (utf8_text cs)
                else None
            | [] \<Rightarrow> None))"

lemma utf8_round_trip: "utf8_text (utf8_bytes s) = Some s"
proof (induction s)
  case (Cons c s)
  let ?n = "of_char c :: nat"
  have c: "char_of ?n = c" by simp
  show ?case
  proof (cases "?n < 128")
    case True
    with Cons show ?thesis by (simp add: utf8_bytes_def)
  next
    case False
    have "2 \<le> ?n div 64" "?n div 64 < 4" using False by (simp_all add: div_less_iff_less_mult less_eq_div_iff_mult_less_eq)
    then have "?n div 64 = 2 \<or> ?n div 64 = 3" by linarith
    moreover have "char_of (?n div 64 * 64 + ?n mod 64) = c" by (simp only: div_mult_mod_eq c)
    ultimately show ?thesis
      using Cons False by (auto simp: utf8_bytes_def Let_def)
  qed
qed (simp add: utf8_bytes_def)

lemma base64_value_char: "base64_value (base64_char n) = Some (n mod 64)"
proof -
  have "\<forall>k\<in>set [0..<64]. base64_value (base64_alphabet ! k) = Some k"
    by (simp add: upt_rec base64_alphabet_def base64_value_def)
  then show ?thesis by (simp add: base64_char_def)
qed

fun sextets :: "nat list \<Rightarrow> nat list" where
  "sextets [] = []"
| "sextets [a] = [a div 4, a mod 4 * 16]"
| "sextets [a, b] = [a div 4, a mod 4 * 16 + b div 16, b mod 16 * 4]"
| "sextets (a # b # c # bs) =
     a div 4 # (a mod 4 * 16 + b div 16) # (b mod 16 * 4 + c div 64) # c mod 64 # sextets bs"

lemma sextet_bounds:
  fixes a b c :: nat
  shows "a < 256 \<Longrightarrow> a div 4 mod 64 = a div 4"
    and "b < 256 \<Longrightarrow> (a mod 4 * 16 + b div 16) mod 64 = a mod 4 * 16 + b div 16"
    and "c < 256 \<Longrightarrow> (b mod 16 * 4 + c div 64) mod 64 = b mod 16 * 4 + c div 64"
proof -
  have "a mod 4 < 4" "b mod 16 < 16" by simp_all
  moreover have "b < 256 \<Longrightarrow> b div 16 < 16" "c < 256 \<Longrightarrow> c div 64 < 4" by simp_all
  ultimately have "b < 256 \<Longrightarrow> a mod 4 * 16 + b div 16 < 64" "c < 256 \<Longrightarrow> b mod 16 * 4 + c div 64 < 64"
    by linarith+
  then show "b < 256 \<Longrightarrow> (a mod 4 * 16 + b div 16) mod 64 = a mod 4 * 16 + b div 16"
    "c < 256 \<Longrightarrow> (b mod 16 * 4 + c div 64) mod 64 = b mod 16 * 4 + c div 64" by simp_all
qed simp

lemma base64_sextets:
  "list_all (\<lambda>b. b < 256) bs \<Longrightarrow>
   List.map_filter base64_value (takeWhile (\<lambda>c. c \<noteq> CHR ''='') (base64 bs)) = sextets bs"
  by (induction bs rule: base64.induct)
     (simp_all add: base64_char_not_pad base64_value_char map_filter_simps sextet_bounds)

lemma sextets_bytes: "list_all (\<lambda>b. b < 256) bs \<Longrightarrow> base64_bytes (sextets bs) = bs"
  by (induction bs rule: sextets.induct) auto

lemma base64_round_trip: "list_all (\<lambda>b. b < 256) bs \<Longrightarrow> buffer_from_base64 (base64 bs) = bs"
  by (simp add: buffer_from_base64_def base64_sextets sextets_bytes)

end
