(* ===== verification/Payment_Header.thy ===== *)
theory Payment_Header
  imports Js_Json Request_Compat Networks
begin

text \<open>
  The signed payment header (\<open>services/signature.ts\<close>): decoding of
  \<open>scheme:network:base64(JSON)\<close>, the payer's signature over the canonical JSON of the payment, and the
  age of the payment.
\<close>

section \<open>Decoding\<close>

definition MAX_PAYMENT_HEADER_LENGTH :: nat where "MAX_PAYMENT_HEADER_LENGTH = 8192"
definition MAX_PAYER_LENGTH :: nat where "MAX_PAYER_LENGTH = 128"
definition MAX_NONCE_LENGTH :: nat where "MAX_NONCE_LENGTH = 64"
definition MAX_RESOURCE_LENGTH :: nat where "MAX_RESOURCE_LENGTH = 2048"
definition MAX_AMOUNT_LENGTH :: nat where "MAX_AMOUNT_LENGTH = 64"
definition MAX_SIGNATURE_LENGTH :: nat where "MAX_SIGNATURE_LENGTH = 512"
definition MAX_AUTH_SIGNATURE_LENGTH :: nat where "MAX_AUTH_SIGNATURE_LENGTH = 512"

record decoded_payment =
  dp_signature :: string
  dp_payer :: string
  dp_timestamp :: rat
  dp_nonce :: string
  dp_resource :: string
  dp_amount :: string
  dp_authSignature :: string

text \<open>The file's own \<open>asString\<close>, with a length limit.\<close>

definition asBoundedString :: "json option \<Rightarrow> nat \<Rightarrow> string option" where
  "asBoundedString v maxLen =
     (case v of
        Some (JStr s) \<Rightarrow>
          (let trimmed = js_trim s in
           if trimmed = [] \<or> maxLen < length trimmed then None else Some trimmed)
      | _ \<Rightarrow> None)"

definition payment_fields :: "json_object \<Rightarrow> decoded_payment option" where
  "payment_fields parsed =
     (case (asBoundedString (jget parsed ''signature'') MAX_SIGNATURE_LENGTH,
            asBoundedString (jget parsed ''payer'') MAX_PAYER_LENGTH,
            asNumber (jget parsed ''timestamp''),
            asBoundedString (jget parsed ''nonce'') MAX_NONCE_LENGTH,
            asBoundedString (jget parsed ''resource'') MAX_RESOURCE_LENGTH,
            asBoundedString (jget parsed ''amount'') MAX_AMOUNT_LENGTH,
            asBoundedString (jget parsed ''authSignature'') MAX_AUTH_SIGNATURE_LENGTH) of
        (Some signature, Some payer, Some timestamp, Some nonce, Some res, Some amount, Some authSignature) \<Rightarrow>
          Some \<lparr>dp_signature = signature, dp_payer = payer, dp_timestamp = timestamp, dp_nonce = nonce,
                dp_resource = res, dp_amount = amount, dp_authSignature = authSignature\<rparr>
      | _ \<Rightarrow> None)"

definition decodePaymentHeader :: "string \<Rightarrow> decoded_payment option" where
  "decodePaymentHeader header =
     (if header = [] \<or> MAX_PAYMENT_HEADER_LENGTH < length header then None
      else (let parts = js_split CHR '':'' header; payload = last parts in
            if length parts < 3 then None
            else if payload = [] \<or> MAX_PAYMENT_HEADER_LENGTH < length payload then None
            else (case utf8_text (buffer_from_base64 payload) of
                    None \<Rightarrow> None
                  | Some decoded \<Rightarrow>
                      (case asRecord (JSON_parse decoded) of
                         None \<Rightarrow> None
                       | Some parsed \<Rightarrow> payment_fields parsed))))"

section \<open>The payer's signature and the age of a payment\<close>

text \<open>\<open>JSON.stringify\<close> of the signed fields, in alphabetical order.\<close>

definition auth_object :: "decoded_payment \<Rightarrow> json_object" where
  "auth_object p =
     [(''amount'', JStr (dp_amount p)), (''nonce'', JStr (dp_nonce p)), (''payer'', JStr (dp_payer p)),
      (''resource'', JStr (dp_resource p)), (''signature'', JStr (dp_signature p)),
      (''timestamp'', JNum (dp_timestamp p))]"

definition auth_message :: "decoded_payment \<Rightarrow> string" where
  "auth_message p = JSON_stringify (JObj (auth_object p))"

definition verifyPaymentAuth :: "address_checks \<Rightarrow> signature_libs \<Rightarrow> decoded_payment \<Rightarrow> bool" where
  "verifyPaymentAuth ac sl p =
     (let authSig = buffer_from_base64 (dp_authSignature p); message = auth_message p in
      if ac_isAddress ac (dp_payer p) then
        (length authSig = 64 \<or> length authSig = 65)
        \<and> (case sl_verifyMessage sl message (''0x'' @ hex_text authSig) of
             None \<Rightarrow> False
           | Some recovered \<Rightarrow> js_lower recovered = js_lower (dp_payer p))
      else length authSig = 64 \<and> ac_isPublicKey ac (dp_payer p) \<and> sl_ed25519 sl message authSig (dp_payer p))"

text \<open>Small timestamps are seconds, large ones milliseconds.\<close>

definition isPaymentFresh :: "env \<Rightarrow> decoded_payment \<Rightarrow> int \<Rightarrow> bool" where
  "isPaymentFresh e p maxAgeMs =
     (let ts = (if dp_timestamp p < 1000000000000 then fl (dp_timestamp p * 1000) else dp_timestamp p);
          age = fl (of_int (env_date_now e) - ts) in
      0 \<le> age \<and> age \<le> of_int maxAgeMs)"

section \<open>What is written is read back\<close>

lemma utf8_bytes_range: "list_all (\<lambda>b. b < 256) (utf8_bytes s)"
proof (induction s)
  case (Cons c s)
  have "(of_char c :: nat) div 64 < 4" by (simp add: div_less_iff_less_mult)
  moreover have "(of_char c :: nat) mod 64 < 64" by simp
  ultimately show ?case using Cons by (simp add: utf8_bytes_def Let_def) linarith
qed (simp add: utf8_bytes_def)

lemma json_text_not_Nil: "JSON_stringify (JObj ob) \<noteq> []"
  by simp

lemma decode_encoded_text:
  "utf8_text (buffer_from_base64 (base64 (utf8_bytes s))) = Some s"
  by (simp add: base64_round_trip utf8_bytes_range utf8_round_trip)

lemma utf8_not_Nil: "s \<noteq> [] \<Longrightarrow> utf8_bytes s \<noteq> []"
  by (cases s) (auto simp: utf8_bytes_def Let_def)

text \<open>The parts of an encoded header: its last part is the payload.\<close>

lemma encoded_header_parts:
  fixes ob scheme network
  defines "payload \<equiv> base64 (utf8_bytes (JSON_stringify (JObj ob)))"
  shows "js_split CHR '':'' (encodeDecodedPaymentHeader ob scheme network)
         = js_split CHR '':'' (scheme @ CHR '':'' # network) @ [payload]"
    and "3 \<le> length (js_split CHR '':'' (encodeDecodedPaymentHeader ob scheme network))"
    and "payload \<noteq> []"
proof -
  have e: "encodeDecodedPaymentHeader ob scheme network = (scheme @ CHR '':'' # network) @ CHR '':'' # payload"
    by (simp add: encodeDecodedPaymentHeader_def payload_def)
  show split: "js_split CHR '':'' (encodeDecodedPaymentHeader ob scheme network)
         = js_split CHR '':'' (scheme @ CHR '':'' # network) @ [payload]"
    unfolding e by (rule js_split_snoc) (simp add: payload_def base64_no_colon)
  have "2 \<le> length (js_split CHR '':'' (scheme @ CHR '':'' # network))"
  proof (induction scheme)
    case Nil
    then show ?case by (cases "js_split CHR '':'' network") auto
  next
    case (Cons c s)
    then show ?case by (auto split: list.split)
  qed
  then show "3 \<le> length (js_split CHR '':'' (encodeDecodedPaymentHeader ob scheme network))"
    by (simp add: split)
  show "payload \<noteq> []" by (simp add: payload_def base64_not_Nil utf8_not_Nil)
qed

lemma header_of_parts:
  assumes "js_split CHR '':'' header = ps @ [payload]" and "2 \<le> length ps" and "payload \<noteq> []"
    and "header \<noteq> []" and "length header \<le> MAX_PAYMENT_HEADER_LENGTH"
    and "length payload \<le> MAX_PAYMENT_HEADER_LENGTH"
    and "utf8_text (buffer_from_base64 payload) = Some (JSON_stringify (JObj ob))" and "json_reads (JObj ob)"
  shows "decodePaymentHeader header = payment_fields ob"
  using assms JSON_parse_stringify [OF assms(8)]
  by (simp add: decodePaymentHeader_def Let_def asRecord_def not_less)

lemma decode_encoded_header:
  assumes "json_reads (JObj ob)"
    and "length (encodeDecodedPaymentHeader ob scheme network) \<le> MAX_PAYMENT_HEADER_LENGTH"
  shows "decodePaymentHeader (encodeDecodedPaymentHeader ob scheme network) = payment_fields ob"
proof -
  note parts = encoded_header_parts(1,2) [where ob = ob and scheme = scheme and network = network]
    encoded_header_parts(3) [where ob = ob]
  have l: "length (base64 (utf8_bytes (JSON_stringify (JObj ob)))) \<le> length (encodeDecodedPaymentHeader ob scheme network)"
    "encodeDecodedPaymentHeader ob scheme network \<noteq> []" by (simp_all add: encodeDecodedPaymentHeader_def)
  show ?thesis
    by (rule header_of_parts [OF parts(1) _ parts(3) l(2) assms(2) _ decode_encoded_text assms(1)])
       (use parts(1,2) l(1) assms(2) in simp_all)
qed

lemma scheme_encoded_header:
  assumes "CHR '':'' \<notin> set scheme"
  shows "parsePaymentScheme (encodeDecodedPaymentHeader ob scheme network) = Some (scheme, network)"
  using encoded_header_parts(1,2) [where ob = ob and scheme = scheme and network = network]
  by (simp add: parsePaymentScheme_def Let_def js_split_piece [OF assms])

text \<open>
  Claim C40. A payment sent as an object survives the adapter: re-encoding it as a header and decoding
  the header yields exactly its checked fields, and the header still names the scheme and the network,
  for every object whose numbers JSON can carry (\<open>json_reads\<close>, all whole numbers below 10^15 among
  them), every scheme without a colon and every network, up to the length limit of headers.
\<close>

theorem payment_header_roundtrip:
  assumes "json_reads (JObj ob)" and "CHR '':'' \<notin> set scheme"
    and "length (encodeDecodedPaymentHeader ob scheme network) \<le> MAX_PAYMENT_HEADER_LENGTH"
  shows "decodePaymentHeader (encodeDecodedPaymentHeader ob scheme network) = payment_fields ob
         \<and> parsePaymentScheme (encodeDecodedPaymentHeader ob scheme network) = Some (scheme, network)"
  using decode_encoded_header [OF assms(1,3)] scheme_encoded_header [OF assms(2)] by simp

definition sample_payment_object :: json_object where
  "sample_payment_object =
     [(''payer'', JStr ''pAyEr''), (''signature'', JStr ''c2ln''), (''timestamp'', JNum 1700000000000),
      (''nonce'', JStr ''n-1''), (''resource'', JStr ''/a?b=c''), (''amount'', JStr '' 0.25 ''),
      (''authSignature'', JStr ''YXV0aA=='')]"

definition sample_payment :: decoded_payment where
  "sample_payment =
     \<lparr>dp_signature = ''c2ln'', dp_payer = ''pAyEr'', dp_timestamp = 1700000000000, dp_nonce = ''n-1'',
      dp_resource = ''/a?b=c'', dp_amount = ''0.25'', dp_authSignature = ''YXV0aA==''\<rparr>"

lemma sample_payment_reads: "json_reads (JObj sample_payment_object)"
  using whole_number_reads [of 1700000000000] by (simp add: sample_payment_object_def)

lemma sample_payment_fields: "payment_fields sample_payment_object = Some sample_payment"
  by code_simp

lemma base64_length_le: "length (base64 bs) \<le> 2 * length bs + 2"
  by (induction bs rule: base64.induct) auto

lemma payment_header_roundtrip_witness:
  "decodePaymentHeader (encodeDecodedPaymentHeader sample_payment_object ''exact'' ''solana:mainnet'')
     = Some sample_payment
   \<and> parsePaymentScheme (encodeDecodedPaymentHeader sample_payment_object ''exact'' ''solana:mainnet'')
     = Some (''exact'', ''solana:mainnet'')"
proof -
  have t: "js_number_text 1700000000000 = ''1700000000000''"
  proof -
    have "numeric_text 1700000000000 = ''1700000000000''" by code_simp
    then show ?thesis using js_number_text_whole [of 1700000000000] by simp
  qed
  have "length (encodeDecodedPaymentHeader sample_payment_object ''exact'' ''solana:mainnet'') \<le> 8192"
    by (simp add: encodeDecodedPaymentHeader_def sample_payment_object_def t json_quote_def json_escape_def
        utf8_bytes_def Let_def)
  then show ?thesis
    using payment_header_roundtrip [OF sample_payment_reads, of "''exact''" "''solana:mainnet''"]
    by (simp add: sample_payment_fields MAX_PAYMENT_HEADER_LENGTH_def)
qed

text \<open>
  The payer signs exactly one payment: two payments whose signed messages are equal agree in
  amount, nonce, payer, resource, transaction signature and timestamp, for timestamps that are whole
  numbers below 10^15 (seconds or milliseconds).
\<close>

theorem signed_message_binds_payment:
  assumes "auth_message p = auth_message p'"
    and "dp_timestamp p = of_int t" and "0 \<le> t" and "t < 10 ^ 15"
    and "dp_timestamp p' = of_int t'" and "0 \<le> t'" and "t' < 10 ^ 15"
  shows "p' = p\<lparr>dp_authSignature := dp_authSignature p'\<rparr>"
proof -
  have "json_reads (JObj (auth_object p))" "json_reads (JObj (auth_object p'))"
    using whole_number_reads assms by (simp_all add: auth_object_def)
  then have "JObj (auth_object p) = JObj (auth_object p')"
    using assms(1) unfolding auth_message_def by (metis JSON_parse_stringify option.inject)
  then show ?thesis by (simp add: auth_object_def)
qed

lemma signed_message_binds_payment_witness:
  "auth_message (sample_payment\<lparr>dp_authSignature := ''other''\<rparr>) = auth_message sample_payment
   \<and> sample_payment = sample_payment\<lparr>dp_authSignature := ''other''\<rparr>\<lparr>dp_authSignature := ''YXV0aA==''\<rparr>"
proof -
  have e: "auth_message (sample_payment\<lparr>dp_authSignature := ''other''\<rparr>) = auth_message sample_payment"
    by (simp add: auth_message_def auth_object_def)
  show ?thesis
    using e signed_message_binds_payment [OF e, of 1700000000000 1700000000000]
    by (simp add: sample_payment_def)
qed

end
