(* ===== verification/Treasury_Transfer.thy ===== *)
theory Treasury_Transfer
  imports Delegated_Transfer
begin

text \<open>
  The transfers of direct payments: out of the facilitator's own account on Solana
  (\<open>settlePayment\<close> of \<open>services/settlement.ts\<close>) and on Base (\<open>settlePaymentBase\<close>), and out of the
  payer's account on Base under signed authorizations (\<open>settleAuthorizedPaymentBase\<close>, both
  \<open>services/base-settlement.ts\<close>).  As in Delegated_Transfer a result comes with the micro-USDC that
  have moved.  The configured treasury wallet on Solana is taken to be a valid key.
\<close>

section \<open>Units\<close>

text \<open>
  \<open>parseUnits(amount.toFixed(6), 6)\<close>: the nearest whole number of micro-USDC of the exact value of the
  double, the larger one in a tie.  From \<open>10 ^ 21\<close> on \<open>toFixed\<close> switches to exponent notation, which
  \<open>parseUnits\<close> refuses.  The amounts are positive.
\<close>

definition toBaseUnitsEvm :: "rat \<Rightarrow> int option" where
  "toBaseUnitsEvm amount = (if amount < 10 ^ 21 then Some \<lfloor>amount * 10 ^ 6 + 1 / 2\<rfloor> else None)"

text \<open>\<open>parseFloat(formatUnits(units, 6))\<close>.\<close>

definition fromBaseUnitsEvm :: "int \<Rightarrow> rat" where
  "fromBaseUnitsEvm units = fl (of_int units / 10 ^ 6)"

text \<open>
  What a settlement returns.  \<open>rc_feeTxHash\<close> is \<open>None\<close> when the property is absent from the result and
  \<open>Some None\<close> when it is \<open>null\<close>.
\<close>

record receipt =
  rc_txHash :: string
  rc_fee :: rat
  rc_net :: rat
  rc_feeTxHash :: "string option option"

type_synonym receipt_outcome = "(string + receipt) \<times> int"

section \<open>From the facilitator's account\<close>

text \<open>Solana: the merchant's and the treasury's shares travel in one transaction.\<close>

definition settlePayment :: "chain_view \<Rightarrow> rat \<Rightarrow> int \<Rightarrow> receipt_outcome" where
  "settlePayment ch amount feeBps =
     (let totalUnits = toBaseUnits amount; feeUnits = split_fee totalUnits feeBps;
          netUnits = split_net totalUnits feeBps;
          moved = netUnits + (if 0 < feeUnits then feeUnits else 0) in
      if ch_balance ch < totalUnits then (Inl ''Facilitator balance insufficient'', 0)
      else (case ch_net ch of
              Rejected msg \<Rightarrow> (Inl msg, 0)
            | Unconfirmed msg \<Rightarrow> (Inl msg, moved)
            | Confirmed txHash \<Rightarrow>
                (Inr \<lparr>rc_txHash = txHash, rc_fee = fromBaseUnits feeUnits, rc_net = fromBaseUnits netUnits,
                      rc_feeTxHash = None\<rparr>, moved)))"

text \<open>The fee leg on Base after a confirmed payment: its failure is ignored.\<close>

definition fee_leg :: "bool \<Rightarrow> chain_view \<Rightarrow> int \<Rightarrow> string option \<times> int" where
  "fee_leg treasuryValid ch feeUnits =
     (if 0 < feeUnits \<and> treasuryValid
      then (case ch_fee ch of Confirmed h \<Rightarrow> (Some h, feeUnits) | other \<Rightarrow> (None, moved_by other feeUnits))
      else (None, 0))"

definition settlePaymentBase ::
  "address_checks \<Rightarrow> bool \<Rightarrow> chain_view \<Rightarrow> string \<Rightarrow> rat \<Rightarrow> int \<Rightarrow> receipt_outcome" where
  "settlePaymentBase ac treasuryValid ch merchantAddress amount feeBps =
     (if \<not> ac_isAddress ac merchantAddress then (Inl ''Invalid Base address'', 0)
      else (case toBaseUnitsEvm amount of
              None \<Rightarrow> (Inl ''invalid FixedNumber string value'', 0)
            | Some totalUnits \<Rightarrow>
                (let feeUnits = split_fee totalUnits feeBps; netUnits = split_net totalUnits feeBps in
                 if netUnits \<le> 0 then (Inl ''Net amount after fees is zero or negative'', 0)
                 else if ch_balance ch < totalUnits then (Inl ''Facilitator Base USDC balance insufficient'', 0)
                 else (case ch_net ch of
                         Rejected msg \<Rightarrow> (Inl msg, 0)
                       | Unconfirmed msg \<Rightarrow> (Inl msg, netUnits)
                       | Confirmed txHash \<Rightarrow>
                           (Inr \<lparr>rc_txHash = txHash, rc_fee = fromBaseUnitsEvm feeUnits,
                                 rc_net = fromBaseUnitsEvm netUnits, rc_feeTxHash = None\<rparr>,
                            netUnits + snd (fee_leg treasuryValid ch feeUnits))))))"

section \<open>From the payer's account, under authorizations\<close>

definition settleAuthorizedPaymentBase ::
  "address_checks \<Rightarrow> bool \<Rightarrow> chain_view \<Rightarrow> string \<Rightarrow> string \<Rightarrow> int \<Rightarrow> int \<Rightarrow> bool \<Rightarrow> transfer_outcome" where
  "settleAuthorizedPaymentBase ac treasuryValid ch payerAddress merchantAddress totalMicro feeBps hasFeeAuth =
     (let feeMicro = split_fee totalMicro feeBps; netMicro = split_net totalMicro feeBps in
      if \<not> ac_isAddress ac payerAddress then (Inl ''Invalid payer Base address'', 0)
      else if \<not> ac_isAddress ac merchantAddress then (Inl ''Invalid merchant Base address'', 0)
      else if totalMicro \<le> 0 then (Inl ''Amount must be positive'', 0)
      else if netMicro \<le> 0 then (Inl ''Net amount after fees is zero or negative'', 0)
      else if ch_balance ch < totalMicro then (Inl ''Payer Base USDC balance insufficient'', 0)
      else (case ch_net ch of
              Rejected msg \<Rightarrow> (Inl msg, 0)
            | Unconfirmed msg \<Rightarrow> (Inl msg, netMicro)
            | Confirmed txHash \<Rightarrow>
                if 0 < feeMicro \<and> treasuryValid \<and> \<not> hasFeeAuth then (Inl ''Missing fee authorization'', netMicro)
                else (let (feeTx, feeMoved) = fee_leg treasuryValid ch feeMicro in
                      (Inr \<lparr>oc_txHash = txHash, oc_feeMicro = feeMicro, oc_netMicro = netMicro,
                            oc_feeTxHash = feeTx\<rparr>, netMicro + feeMoved))))"

section \<open>Lemmas\<close>

lemma fee_leg_range: "0 \<le> fee \<Longrightarrow> 0 \<le> snd (fee_leg tv ch fee) \<and> snd (fee_leg tv ch fee) \<le> fee"
  by (auto simp: fee_leg_def moved_by_range split: send_result.split)

text \<open>
  An authorized transfer moves no more than the total, and with a definite answer of the chain and
  the fee authorization at hand an error means that nothing moved.
\<close>

lemma settle_authorized_ok:
  assumes "0 \<le> b" and "hfa \<or> \<not> (0 < split_fee t b \<and> tv)"
  shows "outcome_ok (max t 0) (definite ch) (settleAuthorizedPaymentBase ac tv ch p m t b hfa)"
proof (cases "0 < t")
  case True
  note f = split_fee_nonneg [OF True assms(1)]
  with fee_leg_range [OF f, of tv ch] split_sum [of t b] True assms(2) show ?thesis
    by (auto simp: settleAuthorizedPaymentBase_def Let_def outcome_ok_def definite_def
        split: send_result.splits prod.splits)
next
  case False
  then show ?thesis by (auto simp: settleAuthorizedPaymentBase_def Let_def outcome_ok_def)
qed

end
