(* ===== verification/Direct_Settle.thy ===== *)
theory Direct_Settle
  imports Session_Settle Session_Routes Payment_Header Treasury_Transfer
begin

text \<open>
  The direct branch of \<open>POST /settle\<close> (\<open>routes/settle.ts\<close>): a payment with a signed header, paid out by
  the facilitator or, on Base, pulled from the payer under \<open>transferWithAuthorization\<close>.  It shares the
  nonce guard with the session branch, and a request that the session model leaves at \<open>Elsewhere\<close>
  goes on here.
\<close>

section \<open>USDC authorizations\<close>

record transfer_auth =
  ta_validAfter :: int
  ta_validBefore :: int
  ta_nonce :: string
  ta_signature :: string

definition trimmed_text :: "json option \<Rightarrow> string" where
  "trimmed_text v = js_trim (json_text v)"

definition parseTransferWithAuthorization :: "json option \<Rightarrow> string \<Rightarrow> string + transfer_auth option" where
  "parseTransferWithAuthorization input label =
     (case input of
        None \<Rightarrow> Inr None
      | Some JNull \<Rightarrow> Inr None
      | Some (JObj r) \<Rightarrow>
          if jget r ''kind'' \<noteq> Some (JStr ''transferWithAuthorization'')
          then Inl (''Unsupported '' @ label @ ''.kind'')
          else (case (BigInt_of_json (jget r ''validAfter''), BigInt_of_json (jget r ''validBefore'')) of
                  (Some validAfter, Some validBefore) \<Rightarrow>
                    (let nonce = trimmed_text (jget r ''nonce''); signature = trimmed_text (jget r ''signature'') in
                     if \<not> hex_string 64 nonce then Inl (''Invalid '' @ label @ ''.nonce'')
                     else if \<not> hex_string 130 signature then Inl (''Invalid '' @ label @ ''.signature'')
                     else Inr (Some \<lparr>ta_validAfter = validAfter, ta_validBefore = validBefore,
                                     ta_nonce = nonce, ta_signature = signature\<rparr>))
                | _ \<Rightarrow> Inl (''Invalid '' @ label @ '' validity window''))
      | Some _ \<Rightarrow> Inl (''Invalid '' @ label))"

text \<open>
  What the other packages answer to a direct request: the code at the payer's address, the contract
  of the EIP-712 domain, the address recovered from typed data (or an exception), and the \<open>code\<close>
  property of an error that a chain call throws.
\<close>

record direct_world = surroundings +
  dw_code :: "string + string"
  dw_verifyingContract :: "string + string"
  dw_recover :: "string \<Rightarrow> string \<Rightarrow> int \<Rightarrow> transfer_auth \<Rightarrow> string + string"
  dw_errorCode :: string

record direct_config = facilitator_config +
  dc_libs :: signature_libs
  dc_MAX_PAYMENT_AGE_MS :: int
  dc_baseTreasury :: string

definition BASE_USDC :: string where
  "BASE_USDC = ''0x833589fCD6eDb6E08f4c7C32D4f71b54bdA02913''"

definition verifyTransferWithAuthorization ::
  "direct_world \<Rightarrow> string \<Rightarrow> string \<Rightarrow> int \<Rightarrow> transfer_auth \<Rightarrow> string + bool" where
  "verifyTransferWithAuthorization w from' to' val auth =
     (case dw_recover w from' to' val auth of
        Inl msg \<Rightarrow> Inl msg
      | Inr recovered \<Rightarrow> Inr (js_lower recovered = js_lower from'))"

section \<open>The checks before the nonce\<close>

record direct_admitted =
  da_payment :: decoded_payment
  da_network :: string
  da_merchant :: string
  da_resource :: string
  da_amount :: rat
  da_requirementAmountRaw :: "string option"
  da_body :: json_object

definition direct_key :: "direct_admitted \<Rightarrow> string \<times> string" where
  "direct_key a = (dp_payer (da_payment a), dp_nonce (da_payment a))"

text \<open>\<open>String(Math.round(legacyAmount * 1_000_000))\<close>.\<close>

definition legacy_amount_text :: "rat \<Rightarrow> string" where
  "legacy_amount_text x =
     (case double_of (x * 10 ^ 6) of
        Finite y \<Rightarrow> js_number_text (of_int (js_Math_round y))
      | _ \<Rightarrow> ''Infinity'')"

definition direct_amount ::
  "direct_config \<Rightarrow> settle_input \<Rightarrow> string option \<Rightarrow> string \<Rightarrow> decoded_payment \<Rightarrow> settle_response + rat" where
  "direct_amount dc inp apiMerchant network p =
     (let failure = (\<lambda>status reason msg. Inl (sendSettleFailure status reason msg network (Some (dp_payer p)))) in
      case js_Number (dp_amount p) of
        Finite signedAmountRaw \<Rightarrow>
          if signedAmountRaw \<le> 0 then failure 400 ''invalid_amount'' ''Invalid amount''
          else (case parseSignedUsdcAmount (dp_amount p)
                       (if si_mode inp = X402 then si_requirementAmountRaw inp
                        else Some (legacy_amount_text (case si_amount inp of Some x \<Rightarrow> x | None \<Rightarrow> 0))) of
                  None \<Rightarrow> failure 400 ''amount_mismatch''
                            (if si_mode inp = X402 then ''Amount mismatch with payment requirements''
                             else ''Amount mismatch with signed payload'')
                | Some signedAmount \<Rightarrow>
                    (let amount = (if si_mode inp = X402 then signedAmount
                                   else (case si_amount inp of Some x \<Rightarrow> x | None \<Rightarrow> 0)) in
                     if (case si_requirementResource inp of
                           None \<Rightarrow> False | Some r \<Rightarrow> r \<noteq> [] \<and> dp_resource p \<noteq> [] \<and> r \<noteq> dp_resource p)
                     then failure 400 ''resource_mismatch'' ''Resource mismatch with payment requirements''
                     else if cf_MAX_SETTLEMENT_AMOUNT dc < amount
                     then failure 400 ''amount_exceeds_limit'' ''Amount exceeds limit''
                     else if si_mode inp = Legacy \<and> toBaseUnits signedAmount \<noteq> toBaseUnits amount
                     then failure 400 ''amount_mismatch'' ''Amount mismatch with signed payload''
                     else if apiMerchant \<noteq> Some (si_merchantWallet inp)
                     then failure 403 ''merchant_mismatch'' ''Merchant wallet does not match API key''
                     else if network = BASE_MAINNET_CAIP2 \<and> \<not> ac_isAddress (cf_checks dc) (si_merchantWallet inp)
                     then failure 400 ''invalid_wallet'' ''Invalid Base wallet address''
                     else if network \<noteq> BASE_MAINNET_CAIP2 \<and> \<not> ac_isPublicKey (cf_checks dc) (si_merchantWallet inp)
                     then failure 400 ''invalid_wallet'' ''Invalid Solana wallet address''
                     else Inr amount))
      | _ \<Rightarrow> failure 400 ''invalid_amount'' ''Invalid amount'')"

definition direct_check ::
  "direct_config \<Rightarrow> env \<Rightarrow> json_object \<Rightarrow> settle_input \<Rightarrow> string \<Rightarrow> string option
   \<Rightarrow> settle_response + direct_admitted" where
  "direct_check dc e body inp network apiMerchant =
     (if si_mode inp = Legacy \<and> (case si_amount inp of None \<Rightarrow> True | Some x \<Rightarrow> x \<le> 0) then
        Inl (sendSettleFailure 400 ''invalid_amount'' ''Invalid amount'' network None)
      else
        (case decodePaymentHeader (si_paymentHeader inp) of
           None \<Rightarrow> Inl (sendSettleFailure 400 ''invalid_payment_payload'' ''Malformed payment header'' network None)
         | Some p \<Rightarrow>
             (let failure = (\<lambda>reason msg. Inl (sendSettleFailure 400 reason msg network (Some (dp_payer p)))) in
              if \<not> isPaymentFresh e p (dc_MAX_PAYMENT_AGE_MS dc) then failure ''payment_expired'' ''Payment expired''
              else if \<not> verifyPaymentAuth (cf_checks dc) (dc_libs dc) p
              then failure ''invalid_signature'' ''Invalid signature''
              else if \<not> isValidPayerForNetwork (cf_checks dc) (dp_payer p) network
              then failure ''invalid_payer_wallet'' ''Invalid payer wallet for network''
              else (case direct_amount dc inp apiMerchant network p of
                      Inl r \<Rightarrow> Inl r
                    | Inr amount \<Rightarrow>
                        Inr \<lparr>da_payment = p, da_network = network, da_merchant = si_merchantWallet inp,
                             da_resource = (if dp_resource p \<noteq> [] then dp_resource p
                                            else or_text (si_requirementResource inp) []),
                             da_amount = amount, da_requirementAmountRaw = si_requirementAmountRaw inp,
                             da_body = body\<rparr>))))"

section \<open>A payment under authorizations\<close>

text \<open>Errors of this part are a message and the \<open>code\<close> of the exception.\<close>

type_synonym coded_error = "string \<times> string"

definition try_then :: "coded_error + 'a \<Rightarrow> ('a \<Rightarrow> coded_error + 'b) \<Rightarrow> coded_error + 'b" where
  "try_then r k = (case r of Inl err \<Rightarrow> Inl err | Inr x \<Rightarrow> k x)"

definition demand :: "bool \<Rightarrow> string \<Rightarrow> coded_error + unit" where
  "demand c msg = (if c then Inr () else Inl (msg, []))"

definition external :: "direct_world \<Rightarrow> string + 'a \<Rightarrow> coded_error + 'a" where
  "external w r = (case r of Inl msg \<Rightarrow> Inl (msg, dw_errorCode w) | Inr x \<Rightarrow> Inr x)"

text \<open>The total to be moved: the requirement read exactly, or the legacy amount.\<close>

definition authorized_total :: "direct_admitted \<Rightarrow> int option" where
  "authorized_total a =
     (case da_requirementAmountRaw a of
        Some raw \<Rightarrow> if raw \<noteq> [] then parseUsdcMicroAmountBigint raw else Some (toBaseUnits (da_amount a))
      | None \<Rightarrow> Some (toBaseUnits (da_amount a)))"

definition check_window :: "env \<Rightarrow> transfer_auth \<Rightarrow> string \<Rightarrow> coded_error + unit" where
  "check_window e auth label =
     (let nowSeconds = env_date_now e div 1000 in
      try_then (demand (ta_validAfter auth \<le> nowSeconds) (label @ ''.validAfter is in the future'')) (\<lambda>_.
      demand (nowSeconds < ta_validBefore auth) (label @ ''.validBefore already expired'')))"

definition check_signed ::
  "direct_world \<Rightarrow> string \<Rightarrow> string \<Rightarrow> int \<Rightarrow> transfer_auth \<Rightarrow> string \<Rightarrow> coded_error + unit" where
  "check_signed w from' to' val auth label =
     try_then (external w (verifyTransferWithAuthorization w from' to' val auth)) (\<lambda>ok.
     demand ok (''Invalid '' @ label @ '' signature''))"

definition check_fee_authorization ::
  "direct_config \<Rightarrow> direct_world \<Rightarrow> direct_admitted \<Rightarrow> transfer_auth \<Rightarrow> transfer_auth option \<Rightarrow> int
   \<Rightarrow> coded_error + bool" where
  "check_fee_authorization dc w a transferAuth feeAuth feeMicro =
     (if 0 < feeMicro \<and> cf_treasuryValid dc then
        (case feeAuth of
           None \<Rightarrow> Inl (''Missing usdcFeeAuthorization'', [])
         | Some fa \<Rightarrow>
             try_then (demand (js_lower (ta_nonce fa) \<noteq> js_lower (ta_nonce transferAuth))
               ''usdcFeeAuthorization.nonce must be different from usdcAuthorization.nonce'') (\<lambda>_.
             try_then (check_window (or_env w) fa ''usdcFeeAuthorization'') (\<lambda>_.
             try_then (check_signed w (dp_payer (da_payment a)) (dc_baseTreasury dc) feeMicro fa
               ''usdcFeeAuthorization'') (\<lambda>_. Inr True))))
      else Inr False)"

definition authorized_checks ::
  "direct_config \<Rightarrow> direct_world \<Rightarrow> direct_admitted \<Rightarrow> transfer_auth \<Rightarrow> transfer_auth option \<Rightarrow> int
   \<Rightarrow> coded_error + (int \<times> bool)" where
  "authorized_checks dc w a transferAuth feeAuth feeBps =
     (let payer = dp_payer (da_payment a); paymentNonce = dp_nonce (da_payment a) in
      try_then (external w (dw_code w)) (\<lambda>code.
      try_then (demand (code = [] \<or> code = ''0x'') ''Payer must be an EOA for transferWithAuthorization'') (\<lambda>_.
      (case authorized_total a of
         None \<Rightarrow> Inl (''Invalid amount'', [])
       | Some totalMicro \<Rightarrow>
           (let feeMicro = split_fee totalMicro feeBps; netMicro = split_net totalMicro feeBps in
            try_then (demand (0 < netMicro) ''Net amount after fees is zero or negative'') (\<lambda>_.
            try_then (check_window (or_env w) transferAuth ''usdcAuthorization'') (\<lambda>_.
            try_then (demand (hex_string 64 paymentNonce \<longrightarrow>
                                js_lower (ta_nonce transferAuth) = js_lower paymentNonce)
              ''usdcAuthorization.nonce does not match payment nonce'') (\<lambda>_.
            try_then (external w (dw_verifyingContract w)) (\<lambda>contract.
            try_then (demand (js_lower contract = js_lower BASE_USDC)
              ''Unexpected USDC verifyingContract'') (\<lambda>_.
            try_then (check_signed w payer (da_merchant a) netMicro transferAuth ''usdcAuthorization'') (\<lambda>_.
            try_then (check_fee_authorization dc w a transferAuth feeAuth feeMicro) (\<lambda>hasFeeAuth.
            Inr (totalMicro, hasFeeAuth)))))))))))))"

definition authorized_payment ::
  "direct_config \<Rightarrow> direct_world \<Rightarrow> direct_admitted \<Rightarrow> transfer_auth \<Rightarrow> transfer_auth option \<Rightarrow> int
   \<Rightarrow> (coded_error + receipt) \<times> int" where
  "authorized_payment dc w a transferAuth feeAuth feeBps =
     (case authorized_checks dc w a transferAuth feeAuth feeBps of
        Inl err \<Rightarrow> (Inl err, 0)
      | Inr (totalMicro, hasFeeAuth) \<Rightarrow>
          (case settleAuthorizedPaymentBase (cf_checks dc) (cf_treasuryValid dc) (or_chain w)
                  (dp_payer (da_payment a)) (da_merchant a) totalMicro feeBps hasFeeAuth of
             (Inl msg, moved) \<Rightarrow> (Inl (msg, dw_errorCode w), moved)
           | (Inr oc, moved) \<Rightarrow>
               (Inr \<lparr>rc_txHash = oc_txHash oc, rc_fee = fromBaseUnits (oc_feeMicro oc),
                     rc_net = fromBaseUnits (oc_netMicro oc), rc_feeTxHash = Some (oc_feeTxHash oc)\<rparr>, moved)))"

text \<open>\<open>includes\<close> and the classification of an error as the upstream's or the client's fault.\<close>

fun js_includes :: "string \<Rightarrow> string \<Rightarrow> bool" where
  "js_includes [] sub = (sub = [])"
| "js_includes (c # cs) sub = (take (length sub) (c # cs) = sub \<or> js_includes cs sub)"

definition is_upstream :: "coded_error \<Rightarrow> bool" where
  "is_upstream err =
     (let lower = js_lower (fst err); code = snd err in
      js_includes code ''NETWORK'' \<or> js_includes code ''TIMEOUT'' \<or> js_includes lower ''timed out''
      \<or> js_includes lower ''timeout'' \<or> js_includes lower ''econn'' \<or> js_includes lower ''socket''
      \<or> js_includes lower ''fetch'')"

definition authorization_failure :: "direct_admitted \<Rightarrow> coded_error \<Rightarrow> settle_response" where
  "authorization_failure a err =
     (let upstream = is_upstream err in
      sendSettleFailure (if upstream then 502 else 400)
        (if upstream then ''upstream_error'' else ''invalid_usdc_authorization'')
        ((if upstream then ''Upstream error'' else ''Invalid USDC authorization'') @ '': '' @ fst err)
        (da_network a) (Some (dp_payer (da_payment a))))"

section \<open>One request, step by step\<close>

datatype direct_phase =
    DArrived "json option" "string option"
  | DElsewhere
  | DAdmitted direct_admitted
  | DReplay direct_admitted
  | DReplayRead direct_admitted string "string option"
  | DNonceHeld direct_admitted
  | DRecorded direct_admitted string
  | DPricing direct_admitted string
  | DPaying direct_admitted string pricing
  | DAuthFailing direct_admitted string settle_response
  | DNonceDropping direct_admitted settle_response
  | DPaid direct_admitted string pricing receipt
  | DConfirming direct_admitted string pricing receipt
  | DLedgered direct_admitted string pricing receipt
  | DSalvaging direct_admitted pricing receipt
  | DFailing direct_admitted string string
  | DDone "settle_response option"

definition direct_refuse :: "direct_admitted \<Rightarrow> nat \<Rightarrow> string \<Rightarrow> string \<Rightarrow> settle_response" where
  "direct_refuse a status reason msg =
     sendSettleFailure status reason msg (da_network a) (Some (dp_payer (da_payment a)))"

text \<open>
  The common prefix of the handler; a session or Kizuna request belongs to the other branches.
\<close>

definition direct_admit :: "direct_config \<Rightarrow> direct_world \<Rightarrow> json option \<Rightarrow> string option \<Rightarrow> direct_phase" where
  "direct_admit dc w body apiMerchant =
     (case settle_prefix (facilitator_config.truncate dc) body of
        Inl r \<Rightarrow> DDone (Some r)
      | Inr (inp, scheme, network) \<Rightarrow>
          if si_requirementKizuna inp \<noteq> None \<or> scheme = ''session'' then DElsewhere
          else (case direct_check dc (or_env w) (case asRecord body of Some r \<Rightarrow> r | None \<Rightarrow> []) inp network
                       apiMerchant of
                  Inl r \<Rightarrow> DDone (Some r)
                | Inr a \<Rightarrow> DAdmitted a))"

definition direct_reserve :: "direct_world \<Rightarrow> direct_admitted \<Rightarrow> db \<Rightarrow> direct_phase \<times> db" where
  "direct_reserve w a d =
     (case stmt (surroundings.truncate w)
             (reservePaymentNonce (or_env w) (dp_payer (da_payment a)) (dp_nonce (da_payment a)) ''settle''
                (da_network a) (da_resource a) (da_amount a)) d of
        (Inl _, d') \<Rightarrow> (DDone None, d')
      | (Inr fresh, d') \<Rightarrow> (if fresh then DNonceHeld a else DReplay a, d'))"

definition direct_replay :: "direct_world \<Rightarrow> direct_admitted \<Rightarrow> db \<Rightarrow> direct_phase" where
  "direct_replay w a d =
     (let refused = DDone (Some (direct_refuse a 409 ''replayed_payment'' ''Payment nonce already used'')) in
      case (if or_dbFails w then None
            else getPaymentNonceGuard (dp_payer (da_payment a)) (dp_nonce (da_payment a)) d) of
        None \<Rightarrow> refused
      | Some g \<Rightarrow> (case ng_tx_hash g of
                     None \<Rightarrow> refused
                   | Some h \<Rightarrow> if h = [] then refused else DReplayRead a h (ng_settlement_id g)))"

definition direct_replay_response :: "direct_admitted \<Rightarrow> string \<Rightarrow> settlement_row option \<Rightarrow> settle_response" where
  "direct_replay_response a txHash found =
     (let amountFromDb = (case found of Some st \<Rightarrow> fl (st_amount st) | None \<Rightarrow> da_amount a);
          feeFromDb = (case found of Some st \<Rightarrow> fl (st_fee_amount st) | None \<Rightarrow> 0) in
      SettleSuccess \<lparr>ok_txHash = txHash, ok_payer = dp_payer (da_payment a), ok_amount = amountFromDb,
        ok_fee = feeFromDb, ok_net = fl (amountFromDb - feeFromDb), ok_network = da_network a,
        ok_idempotent = True, ok_feeDiscount = None\<rparr>)"

definition direct_paid_response :: "direct_admitted \<Rightarrow> pricing \<Rightarrow> receipt \<Rightarrow> settle_response" where
  "direct_paid_response a p rc =
     SettleSuccess \<lparr>ok_txHash = rc_txHash rc, ok_payer = dp_payer (da_payment a), ok_amount = da_amount a,
       ok_fee = rc_fee rc, ok_net = rc_net rc, ok_network = da_network a, ok_idempotent = False,
       ok_feeDiscount = (if 0 < pg_discountPct p then Some (pg_discountPct p, pg_feeBps p) else None)\<rparr>"

text \<open>The authorizations of the body, read in this order; only Base payments have them.\<close>

definition direct_authorizations :: "direct_admitted \<Rightarrow> string + (transfer_auth option \<times> transfer_auth option)" where
  "direct_authorizations a =
     (case parseTransferWithAuthorization (jget (da_body a) ''usdcAuthorization'') ''usdcAuthorization'' of
        Inl msg \<Rightarrow> Inl msg
      | Inr transferAuth \<Rightarrow>
          (case parseTransferWithAuthorization (jget (da_body a) ''usdcFeeAuthorization'') ''usdcFeeAuthorization'' of
             Inl msg \<Rightarrow> Inl msg
           | Inr feeAuth \<Rightarrow> Inr (transferAuth, feeAuth)))"

definition treasury_payment :: "direct_admitted \<Rightarrow> string \<Rightarrow> pricing \<Rightarrow> receipt_outcome \<Rightarrow> direct_phase \<times> int" where
  "treasury_payment a sid p r =
     (case r of (Inl msg, moved) \<Rightarrow> (DFailing a sid msg, moved) | (Inr rc, moved) \<Rightarrow> (DPaid a sid p rc, moved))"

definition direct_pay ::
  "direct_config \<Rightarrow> direct_world \<Rightarrow> direct_admitted \<Rightarrow> string \<Rightarrow> pricing \<Rightarrow> direct_phase \<times> int" where
  "direct_pay dc w a sid p =
     (if da_network a = BASE_MAINNET_CAIP2 then
        (case direct_authorizations a of
           Inl msg \<Rightarrow>
             (DAuthFailing a sid (direct_refuse a 400 ''invalid_usdc_authorization''
                (''Invalid USDC authorization: '' @ msg)), 0)
         | Inr (Some transferAuth, feeAuth) \<Rightarrow>
             (case authorized_payment dc w a transferAuth feeAuth (pg_feeBps p) of
                (Inl err, moved) \<Rightarrow> (DAuthFailing a sid (authorization_failure a err), moved)
              | (Inr rc, moved) \<Rightarrow> (DPaid a sid p rc, moved))
         | Inr (None, _) \<Rightarrow>
             treasury_payment a sid p
               (settlePaymentBase (cf_checks dc) (cf_treasuryValid dc) (or_chain w) (da_merchant a)
                  (da_amount a) (pg_feeBps p)))
      else treasury_payment a sid p (settlePayment (or_chain w) (da_amount a) (pg_feeBps p)))"

definition next_phase :: "(error + 'a) \<times> db \<Rightarrow> 'p \<Rightarrow> 'p \<Rightarrow> 'p \<times> db" where
  "next_phase r ok failed = (case r of (Inl _, d') \<Rightarrow> (failed, d') | (Inr _, d') \<Rightarrow> (ok, d'))"

definition direct_record :: "direct_world \<Rightarrow> direct_admitted \<Rightarrow> db \<Rightarrow> direct_phase \<times> db" where
  "direct_record w a d =
     (case stmt (surroundings.truncate w)
             (insertSettlement (or_env w) (or_uuid w) (da_merchant a) (dp_payer (da_payment a)) (da_amount a) 0
                ''USDC'' [] SettlementPending (da_network a)) d of
        (Inl _, d') \<Rightarrow> (DDone None, d')
      | (Inr st, d') \<Rightarrow> (DRecorded a (st_id st), d'))"

definition direct_treasury_tx :: "receipt \<Rightarrow> string option" where
  "direct_treasury_tx rc = (case rc_feeTxHash rc of None \<Rightarrow> Some (rc_txHash rc) | Some feeTx \<Rightarrow> feeTx)"

definition direct_failed :: "direct_admitted \<Rightarrow> string \<Rightarrow> settle_response" where
  "direct_failed a msg = direct_refuse a 500 ''settlement_failed'' (''Settlement failed: '' @ msg)"

text \<open>
  As in the session branch: one statement or chain call per step, a failed query outside every
  \<open>try\<close> goes to the error handler of the application, a caught one is ignored, and one inside the outer \<open>try\<close> ends in
  its \<open>catch\<close>, which marks the settlement as failed but keeps the nonce.
\<close>

fun direct_step ::
  "direct_config \<Rightarrow> direct_world \<Rightarrow> direct_phase \<Rightarrow> db \<Rightarrow> (direct_phase \<times> db) \<times> int" where
  "direct_step dc w (DArrived body apiMerchant) d = ((direct_admit dc w body apiMerchant, d), 0)"
| "direct_step dc w DElsewhere d = ((DElsewhere, d), 0)"
| "direct_step dc w (DAdmitted a) d = (direct_reserve w a d, 0)"
| "direct_step dc w (DReplay a) d = ((direct_replay w a d, d), 0)"
| "direct_step dc w (DReplayRead a h sid) d =
     ((DDone (Some (direct_replay_response a h
         (case sid of None \<Rightarrow> None | Some i \<Rightarrow> if or_dbFails w then None else getSettlementById i d))), d), 0)"
| "direct_step dc w (DNonceHeld a) d = (direct_record w a d, 0)"
| "direct_step dc w (DRecorded a sid) d =
     (next_phase (stmt (surroundings.truncate w)
        (setPaymentNonceSettlementId (dp_payer (da_payment a)) (dp_nonce (da_payment a)) sid) d)
        (DPricing a sid) (DPricing a sid), 0)"
| "direct_step dc w (DPricing a sid) d =
     ((if or_dbFails w then DFailing a sid ''query failed''
       else DPaying a sid (price (facilitator_config.truncate dc) (surroundings.truncate w)), d), 0)"
| "direct_step dc w (DPaying a sid p) d = ((fst (direct_pay dc w a sid p), d), snd (direct_pay dc w a sid p))"
| "direct_step dc w (DAuthFailing a sid r) d =
     (next_phase (stmt (surroundings.truncate w) (updateSettlementStatus sid SettlementFailed None) d)
        (DNonceDropping a r) (DFailing a sid ''query failed''), 0)"
| "direct_step dc w (DNonceDropping a r) d =
     (next_phase (stmt (surroundings.truncate w)
        (deletePaymentNonceGuard (dp_payer (da_payment a)) (dp_nonce (da_payment a))) d)
        (DDone (Some r)) (DDone (Some r)), 0)"
| "direct_step dc w (DPaid a sid p rc) d =
     (next_phase (stmt (surroundings.truncate w) (updateSettlementConfirmed sid (rc_txHash rc) (rc_fee rc)) d)
        (DConfirming a sid p rc) (DSalvaging a p rc), 0)"
| "direct_step dc w (DConfirming a sid p rc) d =
     (next_phase (stmt (surroundings.truncate w)
        (insertFeeLedger (Some sid) None ''settlement'' (rc_fee rc) (direct_treasury_tx rc)) d)
        (DLedgered a sid p rc) (DSalvaging a p rc), 0)"
| "direct_step dc w (DLedgered a sid p rc) d =
     (next_phase (stmt (surroundings.truncate w)
        (setPaymentNonceTxHash (dp_payer (da_payment a)) (dp_nonce (da_payment a)) (rc_txHash rc)) d)
        (DDone (Some (direct_paid_response a p rc))) (DSalvaging a p rc), 0)"
| "direct_step dc w (DSalvaging a p rc) d =
     (next_phase (stmt (surroundings.truncate w)
        (setPaymentNonceTxHash (dp_payer (da_payment a)) (dp_nonce (da_payment a)) (rc_txHash rc)) d)
        (DDone (Some (direct_paid_response a p rc))) (DDone (Some (direct_paid_response a p rc))), 0)"
| "direct_step dc w (DFailing a sid msg) d =
     (next_phase (stmt (surroundings.truncate w) (updateSettlementStatus sid SettlementFailed None) d)
        (DDone (Some (direct_failed a msg))) (DDone None), 0)"
| "direct_step dc w (DDone r) d = ((DDone r, d), 0)"

section \<open>What a step does to nonces\<close>

text \<open>The request that holds a reserved nonce under which nothing has been paid.\<close>

fun direct_holder :: "direct_phase \<Rightarrow> direct_admitted option" where
  "direct_holder (DNonceHeld a) = Some a"
| "direct_holder (DRecorded a _) = Some a"
| "direct_holder (DPricing a _) = Some a"
| "direct_holder (DPaying a _ _) = Some a"
| "direct_holder (DAuthFailing a _ _) = Some a"
| "direct_holder (DNonceDropping a _) = Some a"
| "direct_holder _ = None"

definition direct_owns :: "string \<times> string \<Rightarrow> direct_phase \<Rightarrow> int" where
  "direct_owns k ph = (case direct_holder ph of Some a \<Rightarrow> if direct_key a = k then 1 else 0 | None \<Rightarrow> 0)"

text \<open>The payment that a step makes, under the nonce of its request.\<close>

definition direct_paid :: "direct_phase \<Rightarrow> int \<Rightarrow> (string \<times> string) list" where
  "direct_paid ph moved =
     (case direct_holder ph of Some a \<Rightarrow> if moved \<noteq> 0 then [direct_key a] else [] | None \<Rightarrow> [])"

text \<open>
  How the claims on a nonce (held or paid under) may change, given whether its guard is present
  before and after: they grow only by taking a free guard, and a guard goes away only with a claim.
\<close>

definition guard_rule :: "int \<Rightarrow> int \<Rightarrow> bool \<Rightarrow> bool \<Rightarrow> bool" where
  "guard_rule change own before after =
     ((change \<le> 0 \<and> after) \<or> (change \<le> 0 \<and> \<not> before \<and> \<not> after)
      \<or> (change = 1 \<and> \<not> before \<and> after) \<or> (change = - 1 \<and> own = 1))"

lemma guard_rule_claims:
  assumes "guard_rule change own before after" and "0 \<le> claimed + change"
    and "own \<le> claimed" and "claimed \<le> 1" and "\<not> before \<Longrightarrow> claimed = 0"
  shows "claimed + change \<le> 1 \<and> (\<not> after \<longrightarrow> claimed + change = 0)"
  using assms by (auto simp: guard_rule_def)

definition direct_change :: "string \<times> string \<Rightarrow> direct_phase \<Rightarrow> direct_phase \<Rightarrow> int \<Rightarrow> int" where
  "direct_change k ph ph' moved =
     direct_owns k ph' - direct_owns k ph + int (count_list (direct_paid ph moved) k)"

definition direct_good :: "direct_phase \<Rightarrow> db \<Rightarrow> direct_phase \<Rightarrow> db \<Rightarrow> int \<Rightarrow> bool" where
  "direct_good ph d ph' d' moved =
     (t_payment_sessions d' = t_payment_sessions d
      \<and> (\<forall>k. guard_rule (direct_change k ph ph' moved) (direct_owns k ph)
                (k \<in> dom (t_nonce_guard d)) (k \<in> dom (t_nonce_guard d'))))"

lemma direct_owns_range: "0 \<le> direct_owns k ph \<and> direct_owns k ph \<le> 1"
  by (auto simp: direct_owns_def split: option.splits)

lemma direct_paid_0 [simp]: "direct_paid ph 0 = []"
  by (simp add: direct_paid_def split: option.split)

lemma truncate_sel [simp]:
  "or_dbFails (surroundings.truncate w) = or_dbFails w" "or_env (surroundings.truncate w) = or_env w"
  "or_uuid (surroundings.truncate w) = or_uuid w" "or_chain (surroundings.truncate w) = or_chain w"
  by (simp_all add: surroundings.defs)

text \<open>A step that leaves sessions and guard keys alone and claims no more than before.\<close>

lemma direct_good_keep:
  assumes "t_payment_sessions d' = t_payment_sessions d" and "dom (t_nonce_guard d') = dom (t_nonce_guard d)"
    and "\<And>k. direct_change k ph ph' moved \<le> 0"
  shows "direct_good ph d ph' d' moved"
  using assms by (auto simp: direct_good_def guard_rule_def)

lemma next_phase_keys:
  assumes "next_phase (stmt w m d) ok failed = (ph, d')" and "keeps_keys m"
  shows "t_payment_sessions d' = t_payment_sessions d \<and> dom (t_nonce_guard d') = dom (t_nonce_guard d)
         \<and> (ph = ok \<or> ph = failed)"
  using assms
  by (auto simp: next_phase_def split: prod.splits sum.splits dest!: stmt_failed stmt_done keeps_keysD)

lemma next_phase_good:
  assumes "next_phase (stmt w m d) ok failed = (ph', d')" and "keeps_keys m"
    and "\<And>k q. q = ok \<or> q = failed \<Longrightarrow> direct_owns k q \<le> direct_owns k ph"
  shows "direct_good ph d ph' d' 0"
proof (rule direct_good_keep)
  note t = next_phase_keys [OF assms(1,2)]
  show "t_payment_sessions d' = t_payment_sessions d" "dom (t_nonce_guard d') = dom (t_nonce_guard d)"
    using t by auto
  show "direct_change k ph ph' 0 \<le> 0" for k
    using t assms(3) [of ph' k] by (auto simp: direct_change_def)
qed

text \<open>A payment out of the payer's account relies on a definite answer of the chain.\<close>

definition pulls_payer :: "direct_admitted \<Rightarrow> bool" where
  "pulls_payer a =
     (da_network a = BASE_MAINNET_CAIP2
      \<and> (case direct_authorizations a of Inr (Some _, _) \<Rightarrow> True | _ \<Rightarrow> False))"

fun relies_on_chain :: "direct_phase \<Rightarrow> bool" where
  "relies_on_chain (DPaying a _ _) = pulls_payer a"
| "relies_on_chain _ = False"

lemma try_then_Inr: "try_then r k = Inr y \<longleftrightarrow> (\<exists>x. r = Inr x \<and> k x = Inr y)"
  by (cases r) (simp_all add: try_then_def)

lemma authorized_checks_fee:
  assumes "authorized_checks dc w a ta fa b = Inr (t, h)"
  shows "h \<or> \<not> (0 < split_fee t b \<and> cf_treasuryValid dc)"
  using assms
  by (auto simp: authorized_checks_def Let_def try_then_Inr check_fee_authorization_def
      split: option.splits if_splits)

lemma authorized_payment_definite:
  assumes "definite (or_chain w)" and "0 \<le> b" and "authorized_payment dc w a ta fa b = (Inl err, moved)"
  shows "moved = 0"
proof (cases "authorized_checks dc w a ta fa b")
  case (Inr r)
  obtain t h where r: "r = (t, h)" by (cases r)
  with Inr authorized_checks_fee have "h \<or> \<not> (0 < split_fee t b \<and> cf_treasuryValid dc)" by blast
  from settle_authorized_ok [OF assms(2) this, of "or_chain w" "cf_checks dc" "dp_payer (da_payment a)"
      "da_merchant a"] assms Inr r
  show ?thesis by (auto simp: authorized_payment_def outcome_ok_def split: prod.splits sum.splits)
qed (use assms in \<open>simp add: authorized_payment_def\<close>)

lemma direct_owns_simps [simp]:
  "direct_holder ph = None \<Longrightarrow> direct_owns k ph = 0"
  "direct_holder ph = Some a \<Longrightarrow> direct_owns k ph = (if direct_key a = k then 1 else 0)"
  by (simp_all add: direct_owns_def)

lemma direct_pay_good:
  assumes "pulls_payer a \<Longrightarrow> definite (or_chain w)" and "0 \<le> pg_feeBps p"
    and "direct_pay dc w a sid p = (ph', moved)"
  shows "direct_good (DPaying a sid p) d ph' d moved"
proof (rule direct_good_keep)
  consider (lost) "direct_holder ph' = None" | (kept) "direct_holder ph' = Some a" "moved = 0"
  proof (cases "moved = 0 \<or> direct_holder ph' = None")
    case True
    then show ?thesis using that assms(3)
      by (auto simp: direct_pay_def treasury_payment_def split: if_splits sum.splits prod.splits option.splits)
  next
    case False
    with assms(3) obtain ta fa err where base: "da_network a = BASE_MAINNET_CAIP2"
      and au: "direct_authorizations a = Inr (Some ta, fa)"
      and ap: "authorized_payment dc w a ta fa (pg_feeBps p) = (Inl err, moved)"
      by (auto simp: direct_pay_def treasury_payment_def split: if_splits sum.splits prod.splits option.splits)
    then have "moved = 0"
      using assms(1,2) by (intro authorized_payment_definite) (simp_all add: pulls_payer_def)
    with False show ?thesis by simp
  qed
  then show "direct_change k (DPaying a sid p) ph' moved \<le> 0" for k
    by cases (simp_all add: direct_change_def direct_paid_def)
qed simp_all

lemma direct_drop_good:
  assumes "next_phase (stmt w (deletePaymentNonceGuard (dp_payer (da_payment a)) (dp_nonce (da_payment a))) d)
             (DDone r) (DDone r) = (ph', d')"
  shows "direct_good (DNonceDropping a x) d ph' d' 0"
proof -
  let ?m = "deletePaymentNonceGuard (dp_payer (da_payment a)) (dp_nonce (da_payment a))"
  obtain q where q: "stmt w ?m d = (q, d')" and ph': "ph' = DDone r"
    using assms unfolding next_phase_def by (auto split: prod.splits sum.splits)
  have "d' = d \<or> (\<exists>u. ?m d = Inr (u, d'))"
    using stmt_failed [of w ?m d _ d'] stmt_done [of w ?m d _ d'] q by (cases q) auto
  then have e: "t_payment_sessions d' = t_payment_sessions d"
      "dom (t_nonce_guard d) - {direct_key a} \<subseteq> dom (t_nonce_guard d')"
      "dom (t_nonce_guard d') \<subseteq> dom (t_nonce_guard d)"
    using deletePaymentNonceGuard_effect [of "dp_payer (da_payment a)" "dp_nonce (da_payment a)" d _ d']
    by (auto simp: direct_key_def)
  then show ?thesis
    using ph' by (auto simp: direct_good_def guard_rule_def direct_change_def)
qed

lemma direct_reserve_good:
  assumes "direct_reserve w a d = (ph', d')"
  shows "direct_good (DAdmitted a) d ph' d' 0"
proof -
  let ?m = "reservePaymentNonce (or_env w) (dp_payer (da_payment a)) (dp_nonce (da_payment a)) ''settle''
              (da_network a) (da_resource a) (da_amount a)"
  consider "d' = d" "direct_holder ph' = None" | "?m d = Inr (True, d')" "ph' = DNonceHeld a"
    | "?m d = Inr (False, d')" "ph' = DReplay a"
    using assms unfolding direct_reserve_def
    by (auto split: prod.splits sum.splits if_splits dest!: stmt_failed stmt_done)
  then show ?thesis
  proof cases
    case 2
    from reservePaymentNonce_effect(1,2) [OF 2(1)] 2(2) show ?thesis
      by (auto simp: direct_good_def guard_rule_def direct_change_def direct_key_def)
  next
    case 3
    from reservePaymentNonce_effect(3) [OF 3(1)] 3(2) show ?thesis
      by (intro direct_good_keep) (simp_all add: direct_change_def)
  qed (auto intro!: direct_good_keep simp: direct_change_def)
qed

lemma direct_record_good:
  assumes "direct_record w a d = (ph', d')"
  shows "direct_good (DNonceHeld a) d ph' d' 0"
proof (rule direct_good_keep)
  let ?m = "insertSettlement (or_env w) (or_uuid w) (da_merchant a) (dp_payer (da_payment a)) (da_amount a) 0
              ''USDC'' [] SettlementPending (da_network a)"
  have c: "d' = d \<and> ph' = DDone None \<or> (\<exists>st. ?m d = Inr (st, d') \<and> ph' = DRecorded a (st_id st))"
    using assms unfolding direct_record_def
    by (auto split: prod.splits sum.splits dest!: stmt_failed stmt_done)
  then show "t_payment_sessions d' = t_payment_sessions d" "dom (t_nonce_guard d') = dom (t_nonce_guard d)"
    using keepsD [OF keeps_settlement_statements(1)] by fastforce+
  from c show "direct_change k (DNonceHeld a) ph' 0 \<le> 0" for k by (auto simp: direct_change_def)
qed

definition direct_ok :: "direct_phase \<Rightarrow> bool" where
  "direct_ok ph = (case ph of DPaying _ _ p \<Rightarrow> 0 \<le> pg_feeBps p | _ \<Rightarrow> True)"

lemma direct_ok_simps [simp]:
  "direct_ok (DArrived b m)" "direct_ok DElsewhere" "direct_ok (DAdmitted a)" "direct_ok (DReplay a)"
  "direct_ok (DReplayRead a h osid)" "direct_ok (DNonceHeld a)" "direct_ok (DRecorded a i)"
  "direct_ok (DPricing a i)" "direct_ok (DAuthFailing a i r)" "direct_ok (DNonceDropping a r)"
  "direct_ok (DPaid a i p rc)" "direct_ok (DConfirming a i p rc)" "direct_ok (DLedgered a i p rc)"
  "direct_ok (DSalvaging a p rc)" "direct_ok (DFailing a i m')" "direct_ok (DDone res)"
  "direct_ok (DPaying a i p) = (0 \<le> pg_feeBps p)"
  by (simp_all add: direct_ok_def)

lemma next_phase_ok:
  "fst (next_phase r ok failed) = ok \<or> fst (next_phase r ok failed) = failed"
  by (auto simp: next_phase_def split: prod.split sum.split)

lemma direct_step_ok: "direct_ok (fst (fst (direct_step dc w ph d)))"
proof -
  have n: "direct_ok q \<Longrightarrow> direct_ok q' \<Longrightarrow> direct_ok (fst (next_phase r q q'))"
    for q q' and r :: "(error + unit) \<times> db"
    using next_phase_ok [of r q q'] by auto
  have fee: "0 \<le> pg_feeBps (price cf w')" for cf w' using price_bps [of cf w'] by simp
  show ?thesis
    by (cases ph)
       (auto intro!: n simp: fee direct_admit_def direct_reserve_def direct_replay_def direct_record_def direct_pay_def
          treasury_payment_def Let_def
        split: sum.split prod.split option.split)
qed

lemma direct_step_good:
  assumes ok: "direct_ok ph" and c: "relies_on_chain ph \<Longrightarrow> definite (or_chain w)"
    and step: "direct_step dc w ph d = ((ph', d'), moved)"
  shows "direct_good ph d ph' d' moved"
proof -
  have free: "direct_good ph d ph' d' moved"
    if "moved = 0" "d' = d" "direct_holder ph' = None \<or> direct_holder ph' = direct_holder ph"
  proof (rule direct_good_keep)
    show "direct_change k ph ph' moved \<le> 0" for k
      using that direct_owns_range [of k ph] by (auto simp: direct_change_def direct_owns_def)
  qed (simp_all add: that)
  show ?thesis
  proof (cases ph)
    case (DArrived b m)
    with step show ?thesis by (intro free) (auto simp: direct_admit_def split: sum.split prod.split)
  next
    case (DAdmitted a)
    with step show ?thesis by (auto intro: direct_reserve_good)
  next
    case (DReplay a)
    with step show ?thesis by (intro free) (auto simp: direct_replay_def Let_def split: option.split)
  next
    case (DNonceHeld a)
    with step show ?thesis by (auto intro: direct_record_good)
  next
    case (DRecorded a i)
    with step show ?thesis
      by (auto intro!: next_phase_good [OF _ statement_keys(1)])
  next
    case (DPaying a i p)
    with step ok c show ?thesis by (auto intro!: direct_pay_good simp: prod_eq_iff)
  next
    case (DAuthFailing a i r)
    with step show ?thesis by (auto intro!: next_phase_good [OF _ statement_keys(4)])
  next
    case (DNonceDropping a r)
    with step show ?thesis by (auto intro!: direct_drop_good)
  next
    case (DPaid a i p rc)
    with step show ?thesis by (auto intro!: next_phase_good [OF _ statement_keys(5)])
  next
    case (DConfirming a i p rc)
    with step show ?thesis by (auto intro!: next_phase_good [OF _ statement_keys(6)])
  next
    case (DLedgered a i p rc)
    with step show ?thesis by (auto intro!: next_phase_good [OF _ statement_keys(2)])
  next
    case (DSalvaging a p rc)
    with step show ?thesis by (auto intro!: next_phase_good [OF _ statement_keys(2)])
  next
    case (DFailing a i m)
    with step show ?thesis by (auto intro!: next_phase_good [OF _ statement_keys(4)])
  next
    case DElsewhere
    with step show ?thesis by (intro free) auto
  next
    case (DReplayRead a h i)
    with step show ?thesis by (intro free) auto
  next
    case (DPricing a i)
    with step show ?thesis by (intro free) (auto split: if_splits)
  next
    case (DDone r)
    with step show ?thesis by (intro free) auto
  qed
qed

section \<open>Termination\<close>

fun direct_rank :: "direct_phase \<Rightarrow> nat" where
  "direct_rank (DArrived _ _) = 13"
| "direct_rank (DAdmitted _) = 12"
| "direct_rank (DNonceHeld _) = 11"
| "direct_rank (DRecorded _ _) = 10"
| "direct_rank (DPricing _ _) = 9"
| "direct_rank (DPaying _ _ _) = 8"
| "direct_rank (DPaid _ _ _ _) = 7"
| "direct_rank (DConfirming _ _ _ _) = 6"
| "direct_rank (DLedgered _ _ _ _) = 5"
| "direct_rank (DSalvaging _ _ _) = 4"
| "direct_rank (DAuthFailing _ _ _) = 3"
| "direct_rank (DReplay _) = 2"
| "direct_rank (DNonceDropping _ _) = 1"
| "direct_rank (DReplayRead _ _ _) = 1"
| "direct_rank (DFailing _ _ _) = 1"
| "direct_rank DElsewhere = 0"
| "direct_rank (DDone _) = 0"

lemma direct_step_rank:
  "0 < direct_rank ph \<Longrightarrow> direct_rank (fst (fst (direct_step dc w ph d))) < direct_rank ph"
proof -
  have le: "direct_rank q < n \<Longrightarrow> direct_rank q' < n \<Longrightarrow> direct_rank (fst (next_phase r q q')) < n"
    for q q' n and r :: "(error + unit) \<times> db"
    using next_phase_ok [of r q q'] by auto
  have z: "direct_rank q = 0 \<Longrightarrow> direct_rank q' = 0 \<Longrightarrow> direct_rank (fst (next_phase r q q')) = 0"
    for q q' and r :: "(error + unit) \<times> db"
    using next_phase_ok [of r q q'] by auto
  assume "0 < direct_rank ph"
  then show ?thesis
    by (cases ph)
       (auto intro!: le simp: z direct_admit_def direct_reserve_def direct_replay_def direct_record_def
          direct_pay_def treasury_payment_def Let_def
        split: sum.split prod.split option.split)
qed

end
