(* ===== verification/Settle_System.thy ===== *)
theory Settle_System
  imports Direct_Settle
begin

text \<open>
  Session payments and direct payments side by side: the handler of \<open>POST /settle\<close> sends each request
  to one branch, both branches take nonces from the same guard table, and so do the escrow and the
  privacy routes.  The system interleaves the steps of any number of requests.
\<close>

datatype pay_request = SessionReq phase | DirectReq direct_phase

record pay_system =
  py_db :: db
  py_requests :: "pay_request list"
  py_log :: "transfer_log list"
  py_direct :: "(string \<times> string) list"

text \<open>A request that is neither Kizuna nor session goes on in the direct branch.\<close>

definition fall_through :: "phase \<Rightarrow> phase \<Rightarrow> pay_request" where
  "fall_through ph ph' =
     (case (ph, ph') of
        (Arrived body apiMerchant, Elsewhere) \<Rightarrow> DirectReq (DArrived body apiMerchant)
      | _ \<Rightarrow> SessionReq ph')"

definition run_pay :: "direct_config \<Rightarrow> direct_world \<Rightarrow> nat \<Rightarrow> pay_system \<Rightarrow> pay_system" where
  "run_pay dc w i s =
     (case py_requests s ! i of
        SessionReq ph \<Rightarrow>
          (let r = request_step (facilitator_config.truncate dc) (surroundings.truncate w) ph (py_db s) in
           s\<lparr>py_db := snd (fst r), py_requests := (py_requests s)[i := fall_through ph (fst (fst r))],
             py_log := py_log s @ log_entry ph (snd r)\<rparr>)
      | DirectReq ph \<Rightarrow>
          (let r = direct_step dc w ph (py_db s) in
           s\<lparr>py_db := snd (fst r), py_requests := (py_requests s)[i := DirectReq (fst (fst r))],
             py_direct := py_direct s @ direct_paid ph (snd r)\<rparr>))"

text \<open>
  Payments out of a payer's account rely on a chain that does not report an error for a transfer it
  has executed; payments out of the facilitator's account do not.
\<close>

fun chain_answers :: "pay_request \<Rightarrow> chain_view \<Rightarrow> bool" where
  "chain_answers (SessionReq _) ch = definite ch"
| "chain_answers (DirectReq ph) ch = (relies_on_chain ph \<longrightarrow> definite ch)"

inductive pay_step :: "direct_config \<Rightarrow> pay_system \<Rightarrow> pay_system \<Rightarrow> bool" for dc where
  arrive: "pay_step dc s (s\<lparr>py_requests := py_requests s @ [SessionReq (Arrived body apiMerchant)]\<rparr>)"
| progress: "i < length (py_requests s) \<Longrightarrow> chain_answers (py_requests s ! i) (or_chain w) \<Longrightarrow>
    pay_step dc s (run_pay dc w i s)"
| open_session: "insertPaymentSession tokenHash p (py_db s) = Inr (row, d') \<Longrightarrow> pay_step dc s (s\<lparr>py_db := d'\<rparr>)"
| revoke: "revokePaymentSession e tokenHash (py_db s) = Inr (r, d') \<Longrightarrow> pay_step dc s (s\<lparr>py_db := d'\<rparr>)"
| reserve_elsewhere: "reservePaymentNonce e payer nonce purpose network res amount (py_db s) = Inr (fresh, d') \<Longrightarrow>
    pay_step dc s (s\<lparr>py_db := d'\<rparr>)"

inductive_cases pay_stepE: "pay_step dc s s'"

definition pay_start :: "pay_system \<Rightarrow> bool" where
  "pay_start s = (budget_ok (py_db s) \<and> py_requests s = [] \<and> py_log s = [] \<and> py_direct s = [])"

fun pay_owns :: "string \<times> string \<Rightarrow> pay_request \<Rightarrow> int" where
  "pay_owns k (SessionReq ph) = owns k ph"
| "pay_owns k (DirectReq ph) = direct_owns k ph"

fun pay_held :: "string \<Rightarrow> pay_request \<Rightarrow> int" where
  "pay_held tok (SessionReq ph) = held tok ph"
| "pay_held tok (DirectReq ph) = 0"

fun pay_ok :: "pay_request \<Rightarrow> bool" where
  "pay_ok (SessionReq ph) = phase_ok ph"
| "pay_ok (DirectReq ph) = direct_ok ph"

text \<open>Transfers made under a nonce, by either branch.\<close>

definition paid_times :: "string \<times> string \<Rightarrow> pay_system \<Rightarrow> int" where
  "paid_times k s = paid_under k (py_log s) + int (count_list (py_direct s) k)"

definition pay_claims :: "string \<times> string \<Rightarrow> pay_system \<Rightarrow> int" where
  "pay_claims k s = sum_list (map (pay_owns k) (py_requests s)) + paid_times k s"

definition pay_held_total :: "string \<Rightarrow> pay_system \<Rightarrow> int" where
  "pay_held_total tok s = sum_list (map (pay_held tok) (py_requests s))"

definition pay_inv :: "pay_system \<Rightarrow> bool" where
  "pay_inv s =
     (budget_ok (py_db s) \<and> list_all pay_ok (py_requests s)
      \<and> (\<forall>tok. pay_held_total tok s + moved_for tok (py_log s) \<le> spent_of (py_db s) tok)
      \<and> (\<forall>k. pay_claims k s \<le> 1 \<and> (t_nonce_guard (py_db s) k = None \<longrightarrow> pay_claims k s = 0)))"

lemma pay_owns_nonneg: "0 \<le> pay_owns k q"
  using direct_owns_range by (cases q) simp_all

lemma paid_times_nonneg: "0 \<le> paid_times k s"
  using paid_under_nonneg by (simp add: paid_times_def)

lemma pay_claims_nonneg: "0 \<le> pay_claims k s"
  using paid_times_nonneg [of k s] by (auto simp: pay_claims_def pay_owns_nonneg intro!: add_nonneg_nonneg sum_list_nonneg)

lemma pay_claims_ge_owner:
  assumes "i < length (py_requests s)"
  shows "pay_owns k (py_requests s ! i) \<le> pay_claims k s"
proof -
  have "pay_owns k (py_requests s ! i) \<le> sum_list (map (pay_owns k) (py_requests s))"
    using assms by (intro member_le_sum_list) (auto simp: pay_owns_nonneg)
  then show ?thesis using paid_times_nonneg [of k s] by (simp add: pay_claims_def)
qed

lemma fall_through_cases:
  "fall_through ph ph' = SessionReq ph'
   \<or> (ph' = Elsewhere \<and> (\<exists>body m. fall_through ph ph' = DirectReq (DArrived body m)))"
proof (cases "ph' = Elsewhere")
  case True
  then show ?thesis by (cases ph) (simp_all add: fall_through_def)
next
  case False
  then have "fall_through ph ph' = SessionReq ph'"
    by (cases ph') (simp_all add: fall_through_def split: phase.split)
  then show ?thesis by simp
qed

lemma nonce_rule_guard:
  "nonce_rule k ph d ph' d' moved \<Longrightarrow>
   guard_rule (claim_change k ph ph' moved) (owns k ph) (k \<in> dom (t_nonce_guard d)) (k \<in> dom (t_nonce_guard d'))"
  by (auto simp: nonce_rule_def guard_rule_def)

text \<open>One step of one request, of either kind, seen from the invariant.\<close>

lemma pay_inv_update:
  assumes inv: "pay_inv s" and i: "i < length (py_requests s)"
    and s': "py_requests s' = (py_requests s)[i := q']" "budget_ok (py_db s')" "pay_ok q'"
    and cap: "\<And>tok. pay_held tok q' - pay_held tok (py_requests s ! i) + moved_for tok (py_log s')
                - moved_for tok (py_log s) \<le> spent_of (py_db s') tok - spent_of (py_db s) tok"
    and rule: "\<And>k. guard_rule (pay_owns k q' - pay_owns k (py_requests s ! i) + paid_times k s' - paid_times k s)
                (pay_owns k (py_requests s ! i)) (k \<in> dom (t_nonce_guard (py_db s)))
                (k \<in> dom (t_nonce_guard (py_db s')))"
  shows "pay_inv s'"
proof -
  have "list_all pay_ok (py_requests s')"
    using inv i s' by (auto simp: pay_inv_def list_all_length nth_list_update)
  moreover have "pay_held_total tok s' + moved_for tok (py_log s') \<le> spent_of (py_db s') tok" for tok
  proof -
    have "pay_held_total tok s + moved_for tok (py_log s) \<le> spent_of (py_db s) tok"
      using inv by (simp add: pay_inv_def)
    then show ?thesis using cap [of tok] i by (simp add: pay_held_total_def s'(1) sum_list_map_update)
  qed
  moreover have "pay_claims k s' \<le> 1 \<and> (t_nonce_guard (py_db s') k = None \<longrightarrow> pay_claims k s' = 0)" for k
  proof -
    let ?c = "pay_owns k q' - pay_owns k (py_requests s ! i) + paid_times k s' - paid_times k s"
    have e: "pay_claims k s' = pay_claims k s + ?c"
      using i by (simp add: pay_claims_def s'(1) sum_list_map_update)
    have "pay_claims k s \<le> 1 \<and> (t_nonce_guard (py_db s) k = None \<longrightarrow> pay_claims k s = 0)"
      using inv unfolding pay_inv_def by blast
    then have "pay_claims k s \<le> 1" "k \<notin> dom (t_nonce_guard (py_db s)) \<Longrightarrow> pay_claims k s = 0"
      by (auto simp: domIff)
    with guard_rule_claims [OF rule [of k], of "pay_claims k s"] pay_claims_nonneg [of k s']
      pay_claims_ge_owner [OF i, of k] show ?thesis by (simp add: e domIff)
  qed
  ultimately show ?thesis using s'(2) by (simp add: pay_inv_def)
qed

lemma run_pay_inv:
  assumes inv: "pay_inv s" and i: "i < length (py_requests s)"
    and c: "chain_answers (py_requests s ! i) (or_chain w)"
  shows "pay_inv (run_pay dc w i s)"
proof (cases "py_requests s ! i")
  case (SessionReq ph)
  obtain ph' d' moved where r: "request_step (facilitator_config.truncate dc) (surroundings.truncate w) ph (py_db s)
      = ((ph', d'), moved)" by (metis surj_pair)
  have ok: "phase_ok ph" "budget_ok (py_db s)"
    using inv i SessionReq by (auto simp: pay_inv_def list_all_length)
  have "definite (or_chain (surroundings.truncate w))" using c SessionReq by simp
  note g = request_step_good [OF ok this r, unfolded good_step_def]
  let ?q = "fall_through ph ph'"
  have q: "pay_held tok ?q = held tok ph'" "pay_owns k ?q = owns k ph'" "phase_ok ph' \<Longrightarrow> pay_ok ?q" for tok k
    using fall_through_cases [of ph ph'] by (elim disjE exE conjE; simp)+
  show ?thesis
  proof (rule pay_inv_update [OF inv i, of _ ?q])
    show "py_requests (run_pay dc w i s) = (py_requests s)[i := ?q]" by (simp add: run_pay_def SessionReq r)
    show "budget_ok (py_db (run_pay dc w i s))" "pay_ok ?q" using g q(3) by (simp_all add: run_pay_def SessionReq r)
    show "pay_held tok ?q - pay_held tok (py_requests s ! i) + moved_for tok (py_log (run_pay dc w i s))
            - moved_for tok (py_log s) \<le> spent_of (py_db (run_pay dc w i s)) tok - spent_of (py_db s) tok" for tok
    proof -
      have "0 \<le> slack_change tok ph (py_db s) ph' d' moved" using g by blast
      then show ?thesis by (simp add: run_pay_def SessionReq r q slack_change_def)
    qed
    show "guard_rule (pay_owns k ?q - pay_owns k (py_requests s ! i) + paid_times k (run_pay dc w i s) - paid_times k s)
            (pay_owns k (py_requests s ! i)) (k \<in> dom (t_nonce_guard (py_db s)))
            (k \<in> dom (t_nonce_guard (py_db (run_pay dc w i s))))" for k
    proof -
      have "nonce_rule k ph (py_db s) ph' d' moved" using g by blast
      from nonce_rule_guard [OF this] show ?thesis
        by (simp add: run_pay_def SessionReq r q claim_change_def paid_times_def algebra_simps)
    qed
  qed
next
  case (DirectReq ph)
  obtain ph' d' moved where r: "direct_step dc w ph (py_db s) = ((ph', d'), moved)" by (metis surj_pair)
  have ok: "direct_ok ph" using inv i DirectReq by (auto simp: pay_inv_def list_all_length)
  have "relies_on_chain ph \<Longrightarrow> definite (or_chain w)" using c DirectReq by simp
  note g = direct_step_good [OF ok this r, unfolded direct_good_def]
  have s: "spent_of d' = spent_of (py_db s)" "cap_of d' = cap_of (py_db s)"
    using g budget_cong [of d' "py_db s"] by blast+
  have b: "budget_ok (py_db s)" using inv by (simp add: pay_inv_def)
  show ?thesis
  proof (rule pay_inv_update [OF inv i, of _ "DirectReq ph'"])
    show "py_requests (run_pay dc w i s) = (py_requests s)[i := DirectReq ph']" by (simp add: run_pay_def DirectReq r)
    show "budget_ok (py_db (run_pay dc w i s))" using b by (simp add: run_pay_def DirectReq r budget_ok_def s)
    show "pay_ok (DirectReq ph')" using direct_step_ok [of dc w ph "py_db s"] r by simp
    show "pay_held tok (DirectReq ph') - pay_held tok (py_requests s ! i) + moved_for tok (py_log (run_pay dc w i s))
            - moved_for tok (py_log s) \<le> spent_of (py_db (run_pay dc w i s)) tok - spent_of (py_db s) tok" for tok
      by (simp add: run_pay_def DirectReq r s)
    show "guard_rule (pay_owns k (DirectReq ph') - pay_owns k (py_requests s ! i)
              + paid_times k (run_pay dc w i s) - paid_times k s)
            (pay_owns k (py_requests s ! i)) (k \<in> dom (t_nonce_guard (py_db s)))
            (k \<in> dom (t_nonce_guard (py_db (run_pay dc w i s))))" for k
    proof -
      have "guard_rule (direct_change k ph ph' moved) (direct_owns k ph)
              (k \<in> dom (t_nonce_guard (py_db s))) (k \<in> dom (t_nonce_guard d'))" using g by blast
      then show ?thesis
        by (simp add: run_pay_def DirectReq r direct_change_def paid_times_def algebra_simps)
    qed
  qed
qed

lemma pay_start_inv: "pay_start s \<Longrightarrow> pay_inv s"
  by (auto simp: pay_start_def pay_inv_def pay_held_total_def pay_claims_def paid_times_def budget_ok_def)

lemma pay_inv_db:
  assumes "pay_inv s" and "budget_ok d'" and "spent_of d' = spent_of (py_db s)"
    and "dom (t_nonce_guard (py_db s)) \<subseteq> dom (t_nonce_guard d')"
  shows "pay_inv (s\<lparr>py_db := d'\<rparr>)"
proof -
  have p: "pay_claims k (s\<lparr>py_db := d'\<rparr>) = pay_claims k s" "pay_held_total tok (s\<lparr>py_db := d'\<rparr>) = pay_held_total tok s"
    for k tok by (simp_all add: pay_claims_def paid_times_def pay_held_total_def)
  have "pay_claims k s \<le> 1 \<and> (t_nonce_guard d' k = None \<longrightarrow> pay_claims k s = 0)" for k
  proof -
    have "pay_claims k s \<le> 1 \<and> (t_nonce_guard (py_db s) k = None \<longrightarrow> pay_claims k s = 0)"
      using assms(1) unfolding pay_inv_def by blast
    then show ?thesis using assms(4) by (metis domIff subsetD)
  qed
  with assms(1-3) show ?thesis unfolding pay_inv_def p by simp
qed

lemma pay_step_inv: "pay_step dc s s' \<Longrightarrow> pay_inv s \<Longrightarrow> pay_inv s'"
proof (induction rule: pay_step.induct)
  case (arrive s body apiMerchant)
  then show ?case
    by (simp add: pay_inv_def pay_held_total_def pay_claims_def paid_times_def held_def owns_def)
next
  case (progress i s w)
  then show ?case by (intro run_pay_inv)
next
  case (open_session tokenHash p s row d')
  note e = insertPaymentSession_effect [OF open_session(1)]
  from open_session(2) have "budget_ok (py_db s)" by (simp add: pay_inv_def)
  with e open_session(2) show ?case by (intro pay_inv_db) simp_all
next
  case (revoke e tokenHash s r d')
  note eff = revokePaymentSession_effect [OF revoke(1)]
  from revoke(2) have "budget_ok (py_db s)" by (simp add: pay_inv_def)
  with eff revoke(2) show ?case by (intro pay_inv_db) (simp_all add: budget_ok_def)
next
  case (reserve_elsewhere e payer nonce purpose network res amount s fresh d')
  note eff = reservePaymentNonce_effect [OF reserve_elsewhere(1)]
  have b: "budget_ok (py_db s)" using reserve_elsewhere(2) by (simp add: pay_inv_def)
  have sp: "spent_of d' = spent_of (py_db s)" "cap_of d' = cap_of (py_db s)"
    using budget_cong [OF eff(1)] by simp_all
  have "dom (t_nonce_guard (py_db s)) \<subseteq> dom (t_nonce_guard d')"
    using eff(2,3) by (cases fresh) auto
  with b sp reserve_elsewhere(2) show ?case by (intro pay_inv_db) (simp_all add: budget_ok_def)
qed

interpretation paying: invariant_system pay_start "pay_step dc" pay_inv
  by unfold_locales (auto intro: pay_start_inv pay_step_inv)

section \<open>A direct payment, run twice\<close>

definition pay_object :: json_object where
  "pay_object =
     [(''payer'', JStr ''pAyEr''), (''signature'', JStr ''c2ln''), (''timestamp'', JNum 1700000000000),
      (''nonce'', JStr ''n-1''), (''resource'', JStr ''/a''), (''amount'', JStr ''0.25''),
      (''authSignature'', JStr (replicate 86 CHR ''A''))]"

definition pay_body :: json where
  "pay_body = JObj
     [(''paymentPayload'', JObj [(''payload'', JObj pay_object)]),
      (''paymentRequirements'', JObj
        [(''network'', JStr ''solana:mainnet''), (''amount'', JStr ''250000''), (''payTo'', JStr ''m'')])]"

definition pay_payment :: decoded_payment where
  "pay_payment =
     \<lparr>dp_signature = ''c2ln'', dp_payer = ''pAyEr'', dp_timestamp = 1700000000000, dp_nonce = ''n-1'',
      dp_resource = ''/a'', dp_amount = ''0.25'', dp_authSignature = replicate 86 CHR ''A''\<rparr>"

definition pay_config :: direct_config where
  "pay_config =
     \<lparr>cf_MAX_SETTLEMENT_AMOUNT = 100000, cf_SETTLEMENT_FEE_BPS = 10, cf_baseEnabled = False,
      cf_treasuryValid = False,
      cf_checks = \<lparr>ac_isAddress = (\<lambda>_. False), ac_isPublicKey = (\<lambda>_. True)\<rparr>,
      dc_libs = \<lparr>sl_verifyMessage = (\<lambda>_ _. None), sl_ed25519 = (\<lambda>_ _ _. True),
                 sl_bs58_decode = (\<lambda>_. None), sl_verifyEvmMessage = (\<lambda>_ _ _. False)\<rparr>,
      dc_MAX_PAYMENT_AGE_MS = 60000, dc_baseTreasury = []\<rparr>"

definition pay_world :: direct_world where
  "pay_world =
     \<lparr>or_env = sample_env 1700000000500, or_uuid = ''s1'', or_dbFails = False, or_totalSettlements = 0,
      or_disputesFiled = 0, or_disputesWon = 0, or_avgQuality = 0, or_monthlyVolume = 0,
      or_chain = \<lparr>ch_balance = 1000000, ch_allowance = 0, ch_delegated = False, ch_net = Confirmed ''h'',
                  ch_fee = Rejected ''none''\<rparr>,
      dw_code = Inr [], dw_verifyingContract = Inr [], dw_recover = (\<lambda>_ _ _ _. Inl []), dw_errorCode = []\<rparr>"

definition pay_input :: settle_input where
  "pay_input =
     \<lparr>si_mode = X402, si_paymentHeader = encodeDecodedPaymentHeader pay_object ''exact'' ''solana:mainnet'',
      si_merchantWallet = ''m'', si_amount = None, si_asset = ''USDC'',
      si_requirementAmountRaw = Some ''250000'', si_requirementNetwork = Some ''solana:mainnet'',
      si_requirementResource = None, si_requirementKizuna = None\<rparr>"

definition pay_admitted :: direct_admitted where
  "pay_admitted =
     \<lparr>da_payment = pay_payment, da_network = SOLANA_MAINNET_CAIP2, da_merchant = ''m'', da_resource = ''/a'',
      da_amount = 1 / 4, da_requirementAmountRaw = Some ''250000'',
      da_body = (case pay_body of JObj ob \<Rightarrow> ob | _ \<Rightarrow> [])\<rparr>"

lemma pay_parse: "parseSettleInput (Some pay_body) = Inr pay_input"
proof -
  have s: "isDecodedPaymentShape pay_object"
    by (simp add: isDecodedPaymentShape_def is_string_def is_number_def pay_object_def jget_def)
  have h: "jget pay_object ''paymentHeader'' = None" by (simp add: pay_object_def jget_def)
  show ?thesis
    by (simp add: parse_simps pay_body_def settle_payload_requirements_def extractRequirementNetwork_def
        extractScheme_def extractPaymentHeader_def h [unfolded jget_def] s accepted_of_def jget_opt_def
        extractMerchantWallet_def extractRequirementAmountRaw_def extractAsset_def extractResource_def
        pay_input_def)
qed

lemma utf8_bytes_length: "length (utf8_bytes s) \<le> 2 * length s"
  by (induction s) (auto simp: utf8_bytes_def Let_def)

lemma pay_prefix:
  "settle_prefix (facilitator_config.truncate pay_config) (Some pay_body)
     = Inr (pay_input, ''exact'', SOLANA_MAINNET_CAIP2)"
proof -
  have n: "canonicalizeNetwork ''solana:mainnet'' = Some SOLANA_MAINNET_CAIP2"
    "isSupportedNetwork SOLANA_MAINNET_CAIP2 b" for b
    by (simp_all add: network_simps)
  have "parsePaymentScheme (encodeDecodedPaymentHeader pay_object ''exact'' ''solana:mainnet'')
          = Some (''exact'', ''solana:mainnet'')"
    by (rule scheme_encoded_header) simp
  with n show ?thesis
    by (simp add: settle_prefix_def pay_parse) (simp add: pay_input_def)
qed

lemma pay_decode:
  "decodePaymentHeader (encodeDecodedPaymentHeader pay_object ''exact'' ''solana:mainnet'') = Some pay_payment"
proof -
  have t: "js_number_text 1700000000000 = ''1700000000000''"
  proof -
    have "numeric_text 1700000000000 = ''1700000000000''" by code_simp
    then show ?thesis using js_number_text_whole [of 1700000000000] by simp
  qed
  have "json_reads (JObj pay_object)"
    using whole_number_reads [of 1700000000000] by (simp add: pay_object_def)
  moreover have "length (encodeDecodedPaymentHeader pay_object ''exact'' ''solana:mainnet'') \<le> MAX_PAYMENT_HEADER_LENGTH"
  proof -
    have q: "length (json_quote ''payer'') = 7" "length (json_quote ''pAyEr'') = 7" "length (json_quote
    ''signature'') = 11" "length (json_quote ''c2ln'') = 6" "length (json_quote ''timestamp'') = 11"
    "length (json_quote ''nonce'') = 7" "length (json_quote ''n-1'') = 5" "length (json_quote
    ''resource'') = 10" "length (json_quote ''/a'') = 4" "length (json_quote ''amount'') = 8" "length
    (json_quote ''0.25'') = 6" "length (json_quote ''authSignature'') = 15"
      "length (json_quote (replicate 86 CHR ''A'')) = 88"
      by code_simp+
    have "length (JSON_stringify (JObj pay_object)) \<le> 300" by (simp add: pay_object_def t q)
    then have "length (utf8_bytes (JSON_stringify (JObj pay_object))) \<le> 600"
      using utf8_bytes_length [of "JSON_stringify (JObj pay_object)"] by linarith
    then show ?thesis
      using base64_length_le [of "utf8_bytes (JSON_stringify (JObj pay_object))"]
      by (simp add: encodeDecodedPaymentHeader_def MAX_PAYMENT_HEADER_LENGTH_def del: JSON_stringify.simps)
  qed
  moreover have "payment_fields pay_object = Some pay_payment" by code_simp
  ultimately show ?thesis by (simp add: decode_encoded_header)
qed

lemma pay_amount: "direct_amount pay_config pay_input (Some ''m'') SOLANA_MAINNET_CAIP2 pay_payment = Inr (1 / 4)"
proof -
  have a: "js_Number ''0.25'' = Finite (1 / 4)" "parseSignedUsdcAmount ''0.25'' (Some ''250000'') = Some (1 / 4)"
    by code_simp+
  have b: "SOLANA_MAINNET_CAIP2 \<noteq> BASE_MAINNET_CAIP2" by code_simp
  show ?thesis
    by (simp add: direct_amount_def pay_payment_def pay_input_def a b pay_config_def)
qed

lemma pay_admit:
  "direct_admit pay_config pay_world (Some pay_body) (Some ''m'') = DAdmitted pay_admitted"
proof -
  have v: "isPaymentFresh (sample_env 1700000000500) pay_payment 60000" by code_simp
  have "length (buffer_from_base64 (replicate 86 CHR ''A'')) = 64" by code_simp
  then have s: "verifyPaymentAuth (cf_checks pay_config) (dc_libs pay_config) pay_payment"
    by (simp add: verifyPaymentAuth_def pay_payment_def pay_config_def)
  have n: "isValidPayerForNetwork (cf_checks pay_config) (dp_payer pay_payment) SOLANA_MAINNET_CAIP2"
    by (simp add: isValidPayerForNetwork_def network_simps pay_config_def)
  have h: "si_paymentHeader pay_input = encodeDecodedPaymentHeader pay_object ''exact'' ''solana:mainnet''"
    "si_mode pay_input = X402" "si_requirementKizuna pay_input = None" "si_merchantWallet pay_input = ''m''"
    "si_requirementAmountRaw pay_input = Some ''250000''" "si_requirementResource pay_input = None"
    "or_env pay_world = sample_env 1700000000500" "dc_MAX_PAYMENT_AGE_MS pay_config = 60000"
    by (simp_all add: pay_input_def pay_world_def pay_config_def)
  have r: "dp_resource pay_payment = ''/a''" by (simp add: pay_payment_def)
  have "direct_check pay_config (sample_env 1700000000500) (case pay_body of JObj ob \<Rightarrow> ob | _ \<Rightarrow> []) pay_input
          SOLANA_MAINNET_CAIP2 (Some ''m'') = Inr pay_admitted"
    by (simp add: direct_check_def h pay_decode v s n pay_amount r pay_admitted_def)
  moreover have "(case asRecord (Some pay_body) of Some r \<Rightarrow> r | None \<Rightarrow> []) = (case pay_body of JObj ob \<Rightarrow> ob | _ \<Rightarrow> [])"
    by (simp add: pay_body_def asRecord_def)
  ultimately show ?thesis
    by (simp add: direct_admit_def pay_prefix h)
qed

fun run_pays :: "direct_config \<Rightarrow> (direct_world \<times> nat) list \<Rightarrow> pay_system \<Rightarrow> pay_system" where
  "run_pays dc [] s = s"
| "run_pays dc ((w, i) # ws) s = run_pays dc ws (run_pay dc w i s)"

lemma run_pay_length [simp]: "length (py_requests (run_pay dc w i s)) = length (py_requests s)"
  by (simp add: run_pay_def Let_def split: pay_request.split)

lemma run_pays_steps:
  "list_all (\<lambda>(w, i). definite (or_chain w) \<and> i < length (py_requests s)) ws \<Longrightarrow>
   (pay_step dc)\<^sup>*\<^sup>* s (run_pays dc ws s)"
proof (induction ws arbitrary: s)
  case (Cons wi ws)
  obtain w i where wi: "wi = (w, i)" by (cases wi)
  have "chain_answers q (or_chain w)" for q using Cons.prems wi by (cases q) simp_all
  then have "pay_step dc s (run_pay dc w i s)" using Cons.prems wi by (intro progress) simp_all
  moreover have "(pay_step dc)\<^sup>*\<^sup>* (run_pay dc w i s) (run_pays dc ws (run_pay dc w i s))"
    using Cons wi by simp
  ultimately show ?case by (simp add: wi)
qed simp

text \<open>Two copies of the same request: the first runs up to its transfer, then the second.\<close>

definition pay_demo_start :: pay_system where
  "pay_demo_start = \<lparr>py_db = seed_db 0, py_requests = [], py_log = [], py_direct = []\<rparr>"

definition pay_both :: pay_system where
  "pay_both = \<lparr>py_db = seed_db 0, py_requests = [DirectReq (DAdmitted pay_admitted), DirectReq (DAdmitted pay_admitted)],
               py_log = [], py_direct = []\<rparr>"

definition pay_demo :: pay_system where
  "pay_demo = run_pays pay_config (replicate 5 (pay_world, 0) @ replicate 5 (pay_world, 1)) pay_both"

lemma pay_demo_run: "count_list (py_direct pay_demo) (''pAyEr'', ''n-1'') = 1"
  by code_simp

lemma pay_both_reachable: "(pay_step pay_config)\<^sup>*\<^sup>* pay_demo_start pay_both"
proof -
  let ?A = "SessionReq (Arrived (Some pay_body) (Some ''m''))"
  let ?s = "\<lambda>qs. \<lparr>py_db = seed_db 0, py_requests = qs, py_log = [], py_direct = []\<rparr>"
  have d: "definite (or_chain pay_world)" by (simp add: pay_world_def definite_def)
  have e: "admit_step (facilitator_config.truncate pay_config) w (Some pay_body) (Some ''m'') db = Elsewhere" for w db
    by (simp add: admit_step_def pay_prefix pay_input_def)
  have "pay_step pay_config (?s qs) (?s (qs @ [?A]))" for qs
    using arrive [of pay_config "?s qs" "Some pay_body" "Some ''m''"] by simp
  from this [of "[]"] this [of "[?A]"] have "(pay_step pay_config)\<^sup>*\<^sup>* pay_demo_start (?s [?A, ?A])"
    by (simp add: pay_demo_start_def)
  moreover have "run_pays pay_config [(pay_world, 0), (pay_world, 1), (pay_world, 0), (pay_world, 1)] (?s [?A, ?A]) = pay_both"
    by (simp add: run_pay_def Let_def e fall_through_def log_entry_def direct_paid_def pay_admit pay_both_def)
  moreover have "(pay_step pay_config)\<^sup>*\<^sup>* (?s [?A, ?A])
      (run_pays pay_config [(pay_world, 0), (pay_world, 1), (pay_world, 0), (pay_world, 1)] (?s [?A, ?A]))"
    using d by (intro run_pays_steps) simp
  ultimately show ?thesis by (metis rtranclp_trans)
qed

section \<open>Properties\<close>



end
