(* ===== verification/Verify.thy ===== *)
theory Verify
  imports Settle_System
begin

text \<open>
  The session and direct branches of \<open>POST /verify\<close> (\<open>routes/verify.ts\<close>): the same request that will be settled is
  checked beforehand, against the session row and the payer's balance on chain.  Nothing is written.
\<close>

section \<open>Answers\<close>

text \<open>
  The fields \<open>valid\<close>, \<open>isValid\<close> and \<open>sufficient\<close> of an answer are always equal.  \<open>vr_extension\<close> is what a branch
  adds under \<open>extensions\<close>, and \<open>vr_refused\<close> holds \<open>error\<close>, \<open>invalidReason\<close> and \<open>invalidMessage\<close>.
\<close>

record 'x verify_result =
  vr_valid :: bool
  vr_payer :: string
  vr_amount :: string
  vr_resource :: string
  vr_balance :: rat
  vr_network :: string
  vr_extension :: 'x
  vr_refused :: "(string \<times> string \<times> string) option"

datatype 'x verify_answer =
    VerifyFailure nat string string "string option"
  | VerifyAnswer "'x verify_result"

definition sendVerifyFailure :: "nat \<Rightarrow> string \<Rightarrow> string \<Rightarrow> string option \<Rightarrow> 'x verify_answer" where
  "sendVerifyFailure status reason message payer = VerifyFailure status reason message payer"

text \<open>
  What a request takes from its surroundings.  A chain lookup fails with the node (\<open>vw_chainFails\<close>), on Solana also when no
  token account exists for the payer (\<open>vw_noAccount\<close>) or the payer's key is not on the curve (\<open>vw_offCurve\<close>).
\<close>

record verify_world =
  vw_env :: env
  vw_dbFails :: bool
  vw_chain :: chain_view
  vw_chainFails :: bool
  vw_noAccount :: bool
  vw_offCurve :: bool
  vw_spender :: "string option"

section \<open>The checks before the branches\<close>

definition verify_prefix ::
  "facilitator_config \<Rightarrow> json option \<Rightarrow> 'x verify_answer + (verify_input \<times> string \<times> string)" where
  "verify_prefix cf body =
     (case parseVerifyInput body of
        Inl err \<Rightarrow> Inl (sendVerifyFailure 400 ''invalid_request'' err None)
      | Inr inp \<Rightarrow>
          (case parsePaymentScheme (vi_paymentHeader inp) of
             None \<Rightarrow> Inl (sendVerifyFailure 400 ''unsupported_network'' ''Unsupported network'' None)
           | Some (scheme, rawNetwork) \<Rightarrow>
               (case canonicalizeNetwork rawNetwork of
                  None \<Rightarrow> Inl (sendVerifyFailure 400 ''unsupported_network'' ''Unsupported network'' None)
                | Some network \<Rightarrow>
                    if \<not> isSupportedNetwork network (cf_baseEnabled cf) then
                      Inl (sendVerifyFailure 400 ''unsupported_network'' ''Unsupported network'' None)
                    else if (case vi_requirementNetwork inp of
                               None \<Rightarrow> False
                             | Some rn \<Rightarrow> rn \<noteq> [] \<and> canonicalizeNetwork rn \<noteq> Some network) then
                      Inl (sendVerifyFailure 400 ''network_mismatch''
                        ''paymentRequirements.network does not match payment payload network'' None)
                    else Inr (inp, scheme, network))))"

text \<open>The comparison with \<open>maxAmount\<close> and with the facilitator's own limit.\<close>

definition amount_limits :: "facilitator_config \<Rightarrow> verify_input \<Rightarrow> rat \<Rightarrow> string option \<Rightarrow> 'x verify_answer option" where
  "amount_limits cf inp amount payer =
     (if (case vi_maxAmount inp of None \<Rightarrow> False | Some m \<Rightarrow> m < amount)
      then Some (sendVerifyFailure 400 ''amount_exceeds_maximum'' ''Amount exceeds maximum'' payer)
      else if cf_MAX_SETTLEMENT_AMOUNT cf < amount
      then Some (sendVerifyFailure 400 ''amount_exceeds_limit'' ''Amount exceeds facilitator limit'' payer)
      else None)"

section \<open>Session payments\<close>

definition verify_session_header :: "verify_input \<Rightarrow> string \<Rightarrow> session_header option" where
  "verify_session_header inp network =
     (case parseSessionPaymentHeader (vi_paymentHeader inp) of
        None \<Rightarrow> None
      | Some h \<Rightarrow> if canonicalizeNetwork (sh_network h) = Some network then Some h else None)"

definition session_amount_check ::
  "facilitator_config \<Rightarrow> verify_input \<Rightarrow> string \<Rightarrow> payment_session \<Rightarrow> int \<Rightarrow> 'x verify_answer option" where
  "session_amount_check cf inp network row required =
     (let payer = Some (ps_payer_wallet row);
          failure = (\<lambda>status reason msg. Some (sendVerifyFailure status reason msg payer)) in
      if ps_spent_micro row < 0 \<or> ps_max_total_micro row < ps_spent_micro row
      then failure 500 ''server_error'' ''Invalid session limits''
      else if ps_max_total_micro row < ps_spent_micro row + required
      then failure 400 ''amount_exceeds_limit'' ''Amount exceeds remaining session cap''
      else if (case ps_max_single_micro row of None \<Rightarrow> False | Some m \<Rightarrow> m < required)
      then failure 400 ''amount_exceeds_limit'' ''Amount exceeds session per-request limit''
      else (case amount_limits cf inp (fromBaseUnits required) payer of
              Some r \<Rightarrow> Some r
            | None \<Rightarrow>
                if \<not> isValidPayerForNetwork (cf_checks cf) (ps_payer_wallet row) network
                then failure 400 ''invalid_payer_wallet'' ''Invalid payer wallet for network''
                else None))"

definition session_row_check ::
  "facilitator_config \<Rightarrow> env \<Rightarrow> verify_input \<Rightarrow> string \<Rightarrow> payment_session option
   \<Rightarrow> 'x verify_answer + (payment_session \<times> int)" where
  "session_row_check cf e inp network found =
     (case found of
        None \<Rightarrow> Inl (sendVerifyFailure 401 ''invalid_session'' ''Invalid or unknown session token'' None)
      | Some row \<Rightarrow>
          (let payer = Some (ps_payer_wallet row) in
           if ps_revoked_at row \<noteq> None
           then Inl (sendVerifyFailure 401 ''session_revoked'' ''Session token revoked'' None)
           else if ps_expires_at row \<le> env_date_now e
           then Inl (sendVerifyFailure 401 ''session_expired'' ''Session token expired'' None)
           else if canonicalizeNetwork (ps_network row) \<noteq> Some network
           then Inl (sendVerifyFailure 400 ''network_mismatch''
                  ''Session network does not match payment payload network'' None)
           else if (case vi_requirementPayTo inp of None \<Rightarrow> False | Some p \<Rightarrow> p \<noteq> [] \<and> ps_merchant_wallet row \<noteq> p)
           then Inl (sendVerifyFailure 400 ''merchant_mismatch'' ''Session token not valid for this merchant'' None)
           else (case vi_requirementAmountRaw inp of
                   None \<Rightarrow> Inl (sendVerifyFailure 400 ''invalid_amount'' ''Missing payment requirement amount'' payer)
                 | Some raw \<Rightarrow>
                     if raw = []
                     then Inl (sendVerifyFailure 400 ''invalid_amount'' ''Missing payment requirement amount'' payer)
                     else (case parseUsdcMicroAmountBigint raw of
                             None \<Rightarrow> Inl (sendVerifyFailure 400 ''invalid_amount''
                                            ''Invalid payment requirement amount'' payer)
                           | Some required \<Rightarrow>
                               (case session_amount_check cf inp network row required of
                                  Some r \<Rightarrow> Inl r
                                | None \<Rightarrow> Inr (row, required))))))"

text \<open>
  Balance and allowance in micro-USDC, and what the answer says of the allowance: on Base for which
  spender.  The allowance counts only for the facilitator.
\<close>

record allowance_meta =
  am_spender :: "string option"
  am_allowance :: string

definition session_funds ::
  "facilitator_config \<Rightarrow> verify_world \<Rightarrow> string \<Rightarrow> string
   \<Rightarrow> (nat \<times> string \<times> string) + (int \<times> int \<times> allowance_meta)" where
  "session_funds cf w network payer =
     (let ch = vw_chain w; lookupFailed = Inl (502, ''balance_lookup_failed'', ''Balance lookup failed'') in
      if network = BASE_MAINNET_CAIP2 then
        (case vw_spender w of
           None \<Rightarrow> Inl (500, ''server_error'', ''Base facilitator not configured'')
         | Some spender \<Rightarrow>
             if vw_chainFails w \<or> \<not> ac_isAddress (cf_checks cf) payer \<or> \<not> ac_isAddress (cf_checks cf) spender
             then lookupFailed
             else Inr (ch_balance ch, ch_allowance ch,
                       \<lparr>am_spender = Some spender, am_allowance = numeric_text (ch_allowance ch)\<rparr>))
      else if vw_chainFails w \<or> vw_noAccount w \<or> vw_offCurve w \<or> \<not> ac_isPublicKey (cf_checks cf) payer
      then lookupFailed
      else (let allowance = (if ch_delegated ch then ch_allowance ch else 0) in
            Inr (ch_balance ch, allowance, \<lparr>am_spender = None, am_allowance = numeric_text allowance\<rparr>)))"

definition session_verify_answer ::
  "verify_input \<Rightarrow> string \<Rightarrow> payment_session \<Rightarrow> int \<Rightarrow> int \<Rightarrow> int \<Rightarrow> allowance_meta
   \<Rightarrow> allowance_meta option verify_answer" where
  "session_verify_answer inp network row required balanceMicro allowanceMicro meta =
     (let sufficient = (required \<le> balanceMicro \<and> required \<le> allowanceMicro);
          label = (if network = BASE_MAINNET_CAIP2 then ''Allowance insufficient'' else ''Delegated allowance insufficient'');
          msg = (if allowanceMicro < required then label else ''Insufficient USDC balance'') in
      VerifyAnswer
        \<lparr>vr_valid = sufficient, vr_payer = ps_payer_wallet row, vr_amount = js_number_text (fromBaseUnits required),
         vr_resource = or_text (vi_resource inp) [], vr_balance = fromBaseUnits balanceMicro, vr_network = network,
         vr_extension = Some meta,
         vr_refused =
           (if sufficient then None
            else Some (msg, if allowanceMicro < required then ''insufficient_allowance'' else ''insufficient_funds'', msg))\<rparr>)"

definition verify_session ::
  "facilitator_config \<Rightarrow> verify_world \<Rightarrow> verify_input \<Rightarrow> string \<Rightarrow> db \<Rightarrow> allowance_meta option verify_answer option" where
  "verify_session cf w inp network d =
     (case verify_session_header inp network of
        None \<Rightarrow> Some (sendVerifyFailure 400 ''invalid_session_header'' ''Malformed session payment header'' None)
      | Some h \<Rightarrow>
          if vw_dbFails w then None
          else (case session_row_check cf (vw_env w) inp network
                       (getPaymentSessionByTokenHash (hashSessionToken (vw_env w) (sh_token h)) d) of
                  Inl r \<Rightarrow> Some r
                | Inr (row, required) \<Rightarrow>
                    (case session_funds cf w network (ps_payer_wallet row) of
                       Inl (status, reason, msg) \<Rightarrow>
                         Some (sendVerifyFailure status reason msg (Some (ps_payer_wallet row)))
                     | Inr (balanceMicro, allowanceMicro, meta) \<Rightarrow>
                         Some (session_verify_answer inp network row required balanceMicro allowanceMicro meta))))"

section \<open>Direct payments\<close>

text \<open>\<open>getUsdcBalance\<close>: an account that cannot be read counts as empty.\<close>

definition getUsdcBalance :: "verify_world \<Rightarrow> string + rat" where
  "getUsdcBalance w =
     (if vw_offCurve w then Inl ''TokenOwnerOffCurveError''
      else if vw_chainFails w \<or> vw_noAccount w then Inr 0
      else Inr (fromBaseUnits (ch_balance (vw_chain w))))"

definition getBaseUsdcBalanceForAddress :: "address_checks \<Rightarrow> verify_world \<Rightarrow> string \<Rightarrow> string + rat" where
  "getBaseUsdcBalanceForAddress ac w address =
     (if \<not> ac_isAddress ac address then Inl ''Invalid Base address''
      else if vw_chainFails w then Inl ''USDC balanceOf''
      else Inr (fromBaseUnitsEvm (ch_balance (vw_chain w))))"

definition direct_balance :: "facilitator_config \<Rightarrow> verify_world \<Rightarrow> string \<Rightarrow> string \<Rightarrow> rat option" where
  "direct_balance cf w network payer =
     (case (if network = BASE_MAINNET_CAIP2 then getBaseUsdcBalanceForAddress (cf_checks cf) w payer
            else if \<not> ac_isPublicKey (cf_checks cf) payer then Inl ''Invalid public key input''
            else getUsdcBalance w) of
        Inl _ \<Rightarrow> None
      | Inr b \<Rightarrow> Some b)"

definition verify_direct_check ::
  "direct_config \<Rightarrow> env \<Rightarrow> verify_input \<Rightarrow> string \<Rightarrow> 'x verify_answer + (decoded_payment \<times> rat)" where
  "verify_direct_check dc e inp network =
     (case decodePaymentHeader (vi_paymentHeader inp) of
        None \<Rightarrow> Inl (sendVerifyFailure 400 ''invalid_payment_payload'' ''Malformed payment header'' None)
      | Some p \<Rightarrow>
          (let failure = (\<lambda>reason msg. Inl (sendVerifyFailure 400 reason msg (Some (dp_payer p)))) in
           if \<not> isPaymentFresh e p (dc_MAX_PAYMENT_AGE_MS dc) then failure ''payment_expired'' ''Payment expired''
           else if \<not> verifyPaymentAuth (cf_checks dc) (dc_libs dc) p
           then failure ''invalid_signature'' ''Invalid signature''
           else if \<not> isValidPayerForNetwork (cf_checks dc) (dp_payer p) network
           then failure ''invalid_payer_wallet'' ''Invalid payer wallet for network''
           else (case js_Number (dp_amount p) of
                   Finite amountRaw \<Rightarrow>
                     if amountRaw \<le> 0 then failure ''invalid_amount'' ''Invalid amount''
                     else (case parseSignedUsdcAmount (dp_amount p) (vi_requirementAmountRaw inp) of
                             None \<Rightarrow> failure ''amount_mismatch'' ''Amount mismatch with payment requirements''
                           | Some amount \<Rightarrow>
                               (case amount_limits (facilitator_config.truncate dc) inp amount (Some (dp_payer p)) of
                                  Some r \<Rightarrow> Inl r
                                | None \<Rightarrow>
                                    if (case vi_resource inp of
                                          None \<Rightarrow> False | Some r \<Rightarrow> r \<noteq> [] \<and> dp_resource p \<noteq> [] \<and> r \<noteq> dp_resource p)
                                    then failure ''resource_mismatch'' ''Resource mismatch''
                                    else Inr (p, amount)))
                 | _ \<Rightarrow> failure ''invalid_amount'' ''Invalid amount'')))"

definition direct_verify_answer ::
  "verify_input \<Rightarrow> string \<Rightarrow> decoded_payment \<Rightarrow> rat \<Rightarrow> rat \<Rightarrow> allowance_meta option verify_answer" where
  "direct_verify_answer inp network p amount balance =
     (let sufficient = (amount \<le> balance) in
      VerifyAnswer
        \<lparr>vr_valid = sufficient, vr_payer = dp_payer p, vr_amount = js_number_text amount,
         vr_resource = (if dp_resource p \<noteq> [] then dp_resource p else or_text (vi_resource inp) []),
         vr_balance = balance, vr_network = network, vr_extension = None,
         vr_refused =
           (if sufficient then None
            else Some (''Insufficient USDC balance'', ''insufficient_funds'', ''Insufficient USDC balance''))\<rparr>)"

definition verify_direct ::
  "direct_config \<Rightarrow> verify_world \<Rightarrow> verify_input \<Rightarrow> string \<Rightarrow> allowance_meta option verify_answer" where
  "verify_direct dc w inp network =
     (case verify_direct_check dc (vw_env w) inp network of
        Inl r \<Rightarrow> r
      | Inr (p, amount) \<Rightarrow>
          (case direct_balance (facilitator_config.truncate dc) w network (dp_payer p) of
             None \<Rightarrow> sendVerifyFailure 502 ''balance_lookup_failed'' ''Balance lookup failed'' (Some (dp_payer p))
           | Some balance \<Rightarrow> direct_verify_answer inp network p amount balance))"

text \<open>
  The handler for requests without a Kizuna requirement; \<open>None\<close> is a request whose query fails, which the
  application's error handler answers.
\<close>

definition post_verify ::
  "direct_config \<Rightarrow> verify_world \<Rightarrow> json option \<Rightarrow> db \<Rightarrow> allowance_meta option verify_answer option" where
  "post_verify dc w body d =
     (case verify_prefix (facilitator_config.truncate dc) body of
        Inl r \<Rightarrow> Some r
      | Inr (inp, scheme, network) \<Rightarrow>
          if scheme = ''session'' then verify_session (facilitator_config.truncate dc) w inp network d
          else Some (verify_direct dc w inp network))"

section \<open>The same request at verify and at settle\<close>

lemma request_resources:
  "settle_header_requirements ro h r = Inr s \<Longrightarrow> si_requirementResource s = asString (jget r ''resource'')"
  "verify_header_requirements ro h r = Inr v \<Longrightarrow>
     vi_resource v = or_else (asString (jget r ''resource'')) (asString (jget ro ''resource''))"
  "settle_payload_requirements ro p r = Inr s \<Longrightarrow> si_requirementResource s = extractResource r p"
  "verify_payload_requirements p r = Inr v \<Longrightarrow> vi_resource v = extractResource r p"
  by (auto simp: settle_header_requirements_def verify_header_requirements_def settle_payload_requirements_def
      verify_payload_requirements_def parsed_Inr)

definition requests_agree :: "settle_input \<Rightarrow> verify_input \<Rightarrow> bool" where
  "requests_agree s v =
     (si_mode s = X402 \<and> vi_paymentHeader v = si_paymentHeader s \<and> vi_requirementNetwork v = si_requirementNetwork s
      \<and> vi_requirementAmountRaw v = si_requirementAmountRaw s \<and> vi_requirementPayTo v = Some (si_merchantWallet s)
      \<and> si_merchantWallet s \<noteq> [] \<and> vi_requirementKizuna v = si_requirementKizuna s
      \<and> (si_requirementResource s = None \<or> vi_resource v = si_requirementResource s))"

lemma same_request:
  assumes "parseSettleInput (Some (JObj ro)) = Inr s" and "asString (jget ro ''merchantWallet'') = None"
  obtains v where "parseVerifyInput (Some (JObj ro)) = Inr v" "requests_agree s v"
  using assms(1)
proof (cases rule: parseSettle_cases)
  case (legacy ro' h w)
  with assms(2) show ?thesis by simp
next
  case (header ro' h r)
  then have v: "verify_header_requirements ro h r = parseVerifyInput (Some (JObj ro))"
    by (auto simp: parseVerifyInput_def require_def asRecord_def)
  from header have s: "settle_header_requirements ro h r = Inr s" by simp
  obtain u where u: "verify_header_requirements ro h r = Inr u" using settle_header_Inr [OF s] by blast
  have "si_requirementResource s = None \<or> vi_resource u = si_requirementResource s"
    using request_resources(1) [OF s] request_resources(2) [OF u] by (auto simp: or_else_def split: option.splits)
  moreover have "parseVerifyInput (Some (JObj ro)) = Inr u" using v u by simp
  ultimately show ?thesis using settle_header_Inr [OF s] u by (intro that [of u]) (auto simp: requests_agree_def)
next
  case (payload ro' p r)
  then have v: "verify_payload_requirements p r = parseVerifyInput (Some (JObj ro))"
    by (auto simp: parseVerifyInput_def require_def asRecord_def)
  from payload have s: "settle_payload_requirements ro p r = Inr s" by simp
  obtain u where u: "verify_payload_requirements p r = Inr u" using settle_payload_Inr [OF s] by blast
  have "vi_resource u = si_requirementResource s"
    using request_resources(3) [OF s] request_resources(4) [OF u] by simp
  moreover have "parseVerifyInput (Some (JObj ro)) = Inr u" using v u by simp
  ultimately show ?thesis using settle_payload_Inr [OF s] u by (intro that [of u]) (auto simp: requests_agree_def)
qed

text \<open>The prefix of verify and settle let the same requests through, the asset apart.\<close>

lemma same_prefix:
  assumes "parseSettleInput body = Inr s" and "parseVerifyInput body = Inr v" and "requests_agree s v"
    and "si_asset s = [] \<or> si_asset s = ''USDC''" and "verify_prefix cf body = Inr (inp, scheme, network)"
  shows "inp = v \<and> settle_prefix cf body = Inr (s, scheme, network)"
  using assms
  by (auto simp: verify_prefix_def settle_prefix_def requests_agree_def split: option.splits prod.splits if_splits)

lemma amount_limits_None:
  "amount_limits cf inp amount payer = None \<longleftrightarrow>
     (case vi_maxAmount inp of None \<Rightarrow> True | Some m \<Rightarrow> amount \<le> m) \<and> amount \<le> cf_MAX_SETTLEMENT_AMOUNT cf"
  by (auto simp: amount_limits_def not_less split: option.split)

definition merchant_ok :: "facilitator_config \<Rightarrow> string \<Rightarrow> string \<Rightarrow> bool" where
  "merchant_ok cf network merchant =
     (if network = BASE_MAINNET_CAIP2 then ac_isAddress (cf_checks cf) merchant else ac_isPublicKey (cf_checks cf) merchant)"

lemma session_amount_check_None:
  assumes "session_amount_check cf inp network row required = None"
  shows "0 \<le> ps_spent_micro row" "ps_spent_micro row \<le> ps_max_total_micro row"
    and "ps_spent_micro row + required \<le> ps_max_total_micro row"
    and "(case ps_max_single_micro row of None \<Rightarrow> True | Some m \<Rightarrow> required \<le> m)"
    and "fromBaseUnits required \<le> cf_MAX_SETTLEMENT_AMOUNT cf"
  using assms
  by (simp_all add: session_amount_check_def Let_def amount_limits_None not_less split: if_splits option.splits)

lemma session_row_check_Inr:
  assumes "(session_row_check cf e inp network found :: 'x verify_answer + payment_session \<times> int) = Inr (row, required)"
  obtains raw where "found = Some row" "ps_revoked_at row = None" "env_date_now e < ps_expires_at row"
    "canonicalizeNetwork (ps_network row) = Some network" "vi_requirementAmountRaw inp = Some raw" "raw \<noteq> []"
    "\<And>p. vi_requirementPayTo inp = Some p \<Longrightarrow> p \<noteq> [] \<Longrightarrow> ps_merchant_wallet row = p"
    "parseUsdcMicroAmountBigint raw = Some required"
    "(session_amount_check cf inp network row required :: 'x verify_answer option) = None"
proof (cases found)
  case (Some row')
  with assms that show thesis
    by (auto simp: session_row_check_def Let_def not_le split: if_splits option.splits)
qed (use assms in \<open>simp add: session_row_check_def\<close>)

lemma session_row_admitted:
  assumes agree: "requests_agree s v" 
    and check: "(session_row_check cf e v network found :: 'x verify_answer + payment_session \<times> int) = Inr (row, required)"
    and m: "merchant_ok cf network (si_merchantWallet s)" and q: "sr_input q = s" "sr_network q = network"
  shows "\<exists>a. session_admit cf e (Some (si_merchantWallet s)) q found = Inr a
         \<and> ad_payer a = ps_payer_wallet row \<and> ad_amountMicro a = required \<and> ad_amount a = fromBaseUnits required
         \<and> ad_tokenHash a = hashSessionToken e (sr_token q)"
proof -
  obtain raw where r: "found = Some row" "ps_revoked_at row = None" "env_date_now e < ps_expires_at row"
    "canonicalizeNetwork (ps_network row) = Some network" "vi_requirementAmountRaw v = Some raw" "raw \<noteq> []"
    and pay: "\<And>p. vi_requirementPayTo v = Some p \<Longrightarrow> p \<noteq> [] \<Longrightarrow> ps_merchant_wallet row = p"
    and amt: "parseUsdcMicroAmountBigint raw = Some required"
      "(session_amount_check cf v network row required :: 'x verify_answer option) = None"
    using check by (rule session_row_check_Inr) blast
  note c = session_amount_check_None [OF amt(2)]
  have s: "si_requirementAmountRaw s = Some raw" "ps_merchant_wallet row = si_merchantWallet s"
    using agree r(5) pay by (simp_all add: requests_agree_def)
  have "\<exists>a. session_limits cf (Some (si_merchantWallet s)) q (hashSessionToken e (sr_token q)) row required = Inr a
      \<and> ad_payer a = ps_payer_wallet row \<and> ad_amountMicro a = required \<and> ad_amount a = fromBaseUnits required
      \<and> ad_tokenHash a = hashSessionToken e (sr_token q)"
    using c m by (simp add: session_limits_def Let_def q merchant_ok_def split: option.splits if_splits)
  then show ?thesis using r s amt(1) by (simp add: session_admit_def Let_def q)
qed

lemma session_entry_same:
  assumes "requests_agree s v" and "verify_session_header v network = Some h" and "sh_nonce h = Some nonce"
  shows "session_entry s network =
    Inr \<lparr>sr_input = s, sr_network = network, sr_token = sh_token h, sr_nonce = nonce\<rparr>"
  using assms
  by (auto simp: session_entry_def verify_session_header_def requests_agree_def split: option.splits if_splits)

lemma session_row_check_refuses: "session_row_check cf e inp network found \<noteq> Inl (VerifyAnswer r)"
  by (auto simp: session_row_check_def session_amount_check_def amount_limits_def sendVerifyFailure_def Let_def
      split: option.splits)

lemma session_extension:
  assumes "verify_session cf w inp network d = Some (VerifyAnswer r)"
  shows "vr_extension r \<noteq> None"
proof -
  obtain row required b al meta where "session_verify_answer inp network row required b al meta = VerifyAnswer r"
    using assms
    by (auto simp: verify_session_def sendVerifyFailure_def session_row_check_refuses split: option.splits if_splits sum.splits prod.splits)
  then have "r = (case session_verify_answer inp network row required b al meta of VerifyAnswer q \<Rightarrow> q)" by simp
  then show ?thesis by (simp add: session_verify_answer_def Let_def)
qed

text \<open>What a positive answer for a session says of the row and the payer's funds.\<close>

lemma valid_session_answer:
  assumes "verify_session cf w inp network d = Some (VerifyAnswer r)" and "vr_valid r"
  obtains h row required where "verify_session_header inp network = Some h" "\<not> vw_dbFails w"
    "(session_row_check cf (vw_env w) inp network
        (getPaymentSessionByTokenHash (hashSessionToken (vw_env w) (sh_token h)) d)
      :: allowance_meta option verify_answer + payment_session \<times> int) = Inr (row, required)"
    "vr_network r = network" "vr_payer r = ps_payer_wallet row"
    "required \<le> ch_balance (vw_chain w)" "required \<le> ch_allowance (vw_chain w)"
proof -
  obtain h where h: "verify_session_header inp network = Some h" and db: "\<not> vw_dbFails w"
    using assms(1) by (auto simp: verify_session_def sendVerifyFailure_def split: option.splits if_splits)
  let ?found = "getPaymentSessionByTokenHash (hashSessionToken (vw_env w) (sh_token h)) d"
  let ?check = "session_row_check cf (vw_env w) inp network ?found :: allowance_meta option verify_answer + payment_session \<times> int"
  have refused: "?check \<noteq> Inl (VerifyAnswer r)" by (rule session_row_check_refuses)
  obtain row required where c: "?check = Inr (row, required)"
    using assms(1) h db refused by (auto simp: verify_session_def split: sum.splits)
  obtain b al meta where f: "session_funds cf w network (ps_payer_wallet row) = Inr (b, al, meta)"
    and r: "VerifyAnswer r = session_verify_answer inp network row required b al meta"
    using assms(1) h db c by (auto simp: verify_session_def sendVerifyFailure_def split: sum.splits prod.splits)
  have "required \<le> b" "required \<le> al" and n: "vr_network r = network" "vr_payer r = ps_payer_wallet row"
    using r assms(2) by (auto simp: session_verify_answer_def Let_def)
  moreover have "b = ch_balance (vw_chain w)" "al = ch_allowance (vw_chain w) \<or> al = 0"
    using f by (auto simp: session_funds_def Let_def split: if_splits option.splits)
  moreover have "0 < required"
    using session_row_check_Inr [OF c] parseUsdc_positive by metis
  ultimately show thesis using that [OF h db c] by auto
qed

section \<open>Properties\<close>


text \<open>What a positive answer for a signed payment says of the payment.\<close>

lemma valid_direct_answer:
  assumes "verify_direct dc w inp network = VerifyAnswer r" and "vr_valid r"
  obtains p amount where
    "(verify_direct_check dc (vw_env w) inp network :: allowance_meta option verify_answer + decoded_payment \<times> rat)
       = Inr (p, amount)"
    "vr_network r = network" "vr_payer r = dp_payer p" "amount \<le> vr_balance r" "vr_amount r = js_number_text amount"
proof -
  let ?check = "verify_direct_check dc (vw_env w) inp network :: allowance_meta option verify_answer + decoded_payment \<times> rat"
  have "?check \<noteq> Inl (VerifyAnswer r)"
    by (auto simp: verify_direct_check_def amount_limits_def sendVerifyFailure_def Let_def
        split: option.splits js_num.splits)
  then obtain p amount where c: "?check = Inr (p, amount)" using assms(1) by (auto simp: verify_direct_def split: sum.splits)
  then obtain balance where "direct_verify_answer inp network p amount balance = VerifyAnswer r"
    using assms(1) by (auto simp: verify_direct_def sendVerifyFailure_def split: option.splits)
  then have "r = (case direct_verify_answer inp network p amount balance of VerifyAnswer q \<Rightarrow> q)" by simp
  with assms(2) show thesis by (intro that [OF c]) (auto simp: direct_verify_answer_def Let_def)
qed

lemma verify_direct_check_Inr:
  assumes "(verify_direct_check dc e inp network :: 'x verify_answer + decoded_payment \<times> rat) = Inr (p, amount)"
  obtains x where "decodePaymentHeader (vi_paymentHeader inp) = Some p" "isPaymentFresh e p (dc_MAX_PAYMENT_AGE_MS dc)"
    "verifyPaymentAuth (cf_checks dc) (dc_libs dc) p" "isValidPayerForNetwork (cf_checks dc) (dp_payer p) network"
    "js_Number (dp_amount p) = Finite x" "0 < x"
    "parseSignedUsdcAmount (dp_amount p) (vi_requirementAmountRaw inp) = Some amount"
    "amount \<le> cf_MAX_SETTLEMENT_AMOUNT dc"
    "\<And>q. vi_resource inp = Some q \<Longrightarrow> q \<noteq> [] \<Longrightarrow> dp_resource p \<noteq> [] \<Longrightarrow> q = dp_resource p"
  using assms
  by (auto simp: verify_direct_check_def amount_limits_None facilitator_config.truncate_def Let_def not_le
      split: option.splits js_num.splits if_splits)

text \<open>
  What verify promises for a signed payment, settle keeps: when a request is answered as valid at \<open>POST /verify\<close>
  and the same body is posted to \<open>POST /settle\<close> by the merchant's key at the same moment, settle admits it
  for the amount that verify reported, which the payer's balance covers.
\<close>

theorem verified_payment_is_accepted:
  assumes body: "parseSettleInput (Some (JObj ro)) = Inr s" "asString (jget ro ''merchantWallet'') = None"
    and s: "si_asset s = [] \<or> si_asset s = ''USDC''" "si_requirementKizuna s = None"
    and valid: "post_verify dc w (Some (JObj ro)) d = Some (VerifyAnswer r)" "vr_valid r" "vr_extension r = None"
    and merchant: "merchant_ok (facilitator_config.truncate dc) (vr_network r) (si_merchantWallet s)"
    and now: "or_env dw = vw_env w"
  shows "\<exists>a. direct_admit dc dw (Some (JObj ro)) (Some (si_merchantWallet s)) = DAdmitted a
           \<and> dp_payer (da_payment a) = vr_payer r \<and> da_network a = vr_network r
           \<and> js_number_text (da_amount a) = vr_amount r \<and> da_amount a \<le> vr_balance r"
proof -
  let ?cf = "facilitator_config.truncate dc"
  obtain v where v: "parseVerifyInput (Some (JObj ro)) = Inr v" "requests_agree s v"
    using body by (rule same_request)
  obtain inp scheme network where p: "(verify_prefix ?cf (Some (JObj ro)) ::
      allowance_meta option verify_answer + verify_input \<times> string \<times> string) = Inr (inp, scheme, network)"
    using valid(1) by (auto simp: post_verify_def verify_prefix_def sendVerifyFailure_def split: sum.splits option.splits prod.splits if_splits)
  have sp: "inp = v" "settle_prefix ?cf (Some (JObj ro)) = Inr (s, scheme, network)"
    using same_prefix [OF body(1) v s(1) p] by simp_all
  have direct: "scheme \<noteq> ''session''"
  proof
    assume "scheme = ''session''"
    then have v': "verify_session ?cf w v network d = Some (VerifyAnswer r)"
      using valid(1) p sp(1) by (simp add: post_verify_def)
    have "vr_extension r \<noteq> None" using v' by (rule session_extension)
    with valid(3) show False by simp
  qed
  then have "verify_direct dc w v network = VerifyAnswer r"
    using valid(1) p sp(1) by (simp add: post_verify_def)
  then obtain pm amount where c: "(verify_direct_check dc (vw_env w) v network
        :: allowance_meta option verify_answer + decoded_payment \<times> rat) = Inr (pm, amount)"
    and r: "vr_network r = network" "vr_payer r = dp_payer pm" "amount \<le> vr_balance r" "vr_amount r = js_number_text amount"
    using valid(2) by (rule valid_direct_answer)
  obtain x where k: "decodePaymentHeader (vi_paymentHeader v) = Some pm"
    "isPaymentFresh (vw_env w) pm (dc_MAX_PAYMENT_AGE_MS dc)" "verifyPaymentAuth (cf_checks dc) (dc_libs dc) pm"
    "isValidPayerForNetwork (cf_checks dc) (dp_payer pm) network" "js_Number (dp_amount pm) = Finite x" "0 < x"
    "parseSignedUsdcAmount (dp_amount pm) (vi_requirementAmountRaw v) = Some amount"
    "amount \<le> cf_MAX_SETTLEMENT_AMOUNT dc"
    "\<And>q. vi_resource v = Some q \<Longrightarrow> q \<noteq> [] \<Longrightarrow> dp_resource pm \<noteq> [] \<Longrightarrow> q = dp_resource pm"
    using c by (rule verify_direct_check_Inr) blast
  have same: "si_mode s = X402" "si_paymentHeader s = vi_paymentHeader v"
    "si_requirementAmountRaw s = vi_requirementAmountRaw v"
    "si_requirementResource s = None \<or> vi_resource v = si_requirementResource s"
    using v(2) by (simp_all add: requests_agree_def)
  have "q = dp_resource pm" if "si_requirementResource s = Some q" "q \<noteq> []" "dp_resource pm \<noteq> []" for q
    using that same(4) k(9) [of q] by simp
  then have res: "\<not> (case si_requirementResource s of None \<Rightarrow> False
      | Some q \<Rightarrow> q \<noteq> [] \<and> dp_resource pm \<noteq> [] \<and> q \<noteq> dp_resource pm)"
    by (auto split: option.split)
  have m: "(network = BASE_MAINNET_CAIP2 \<longrightarrow> ac_isAddress (cf_checks dc) (si_merchantWallet s))
      \<and> (network \<noteq> BASE_MAINNET_CAIP2 \<longrightarrow> ac_isPublicKey (cf_checks dc) (si_merchantWallet s))"
    using merchant r(1) by (simp add: merchant_ok_def facilitator_config.truncate_def split: if_splits)
  have "direct_amount dc s (Some (si_merchantWallet s)) network pm = Inr amount"
    using k(5-8) res m same by (cases "network = BASE_MAINNET_CAIP2") (simp_all add: direct_amount_def Let_def not_le not_less)
  then have "\<exists>a. direct_check dc (vw_env w) ro s network (Some (si_merchantWallet s)) = Inr a
      \<and> da_payment a = pm \<and> da_network a = network \<and> da_amount a = amount"
    using k same by (simp add: direct_check_def Let_def)
  then show ?thesis
    using sp(2) s(2) direct now r by (auto simp: direct_admit_def asRecord_def)
qed

section \<open>Witnesses\<close>

definition verify_demo_world :: "int \<Rightarrow> verify_world" where
  "verify_demo_world now =
     \<lparr>vw_env = sample_env now, vw_dbFails = False,
      vw_chain = \<lparr>ch_balance = 1000000, ch_allowance = 1000000, ch_delegated = False, ch_net = Rejected [], ch_fee = Rejected []\<rparr>,
      vw_chainFails = False, vw_noAccount = False, vw_offCurve = False, vw_spender = Some ''facilitator''\<rparr>"

definition verify_demo_config :: direct_config where
  "verify_demo_config = facilitator_config.extend demo_config
     \<lparr>dc_libs = dc_libs pay_config, dc_MAX_PAYMENT_AGE_MS = 60000, dc_baseTreasury = []\<rparr>"

lemma verify_demo_config: "facilitator_config.truncate verify_demo_config = demo_config"
  by (simp add: verify_demo_config_def facilitator_config.defs)

lemmas verify_parse_simps = parse_simps parseVerifyInput_def verify_header_requirements_def
  verify_payload_requirements_def extractRequirementNetwork_def extractScheme_def extractPaymentHeader_def
  accepted_of_def jget_opt_def extractMerchantWallet_def extractRequirementAmountRaw_def extractAsset_def
  extractResource_def


theorem verified_payment_is_accepted_witness:
  "\<exists>a. direct_admit pay_config pay_world (Some pay_body) (Some ''m'') = DAdmitted a
        \<and> dp_payer (da_payment a) = ''pAyEr'' \<and> da_amount a \<le> 1"
proof -
  define ro where "ro = (case pay_body of JObj ps \<Rightarrow> ps | _ \<Rightarrow> [])"
  then have body: "JObj ro = pay_body" by (simp add: pay_body_def)
  have none: "asString (jget ro ''merchantWallet'') = None" by (simp add: ro_def pay_body_def jget_def)
  let ?w = "verify_demo_world 1700000000500"
  let ?net = SOLANA_MAINNET_CAIP2
  obtain v where v: "parseVerifyInput (Some pay_body) = Inr v" "requests_agree pay_input v"
    using same_request [of ro pay_input] pay_parse none unfolding body by blast
  then have vi: "vi_paymentHeader v = encodeDecodedPaymentHeader pay_object ''exact'' ''solana:mainnet''"
    "vi_requirementNetwork v = Some ''solana:mainnet''" "vi_requirementAmountRaw v = Some ''250000''"
    by (simp_all add: requests_agree_def pay_input_def)
  have s: "isDecodedPaymentShape pay_object"
    by (simp add: isDecodedPaymentShape_def is_string_def is_number_def pay_object_def jget_def)
  have h: "jget pay_object ''paymentHeader'' = None" by (simp add: pay_object_def jget_def)
  have m: "vi_maxAmount v = None" "vi_resource v = None"
    using v(1) by (auto simp: verify_parse_simps pay_body_def h [unfolded jget_def] s)
  have n: "canonicalizeNetwork ''solana:mainnet'' = Some ?net" "isSupportedNetwork ?net b" for b
    by (simp_all add: network_simps)
  have sch: "parsePaymentScheme (vi_paymentHeader v) = Some (''exact'', ''solana:mainnet'')"
    unfolding vi(1) by (rule scheme_encoded_header) simp
  have pre: "verify_prefix (facilitator_config.truncate pay_config) (Some pay_body) = Inr (v, ''exact'', ?net)"
    by (simp add: verify_prefix_def v(1) vi(2) sch n)
  have f: "isPaymentFresh (sample_env 1700000000500) pay_payment 60000" by code_simp
  have "length (buffer_from_base64 (replicate 86 CHR ''A'')) = 64" by code_simp
  then have au: "verifyPaymentAuth (cf_checks pay_config) (dc_libs pay_config) pay_payment"
    by (simp add: verifyPaymentAuth_def pay_payment_def pay_config_def)
  have ok: "isValidPayerForNetwork (cf_checks pay_config) (dp_payer pay_payment) ?net"
    by (simp add: isValidPayerForNetwork_def network_simps pay_config_def)
  have num: "js_Number ''0.25'' = Finite (1 / 4)" "parseSignedUsdcAmount ''0.25'' (Some ''250000'') = Some (1 / 4)"
    "?net \<noteq> BASE_MAINNET_CAIP2" "fromBaseUnits 1000000 = 1"
    by code_simp+
  have am: "dp_amount pay_payment = ''0.25''" "dp_payer pay_payment = ''pAyEr''" by (simp_all add: pay_payment_def)
  have lim: "amount_limits (facilitator_config.truncate pay_config) v (1 / 4) (Some ''pAyEr'') = None"
    by (simp add: amount_limits_None m pay_config_def facilitator_config.defs)
  have c: "verify_direct_check pay_config (sample_env 1700000000500) v ?net = Inr (pay_payment, 1 / 4)"
    using f au ok
    by (simp add: verify_direct_check_def vi pay_decode am num m lim) (simp add: pay_config_def)
  have b: "direct_balance (facilitator_config.truncate pay_config) ?w ?net ''pAyEr'' = Some 1"
    by (simp add: direct_balance_def getUsdcBalance_def num verify_demo_world_def pay_config_def facilitator_config.defs)
  let ?ans = "direct_verify_answer v ?net pay_payment (1 / 4) 1"
  have e: "vw_env ?w = sample_env 1700000000500" "or_env pay_world = sample_env 1700000000500"
    by (simp_all add: verify_demo_world_def pay_world_def)
  have a: "post_verify pay_config ?w (Some pay_body) (seed_db 0) = Some ?ans"
    by (simp add: post_verify_def pre verify_direct_def e c am b)
  obtain r where r: "?ans = VerifyAnswer r" "vr_valid r" "vr_extension r = None" "vr_network r = ?net"
    "vr_payer r = ''pAyEr''" "vr_balance r = 1"
    by (simp add: direct_verify_answer_def Let_def am)
  have "\<exists>a. direct_admit pay_config pay_world (Some (JObj ro)) (Some (si_merchantWallet pay_input)) = DAdmitted a
      \<and> dp_payer (da_payment a) = vr_payer r \<and> da_network a = vr_network r
      \<and> js_number_text (da_amount a) = vr_amount r \<and> da_amount a \<le> vr_balance r"
  proof (rule verified_payment_is_accepted)
    show "merchant_ok (facilitator_config.truncate pay_config) (vr_network r) (si_merchantWallet pay_input)"
      using r(4) num(3) by (simp add: merchant_ok_def pay_config_def facilitator_config.defs)
    show "post_verify pay_config ?w (Some (JObj ro)) (seed_db 0) = Some (VerifyAnswer r)"
      using body a r(1) by simp
  qed (use body pay_parse none r e in \<open>simp_all add: pay_input_def\<close>)
  then show ?thesis unfolding body using r(5,6) by (auto simp: pay_input_def)
qed

end
