(* ===== verification/Ledger_Frames.thy ===== *)
theory Ledger_Frames
  imports Ledger_System
begin

text \<open>
  What transactions leave alone.  A relation between the states before and after that is reflexive and
  transitive is kept by a transaction when its parts keep it; the interface is interpreted on the
  settlements table, whose rows are never deleted.
\<close>

section \<open>Transactions inside a relation\<close>

named_theorems within_intros "transactions that stay inside a relation"

definition tx_within :: "('s \<Rightarrow> 's \<Rightarrow> bool) \<Rightarrow> ('s, 'a) tx \<Rightarrow> bool" where
  "tx_within R m = (\<forall>s a s'. m s = Inr (a, s') \<longrightarrow> R s s')"

lemma tx_withinI: "(\<And>s a s'. m s = Inr (a, s') \<Longrightarrow> R s s') \<Longrightarrow> tx_within R m"
  by (simp add: tx_within_def)

lemma tx_withinD: "tx_within R m \<Longrightarrow> m s = Inr (a, s') \<Longrightarrow> R s s'"
  by (simp add: tx_within_def)

locale tx_frame =
  fixes R :: "'s \<Rightarrow> 's \<Rightarrow> bool"
  assumes frame_refl: "R s s"
    and frame_trans: "R s t \<Longrightarrow> R t u \<Longrightarrow> R s u"
begin

lemma within_return: "tx_within R (returnT a)"
  by (rule tx_withinI) (auto intro: frame_refl)

lemma within_throw: "tx_within R (throwT e)"
  by (rule tx_withinI) auto

lemma within_get: "tx_within R (getT g)"
  by (rule tx_withinI) (auto intro: frame_refl)

lemma within_ensure: "tx_within R (ensureT c e)"
  by (rule tx_withinI) (auto intro: frame_refl)

lemma within_modify: "(\<And>s. R s (h s)) \<Longrightarrow> tx_within R (modifyT h)"
  by (rule tx_withinI) auto

lemma within_bind: "tx_within R m \<Longrightarrow> (\<And>a. tx_within R (f a)) \<Longrightarrow> tx_within R (bindT m f)"
  by (rule tx_withinI) (auto simp: bindT_success dest: tx_withinD intro: frame_trans)

lemma within_then: "tx_within R m \<Longrightarrow> tx_within R n \<Longrightarrow> tx_within R (thenT m n)"
  by (simp add: thenT_def within_bind)

lemma within_local: "(\<And>s. tx_within R (m s)) \<Longrightarrow> tx_within R (\<lambda>s. m s s)"
  by (rule tx_withinI) (auto dest: tx_withinD)

lemma within_withTransaction: "tx_within R m \<Longrightarrow> R s (snd (withTransaction m s))"
  by (cases "m s") (auto simp: withTransaction_def frame_refl dest: tx_withinD)

end

section \<open>Settlement rows stay\<close>

definition settlements_grow :: "db \<Rightarrow> db \<Rightarrow> bool" where
  "settlements_grow s s' = (st_id ` set (t_settlements s) \<subseteq> st_id ` set (t_settlements s'))"

interpretation settlement_frame: tx_frame settlements_grow
  by unfold_locales (auto simp: settlements_grow_def)

lemma settlements_grow_same: "t_settlements s' = t_settlements s \<Longrightarrow> settlements_grow s s'"
  by (simp add: settlements_grow_def)

lemma settlements_grow_update:
  assumes "t_settlements s' = update_where p f (t_settlements s)" and "\<And>r. st_id (f r) = st_id r"
  shows "settlements_grow s s'"
proof -
  have "map st_id (t_settlements s') = map st_id (t_settlements s)"
    unfolding assms(1) by (rule map_update_where) (rule assms(2))
  then have "set (map st_id (t_settlements s')) = set (map st_id (t_settlements s))" by simp
  then show ?thesis by (simp add: settlements_grow_def)
qed

lemmas settlement_within [within_intros] =
  settlement_frame.within_return settlement_frame.within_throw settlement_frame.within_get
  settlement_frame.within_ensure settlement_frame.within_bind settlement_frame.within_then

lemma within_settlement_parts [within_intros]:
  "tx_within settlements_grow (check_numeric30 c v)" "tx_within settlements_grow (fk_account g)"
  "tx_within settlements_grow (bumpKizunaPoolReserve e p l dr do dc)"
  "tx_within settlements_grow (mutateKizunaEnterpriseBalance e g p da dr ds ma mr)"
  "tx_within settlements_grow (move_prefund e g p da dr ds ma mr msg)"
  "tx_within settlements_grow (queueFairscaleTrustEventOutbox e uid key input)"
  "tx_within settlements_grow (insert_fee_row fr)"
  "tx_within settlements_grow (insert_billable b)"
  "tx_within settlements_grow (upsert_debt e dt)"
  "tx_within settlements_grow (move_position e cp n)"
proof -
  show "tx_within settlements_grow (mutateKizunaEnterpriseBalance e g p da dr ds ma mr)"
    by (rule tx_withinI, rule settlements_grow_same)
      (auto simp: mutateKizunaEnterpriseBalance_def ensureKizunaEnterpriseBalance_def thenT_def bindT_def put_balance_def
        fk_account_def ensureT_def Let_def split: option.splits if_splits)
  show "tx_within settlements_grow (move_position e cp n)"
    by (rule tx_withinI) (auto dest!: move_position_success intro!: settlements_grow_same)
qed (auto intro!: tx_withinI settlements_grow_same simp: insert_fee_row_def insert_billable_def upsert_debt_def
      thenT_success Let_def split: if_splits option.splits
    dest!: bump_success move_prefund_table queue_success)

lemma within_repay_loop [within_intros]: "tx_within settlements_grow (repay_loop e rows acc)"
proof (induction rows arbitrary: acc)
  case (Cons debt rows)
  have "tx_within settlements_grow (modifyT (set_debt i g))" for i g
    by (rule settlement_frame.within_modify) (simp add: settlements_grow_same set_debt_def)
  with Cons show ?case by (auto simp: Let_def intro!: within_intros)
qed (simp add: within_intros)

lemma within_bump_outstanding [within_intros]: "tx_within settlements_grow (bump_outstanding e ds)"
  by (induction e ds rule: bump_outstanding.induct) (simp_all only: bump_outstanding.simps within_intros)

text \<open>A \<open>modifyT\<close> of another table.\<close>

lemma within_modify_same:
  "(\<And>s. t_settlements (h s) = t_settlements s) \<Longrightarrow> tx_within settlements_grow (modifyT h)"
  by (rule settlement_frame.within_modify) (simp add: settlements_grow_same)

lemma within_case_option:
  "(x = None \<Longrightarrow> tx_within R m) \<Longrightarrow> (\<And>y. x = Some y \<Longrightarrow> tx_within R (f y)) \<Longrightarrow>
   tx_within R (case x of None \<Rightarrow> m | Some y \<Rightarrow> f y)"
  by (cases x) simp_all

lemma ledger_operations_within:
  "tx_within settlements_grow (upsertKizunaAccount e acc)"
  "tx_within settlements_grow (insertKizunaUnderwriteDecision e uid dec)"
  "tx_within settlements_grow (createKizunaReservation e uid p)"
  "tx_within settlements_grow (releaseKizunaReservation e rid st)"
  "tx_within settlements_grow (insertSettlement e uid mw pw amt fee asset h sst net)"
  "tx_within settlements_grow (updateSettlementStatus sid sst txo)"
  "tx_within settlements_grow (finalizeKizunaSettlement e f)"
  "tx_within settlements_grow (applyKizunaRepayment e q)"
  "tx_within settlements_grow (applyKizunaFundingEvent e g)"
  "tx_within settlements_grow (applyKizunaCollateralEvent e c)"
proof -
  note same = within_modify_same
  have credit: "tx_within settlements_grow (return_credit e r)" for r
    by (auto simp: return_credit_def unlock_prefund_def Let_def intro!: within_intros)
  have reservation: "tx_within settlements_grow (modifyT (set_reservation i h))" for i h
    by (rule same) (simp add: set_reservation_def)
  show "tx_within settlements_grow (upsertKizunaAccount e acc)"
    by (rule tx_withinI) (auto dest!: account_frame intro: settlements_grow_same)
  show "tx_within settlements_grow (insertKizunaUnderwriteDecision e uid dec)"
    by (rule tx_withinI) (auto dest!: insert_decision_success(2) intro: settlements_grow_same)
  show "tx_within settlements_grow (createKizunaReservation e uid p)"
    by (auto simp: createKizunaReservation_def Let_def lock_prefund_def insert_reservation_def
        intro!: within_intros same)
  show "tx_within settlements_grow (releaseKizunaReservation e rid st)"
  proof (rule tx_withinI)
    fix s a s'
    assume run: "releaseKizunaReservation e rid st s = Inr (a, s')"
    then show "settlements_grow s s'"
      by (auto simp: releaseKizunaReservation_def settlements_grow_def thenT_success
          dest!: tx_withinD [OF credit] split: option.splits) blast
  qed
  show "tx_within settlements_grow (insertSettlement e uid mw pw amt fee asset h sst net)"
    by (rule tx_withinI) (auto dest!: insertSettlement_frame simp: settlements_grow_def)
  show "tx_within settlements_grow (updateSettlementStatus sid sst txo)"
    by (rule tx_withinI) (auto simp: updateSettlementStatus_def intro!: settlements_grow_update split: option.split)
  have confirm: "tx_within settlements_grow (confirm_settlement f)"
    unfolding confirm_settlement_def updateSettlementConfirmed_def
    by (intro within_intros settlement_frame.within_modify)
      (auto intro!: settlements_grow_update simp: confirm_row_def)
  have merchant: "tx_within settlements_grow (settlement_merchant f)"
    by (rule tx_withinI) (auto simp: settlement_merchant_def settlements_grow_def split: option.splits if_splits)
  have live: "tx_within settlements_grow (finalize_live e f r dec)" for r dec
    unfolding finalize_live_def settle_funds_def consume_prefund_def Let_def
    by (auto intro!: within_intros confirm merchant reservation)
  show "tx_within settlements_grow (finalizeKizunaSettlement e f)"
    by (rule tx_withinI) (auto elim!: finalize_success dest: tx_withinD [OF live])
  show "tx_within settlements_grow (applyKizunaRepayment e q)"
  proof -
    have ins: "tx_within settlements_grow (insert_repayment row)" for row
      by (auto simp: insert_repayment_def intro!: within_intros same)
    have que: "tx_within settlements_grow (queue_repayment_event e q row acc)" for row acc
      by (auto simp: queue_repayment_event_def intro!: within_intros split: option.split)
    have "tx_within settlements_grow (repay_new e q)"
      unfolding repay_new_def Let_def by (rule settlement_frame.within_local) (intro within_intros ins que)
    then show ?thesis
      by (intro tx_withinI) (auto simp: applyKizunaRepayment_def settlement_frame.frame_refl
          dest: tx_withinD split: option.splits)
  qed
  show "tx_within settlements_grow (applyKizunaFundingEvent e g)"
  proof -
    have "tx_within settlements_grow (new_funding e g n)" for n
      by (auto simp: new_funding_def insert_funding_event_def intro!: within_intros same within_case_option
          split: option.split)
    then show ?thesis
      by (intro tx_withinI) (auto simp: applyKizunaFundingEvent_def replay_funding_def settlement_frame.frame_refl Let_def
          dest: tx_withinD split: option.splits if_splits)
  qed
  show "tx_within settlements_grow (applyKizunaCollateralEvent e c)"
  proof -
    have "tx_within settlements_grow (report_collateral e c asset n pos)" for asset n pos
      by (rule tx_withinI) (auto dest!: report_collateral_success(1) intro: settlements_grow_same)
    then have "tx_within settlements_grow (new_collateral e c asset n)" for asset n
      by (auto simp: new_collateral_def insert_collateral_event_def intro!: within_intros same)
    then show ?thesis
      by (intro tx_withinI) (auto simp: applyKizunaCollateralEvent_def replay_collateral_def settlement_frame.frame_refl Let_def
          dest: tx_withinD split: option.splits if_splits)
  qed
qed

lemma ledger_step_settlements: "ledger_step s s' \<Longrightarrow> settlements_grow s s'"
  by (erule ledger_stepE)
    (auto intro: settlement_frame.within_withTransaction ledger_operations_within settlements_grow_same
      dest!: outbox_step_frame)

section \<open>Settlement ids\<close>

text \<open>The ids of settlement rows, and those under which debts were made.\<close>

definition recorded_ids :: "db \<Rightarrow> string set" where
  "recorded_ids d = st_id ` set (t_settlements d)"

definition settled_ids :: "db \<Rightarrow> string set" where
  "settled_ids d = d_settlement_id ` set (t_debts d)"

lemma ledger_step_recorded: "d' = d \<or> ledger_step d d' \<Longrightarrow> recorded_ids d \<subseteq> recorded_ids d'"
  using ledger_step_settlements unfolding recorded_ids_def settlements_grow_def by blast

text \<open>Only the settlement of a reservation makes debts; the other operations keep the settlement ids of the debts.\<close>

definition settled_kept :: "db \<Rightarrow> db \<Rightarrow> bool" where
  "settled_kept s s' = (settled_ids s' = settled_ids s)"

interpretation settled_frame: tx_frame settled_kept
  by unfold_locales (simp_all add: settled_kept_def)

lemma settled_kept_same: "t_debts s' = t_debts s \<Longrightarrow> settled_kept s s'"
  by (simp add: settled_kept_def settled_ids_def)

lemma settled_modify_same: "(\<And>s. t_debts (h s) = t_debts s) \<Longrightarrow> tx_within settled_kept (modifyT h)"
  by (rule settled_frame.within_modify) (simp add: settled_kept_same)

lemmas settled_within [within_intros] =
  settled_frame.within_return settled_frame.within_throw settled_frame.within_get
  settled_frame.within_ensure settled_frame.within_bind settled_frame.within_then

lemma within_settled_parts [within_intros]:
  "tx_within settled_kept (check_numeric30 c v)" "tx_within settled_kept (fk_account g)"
  "tx_within settled_kept (bumpKizunaPoolReserve e p l dr do dc)"
  "tx_within settled_kept (mutateKizunaEnterpriseBalance e g p da dr ds ma mr)"
  "tx_within settled_kept (move_prefund e g p da dr ds ma mr msg)"
  "tx_within settled_kept (queueFairscaleTrustEventOutbox e uid key input)"
  "tx_within settled_kept (move_position e cp n)"
proof -
  show "tx_within settled_kept (mutateKizunaEnterpriseBalance e g p da dr ds ma mr)"
    by (rule tx_withinI, rule settled_kept_same)
      (auto simp: mutateKizunaEnterpriseBalance_def ensureKizunaEnterpriseBalance_def thenT_def bindT_def put_balance_def
        fk_account_def ensureT_def Let_def split: option.splits if_splits)
  show "tx_within settled_kept (move_position e cp n)"
    by (rule tx_withinI) (auto dest!: move_position_success intro!: settled_kept_same)
qed (auto intro!: tx_withinI settled_kept_same simp: thenT_success Let_def split: if_splits option.splits
    dest!: bump_success move_prefund_table queue_success)

lemma settled_ids_pay: "settled_ids (set_debt i (pay_row e n) s) = settled_ids s"
proof -
  have "map d_settlement_id (t_debts (set_debt i (pay_row e n) s)) = map d_settlement_id (t_debts s)"
    unfolding set_debt_def by (simp, rule map_update_where) (simp add: pay_row_def Let_def)
  then have "set (map d_settlement_id (t_debts (set_debt i (pay_row e n) s))) = set (map d_settlement_id (t_debts s))" by simp
  then show ?thesis by (simp add: settled_ids_def)
qed

lemma settled_repay_loop [within_intros]: "tx_within settled_kept (repay_loop e rows acc)"
proof (induction rows arbitrary: acc)
  case (Cons debt rows)
  have "tx_within settled_kept (modifyT (set_debt i (pay_row e n)))" for i n
    by (rule settled_frame.within_modify) (simp add: settled_kept_def settled_ids_pay)
  with Cons show ?case by (auto simp: Let_def intro!: within_intros)
qed (simp add: within_intros)

lemma settled_bump_outstanding [within_intros]: "tx_within settled_kept (bump_outstanding e ds)"
  by (induction e ds rule: bump_outstanding.induct) (simp_all only: bump_outstanding.simps within_intros)

lemma ledger_operations_settled:
  "tx_within settled_kept (upsertKizunaAccount e acc)"
  "tx_within settled_kept (insertKizunaUnderwriteDecision e uid dec)"
  "tx_within settled_kept (createKizunaReservation e uid p)"
  "tx_within settled_kept (releaseKizunaReservation e rid st)"
  "tx_within settled_kept (insertSettlement e uid mw pw amt fee asset h sst net)"
  "tx_within settled_kept (updateSettlementStatus sid sst txo)"
  "tx_within settled_kept (applyKizunaRepayment e q)"
  "tx_within settled_kept (applyKizunaFundingEvent e g)"
  "tx_within settled_kept (applyKizunaCollateralEvent e c)"
proof -
  note same = settled_modify_same
  have credit: "tx_within settled_kept (return_credit e r)" for r
    by (auto simp: return_credit_def unlock_prefund_def Let_def intro!: within_intros)
  show "tx_within settled_kept (upsertKizunaAccount e acc)"
    by (rule tx_withinI) (auto dest!: account_frame intro: settled_kept_same)
  show "tx_within settled_kept (insertKizunaUnderwriteDecision e uid dec)"
    by (rule tx_withinI) (auto dest!: insert_decision_success(2) intro: settled_kept_same)
  show "tx_within settled_kept (createKizunaReservation e uid p)"
    by (auto simp: createKizunaReservation_def Let_def lock_prefund_def insert_reservation_def
        intro!: within_intros same)
  show "tx_within settled_kept (releaseKizunaReservation e rid st)"
  proof (rule tx_withinI)
    fix s a s'
    assume run: "releaseKizunaReservation e rid st s = Inr (a, s')"
    then show "settled_kept s s'"
      by (auto simp: releaseKizunaReservation_def settled_frame.frame_refl thenT_success
          dest!: tx_withinD [OF credit] split: option.splits) (simp add: settled_kept_def settled_ids_def)
  qed
  show "tx_within settled_kept (insertSettlement e uid mw pw amt fee asset h sst net)"
    by (rule tx_withinI) (auto dest!: insertSettlement_frame intro: settled_kept_same)
  show "tx_within settled_kept (updateSettlementStatus sid sst txo)"
    by (rule tx_withinI) (auto simp: updateSettlementStatus_def intro!: settled_kept_same split: option.split)
  show "tx_within settled_kept (applyKizunaRepayment e q)"
  proof -
    have ins: "tx_within settled_kept (insert_repayment row)" for row
      by (auto simp: insert_repayment_def intro!: within_intros same)
    have que: "tx_within settled_kept (queue_repayment_event e q row acc)" for row acc
      by (auto simp: queue_repayment_event_def intro!: within_intros split: option.split)
    have "tx_within settled_kept (repay_new e q)"
      unfolding repay_new_def Let_def by (rule settled_frame.within_local) (intro within_intros ins que)
    then show ?thesis
      by (intro tx_withinI) (auto simp: applyKizunaRepayment_def settled_frame.frame_refl
          dest: tx_withinD split: option.splits)
  qed
  show "tx_within settled_kept (applyKizunaFundingEvent e g)"
  proof -
    have "tx_within settled_kept (new_funding e g n)" for n
      by (auto simp: new_funding_def insert_funding_event_def intro!: within_intros same within_case_option
          split: option.split)
    then show ?thesis
      by (intro tx_withinI) (auto simp: applyKizunaFundingEvent_def replay_funding_def settled_frame.frame_refl Let_def
          dest: tx_withinD split: option.splits if_splits)
  qed
  show "tx_within settled_kept (applyKizunaCollateralEvent e c)"
  proof -
    have "tx_within settled_kept (report_collateral e c asset n pos)" for asset n pos
      by (rule tx_withinI) (auto dest!: report_collateral_success(1) intro: settled_kept_same)
    then have "tx_within settled_kept (new_collateral e c asset n)" for asset n
      by (auto simp: new_collateral_def insert_collateral_event_def intro!: within_intros same)
    then show ?thesis
      by (intro tx_withinI) (auto simp: applyKizunaCollateralEvent_def replay_collateral_def settled_frame.frame_refl Let_def
          dest: tx_withinD split: option.splits if_splits)
  qed
qed

end
