(* ===== verification/Canonical_Json.thy ===== *)
theory Canonical_Json
  imports Js_Json "HOL-Library.Char_ord" "HOL-Library.List_Lexorder" "HOL-Library.Multiset"
begin

text \<open>
  \<open>canonicalize\<close> and \<open>canonicalString\<close> of \<open>services/kizuna-request-hash.ts\<close>: the text under which the
  credit kernel and the facilitator hash and sign JSON values.  Properties are sorted by key, at every
  depth.
\<close>

section \<open>The order of properties\<close>

text \<open>
  JavaScript enumerates the properties of an object with its array indices first, in numeric order,
  and the other keys in the order of their insertion.  \<open>sort()\<close> compares keys by code units, which is
  the lexicographic order of the characters here.
\<close>

definition array_index :: "string \<Rightarrow> bool" where
  "array_index k =
     (k \<noteq> [] \<and> list_all is_digit k \<and> (hd k = CHR ''0'' \<longrightarrow> k = ''0'') \<and> digits_value k < 4294967295)"

definition enumerated :: "(string \<times> json) list \<Rightarrow> (string \<times> json) list" where
  "enumerated ps =
     sort_key (\<lambda>p. digits_value (fst p)) (filter (\<lambda>p. array_index (fst p)) ps)
     @ filter (\<lambda>p. \<not> array_index (fst p)) ps"

text \<open>
  \<open>sorted[key] = ..\<close> makes a property of any key but \<open>__proto__\<close>, where it sets the prototype of the
  object and leaves its properties alone.
\<close>

definition proto_key :: string where
  "proto_key = ''__proto__''"

fun canonicalize :: "json \<Rightarrow> json"
  and canonical_items :: "json list \<Rightarrow> json list"
  and canonical_properties :: "(string \<times> json) list \<Rightarrow> (string \<times> json) list" where
  "canonicalize (JArr xs) = JArr (canonical_items xs)"
| "canonicalize (JObj ps) = JObj (enumerated (sort_key fst (canonical_properties ps)))"
| "canonicalize v = v"
| "canonical_items [] = []"
| "canonical_items (x # xs) = canonicalize x # canonical_items xs"
| "canonical_properties [] = []"
| "canonical_properties ((k, v) # ps) =
     (if k = proto_key then canonical_properties ps else (k, canonicalize v) # canonical_properties ps)"

definition canonicalString :: "json \<Rightarrow> string" where
  "canonicalString v = JSON_stringify (canonicalize v)"

section \<open>Values that differ in the order of properties\<close>

lemma size_item: "(x, y) \<in> set (zip xs ys) \<Longrightarrow> size x < Suc (size_list size xs)"
  by (auto dest!: set_zip_leftD simp: less_Suc_eq_le intro: size_list_estimation')

lemma size_property: "(k, v) \<in> set ps \<Longrightarrow> size v < Suc (size_list (size_prod (\<lambda>_. 0) size) ps)"
  by (induction ps) auto

text \<open>
  Two values are the same JSON value when they have the same leaves, the same items in the same order,
  and the same properties in whatever order.
\<close>

function same_value :: "json \<Rightarrow> json \<Rightarrow> bool" where
  "same_value a b =
     (case (a, b) of
        (JArr xs, JArr ys) \<Rightarrow> length xs = length ys \<and> list_all (\<lambda>(x, y). same_value x y) (zip xs ys)
      | (JObj ps, JObj qs) \<Rightarrow>
          fst ` set ps = fst ` set qs
          \<and> list_all (\<lambda>(k, v). case map_of qs k of Some u \<Rightarrow> same_value v u | None \<Rightarrow> False) ps
      | _ \<Rightarrow> a = b)"
  by pat_completeness auto

termination
  by (relation "measure (\<lambda>(a, b). size a)") (auto intro: size_item size_property)

declare same_value.simps [simp del]

lemma same_value_simps [simp]:
  "same_value (JArr xs) (JArr ys) =
     (length xs = length ys \<and> list_all (\<lambda>(x, y). same_value x y) (zip xs ys))"
  "same_value (JObj ps) (JObj qs) =
     (fst ` set ps = fst ` set qs
      \<and> list_all (\<lambda>(k, v). case map_of qs k of Some u \<Rightarrow> same_value v u | None \<Rightarrow> False) ps)"
  by (simp_all add: same_value.simps [of "JArr xs"] same_value.simps [of "JObj ps"])

section \<open>The canonical form decides sameness\<close>

text \<open>Objects have pairwise different keys, and none of them \<open>__proto__\<close>, at every depth.\<close>

fun plain_keys :: "json \<Rightarrow> bool"
  and plain_items :: "json list \<Rightarrow> bool"
  and plain_properties :: "(string \<times> json) list \<Rightarrow> bool" where
  "plain_keys (JArr xs) = plain_items xs"
| "plain_keys (JObj ps) = (distinct (map fst ps) \<and> plain_properties ps)"
| "plain_keys _ = True"
| "plain_items [] = True"
| "plain_items (x # xs) = (plain_keys x \<and> plain_items xs)"
| "plain_properties [] = True"
| "plain_properties ((k, v) # ps) = (k \<noteq> proto_key \<and> plain_keys v \<and> plain_properties ps)"

lemma plain_items_all: "plain_items xs = list_all plain_keys xs"
  by (induction xs) auto

lemma plain_properties_all: "plain_properties ps = list_all (\<lambda>(k, v). k \<noteq> proto_key \<and> plain_keys v) ps"
  by (induction ps) auto

lemma canonical_items_map: "canonical_items xs = map canonicalize xs"
  by (induction xs) auto

lemma canonical_properties_map:
  "plain_properties ps \<Longrightarrow> canonical_properties ps = map (map_prod id canonicalize) ps"
  by (induction ps) auto

lemma mset_enumerated [simp]: "mset (enumerated ps) = mset ps"
  by (simp add: enumerated_def flip: mset_filter) (simp add: mset_filter)

lemma set_enumerated [simp]: "set (enumerated ps) = set ps"
  by (auto simp: enumerated_def)

lemma sorted_properties_eq:
  assumes "distinct (map fst ps)" and "distinct (map fst qs)"
  shows "enumerated (sort_key fst ps) = enumerated (sort_key fst qs) \<longleftrightarrow> set ps = set qs"
proof
  assume "enumerated (sort_key fst ps) = enumerated (sort_key fst qs)"
  then have "set (enumerated (sort_key fst ps)) = set (enumerated (sort_key fst qs))" by simp
  then show "set ps = set qs" by simp
next
  assume s: "set ps = set qs"
  have "mset ps = mset qs"
    using assms s by (intro iffD1 [OF set_eq_iff_mset_eq_distinct]) (auto simp: distinct_map)
  then have "sort_key fst ps = sort_key fst qs"
    using assms(2) s by (intro sort_key_inj_key_eq) (auto simp: distinct_map)
  then show "enumerated (sort_key fst ps) = enumerated (sort_key fst qs)" by simp
qed

lemma same_properties:
  assumes d: "distinct (map fst qs)"
  shows "map_prod id c ` set ps = map_prod id c ` set qs \<longleftrightarrow>
         fst ` set ps = fst ` set qs \<and> (\<forall>p \<in> set ps. \<exists>u. map_of qs (fst p) = Some u \<and> c (snd p) = c u)"
  (is "?A = ?B \<longleftrightarrow> ?keys \<and> ?vals")
proof
  assume e: "?A = ?B"
  have "fst ` ?A = fst ` ?B" using e by simp
  then have "?keys" by (simp add: image_image)
  moreover have "\<exists>u. map_of qs (fst p) = Some u \<and> c (snd p) = c u" if p: "p \<in> set ps" for p
  proof -
    have "map_prod id c p \<in> ?B" using p e by blast
    then obtain q where q: "q \<in> set qs" "fst p = fst q" "c (snd p) = c (snd q)"
      by (auto simp: map_prod_def split_beta)
    with d have "map_of qs (fst p) = Some (snd q)" by simp
    with q(3) show ?thesis by blast
  qed
  ultimately show "?keys \<and> ?vals" by blast
next
  assume kv: "?keys \<and> ?vals"
  have "map_prod id c p \<in> ?B" if p: "p \<in> set ps" for p
  proof -
    obtain u where u: "map_of qs (fst p) = Some u" "c (snd p) = c u" using kv p by blast
    from map_of_SomeD [OF u(1)] have "map_prod id c (fst p, u) \<in> ?B" by (rule imageI)
    with u(2) show ?thesis by (simp add: map_prod_def split_beta)
  qed
  moreover have "map_prod id c q \<in> ?A" if q: "q \<in> set qs" for q
  proof -
    have "fst q \<in> fst ` set ps" using kv q by simp
    then obtain p where p: "p \<in> set ps" "fst p = fst q" by auto
    then obtain u where "map_of qs (fst q) = Some u" "c (snd p) = c u" using kv by metis
    moreover have "map_of qs (fst q) = Some (snd q)" using q d by simp
    ultimately have "map_prod id c q = map_prod id c p" using p(2) by (simp add: map_prod_def split_beta)
    with p(1) show ?thesis by blast
  qed
  ultimately show "?A = ?B" by (intro subset_antisym image_subsetI)
qed

lemma leaf_canonicalize:
  "JNull = canonicalize b \<longleftrightarrow> b = JNull" "JBool x = canonicalize b \<longleftrightarrow> b = JBool x"
  "JNum n = canonicalize b \<longleftrightarrow> b = JNum n" "JStr t = canonicalize b \<longleftrightarrow> b = JStr t"
  by (cases b; auto)+

lemma canonicalize_eq_same:
  "plain_keys a \<Longrightarrow> plain_keys b \<Longrightarrow> canonicalize a = canonicalize b \<longleftrightarrow> same_value a b"
proof (induction a arbitrary: b)
  case (JArr xs)
  show ?case
  proof (cases b)
    case (JArr ys)
    have "list_all plain_keys xs" "list_all plain_keys ys"
      using JArr.prems JArr by (simp_all add: plain_items_all)
    then have "canonicalize (xs ! i) = canonicalize (ys ! i) \<longleftrightarrow> same_value (xs ! i) (ys ! i)"
      if "i < length xs" "length xs = length ys" for i
      using JArr.IH [of "xs ! i" "ys ! i"] that by (simp add: list_all_length)
    then have "map canonicalize xs = map canonicalize ys \<longleftrightarrow>
      length xs = length ys \<and> list_all (\<lambda>(x, y). same_value x y) (zip xs ys)"
      by (auto simp: list_eq_iff_nth_eq list_all_length)
    with JArr show ?thesis by (simp add: canonical_items_map)
  qed (simp_all add: same_value.simps)
next
  case (JObj ps)
  show ?case
  proof (cases b)
    case b: (JObj qs)
    have p: "distinct (map fst ps)" "plain_properties ps" "distinct (map fst qs)" "plain_properties qs"
      using JObj.prems b by simp_all
    have k: "map fst (map (map_prod id canonicalize) r) = map fst r" for r :: json_object by simp
    have "canonicalize (JObj ps) = canonicalize b \<longleftrightarrow>
      map_prod id canonicalize ` set ps = map_prod id canonicalize ` set qs"
      using p by (simp add: b canonical_properties_map sorted_properties_eq k)
    also have "\<dots> \<longleftrightarrow> fst ` set ps = fst ` set qs \<and>
      (\<forall>p \<in> set ps. \<exists>u. map_of qs (fst p) = Some u \<and> canonicalize (snd p) = canonicalize u)"
      by (rule same_properties [OF p(3)])
    also have "\<dots> \<longleftrightarrow> same_value (JObj ps) b"
    proof -
      have "(\<exists>u. map_of qs (fst p) = Some u \<and> canonicalize (snd p) = canonicalize u) \<longleftrightarrow>
        (case map_of qs (fst p) of Some u \<Rightarrow> same_value (snd p) u | None \<Rightarrow> False)" if m: "p \<in> set ps" for p
      proof (cases "map_of qs (fst p)")
        case (Some u)
        have "plain_keys (snd p)" using m p(2) by (auto simp: plain_properties_all list_all_iff split_beta)
        moreover have "plain_keys u"
          using map_of_SomeD [OF Some] p(4) by (auto simp: plain_properties_all list_all_iff)
        ultimately show ?thesis using JObj.IH [OF m, of "snd p" u] Some by (simp add: snds.simps)
      qed simp
      then show ?thesis by (simp add: b list_all_iff split_beta)
    qed
    finally show ?thesis .
  qed (simp_all add: same_value.simps)
qed (auto simp: same_value.simps leaf_canonicalize)

section \<open>Canonical texts\<close>

lemma items_read_all: "items_read xs = list_all json_reads xs"
  by (induction xs) auto

lemma properties_read_all: "properties_read ps = list_all (\<lambda>(k, v). json_reads v) ps"
  by (induction ps) auto

lemma canonicalize_reads: "json_reads v \<Longrightarrow> plain_keys v \<Longrightarrow> json_reads (canonicalize v)"
proof (induction v)
  case (JArr xs)
  then show ?case
    by (auto simp: canonical_items_map items_read_all plain_items_all list_all_iff)
next
  case (JObj ps)
  let ?qs = "map (map_prod id canonicalize) ps"
  have d: "distinct (map fst ?qs)" and c: "canonical_properties ps = ?qs"
    using JObj.prems by (simp_all add: canonical_properties_map)
  have "mset (map fst (enumerated (sort_key fst ?qs))) = mset (map fst ?qs)" by (simp only: mset_map mset_enumerated mset_sort)
  with d have "distinct (map fst (enumerated (sort_key fst ?qs)))" by (metis mset_eq_imp_distinct_iff)
  moreover have "json_reads (snd p)" if "p \<in> set (enumerated (sort_key fst ?qs))" for p
  proof -
    obtain k v where kv: "(k, v) \<in> set ps" "p = (k, canonicalize v)" using \<open>p \<in> _\<close> by auto
    have "json_reads v" "plain_keys v"
      using kv(1) JObj.prems by (auto simp: properties_read_all plain_properties_all list_all_iff)
    then show ?thesis using JObj.IH [OF kv(1), of v] kv(2) by simp
  qed
  ultimately show ?case by (simp add: c properties_read_all list_all_iff split_beta)
qed simp_all

lemma canonical_text_eq:
  assumes "json_reads a" "plain_keys a" "json_reads b" "plain_keys b" and "canonicalString a = canonicalString b"
  shows "canonicalize a = canonicalize b"
  using assms JSON_parse_stringify [OF canonicalize_reads] unfolding canonicalString_def
  by (metis option.inject)

text \<open>
  Claim C31.  Canonical texts identify JSON values up to the order of properties: two values (with pairwise
  different keys, none of them \<open>__proto__\<close>, and numbers whose text reads back) have the same canonical text
  exactly when they have the same leaves, items and properties, whatever the order of the properties at any depth.
\<close>

theorem canonical_text_identifies_value:
  assumes "json_reads a" "plain_keys a" "json_reads b" "plain_keys b"
  shows "canonicalString a = canonicalString b \<longleftrightarrow> same_value a b"
proof
  show "same_value a b" if "canonicalString a = canonicalString b"
    using canonical_text_eq [OF assms that] canonicalize_eq_same [OF assms(2,4)] by blast
  show "canonicalString a = canonicalString b" if "same_value a b"
    using that canonicalize_eq_same [OF assms(2,4)] by (simp add: canonicalString_def)
qed

definition sample_object :: json where
  "sample_object = JObj [(''lane'', JStr ''x''), (''2'', JBool True), (''10'', JArr [JObj [(''b'', JNull), (''a'', JStr ''1'')]])]"

definition sample_reordered :: json where
  "sample_reordered = JObj [(''10'', JArr [JObj [(''a'', JStr ''1''), (''b'', JNull)]]), (''lane'', JStr ''x''), (''2'', JBool True)]"

theorem canonical_text_identifies_value_witness:
  "canonicalString sample_object = canonicalString sample_reordered"
proof (rule canonical_text_identifies_value [THEN iffD2])
  show "same_value sample_object sample_reordered" by code_simp
qed (simp_all add: sample_object_def sample_reordered_def proto_key_def)

end
