(* ===== verification/Kernel_Envelope.thy ===== *)
theory Kernel_Envelope
  imports Canonical_Json Schema
begin

text \<open>
  Decisions of the credit kernel: \<open>services/kizuna-kernel.ts\<close> reads the kernel's answers and the signed
  decision envelopes that a payer brings to settlement, and \<open>services/kizuna-request-hash.ts\<close> hashes the
  terms of a request.  The HTTP exchange with the kernel and the two signature schemes are arguments.
\<close>

section \<open>Envelopes\<close>

datatype risk_action = RiskNone | RiskFreeze | RiskThrottle | RiskUnfreeze

fun risk_action_text :: "risk_action \<Rightarrow> string" where
  "risk_action_text RiskNone = ''none''"
| "risk_action_text RiskFreeze = ''freeze''"
| "risk_action_text RiskThrottle = ''throttle''"
| "risk_action_text RiskUnfreeze = ''unfreeze''"

text \<open>The two payload types share most fields; the second adds the rest.\<close>

record envelope_payload =
  ep_decisionId :: string
  ep_agentId :: string
  ep_payerWallet :: string
  ep_requestNonce :: string
  ep_network :: string
  ep_lane :: lane
  ep_poolId :: string
  ep_approvedMicro :: string
  ep_policyPackId :: string
  ep_ltvBps :: "rat option"
  ep_healthFactor :: "rat option"

record payload_v1 = envelope_payload +
  e1_riskBand :: string

record payload_v2 = envelope_payload +
  e2_repayWallet :: string
  e2_policyPackVersion :: string
  e2_riskLevel :: string
  e2_riskAction :: risk_action
  e2_requestHash :: string

text \<open>\<open>keyId\<close> of the first version and \<open>kid\<close> of the second are the same field here.\<close>

record 'p envelope =
  en_kid :: string
  en_issuedAt :: rat
  en_expiresAt :: rat
  en_payload :: 'p
  en_signature :: string

datatype decision_envelope = EnvelopeV1 "payload_v1 envelope" | EnvelopeV2 "payload_v2 envelope"

section \<open>Reading an envelope\<close>

definition text_or :: "json_object \<Rightarrow> string \<Rightarrow> string \<Rightarrow> string" where
  "text_or ob key fallback = (case asString (jget ob key) of Some t \<Rightarrow> t | None \<Rightarrow> fallback)"

definition read_lane :: "json option \<Rightarrow> lane option" where
  "read_lane v =
     (if asString v = Some ''enterprise'' then Some Enterprise
      else if asString v = Some ''crypto-fast'' then Some CryptoFast
      else None)"

definition read_risk_action :: "string option \<Rightarrow> risk_action option" where
  "read_risk_action t =
     (if t = Some ''none'' then Some RiskNone
      else if t = Some ''freeze'' then Some RiskFreeze
      else if t = Some ''throttle'' then Some RiskThrottle
      else if t = Some ''unfreeze'' then Some RiskUnfreeze
      else None)"

definition envelope_head :: "json_object \<Rightarrow> string \<Rightarrow> (string \<times> rat \<times> rat \<times> string \<times> json_object) option" where
  "envelope_head en kidKey =
     (case (asString (jget en kidKey), asNumber (jget en ''issuedAt''), asNumber (jget en ''expiresAt''),
            asString (jget en ''signature''), asRecord (jget en ''payload'')) of
        (Some kid, Some issuedAt, Some expiresAt, Some signature, Some payload) \<Rightarrow>
          Some (kid, issuedAt, expiresAt, signature, payload)
      | _ \<Rightarrow> None)"

definition read_payload_v1 :: "json_object \<Rightarrow> lane \<Rightarrow> payload_v1" where
  "read_payload_v1 pr l =
     \<lparr>ep_decisionId = text_or pr ''decisionId'' [], ep_agentId = text_or pr ''agentId'' [],
      ep_payerWallet = text_or pr ''payerWallet'' [], ep_requestNonce = text_or pr ''requestNonce'' [],
      ep_network = text_or pr ''network'' [], ep_lane = l, ep_poolId = text_or pr ''poolId'' [],
      ep_approvedMicro = text_or pr ''approvedMicro'' ''0'',
      ep_policyPackId = text_or pr ''policyPackId'' ''unknown-policy'',
      ep_ltvBps = asNumber (jget pr ''ltvBps''), ep_healthFactor = asNumber (jget pr ''healthFactor''),
      e1_riskBand = text_or pr ''riskBand'' ''unknown''\<rparr>"

definition parseLegacyEnvelope :: "json option \<Rightarrow> string + payload_v1 envelope" where
  "parseLegacyEnvelope v =
     (case asRecord v of
        None \<Rightarrow> Inl ''kizuna_kernel_invalid_envelope''
      | Some en \<Rightarrow>
          (case (asString (jget en ''version''), envelope_head en ''keyId'') of
             (Some version, Some (kid, issuedAt, expiresAt, signature, pr)) \<Rightarrow>
               if version \<noteq> ''kizuna-envelope-v1'' then Inl ''kizuna_kernel_invalid_envelope''
               else (case read_lane (jget pr ''lane'') of
                       None \<Rightarrow> Inl ''kizuna_kernel_invalid_envelope_lane''
                     | Some l \<Rightarrow>
                         (let p = read_payload_v1 pr l in
                          if ep_decisionId p = [] \<or> ep_agentId p = [] \<or> ep_payerWallet p = []
                             \<or> ep_requestNonce p = [] \<or> ep_network p = [] \<or> ep_poolId p = []
                          then Inl ''kizuna_kernel_invalid_envelope_payload''
                          else Inr \<lparr>en_kid = kid, en_issuedAt = issuedAt, en_expiresAt = expiresAt,
                                    en_payload = p, en_signature = signature\<rparr>))
           | _ \<Rightarrow> Inl ''kizuna_kernel_invalid_envelope''))"

definition read_payload_v2 :: "json_object \<Rightarrow> lane \<Rightarrow> risk_action \<Rightarrow> payload_v2" where
  "read_payload_v2 pr l ra =
     \<lparr>ep_decisionId = text_or pr ''decisionId'' [], ep_agentId = text_or pr ''agentId'' [],
      ep_payerWallet = text_or pr ''payerWallet'' [], ep_requestNonce = text_or pr ''requestNonce'' [],
      ep_network = text_or pr ''network'' [], ep_lane = l, ep_poolId = text_or pr ''poolId'' [],
      ep_approvedMicro = text_or pr ''approvedMicro'' ''0'', ep_policyPackId = text_or pr ''policyPackId'' [],
      ep_ltvBps = asNumber (jget pr ''ltvBps''), ep_healthFactor = asNumber (jget pr ''healthFactor''),
      e2_repayWallet = text_or pr ''repayWallet'' [], e2_policyPackVersion = text_or pr ''policyPackVersion'' [],
      e2_riskLevel = text_or pr ''riskLevel'' [], e2_riskAction = ra,
      e2_requestHash = text_or pr ''requestHash'' []\<rparr>"

definition payload_v2_complete :: "payload_v2 \<Rightarrow> bool" where
  "payload_v2_complete p =
     (ep_decisionId p \<noteq> [] \<and> ep_agentId p \<noteq> [] \<and> ep_payerWallet p \<noteq> [] \<and> e2_repayWallet p \<noteq> []
      \<and> ep_requestNonce p \<noteq> [] \<and> ep_network p \<noteq> [] \<and> ep_poolId p \<noteq> [] \<and> ep_policyPackId p \<noteq> []
      \<and> e2_policyPackVersion p \<noteq> [] \<and> e2_riskLevel p \<noteq> [] \<and> e2_requestHash p \<noteq> [])"

definition parseV2Envelope :: "json option \<Rightarrow> string + payload_v2 envelope" where
  "parseV2Envelope v =
     (case asRecord v of
        None \<Rightarrow> Inl ''kizuna_kernel_invalid_envelope''
      | Some en \<Rightarrow>
          (case (asString (jget en ''version''), asString (jget en ''alg''), envelope_head en ''kid'') of
             (Some version, Some alg, Some (kid, issuedAt, expiresAt, signature, pr)) \<Rightarrow>
               if version \<noteq> ''kizuna-envelope-v2'' \<or> alg \<noteq> ''ES256'' then Inl ''kizuna_kernel_invalid_envelope''
               else (case read_lane (jget pr ''lane'') of
                       None \<Rightarrow> Inl ''kizuna_kernel_invalid_envelope_lane''
                     | Some l \<Rightarrow>
                         (case read_risk_action (asString (jget pr ''riskAction'')) of
                            None \<Rightarrow> Inl ''kizuna_kernel_invalid_envelope_risk_action''
                          | Some ra \<Rightarrow>
                              (let p = read_payload_v2 pr l ra in
                               if \<not> payload_v2_complete p then Inl ''kizuna_kernel_invalid_envelope_payload''
                               else Inr \<lparr>en_kid = kid, en_issuedAt = issuedAt, en_expiresAt = expiresAt,
                                         en_payload = p, en_signature = signature\<rparr>)))
           | _ \<Rightarrow> Inl ''kizuna_kernel_invalid_envelope''))"

definition parseAnyEnvelope :: "json option \<Rightarrow> string + decision_envelope" where
  "parseAnyEnvelope v =
     (if asString (jget_opt (asRecord v) ''version'') = Some ''kizuna-envelope-v2''
      then map_sum id EnvelopeV2 (parseV2Envelope v)
      else map_sum id EnvelopeV1 (parseLegacyEnvelope v))"

section \<open>Writing an envelope\<close>

text \<open>An optional number that is absent is a property with value \<open>undefined\<close>, which \<open>JSON.stringify\<close> omits.\<close>

definition opt_number :: "string \<Rightarrow> rat option \<Rightarrow> json_object" where
  "opt_number key v = (case v of None \<Rightarrow> [] | Some n \<Rightarrow> [(key, JNum n)])"

definition payload_v1_properties :: "payload_v1 \<Rightarrow> json_object" where
  "payload_v1_properties p =
     [(''decisionId'', JStr (ep_decisionId p)), (''agentId'', JStr (ep_agentId p)),
       (''payerWallet'', JStr (ep_payerWallet p)), (''requestNonce'', JStr (ep_requestNonce p)),
       (''network'', JStr (ep_network p)), (''lane'', JStr (lane_text (ep_lane p))),
       (''poolId'', JStr (ep_poolId p)), (''approvedMicro'', JStr (ep_approvedMicro p)),
       (''policyPackId'', JStr (ep_policyPackId p)), (''riskBand'', JStr (e1_riskBand p))]
      @ opt_number ''ltvBps'' (ep_ltvBps p) @ opt_number ''healthFactor'' (ep_healthFactor p)"

definition payload_v2_properties :: "payload_v2 \<Rightarrow> json_object" where
  "payload_v2_properties p =
     [(''decisionId'', JStr (ep_decisionId p)), (''agentId'', JStr (ep_agentId p)),
       (''payerWallet'', JStr (ep_payerWallet p)), (''repayWallet'', JStr (e2_repayWallet p)),
       (''requestNonce'', JStr (ep_requestNonce p)), (''network'', JStr (ep_network p)),
       (''lane'', JStr (lane_text (ep_lane p))), (''poolId'', JStr (ep_poolId p)),
       (''approvedMicro'', JStr (ep_approvedMicro p)), (''policyPackId'', JStr (ep_policyPackId p)),
       (''policyPackVersion'', JStr (e2_policyPackVersion p)), (''riskLevel'', JStr (e2_riskLevel p)),
       (''riskAction'', JStr (risk_action_text (e2_riskAction p))), (''requestHash'', JStr (e2_requestHash p))]
      @ opt_number ''ltvBps'' (ep_ltvBps p) @ opt_number ''healthFactor'' (ep_healthFactor p)"

text \<open>The part under the signature.\<close>

definition signed_part_v1 :: "payload_v1 envelope \<Rightarrow> json_object" where
  "signed_part_v1 en =
     [(''version'', JStr ''kizuna-envelope-v1''), (''keyId'', JStr (en_kid en)),
      (''issuedAt'', JNum (en_issuedAt en)), (''expiresAt'', JNum (en_expiresAt en)),
      (''payload'', JObj (payload_v1_properties (en_payload en)))]"

definition signed_part_v2 :: "payload_v2 envelope \<Rightarrow> json_object" where
  "signed_part_v2 en =
     [(''version'', JStr ''kizuna-envelope-v2''), (''alg'', JStr ''ES256''), (''kid'', JStr (en_kid en)),
      (''issuedAt'', JNum (en_issuedAt en)), (''expiresAt'', JNum (en_expiresAt en)),
      (''payload'', JObj (payload_v2_properties (en_payload en)))]"

fun envelope_json :: "decision_envelope \<Rightarrow> json" where
  "envelope_json (EnvelopeV1 en) = JObj (signed_part_v1 en @ [(''signature'', JStr (en_signature en))])"
| "envelope_json (EnvelopeV2 en) = JObj (signed_part_v2 en @ [(''signature'', JStr (en_signature en))])"

definition hashKizunaDecisionEnvelope :: "env \<Rightarrow> decision_envelope \<Rightarrow> string" where
  "hashKizunaDecisionEnvelope e en = env_sha256 e (canonicalString (envelope_json en))"

section \<open>Checking an envelope\<close>

text \<open>
  The configured keys by name, and Node's crypto: the hex digest of an HMAC with SHA-256, and the ES256
  check of a text against a PEM key and signature bytes, which throws on a malformed key.
\<close>

record kernel_keys =
  kk_signingKeys :: "string \<Rightarrow> string option"
  kk_publicKeys :: "string \<Rightarrow> string option"
  kk_hmac :: "string \<Rightarrow> string \<Rightarrow> string"
  kk_verify :: "string \<Rightarrow> string \<Rightarrow> nat list \<Rightarrow> string + bool"

text \<open>\<open>Buffer.from(text, 'hex')\<close> stops at the first pair that is not hexadecimal.\<close>

fun buffer_from_hex :: "string \<Rightarrow> nat list" where
  "buffer_from_hex (a # b # s) =
     (case (radix_digit a, radix_digit b) of
        (Some x, Some y) \<Rightarrow> (16 * x + y) # buffer_from_hex s
      | _ \<Rightarrow> [])"
| "buffer_from_hex _ = []"

definition safeEqualHex :: "string \<Rightarrow> string \<Rightarrow> bool" where
  "safeEqualHex a b = (buffer_from_hex a = buffer_from_hex b)"

definition configured_key :: "(string \<Rightarrow> string option) \<Rightarrow> string \<Rightarrow> string option" where
  "configured_key keys name = (case keys name of Some k \<Rightarrow> if k = [] then None else Some k | None \<Rightarrow> None)"

definition verifyLegacySignature :: "kernel_keys \<Rightarrow> payload_v1 envelope \<Rightarrow> string + bool" where
  "verifyLegacySignature kk en =
     (case configured_key (kk_signingKeys kk) (en_kid en) of
        None \<Rightarrow> Inl (''unknown_kizuna_kernel_key:'' @ en_kid en)
      | Some secret \<Rightarrow>
          Inr (safeEqualHex (kk_hmac kk secret (canonicalString (JObj (signed_part_v1 en)))) (en_signature en)))"

definition verifyV2Signature :: "kernel_keys \<Rightarrow> payload_v2 envelope \<Rightarrow> string + bool" where
  "verifyV2Signature kk en =
     (case configured_key (kk_publicKeys kk) (en_kid en) of
        None \<Rightarrow> Inl (''unknown_kizuna_kernel_public_key:'' @ en_kid en)
      | Some publicKeyPem \<Rightarrow>
          kk_verify kk publicKeyPem (canonicalString (JObj (signed_part_v2 en)))
            (buffer_from_base64 (en_signature en)))"

fun envelope_window :: "decision_envelope \<Rightarrow> rat \<times> rat" where
  "envelope_window (EnvelopeV1 en) = (en_issuedAt en, en_expiresAt en)"
| "envelope_window (EnvelopeV2 en) = (en_issuedAt en, en_expiresAt en)"

definition ensureEnvelopeWindow :: "decision_envelope \<Rightarrow> int \<Rightarrow> string + unit" where
  "ensureEnvelopeWindow de nowMs =
     (let (issuedAt, expiresAt) = envelope_window de in
      if expiresAt \<le> of_int nowMs then Inl ''kizuna_envelope_expired''
      else if of_int nowMs + 60000 < issuedAt then Inl ''kizuna_envelope_issued_in_future''
      else Inr ())"

fun envelope_signature_valid :: "kernel_keys \<Rightarrow> decision_envelope \<Rightarrow> string + bool" where
  "envelope_signature_valid kk (EnvelopeV1 en) = verifyLegacySignature kk en"
| "envelope_signature_valid kk (EnvelopeV2 en) = verifyV2Signature kk en"

definition verifyKizunaDecisionEnvelope :: "kernel_keys \<Rightarrow> int \<Rightarrow> json option \<Rightarrow> string + decision_envelope" where
  "verifyKizunaDecisionEnvelope kk nowMs envelopeInput =
     (case parseAnyEnvelope envelopeInput of
        Inl msg \<Rightarrow> Inl msg
      | Inr de \<Rightarrow>
          (case ensureEnvelopeWindow de nowMs of
             Inl msg \<Rightarrow> Inl msg
           | Inr _ \<Rightarrow>
               (case envelope_signature_valid kk de of
                  Inl msg \<Rightarrow> Inl msg
                | Inr valid \<Rightarrow> if valid then Inr de else Inl ''kizuna_envelope_invalid_signature'')))"

section \<open>The terms of a request\<close>

record request_terms =
  rt_agentId :: string
  rt_repayWallet :: string
  rt_payerWallet :: string
  rt_requestNonce :: string
  rt_network :: string
  rt_requestedMicro :: string
  rt_resource :: "string option"
  rt_payTo :: "string option"
  rt_lane :: lane
  rt_poolId :: string
  rt_collateralAccount :: "string option"

definition trim_or_empty :: "string option \<Rightarrow> string" where
  "trim_or_empty v = (case v of None \<Rightarrow> [] | Some t \<Rightarrow> js_trim t)"

definition normalized_terms :: "request_terms \<Rightarrow> json_object" where
  "normalized_terms t =
     [(''agentId'', JStr (js_trim (rt_agentId t))), (''repayWallet'', JStr (js_trim (rt_repayWallet t))),
      (''payerWallet'', JStr (js_trim (rt_payerWallet t))), (''requestNonce'', JStr (js_trim (rt_requestNonce t))),
      (''network'', JStr (js_trim (rt_network t))), (''requestedMicro'', JStr (js_trim (rt_requestedMicro t))),
      (''resource'', JStr (trim_or_empty (rt_resource t))), (''payTo'', JStr (trim_or_empty (rt_payTo t))),
      (''lane'', JStr (lane_text (rt_lane t))), (''poolId'', JStr (js_trim (rt_poolId t))),
      (''collateralAccount'', JStr (trim_or_empty (rt_collateralAccount t)))]"

definition hashKizunaRequest :: "env \<Rightarrow> request_terms \<Rightarrow> string" where
  "hashKizunaRequest e t = env_sha256 e (canonicalString (JObj (normalized_terms t)))"

section \<open>The kernel's answer to an evaluation\<close>

record kernel_result =
  kr_approved :: bool
  kr_decisionId :: string
  kr_approvedMicro :: string
  kr_availableMicro :: string
  kr_outstandingMicro :: string
  kr_scoreRaw :: rat
  kr_reasonCodes :: "string list"
  kr_tier :: string
  kr_resultLane :: lane
  kr_resultPool :: string
  kr_policyPackId :: string
  kr_policyPackVersion :: string
  kr_riskLevel :: string
  kr_riskAction :: risk_action
  kr_requestHash :: string
  kr_signingKid :: "string option"
  kr_ltvBps :: "rat option"
  kr_healthFactor :: "rat option"
  kr_envelope :: "payload_v2 envelope option"

definition parseReasonCodes :: "json option \<Rightarrow> string list" where
  "parseReasonCodes v =
     (case v of
        Some (JArr xs) \<Rightarrow>
          filter (\<lambda>t. t \<noteq> []) (map (\<lambda>x. case x of JStr t \<Rightarrow> js_trim t | _ \<Rightarrow> []) xs)
      | _ \<Rightarrow> [])"

definition read_result_envelope :: "json option \<Rightarrow> string + payload_v2 envelope option" where
  "read_result_envelope v =
     (if v = None \<or> v = Some JNull then Inr None
      else (case parseAnyEnvelope v of
              Inl msg \<Rightarrow> Inl msg
            | Inr (EnvelopeV1 _) \<Rightarrow> Inl ''kizuna_kernel_invalid_response''
            | Inr (EnvelopeV2 en) \<Rightarrow> Inr (Some en)))"

definition kernel_text_fields :: "json_object \<Rightarrow> string option list" where
  "kernel_text_fields ob =
     map (\<lambda>k. asString (jget ob k))
       [''decisionId'', ''approvedMicro'', ''availableMicro'', ''outstandingMicro'', ''tier'', ''poolId'',
        ''policyPackId'', ''policyPackVersion'', ''requestHash'']"

definition kernel_risk_level :: "json_object \<Rightarrow> string option" where
  "kernel_risk_level ob = or_else (asString (jget ob ''riskLevel'')) (asString (jget ob ''riskBand''))"

definition mapKernelEvaluateResult :: "json option \<Rightarrow> string + kernel_result" where
  "mapKernelEvaluateResult v =
     (case asRecord v of
        None \<Rightarrow> Inl ''kizuna_kernel_invalid_response''
      | Some ob \<Rightarrow>
          (case (asBoolean (jget ob ''approved''), asNumber (jget ob ''scoreRaw''), read_lane (jget ob ''lane''),
                 kernel_risk_level ob,
                 read_risk_action (or_else (asString (jget ob ''riskAction'')) (Some ''none''))) of
             (Some approved, Some scoreRaw, Some l, Some riskLevel, Some riskAction) \<Rightarrow>
               if None \<in> set (kernel_text_fields ob)
                  \<or> asString (jget ob ''envelopeVersion'') \<noteq> Some ''kizuna-envelope-v2''
               then Inl ''kizuna_kernel_invalid_response''
               else
                 (case read_result_envelope (jget ob ''decisionEnvelope'') of
                    Inl msg \<Rightarrow> Inl msg
                  | Inr en \<Rightarrow>
                      Inr \<lparr>kr_approved = approved, kr_decisionId = text_or ob ''decisionId'' [],
                           kr_approvedMicro = text_or ob ''approvedMicro'' [],
                           kr_availableMicro = text_or ob ''availableMicro'' [],
                           kr_outstandingMicro = text_or ob ''outstandingMicro'' [], kr_scoreRaw = scoreRaw,
                           kr_reasonCodes = parseReasonCodes (jget ob ''reasonCodes''),
                           kr_tier = text_or ob ''tier'' [], kr_resultLane = l,
                           kr_resultPool = text_or ob ''poolId'' [],
                           kr_policyPackId = text_or ob ''policyPackId'' [],
                           kr_policyPackVersion = text_or ob ''policyPackVersion'' [],
                           kr_riskLevel = riskLevel, kr_riskAction = riskAction,
                           kr_requestHash = text_or ob ''requestHash'' [],
                           kr_signingKid = asString (jget ob ''signingKid''),
                           kr_ltvBps = asNumber (jget ob ''ltvBps''),
                           kr_healthFactor = asNumber (jget ob ''healthFactor''), kr_envelope = en\<rparr>)
           | _ \<Rightarrow> Inl ''kizuna_kernel_invalid_response''))"

text \<open>
  \<open>kernelFetch\<close>: no base URL, a transport failure (a timeout among them), a response with an error status,
  whose body may name the error, or a body; a body that is not JSON counts as \<open>null\<close>.
\<close>

datatype kernel_answer =
    KernelUnreachable string
  | KernelStatus nat "json option"
  | KernelBody "json option"

definition kernelFetch :: "bool \<Rightarrow> kernel_answer \<Rightarrow> string + json option" where
  "kernelFetch configured answer =
     (if \<not> configured then Inl ''kizuna_kernel_not_configured''
      else (case answer of
              KernelUnreachable msg \<Rightarrow> Inl msg
            | KernelStatus status body \<Rightarrow>
                Inl (''kizuna_kernel_http_error:'' @
                  (case jget_opt (asRecord body) ''error'' of
                     Some (JStr msg) \<Rightarrow> msg
                   | _ \<Rightarrow> ''HTTP '' @ nat_text status))
            | KernelBody body \<Rightarrow> Inr (Some (case body of None \<Rightarrow> JNull | Some v \<Rightarrow> v))))"

definition evaluateKizunaKernelDecision :: "bool \<Rightarrow> kernel_answer \<Rightarrow> string + kernel_result" where
  "evaluateKizunaKernelDecision configured answer =
     (case kernelFetch configured answer of Inl msg \<Rightarrow> Inl msg | Inr payload \<Rightarrow> mapKernelEvaluateResult payload)"

definition commitKizunaKernelDecision :: "bool \<Rightarrow> kernel_answer \<Rightarrow> string + unit" where
  "commitKizunaKernelDecision configured answer = map_sum id (\<lambda>_. ()) (kernelFetch configured answer)"

section \<open>What an accepted envelope guarantees\<close>

fun envelope_texts :: "decision_envelope \<Rightarrow> string list" where
  "envelope_texts (EnvelopeV1 en) =
     (let p = en_payload en in
      [en_kid en, en_signature en, ep_decisionId p, ep_agentId p, ep_payerWallet p, ep_requestNonce p,
       ep_network p, ep_poolId p, ep_approvedMicro p, ep_policyPackId p, e1_riskBand p])"
| "envelope_texts (EnvelopeV2 en) =
     (let p = en_payload en in
      [en_kid en, en_signature en, ep_decisionId p, ep_agentId p, ep_payerWallet p, ep_requestNonce p,
       ep_network p, ep_poolId p, ep_approvedMicro p, ep_policyPackId p, e2_repayWallet p,
       e2_policyPackVersion p, e2_riskLevel p, e2_requestHash p])"

definition clean_text :: "string \<Rightarrow> bool" where
  "clean_text t = (t \<noteq> [] \<and> js_trim t = t)"

lemma js_trim_trimmed: "js_trim (js_trim s) = js_trim s"
proof (cases "js_trim s = []")
  case True
  moreover have "js_trim [] = []" by (simp add: js_trim_def)
  ultimately show ?thesis by metis
next
  case False
  let ?u = "dropWhile js_space s"
  let ?t = "js_trim s"
  have u: "?u = ?t @ rev (takeWhile js_space (rev ?u))"
    by (simp add: js_trim_def flip: rev_append)
  have "?u \<noteq> []" using False unfolding js_trim_def by (metis dropWhile.simps(1) rev.simps(1))
  then have "\<not> js_space (hd ?u)" by (rule hd_dropWhile)
  then have "\<not> js_space (hd ?t)" using u False by (metis hd_append2)
  moreover have "\<not> js_space (last ?t)"
    using False hd_dropWhile [of js_space "rev ?u"] by (simp add: js_trim_def last_rev)
  ultimately show ?thesis using False by (intro js_trim_id) auto
qed

lemma map_sum_Inr: "map_sum f g x = Inr y \<longleftrightarrow> (\<exists>z. x = Inr z \<and> y = g z)"
  by (cases x) auto

lemma asString_clean: "asString v = Some t \<Longrightarrow> clean_text t"
  by (auto simp: asString_def clean_text_def js_trim_trimmed split: option.splits json.splits if_splits)

lemma text_or_clean: "text_or ob k [] \<noteq> [] \<Longrightarrow> clean_text (text_or ob k [])"
  by (auto simp: text_or_def asString_clean split: option.splits)

lemma text_or_literal:
  "clean_text (text_or ob k ''0'')" "clean_text (text_or ob k ''unknown'')"
  "clean_text (text_or ob k ''unknown-policy'')"
proof -
  have "clean_text ''0''" "clean_text ''unknown''" "clean_text ''unknown-policy''" by code_simp+
  then show "clean_text (text_or ob k ''0'')" "clean_text (text_or ob k ''unknown'')"
    "clean_text (text_or ob k ''unknown-policy'')"
    by (auto simp: text_or_def asString_clean split: option.splits)
qed

lemma envelope_head_Some:
  "envelope_head en k = Some (kid, i, x, sig, pr) \<longleftrightarrow>
   asString (jget en k) = Some kid \<and> asNumber (jget en ''issuedAt'') = Some i \<and>
   asNumber (jget en ''expiresAt'') = Some x \<and> asString (jget en ''signature'') = Some sig \<and>
   asRecord (jget en ''payload'') = Some pr"
  by (auto simp: envelope_head_def split: option.splits)

lemma parse_v1_success:
  assumes "parseLegacyEnvelope v = Inr e"
  obtains en pr l where "asRecord v = Some en" "asString (jget en ''version'') = Some ''kizuna-envelope-v1''"
    "envelope_head en ''keyId'' = Some (en_kid e, en_issuedAt e, en_expiresAt e, en_signature e, pr)"
    "read_lane (jget pr ''lane'') = Some l" "en_payload e = read_payload_v1 pr l"
    "ep_decisionId (en_payload e) \<noteq> []" "ep_agentId (en_payload e) \<noteq> []" "ep_payerWallet (en_payload e) \<noteq> []"
    "ep_requestNonce (en_payload e) \<noteq> []" "ep_network (en_payload e) \<noteq> []" "ep_poolId (en_payload e) \<noteq> []"
  using assms by (auto simp: parseLegacyEnvelope_def Let_def split: option.splits if_splits)

lemma parse_v2_success:
  assumes "parseV2Envelope v = Inr e"
  obtains en pr l ra where "asRecord v = Some en" "asString (jget en ''version'') = Some ''kizuna-envelope-v2''"
    "asString (jget en ''alg'') = Some ''ES256''"
    "envelope_head en ''kid'' = Some (en_kid e, en_issuedAt e, en_expiresAt e, en_signature e, pr)"
    "read_lane (jget pr ''lane'') = Some l" "read_risk_action (asString (jget pr ''riskAction'')) = Some ra"
    "en_payload e = read_payload_v2 pr l ra" "payload_v2_complete (en_payload e)"
  using assms by (auto simp: parseV2Envelope_def Let_def split: option.splits if_splits)

lemma parsed_texts_clean:
  assumes "parseAnyEnvelope v = Inr de"
  shows "list_all clean_text (envelope_texts de)"
proof (cases de)
  case (EnvelopeV1 e)
  with assms have "parseLegacyEnvelope v = Inr e"
    by (auto simp: parseAnyEnvelope_def map_sum_Inr split: if_splits)
  then show ?thesis
    by (rule parse_v1_success)
      (auto simp: EnvelopeV1 envelope_head_Some asString_clean Let_def read_payload_v1_def text_or_literal
        intro!: text_or_clean)
next
  case (EnvelopeV2 e)
  with assms have "parseV2Envelope v = Inr e"
    by (auto simp: parseAnyEnvelope_def map_sum_Inr split: if_splits)
  then show ?thesis
    by (rule parse_v2_success)
      (auto simp: EnvelopeV2 envelope_head_Some asString_clean Let_def read_payload_v2_def payload_v2_complete_def
        text_or_literal intro!: text_or_clean)
qed

lemma asString_of_clean: "clean_text t \<Longrightarrow> asString (Some (JStr t)) = Some t"
  by (simp add: asString_def clean_text_def)

lemma jget_simps:
  "jget ((k, v) # ps) k' = (if k' = k then Some v else jget ps k')" "jget [] k' = None"
  "jget (ps @ qs) k' = (case jget ps k' of Some v \<Rightarrow> Some v | None \<Rightarrow> jget qs k')"
  "jget (opt_number k n) k' = (if k' = k then map_option JNum n else None)"
  "k' \<noteq> k \<Longrightarrow> jget (opt_number k n) k' = None"
  by (auto simp: jget_def opt_number_def map_add_def split: option.split)

lemma read_written_enums:
  "read_lane (Some (JStr (lane_text l))) = Some l"
  "read_risk_action (asString (Some (JStr (risk_action_text ra)))) = Some ra"
proof -
  have "read_lane (Some (JStr ''enterprise'')) = Some Enterprise"
    "read_lane (Some (JStr ''crypto-fast'')) = Some CryptoFast" by code_simp+
  then show "read_lane (Some (JStr (lane_text l))) = Some l" by (cases l) simp_all
  have "read_risk_action (asString (Some (JStr ''none''))) = Some RiskNone"
    "read_risk_action (asString (Some (JStr ''freeze''))) = Some RiskFreeze"
    "read_risk_action (asString (Some (JStr ''throttle''))) = Some RiskThrottle"
    "read_risk_action (asString (Some (JStr ''unfreeze''))) = Some RiskUnfreeze" by code_simp+
  then show "read_risk_action (asString (Some (JStr (risk_action_text ra)))) = Some ra" by (cases ra) simp_all
qed

lemma text_or_found: "jget ob k = Some (JStr t) \<Longrightarrow> clean_text t \<Longrightarrow> text_or ob k d = t"
  by (simp add: text_or_def asString_of_clean)

lemma asNumber_opt: "asNumber (map_option JNum n) = n"
  by (cases n) (simp_all add: asNumber_def)

lemma opt_number_found:
  "k \<noteq> k' \<Longrightarrow> (case n of None \<Rightarrow> jget (opt_number k m) k' | Some x \<Rightarrow> (Some \<circ> JNum) x) = map_option JNum n"
  by (cases n) (simp_all add: jget_simps)

lemma payload_v1_get:
  "jget (payload_v1_properties p) ''decisionId'' = Some (JStr (ep_decisionId p))"
  "jget (payload_v1_properties p) ''agentId'' = Some (JStr (ep_agentId p))"
  "jget (payload_v1_properties p) ''payerWallet'' = Some (JStr (ep_payerWallet p))"
  "jget (payload_v1_properties p) ''requestNonce'' = Some (JStr (ep_requestNonce p))"
  "jget (payload_v1_properties p) ''network'' = Some (JStr (ep_network p))"
  "jget (payload_v1_properties p) ''poolId'' = Some (JStr (ep_poolId p))"
  "jget (payload_v1_properties p) ''approvedMicro'' = Some (JStr (ep_approvedMicro p))"
  "jget (payload_v1_properties p) ''policyPackId'' = Some (JStr (ep_policyPackId p))"
  "jget (payload_v1_properties p) ''riskBand'' = Some (JStr (e1_riskBand p))"
  "jget (payload_v1_properties p) ''lane'' = Some (JStr (lane_text (ep_lane p)))"
  "jget (payload_v1_properties p) ''ltvBps'' = map_option JNum (ep_ltvBps p)"
  "jget (payload_v1_properties p) ''healthFactor'' = map_option JNum (ep_healthFactor p)"
  by (simp_all add: payload_v1_properties_def jget_simps opt_number_found)

lemma payload_v2_get:
  "jget (payload_v2_properties p) ''decisionId'' = Some (JStr (ep_decisionId p))"
  "jget (payload_v2_properties p) ''agentId'' = Some (JStr (ep_agentId p))"
  "jget (payload_v2_properties p) ''payerWallet'' = Some (JStr (ep_payerWallet p))"
  "jget (payload_v2_properties p) ''requestNonce'' = Some (JStr (ep_requestNonce p))"
  "jget (payload_v2_properties p) ''network'' = Some (JStr (ep_network p))"
  "jget (payload_v2_properties p) ''poolId'' = Some (JStr (ep_poolId p))"
  "jget (payload_v2_properties p) ''approvedMicro'' = Some (JStr (ep_approvedMicro p))"
  "jget (payload_v2_properties p) ''policyPackId'' = Some (JStr (ep_policyPackId p))"
  "jget (payload_v2_properties p) ''repayWallet'' = Some (JStr (e2_repayWallet p))"
  "jget (payload_v2_properties p) ''policyPackVersion'' = Some (JStr (e2_policyPackVersion p))"
  "jget (payload_v2_properties p) ''riskLevel'' = Some (JStr (e2_riskLevel p))"
  "jget (payload_v2_properties p) ''requestHash'' = Some (JStr (e2_requestHash p))"
  "jget (payload_v2_properties p) ''lane'' = Some (JStr (lane_text (ep_lane p)))"
  "jget (payload_v2_properties p) ''riskAction'' = Some (JStr (risk_action_text (e2_riskAction p)))"
  "jget (payload_v2_properties p) ''ltvBps'' = map_option JNum (ep_ltvBps p)"
  "jget (payload_v2_properties p) ''healthFactor'' = map_option JNum (ep_healthFactor p)"
  by (simp_all add: payload_v2_properties_def jget_simps opt_number_found)

lemma payload_v1_reads:
  assumes "list_all clean_text
    [ep_decisionId p, ep_agentId p, ep_payerWallet p, ep_requestNonce p, ep_network p, ep_poolId p, ep_approvedMicro p, ep_policyPackId p, e1_riskBand p]"
  shows "read_payload_v1 (payload_v1_properties p) (ep_lane p) = p"
  using assms by (simp add: read_payload_v1_def payload_v1_get text_or_found asNumber_opt)

lemma payload_v2_reads:
  assumes "list_all clean_text
    [ep_decisionId p, ep_agentId p, ep_payerWallet p, ep_requestNonce p, ep_network p, ep_poolId p, ep_approvedMicro p, ep_policyPackId p, e2_repayWallet p, e2_policyPackVersion p, e2_riskLevel p, e2_requestHash p]"
  shows "read_payload_v2 (payload_v2_properties p) (ep_lane p) (e2_riskAction p) = p"
  using assms by (simp add: read_payload_v2_def payload_v2_get text_or_found asNumber_opt)

lemma envelope_json_get:
  fixes a :: "payload_v1 envelope" and b :: "payload_v2 envelope"
  shows "envelope_head (signed_part_v1 a @ [(''signature'', JStr (en_signature a))]) ''keyId'' =
           (case (asString (Some (JStr (en_kid a))), asString (Some (JStr (en_signature a)))) of
              (Some kid, Some sig) \<Rightarrow>
                Some (kid, en_issuedAt a, en_expiresAt a, sig, payload_v1_properties (en_payload a))
            | _ \<Rightarrow> None)"
    and "envelope_head (signed_part_v2 b @ [(''signature'', JStr (en_signature b))]) ''kid'' =
           (case (asString (Some (JStr (en_kid b))), asString (Some (JStr (en_signature b)))) of
              (Some kid, Some sig) \<Rightarrow>
                Some (kid, en_issuedAt b, en_expiresAt b, sig, payload_v2_properties (en_payload b))
            | _ \<Rightarrow> None)"
  by (simp_all add: envelope_head_def signed_part_v1_def signed_part_v2_def jget_simps asNumber_def asRecord_def
      split: option.split)

lemma literal_reads:
  "asString (Some (JStr ''kizuna-envelope-v1'')) = Some ''kizuna-envelope-v1''"
  "asString (Some (JStr ''kizuna-envelope-v2'')) = Some ''kizuna-envelope-v2''"
  "asString (Some (JStr ''ES256'')) = Some ''ES256''"
  by code_simp+

lemma envelope_reads_back:
  assumes "parseAnyEnvelope v = Inr de"
  shows "parseAnyEnvelope (Some (envelope_json de)) = Inr de"
proof (cases de)
  case (EnvelopeV1 e)
  note c = parsed_texts_clean [OF assms, unfolded EnvelopeV1]
  have "parseLegacyEnvelope v = Inr e"
    using assms EnvelopeV1 by (auto simp: parseAnyEnvelope_def map_sum_Inr split: if_splits)
  then have ne: "ep_decisionId (en_payload e) \<noteq> []" "ep_agentId (en_payload e) \<noteq> []"
      "ep_payerWallet (en_payload e) \<noteq> []" "ep_requestNonce (en_payload e) \<noteq> []"
      "ep_network (en_payload e) \<noteq> []" "ep_poolId (en_payload e) \<noteq> []"
    by (auto elim: parse_v1_success)
  have ver: "jget (signed_part_v1 e @ [(''signature'', JStr (en_signature e))]) ''version'' =
      Some (JStr ''kizuna-envelope-v1'')"
    by (simp add: signed_part_v1_def jget_simps)
  show ?thesis
    using c ne
    by (simp add: EnvelopeV1 parseAnyEnvelope_def parseLegacyEnvelope_def asRecord_def jget_opt_def ver literal_reads
        envelope_json_get asString_of_clean Let_def payload_v1_get read_written_enums payload_v1_reads)
next
  case (EnvelopeV2 e)
  note c = parsed_texts_clean [OF assms, unfolded EnvelopeV2]
  have "parseV2Envelope v = Inr e"
    using assms EnvelopeV2 by (auto simp: parseAnyEnvelope_def map_sum_Inr split: if_splits)
  then have pc: "payload_v2_complete (en_payload e)" by (auto elim: parse_v2_success)
  have ver: "jget (signed_part_v2 e @ [(''signature'', JStr (en_signature e))]) ''version'' =
      Some (JStr ''kizuna-envelope-v2'')"
    "jget (signed_part_v2 e @ [(''signature'', JStr (en_signature e))]) ''alg'' = Some (JStr ''ES256'')"
    by (simp_all add: signed_part_v2_def jget_simps)
  show ?thesis
    using c pc
    by (simp add: EnvelopeV2 parseAnyEnvelope_def parseV2Envelope_def asRecord_def jget_opt_def ver literal_reads
        envelope_json_get asString_of_clean Let_def payload_v2_get read_written_enums payload_v2_reads)
qed

section \<open>Properties\<close>

text \<open>
  Claim C28.  An accepted decision envelope is well formed: every text field it has is trimmed and not empty, it
  is inside its validity window (issued at most a minute ahead of the clock), and its signature was checked over
  the canonical text of exactly these fields.
\<close>

theorem verified_envelope_well_formed:
  assumes "verifyKizunaDecisionEnvelope kk nowMs v = Inr de"
  shows "list_all clean_text (envelope_texts de)
         \<and> of_int nowMs < snd (envelope_window de) \<and> fst (envelope_window de) \<le> of_int nowMs + 60000
         \<and> envelope_signature_valid kk de = Inr True"
proof -
  have p: "parseAnyEnvelope v = Inr de" and w: "ensureEnvelopeWindow de nowMs = Inr ()"
    and s: "envelope_signature_valid kk de = Inr True"
    using assms by (auto simp: verifyKizunaDecisionEnvelope_def split: sum.splits if_splits)
  from w have "of_int nowMs < snd (envelope_window de)" "fst (envelope_window de) \<le> of_int nowMs + 60000"
    by (auto simp: ensureEnvelopeWindow_def Let_def split: prod.splits if_splits)
  with p s show ?thesis by (simp add: parsed_texts_clean)
qed

text \<open>
  Claim C29.  A decision envelope survives its trip through the payer: the envelope that the facilitator reads from the
  kernel's answer, hands out and gets back is read as the same envelope, so the hash recorded with the decision is the
  hash that settlement computes.
\<close>

theorem envelope_survives_transport:
  assumes "mapKernelEvaluateResult answer = Inr result" and "kr_envelope result = Some en"
  shows "parseAnyEnvelope (Some (envelope_json (EnvelopeV2 en))) = Inr (EnvelopeV2 en)
         \<and> (verifyKizunaDecisionEnvelope kk nowMs (Some (envelope_json (EnvelopeV2 en))) = Inr de \<longrightarrow>
             hashKizunaDecisionEnvelope e de = hashKizunaDecisionEnvelope e (EnvelopeV2 en))"
proof -
  obtain ob where "read_result_envelope (jget ob ''decisionEnvelope'') = Inr (Some en)"
    using assms by (auto simp: mapKernelEvaluateResult_def split: option.splits if_splits sum.splits)
  then have "parseAnyEnvelope (jget ob ''decisionEnvelope'') = Inr (EnvelopeV2 en)"
    by (auto simp: read_result_envelope_def split: sum.splits if_splits decision_envelope.splits)
  note r = envelope_reads_back [OF this]
  then show ?thesis
    by (auto simp: verifyKizunaDecisionEnvelope_def split: sum.splits if_splits)
qed

lemma normalized_terms_plain: "plain_keys (JObj (normalized_terms t)) \<and> json_reads (JObj (normalized_terms t))"
  by (simp add: normalized_terms_def proto_key_def)

text \<open>
  Claim C30.  The request hash binds the terms of a credit request: two requests with the same hash, unless they
  are a collision of SHA-256, agree in every term up to surrounding white space, and an absent optional
  term counts as an empty one.
\<close>

theorem request_hash_binds_terms:
  assumes "hashKizunaRequest e t = hashKizunaRequest e u"
    and "env_sha256 e (canonicalString (JObj (normalized_terms t))) =
           env_sha256 e (canonicalString (JObj (normalized_terms u))) \<longrightarrow>
         canonicalString (JObj (normalized_terms t)) = canonicalString (JObj (normalized_terms u))"
  shows "js_trim (rt_agentId t) = js_trim (rt_agentId u) \<and> js_trim (rt_repayWallet t) = js_trim (rt_repayWallet u)
         \<and> js_trim (rt_payerWallet t) = js_trim (rt_payerWallet u)
         \<and> js_trim (rt_requestNonce t) = js_trim (rt_requestNonce u)
         \<and> js_trim (rt_network t) = js_trim (rt_network u)
         \<and> js_trim (rt_requestedMicro t) = js_trim (rt_requestedMicro u)
         \<and> trim_or_empty (rt_resource t) = trim_or_empty (rt_resource u)
         \<and> trim_or_empty (rt_payTo t) = trim_or_empty (rt_payTo u) \<and> rt_lane t = rt_lane u
         \<and> js_trim (rt_poolId t) = js_trim (rt_poolId u)
         \<and> trim_or_empty (rt_collateralAccount t) = trim_or_empty (rt_collateralAccount u)"
proof -
  have "canonicalString (JObj (normalized_terms t)) = canonicalString (JObj (normalized_terms u))"
    using assms by (simp add: hashKizunaRequest_def)
  then have "canonicalize (JObj (normalized_terms t)) = canonicalize (JObj (normalized_terms u))"
    using canonical_text_eq normalized_terms_plain by blast
  then have "same_value (JObj (normalized_terms t)) (JObj (normalized_terms u))"
    using canonicalize_eq_same normalized_terms_plain by blast
  then show ?thesis
    by (auto simp: normalized_terms_def same_value.simps dest: lane_text_inj)
qed

section \<open>Witnesses\<close>

definition sample_keys :: kernel_keys where
  "sample_keys =
     \<lparr>kk_signingKeys = [''k1'' \<mapsto> ''secret''], kk_publicKeys = [''k2'' \<mapsto> ''pem''],
      kk_hmac = (\<lambda>_ _. ''abcd''), kk_verify = (\<lambda>_ _ sig. Inr (sig \<noteq> []))\<rparr>"

definition sample_payload :: payload_v2 where
  "sample_payload =
     \<lparr>ep_decisionId = ''dec-1'', ep_agentId = ''agent-1'', ep_payerWallet = ''payer'', ep_requestNonce = ''n1'',
      ep_network = ''eip155:8453'', ep_lane = Enterprise, ep_poolId = ''enterprise-main'', ep_approvedMicro = ''50'',
      ep_policyPackId = ''pack'', ep_ltvBps = None, ep_healthFactor = Some 2, e2_repayWallet = ''repay'',
      e2_policyPackVersion = ''1'', e2_riskLevel = ''low'', e2_riskAction = RiskNone, e2_requestHash = ''h''\<rparr>"

definition sample_envelope :: "payload_v2 envelope" where
  "sample_envelope =
     \<lparr>en_kid = ''k2'', en_issuedAt = 100, en_expiresAt = 900, en_payload = sample_payload, en_signature = ''c2ln''\<rparr>"

definition sample_legacy :: json where
  "sample_legacy =
     JObj [(''version'', JStr ''kizuna-envelope-v1''), (''keyId'', JStr '' k1 ''), (''issuedAt'', JNum 100),
       (''expiresAt'', JNum 900), (''signature'', JStr ''ABCD''),
       (''payload'', JObj [(''decisionId'', JStr ''dec-1''), (''agentId'', JStr ''agent-1''), (''payerWallet'', JStr ''payer''),
          (''requestNonce'', JStr ''n1''), (''network'', JStr ''eip155:8453''), (''lane'', JStr ''enterprise''),
          (''poolId'', JStr ''enterprise-main'')])]"

definition sample_read :: decision_envelope where
  "sample_read = projr (parseAnyEnvelope (Some sample_legacy))"

theorem verified_envelope_well_formed_witness:
  "list_all clean_text (envelope_texts sample_read) \<and> (500::rat) < snd (envelope_window sample_read)"
proof -
  have p: "parseAnyEnvelope (Some sample_legacy) = Inr sample_read" by code_simp
  have l: "case sample_read of EnvelopeV1 x \<Rightarrow> en_kid x = ''k1'' \<and> en_signature x = ''ABCD'' | _ \<Rightarrow> False"
    and w: "envelope_window sample_read = (100, 900)" by code_simp+
  have "envelope_signature_valid sample_keys sample_read = Inr True"
  proof -
    from l obtain x where x: "sample_read = EnvelopeV1 x" "en_kid x = ''k1''" "en_signature x = ''ABCD''"
      by (auto split: decision_envelope.splits)
    have "safeEqualHex ''abcd'' ''ABCD''" by code_simp
    then show ?thesis
      unfolding x(1) by (simp add: verifyLegacySignature_def configured_key_def sample_keys_def x(2,3))
  qed
  with p w have "verifyKizunaDecisionEnvelope sample_keys 500 (Some sample_legacy) = Inr sample_read"
    by (simp add: verifyKizunaDecisionEnvelope_def ensureEnvelopeWindow_def)
  from verified_envelope_well_formed [OF this] show ?thesis by simp
qed

definition sample_answer :: json where
  "sample_answer =
     JObj [(''approved'', JBool True), (''decisionId'', JStr ''dec-1''), (''approvedMicro'', JStr ''50''),
       (''availableMicro'', JStr ''100''), (''outstandingMicro'', JStr ''0''), (''scoreRaw'', JNum 700),
       (''tier'', JStr ''gold''), (''lane'', JStr ''enterprise''), (''poolId'', JStr ''enterprise-main''),
       (''policyPackId'', JStr ''pack''), (''policyPackVersion'', JStr ''1''), (''riskLevel'', JStr ''low''),
       (''requestHash'', JStr ''h''), (''envelopeVersion'', JStr ''kizuna-envelope-v2''),
       (''decisionEnvelope'', envelope_json (EnvelopeV2 sample_envelope))]"

theorem envelope_survives_transport_witness:
  "parseAnyEnvelope (Some (envelope_json (EnvelopeV2 sample_envelope))) = Inr (EnvelopeV2 sample_envelope)"
proof -
  obtain result where r: "mapKernelEvaluateResult (Some sample_answer) = Inr result" "kr_envelope result = Some sample_envelope"
  proof
    show "mapKernelEvaluateResult (Some sample_answer) = Inr (projr (mapKernelEvaluateResult (Some sample_answer)))"
      "kr_envelope (projr (mapKernelEvaluateResult (Some sample_answer))) = Some sample_envelope"
      by code_simp+
  qed
  from envelope_survives_transport [OF r] show ?thesis by blast
qed

definition sample_terms :: "string \<Rightarrow> request_terms" where
  "sample_terms agent =
     \<lparr>rt_agentId = agent, rt_repayWallet = ''repay'', rt_payerWallet = ''payer'', rt_requestNonce = ''n1'',
      rt_network = ''eip155:8453'', rt_requestedMicro = ''50'', rt_resource = None, rt_payTo = Some ''merchant'',
      rt_lane = Enterprise, rt_poolId = ''enterprise-main'', rt_collateralAccount = None\<rparr>"

theorem request_hash_binds_terms_witness:
  "js_trim ''agent-1'' = js_trim '' agent-1 ''"
proof -
  have t: "js_trim ''agent-1'' = ''agent-1''" "js_trim '' agent-1 '' = ''agent-1''" by code_simp+
  have "hashKizunaRequest (sample_env 0) (sample_terms ''agent-1'') = hashKizunaRequest (sample_env 0) (sample_terms '' agent-1 '')"
    by (simp add: hashKizunaRequest_def normalized_terms_def sample_terms_def t)
  from request_hash_binds_terms [OF this] show ?thesis by (simp add: sample_terms_def)
qed

end
