(* ===== verification/Credit_Settle.thy ===== *)
theory Credit_Settle
  imports Kernel_Envelope Ledger_System Direct_Settle
begin

text \<open>
  The credit branch of \<open>POST /settle\<close> (\<open>routes/settle.ts\<close>): a payment whose requirements name a Kizuna agent
  is paid out by the facilitator against a credit reservation that \<open>POST /verify\<close> has made.  The checks on the
  request, the reservation and its decision envelope come first; then the merchant is paid, the
  reservation is settled in the ledger and the kernel is told.
\<close>

section \<open>The checks on the request\<close>

record credit_config = direct_config +
  cc_KIZUNA_ENABLED :: bool
  cc_KIZUNA_SECURED_ONLY :: bool
  cc_KIZUNA_FASTPATH_POOL_ID :: string
  cc_KIZUNA_ENTERPRISE_POOL_ID :: string
  cc_KIZUNA_KERNEL_FAIL_CLOSED :: bool
  cc_KIZUNA_SHADOW_MODE :: bool
  cc_kernelConfigured :: bool
  cc_keys :: kernel_keys

definition default_pool :: "credit_config \<Rightarrow> kizuna_requirement \<Rightarrow> string" where
  "default_pool cc k =
     (case kr_poolId k of
        Some p \<Rightarrow> p
      | None \<Rightarrow> if kr_lane k = CryptoFast then cc_KIZUNA_FASTPATH_POOL_ID cc else cc_KIZUNA_ENTERPRISE_POOL_ID cc)"

record credit_admitted =
  ka_payment :: decoded_payment
  ka_network :: string
  ka_merchant :: string
  ka_kizuna :: kizuna_requirement
  ka_poolId :: string
  ka_resource :: "string option"
  ka_amount :: rat
  ka_amountMicro :: int

definition credit_amounts ::
  "credit_config \<Rightarrow> settle_input \<Rightarrow> string option \<Rightarrow> string \<Rightarrow> kizuna_requirement \<Rightarrow> decoded_payment \<Rightarrow> string
   \<Rightarrow> settle_response + credit_admitted" where
  "credit_amounts cc inp apiMerchant network k p raw =
     (let failure = (\<lambda>status reason msg. Inl (sendSettleFailure status reason msg network (Some (dp_payer p)))) in
      case parseSignedUsdcAmount (dp_amount p) (Some raw) of
        None \<Rightarrow> failure 400 ''amount_mismatch'' ''Amount mismatch with payment requirements''
      | Some amount \<Rightarrow>
          (case parseUsdcMicroAmountBigint raw of
             None \<Rightarrow> failure 400 ''invalid_amount'' ''Invalid paymentRequirements.amount''
           | Some amountMicro \<Rightarrow>
               if (case si_requirementResource inp of
                     None \<Rightarrow> False | Some r \<Rightarrow> r \<noteq> [] \<and> dp_resource p \<noteq> [] \<and> r \<noteq> dp_resource p)
               then failure 400 ''resource_mismatch'' ''Resource mismatch with payment requirements''
               else if cf_MAX_SETTLEMENT_AMOUNT cc < amount
               then failure 400 ''amount_exceeds_limit'' ''Amount exceeds limit''
               else if apiMerchant \<noteq> Some (si_merchantWallet inp)
               then failure 403 ''merchant_mismatch'' ''Merchant wallet does not match API key''
               else if network = BASE_MAINNET_CAIP2 \<and> \<not> ac_isAddress (cf_checks cc) (si_merchantWallet inp)
               then failure 400 ''invalid_wallet'' ''Invalid Base wallet address''
               else if network \<noteq> BASE_MAINNET_CAIP2 \<and> \<not> ac_isPublicKey (cf_checks cc) (si_merchantWallet inp)
               then failure 400 ''invalid_wallet'' ''Invalid Solana wallet address''
               else Inr \<lparr>ka_payment = p, ka_network = network, ka_merchant = si_merchantWallet inp,
                         ka_kizuna = k, ka_poolId = default_pool cc k, ka_resource = si_requirementResource inp,
                         ka_amount = amount, ka_amountMicro = amountMicro\<rparr>))"

definition credit_check ::
  "credit_config \<Rightarrow> env \<Rightarrow> settle_input \<Rightarrow> string \<Rightarrow> string \<Rightarrow> string option \<Rightarrow> kizuna_requirement
   \<Rightarrow> settle_response + credit_admitted" where
  "credit_check cc e inp scheme network apiMerchant k =
     (if \<not> cc_KIZUNA_ENABLED cc then
        Inl (sendSettleFailure 400 ''kizuna_disabled'' ''Kizuna credit mode is disabled'' network None)
      else if si_mode inp \<noteq> X402 then
        Inl (sendSettleFailure 400 ''invalid_request'' ''Kizuna requires x402 paymentRequirements'' network None)
      else if scheme = ''session'' then
        Inl (sendSettleFailure 400 ''invalid_request'' ''Kizuna does not support session payment headers'' network None)
      else
        (case decodePaymentHeader (si_paymentHeader inp) of
           None \<Rightarrow> Inl (sendSettleFailure 400 ''invalid_payment_payload'' ''Malformed payment header'' network None)
         | Some p \<Rightarrow>
             (let failure = (\<lambda>status reason msg.
                    Inl (sendSettleFailure status reason msg network (Some (dp_payer p)))) in
              if \<not> isPaymentFresh e p (dc_MAX_PAYMENT_AGE_MS cc) then failure 400 ''payment_expired'' ''Payment expired''
              else if \<not> verifyPaymentAuth (cf_checks cc) (dc_libs cc) p
              then failure 400 ''invalid_signature'' ''Invalid signature''
              else if \<not> isValidPayerForNetwork (cf_checks cc) (dp_payer p) network
              then failure 400 ''invalid_payer_wallet'' ''Invalid payer wallet for network''
              else (case si_requirementAmountRaw inp of
                      None \<Rightarrow> failure 400 ''invalid_amount'' ''Missing paymentRequirements.amount''
                    | Some raw \<Rightarrow>
                        if raw = [] then failure 400 ''invalid_amount'' ''Missing paymentRequirements.amount''
                        else if cc_KIZUNA_SECURED_ONLY cc \<and> kr_lane k \<noteq> CryptoFast
                        then failure 403 ''kizuna_lane_disabled'' ''Enterprise lane is disabled in secured-only mode''
                        else credit_amounts cc inp apiMerchant network k p raw))))"

section \<open>The checks on the account, the reservation and the envelope\<close>

definition credit_refusal :: "credit_admitted \<Rightarrow> nat \<Rightarrow> string \<Rightarrow> string \<Rightarrow> settle_response" where
  "credit_refusal a status reason msg =
     sendSettleFailure status reason msg (ka_network a) (Some (dp_payer (ka_payment a)))"

definition account_check :: "credit_admitted \<Rightarrow> kizuna_account option \<Rightarrow> settle_response option" where
  "account_check a found =
     (case found of
        None \<Rightarrow> Some (credit_refusal a 404 ''kizuna_account_not_found'' ''Kizuna account not found'')
      | Some account \<Rightarrow>
          if a_status account \<noteq> AccountActive
          then Some (credit_refusal a 404 ''kizuna_account_not_found'' ''Kizuna account not found'')
          else if a_payer_wallet account \<noteq> dp_payer (ka_payment a)
          then Some (credit_refusal a 400 ''payer_mismatch'' ''Kizuna payer mismatch'')
          else if a_repay_wallet account \<noteq> kr_repayWallet (ka_kizuna a)
          then Some (credit_refusal a 400 ''repay_wallet_mismatch'' ''Kizuna repay wallet mismatch'')
          else None)"

definition reservation_check :: "credit_admitted \<Rightarrow> kizuna_reservation \<Rightarrow> settle_response option" where
  "reservation_check a r =
     (if r_lane r \<noteq> kr_lane (ka_kizuna a) \<or> r_pool_id r \<noteq> ka_poolId a
      then Some (credit_refusal a 409 ''kizuna_cross_lane_replay'' ''Reservation lane or pool does not match request'')
      else if r_agent_id r \<noteq> kr_agentId (ka_kizuna a)
      then Some (credit_refusal a 400 ''kizuna_agent_mismatch'' ''Kizuna reservation agent mismatch'')
      else if r_network r \<noteq> ka_network a
      then Some (credit_refusal a 400 ''network_mismatch'' ''Kizuna reservation network mismatch'')
      else None)"

text \<open>\<open>!x\<close> on a JSON value that may be absent.\<close>

definition falsy :: "json option \<Rightarrow> bool" where
  "falsy v =
     (case v of
        None \<Rightarrow> True
      | Some JNull \<Rightarrow> True
      | Some (JBool b) \<Rightarrow> \<not> b
      | Some (JNum n) \<Rightarrow> n = 0
      | Some (JStr t) \<Rightarrow> t = []
      | Some _ \<Rightarrow> False)"

fun payload_of :: "decision_envelope \<Rightarrow> envelope_payload" where
  "payload_of (EnvelopeV1 en) = envelope_payload.truncate (en_payload en)"
| "payload_of (EnvelopeV2 en) = envelope_payload.truncate (en_payload en)"

definition credit_terms :: "credit_admitted \<Rightarrow> request_terms" where
  "credit_terms a =
     \<lparr>rt_agentId = kr_agentId (ka_kizuna a), rt_repayWallet = kr_repayWallet (ka_kizuna a),
      rt_payerWallet = dp_payer (ka_payment a), rt_requestNonce = dp_nonce (ka_payment a),
      rt_network = ka_network a, rt_requestedMicro = numeric_text (ka_amountMicro a),
      rt_resource = (if dp_resource (ka_payment a) \<noteq> [] then Some (dp_resource (ka_payment a)) else ka_resource a),
      rt_payTo = Some (ka_merchant a), rt_lane = kr_lane (ka_kizuna a), rt_poolId = ka_poolId a,
      rt_collateralAccount = kr_collateralAccount (ka_kizuna a)\<rparr>"

text \<open>What only the second envelope version is checked for: the repay wallet, and at the end the request hash.\<close>

fun envelope_repay_ok :: "credit_admitted \<Rightarrow> decision_envelope \<Rightarrow> bool" where
  "envelope_repay_ok a (EnvelopeV1 _) = True"
| "envelope_repay_ok a (EnvelopeV2 en) = (e2_repayWallet (en_payload en) = kr_repayWallet (ka_kizuna a))"

fun envelope_request_check :: "env \<Rightarrow> credit_admitted \<Rightarrow> decision_envelope \<Rightarrow> settle_response option" where
  "envelope_request_check e a (EnvelopeV1 _) = None"
| "envelope_request_check e a (EnvelopeV2 en) =
     (if ka_amountMicro a = 0
      then Some (credit_refusal a 400 ''invalid_amount''
             ''Kizuna payment requirement amount is required for v2 settlement'')
      else if e2_requestHash (en_payload en) \<noteq> hashKizunaRequest e (credit_terms a)
      then Some (credit_refusal a 400 ''kizuna_envelope_mismatch'' ''Decision envelope request hash mismatch'')
      else None)"

definition envelope_invalid :: "credit_admitted \<Rightarrow> string \<Rightarrow> settle_response" where
  "envelope_invalid a msg =
     credit_refusal a 400 ''kizuna_envelope_invalid'' (''Invalid decision envelope: '' @ msg)"

definition envelope_terms_check ::
  "env \<Rightarrow> credit_admitted \<Rightarrow> decision_envelope \<Rightarrow> settle_response option" where
  "envelope_terms_check e a de =
     (let p = payload_of de; failure = (\<lambda>reason msg. Some (credit_refusal a 400 reason msg)) in
      if ep_agentId p \<noteq> kr_agentId (ka_kizuna a) then failure ''kizuna_agent_mismatch'' ''Envelope agent mismatch''
      else if ep_payerWallet p \<noteq> dp_payer (ka_payment a) then failure ''payer_mismatch'' ''Envelope payer mismatch''
      else if \<not> envelope_repay_ok a de then failure ''repay_wallet_mismatch'' ''Envelope repay wallet mismatch''
      else if ep_requestNonce p \<noteq> dp_nonce (ka_payment a) then failure ''replayed_payment'' ''Envelope nonce mismatch''
      else if ep_network p \<noteq> ka_network a then failure ''network_mismatch'' ''Envelope network mismatch''
      else if ep_lane p \<noteq> kr_lane (ka_kizuna a) \<or> ep_poolId p \<noteq> ka_poolId a
      then failure ''kizuna_cross_lane_replay'' ''Envelope lane/pool mismatch''
      else (case BigInt_of_string (ep_approvedMicro p) of
              None \<Rightarrow> Some (envelope_invalid a (''Cannot convert '' @ ep_approvedMicro p @ '' to a BigInt''))
            | Some envelopeApproved \<Rightarrow>
                if envelopeApproved < ka_amountMicro a
                then failure ''kizuna_amount_exceeds_reservation'' ''Amount exceeds envelope-approved credit''
                else envelope_request_check e a de))"

text \<open>
  The envelope is asked for when the decision was recorded with one; its hash, or nothing, goes on to the
  settlement.
\<close>

definition envelope_check ::
  "credit_config \<Rightarrow> env \<Rightarrow> credit_admitted \<Rightarrow> kizuna_decision \<Rightarrow> settle_response + string option" where
  "envelope_check cc e a dec =
     (case dc_decision_envelope_hash dec of
        None \<Rightarrow> Inr None
      | Some recorded \<Rightarrow>
          if recorded = [] then Inr None
          else if falsy (kr_decisionEnvelope (ka_kizuna a))
          then Inl (credit_refusal a 400 ''kizuna_envelope_missing''
                 ''Kizuna decisionEnvelope is required for settlement'')
          else
            (case verifyKizunaDecisionEnvelope (cc_keys cc) (env_date_now e) (kr_decisionEnvelope (ka_kizuna a)) of
               Inl msg \<Rightarrow> Inl (envelope_invalid a msg)
             | Inr de \<Rightarrow>
                 (let envelopeHash = hashKizunaDecisionEnvelope e de in
                  if envelopeHash \<noteq> recorded
                  then Inl (credit_refusal a 400 ''kizuna_envelope_mismatch''
                         ''Decision envelope does not match reservation'')
                  else (case envelope_terms_check e a de of
                          Some r \<Rightarrow> Inl r
                        | None \<Rightarrow> Inr (Some envelopeHash)))))"

section \<open>Responses\<close>

record credit_extension =
  cx_debtId :: "string option"
  cx_outstandingMicro :: string
  cx_principalMicro :: "string option"
  cx_fundingConsumedMicro :: string
  cx_lane :: lane
  cx_poolId :: string
  cx_decisionEnvelopeHash :: "string option"
  cx_decisionId :: "string option"
  cx_billableEventId :: "string option"
  cx_billableIdempotencyKey :: string
  cx_kernelCommitError :: "string option"

datatype credit_response = CreditRefused settle_response | CreditSettled settle_success credit_extension

text \<open>The settlement that a consumed reservation was settled under.\<close>

definition settled_under :: "kizuna_reservation \<Rightarrow> kizuna_debt option \<Rightarrow> string" where
  "settled_under r debt =
     (case debt of
        Some d \<Rightarrow> if d_settlement_id d \<noteq> [] then d_settlement_id d else or_text (r_settlement_id r) []
      | None \<Rightarrow> or_text (r_settlement_id r) [])"

definition outstanding_text :: "kizuna_debt option \<Rightarrow> string" where
  "outstanding_text debt = (case debt of Some d \<Rightarrow> numeric_text (d_outstanding_micro d) | None \<Rightarrow> ''0'')"

definition billable_key :: "kizuna_reservation \<Rightarrow> string \<Rightarrow> billable_event option \<Rightarrow> string" where
  "billable_key r sid billable =
     (case billable of
        Some b \<Rightarrow> if be_idempotency_key b \<noteq> [] then be_idempotency_key b else r_id r @ '':'' @ sid
      | None \<Rightarrow> r_id r @ '':'' @ sid)"

text \<open>The answer to a request whose reservation is consumed already.\<close>

definition credit_replay_response ::
  "credit_admitted \<Rightarrow> kizuna_reservation \<Rightarrow> kizuna_debt option \<Rightarrow> string option \<Rightarrow> billable_event option
   \<Rightarrow> settlement_row option \<Rightarrow> credit_response" where
  "credit_replay_response a r debt kernelError billable found =
     (let sid = settled_under r debt;
          feeFromDb = (case found of Some st \<Rightarrow> fl (st_fee_amount st) | None \<Rightarrow> 0) in
      CreditSettled
        \<lparr>ok_txHash = or_text (r_tx_hash r) [], ok_payer = dp_payer (ka_payment a), ok_amount = ka_amount a,
         ok_fee = feeFromDb, ok_net = fl (ka_amount a - feeFromDb), ok_network = ka_network a,
         ok_idempotent = True, ok_feeDiscount = None\<rparr>
        \<lparr>cx_debtId = map_option d_id debt, cx_outstandingMicro = outstanding_text debt, cx_principalMicro = None,
         cx_fundingConsumedMicro =
           (if r_funding_mode r = Prefunded then numeric_text (r_locked_micro r) else ''0''),
         cx_lane = r_lane r, cx_poolId = r_pool_id r, cx_decisionEnvelopeHash = None, cx_decisionId = None,
         cx_billableEventId = map_option be_id billable,
         cx_billableIdempotencyKey = billable_key r sid billable, cx_kernelCommitError = kernelError\<rparr>)"

definition credit_paid_response ::
  "credit_admitted \<Rightarrow> kizuna_reservation \<Rightarrow> string \<Rightarrow> pricing \<Rightarrow> receipt \<Rightarrow> finalize_result
   \<Rightarrow> billable_event option \<Rightarrow> string option \<Rightarrow> credit_response" where
  "credit_paid_response a r sid p rc res billable kernelError =
     CreditSettled
       \<lparr>ok_txHash = rc_txHash rc, ok_payer = dp_payer (ka_payment a), ok_amount = ka_amount a,
        ok_fee = rc_fee rc, ok_net = rc_net rc, ok_network = ka_network a, ok_idempotent = False,
        ok_feeDiscount = (if 0 < pg_discountPct p then Some (pg_discountPct p, pg_feeBps p) else None)\<rparr>
       \<lparr>cx_debtId = map_option d_id (fr_debt res), cx_outstandingMicro = outstanding_text (fr_debt res),
        cx_principalMicro = map_option (\<lambda>d. numeric_text (d_principal_micro d)) (fr_debt res),
        cx_fundingConsumedMicro = fr_fundingConsumedMicro res, cx_lane = fr_lane res, cx_poolId = fr_poolId res,
        cx_decisionEnvelopeHash = (case fr_debt res of Some d \<Rightarrow> d_decision_envelope_hash d | None \<Rightarrow> None),
        cx_decisionId = Some (r_decision_id r), cx_billableEventId = map_option be_id billable,
        cx_billableIdempotencyKey = billable_key r sid billable, cx_kernelCommitError = kernelError\<rparr>"

definition kernel_unavailable :: "credit_admitted \<Rightarrow> string \<Rightarrow> credit_response" where
  "kernel_unavailable a msg =
     CreditRefused (credit_refusal a 503 ''kizuna_kernel_unavailable''
       (''Kizuna kernel commit failed after settlement; retry settle to finalize: '' @ msg))"

definition credit_failed :: "credit_admitted \<Rightarrow> string \<Rightarrow> credit_response" where
  "credit_failed a msg = CreditRefused (credit_refusal a 500 ''settlement_failed'' (''Settlement failed: '' @ msg))"

section \<open>One request, step by step\<close>

text \<open>What a step takes from its surroundings, the answer of the kernel included.\<close>

record credit_world = surroundings +
  cw_kernel :: kernel_answer

datatype credit_phase =
    CArrived "json option" "string option"
  | CElsewhere
  | CAdmitted credit_admitted
  | CKnown credit_admitted
  | CReplay credit_admitted kizuna_reservation
  | CReplayCommit credit_admitted kizuna_reservation "kizuna_debt option"
  | CReplayBill credit_admitted kizuna_reservation "kizuna_debt option" "string option"
  | CReplayFee credit_admitted kizuna_reservation "kizuna_debt option" "string option" "billable_event option"
  | CExpired credit_admitted kizuna_reservation
  | CChecked credit_admitted kizuna_reservation "string option"
  | CPriced credit_admitted kizuna_reservation "string option" pricing
  | CRecorded credit_admitted kizuna_reservation "string option" pricing string
  | CPaid credit_admitted kizuna_reservation "string option" pricing string receipt
  | CFinalized credit_admitted kizuna_reservation pricing string receipt finalize_result
  | CBilled credit_admitted kizuna_reservation pricing string receipt finalize_result "billable_event option"
  | CFailing credit_admitted kizuna_reservation string bool string
  | CReleasing credit_admitted kizuna_reservation string
  | CDone "credit_response option"

definition credit_admit :: "credit_config \<Rightarrow> credit_world \<Rightarrow> json option \<Rightarrow> string option \<Rightarrow> credit_phase" where
  "credit_admit cc w body apiMerchant =
     (case settle_prefix (facilitator_config.truncate cc) body of
        Inl r \<Rightarrow> CDone (Some (CreditRefused r))
      | Inr (inp, scheme, network) \<Rightarrow>
          (case si_requirementKizuna inp of
             None \<Rightarrow> CElsewhere
           | Some k \<Rightarrow>
               (case credit_check cc (or_env w) inp scheme network apiMerchant k of
                  Inl r \<Rightarrow> CDone (Some (CreditRefused r))
                | Inr a \<Rightarrow> CAdmitted a)))"

text \<open>A query outside every \<open>try\<close>: its failure goes to the error handler of the application.\<close>

definition credit_read :: "credit_world \<Rightarrow> credit_phase \<Rightarrow> credit_phase" where
  "credit_read w ph = (if or_dbFails w then CDone None else ph)"

definition refused_or :: "settle_response option \<Rightarrow> credit_phase \<Rightarrow> credit_phase" where
  "refused_or r ph = (case r of Some x \<Rightarrow> CDone (Some (CreditRefused x)) | None \<Rightarrow> ph)"

text \<open>The reservation of the payer's nonce, by its status.\<close>

definition credit_reservation ::
  "credit_config \<Rightarrow> credit_world \<Rightarrow> credit_admitted \<Rightarrow> (kizuna_reservation \<times> kizuna_decision) option \<Rightarrow> credit_phase" where
  "credit_reservation cc w a found =
     (let failure = (\<lambda>status reason msg. CDone (Some (CreditRefused (credit_refusal a status reason msg)))) in
      case found of
        None \<Rightarrow> failure 409 ''kizuna_reservation_missing'' ''No active Kizuna reservation''
      | Some (r, dec) \<Rightarrow>
          refused_or (reservation_check a r)
            (if r_status r = Consumed then CReplay a r
             else if r_status r \<noteq> Reserved
             then failure 409 ''kizuna_reservation_inactive''
                    (''Kizuna reservation is '' @ reservation_status_text (r_status r))
             else if r_expires_at r \<le> env_date_now (or_env w) then CExpired a r
             else if r_amount_micro r < ka_amountMicro a
             then failure 400 ''kizuna_amount_exceeds_reservation'' ''Requested amount exceeds reserved credit''
             else (case envelope_check cc (or_env w) a dec of
                     Inl resp \<Rightarrow> CDone (Some (CreditRefused resp))
                   | Inr envelopeHash \<Rightarrow> CChecked a r envelopeHash)))"

definition credit_replay :: "credit_admitted \<Rightarrow> kizuna_reservation \<Rightarrow> kizuna_debt option \<Rightarrow> credit_phase" where
  "credit_replay a r debt =
     (if r_tx_hash r \<in> {None, Some []} \<or> (debt = None \<and> \<not> isPrefundedEnterprise r)
      then CDone (Some (CreditRefused (credit_refusal a 409 ''kizuna_reservation_consumed''
                                         ''Kizuna reservation already consumed'')))
      else CReplayCommit a r debt)"

text \<open>The kernel is told; its failure ends the request only when the facilitator fails closed.\<close>

definition kernel_commit ::
  "credit_config \<Rightarrow> credit_world \<Rightarrow> credit_admitted \<Rightarrow> (string option \<Rightarrow> credit_phase) \<Rightarrow> credit_phase" where
  "kernel_commit cc w a go =
     (case commitKizunaKernelDecision (cc_kernelConfigured cc) (cw_kernel w) of
        Inr _ \<Rightarrow> go None
      | Inl msg \<Rightarrow>
          if cc_KIZUNA_KERNEL_FAIL_CLOSED cc \<and> \<not> cc_KIZUNA_SHADOW_MODE cc
          then CDone (Some (kernel_unavailable a msg))
          else go (Some msg))"

definition credit_transfer :: "credit_config \<Rightarrow> credit_world \<Rightarrow> credit_admitted \<Rightarrow> pricing \<Rightarrow> receipt_outcome" where
  "credit_transfer cc w a p =
     (if ka_network a = BASE_MAINNET_CAIP2
      then settlePaymentBase (cf_checks cc) (cf_treasuryValid cc) (or_chain w) (ka_merchant a) (ka_amount a) (pg_feeBps p)
      else settlePayment (or_chain w) (ka_amount a) (pg_feeBps p))"

definition credit_finalize_params ::
  "credit_admitted \<Rightarrow> kizuna_reservation \<Rightarrow> string option \<Rightarrow> string \<Rightarrow> receipt \<Rightarrow> finalize_params" where
  "credit_finalize_params a r envelopeHash sid rc =
     \<lparr>fz_reservationId = r_id r, fz_settlementId = sid, fz_txHash = rc_txHash rc, fz_feeAmount = rc_fee rc,
      fz_feeTxHash = (case rc_feeTxHash rc of Some (Some h) \<Rightarrow> if h \<noteq> [] then Some h else Some (rc_txHash rc)
                      | _ \<Rightarrow> Some (rc_txHash rc)),
      fz_lane = Some (kr_lane (ka_kizuna a)), fz_poolId = Some (ka_poolId a),
      fz_decisionEnvelopeHash = envelopeHash\<rparr>"

fun error_text :: "error \<Rightarrow> string" where
  "error_text (Thrown msg) = msg"
| "error_text (Pg _) = ''query failed''"

text \<open>
  As in the other branches, one statement or call per step.  The outer \<open>try\<close> begins with the pricing;
  its \<open>catch\<close> marks the settlement row as failed, if there is one, and gives the reservation back unless the
  transfer has answered.
\<close>

fun credit_step ::
  "credit_config \<Rightarrow> credit_world \<Rightarrow> credit_phase \<Rightarrow> db \<Rightarrow> (credit_phase \<times> db) \<times> int" where
  "credit_step cc w (CArrived body apiMerchant) d = ((credit_admit cc w body apiMerchant, d), 0)"
| "credit_step cc w CElsewhere d = ((CElsewhere, d), 0)"
| "credit_step cc w (CAdmitted a) d =
     ((credit_read w (refused_or (account_check a (getKizunaAccount (kr_agentId (ka_kizuna a)) d)) (CKnown a)), d), 0)"
| "credit_step cc w (CKnown a) d =
     ((credit_read w (credit_reservation cc w a
         (getKizunaReservationByNonce (dp_payer (ka_payment a)) (dp_nonce (ka_payment a)) d)), d), 0)"
| "credit_step cc w (CReplay a r) d =
     ((credit_read w (credit_replay a r (getKizunaDebtByReservationId (r_id r) d)), d), 0)"
| "credit_step cc w (CReplayCommit a r debt) d = ((kernel_commit cc w a (CReplayBill a r debt), d), 0)"
| "credit_step cc w (CReplayBill a r debt err) d =
     ((credit_read w (CReplayFee a r debt err
         (getKizunaBillableSettlementEvent (r_id r) (settled_under r debt) d)), d), 0)"
| "credit_step cc w (CReplayFee a r debt err billable) d =
     ((credit_read w (CDone (Some (credit_replay_response a r debt err billable
         (getSettlementById (settled_under r debt) d)))), d), 0)"
| "credit_step cc w (CExpired a r) d =
     (let answer = CDone (Some (CreditRefused
            (credit_refusal a 409 ''kizuna_reservation_expired'' ''Kizuna reservation expired''))) in
      (next_phase (stmt (surroundings.truncate w) (releaseKizunaReservation (or_env w) (r_id r) Expired) d)
         answer answer, 0))"
| "credit_step cc w (CChecked a r envelopeHash) d =
     ((if or_dbFails w then CReleasing a r ''query failed''
       else CPriced a r envelopeHash (price (facilitator_config.truncate cc) (surroundings.truncate w)), d), 0)"
| "credit_step cc w (CPriced a r envelopeHash p) d =
     (case stmt (surroundings.truncate w)
             (insertSettlement (or_env w) (or_uuid w) (ka_merchant a) (dp_payer (ka_payment a)) (ka_amount a) 0
                ''USDC'' [] SettlementPending (ka_network a)) d of
        (Inl err, d') \<Rightarrow> ((CReleasing a r (error_text err), d'), 0)
      | (Inr st, d') \<Rightarrow> ((CRecorded a r envelopeHash p (st_id st), d'), 0))"
| "credit_step cc w (CRecorded a r envelopeHash p sid) d =
     (case credit_transfer cc w a p of
        (Inl msg, moved) \<Rightarrow> ((CFailing a r sid False msg, d), moved)
      | (Inr rc, moved) \<Rightarrow> ((CPaid a r envelopeHash p sid rc, d), moved))"
| "credit_step cc w (CPaid a r envelopeHash p sid rc) d =
     (case stmt (surroundings.truncate w)
             (finalizeKizunaSettlement (or_env w) (credit_finalize_params a r envelopeHash sid rc)) d of
        (Inl err, d') \<Rightarrow> ((CFailing a r sid True (error_text err), d'), 0)
      | (Inr res, d') \<Rightarrow> ((CFinalized a r p sid rc res, d'), 0))"
| "credit_step cc w (CFinalized a r p sid rc res) d =
     ((if or_dbFails w then CFailing a r sid True ''query failed''
       else CBilled a r p sid rc res (getKizunaBillableSettlementEvent (r_id r) sid d), d), 0)"
| "credit_step cc w (CBilled a r p sid rc res billable) d =
     ((kernel_commit cc w a (\<lambda>err. CDone (Some (credit_paid_response a r sid p rc res billable err))), d), 0)"
| "credit_step cc w (CFailing a r sid paid msg) d =
     (let answer = (if paid then CDone (Some (credit_failed a msg)) else CReleasing a r msg) in
      (next_phase (stmt (surroundings.truncate w) (updateSettlementStatus sid SettlementFailed None) d)
         answer answer, 0))"
| "credit_step cc w (CReleasing a r msg) d =
     (next_phase (stmt (surroundings.truncate w) (releaseKizunaReservation (or_env w) (r_id r) Released) d)
        (CDone (Some (credit_failed a msg))) (CDone (Some (credit_failed a msg))), 0)"
| "credit_step cc w (CDone r) d = ((CDone r, d), 0)"

section \<open>What a step does to the ledger\<close>

text \<open>The settlement row that a request has inserted and no debt refers to yet.\<close>

fun pending :: "credit_phase \<Rightarrow> string option" where
  "pending (CRecorded _ _ _ _ sid) = Some sid"
| "pending (CPaid _ _ _ _ sid _) = Some sid"
| "pending _ = None"

lemma stmt_ledger:
  assumes "stmt w m d = (r, d')" and "ledger_step d (snd (withTransaction m d))"
  shows "d' = d \<or> ledger_step d d'"
  using assms by (auto simp: stmt_def split: if_splits)

lemma next_phase_state: "snd (next_phase (r, d') ok failed) = d'"
  by (simp add: next_phase_def split: sum.split)

text \<open>
  Every step of a request is a step of the ledger, provided its own settlement row is not used yet.
\<close>

lemma credit_step_ledger:
  assumes "credit_step cc w ph d = ((ph', d'), moved)"
    and "\<And>sid. pending ph = Some sid \<Longrightarrow> sid \<notin> d_settlement_id ` set (t_debts d)"
  shows "d' = d \<or> ledger_step d d'"
proof (cases ph)
  case (CExpired a r)
  obtain q where "stmt (surroundings.truncate w) (releaseKizunaReservation (or_env w) (r_id r) Expired) d = (q, d')"
    using assms(1) CExpired
    by (cases "stmt (surroundings.truncate w) (releaseKizunaReservation (or_env w) (r_id r) Expired) d")
      (auto simp: next_phase_def Let_def split: sum.splits)
  then show ?thesis by (rule stmt_ledger) (simp add: step_release)
next
  case (CPriced a r h p)
  let ?m = "insertSettlement (or_env w) (or_uuid w) (ka_merchant a) (dp_payer (ka_payment a)) (ka_amount a) 0
     ''USDC'' [] SettlementPending (ka_network a)"
  obtain q where "stmt (surroundings.truncate w) ?m d = (q, d')"
    using assms(1) CPriced by (auto split: prod.splits sum.splits)
  then show ?thesis by (rule stmt_ledger) (rule step_settlement)
next
  case (CPaid a r h p sid rc)
  let ?m = "finalizeKizunaSettlement (or_env w) (credit_finalize_params a r h sid rc)"
  obtain q where "stmt (surroundings.truncate w) ?m d = (q, d')"
    using assms(1) CPaid by (auto split: prod.splits sum.splits)
  then show ?thesis
    by (rule stmt_ledger) (rule step_finalize, use assms(2) CPaid in \<open>simp add: credit_finalize_params_def\<close>)
next
  case (CFailing a r sid paid msg)
  let ?m = "updateSettlementStatus sid SettlementFailed None"
  obtain q where "stmt (surroundings.truncate w) ?m d = (q, d')"
    using assms(1) CFailing
    by (cases "stmt (surroundings.truncate w) ?m d") (auto simp: next_phase_def Let_def split: sum.splits)
  then show ?thesis by (rule stmt_ledger) (rule step_settlement_status)
next
  case (CReleasing a r msg)
  let ?m = "releaseKizunaReservation (or_env w) (r_id r) Released"
  obtain q where "stmt (surroundings.truncate w) ?m d = (q, d')"
    using assms(1) CReleasing
    by (cases "stmt (surroundings.truncate w) ?m d") (auto simp: next_phase_def split: sum.splits)
  then show ?thesis by (rule stmt_ledger) (simp add: step_release)
qed (use assms(1) in \<open>auto split: prod.splits sum.splits\<close>)

section \<open>Termination\<close>

fun credit_rank :: "credit_phase \<Rightarrow> nat" where
  "credit_rank (CArrived _ _) = 12"
| "credit_rank (CAdmitted _) = 11"
| "credit_rank (CKnown _) = 10"
| "credit_rank (CChecked _ _ _) = 9"
| "credit_rank (CPriced _ _ _ _) = 8"
| "credit_rank (CRecorded _ _ _ _ _) = 7"
| "credit_rank (CPaid _ _ _ _ _ _) = 6"
| "credit_rank (CFinalized _ _ _ _ _ _) = 5"
| "credit_rank (CReplay _ _) = 4"
| "credit_rank (CReplayCommit _ _ _) = 3"
| "credit_rank (CReplayBill _ _ _ _) = 2"
| "credit_rank (CFailing _ _ _ _ _) = 2"
| "credit_rank (CReplayFee _ _ _ _ _) = 1"
| "credit_rank (CExpired _ _) = 1"
| "credit_rank (CBilled _ _ _ _ _ _ _) = 1"
| "credit_rank (CReleasing _ _ _) = 1"
| "credit_rank CElsewhere = 0"
| "credit_rank (CDone _) = 0"

lemma credit_step_rank:
  "0 < credit_rank ph \<Longrightarrow> credit_rank (fst (fst (credit_step cc w ph d))) < credit_rank ph"
proof -
  have z: "credit_rank q = n \<Longrightarrow> credit_rank (fst (next_phase r q q)) = n" for q n and r :: "(error + unit) \<times> db"
    using next_phase_ok [of r q q] by auto
  assume "0 < credit_rank ph"
  then show ?thesis
    by (cases ph)
       (auto simp: z credit_admit_def credit_read_def refused_or_def credit_reservation_def credit_replay_def
          kernel_commit_def Let_def
        split: sum.split prod.split option.split)
qed

end
