(* ===== verification/Credit_System.thy ===== *)
theory Credit_System
  imports Ledger_Frames Credit_Settle
begin

text \<open>
  Credit settlements side by side: any number of credit requests of \<open>POST /settle\<close>, interleaved step by step
  with each other and with the ledger operations of the other routes.  The system refines the ledger machine
  of Ledger_System; the freshness of settlement ids, which that machine assumes, is proved here.
\<close>

section \<open>The system\<close>

text \<open>\<open>ks_paid\<close> lists the payments that were made, each with the reservation it was made for.\<close>

record credit_system =
  ks_db :: db
  ks_requests :: "credit_phase list"
  ks_paid :: "(kizuna_reservation \<times> int) list"

fun credit_payment :: "credit_phase \<Rightarrow> int \<Rightarrow> (kizuna_reservation \<times> int) list" where
  "credit_payment (CRecorded a r h p sid) moved = (if moved \<noteq> 0 then [(r, moved)] else [])"
| "credit_payment _ moved = []"

definition run_credit :: "credit_config \<Rightarrow> credit_world \<Rightarrow> nat \<Rightarrow> credit_system \<Rightarrow> credit_system" where
  "run_credit cc w i s =
     (let ph = ks_requests s ! i; out = credit_step cc w ph (ks_db s) in
      s\<lparr>ks_db := snd (fst out), ks_requests := (ks_requests s)[i := fst (fst out)],
        ks_paid := ks_paid s @ credit_payment ph (snd out)\<rparr>)"

text \<open>
  The other routes run any ledger operation.  When they settle too, as the internal job routes do, then under settlement rows of their
  own, never under one that a credit request is waiting to settle.
\<close>

inductive credit_sys_step :: "credit_config \<Rightarrow> credit_system \<Rightarrow> credit_system \<Rightarrow> bool" for cc where
  credit_arrive: "credit_sys_step cc s (s\<lparr>ks_requests := ks_requests s @ [CArrived body apiMerchant]\<rparr>)"
| credit_progress: "i < length (ks_requests s) \<Longrightarrow> credit_sys_step cc s (run_credit cc w i s)"
| credit_elsewhere: "ledger_step (ks_db s) d' \<Longrightarrow> settled_ids d' \<subseteq> recorded_ids d' \<Longrightarrow>
    \<forall>ph \<in> set (ks_requests s). set_option (pending ph) \<inter> settled_ids d' = {} \<Longrightarrow>
    credit_sys_step cc s (s\<lparr>ks_db := d'\<rparr>)"

inductive_cases credit_sys_stepE: "credit_sys_step cc s s'"

definition credit_start :: "credit_system \<Rightarrow> bool" where
  "credit_start s = (ks_db s \<in> range seed_db \<and> ks_requests s = [] \<and> ks_paid s = [])"

section \<open>Settlement ids of requests in flight\<close>

text \<open>
  Every request owns at most one settlement id: a row is recorded under it, no debt carries it, and no other request
  owns it.
\<close>

definition owned_ok :: "string option list \<Rightarrow> db \<Rightarrow> bool" where
  "owned_ok ids d =
     (settled_ids d \<subseteq> recorded_ids d
      \<and> (\<forall>i < length ids. \<forall>sid. ids ! i = Some sid \<longrightarrow> sid \<in> recorded_ids d - settled_ids d)
      \<and> (\<forall>i < length ids. \<forall>j < length ids. i \<noteq> j \<and> ids ! i \<noteq> None \<longrightarrow> ids ! i \<noteq> ids ! j))"

lemma owned_okD:
  assumes "owned_ok ids d"
  shows "settled_ids d \<subseteq> recorded_ids d"
    and "i < length ids \<Longrightarrow> ids ! i = Some sid \<Longrightarrow> sid \<in> recorded_ids d \<and> sid \<notin> settled_ids d"
    and "i < length ids \<Longrightarrow> j < length ids \<Longrightarrow> i \<noteq> j \<Longrightarrow> ids ! i = Some sid \<Longrightarrow> ids ! j \<noteq> Some sid"
  using assms unfolding owned_ok_def by (blast, blast, metis option.discI)

text \<open>How one step may change the debts' settlement ids, given the request's own id before and after.\<close>

definition ids_step :: "string option \<Rightarrow> db \<Rightarrow> string option \<Rightarrow> db \<Rightarrow> bool" where
  "ids_step own d own' d' =
     (recorded_ids d \<subseteq> recorded_ids d'
      \<and> ((own' = own \<or> own' = None) \<and> settled_ids d' = settled_ids d
         \<or> own' = None \<and> settled_ids d' \<subseteq> settled_ids d \<union> set_option own
         \<or> settled_ids d' = settled_ids d \<and> (\<exists>sid. own' = Some sid \<and> sid \<in> recorded_ids d' - recorded_ids d)))"

lemma owned_ok_step:
  assumes ok: "owned_ok ids d" and i: "i < length ids" and st: "ids_step (ids ! i) d own' d'"
  shows "owned_ok (ids[i := own']) d'"
proof -
  note own = owned_okD(1) [OF ok] owned_okD(2) [OF ok i] and others = owned_okD(2,3) [OF ok]
  have settled: "settled_ids d' \<subseteq> settled_ids d \<union> set_option (ids ! i)"
    using st by (auto simp: ids_step_def)
  have grow: "recorded_ids d \<subseteq> recorded_ids d'" using st by (simp add: ids_step_def)
  have other: "sid \<in> recorded_ids d' - settled_ids d'"
    if j: "j < length ids" "j \<noteq> i" "ids ! j = Some sid" for j sid
  proof -
    have "ids ! i \<noteq> Some sid" using others(2) [OF j(1) i j(2,3)] .
    with others(1) [OF j(1,3)] settled grow show ?thesis by (cases "ids ! i") auto
  qed
  have mine: "sid \<in> recorded_ids d' - settled_ids d' \<and>
      (ids ! i = Some sid \<or> sid \<notin> recorded_ids d)" if p: "own' = Some sid" for sid
    using st p own by (auto simp: ids_step_def)
  have apart: "ids ! j \<noteq> Some sid"
    if j: "j < length ids" "j \<noteq> i" and p: "own' = Some sid" for j sid
  proof
    assume q: "ids ! j = Some sid"
    then have "sid \<in> recorded_ids d" "ids ! i \<noteq> Some sid"
      using others(1) [OF j(1) q] others(2) [OF j(1) i j(2) q] by simp_all
    with mine [OF p] show False by blast
  qed
  have "settled_ids d' \<subseteq> recorded_ids d'"
    using settled grow own by (cases "ids ! i") auto
  moreover have "sid \<in> recorded_ids d' - settled_ids d'"
    if "j < length ids" "ids[i := own'] ! j = Some sid" for j sid
    using that other [of j sid] mine [of sid] i by (cases "j = i") auto
  moreover have "ids[i := own'] ! j \<noteq> ids[i := own'] ! k"
    if jk: "j < length ids" "k < length ids" "j \<noteq> k" "ids[i := own'] ! j = Some sid" for j k sid
    using jk others(2) [OF jk(1,2,3), of sid] apart [of k sid] apart [of j sid] i
    by (cases "j = i"; cases "k = i") auto
  ultimately show ?thesis unfolding owned_ok_def by auto metis
qed

lemma owned_ok_arrive: "owned_ok ids d \<Longrightarrow> owned_ok (ids @ [None]) d"
  unfolding owned_ok_def by (auto simp: nth_append less_Suc_eq)

definition ids_ok :: "credit_phase list \<Rightarrow> db \<Rightarrow> bool" where
  "ids_ok phs d = owned_ok (map pending phs) d"

lemma ids_okD:
  assumes "ids_ok phs d"
  shows "settled_ids d \<subseteq> recorded_ids d"
    and "i < length phs \<Longrightarrow> pending (phs ! i) = Some sid \<Longrightarrow> sid \<in> recorded_ids d \<and> sid \<notin> settled_ids d"
  using owned_okD(1,2) [OF assms [unfolded ids_ok_def]] by auto

lemma ids_ok_step:
  "ids_ok phs d \<Longrightarrow> i < length phs \<Longrightarrow> ids_step (pending (phs ! i)) d (pending ph') d' \<Longrightarrow> ids_ok (phs[i := ph']) d'"
  using owned_ok_step [of "map pending phs" d i "pending ph'" d'] by (simp add: ids_ok_def map_update)

lemma ids_ok_elsewhere:
  assumes "ids_ok phs d" and "recorded_ids d \<subseteq> recorded_ids d'" and "settled_ids d' \<subseteq> recorded_ids d'"
    and "\<forall>ph \<in> set phs. set_option (pending ph) \<inter> settled_ids d' = {}"
  shows "ids_ok phs d'"
proof -
  have "sid \<in> recorded_ids d' - settled_ids d'" if "i < length phs" "pending (phs ! i) = Some sid" for i sid
    using ids_okD(2) [OF assms(1) that] assms(2,4) that by (force simp: set_conv_nth)
  with assms(1,3) show ?thesis by (simp add: ids_ok_def owned_ok_def)
qed

lemma ids_ok_arrive: "ids_ok phs d \<Longrightarrow> pending ph = None \<Longrightarrow> ids_ok (phs @ [ph]) d"
  using owned_ok_arrive by (simp add: ids_ok_def)

section \<open>One step of one request\<close>

lemma stmt_settled_kept:
  assumes "tx_within settled_kept m" and "stmt w m d = (r, d')"
  shows "settled_ids d' = settled_ids d"
  using settled_frame.within_withTransaction [OF assms(1), of d] assms(2)
  by (auto simp: stmt_def settled_kept_def split: if_splits)

lemmas insertSettlement_ids = stmt_settled_kept [OF ledger_operations_settled(5)]
  and updateSettlementStatus_ids = stmt_settled_kept [OF ledger_operations_settled(6)]
  and releaseReservation_ids = stmt_settled_kept [OF ledger_operations_settled(4)]

lemma insertSettlement_records:
  assumes "stmt w (insertSettlement e uid mw pw amt fee asset h st n) d = (Inr row, d')"
  shows "st_id row \<in> recorded_ids d' - recorded_ids d"
  using assms
  by (auto simp: stmt_def withTransaction_success recorded_ids_def split: if_splits dest!: insertSettlement_frame)

lemma finalize_ids:
  assumes "sys_ok d" and "fz_settlementId p \<notin> settled_ids d" and run: "finalizeKizunaSettlement e p d = Inr (res, d')"
  shows "settled_ids d' \<subseteq> insert (fz_settlementId p) (settled_ids d)"
proof -
  obtain rv dec where ld: "load_reservation (fz_reservationId p) d = Some (rv, dec)"
    and live: "finalize_live e p rv dec d = Inr (res, d')" using run by (rule finalize_success)
  have "reservations_ok d" using assms(1) ledger_okD(1) by (simp add: sys_ok_def)
  with reservations_okD [OF this load_reservation_Some(1) [OF ld]]
  have "0 \<le> r_amount_micro rv" "0 \<le> r_locked_micro rv" by simp_all
  from finalize_live_effect(2) [OF live this] assms(2) show ?thesis
    by (auto simp: settled_ids_def new_debt_def)
qed

lemma stmt_finalize_ids:
  assumes "sys_ok d" and "fz_settlementId p \<notin> settled_ids d"
    and "stmt w (finalizeKizunaSettlement e p) d = (r, d')"
  shows "settled_ids d' \<subseteq> insert (fz_settlementId p) (settled_ids d)"
  using assms(3) finalize_ids [OF assms(1,2)]
  by (cases r) (auto simp: stmt_def withTransaction_def split: if_splits sum.splits)

lemma credit_step_ids:
  assumes "sys_ok d" and "\<And>sid. pending ph = Some sid \<Longrightarrow> sid \<notin> settled_ids d"
    and "credit_step cc w ph d = ((ph', d'), moved)"
  shows "ids_step (pending ph) d (pending ph') d'"
proof -
  have "d' = d \<or> ledger_step d d'"
    using assms by (intro credit_step_ledger) (auto simp: settled_ids_def)
  then have "settlements_grow d d'" using ledger_step_settlements settlement_frame.frame_refl by blast
  then have grow: "recorded_ids d \<subseteq> recorded_ids d'" unfolding recorded_ids_def settlements_grow_def .
  show ?thesis
  proof (cases ph)
    case (CExpired a r)
    with assms(3) grow show ?thesis
      by (auto simp: ids_step_def next_phase_def Let_def split: prod.splits sum.splits dest!: releaseReservation_ids)
  next
    case (CPriced a r h p)
    with assms(3) grow show ?thesis
      by (auto simp: ids_step_def split: prod.splits sum.splits
          dest: insertSettlement_ids insertSettlement_records)
  next
    case (CPaid a r h p sid rc)
    have "settled_ids d' \<subseteq> insert sid (settled_ids d)"
      using assms CPaid stmt_finalize_ids [OF assms(1), of "credit_finalize_params a r h sid rc"]
      by (auto simp: credit_finalize_params_def split: prod.splits sum.splits)
    moreover have "pending ph' = None" using assms(3) CPaid by (auto split: prod.splits sum.splits)
    ultimately show ?thesis using grow CPaid by (simp add: ids_step_def)
  next
    case (CFailing a r sid paid msg)
    with assms(3) grow show ?thesis
      by (auto simp: ids_step_def next_phase_def Let_def split: prod.splits sum.splits if_splits
          dest!: updateSettlementStatus_ids)
  next
    case (CReleasing a r msg)
    with assms(3) grow show ?thesis
      by (auto simp: ids_step_def next_phase_def split: prod.splits sum.splits dest!: releaseReservation_ids)
  qed (use assms(3) in \<open>auto simp: ids_step_def credit_admit_def credit_read_def refused_or_def credit_reservation_def
        credit_replay_def kernel_commit_def Let_def split: sum.splits prod.splits option.splits if_splits\<close>)
qed

section \<open>Answers and payments\<close>

text \<open>A reservation that was settled with a transaction.\<close>

definition settled_with :: "db \<Rightarrow> string \<Rightarrow> lane \<Rightarrow> string \<Rightarrow> bool" where
  "settled_with d txHash l poolId =
     (\<exists>r \<in> set (t_reservations d). r_status r = Consumed \<and> r_tx_hash r = Some txHash \<and> r_lane r = l \<and> r_pool_id r = poolId)"

text \<open>What a request knows about the reservation that it goes on with.\<close>

fun phase_backed :: "credit_phase \<Rightarrow> db \<Rightarrow> bool" where
  "phase_backed (CReplay a r) d = (r \<in> set (t_reservations d) \<and> r_status r = Consumed)"
| "phase_backed (CReplayCommit a r debt) d = settled_with d (or_text (r_tx_hash r) []) (r_lane r) (r_pool_id r)"
| "phase_backed (CReplayBill a r debt err) d = settled_with d (or_text (r_tx_hash r) []) (r_lane r) (r_pool_id r)"
| "phase_backed (CReplayFee a r debt err b) d = settled_with d (or_text (r_tx_hash r) []) (r_lane r) (r_pool_id r)"
| "phase_backed (CFinalized a r p sid rc res) d = settled_with d (rc_txHash rc) (fr_lane res) (fr_poolId res)"
| "phase_backed (CBilled a r p sid rc res b) d = settled_with d (rc_txHash rc) (fr_lane res) (fr_poolId res)"
| "phase_backed (CDone (Some (CreditSettled ok ext))) d = settled_with d (ok_txHash ok) (cx_lane ext) (cx_poolId ext)"
| "phase_backed _ d = True"

lemma phase_backed_kept: "phase_backed ph d \<Longrightarrow> settled_rows_kept d d' \<Longrightarrow> phase_backed ph d'"
  by (cases "(ph, d)" rule: phase_backed.cases)
    (auto simp: settled_with_def settled_rows_kept_def intro: bexI)

lemma finalize_settles:
  assumes "sys_ok d" and "fz_settlementId p \<notin> settled_ids d"
    and "finalizeKizunaSettlement e p d = Inr (res, d')"
  shows "settled_with d' (fz_txHash p) (fr_lane res) (fr_poolId res)"
proof -
  obtain r dec where ld: "load_reservation (fz_reservationId p) d = Some (r, dec)"
    and live: "finalize_live e p r dec d = Inr (res, d')" using assms(3) by (rule finalize_success)
  note mem = load_reservation_Some(1) [OF ld]
  have "reservations_ok d" using assms(1) ledger_okD(1) by (simp add: sys_ok_def)
  from reservations_okD [OF this mem] have nn: "0 \<le> r_amount_micro r" "0 \<le> r_locked_micro r" by simp_all
  have "fr_lane res = r_lane r \<and> fr_poolId res = r_pool_id r"
    using live by (auto simp: finalize_live_def thenT_success bindT_success)
  moreover have "consume_row e p r \<in> set (t_reservations d')"
    using finalize_live_effect(1) [OF live nn] assms(2) mem by (auto simp: settled_ids_def set_update_where)
  ultimately show ?thesis by (auto simp: settled_with_def consume_row_def intro!: bexI [of _ "consume_row e p r"])
qed

lemma credit_step_backed:
  assumes ok: "sys_ok d" and fresh: "\<And>sid. pending ph = Some sid \<Longrightarrow> sid \<notin> settled_ids d"
    and backed: "phase_backed ph d" and st: "credit_step cc w ph d = ((ph', d'), moved)"
  shows "phase_backed ph' d'"
proof (cases ph)
  case (CKnown a)
  have "r \<in> set (t_reservations d)" if "getKizunaReservationByNonce p n d = Some (r, dec)" for p n r dec
    using that by (auto simp: getKizunaReservationByNonce_def split: option.splits dest: find_Some_mem)
  with st CKnown show ?thesis
    by (auto simp: credit_read_def credit_reservation_def refused_or_def Let_def split: option.splits sum.splits prod.splits)
next
  case (CReplay a r)
  then have "settled_with d (or_text (r_tx_hash r) []) (r_lane r) (r_pool_id r)" if "r_tx_hash r \<noteq> None"
    using backed that by (auto simp: settled_with_def or_text_def)
  with st CReplay show ?thesis by (auto simp: credit_read_def credit_replay_def)
next
  case (CPaid a r h p sid rc)
  let ?f = "credit_finalize_params a r h sid rc"
  have f: "fz_settlementId ?f \<notin> settled_ids d" "fz_txHash ?f = rc_txHash rc"
    using fresh CPaid by (simp_all add: credit_finalize_params_def)
  show ?thesis
  proof (cases "stmt (surroundings.truncate w) (finalizeKizunaSettlement (or_env w) ?f) d")
    case (Pair q e')
    then show ?thesis
      using st CPaid finalize_settles [OF ok f(1)] f(2)
      by (cases q) (auto simp: stmt_def withTransaction_success split: if_splits)
  qed
qed (use st backed in \<open>auto simp: credit_admit_def credit_read_def refused_or_def kernel_commit_def next_phase_def
      credit_replay_response_def credit_paid_response_def kernel_unavailable_def credit_failed_def Let_def
      split: sum.splits prod.splits option.splits if_splits\<close>)

section \<open>The invariant\<close>

definition credit_inv :: "credit_system \<Rightarrow> bool" where
  "credit_inv s =
     (sys_ok (ks_db s) \<and> ids_ok (ks_requests s) (ks_db s) \<and> list_all (\<lambda>ph. phase_backed ph (ks_db s)) (ks_requests s))"

lemma all_backed_kept:
  "list_all (\<lambda>ph. phase_backed ph d) phs \<Longrightarrow> settled_rows_kept d d' \<Longrightarrow> list_all (\<lambda>ph. phase_backed ph d') phs"
  by (auto simp: list_all_iff intro: phase_backed_kept)

text \<open>A step of the system is at most one step of the ledger.\<close>

lemma credit_step_refines:
  assumes "credit_sys_step cc s s'" and "credit_inv s"
  shows "ks_db s' = ks_db s \<or> ledger_step (ks_db s) (ks_db s')"
  using assms
proof (induction rule: credit_sys_step.induct)
  case (credit_progress i s w)
  let ?ph = "ks_requests s ! i"
  have "sid \<notin> settled_ids (ks_db s)" if "pending ?ph = Some sid" for sid
    using credit_progress ids_okD(2) [OF _ credit_progress(1) that] by (simp add: credit_inv_def)
  then show ?case
    using credit_step_ledger [of cc w ?ph "ks_db s"] by (simp add: run_credit_def Let_def prod_eq_iff settled_ids_def)
qed simp_all

lemma sys_ok_step: "d' = d \<or> ledger_step d d' \<Longrightarrow> sys_ok d \<Longrightarrow> sys_ok d' \<and> settled_rows_kept d d'"
  using ledger_step_good [of d d'] good_step_refl [of d] by (auto simp: Ledger_System.good_step_def)

lemma credit_inv_step: "credit_sys_step cc s s' \<Longrightarrow> credit_inv s \<Longrightarrow> credit_inv s'"
proof -
  assume st: "credit_sys_step cc s s'" and inv: "credit_inv s"
  note kept = sys_ok_step [OF credit_step_refines [OF st inv]]
  from st inv kept show "credit_inv s'"
  proof (induction rule: credit_sys_step.induct)
    case (credit_arrive s body apiMerchant)
    then show ?case by (simp add: credit_inv_def ids_ok_arrive)
  next
    case (credit_progress i s w)
    obtain ph' d' moved where r: "credit_step cc w (ks_requests s ! i) (ks_db s) = ((ph', d'), moved)"
      by (metis surj_pair)
    note i = credit_progress(1)
    have ok: "sys_ok (ks_db s)" "ids_ok (ks_requests s) (ks_db s)"
      and all: "list_all (\<lambda>ph. phase_backed ph (ks_db s)) (ks_requests s)"
      using credit_progress(2) by (simp_all add: credit_inv_def)
    have fresh: "sid \<notin> settled_ids (ks_db s)" if "pending (ks_requests s ! i) = Some sid" for sid
      using ids_okD(2) [OF ok(2) i that] by simp
    have k: "sys_ok d'" "settled_rows_kept (ks_db s) d'"
      using credit_progress(3) ok(1) by (simp_all add: run_credit_def Let_def r)
    have "ids_ok ((ks_requests s)[i := ph']) d'"
      by (rule ids_ok_step [OF ok(2) i credit_step_ids [OF ok(1) fresh r]])
    moreover have "phase_backed ph' d'"
      using credit_step_backed [OF ok(1) fresh _ r] all i by (simp add: list_all_length)
    then have "list_all (\<lambda>ph. phase_backed ph d') ((ks_requests s)[i := ph'])"
      using all_backed_kept [OF all k(2)] i by (auto simp: list_all_length nth_list_update)
    ultimately show ?case using k by (simp add: credit_inv_def run_credit_def Let_def r)
  next
    case (credit_elsewhere s d')
    then have "settlements_grow (ks_db s) d'" by (intro ledger_step_settlements)
    then have "recorded_ids (ks_db s) \<subseteq> recorded_ids d'" unfolding recorded_ids_def settlements_grow_def .
    with credit_elsewhere ids_ok_elsewhere [of "ks_requests s" "ks_db s" d'] show ?case
      by (auto simp: credit_inv_def intro: all_backed_kept)
  qed
qed

lemma credit_start_inv: "credit_start s \<Longrightarrow> credit_inv s"
proof -
  assume "credit_start s"
  then obtain now where s: "ks_db s = seed_db now" "ks_requests s = []" by (auto simp: credit_start_def)
  have "settled_ids (seed_db now) = {}" by (simp add: settled_ids_def seed_db_def)
  with s sys_ok_seed show ?thesis by (simp add: credit_inv_def ids_ok_def owned_ok_def)
qed

interpretation crediting: invariant_system credit_start "credit_sys_step cc" credit_inv
  by unfold_locales (auto intro: credit_start_inv credit_inv_step)

lemma credit_run_refines:
  assumes "credit_start s0" and "(credit_sys_step cc)\<^sup>*\<^sup>* s0 s"
  shows "ledger_step\<^sup>*\<^sup>* (ks_db s0) (ks_db s)"
  using assms(2)
proof (induction rule: rtranclp_induct)
  case (step t u)
  have "credit_inv t" using assms(1) step(1) by (rule crediting.inv_reachable)
  from credit_step_refines [OF step(2) this] step(3) show ?case
    by (auto intro: rtranclp.rtrancl_into_rtrancl)
qed simp

section \<open>What is paid out\<close>

text \<open>The price of an accepted request, as either chain counts it, stays within its exact amount.\<close>

definition units_within :: "rat \<Rightarrow> int \<Rightarrow> bool" where
  "units_within amount limit =
     (0 \<le> toBaseUnits amount \<and> toBaseUnits amount \<le> limit
      \<and> (\<forall>t. toBaseUnitsEvm amount = Some t \<longrightarrow> 0 \<le> t \<and> t \<le> limit))"

lemma quotient_error:
  assumes "1 \<le> k"
  shows "\<bar>fl (of_int k / 10 ^ 6) * 10 ^ 6 - of_int k\<bar> \<le> of_int k / 2 ^ 53"
proof -
  let ?x = "of_int k / 10 ^ 6 :: rat"
  have k: "(1::rat) \<le> of_int k" using assms by simp
  have "pow2 (- 1022) \<le> 1 / 2 ^ 52" using pow2_mono [of "- 1022" "- 52"] by (simp add: pow2_def)
  moreover have "1 / 10 ^ 6 \<le> ?x" using k by (simp add: divide_right_mono)
  ultimately have "\<bar>fl ?x - ?x\<bar> \<le> ?x / 2 ^ 53" using k by (intro fl_relative_error) simp_all
  then have m: "\<bar>fl ?x - ?x\<bar> * 10 ^ 6 \<le> ?x / 2 ^ 53 * 10 ^ 6" by (intro mult_right_mono) simp_all
  have e: "fl ?x * 10 ^ 6 - of_int k = (fl ?x - ?x) * 10 ^ 6" by (simp add: left_diff_distrib)
  have "\<bar>fl ?x * 10 ^ 6 - of_int k\<bar> = \<bar>fl ?x - ?x\<bar> * 10 ^ 6" unfolding e abs_mult by simp
  also note m
  also have "?x / 2 ^ 53 * 10 ^ 6 = of_int k / 2 ^ 53" by simp
  finally show ?thesis .
qed

lemma units_exact:
  assumes "1 \<le> u" and "u < 2 ^ 50"
  shows "units_within (fl (of_int u / 10 ^ 6)) u"
proof -
  let ?a = "fl (of_int u / 10 ^ 6)"
  have "\<bar>fl (?a * 10 ^ 6) - of_int u\<bar> < 1 / 2"
    using assms by (intro scaled_rounding(2)) simp_all
  then have base: "toBaseUnits ?a = u" by (simp add: toBaseUnits_def js_Math_round_near)
  have "t = u" if "toBaseUnitsEvm ?a = Some t" for t
  proof -
    have "(of_int u :: rat) < of_int (2 ^ 50)" using assms(2) of_int_less_iff by blast
    then have "(of_int u :: rat) / 2 ^ 53 < 1 / 2" by simp
    with quotient_error [OF assms(1)] have "\<bar>?a * 10 ^ 6 - of_int u\<bar> < 1 / 2" by linarith
    then have "\<lfloor>?a * 10 ^ 6 + 1 / 2\<rfloor> = u" by (intro floor_unique) linarith+
    with that show ?thesis by (simp add: toBaseUnitsEvm_def split: if_splits)
  qed
  then have "\<forall>t. toBaseUnitsEvm ?a = Some t \<longrightarrow> t = u" by blast
  with base assms(1) show ?thesis by (auto simp: units_within_def)
qed

lemma units_bounded:
  assumes k: "1 \<le> k" and a: "fl (of_int k / 10 ^ 6) \<le> 10 ^ 9"
  shows "units_within (fl (of_int k / 10 ^ 6)) (10 ^ 15)"
proof -
  let ?a = "fl (of_int k / 10 ^ 6)"
  let ?y = "?a * 10 ^ 6"
  have k1: "(1::rat) \<le> of_int k" using k by simp
  have q: "\<bar>?y - of_int k\<bar> \<le> of_int k / 2 ^ 53" by (rule quotient_error [OF k])
  have "(of_int k :: rat) / 2 ^ 53 \<le> of_int k / 2" using k1 by (intro divide_left_mono) simp_all
  with q k1 have lo: "1 / 2 \<le> ?y" by linarith
  have hi: "?y \<le> 10 ^ 15" using a by simp
  have "pow2 (- 1022) \<le> 1 / 2 ^ 52" using pow2_mono [of "- 1022" "- 52"] by (simp add: pow2_def)
  with lo have "\<bar>fl ?y - ?y\<bar> \<le> ?y / 2 ^ 53" by (intro fl_relative_error) simp_all
  moreover have "?y / 2 ^ 53 < 1 / 2" using hi by simp
  ultimately have "0 \<le> fl ?y" "fl ?y + 1 / 2 < 10 ^ 15 + 1" using lo hi by linarith+
  then have "0 \<le> \<lfloor>fl ?y + 1 / 2\<rfloor>" "\<lfloor>fl ?y + 1 / 2\<rfloor> < 10 ^ 15 + 1"
    by (simp_all add: floor_less_iff)
  then have "0 \<le> toBaseUnits ?a" "toBaseUnits ?a \<le> 10 ^ 15"
    by (simp_all add: toBaseUnits_def js_Math_round_def)
  moreover have "0 \<le> t \<and> t \<le> 10 ^ 15" if "toBaseUnitsEvm ?a = Some t" for t
  proof -
    have t: "t = \<lfloor>?y + 1 / 2\<rfloor>" using that by (simp add: toBaseUnitsEvm_def split: if_splits)
    have "\<lfloor>?y + 1 / 2\<rfloor> < 10 ^ 15 + 1" using hi by (simp add: floor_less_iff)
    with t lo show ?thesis by simp
  qed
  ultimately show ?thesis by (simp add: units_within_def)
qed

lemma units_within_mono: "units_within a m \<Longrightarrow> m \<le> n \<Longrightarrow> units_within a n"
  by (auto simp: units_within_def)

lemma candidates_positive: "k \<in> set (signed_candidates t) \<Longrightarrow> 1 \<le> k"
  by (auto simp: signed_candidates_def option_list_def scaled_micro_def safe_positive_def safe_integer_def Let_def
      zero_less_floor split: js_num.splits option.splits if_splits)

lemma parseSigned_shape:
  assumes "parseSignedUsdcAmount signed e = Some x"
  obtains k where "1 \<le> k" "x = fl (of_int k / 10 ^ 6)" "\<And>u. expected_micro e = Some u \<Longrightarrow> k = u"
proof (cases "expected_micro e")
  case None
  let ?c = "set (signed_candidates (js_trim signed))"
  have "?c \<noteq> {}" and x: "x = fl (of_int (Min ?c) / 10 ^ 6)"
    using assms None by (auto simp: parseSignedUsdcAmount_def Let_def split: if_splits)
  then have "Min ?c \<in> ?c" by (intro Min_in) simp_all
  from that [OF candidates_positive [OF this] x] None show ?thesis by simp
next
  case (Some u)
  with assms have "u \<in> set (signed_candidates (js_trim signed))" "x = fl (of_int u / 10 ^ 6)"
    by (auto simp: parseSignedUsdcAmount_def Let_def split: if_splits)
  from that [OF candidates_positive [OF this(1)] this(2)] Some show ?thesis by simp
qed

lemma accepted_units:
  assumes "parseSignedUsdcAmount signed (Some raw) = Some amount" and "parseUsdcMicroAmountBigint raw = Some u"
    and "amount \<le> 10 ^ 9"
  shows "units_within amount u"
proof -
  obtain k where k: "1 \<le> k" "amount = fl (of_int k / 10 ^ 6)" "\<And>v. expected_micro (Some raw) = Some v \<Longrightarrow> k = v"
    using assms(1) by (rule parseSigned_shape) blast
  show ?thesis
  proof (cases "u < 2 ^ 50")
    case True
    then have "k = u" using k(3) expected_micro_readable [OF assms(2)] by blast
    with True k(1,2) units_exact [of u] show ?thesis by simp
  next
    case False
    then have "10 ^ 15 \<le> u" by simp
    with units_bounded [of k] k(1,2) assms(3) show ?thesis by (auto intro: units_within_mono)
  qed
qed

lemma split_shares:
  assumes "0 \<le> t" and "0 \<le> b"
  shows "0 \<le> split_fee t b" and "split_net t b + split_fee t b = t"
  using assms split_fee_nonneg [of t b] split_sum [of t b] by (cases "t = 0"; simp add: split_fee_def split_net_def)+

lemma credit_transfer_bounded:
  assumes u: "units_within (ka_amount a) limit" and b: "0 \<le> pg_feeBps p"
    and tr: "credit_transfer cc w a p = (out, moved)"
  shows "moved \<le> limit"
proof (cases "ka_network a = BASE_MAINNET_CAIP2")
  case True
  have lim: "0 \<le> limit" using u by (simp add: units_within_def)
  show ?thesis
  proof (cases "toBaseUnitsEvm (ka_amount a)")
    case None
    with True tr lim show ?thesis by (auto simp: credit_transfer_def settlePaymentBase_def split: if_splits)
  next
    case (Some t)
    with u have t: "0 \<le> t" "t \<le> limit" by (simp_all add: units_within_def)
    note sh = split_shares [OF t(1) b]
    from fee_leg_range [OF sh(1), of "cf_treasuryValid cc" "or_chain w"] True tr lim Some sh t show ?thesis
      by (auto simp: credit_transfer_def settlePaymentBase_def Let_def split: if_splits send_result.splits)
  qed
next
  case False
  let ?t = "toBaseUnits (ka_amount a)"
  have t: "0 \<le> ?t" "?t \<le> limit" using u by (simp_all add: units_within_def)
  from split_shares [OF t(1) b] t False tr show ?thesis
    by (auto simp: credit_transfer_def settlePayment_def Let_def split: if_splits send_result.splits)
qed

fun phase_covered :: "credit_phase \<Rightarrow> bool" where
  "phase_covered (CAdmitted a) = units_within (ka_amount a) (ka_amountMicro a)"
| "phase_covered (CKnown a) = units_within (ka_amount a) (ka_amountMicro a)"
| "phase_covered (CChecked a r h) = units_within (ka_amount a) (r_amount_micro r)"
| "phase_covered (CPriced a r h p) = (units_within (ka_amount a) (r_amount_micro r) \<and> 0 \<le> pg_feeBps p)"
| "phase_covered (CRecorded a r h p sid) = (units_within (ka_amount a) (r_amount_micro r) \<and> 0 \<le> pg_feeBps p)"
| "phase_covered _ = True"

lemma credit_check_covered:
  assumes "cf_MAX_SETTLEMENT_AMOUNT cc \<le> 10 ^ 9" and "credit_check cc e inp scheme network api k = Inr a"
  shows "units_within (ka_amount a) (ka_amountMicro a)"
proof -
  obtain p raw where "credit_amounts cc inp api network k p raw = Inr a"
    using assms(2) by (auto simp: credit_check_def Let_def split: if_splits option.splits)
  then have "parseSignedUsdcAmount (dp_amount p) (Some raw) = Some (ka_amount a)"
    "parseUsdcMicroAmountBigint raw = Some (ka_amountMicro a)" "ka_amount a \<le> cf_MAX_SETTLEMENT_AMOUNT cc"
    by (auto simp: credit_amounts_def Let_def split: if_splits option.splits)
  with assms(1) show ?thesis by (intro accepted_units) simp_all
qed

lemma credit_step_covered:
  assumes cap: "cf_MAX_SETTLEMENT_AMOUNT cc \<le> 10 ^ 9" and ok: "phase_covered ph"
    and st: "credit_step cc w ph d = ((ph', d'), moved)"
  shows "phase_covered ph' \<and> (\<forall>x \<in> set (credit_payment ph moved). snd x \<le> r_amount_micro (fst x))"
proof (cases ph)
  case (CArrived body api)
  with st show ?thesis
    by (auto simp: credit_admit_def split: sum.splits prod.splits option.splits dest: credit_check_covered [OF cap])
next
  case (CKnown a)
  with st ok show ?thesis
    by (auto simp: credit_read_def credit_reservation_def refused_or_def Let_def not_less elim!: units_within_mono
        split: option.splits sum.splits prod.splits)
next
  case (CChecked a r h)
  moreover have "0 \<le> pg_feeBps (price cf w')" for cf w' using price_bps [of cf w'] by simp
  ultimately show ?thesis using st ok by auto
next
  case (CRecorded a r h p sid)
  with st ok show ?thesis
    by (auto split: sum.splits prod.splits dest: credit_transfer_bounded)
qed (use st ok in \<open>auto simp: credit_read_def refused_or_def credit_replay_def kernel_commit_def next_phase_def Let_def
      split: sum.splits prod.splits option.splits if_splits\<close>)

definition payout_inv :: "credit_system \<Rightarrow> bool" where
  "payout_inv s =
     (list_all phase_covered (ks_requests s) \<and> list_all (\<lambda>(r, m). m \<le> r_amount_micro r) (ks_paid s))"

lemma payout_inv_step:
  assumes "cf_MAX_SETTLEMENT_AMOUNT cc \<le> 10 ^ 9" and "credit_sys_step cc s s'" and "payout_inv s"
  shows "payout_inv s'"
  using assms(2,3)
proof (induction rule: credit_sys_step.induct)
  case (credit_progress i s w)
  obtain ph' d' moved where r: "credit_step cc w (ks_requests s ! i) (ks_db s) = ((ph', d'), moved)"
    by (metis surj_pair)
  have "phase_covered (ks_requests s ! i)" using credit_progress by (simp add: payout_inv_def list_all_length)
  note c = credit_step_covered [OF assms(1) this r]
  have "phase_covered ((ks_requests s)[i := ph'] ! n)" if "n < length (ks_requests s)" for n
    using that c credit_progress by (cases "n = i") (simp_all add: payout_inv_def list_all_length)
  with c credit_progress(2) show ?case
    by (auto simp: payout_inv_def run_credit_def Let_def r list_all_length[of phase_covered]) (auto simp: list_all_iff)
qed (simp_all add: payout_inv_def)

lemma payout_reachable:
  assumes "cf_MAX_SETTLEMENT_AMOUNT cc \<le> 10 ^ 9" and "credit_start s0" and "(credit_sys_step cc)\<^sup>*\<^sup>* s0 s"
  shows "payout_inv s"
  using assms(3)
proof (induction rule: rtranclp_induct)
  case base
  show ?case using assms(2) by (simp add: payout_inv_def credit_start_def)
next
  case (step t u)
  then show ?case using payout_inv_step [OF assms(1)] by blast
qed

end
