(* ===== verification/Credit_Verify.thy ===== *)
theory Credit_Verify
  imports Verify Credit_System
begin

text \<open>
  The credit branch of \<open>POST /verify\<close> (\<open>routes/verify.ts\<close>): the account and its registry identity are checked, the Kizuna
  kernel is asked for a decision, the decision is recorded, and what it approves is reserved.
\<close>

section \<open>The registry identity of an account\<close>

text \<open>
  The registry columns of the account row (\<open>services/agent-registry.ts\<close>).  Of the identity that is returned to
  the client, the fields that the handler or the wallets depend on are kept; names, service lists and the registration
  file of the third-party registry package are left out.
\<close>

record registry_columns =
  rg_sync_source :: "string option"
  rg_global_id :: "string option"
  rg_owner_wallet :: "string option"
  rg_operational_wallet :: "string option"
  rg_active :: "bool option"

record kizuna_identity =
  ki_mode :: string
  ki_synced :: bool
  ki_globalId :: "string option"
  ki_authorizedWallet :: "string option"
  ki_payerWallet :: string
  ki_active :: "bool option"
  ki_syncSource :: "string option"

definition truthy :: "string option \<Rightarrow> bool" where
  "truthy v = (v \<noteq> None \<and> v \<noteq> Some [])"

definition getAuthorizedRegistryWallet :: "registry_columns \<Rightarrow> string option" where
  "getAuthorizedRegistryWallet g =
     (if truthy (rg_operational_wallet g) then rg_operational_wallet g else rg_owner_wallet g)"

definition buildKizunaIdentityPayload :: "registry_columns \<Rightarrow> kizuna_account \<Rightarrow> kizuna_identity option" where
  "buildKizunaIdentityPayload g account =
     (if \<not> truthy (rg_sync_source g) \<and> \<not> truthy (rg_global_id g) then None
      else Some
        \<lparr>ki_mode = (if rg_sync_source g = Some ''legacy'' then ''legacy'' else ''registry''),
         ki_synced = (truthy (rg_global_id g) \<and> truthy (rg_sync_source g) \<and> rg_sync_source g \<noteq> Some ''legacy''),
         ki_globalId = rg_global_id g, ki_authorizedWallet = getAuthorizedRegistryWallet g,
         ki_payerWallet = a_payer_wallet account, ki_active = rg_active g, ki_syncSource = rg_sync_source g\<rparr>)"

section \<open>What the kernel is asked\<close>

text \<open>\<open>getKizunaUnderwriteSnapshot\<close>; disputes and escrow qualities are read from tables outside the model.\<close>

record underwrite_snapshot =
  sn_accountCreatedAt :: int
  sn_settlementsConfirmed :: int
  sn_disputesFiled :: int
  sn_disputesWon :: int
  sn_avgQuality :: rat
  sn_debtsTotal :: int
  sn_debtsClosed :: int
  sn_latestActivityAt :: int

definition latest :: "int \<Rightarrow> int list \<Rightarrow> int" where
  "latest t ts = fold max ts t"

definition getKizunaUnderwriteSnapshot ::
  "int \<times> int \<times> rat \<Rightarrow> string \<Rightarrow> string \<Rightarrow> db \<Rightarrow> underwrite_snapshot option" where
  "getKizunaUnderwriteSnapshot disputes agentId payerWallet d =
     (case getKizunaAccount agentId d of
        None \<Rightarrow> None
      | Some account \<Rightarrow>
          (let settlements = filter (\<lambda>st. st_payer_wallet st = payerWallet) (t_settlements d);
               debts = filter (\<lambda>x. d_agent_id x = agentId) (t_debts d);
               closed = filter (\<lambda>x. d_status x = Closed) debts;
               (filed, won, quality) = disputes in
           Some \<lparr>sn_accountCreatedAt = a_created_at account,
                 sn_settlementsConfirmed =
                   int (length (filter (\<lambda>st. st_status st = SettlementConfirmedS) settlements)),
                 sn_disputesFiled = filed, sn_disputesWon = won, sn_avgQuality = quality,
                 sn_debtsTotal = int (length debts), sn_debtsClosed = int (length closed),
                 sn_latestActivityAt =
                   latest (latest (a_created_at account) (map st_created_at settlements)) (map d_updated_at closed)\<rparr>))"

record collateral_context =
  cl_collateralAccount :: string
  cl_assetId :: string
  cl_totalDepositedMicro :: string
  cl_totalWithdrawnMicro :: string
  cl_availableMicro :: string
  cl_effectiveCollateralMicro :: string
  cl_ltvCapBps :: int
  cl_healthFactor :: rat

record kernel_question =
  kq_agentId :: string
  kq_payerWallet :: string
  kq_repayWallet :: string
  kq_requestNonce :: string
  kq_network :: string
  kq_requestedMicro :: string
  kq_resource :: "string option"
  kq_payTo :: "string option"
  kq_maxSingleMicro :: string
  kq_outstandingMicro :: string
  kq_prefundAvailableMicro :: "string option"
  kq_lane :: lane
  kq_poolId :: string
  kq_mandateSingleLimitMicro :: "string option"
  kq_accountActive :: bool
  kq_accountAgeDays :: int
  kq_snapshot :: underwrite_snapshot
  kq_collateral :: "collateral_context option"

section \<open>Configuration, surroundings, requests\<close>

record verify_config = credit_config +
  vc_KIZUNA_ALLOW_LEGACY_AGENT_IDS :: bool
  vc_KIZUNA_ENTERPRISE_REQUIRE_PREFUND :: bool
  vc_KIZUNA_MAX_SINGLE_MICRO :: int
  vc_KIZUNA_FASTPATH_LTV_CAP_BPS :: int
  vc_KIZUNA_RESERVATION_TTL_MS :: int

text \<open>
  What the surroundings answer: clock, ids and the database connection; the registry columns, and whether the registry
  package fails; the control plane and the kernel, whose answer may depend on the question; the tables outside the
  model; and what PostgreSQL reads the kernel's numbers as when the decision is stored.
\<close>

record underwriting_world =
  uw_env :: env
  uw_uuid :: string
  uw_dbFails :: bool
  uw_registry :: registry_columns
  uw_registryFails :: bool
  uw_limits :: kernel_answer
  uw_kernel :: "kernel_question \<Rightarrow> kernel_answer"
  uw_disputes :: "int \<times> int \<times> rat"
  uw_numeric :: "string \<Rightarrow> int option"
  uw_integer :: "rat \<Rightarrow> int option"
  uw_decimal :: "rat \<Rightarrow> rat option"

record credit_request =
  cq_payment :: decoded_payment
  cq_network :: string
  cq_kizuna :: kizuna_requirement
  cq_poolId :: string
  cq_requestedMicro :: int
  cq_resource :: "string option"
  cq_payTo :: "string option"

record underwriting_reads =
  ur_snapshot :: underwrite_snapshot
  ur_outstanding :: int
  ur_pool :: "fastpath_pool option"
  ur_balance :: "enterprise_balance option"

section \<open>The checks\<close>

definition credit_verify_check ::
  "credit_config \<Rightarrow> env \<Rightarrow> verify_input \<Rightarrow> string \<Rightarrow> string \<Rightarrow> kizuna_requirement \<Rightarrow> 'x verify_answer + credit_request" where
  "credit_verify_check cc e inp scheme network k =
     (if \<not> cc_KIZUNA_ENABLED cc
      then Inl (sendVerifyFailure 400 ''kizuna_disabled'' ''Kizuna credit mode is disabled'' None)
      else if scheme = ''session''
      then Inl (sendVerifyFailure 400 ''invalid_request'' ''Kizuna does not support session payment headers'' None)
      else
        (case decodePaymentHeader (vi_paymentHeader inp) of
           None \<Rightarrow> Inl (sendVerifyFailure 400 ''invalid_payment_payload'' ''Malformed payment header'' None)
         | Some p \<Rightarrow>
             (let payer = Some (dp_payer p);
                  failure = (\<lambda>status reason msg. Inl (sendVerifyFailure status reason msg payer)) in
              if \<not> isPaymentFresh e p (dc_MAX_PAYMENT_AGE_MS cc) then failure 400 ''payment_expired'' ''Payment expired''
              else if \<not> verifyPaymentAuth (cf_checks cc) (dc_libs cc) p
              then failure 400 ''invalid_signature'' ''Invalid signature''
              else if \<not> isValidPayerForNetwork (cf_checks cc) (dp_payer p) network
              then failure 400 ''invalid_payer_wallet'' ''Invalid payer wallet for network''
              else if \<not> truthy (vi_requirementAmountRaw inp)
              then failure 400 ''invalid_amount'' ''Missing payment requirement amount''
              else if cc_KIZUNA_SECURED_ONLY cc \<and> kr_lane k \<noteq> CryptoFast
              then failure 403 ''kizuna_lane_disabled'' ''Enterprise lane is disabled in secured-only mode''
              else (case parseUsdcMicroAmountBigint (or_text (vi_requirementAmountRaw inp) []) of
                      None \<Rightarrow> failure 400 ''invalid_amount'' ''Invalid payment requirement amount''
                    | Some requestedMicro \<Rightarrow>
                        (case amount_limits (facilitator_config.truncate cc) inp (fromBaseUnits requestedMicro) payer of
                           Some r \<Rightarrow> Inl r
                         | None \<Rightarrow>
                             Inr \<lparr>cq_payment = p, cq_network = network, cq_kizuna = k, cq_poolId = default_pool cc k,
                                  cq_requestedMicro = requestedMicro, cq_resource = vi_resource inp,
                                  cq_payTo = vi_requirementPayTo inp\<rparr>)))))"

definition verify_refusal :: "credit_request \<Rightarrow> nat \<Rightarrow> string \<Rightarrow> string \<Rightarrow> 'x verify_answer" where
  "verify_refusal q status reason msg = sendVerifyFailure status reason msg (Some (dp_payer (cq_payment q)))"

definition identity_check ::
  "verify_config \<Rightarrow> registry_columns \<Rightarrow> credit_request \<Rightarrow> kizuna_account \<Rightarrow> kizuna_identity option \<Rightarrow> 'x verify_answer option" where
  "identity_check vc g q account identity =
     (let legacy = (rg_sync_source g = Some ''legacy'') in
      if (case identity of None \<Rightarrow> True | Some i \<Rightarrow> \<not> ki_synced i)
         \<and> \<not> (vc_KIZUNA_ALLOW_LEGACY_AGENT_IDS vc \<and> legacy)
      then Some (verify_refusal q 409 ''kizuna_identity_unsynced'' ''Kizuna identity is not synced with Agent Registry'')
      else if \<not> legacy \<and> rg_active g \<noteq> Some True
      then Some (verify_refusal q 409 ''kizuna_identity_inactive'' ''Agent Registry identity is inactive'')
      else if \<not> legacy \<and> (\<not> truthy (getAuthorizedRegistryWallet g)
                           \<or> getAuthorizedRegistryWallet g \<noteq> Some (dp_payer (cq_payment q)))
      then Some (verify_refusal q 400 ''kizuna_identity_wallet_mismatch''
                   ''Payment payer does not match the registered agent wallet'')
      else if a_payer_wallet account \<noteq> dp_payer (cq_payment q)
      then Some (verify_refusal q 400 ''payer_mismatch'' ''Kizuna payer mismatch'')
      else if a_repay_wallet account \<noteq> kr_repayWallet (cq_kizuna q)
      then Some (verify_refusal q 400 ''repay_wallet_mismatch'' ''Kizuna repay wallet mismatch'')
      else None)"

definition parseNonNegativeBigint :: "string option \<Rightarrow> int" where
  "parseNonNegativeBigint v =
     (case v of
        None \<Rightarrow> 0
      | Some t \<Rightarrow> if t = [] then 0 else (case BigInt_of_string t of None \<Rightarrow> 0 | Some n \<Rightarrow> max 0 n))"

text \<open>
  The same on the JSON value of \<open>caps.singleMicro\<close>.  The control plane's limits (\<open>services/kizuna-wallet-control-plane.ts\<close>) replace the cap cached with the
  account, unless the call fails or names none.
\<close>

definition getKizunaMandateLimits :: "kernel_answer \<Rightarrow> string + json option" where
  "getKizunaMandateLimits answer =
     (case answer of
        KernelUnreachable msg \<Rightarrow> Inl msg
      | KernelStatus status body \<Rightarrow>
          if status = 404 then Inr None
          else Inl (''wallet_control_plane_limits_failed:'' @
                 (case jget_opt (asRecord body) ''error'' of
                    Some (JStr msg) \<Rightarrow> msg
                  | _ \<Rightarrow> ''HTTP '' @ nat_text status))
      | KernelBody body \<Rightarrow> Inr body)"

definition mandate_single_limit :: "kernel_answer \<Rightarrow> kizuna_account \<Rightarrow> int" where
  "mandate_single_limit answer account =
     (let cached = parseNonNegativeBigint (map_option numeric_text (a_mandate_single_limit_micro account)) in
      case getKizunaMandateLimits answer of
        Inl _ \<Rightarrow> cached
      | Inr limits \<Rightarrow>
          (case jget_opt (asRecord (jget_opt (asRecord limits) ''caps'')) ''singleMicro'' of
             None \<Rightarrow> cached
           | Some v \<Rightarrow> if falsy (Some v) then cached
                       else (case BigInt_of_json (Some v) of None \<Rightarrow> 0 | Some n \<Rightarrow> max 0 n)))"

text \<open>What the four reads have to show before the kernel is asked.\<close>

definition reads_check ::
  "verify_config \<Rightarrow> credit_request \<Rightarrow> underwrite_snapshot option \<Rightarrow> int \<Rightarrow> fastpath_pool option \<Rightarrow> enterprise_balance option
   \<Rightarrow> 'x verify_answer + underwriting_reads" where
  "reads_check vc q snapshot outstanding pool balance =
     (case snapshot of
        None \<Rightarrow> Inl (verify_refusal q 404 ''kizuna_account_not_found'' ''Kizuna account not found'')
      | Some sn \<Rightarrow>
          if kr_lane (cq_kizuna q) = CryptoFast \<and> (case pool of None \<Rightarrow> True | Some p \<Rightarrow> fp_status p \<noteq> PoolActive)
          then Inl (verify_refusal q 409 ''kizuna_pool_unavailable'' ''Fast path pool is unavailable'')
          else if kr_lane (cq_kizuna q) = Enterprise \<and> vc_KIZUNA_ENTERPRISE_REQUIRE_PREFUND vc
                  \<and> (case balance of None \<Rightarrow> 0 | Some b \<Rightarrow> max 0 (eb_available_micro b)) < cq_requestedMicro q
          then Inl (verify_refusal q 409 ''kizuna_prefund_insufficient''
                      ''Insufficient prefunded balance for enterprise lane'')
          else Inr \<lparr>ur_snapshot = sn, ur_outstanding = outstanding, ur_pool = pool, ur_balance = balance\<rparr>)"

definition lane_max_single :: "verify_config \<Rightarrow> credit_request \<Rightarrow> underwriting_reads \<Rightarrow> int" where
  "lane_max_single vc q rd =
     (case (kr_lane (cq_kizuna q), ur_pool rd) of
        (CryptoFast, Some p) \<Rightarrow> max 0 (fp_max_single_micro p)
      | _ \<Rightarrow> vc_KIZUNA_MAX_SINGLE_MICRO vc)"

definition collateral_context_of ::
  "verify_config \<Rightarrow> credit_request \<Rightarrow> underwriting_reads \<Rightarrow> position_view option \<Rightarrow> collateral_summary option
   \<Rightarrow> collateral_context option" where
  "collateral_context_of vc q rd position summary =
     (case (position, summary) of
        (Some p, Some s) \<Rightarrow>
          Some \<lparr>cl_collateralAccount = or_text (kr_collateralAccount (cq_kizuna q)) [],
                cl_assetId = (case pv_assets p of [] \<Rightarrow> ''usdc''
                              | v # _ \<Rightarrow> if av_assetId v \<noteq> [] then av_assetId v else ''usdc''),
                cl_totalDepositedMicro = pv_totalAvailableMicro p, cl_totalWithdrawnMicro = ''0'',
                cl_availableMicro = pv_totalAvailableMicro p,
                cl_effectiveCollateralMicro = pv_effectiveCollateralMicro p,
                cl_ltvCapBps = (case ur_pool rd of
                                  Some f \<Rightarrow> if fp_ltv_cap_bps f \<noteq> 0 then fp_ltv_cap_bps f
                                            else vc_KIZUNA_FASTPATH_LTV_CAP_BPS vc
                                | None \<Rightarrow> vc_KIZUNA_FASTPATH_LTV_CAP_BPS vc),
                cl_healthFactor = cs_healthFactor s\<rparr>
      | _ \<Rightarrow> None)"

definition resource_of :: "credit_request \<Rightarrow> string option" where
  "resource_of q = (if dp_resource (cq_payment q) \<noteq> [] then Some (dp_resource (cq_payment q)) else cq_resource q)"

definition account_age_days :: "env \<Rightarrow> underwrite_snapshot \<Rightarrow> int" where
  "account_age_days e sn = max 0 \<lfloor>fl (of_int (env_date_now e - sn_accountCreatedAt sn) / 86400000)\<rfloor>"

definition kernel_question_of ::
  "verify_config \<Rightarrow> env \<Rightarrow> credit_request \<Rightarrow> underwriting_reads \<Rightarrow> int \<Rightarrow> collateral_context option \<Rightarrow> kernel_question" where
  "kernel_question_of vc e q rd mandate collateral =
     \<lparr>kq_agentId = kr_agentId (cq_kizuna q), kq_payerWallet = dp_payer (cq_payment q),
      kq_repayWallet = kr_repayWallet (cq_kizuna q), kq_requestNonce = dp_nonce (cq_payment q),
      kq_network = cq_network q, kq_requestedMicro = numeric_text (cq_requestedMicro q),
      kq_resource = resource_of q, kq_payTo = cq_payTo q, kq_maxSingleMicro = numeric_text (lane_max_single vc q rd),
      kq_outstandingMicro = numeric_text (ur_outstanding rd),
      kq_prefundAvailableMicro =
        (if kr_lane (cq_kizuna q) = Enterprise then map_option (numeric_text \<circ> eb_available_micro) (ur_balance rd) else None),
      kq_lane = kr_lane (cq_kizuna q), kq_poolId = cq_poolId q,
      kq_mandateSingleLimitMicro = (if 0 < mandate then Some (numeric_text mandate) else None),
      kq_accountActive = True, kq_accountAgeDays = account_age_days e (ur_snapshot rd), kq_snapshot = ur_snapshot rd,
      kq_collateral = collateral\<rparr>"

section \<open>The decision and the reservation\<close>

text \<open>
  The row that records the kernel's decision.  The kernel's texts and numbers reach PostgreSQL as they are; \<open>None\<close> is a
  value that a column does not accept.
\<close>

definition decision_row :: "underwriting_world \<Rightarrow> credit_request \<Rightarrow> kernel_result \<Rightarrow> kizuna_decision option" where
  "decision_row w q res =
     (case (uw_numeric w (kr_approvedMicro res), uw_numeric w (kr_availableMicro res),
            uw_numeric w (kr_outstandingMicro res), uw_integer w (kr_scoreRaw res)) of
        (Some approved, Some available, Some outstanding, Some score) \<Rightarrow>
          (let ltv = map_option (uw_integer w) (kr_ltvBps res); health = map_option (uw_decimal w) (kr_healthFactor res) in
           if ltv = Some None \<or> health = Some None then None
           else Some
             \<lparr>dc_id = [], dc_agent_id = kr_agentId (cq_kizuna q), dc_payer_wallet = dp_payer (cq_payment q),
              dc_repay_wallet = kr_repayWallet (cq_kizuna q), dc_request_nonce = dp_nonce (cq_payment q),
              dc_network = cq_network q, dc_lane = kr_resultLane res, dc_pool_id = kr_resultPool res,
              dc_requested_micro = cq_requestedMicro q, dc_approved = kr_approved res, dc_approved_micro = approved,
              dc_available_micro = available, dc_outstanding_micro = outstanding, dc_score_raw = score,
              dc_reason_codes = kr_reasonCodes res, dc_tier = kr_tier res, dc_policy_pack_id = Some (kr_policyPackId res),
              dc_policy_pack_version = Some (kr_policyPackVersion res), dc_risk_band = Some (kr_riskLevel res),
              dc_risk_action = Some (risk_action_text (kr_riskAction res)), dc_ltv_bps = Option.bind ltv id,
              dc_health_factor = Option.bind health id, dc_request_hash = Some (kr_requestHash res),
              dc_signing_kid = kr_signingKid res, dc_envelope_version = Some ''kizuna-envelope-v2'',
              dc_decision_envelope_hash =
                map_option (\<lambda>en. hashKizunaDecisionEnvelope (uw_env w) (EnvelopeV2 en)) (kr_envelope res),
              dc_created_at = 0\<rparr>)
      | _ \<Rightarrow> None)"

definition prefund_required :: "verify_config \<Rightarrow> credit_request \<Rightarrow> bool" where
  "prefund_required vc q = (kr_lane (cq_kizuna q) = Enterprise \<and> vc_KIZUNA_ENTERPRISE_REQUIRE_PREFUND vc)"

definition effective_available :: "verify_config \<Rightarrow> credit_request \<Rightarrow> underwriting_reads \<Rightarrow> kernel_result \<Rightarrow> int" where
  "effective_available vc q rd res =
     (let available = parseNonNegativeBigint (Some (kr_availableMicro res)) in
      if prefund_required vc q
      then min available (case ur_balance rd of None \<Rightarrow> 0 | Some b \<Rightarrow> max 0 (eb_available_micro b))
      else available)"

definition approved_micro :: "verify_config \<Rightarrow> credit_request \<Rightarrow> underwriting_reads \<Rightarrow> kernel_result \<Rightarrow> int" where
  "approved_micro vc q rd res =
     min (parseNonNegativeBigint (Some (kr_approvedMicro res))) (effective_available vc q rd res)"

definition funding_mode_for :: "verify_config \<Rightarrow> credit_request \<Rightarrow> funding_mode" where
  "funding_mode_for vc q =
     (if prefund_required vc q then Prefunded
      else if kr_lane (cq_kizuna q) = CryptoFast then Collateralized else FundNone)"

definition requested_lock :: "verify_config \<Rightarrow> credit_request \<Rightarrow> int \<Rightarrow> int" where
  "requested_lock vc q reserveMicro = (if funding_mode_for vc q = Prefunded then reserveMicro else 0)"

definition reservation_request ::
  "verify_config \<Rightarrow> credit_request \<Rightarrow> kernel_result \<Rightarrow> string \<Rightarrow> int \<Rightarrow> reservation_params" where
  "reservation_request vc q res decisionId reserveMicro =
     \<lparr>rv_decisionId = decisionId, rv_agentId = kr_agentId (cq_kizuna q), rv_payerWallet = dp_payer (cq_payment q),
      rv_requestNonce = dp_nonce (cq_payment q), rv_network = cq_network q, rv_lane = kr_resultLane res,
      rv_poolId = kr_resultPool res, rv_amountMicro = reserveMicro, rv_ttlMs = vc_KIZUNA_RESERVATION_TTL_MS vc,
      rv_fundingMode = Some (funding_mode_for vc q), rv_lockedMicro = Some (numeric_text (requested_lock vc q reserveMicro))\<rparr>"

section \<open>Answers\<close>

record credit_view =
  cv_approved :: bool
  cv_decisionId :: string
  cv_approvedMicro :: string
  cv_availableMicro :: string
  cv_lockedMicro :: string
  cv_outstandingMicro :: string
  cv_fundingMode :: funding_mode
  cv_lane :: lane
  cv_poolId :: string
  cv_policyPackId :: "string option"
  cv_riskBand :: "string option"
  cv_ltvBps :: "rat option"
  cv_healthFactor :: "rat option"
  cv_identity :: "kizuna_identity option"
  cv_kernel :: "kernel_result option"
  cv_replayed :: bool

text \<open>
  \<open>cv_kernel\<close> carries the fields that only a first answer has, copied from the kernel's: policy version, risk action, request
  hash, envelope version, key id and the decision envelope.
\<close>

definition credit_answer_head ::
  "credit_request \<Rightarrow> bool \<Rightarrow> credit_view \<Rightarrow> (string \<times> string \<times> string) option \<Rightarrow> credit_view verify_answer" where
  "credit_answer_head q valid view refused =
     VerifyAnswer
       \<lparr>vr_valid = valid, vr_payer = dp_payer (cq_payment q), vr_amount = js_number_text (fromBaseUnits (cq_requestedMicro q)),
        vr_resource = or_text (resource_of q) [], vr_balance = 0, vr_network = cq_network q, vr_extension = view,
        vr_refused = refused\<rparr>"

definition replay_answer ::
  "verify_config \<Rightarrow> env \<Rightarrow> credit_request \<Rightarrow> kizuna_identity option \<Rightarrow> kizuna_reservation \<Rightarrow> kizuna_decision
   \<Rightarrow> credit_view verify_answer" where
  "replay_answer vc e q identity r dec =
     (if r_lane r \<noteq> kr_lane (cq_kizuna q) \<or> r_pool_id r \<noteq> cq_poolId q
      then verify_refusal q 409 ''kizuna_cross_lane_replay'' ''Reservation exists for different lane or pool''
      else
        (let stillReserved = (r_status r = Reserved \<and> env_date_now e < r_expires_at r);
             effectiveApproved = (r_status r = Consumed \<or> stillReserved \<or> cc_KIZUNA_SHADOW_MODE vc);
             msg = ''Kizuna reservation is no longer active'' in
         credit_answer_head q effectiveApproved
           \<lparr>cv_approved = dc_approved dec, cv_decisionId = dc_id dec, cv_approvedMicro = numeric_text (dc_approved_micro dec),
            cv_availableMicro = numeric_text (dc_available_micro dec), cv_lockedMicro = numeric_text (r_locked_micro r),
            cv_outstandingMicro = numeric_text (dc_outstanding_micro dec), cv_fundingMode = r_funding_mode r,
            cv_lane = r_lane r, cv_poolId = r_pool_id r, cv_policyPackId = dc_policy_pack_id dec,
            cv_riskBand = dc_risk_band dec, cv_ltvBps = map_option of_int (dc_ltv_bps dec),
            cv_healthFactor = map_option fl (dc_health_factor dec), cv_identity = identity, cv_kernel = None,
            cv_replayed = True\<rparr>
           (if effectiveApproved then None else Some (msg, ''kizuna_reservation_inactive'', msg))))"

text \<open>\<open>reasonCodes.join(', ')\<close>.\<close>

fun join_reasons :: "string list \<Rightarrow> string" where
  "join_reasons [] = []"
| "join_reasons [c] = c"
| "join_reasons (c # cs) = c @ '', '' @ join_reasons cs"

definition decided_answer ::
  "verify_config \<Rightarrow> credit_request \<Rightarrow> kizuna_identity option \<Rightarrow> underwriting_reads \<Rightarrow> kernel_result \<Rightarrow> string
   \<Rightarrow> int \<times> funding_mode \<Rightarrow> credit_view verify_answer" where
  "decided_answer vc q identity rd res decisionId locked =
     (let approvedMicro = approved_micro vc q rd res; decisionApproved = (kr_approved res \<and> 0 < approvedMicro) in
      credit_answer_head q decisionApproved
        \<lparr>cv_approved = decisionApproved, cv_decisionId = decisionId, cv_approvedMicro = numeric_text approvedMicro,
         cv_availableMicro = numeric_text (effective_available vc q rd res), cv_lockedMicro = numeric_text (fst locked),
         cv_outstandingMicro = kr_outstandingMicro res, cv_fundingMode = snd locked, cv_lane = kr_resultLane res,
         cv_poolId = kr_resultPool res, cv_policyPackId = Some (kr_policyPackId res), cv_riskBand = Some (kr_riskLevel res),
         cv_ltvBps = kr_ltvBps res, cv_healthFactor = kr_healthFactor res, cv_identity = identity, cv_kernel = Some res,
         cv_replayed = False\<rparr>
        (if decisionApproved then None
         else Some (''Kizuna credit not approved'', ''kizuna_credit_denied'', join_reasons (kr_reasonCodes res))))"

section \<open>One request, step by step\<close>

datatype verify_phase =
    VArrived "json option"
  | VElsewhere
  | VAdmitted credit_request
  | VKnown credit_request kizuna_account "kizuna_identity option"
  | VFresh credit_request kizuna_account "kizuna_identity option"
  | VLimits credit_request kizuna_account "kizuna_identity option" underwriting_reads
  | VPosition credit_request "kizuna_identity option" underwriting_reads int
  | VSummary credit_request "kizuna_identity option" underwriting_reads int "position_view option"
  | VAsking credit_request "kizuna_identity option" underwriting_reads int "collateral_context option"
  | VDecided credit_request "kizuna_identity option" underwriting_reads kernel_result
  | VReserving credit_request "kizuna_identity option" underwriting_reads kernel_result string
  | VRaced credit_request "kizuna_identity option" underwriting_reads kernel_result string
  | VDone "credit_view verify_answer option"

definition verify_admit :: "verify_config \<Rightarrow> env \<Rightarrow> json option \<Rightarrow> verify_phase" where
  "verify_admit vc e body =
     (case verify_prefix (facilitator_config.truncate vc) body of
        Inl r \<Rightarrow> VDone (Some r)
      | Inr (inp, scheme, network) \<Rightarrow>
          (case vi_requirementKizuna inp of
             None \<Rightarrow> VElsewhere
           | Some k \<Rightarrow>
               (case credit_verify_check (credit_config.truncate vc) e inp scheme network k of
                  Inl r \<Rightarrow> VDone (Some r)
                | Inr q \<Rightarrow> VAdmitted q)))"

text \<open>A query outside every \<open>try\<close>: its failure goes to the error handler of the application.\<close>

definition verify_read :: "underwriting_world \<Rightarrow> verify_phase \<Rightarrow> verify_phase" where
  "verify_read w ph = (if uw_dbFails w then VDone None else ph)"

definition refused_else :: "credit_view verify_answer option \<Rightarrow> verify_phase \<Rightarrow> verify_phase" where
  "refused_else r ph = (case r of Some x \<Rightarrow> VDone (Some x) | None \<Rightarrow> ph)"

definition verify_account :: "verify_config \<Rightarrow> underwriting_world \<Rightarrow> credit_request \<Rightarrow> kizuna_account option \<Rightarrow> verify_phase" where
  "verify_account vc w q found =
     (let unknown = VDone (Some (verify_refusal q 404 ''kizuna_account_not_found'' ''Kizuna account not found'')) in
      case found of
        None \<Rightarrow> unknown
      | Some account \<Rightarrow>
          if a_status account \<noteq> AccountActive then unknown
          else if uw_registryFails w then VDone None
          else (let identity = buildKizunaIdentityPayload (uw_registry w) account in
                refused_else (identity_check vc (uw_registry w) q account identity) (VKnown q account identity)))"

definition verify_reads :: "verify_config \<Rightarrow> underwriting_world \<Rightarrow> credit_request \<Rightarrow> db \<Rightarrow> credit_view verify_answer + underwriting_reads" where
  "verify_reads vc w q d =
     (let k = cq_kizuna q; agentId = kr_agentId k in
      reads_check vc q (getKizunaUnderwriteSnapshot (uw_disputes w) agentId (dp_payer (cq_payment q)) d)
        (getKizunaOutstandingMicro agentId (Some (kr_lane k)) (Some (cq_poolId q)) d)
        (if kr_lane k = CryptoFast then getKizunaFastpathPool (cq_poolId q) d else None)
        (if prefund_required vc q then getKizunaEnterpriseBalance agentId (cq_poolId q) d else None))"

definition verify_ask ::
  "verify_config \<Rightarrow> underwriting_world \<Rightarrow> credit_request \<Rightarrow> kizuna_identity option \<Rightarrow> underwriting_reads \<Rightarrow> int
   \<Rightarrow> collateral_context option \<Rightarrow> verify_phase" where
  "verify_ask vc w q identity rd mandate collateral =
     (case evaluateKizunaKernelDecision (cc_kernelConfigured vc)
             (uw_kernel w (kernel_question_of vc (uw_env w) q rd mandate collateral)) of
        Inl msg \<Rightarrow> VDone (Some (verify_refusal q 503 ''kizuna_kernel_unavailable'' (''Kizuna kernel evaluate failed: '' @ msg)))
      | Inr res \<Rightarrow> VDecided q identity rd res)"

definition query_stmt :: "underwriting_world \<Rightarrow> (db, 'a) tx \<Rightarrow> db \<Rightarrow> (error + 'a) \<times> db" where
  "query_stmt w m d = (if uw_dbFails w then (Inl (Thrown ''query failed''), d) else withTransaction m d)"

definition verify_decide ::
  "verify_config \<Rightarrow> underwriting_world \<Rightarrow> credit_request \<Rightarrow> kizuna_identity option \<Rightarrow> underwriting_reads \<Rightarrow> kernel_result
   \<Rightarrow> db \<Rightarrow> verify_phase \<times> db" where
  "verify_decide vc w q identity rd res d =
     (case decision_row w q res of
        None \<Rightarrow> (VDone None, d)
      | Some row \<Rightarrow>
          (case query_stmt w (insertKizunaUnderwriteDecision (uw_env w) (uw_uuid w) row) d of
             (Inl _, d') \<Rightarrow> (VDone None, d')
           | (Inr dec, d') \<Rightarrow>
               (if 0 < approved_micro vc q rd res then VReserving q identity rd res (dc_id dec)
                else VDone (Some (decided_answer vc q identity rd res (dc_id dec) (0, funding_mode_for vc q))), d')))"

definition verify_reserve ::
  "verify_config \<Rightarrow> underwriting_world \<Rightarrow> credit_request \<Rightarrow> kizuna_identity option \<Rightarrow> underwriting_reads \<Rightarrow> kernel_result
   \<Rightarrow> string \<Rightarrow> db \<Rightarrow> verify_phase \<times> db" where
  "verify_reserve vc w q identity rd res decisionId d =
     (case query_stmt w (createKizunaReservation (uw_env w) (uw_uuid w)
             (reservation_request vc q res decisionId (approved_micro vc q rd res))) d of
        (Inr r, d') \<Rightarrow>
          (VDone (Some (decided_answer vc q identity rd res decisionId (max 0 (r_locked_micro r), r_funding_mode r))), d')
      | (Inl err, d') \<Rightarrow>
          (if js_includes (error_text err) ''kizuna_prefund_insufficient''
           then VDone (Some (verify_refusal q 409 ''kizuna_prefund_insufficient''
                               ''Insufficient prefunded balance for enterprise lane''))
           else VRaced q identity rd res decisionId, d'))"

definition verify_raced ::
  "verify_config \<Rightarrow> credit_request \<Rightarrow> kizuna_identity option \<Rightarrow> underwriting_reads \<Rightarrow> kernel_result \<Rightarrow> string
   \<Rightarrow> (kizuna_reservation \<times> kizuna_decision) option \<Rightarrow> verify_phase" where
  "verify_raced vc q identity rd res decisionId found =
     VDone (Some
       (case found of
          None \<Rightarrow> verify_refusal q 500 ''server_error'' ''Failed to reserve Kizuna credit''
        | Some (r, _) \<Rightarrow> decided_answer vc q identity rd res decisionId (max 0 (r_locked_micro r), r_funding_mode r)))"

text \<open>
  One query or call per step.  The four reads before the kernel is asked run side by side in the code and are one step here: nothing
  depends on their order, and what they return only goes to the kernel and into two checks.
\<close>

fun verify_step ::
  "verify_config \<Rightarrow> underwriting_world \<Rightarrow> verify_phase \<Rightarrow> db \<Rightarrow> verify_phase \<times> db" where
  "verify_step vc w (VArrived body) d = (verify_admit vc (uw_env w) body, d)"
| "verify_step vc w VElsewhere d = (VElsewhere, d)"
| "verify_step vc w (VAdmitted q) d =
     (verify_read w (verify_account vc w q (getKizunaAccount (kr_agentId (cq_kizuna q)) d)), d)"
| "verify_step vc w (VKnown q account identity) d =
     (verify_read w
        (case getKizunaReservationByNonce (dp_payer (cq_payment q)) (dp_nonce (cq_payment q)) d of
           Some (r, dec) \<Rightarrow> VDone (Some (replay_answer vc (uw_env w) q identity r dec))
         | None \<Rightarrow> VFresh q account identity), d)"
| "verify_step vc w (VFresh q account identity) d =
     (verify_read w (case verify_reads vc w q d of
                       Inl r \<Rightarrow> VDone (Some r)
                     | Inr rd \<Rightarrow> VLimits q account identity rd), d)"
| "verify_step vc w (VLimits q account identity rd) d =
     (let mandate = mandate_single_limit (uw_limits w) account in
      (if kr_lane (cq_kizuna q) = CryptoFast then VPosition q identity rd mandate
       else VAsking q identity rd mandate None, d))"
| "verify_step vc w (VPosition q identity rd mandate) d =
     (verify_read w (VSummary q identity rd mandate
        (getKizunaCollateralPosition (kr_agentId (cq_kizuna q)) (cq_poolId q)
           (or_text (kr_collateralAccount (cq_kizuna q)) []) d)), d)"
| "verify_step vc w (VSummary q identity rd mandate position) d =
     (verify_read w (VAsking q identity rd mandate
        (collateral_context_of vc q rd position
           (getKizunaCollateralSummary (kr_agentId (cq_kizuna q)) (cq_poolId q) d))), d)"
| "verify_step vc w (VAsking q identity rd mandate collateral) d = (verify_ask vc w q identity rd mandate collateral, d)"
| "verify_step vc w (VDecided q identity rd res) d = verify_decide vc w q identity rd res d"
| "verify_step vc w (VReserving q identity rd res decisionId) d = verify_reserve vc w q identity rd res decisionId d"
| "verify_step vc w (VRaced q identity rd res decisionId) d =
     (verify_read w (verify_raced vc q identity rd res decisionId
        (getKizunaReservationByNonce (dp_payer (cq_payment q)) (dp_nonce (cq_payment q)) d)), d)"
| "verify_step vc w (VDone r) d = (VDone r, d)"

section \<open>What a step does to the ledger\<close>

lemma query_stmt_ledger:
  assumes "query_stmt w m d = (r, d')" and "ledger_step d (snd (withTransaction m d))"
  shows "d' = d \<or> ledger_step d d'"
  using assms by (auto simp: query_stmt_def split: if_splits)

lemma query_stmt_success: "query_stmt w m d = (Inr x, d') \<longleftrightarrow> \<not> uw_dbFails w \<and> m d = Inr (x, d')"
  by (auto simp: query_stmt_def withTransaction_success)

lemma query_stmt_failure: "query_stmt w m d = (Inl err, d') \<Longrightarrow> d' = d"
  by (auto simp: query_stmt_def withTransaction_def split: if_splits sum.splits)

text \<open>Only two steps write, and each is one transaction of the ledger that makes no debt.\<close>

lemma verify_step_ledger:
  assumes "verify_step vc w ph d = (ph', d')"
  shows "(d' = d \<or> ledger_step d d') \<and> t_debts d' = t_debts d"
proof (cases ph)
  case (VDecided q identity rd res)
  show ?thesis
  proof (cases "decision_row w q res")
    case (Some row)
    let ?m = "insertKizunaUnderwriteDecision (uw_env w) (uw_uuid w) row"
    obtain r d1 where r: "query_stmt w ?m d = (r, d1)" by (metis surj_pair)
    have d1: "d1 = d'" using assms VDecided Some r by (auto simp: verify_decide_def split: sum.splits)
    have "d1 = d \<or> ledger_step d d1" by (rule query_stmt_ledger [OF r]) (rule step_decision)
    moreover have "t_debts d1 = t_debts d"
      using r by (cases r) (auto simp: query_stmt_success dest: query_stmt_failure insert_decision_success(2))
    ultimately show ?thesis using d1 by simp
  qed (use assms VDecided in \<open>auto simp: verify_decide_def\<close>)
next
  case (VReserving q identity rd res decisionId)
  let ?m = "createKizunaReservation (uw_env w) (uw_uuid w)
      (reservation_request vc q res decisionId (approved_micro vc q rd res))"
  obtain r d1 where r: "query_stmt w ?m d = (r, d1)" by (metis surj_pair)
  have d1: "d1 = d'" using assms VReserving r by (auto simp: verify_reserve_def split: sum.splits)
  have "d1 = d \<or> ledger_step d d1" by (rule query_stmt_ledger [OF r]) (rule step_create)
  moreover have "t_debts d1 = t_debts d"
    using r by (cases r) (auto simp: query_stmt_success same_debt_side_def dest: query_stmt_failure create_effect(3))
  ultimately show ?thesis using d1 by simp
qed (use assms in \<open>auto simp: Let_def\<close>)

section \<open>Termination\<close>

fun verify_rank :: "verify_phase \<Rightarrow> nat" where
  "verify_rank (VArrived _) = 11"
| "verify_rank (VAdmitted _) = 10"
| "verify_rank (VKnown _ _ _) = 9"
| "verify_rank (VFresh _ _ _) = 8"
| "verify_rank (VLimits _ _ _ _) = 7"
| "verify_rank (VPosition _ _ _ _) = 6"
| "verify_rank (VSummary _ _ _ _ _) = 5"
| "verify_rank (VAsking _ _ _ _ _) = 4"
| "verify_rank (VDecided _ _ _ _) = 3"
| "verify_rank (VReserving _ _ _ _ _) = 2"
| "verify_rank (VRaced _ _ _ _ _) = 1"
| "verify_rank VElsewhere = 0"
| "verify_rank (VDone _) = 0"

lemma verify_step_rank:
  "0 < verify_rank ph \<Longrightarrow> verify_rank (fst (verify_step vc w ph d)) < verify_rank ph"
  by (cases ph)
     (auto simp: verify_admit_def verify_read_def verify_account_def refused_else_def verify_ask_def verify_decide_def
        verify_reserve_def verify_raced_def Let_def split: sum.split prod.split option.split)

section \<open>From the decision to the reservation\<close>

lemma decision_row_fields:
  assumes "decision_row w q res = Some row"
  shows "dc_payer_wallet row = dp_payer (cq_payment q)" "dc_request_nonce row = dp_nonce (cq_payment q)"
    and "dc_decision_envelope_hash row =
      map_option (\<lambda>en. hashKizunaDecisionEnvelope (uw_env w) (EnvelopeV2 en)) (kr_envelope res)"
  using assms by (auto simp: decision_row_def Let_def split: option.splits if_splits)

lemma insert_decision_params:
  assumes "insertKizunaUnderwriteDecision e uid p d = Inr (row, d')"
  shows "dc_id row = uid" "dc_decision_envelope_hash row = dc_decision_envelope_hash p"
    and "dc_payer_wallet row = dc_payer_wallet p" "dc_request_nonce row = dc_request_nonce p"
  using insert_decision_success(1) [OF assms] by simp_all

lemma find_appended: "\<forall>x \<in> set xs. \<not> P x \<Longrightarrow> P y \<Longrightarrow> find P (xs @ [y]) = Some y"
  by (induction xs) auto

text \<open>A request that reaches the reservation has recorded its decision.\<close>

lemma decided_reserves:
  assumes "verify_step vc w (VDecided q identity rd res) d = (VReserving q' identity' rd' res' decisionId, d')"
  obtains dec where "q' = q" "identity' = identity" "rd' = rd" "res' = res" "0 < approved_micro vc q rd res"
    "find (\<lambda>x. dc_id x = decisionId) (t_decisions d') = Some dec"
    "dc_decision_envelope_hash dec =
       map_option (\<lambda>en. hashKizunaDecisionEnvelope (uw_env w) (EnvelopeV2 en)) (kr_envelope res)"
    "t_reservations d' = t_reservations d"
proof -
  obtain row where row: "decision_row w q res = Some row"
    using assms by (auto simp: verify_decide_def split: option.splits)
  obtain dec where run: "insertKizunaUnderwriteDecision (uw_env w) (uw_uuid w) row d = Inr (dec, d')"
    and same: "q' = q" "identity' = identity" "rd' = rd" "res' = res" "decisionId = dc_id dec" "0 < approved_micro vc q rd res"
    using assms row
    by (auto simp: verify_decide_def query_stmt_success split: sum.splits prod.splits if_splits)
  note ins = insert_decision_success [OF run] and par = insert_decision_params [OF run]
  have "find (\<lambda>x. dc_id x = decisionId) (t_decisions d') = Some dec"
    using ins(2,3) par(1) same(5) by (force intro!: find_appended)
  moreover have "t_reservations d' = t_reservations d" using ins(2) by simp
  ultimately show thesis using that same par(2) decision_row_fields(3) [OF row] by simp
qed

text \<open>A reservation that is made is the only one for its nonce, for exactly what was approved.\<close>

lemma reserving_creates:
  assumes "verify_step vc w (VReserving q identity rd res decisionId) d = (VDone (Some (VerifyAnswer r)), d')"
  obtains row where "t_reservations d' = t_reservations d @ [row]" "t_decisions d' = t_decisions d"
    "\<And>x. x \<in> set (t_reservations d) \<Longrightarrow>
       \<not> (r_payer_wallet x = dp_payer (cq_payment q) \<and> r_request_nonce x = dp_nonce (cq_payment q))"
    "r_payer_wallet row = dp_payer (cq_payment q)" "r_request_nonce row = dp_nonce (cq_payment q)"
    "r_decision_id row = decisionId" "decisionId \<in> dc_id ` set (t_decisions d)" "r_status row = Reserved"
    "r_agent_id row = kr_agentId (cq_kizuna q)" "r_network row = cq_network q" "r_lane row = kr_resultLane res"
    "r_pool_id row = kr_resultPool res" "r_amount_micro row = approved_micro vc q rd res"
    "r_expires_at row = env_now (uw_env w) + vc_KIZUNA_RESERVATION_TTL_MS vc"
    "vr_valid r = (kr_approved res \<and> 0 < approved_micro vc q rd res)"
proof -
  let ?p = "reservation_request vc q res decisionId (approved_micro vc q rd res)"
  obtain row where run: "createKizunaReservation (uw_env w) (uw_uuid w) ?p d = Inr (row, d')"
    and ans: "VerifyAnswer r = decided_answer vc q identity rd res decisionId (max 0 (r_locked_micro row), r_funding_mode row)"
    using assms by (auto simp: verify_reserve_def query_stmt_success verify_refusal_def sendVerifyFailure_def
        split: sum.splits prod.splits if_splits)
  obtain s1 s2 where st: "row = reservation_row (uw_env w) (uw_uuid w) ?p (default_funding_mode ?p) (parseMicro (rv_lockedMicro ?p))"
    "insert_reservation row d = Inr ((), s1)"
    using run by (rule create_stages)
  note ins = insert_reservation_success [OF st(2)]
  have f: "r_payer_wallet row = dp_payer (cq_payment q)" "r_request_nonce row = dp_nonce (cq_payment q)"
    "r_decision_id row = decisionId" "r_status row = Reserved" "r_agent_id row = kr_agentId (cq_kizuna q)"
    "r_network row = cq_network q" "r_lane row = kr_resultLane res" "r_pool_id row = kr_resultPool res"
    "r_amount_micro row = approved_micro vc q rd res"
    "r_expires_at row = env_now (uw_env w) + vc_KIZUNA_RESERVATION_TTL_MS vc"
    by (simp_all add: st(1) reservation_row_def reservation_request_def)
  have "\<not> (r_payer_wallet x = dp_payer (cq_payment q) \<and> r_request_nonce x = dp_nonce (cq_payment q))"
    if "x \<in> set (t_reservations d)" for x
    using ins(5) that f(1,2) by force
  moreover have "vr_valid r = (kr_approved res \<and> 0 < approved_micro vc q rd res)"
    using ans by (simp add: decided_answer_def credit_answer_head_def Let_def)
  moreover have "decisionId \<in> dc_id ` set (t_decisions d)" using ins(6) f(3) by simp
  ultimately show thesis using that create_effect(1,4) [OF run] f by simp
qed

section \<open>Verify, then settle\<close>

text \<open>The credit request that a settle request is about.\<close>

definition same_credit_request :: "credit_request \<Rightarrow> credit_admitted \<Rightarrow> bool" where
  "same_credit_request q a =
     (ka_payment a = cq_payment q \<and> ka_network a = cq_network q \<and> ka_poolId a = cq_poolId q
      \<and> kr_agentId (ka_kizuna a) = kr_agentId (cq_kizuna q) \<and> kr_lane (ka_kizuna a) = kr_lane (cq_kizuna q)
      \<and> kr_repayWallet (ka_kizuna a) = kr_repayWallet (cq_kizuna q) \<and> ka_amountMicro a = cq_requestedMicro q)"

text \<open>
  What the kernel's envelope for a request says: the terms it was asked about, credit for at least the
  amount, the hash of the terms that settle computes, and a signature and a window that pass.
\<close>

definition envelope_covers :: "kernel_keys \<Rightarrow> env \<Rightarrow> credit_admitted \<Rightarrow> payload_v2 envelope \<Rightarrow> bool" where
  "envelope_covers kk e a en =
     (let p = en_payload en in
      ensureEnvelopeWindow (EnvelopeV2 en) (env_date_now e) = Inr () \<and> verifyV2Signature kk en = Inr True
      \<and> ep_agentId p = kr_agentId (ka_kizuna a) \<and> ep_payerWallet p = dp_payer (ka_payment a)
      \<and> e2_repayWallet p = kr_repayWallet (ka_kizuna a) \<and> ep_requestNonce p = dp_nonce (ka_payment a)
      \<and> ep_network p = ka_network a \<and> ep_lane p = kr_lane (ka_kizuna a) \<and> ep_poolId p = ka_poolId a
      \<and> (case BigInt_of_string (ep_approvedMicro p) of None \<Rightarrow> False | Some n \<Rightarrow> ka_amountMicro a \<le> n)
      \<and> e2_requestHash p = hashKizunaRequest e (credit_terms a))"

lemma envelope_check_passes:
  assumes "mapKernelEvaluateResult answer = Inr res" and "kr_envelope res = Some en"
    and "envelope_covers (cc_keys cc) e a en" and "0 < ka_amountMicro a"
    and "kr_decisionEnvelope (ka_kizuna a) = Some (envelope_json (EnvelopeV2 en))"
    and "dc_decision_envelope_hash dec = Some (hashKizunaDecisionEnvelope e (EnvelopeV2 en))"
  shows "\<exists>h. envelope_check cc e a dec = Inr h"
proof -
  obtain ob where "read_result_envelope (jget ob ''decisionEnvelope'') = Inr (Some en)"
    using assms(1,2) by (auto simp: mapKernelEvaluateResult_def split: option.splits if_splits sum.splits)
  then have "parseAnyEnvelope (jget ob ''decisionEnvelope'') = Inr (EnvelopeV2 en)"
    by (auto simp: read_result_envelope_def split: sum.splits if_splits decision_envelope.splits)
  then have "verifyKizunaDecisionEnvelope (cc_keys cc) (env_date_now e) (Some (envelope_json (EnvelopeV2 en))) = Inr (EnvelopeV2 en)"
    using envelope_reads_back assms(3)
    by (simp add: verifyKizunaDecisionEnvelope_def envelope_covers_def Let_def del: envelope_json.simps)
  moreover have "envelope_terms_check e a (EnvelopeV2 en) = None"
    using assms(3,4)
    by (auto simp: envelope_terms_check_def envelope_covers_def envelope_payload.defs Let_def
        split: option.splits)
  moreover have "\<not> falsy (Some (envelope_json (EnvelopeV2 en)))" by (simp add: falsy_def)
  ultimately show ?thesis using assms(5,6) by (simp add: envelope_check_def Let_def)
qed

end
