(* ===== verification/Credit_Runs.thy ===== *)
theory Credit_Runs
  imports Credit_System Settle_System
begin

text \<open>
  What the credit branch promises over every run of the system of Credit_System, and a run of two copies of
  one request.
\<close>

section \<open>Two copies of one request\<close>

definition credit_body :: json where
  "credit_body = JObj
     [(''paymentPayload'', JObj [(''payload'', JObj pay_object)]),
      (''paymentRequirements'', JObj
        [(''network'', JStr ''solana:mainnet''), (''amount'', JStr ''250000''), (''payTo'', JStr ''m''),
         (''extra'', JObj [(''kizuna'', JObj
            [(''mode'', JStr ''credit''), (''agentId'', JStr ''agent-1''), (''repayWallet'', JStr ''repay'')])])])]"

definition credit_demo_config :: credit_config where
  "credit_demo_config = direct_config.extend pay_config
     \<lparr>cc_KIZUNA_ENABLED = True, cc_KIZUNA_SECURED_ONLY = False, cc_KIZUNA_FASTPATH_POOL_ID = ''fastpath-main'',
      cc_KIZUNA_ENTERPRISE_POOL_ID = ''enterprise-main'', cc_KIZUNA_KERNEL_FAIL_CLOSED = True,
      cc_KIZUNA_SHADOW_MODE = False, cc_kernelConfigured = True,
      cc_keys = \<lparr>kk_signingKeys = (\<lambda>_. None), kk_publicKeys = (\<lambda>_. None),
                 kk_hmac = (\<lambda>_ _. []), kk_verify = (\<lambda>_ _ _. Inr False)\<rparr>\<rparr>"

definition credit_demo_world :: "string \<Rightarrow> string \<Rightarrow> credit_world" where
  "credit_demo_world uid txHash = surroundings.extend
     ((surroundings.truncate pay_world)
        \<lparr>or_uuid := uid,
         or_chain := \<lparr>ch_balance = 1000000, ch_allowance = 0, ch_delegated = False, ch_net = Confirmed txHash,
                      ch_fee = Rejected ''none''\<rparr>\<rparr>)
     \<lparr>cw_kernel = KernelBody None\<rparr>"

definition credit_input :: settle_input where
  "credit_input = pay_input\<lparr>si_requirementKizuna := Some
     \<lparr>kr_agentId = ''agent-1'', kr_repayWallet = ''repay'', kr_lane = Enterprise, kr_collateralAccount = None,
      kr_poolId = None, kr_decisionEnvelope = None\<rparr>\<rparr>"

definition credit_demo_admitted :: credit_admitted where
  "credit_demo_admitted =
     \<lparr>ka_payment = pay_payment, ka_network = SOLANA_MAINNET_CAIP2, ka_merchant = ''m'',
      ka_kizuna = the (si_requirementKizuna credit_input), ka_poolId = ''enterprise-main'', ka_resource = None,
      ka_amount = 1 / 4, ka_amountMicro = 250000\<rparr>"

lemma credit_parse: "parseSettleInput (Some credit_body) = Inr credit_input"
proof -
  have s: "isDecodedPaymentShape pay_object"
    by (simp add: isDecodedPaymentShape_def is_string_def is_number_def pay_object_def jget_def)
  have h: "jget pay_object ''paymentHeader'' = None" by (simp add: pay_object_def jget_def)
  have l: "parse_lane ''enterprise'' = Some Enterprise" by code_simp
  show ?thesis
    by (simp add: parse_simps credit_body_def settle_payload_requirements_def extractRequirementNetwork_def
        extractScheme_def extractPaymentHeader_def h [unfolded jget_def] s accepted_of_def jget_opt_def
        extractMerchantWallet_def extractRequirementAmountRaw_def extractAsset_def extractResource_def
        pay_input_def credit_input_def extractKizunaRequirement_def l)
qed

lemma credit_admits:
  "credit_admit credit_demo_config (credit_demo_world uid h) (Some credit_body) (Some ''m'') = CAdmitted credit_demo_admitted"
proof -
  have n: "canonicalizeNetwork ''solana:mainnet'' = Some SOLANA_MAINNET_CAIP2"
    "isSupportedNetwork SOLANA_MAINNET_CAIP2 b" for b
    by (simp_all add: network_simps)
  have "parsePaymentScheme (encodeDecodedPaymentHeader pay_object ''exact'' ''solana:mainnet'')
          = Some (''exact'', ''solana:mainnet'')"
    by (rule scheme_encoded_header) simp
  with n have p: "settle_prefix (facilitator_config.truncate credit_demo_config) (Some credit_body)
      = Inr (credit_input, ''exact'', SOLANA_MAINNET_CAIP2)"
    by (simp add: settle_prefix_def credit_parse) (simp add: credit_input_def pay_input_def)
  have v: "isPaymentFresh (sample_env 1700000000500) pay_payment 60000" by code_simp
  have "length (buffer_from_base64 (replicate 86 CHR ''A'')) = 64" by code_simp
  then have s: "verifyPaymentAuth (cf_checks credit_demo_config) (dc_libs credit_demo_config) pay_payment"
    by (simp add: verifyPaymentAuth_def pay_payment_def pay_config_def credit_demo_config_def direct_config.defs)
  have i: "isValidPayerForNetwork (cf_checks credit_demo_config) (dp_payer pay_payment) SOLANA_MAINNET_CAIP2"
    by (simp add: isValidPayerForNetwork_def network_simps pay_config_def credit_demo_config_def direct_config.defs)
  have a: "parseSignedUsdcAmount ''0.25'' (Some ''250000'') = Some (1 / 4)"
    "parseUsdcMicroAmountBigint ''250000'' = Some 250000" "SOLANA_MAINNET_CAIP2 \<noteq> BASE_MAINNET_CAIP2"
    by code_simp+
  have d: "decodePaymentHeader (si_paymentHeader credit_input) = Some pay_payment"
    by (simp add: credit_input_def pay_input_def pay_decode)
  have "credit_check credit_demo_config (sample_env 1700000000500) credit_input ''exact'' SOLANA_MAINNET_CAIP2
      (Some ''m'') (the (si_requirementKizuna credit_input)) = Inr credit_demo_admitted"
    using v s i
    by (simp add: credit_check_def d a credit_demo_admitted_def
        credit_demo_config_def direct_config.defs pay_config_def)
       (simp add: credit_amounts_def default_pool_def credit_input_def pay_input_def pay_payment_def a)
  then show ?thesis
    by (simp add: credit_admit_def p credit_demo_world_def surroundings.defs pay_world_def)
       (simp add: credit_input_def)
qed

fun run_credits :: "credit_config \<Rightarrow> (credit_world \<times> nat) list \<Rightarrow> credit_system \<Rightarrow> credit_system" where
  "run_credits cc [] s = s"
| "run_credits cc ((w, i) # ws) s = run_credits cc ws (run_credit cc w i s)"

lemma run_credit_length [simp]: "length (ks_requests (run_credit cc w i s)) = length (ks_requests s)"
  by (simp add: run_credit_def Let_def)

lemma run_credits_steps:
  "list_all (\<lambda>(w, i). i < length (ks_requests s)) ws \<Longrightarrow> (credit_sys_step cc)\<^sup>*\<^sup>* s (run_credits cc ws s)"
proof (induction ws arbitrary: s)
  case (Cons wi ws)
  obtain w i where wi: "wi = (w, i)" by (cases wi)
  have "credit_sys_step cc s (run_credit cc w i s)" using Cons.prems wi by (intro credit_progress) simp
  moreover have "(credit_sys_step cc)\<^sup>*\<^sup>* (run_credit cc w i s) (run_credits cc ws (run_credit cc w i s))"
    using Cons wi by simp
  ultimately show ?case by (simp add: wi)
qed simp

text \<open>The reservation the two requests are for.\<close>

definition credit_db1 :: db where
  "credit_db1 = snd (withTransaction (upsertKizunaAccount (sample_env 1)
     (sample_account\<lparr>a_payer_wallet := ''pAyEr''\<rparr>)) (seed_db 0))"

definition credit_db2 :: db where
  "credit_db2 = snd (withTransaction (insertKizunaUnderwriteDecision (sample_env 1700000000000) ''dec-1''
     (sample_decision\<lparr>dc_payer_wallet := ''pAyEr'', dc_request_nonce := ''n-1'', dc_network := SOLANA_MAINNET_CAIP2,
        dc_requested_micro := 250000, dc_approved_micro := 250000\<rparr>)) credit_db1)"

definition credit_db :: db where
  "credit_db = snd (withTransaction (createKizunaReservation (sample_env 1700000000000) ''res-1''
     (sample_params\<lparr>rv_payerWallet := ''pAyEr'', rv_requestNonce := ''n-1'', rv_network := SOLANA_MAINNET_CAIP2,
        rv_amountMicro := 250000, rv_ttlMs := 600000, rv_fundingMode := None, rv_lockedMicro := None\<rparr>)) credit_db2)"

definition credit_demo_start :: credit_system where
  "credit_demo_start = \<lparr>ks_db = seed_db 0, ks_requests = [], ks_paid = []\<rparr>"

definition credit_both :: credit_system where
  "credit_both = \<lparr>ks_db = credit_db, ks_requests = [CAdmitted credit_demo_admitted, CAdmitted credit_demo_admitted],
                  ks_paid = []\<rparr>"

lemma credit_both_reachable: "(credit_sys_step credit_demo_config)\<^sup>*\<^sup>* credit_demo_start credit_both"
proof -
  let ?s = "\<lambda>d qs. \<lparr>ks_db = d, ks_requests = qs, ks_paid = []\<rparr>"
  let ?A = "CArrived (Some credit_body) (Some ''m'')"
  let ?step = "credit_sys_step credit_demo_config"
  have ids: "settled_ids (seed_db 0) = {}" "settled_ids credit_db1 = {}" "settled_ids credit_db2 = {}"
    "settled_ids credit_db = {}"
  proof -
    have "t_debts (seed_db 0) = []" "t_debts credit_db1 = []" "t_debts credit_db2 = []" "t_debts credit_db = []"
      by code_simp+
    then show "settled_ids (seed_db 0) = {}" "settled_ids credit_db1 = {}" "settled_ids credit_db2 = {}"
      "settled_ids credit_db = {}"
      by (simp_all add: settled_ids_def)
  qed
  have other: "?step (?s d []) (?s d' [])" if "ledger_step d d'" "settled_ids d' = {}" for d d'
    using credit_elsewhere [of "?s d []" d' credit_demo_config] that by simp
  have arrive: "?step (?s credit_db qs) (?s credit_db (qs @ [?A]))" for qs
    using credit_arrive [of credit_demo_config "?s credit_db qs"] by simp
  have "?step (?s (seed_db 0) []) (?s credit_db1 [])"
    using ids unfolding credit_db1_def by (intro other step_account) (simp_all flip: credit_db1_def)
  moreover have "?step (?s credit_db1 []) (?s credit_db2 [])"
    using ids unfolding credit_db2_def by (intro other step_decision) (simp_all flip: credit_db2_def)
  moreover have "?step (?s credit_db2 []) (?s credit_db [])"
    using ids unfolding credit_db_def by (intro other step_create) (simp_all flip: credit_db_def)
  moreover note arrive [of "[]"] arrive [of "[?A]"]
  moreover have "?step\<^sup>*\<^sup>* (?s credit_db [?A, ?A])
      (run_credits credit_demo_config [(credit_demo_world [] [], 0), (credit_demo_world [] [], 1)] (?s credit_db [?A, ?A]))"
    by (rule run_credits_steps) simp
  moreover have "run_credits credit_demo_config [(credit_demo_world [] [], 0), (credit_demo_world [] [], 1)]
      (?s credit_db [?A, ?A]) = credit_both"
    by (simp add: run_credit_def Let_def credit_admits credit_both_def)
  ultimately show ?thesis unfolding credit_demo_start_def by simp
qed

text \<open>
  Both requests read the reservation while it is still reserved, and both pay; then the first finalizes and
  answers, and the second cannot.
\<close>

definition credit_demo_runs :: "(credit_world \<times> nat) list" where
  "credit_demo_runs =
     (let w = credit_demo_world ''s1'' ''h1''; v = credit_demo_world ''s2'' ''h2'' in
      [(w, 0), (v, 1), (w, 0), (v, 1), (w, 0), (v, 1), (w, 0), (v, 1), (w, 0), (v, 1),
       (w, 0), (w, 0), (w, 0), (v, 1), (v, 1), (v, 1)])"

definition credit_demo :: credit_system where
  "credit_demo = run_credits credit_demo_config credit_demo_runs credit_both"

lemma credit_demo_reachable: "(credit_sys_step credit_demo_config)\<^sup>*\<^sup>* credit_demo_start credit_demo"
proof -
  have "(credit_sys_step credit_demo_config)\<^sup>*\<^sup>* credit_both credit_demo"
    unfolding credit_demo_def
    by (rule run_credits_steps) (simp add: credit_demo_runs_def credit_both_def list_all_iff Let_def)
  with credit_both_reachable show ?thesis by (rule rtranclp_trans)
qed

lemma run_credits_length: "length (ks_requests (run_credits cc ws s)) = length (ks_requests s)"
  by (induction ws arbitrary: s) auto

lemma credit_demo_length: "length (ks_requests credit_demo) = 2"
  by (simp add: credit_demo_def run_credits_length credit_both_def)

lemma credit_demo_starts: "credit_start credit_demo_start"
  by (simp add: credit_start_def credit_demo_start_def)

text \<open>What was paid, what is owed, and what the first request was told.\<close>

fun credit_answer :: "credit_phase \<Rightarrow> (string \<times> lane \<times> string) option" where
  "credit_answer (CDone (Some (CreditSettled ok ext))) = Some (ok_txHash ok, cx_lane ext, cx_poolId ext)"
| "credit_answer _ = None"

definition credit_outcome ::
  "credit_system \<Rightarrow> (string \<times> int \<times> int) list \<times> (string option \<times> int) list \<times> (string \<times> lane \<times> string) option" where
  "credit_outcome s =
     (map (\<lambda>(r, m). (r_id r, r_amount_micro r, m)) (ks_paid s),
      map (\<lambda>d. (d_reservation_id d, d_principal_micro d)) (t_debts (ks_db s)),
      credit_answer (ks_requests s ! 0))"

lemma credit_demo_outcome:
  "credit_outcome credit_demo =
     ([(''res-1'', 250000, 250000), (''res-1'', 250000, 250000)], [(Some ''res-1'', 250000)],
      Some (''h1'', Enterprise, ''enterprise-main''))"
  by code_simp

section \<open>Properties\<close>

text \<open>
  Credit settlements refine the ledger: whatever credit requests are in flight, interleaved statement by
  statement, with failing statements and failing transfers, and with the other routes changing the ledger between
  any two statements, the ledger goes through a run of the ledger machine.  In particular no request finalizes
  under a settlement id that another debt carries, which the machine asks for, so everything shown of the
  machine's runs holds in the presence of this handler.
\<close>

theorem credit_requests_refine_ledger:
  assumes "credit_start s0" and "(credit_sys_step cc)\<^sup>*\<^sup>* s0 s"
  shows "ledger_step\<^sup>*\<^sup>* (ks_db s0) (ks_db s)"
  using assms by (rule credit_run_refines)

theorem credit_requests_refine_ledger_witness:
  "ledger_step\<^sup>*\<^sup>* (seed_db 0) (ks_db credit_demo) \<and> length (t_debts (ks_db credit_demo)) = 1"
proof -
  have "length (map (\<lambda>d. (d_reservation_id d, d_principal_micro d)) (t_debts (ks_db credit_demo))) = 1"
    using credit_demo_outcome by (simp add: credit_outcome_def)
  with credit_requests_refine_ledger [OF credit_demo_starts credit_demo_reachable] show ?thesis
    by (simp add: credit_demo_start_def)
qed

text \<open>
  Claim C25. A credit payment is reported only when the ledger holds it: a request that is answered with success,
  on first presentation or as a replay, names the transaction, lane and pool of a reservation that is settled
  with that transaction.
\<close>

theorem credit_success_is_recorded:
  assumes "credit_start s0" and "(credit_sys_step cc)\<^sup>*\<^sup>* s0 s"
    and "CDone (Some (CreditSettled ok ext)) \<in> set (ks_requests s)"
  shows "\<exists>r \<in> set (t_reservations (ks_db s)).
           r_status r = Consumed \<and> r_tx_hash r = Some (ok_txHash ok) \<and> r_lane r = cx_lane ext \<and> r_pool_id r = cx_poolId ext"
proof -
  have "credit_inv s" using assms(1,2) by (rule crediting.inv_reachable)
  with assms(3) have "phase_backed (CDone (Some (CreditSettled ok ext))) (ks_db s)"
    by (auto simp: credit_inv_def list_all_iff)
  then show ?thesis by (simp add: settled_with_def)
qed

theorem credit_success_is_recorded_witness:
  "\<exists>r \<in> set (t_reservations (ks_db credit_demo)). r_status r = Consumed \<and> r_tx_hash r = Some ''h1''"
proof -
  have a: "credit_answer (ks_requests credit_demo ! 0) = Some (''h1'', Enterprise, ''enterprise-main'')"
    using credit_demo_outcome by (simp add: credit_outcome_def)
  then obtain ok ext where q: "ks_requests credit_demo ! 0 = CDone (Some (CreditSettled ok ext))" "ok_txHash ok = ''h1''"
    by (cases "ks_requests credit_demo ! 0" rule: credit_answer.cases) auto
  have "0 < length (ks_requests credit_demo)" by (simp add: credit_demo_length)
  then have "CDone (Some (CreditSettled ok ext)) \<in> set (ks_requests credit_demo)" by (metis nth_mem q(1))
  from credit_success_is_recorded [OF credit_demo_starts credit_demo_reachable this] q(2) show ?thesis by auto
qed

text \<open>
  Claim C26. No credit payment exceeds its reservation: with the amount limit at most a billion USDC, what a request
  moves, fee included, on either chain, is at most the micro-USDC amount of the reservation it was made for,
  although the amount takes part in the checks as a floating-point number and as an exact integer.
\<close>

theorem credit_payout_bounded:
  assumes "cf_MAX_SETTLEMENT_AMOUNT cc \<le> 10 ^ 9" and "credit_start s0" and "(credit_sys_step cc)\<^sup>*\<^sup>* s0 s"
    and "(r, moved) \<in> set (ks_paid s)"
  shows "moved \<le> r_amount_micro r"
proof -
  have "payout_inv s" using assms(1-3) by (rule payout_reachable)
  with assms(4) show ?thesis by (auto simp: payout_inv_def list_all_iff)
qed

theorem credit_payout_bounded_witness:
  "list_all (\<lambda>(r, m). m \<le> r_amount_micro r) (ks_paid credit_demo) \<and> length (ks_paid credit_demo) = 2"
proof -
  have "length (map (\<lambda>(r, m). (r_id r, r_amount_micro r, m)) (ks_paid credit_demo)) = 2"
    using credit_demo_outcome by (simp add: credit_outcome_def)
  moreover have "cf_MAX_SETTLEMENT_AMOUNT credit_demo_config \<le> 10 ^ 9"
    by (simp add: credit_demo_config_def pay_config_def direct_config.defs)
  from credit_payout_bounded [OF this credit_demo_starts credit_demo_reachable]
  have "list_all (\<lambda>(r, m). m \<le> r_amount_micro r) (ks_paid credit_demo)" by (auto simp: list_all_iff)
  ultimately show ?thesis by simp
qed

text \<open>
  Claim C27. One reservation can be paid twice.  Nothing is locked between the check that the reservation is still
  \<open>reserved\<close> and the payment: two copies of a credit request, interleaved, pay the merchant 250000
  micro-USDC each, while only one of them is finalized, so the ledger holds one debt of 250000.
\<close>

theorem credit_reservation_paid_twice:
  "credit_start credit_demo_start \<and> (credit_sys_step credit_demo_config)\<^sup>*\<^sup>* credit_demo_start credit_demo
   \<and> map (\<lambda>(r, m). (r_id r, m)) (ks_paid credit_demo) = [(''res-1'', 250000), (''res-1'', 250000)]
   \<and> map d_principal_micro (t_debts (ks_db credit_demo)) = [250000]"
proof -
  have p: "map (\<lambda>(r, m). (r_id r, r_amount_micro r, m)) (ks_paid credit_demo)
      = [(''res-1'', 250000, 250000), (''res-1'', 250000, 250000)]"
    and d: "map (\<lambda>d. (d_reservation_id d, d_principal_micro d)) (t_debts (ks_db credit_demo)) = [(Some ''res-1'', 250000)]"
    using credit_demo_outcome by (simp_all add: credit_outcome_def)
  have "map (\<lambda>(i, n, m). (i, m)) (map (\<lambda>(r, m). (r_id r, r_amount_micro r, m)) (ks_paid credit_demo))
      = [(''res-1'', 250000), (''res-1'', 250000)]"
    by (subst p) simp
  moreover have "map snd (map (\<lambda>d. (d_reservation_id d, d_principal_micro d)) (t_debts (ks_db credit_demo))) = [250000]"
    by (subst d) simp
  ultimately show ?thesis
    using credit_demo_starts credit_demo_reachable by (simp add: comp_def case_prod_unfold)
qed

end
