(* ===== verification/Credit_Service.thy ===== *)
theory Credit_Service
  imports Credit_Verify Credit_Runs
begin

text \<open>
  Credit from \<open>POST /verify\<close> to \<open>POST /settle\<close>: what the first handler reserves is what the second one pays out, and
  both, running side by side, move the ledger only by its own operations.
\<close>

section \<open>The reservation that settle finds\<close>

lemma reserved_lookup:
  assumes "verify_step vc w (VDecided q identity rd res) d0 = (VReserving q identity rd res decisionId, d1)"
    and "verify_step vc w' (VReserving q identity rd res decisionId) d1 = (VDone (Some (VerifyAnswer r)), d2)"
  obtains row dec where
    "getKizunaReservationByNonce (dp_payer (cq_payment q)) (dp_nonce (cq_payment q)) d2 = Some (row, dec)"
    "row \<in> set (t_reservations d2)" "r_status row = Reserved" "r_agent_id row = kr_agentId (cq_kizuna q)"
    "r_network row = cq_network q" "r_lane row = kr_resultLane res" "r_pool_id row = kr_resultPool res"
    "r_amount_micro row = approved_micro vc q rd res"
    "r_expires_at row = env_now (uw_env w') + vc_KIZUNA_RESERVATION_TTL_MS vc"
    "dc_decision_envelope_hash dec =
       map_option (\<lambda>en. hashKizunaDecisionEnvelope (uw_env w) (EnvelopeV2 en)) (kr_envelope res)"
    "vr_valid r = (kr_approved res \<and> 0 < approved_micro vc q rd res)"
proof -
  obtain dec where dec: "find (\<lambda>x. dc_id x = decisionId) (t_decisions d1) = Some dec"
    "dc_decision_envelope_hash dec =
       map_option (\<lambda>en. hashKizunaDecisionEnvelope (uw_env w) (EnvelopeV2 en)) (kr_envelope res)"
    using assms(1) by (rule decided_reserves)
  obtain row where row: "t_reservations d2 = t_reservations d1 @ [row]" "t_decisions d2 = t_decisions d1"
    "\<And>x. x \<in> set (t_reservations d1) \<Longrightarrow>
       \<not> (r_payer_wallet x = dp_payer (cq_payment q) \<and> r_request_nonce x = dp_nonce (cq_payment q))"
    "r_payer_wallet row = dp_payer (cq_payment q)" "r_request_nonce row = dp_nonce (cq_payment q)"
    "r_decision_id row = decisionId" "decisionId \<in> dc_id ` set (t_decisions d1)" "r_status row = Reserved"
    "r_agent_id row = kr_agentId (cq_kizuna q)" "r_network row = cq_network q" "r_lane row = kr_resultLane res"
    "r_pool_id row = kr_resultPool res" "r_amount_micro row = approved_micro vc q rd res"
    "r_expires_at row = env_now (uw_env w') + vc_KIZUNA_RESERVATION_TTL_MS vc"
    "vr_valid r = (kr_approved res \<and> 0 < approved_micro vc q rd res)"
    using assms(2) by (rule reserving_creates) blast
  let ?P = "\<lambda>x. r_payer_wallet x = dp_payer (cq_payment q) \<and> r_request_nonce x = dp_nonce (cq_payment q)
      \<and> r_decision_id x \<in> dc_id ` set (t_decisions d2)"
  have "find ?P (t_reservations d2) = Some row"
    unfolding row(1) by (rule find_appended) (use row(2-7) in auto)
  then have "getKizunaReservationByNonce (dp_payer (cq_payment q)) (dp_nonce (cq_payment q)) d2 = Some (row, dec)"
    using row(2,6) dec(1) by (simp add: getKizunaReservationByNonce_def)
  then show thesis using that row dec(2) by simp
qed

lemma reservation_check_passes:
  assumes "same_credit_request q a" and "r_agent_id row = kr_agentId (cq_kizuna q)" and "r_network row = cq_network q"
    and "r_lane row = kr_lane (cq_kizuna q)" and "r_pool_id row = cq_poolId q"
  shows "reservation_check a row = None"
  using assms by (simp add: reservation_check_def same_credit_request_def)

section \<open>The service\<close>

record credit_service =
  sv_credit :: credit_system
  sv_verifies :: "verify_phase list"

definition run_verify :: "verify_config \<Rightarrow> underwriting_world \<Rightarrow> nat \<Rightarrow> credit_service \<Rightarrow> credit_service" where
  "run_verify vc w i s =
     (let out = verify_step vc w (sv_verifies s ! i) (ks_db (sv_credit s)) in
      s\<lparr>sv_credit := (sv_credit s)\<lparr>ks_db := snd out\<rparr>, sv_verifies := (sv_verifies s)[i := fst out]\<rparr>)"

inductive service_step :: "verify_config \<Rightarrow> credit_service \<Rightarrow> credit_service \<Rightarrow> bool" for vc where
  serve_credit: "credit_sys_step (credit_config.truncate vc) (sv_credit s) c \<Longrightarrow> service_step vc s (s\<lparr>sv_credit := c\<rparr>)"
| serve_arrival: "service_step vc s (s\<lparr>sv_verifies := sv_verifies s @ [VArrived body]\<rparr>)"
| serve_verify: "i < length (sv_verifies s) \<Longrightarrow> service_step vc s (run_verify vc w i s)"

inductive_cases service_stepE: "service_step vc s s'"

definition service_start :: "credit_service \<Rightarrow> bool" where
  "service_start s = (credit_start (sv_credit s) \<and> sv_verifies s = [])"

text \<open>To the settle requests, a verify request is one of the other routes.\<close>

lemma service_step_credit:
  assumes "service_step vc s s'" and "credit_inv (sv_credit s)"
  shows "sv_credit s' = sv_credit s \<or> credit_sys_step (credit_config.truncate vc) (sv_credit s) (sv_credit s')"
  using assms
proof (induction rule: service_step.induct)
  case (serve_verify i s w)
  obtain ph' d' where v: "verify_step vc w (sv_verifies s ! i) (ks_db (sv_credit s)) = (ph', d')" by (metis surj_pair)
  have l: "d' = ks_db (sv_credit s) \<or> ledger_step (ks_db (sv_credit s)) d'"
    and ids: "settled_ids d' = settled_ids (ks_db (sv_credit s))"
    using verify_step_ledger [OF v] by (simp_all add: settled_ids_def)
  have ok: "ids_ok (ks_requests (sv_credit s)) (ks_db (sv_credit s))" using serve_verify(2) by (simp add: credit_inv_def)
  have c: "sv_credit (run_verify vc w i s) = (sv_credit s)\<lparr>ks_db := d'\<rparr>" by (simp add: run_verify_def Let_def v)
  from l show ?case
  proof
    assume st: "ledger_step (ks_db (sv_credit s)) d'"
    then have "recorded_ids (ks_db (sv_credit s)) \<subseteq> recorded_ids d'"
      using ledger_step_settlements unfolding recorded_ids_def settlements_grow_def by blast
    then have "settled_ids d' \<subseteq> recorded_ids d'" using ids_okD(1) [OF ok] ids by blast
    moreover have "\<forall>ph \<in> set (ks_requests (sv_credit s)). set_option (pending ph) \<inter> settled_ids d' = {}"
      using ids_okD(2) [OF ok] ids by (fastforce simp: in_set_conv_nth)
    ultimately show ?case using st credit_elsewhere [of "sv_credit s" d'] c by simp
  qed (use c in simp)
qed simp_all

lemma service_run_credit:
  assumes "credit_start (sv_credit s0)" and "(service_step vc)\<^sup>*\<^sup>* s0 s"
  shows "(credit_sys_step (credit_config.truncate vc))\<^sup>*\<^sup>* (sv_credit s0) (sv_credit s)"
  using assms(2)
proof (induction rule: rtranclp_induct)
  case (step t u)
  have "credit_inv (sv_credit t)" using assms(1) step(3) by (rule crediting.inv_reachable)
  from service_step_credit [OF step(2) this] step(3) show ?case by (auto intro: rtranclp.rtrancl_into_rtrancl)
qed simp

section \<open>Properties\<close>

text \<open>
  Credit verification and settlement refine the ledger: whatever credit requests are in flight at
  \<open>POST /verify\<close> and \<open>POST /settle\<close>, interleaved statement by statement, with failing statements, failing transfers and any answers
  of the kernel, and with the other routes changing the ledger between any two statements, the ledger goes through
  a run of the ledger machine.  In particular no request finalizes under a settlement id that another debt carries, which the
  machine asks for, so everything shown of the machine's runs holds in the presence of these handlers.
\<close>

theorem credit_service_refines_ledger:
  assumes "service_start s0" and "(service_step vc)\<^sup>*\<^sup>* s0 s"
  shows "ledger_step\<^sup>*\<^sup>* (ks_db (sv_credit s0)) (ks_db (sv_credit s))"
  using assms credit_run_refines [OF _ service_run_credit] by (simp add: service_start_def)


text \<open>
  Claim C24. A partial approval is answered as valid and cannot be settled: when the kernel approves less than was
  requested, verify reserves what was approved and answers that the requested amount is valid, and the settle
  request for it is refused because it exceeds the reservation.
\<close>

theorem partial_approval_is_not_payable:
  assumes kernel: "kr_resultLane res = kr_lane (cq_kizuna q)" "kr_resultPool res = cq_poolId q" "kr_approved res"
      "0 < approved_micro vc q rd res" "approved_micro vc q rd res < cq_requestedMicro q"
    and steps: "verify_step vc w (VDecided q identity rd res) d0 = (VReserving q identity rd res decisionId, d1)"
      "verify_step vc w' (VReserving q identity rd res decisionId) d1 = (VDone (Some (VerifyAnswer r)), d2)"
    and settle: "same_credit_request q a" "\<not> or_dbFails sw"
      "env_date_now (or_env sw) < env_now (uw_env w') + vc_KIZUNA_RESERVATION_TTL_MS vc"
  shows "vr_valid r \<and> credit_step (credit_config.truncate vc) sw (CKnown a) d2
           = ((CDone (Some (CreditRefused (credit_refusal a 400 ''kizuna_amount_exceeds_reservation''
                ''Requested amount exceeds reserved credit''))), d2), 0)"
proof -
  obtain row dec where lk: "getKizunaReservationByNonce (dp_payer (cq_payment q)) (dp_nonce (cq_payment q)) d2 = Some (row, dec)"
    and row: "r_status row = Reserved" "r_agent_id row = kr_agentId (cq_kizuna q)" "r_network row = cq_network q"
      "r_lane row = kr_resultLane res" "r_pool_id row = kr_resultPool res"
      "r_amount_micro row = approved_micro vc q rd res"
      "r_expires_at row = env_now (uw_env w') + vc_KIZUNA_RESERVATION_TTL_MS vc"
    and v: "vr_valid r = (kr_approved res \<and> 0 < approved_micro vc q rd res)"
    using steps by (rule reserved_lookup) blast
  have same: "ka_payment a = cq_payment q" "ka_amountMicro a = cq_requestedMicro q"
    using settle(1) by (simp_all add: same_credit_request_def)
  have "reservation_check a row = None"
    using reservation_check_passes [OF settle(1) row(2,3)] row(4,5) kernel(1,2) by simp
  then show ?thesis
    using lk same row settle(2,3) kernel(3-5) v
    by (simp add: credit_read_def credit_reservation_def refused_or_def Let_def not_le)
qed

text \<open>
  A credit request is decided once: after a decision for a payer's nonce is recorded, whether it was a denial or its
  reservation failed, no later verify request with that nonce gets as far as a second decision; unless a
  reservation exists, it ends in the application's error handler, whatever the kernel answers, and changes nothing.
\<close>

theorem credit_decision_is_final:
  assumes "verify_step vc w (VDecided q identity rd res) d0 = (ph, d1)" and "ph \<noteq> VDone None"
    and "set (t_decisions d1) \<subseteq> set (t_decisions d2)"
    and "dp_payer (cq_payment q') = dp_payer (cq_payment q)" and "dp_nonce (cq_payment q') = dp_nonce (cq_payment q)"
  shows "verify_step vc w' (VDecided q' identity' rd' res') d2 = (VDone None, d2)"
proof -
  obtain row dec where row: "decision_row w q res = Some row"
    and run: "insertKizunaUnderwriteDecision (uw_env w) (uw_uuid w) row d0 = Inr (dec, d1)"
    using assms(1,2) by (auto simp: verify_decide_def query_stmt_success split: option.splits sum.splits prod.splits)
  have "dec \<in> set (t_decisions d1)" using insert_decision_success(2) [OF run] by simp
  then have dec: "dec \<in> set (t_decisions d2)" "dc_payer_wallet dec = dp_payer (cq_payment q)"
    "dc_request_nonce dec = dp_nonce (cq_payment q)"
    using assms(3) insert_decision_params(3,4) [OF run] decision_row_fields(1,2) [OF row] by auto
  show ?thesis
  proof (cases "decision_row w' q' res'")
    case (Some row')
    obtain x d' where x: "query_stmt w' (insertKizunaUnderwriteDecision (uw_env w') (uw_uuid w') row') d2 = (x, d')"
      by (metis surj_pair)
    have "x \<noteq> Inr y" for y
    proof
      assume "x = Inr y"
      with x have run': "insertKizunaUnderwriteDecision (uw_env w') (uw_uuid w') row' d2 = Inr (y, d')"
        by (simp add: query_stmt_success)
      have "dc_payer_wallet y = dp_payer (cq_payment q')" "dc_request_nonce y = dp_nonce (cq_payment q')"
        using insert_decision_params(3,4) [OF run'] decision_row_fields(1,2) [OF Some] by simp_all
      with insert_decision_success(4) [OF run'] dec assms(4,5) show False by force
    qed
    then obtain err where "x = Inl err" by (cases x) auto
    with x query_stmt_failure [of w' _ d2 err d'] Some show ?thesis by (simp add: verify_decide_def)
  qed (simp add: verify_decide_def)
qed

section \<open>Witnesses\<close>

definition service_config :: "credit_config \<Rightarrow> verify_config" where
  "service_config cc = credit_config.extend cc
     \<lparr>vc_KIZUNA_ALLOW_LEGACY_AGENT_IDS = False, vc_KIZUNA_ENTERPRISE_REQUIRE_PREFUND = False,
      vc_KIZUNA_MAX_SINGLE_MICRO = 2000000, vc_KIZUNA_FASTPATH_LTV_CAP_BPS = 4000, vc_KIZUNA_RESERVATION_TTL_MS = 120000\<rparr>"

lemma service_config_truncate: "credit_config.truncate (service_config cc) = cc"
  by (simp add: service_config_def credit_config.defs)

lemma serve_credits:
  assumes "(credit_sys_step (credit_config.truncate vc))\<^sup>*\<^sup>* c c'"
  shows "(service_step vc)\<^sup>*\<^sup>* (s\<lparr>sv_credit := c\<rparr>) (s\<lparr>sv_credit := c'\<rparr>)"
  using assms
proof (induction rule: rtranclp_induct)
  case (step t u)
  then show ?case using serve_credit [of vc "s\<lparr>sv_credit := t\<rparr>" u] by (auto intro: rtranclp.rtrancl_into_rtrancl)
qed simp

theorem credit_service_refines_ledger_witness:
  "ledger_step\<^sup>*\<^sup>* (seed_db 0) (ks_db credit_demo)"
proof -
  let ?s = "\<lparr>sv_credit = credit_demo_start, sv_verifies = [VArrived None]\<rparr>"
  let ?vc = "service_config credit_demo_config"
  have "service_step ?vc \<lparr>sv_credit = credit_demo_start, sv_verifies = []\<rparr> ?s"
    using serve_arrival [of ?vc "\<lparr>sv_credit = credit_demo_start, sv_verifies = []\<rparr>" None] by simp
  moreover have "(service_step ?vc)\<^sup>*\<^sup>* ?s (?s\<lparr>sv_credit := credit_demo\<rparr>)"
    using serve_credits [of ?vc credit_demo_start credit_demo ?s] credit_demo_reachable
    by (simp add: service_config_truncate)
  ultimately have "(service_step ?vc)\<^sup>*\<^sup>* \<lparr>sv_credit = credit_demo_start, sv_verifies = []\<rparr> (?s\<lparr>sv_credit := credit_demo\<rparr>)"
    by (rule converse_rtranclp_into_rtranclp)
  from credit_service_refines_ledger [OF _ this] credit_demo_starts show ?thesis
    by (simp add: service_start_def credit_demo_start_def)
qed

text \<open>A hash function with one value keeps the demonstration small.\<close>

definition service_env :: "int \<Rightarrow> env" where
  "service_env now = \<lparr>env_now = now, env_date_now = now, env_uuid = nat_text, env_sha256 = (\<lambda>_. ''h'')\<rparr>"

definition service_envelope :: "payload_v2 envelope" where
  "service_envelope =
     \<lparr>en_kid = ''k2'', en_issuedAt = 1000, en_expiresAt = 600000,
      en_payload =
        \<lparr>ep_decisionId = ''dec-1'', ep_agentId = ''agent-1'', ep_payerWallet = ''pAyEr'', ep_requestNonce = ''n-1'',
         ep_network = SOLANA_MAINNET_CAIP2, ep_lane = Enterprise, ep_poolId = ''enterprise-main'',
         ep_approvedMicro = ''250000'', ep_policyPackId = ''pack'', ep_ltvBps = None, ep_healthFactor = None,
         e2_repayWallet = ''repay'', e2_policyPackVersion = ''1'', e2_riskLevel = ''low'', e2_riskAction = RiskNone,
         e2_requestHash = ''h''\<rparr>,
      en_signature = ''c2ln''\<rparr>"

definition service_answer :: json where
  "service_answer =
     JObj [(''approved'', JBool True), (''decisionId'', JStr ''dec-1''), (''approvedMicro'', JStr ''250000''),
       (''availableMicro'', JStr ''900000''), (''outstandingMicro'', JStr ''0''), (''scoreRaw'', JNum 700),
       (''tier'', JStr ''gold''), (''lane'', JStr ''enterprise''), (''poolId'', JStr ''enterprise-main''),
       (''policyPackId'', JStr ''pack''), (''policyPackVersion'', JStr ''1''), (''riskLevel'', JStr ''low''),
       (''requestHash'', JStr ''h''), (''envelopeVersion'', JStr ''kizuna-envelope-v2''),
       (''decisionEnvelope'', envelope_json (EnvelopeV2 service_envelope))]"

definition service_result :: "string \<Rightarrow> kernel_result" where
  "service_result approved =
     \<lparr>kr_approved = True, kr_decisionId = ''dec-1'', kr_approvedMicro = approved, kr_availableMicro = ''900000'',
      kr_outstandingMicro = ''0'', kr_scoreRaw = 700, kr_reasonCodes = [], kr_tier = ''gold'', kr_resultLane = Enterprise,
      kr_resultPool = ''enterprise-main'', kr_policyPackId = ''pack'', kr_policyPackVersion = ''1'', kr_riskLevel = ''low'',
      kr_riskAction = RiskNone, kr_requestHash = ''h'', kr_signingKid = None, kr_ltvBps = None, kr_healthFactor = None,
      kr_envelope = Some service_envelope\<rparr>"

lemma service_kernel: "mapKernelEvaluateResult (Some service_answer) = Inr (service_result ''250000'')"
  by code_simp

definition service_world :: "int \<Rightarrow> string \<Rightarrow> underwriting_world" where
  "service_world now uid =
     \<lparr>uw_env = service_env now, uw_uuid = uid, uw_dbFails = False,
      uw_registry = \<lparr>rg_sync_source = Some ''8004-solana'', rg_global_id = Some ''g'', rg_owner_wallet = Some ''pAyEr'',
                     rg_operational_wallet = None, rg_active = Some True\<rparr>,
      uw_registryFails = False, uw_limits = KernelUnreachable [],
      uw_kernel = (\<lambda>_. KernelBody (Some service_answer)), uw_disputes = (0, 0, 0),
      uw_numeric = BigInt_of_string, uw_integer = (\<lambda>x. Some \<lfloor>x\<rfloor>), uw_decimal = Some\<rparr>"

definition service_request :: credit_request where
  "service_request =
     \<lparr>cq_payment = pay_payment, cq_network = SOLANA_MAINNET_CAIP2, cq_kizuna = the (si_requirementKizuna credit_input),
      cq_poolId = ''enterprise-main'', cq_requestedMicro = 250000, cq_resource = None, cq_payTo = Some ''m''\<rparr>"

definition service_reads :: underwriting_reads where
  "service_reads =
     \<lparr>ur_snapshot =
        \<lparr>sn_accountCreatedAt = 1, sn_settlementsConfirmed = 0, sn_disputesFiled = 0, sn_disputesWon = 0, sn_avgQuality = 0,
         sn_debtsTotal = 0, sn_debtsClosed = 0, sn_latestActivityAt = 1\<rparr>,
      ur_outstanding = 0, ur_pool = None, ur_balance = None\<rparr>"

definition service_db :: db where
  "service_db = (seed_db 0)\<lparr>t_accounts := [''agent-1'' \<mapsto> sample_account\<lparr>a_payer_wallet := ''pAyEr''\<rparr>]\<rparr>"

definition service_keys :: kernel_keys where
  "service_keys = \<lparr>kk_signingKeys = (\<lambda>_. None), kk_publicKeys = [''k2'' \<mapsto> ''pem''], kk_hmac = (\<lambda>_ _. []),
     kk_verify = (\<lambda>_ _ _. Inr True)\<rparr>"

definition service_vc :: verify_config where
  "service_vc = service_config (credit_demo_config\<lparr>cc_keys := service_keys\<rparr>)"

lemma service_numbers:
  "BigInt_of_string ''250000'' = Some 250000" "BigInt_of_string ''100000'' = Some 100000"
  "BigInt_of_string ''900000'' = Some 900000" "BigInt_of_string ''0'' = Some 0" "parseMicro (Some ''0'') = 0"
  "parseMicro (Some ''250000'') = 250000" "parseMicro (Some ''100000'') = 100000"
  "numeric_text 0 = ''0''" "numeric_text 250000 = ''250000''" "numeric_text 100000 = ''100000''"
  by code_simp+

lemma service_approved:
  "approved_micro service_vc service_request service_reads (service_result ''250000'') = 250000"
  "approved_micro service_vc service_request service_reads (service_result ''100000'') = 100000"
  by (simp_all add: approved_micro_def effective_available_def prefund_required_def parseNonNegativeBigint_def
      service_result_def service_numbers service_vc_def service_config_def credit_config.defs)

lemma service_fields:
  "kr_resultLane (service_result approved) = Enterprise" "kr_resultPool (service_result approved) = ''enterprise-main''"
  "kr_envelope (service_result approved) = Some service_envelope" "kr_approved (service_result approved)"
  "cq_poolId service_request = ''enterprise-main''" "cq_requestedMicro service_request = 250000"
  "cq_payment service_request = pay_payment" "cq_network service_request = SOLANA_MAINNET_CAIP2"
  "kr_lane (cq_kizuna service_request) = Enterprise" "kr_agentId (cq_kizuna service_request) = ''agent-1''"
  by (simp_all add: service_result_def service_request_def credit_input_def)

lemma insert_decision_runs:
  assumes "decision_checks row s = Inr ((), s)" and "row = params\<lparr>dc_id := uid, dc_created_at := env_now e\<rparr>"
    and "t_decisions s = []" and "t_accounts s (dc_agent_id row) \<noteq> None"
  shows "insertKizunaUnderwriteDecision e uid params s = Inr (row, s\<lparr>t_decisions := [row]\<rparr>)"
  using assms by (simp add: insertKizunaUnderwriteDecision_def Let_def thenT_def bindT_def ensureT_def fk_account_def modifyT_def returnT_def)

definition service_row :: "string \<Rightarrow> int \<Rightarrow> kizuna_decision" where
  "service_row uid n =
     \<lparr>dc_id = uid, dc_agent_id = ''agent-1'', dc_payer_wallet = ''pAyEr'', dc_repay_wallet = ''repay'', dc_request_nonce = ''n-1'',
      dc_network = SOLANA_MAINNET_CAIP2, dc_lane = Enterprise, dc_pool_id = ''enterprise-main'', dc_requested_micro = 250000,
      dc_approved = True, dc_approved_micro = n, dc_available_micro = 900000, dc_outstanding_micro = 0, dc_score_raw = 700,
      dc_reason_codes = [], dc_tier = ''gold'', dc_policy_pack_id = Some ''pack'', dc_policy_pack_version = Some ''1'',
      dc_risk_band = Some ''low'', dc_risk_action = Some ''none'', dc_ltv_bps = None, dc_health_factor = None,
      dc_request_hash = Some ''h'', dc_signing_kid = None, dc_envelope_version = Some ''kizuna-envelope-v2'',
      dc_decision_envelope_hash = Some ''h'', dc_created_at = (if uid = [] then 0 else 2000)\<rparr>"

lemma service_decision_row:
  assumes "BigInt_of_string approved = Some n"
  shows "decision_row (service_world t uid) service_request (service_result approved) = Some (service_row [] n)"
  using assms
  by (simp add: decision_row_def service_world_def service_result_def service_numbers service_request_def credit_input_def
      pay_payment_def service_row_def hashKizunaDecisionEnvelope_def service_env_def)

lemma service_row_checks:
  assumes "0 \<le> n" and "n \<le> 250000"
  shows "decision_checks (service_row uid n) s = Inr ((), s)"
  using assms
  by (simp add: decision_checks_def service_row_def thenT_def bindT_def check_numeric30_def numeric30_fits_def ensureT_def
      one_of_def in_range_opt_def)

definition service_db1 :: "int \<Rightarrow> db" where
  "service_db1 n = service_db\<lparr>t_decisions := [service_row ''dec-1'' n]\<rparr>"

lemma service_decides:
  assumes "approved = ''250000'' \<and> n = 250000 \<or> approved = ''100000'' \<and> n = 100000"
  shows "verify_step service_vc (service_world 2000 ''dec-1'')
      (VDecided service_request None service_reads (service_result approved)) service_db =
    (VReserving service_request None service_reads (service_result approved) ''dec-1'', service_db1 n)"
proof -
  let ?w = "service_world 2000 ''dec-1''"
  have n: "BigInt_of_string approved = Some n" "0 \<le> n" "n \<le> 250000"
    "0 < approved_micro service_vc service_request service_reads (service_result approved)"
    using assms service_numbers service_approved by auto
  have "insertKizunaUnderwriteDecision (uw_env ?w) (uw_uuid ?w) (service_row [] n) service_db =
      Inr (service_row ''dec-1'' n, service_db1 n)"
    unfolding service_db1_def
    by (rule insert_decision_runs [OF service_row_checks])
       (use n in \<open>simp_all add: service_row_def service_world_def service_env_def service_db_def seed_db_def\<close>)
  then have "query_stmt ?w (insertKizunaUnderwriteDecision (uw_env ?w) (uw_uuid ?w) (service_row [] n)) service_db =
      (Inr (service_row ''dec-1'' n), service_db1 n)"
    by (simp add: query_stmt_success) (simp add: service_world_def)
  moreover have "dc_id (service_row ''dec-1'' n) = ''dec-1''" by (simp add: service_row_def)
  ultimately show ?thesis using service_decision_row [OF n(1)] n(4) by (simp add: verify_decide_def)
qed

definition service_db2 :: "string \<Rightarrow> int \<Rightarrow> db" where
  "service_db2 approved n = snd (verify_step service_vc (service_world 2001 ''res-1'')
     (VReserving service_request None service_reads (service_result approved) ''dec-1'') (service_db1 n))"

lemma service_reserves:
  assumes "approved = ''250000'' \<and> n = 250000 \<or> approved = ''100000'' \<and> n = 100000"
  obtains r where "verify_step service_vc (service_world 2001 ''res-1'')
      (VReserving service_request None service_reads (service_result approved) ''dec-1'') (service_db1 n) =
    (VDone (Some (VerifyAnswer r)), service_db2 approved n)"
proof -
  let ?w = "service_world 2001 ''res-1''" and ?vc = "service_vc"
  let ?p = "reservation_request ?vc service_request (service_result approved) ''dec-1'' n"
  have n: "approved_micro ?vc service_request service_reads (service_result approved) = n" "0 \<le> n" "n \<le> 250000"
    "parseMicro (Some (numeric_text n)) = n"
    using assms service_numbers service_approved by auto
  have "\<exists>row s. createKizunaReservation (uw_env ?w) (uw_uuid ?w) ?p (service_db1 n) = Inr (row, s)"
    using n
    by (simp add: createKizunaReservation_def Let_def default_funding_mode_def insert_reservation_def
      reservation_row_def reservation_request_def funding_mode_for_def prefund_required_def requested_lock_def
      service_numbers service_fields service_vc_def service_config_def credit_config.defs service_request_def pay_payment_def
      thenT_def bindT_def check_numeric30_def numeric30_fits_def fk_account_def
      ensureT_def bumpKizunaPoolReserve_def ensureKizunaPoolReserve_def insert_if_absent_def
      put_reserve_def bumped_reserve_def reserve_fits_def numeric30_def lock_prefund_def
      service_db1_def service_db_def seed_db_def seed_reserve_def service_row_def credit_input_def)
  then obtain row s where "createKizunaReservation (uw_env ?w) (uw_uuid ?w) ?p (service_db1 n) = Inr (row, s)" by blast
  then have "query_stmt ?w (createKizunaReservation (uw_env ?w) (uw_uuid ?w) ?p) (service_db1 n) = (Inr row, s)"
    by (simp add: query_stmt_success) (simp add: service_world_def)
  then have "verify_step ?vc ?w (VReserving service_request None service_reads (service_result approved) ''dec-1'') (service_db1 n) =
      (VDone (Some (decided_answer ?vc service_request None service_reads (service_result approved) ''dec-1''
         (max 0 (r_locked_micro row), r_funding_mode row))), s)"
    by (simp add: verify_reserve_def n(1))
  then show thesis using that by (simp add: service_db2_def decided_answer_def credit_answer_head_def Let_def)
qed

definition service_settle :: "int \<Rightarrow> credit_world" where
  "service_settle now = (credit_demo_world ''s1'' ''h1'')\<lparr>or_env := service_env now\<rparr>"

definition service_admitted :: credit_admitted where
  "service_admitted = credit_demo_admitted\<lparr>ka_kizuna := (ka_kizuna credit_demo_admitted)
     \<lparr>kr_decisionEnvelope := Some (envelope_json (EnvelopeV2 service_envelope))\<rparr>\<rparr>"

lemma service_same: "same_credit_request service_request service_admitted"
  by (simp add: same_credit_request_def service_admitted_def credit_demo_admitted_def service_request_def)

lemma service_envelope_covers: "envelope_covers service_keys (service_env 3000) service_admitted service_envelope"
proof -
  have "e2_requestHash (en_payload service_envelope) = hashKizunaRequest (service_env 3000) (credit_terms service_admitted)"
    by (simp add: hashKizunaRequest_def service_env_def service_envelope_def)
  moreover have "verifyV2Signature service_keys service_envelope = Inr True"
    by (simp add: verifyV2Signature_def configured_key_def service_keys_def service_envelope_def)
  moreover have "ensureEnvelopeWindow (EnvelopeV2 service_envelope) (env_date_now (service_env 3000)) = Inr ()"
    by (simp add: ensureEnvelopeWindow_def service_env_def service_envelope_def)
  ultimately show ?thesis
    by (simp add: envelope_covers_def Let_def) (simp add: service_envelope_def service_admitted_def
        credit_demo_admitted_def credit_input_def pay_payment_def service_numbers)
qed

lemma service_keys_of: "cc_keys service_vc = service_keys"
  by (simp add: service_vc_def service_config_def credit_config.defs)


theorem partial_approval_is_not_payable_witness:
  "fst (fst (credit_step (credit_config.truncate service_vc) (service_settle 3000) (CKnown service_admitted)
      (service_db2 ''100000'' 100000))) =
    CDone (Some (CreditRefused (credit_refusal service_admitted 400 ''kizuna_amount_exceeds_reservation''
      ''Requested amount exceeds reserved credit'')))"
proof -
  obtain r where r: "verify_step service_vc (service_world 2001 ''res-1'')
      (VReserving service_request None service_reads (service_result ''100000'') ''dec-1'') (service_db1 100000) =
    (VDone (Some (VerifyAnswer r)), service_db2 ''100000'' 100000)"
    using service_reserves [of "''100000''" 100000] by blast
  have w: "env_now (uw_env (service_world 2001 uid)) = 2001" "vc_KIZUNA_RESERVATION_TTL_MS service_vc = 120000"
    "\<not> or_dbFails (service_settle 3000)" "env_date_now (or_env (service_settle 3000)) = 3000" for uid
    by (simp_all add: service_world_def service_env_def service_vc_def service_config_def credit_config.defs
        service_settle_def credit_demo_world_def surroundings.defs pay_world_def)
  have "verify_step service_vc (service_world 2000 ''dec-1'')
        (VDecided service_request None service_reads (service_result ''100000'')) service_db =
      (VReserving service_request None service_reads (service_result ''100000'') ''dec-1'', service_db1 100000)"
    by (rule service_decides) blast
  from partial_approval_is_not_payable [OF _ _ _ _ _ this r service_same] show ?thesis
    using w service_approved by (simp add: service_fields)
qed

theorem credit_decision_is_final_witness:
  "fst (verify_step service_vc (service_world 2000 ''dec-2'')
      (VDecided service_request None service_reads (service_result ''100000'')) (service_db1 250000)) = VDone None"
proof -
  have "verify_step service_vc (service_world 2000 ''dec-1'')
        (VDecided service_request None service_reads (service_result ''250000'')) service_db =
      (VReserving service_request None service_reads (service_result ''250000'') ''dec-1'', service_db1 250000)"
    by (rule service_decides) blast
  from credit_decision_is_final [OF this, of "service_db1 250000" service_request] show ?thesis by simp
qed

end
