(* ===== verification/Route_Programs.thy ===== *)
theory Route_Programs
  imports Credit_System
begin

text \<open>
  Request handlers as trees: a handler answers, or runs one query and goes on with its result, or calls another
  service and goes on with its answer.  Requests interleave between these points.  A handler that only
  runs ledger transactions, and finalizes only under settlement rows it has inserted itself, takes the ledger
  through steps of the ledger machine.
\<close>

section \<open>Programs\<close>

text \<open>Clock, generated id and connection of one query.\<close>

record query_world =
  qw_env :: env
  qw_uuid :: string
  qw_fails :: bool

datatype ('c, 'x, 'r) prog =
    Reply 'r
  | Query "query_world \<Rightarrow> db \<Rightarrow> ('c, 'x, 'r) prog \<times> db"
  | Call 'c "'x \<Rightarrow> ('c, 'x, 'r) prog"

text \<open>The induction rule, with the results of a query named.\<close>

lemma prog_induct [case_names Reply Query Call]:
  fixes p :: "('c, 'x, 'r) prog"
  assumes "\<And>r. P (Reply r)" and "\<And>f. (\<And>w d. P (fst (f w d))) \<Longrightarrow> P (Query f)"
    and "\<And>c k. (\<And>x. P (k x)) \<Longrightarrow> P (Call c k)"
  shows "P p"
proof (induction p)
  case (Query f)
  have "P (fst (f w d))" for w d
  proof (rule Query.IH)
    show "f w \<in> range f" by simp
    show "f w d \<in> range (f w)" by simp
    show "fst (f w d) \<in> Basic_BNFs.fsts (f w d)" by (metis fsts.intros prod.collapse)
  qed
  then show ?case by (rule assms(2))
qed (use assms in auto)

text \<open>
  One step; the call that was made, if any, is handed out.  \<open>'x\<close> holds what the other services answer.
\<close>

fun prog_step :: "'x \<Rightarrow> query_world \<Rightarrow> ('c, 'x, 'r) prog \<Rightarrow> db \<Rightarrow> (('c, 'x, 'r) prog \<times> db) \<times> 'c list" where
  "prog_step answers w (Reply r) d = ((Reply r, d), [])"
| "prog_step answers w (Query f) d = (f w d, [])"
| "prog_step answers w (Call c k) d = ((k answers, d), [c])"

definition run_query :: "query_world \<Rightarrow> (db, 'a) tx \<Rightarrow> db \<Rightarrow> (error + 'a) \<times> db" where
  "run_query w m d = (if qw_fails w then (Inl (Thrown ''query failed''), d) else withTransaction m d)"

text \<open>\<open>const x = await ..\<close> of a function that works in one transaction, or that only reads.\<close>

definition await :: "(env \<Rightarrow> string \<Rightarrow> (db, 'a) tx) \<Rightarrow> (error + 'a \<Rightarrow> ('c, 'x, 'r) prog) \<Rightarrow> ('c, 'x, 'r) prog" where
  "await m k = Query (\<lambda>w d. map_prod k id (run_query w (m (qw_env w) (qw_uuid w)) d))"

definition await_read :: "(db \<Rightarrow> 'a) \<Rightarrow> (error + 'a \<Rightarrow> ('c, 'x, 'r) prog) \<Rightarrow> ('c, 'x, 'r) prog" where
  "await_read f k = await (\<lambda>_ _. getT f) k"

text \<open>\<open>try { .. } catch (err) { .. }\<close> around a point where a promise may be rejected.\<close>

definition catching :: "('e \<Rightarrow> 'p) \<Rightarrow> ('a \<Rightarrow> 'p) \<Rightarrow> 'e + 'a \<Rightarrow> 'p" where
  "catching handle go r = (case r of Inl err \<Rightarrow> handle err | Inr x \<Rightarrow> go x)"

lemma catching_simps [simp]:
  "catching handle go (Inl err) = handle err" "catching handle go (Inr x) = go x"
  by (simp_all add: catching_def)

lemma run_query_simps:
  "qw_fails w \<Longrightarrow> run_query w m d = (Inl (Thrown ''query failed''), d)"
  "\<not> qw_fails w \<Longrightarrow> run_query w m d = withTransaction m d"
  by (simp_all add: run_query_def)

lemma run_query_success: "run_query w m d = (Inr x, d') \<longleftrightarrow> \<not> qw_fails w \<and> m d = Inr (x, d')"
  by (auto simp: run_query_def withTransaction_success)

lemma run_query_failure: "run_query w m d = (Inl err, d') \<Longrightarrow> d' = d"
  by (auto simp: run_query_def withTransaction_def split: if_splits sum.splits)

section \<open>A handler ends\<close>

text \<open>A bound on the statements and calls before the answer.\<close>

primrec answers_within :: "('c, 'x, 'r) prog \<Rightarrow> nat \<Rightarrow> bool" where
  "answers_within (Reply r) = (\<lambda>n. True)"
| "answers_within (Query f) = (\<lambda>n. 0 < n \<and> (\<forall>w d. fst (map_prod answers_within id (f w d)) (n - 1)))"
| "answers_within (Call c k) = (\<lambda>n. 0 < n \<and> (\<forall>x. answers_within (k x) (n - 1)))"

lemma answers_within_await [simp]:
  "answers_within (await m k) n \<longleftrightarrow> 0 < n \<and> (\<forall>w d. answers_within (k (fst (run_query w (m (qw_env w) (qw_uuid w)) d))) (n - 1))"
  by (simp add: await_def)

lemma answers_within_awaitI:
  "0 < n \<Longrightarrow> (\<And>r. answers_within (k r) (n - 1)) \<Longrightarrow> answers_within (await m k) n"
  "0 < n \<Longrightarrow> (\<And>r. answers_within (k r) (n - 1)) \<Longrightarrow> answers_within (await_read f k) n"
  by (simp_all add: await_read_def)

fun run_prog :: "('x \<times> query_world \<times> db) list \<Rightarrow> ('c, 'x, 'r) prog \<Rightarrow> ('c, 'x, 'r) prog" where
  "run_prog [] p = p"
| "run_prog ((answers, w, d) # ws) p = run_prog ws (fst (fst (prog_step answers w p d)))"

lemma run_prog_Reply [simp]: "run_prog ws (Reply r) = Reply r"
  by (induction ws) auto

lemma answers_within_ends:
  "answers_within p n \<Longrightarrow> n \<le> length ws \<Longrightarrow> \<exists>r. run_prog ws p = Reply r"
proof (induction ws arbitrary: p n)
  case Nil
  then show ?case by (cases p) auto
next
  case (Cons e ws)
  obtain answers w d where e: "e = (answers, w, d)" by (cases e)
  show ?case
  proof (cases p)
    case (Query f)
    then have "answers_within (fst (f w d)) (n - 1)" "n - 1 \<le> length ws" using Cons.prems by auto
    from Cons.IH [OF this] show ?thesis by (simp add: e Query)
  next
    case (Call c k)
    then have "answers_within (k answers) (n - 1)" "n - 1 \<le> length ws" using Cons.prems by auto
    from Cons.IH [OF this] show ?thesis by (simp add: e Call)
  qed simp
qed

section \<open>A handler works through the ledger\<close>

text \<open>\<open>own\<close> is the settlement id that the request has recorded and not yet settled.\<close>

primrec keeps_ledger :: "('c, 'x, 'r) prog \<Rightarrow> string option \<Rightarrow> bool" where
  "keeps_ledger (Reply r) = (\<lambda>own. True)"
| "keeps_ledger (Query f) = (\<lambda>own. \<forall>w d. sys_ok d \<longrightarrow> set_option own \<inter> settled_ids d = {} \<longrightarrow>
     (let out = map_prod keeps_ledger id (f w d) in
      (snd out = d \<or> ledger_step d (snd out)) \<and> (\<exists>own'. ids_step own d own' (snd out) \<and> fst out own')))"
| "keeps_ledger (Call c k) = (\<lambda>own. \<forall>x. keeps_ledger (k x) own)"

text \<open>What a transaction does that keeps the settlement ids, and what the two that do not keep them do.\<close>

definition quiet_tx :: "(db, 'a) tx \<Rightarrow> bool" where
  "quiet_tx m = (\<forall>d. let d' = snd (withTransaction m d) in
     (d' = d \<or> ledger_step d d') \<and> settled_ids d' = settled_ids d)"

lemma keeps_quiet:
  assumes "\<And>e uid. quiet_tx (m e uid)" and "\<And>r. keeps_ledger (k r) own"
  shows "keeps_ledger (await m k) own"
proof -
  have "(d' = d \<or> ledger_step d d') \<and> ids_step own d own d'"
    if "run_query w (m (qw_env w) (qw_uuid w)) d = (r, d')" for w d r d'
  proof -
    let ?e = "snd (withTransaction (m (qw_env w) (qw_uuid w)) d)"
    have q: "?e = d \<or> ledger_step d ?e" "settled_ids ?e = settled_ids d"
      using assms(1) by (simp_all add: quiet_tx_def Let_def)
    have "d' = d \<or> d' = ?e" using that by (auto simp: run_query_def split: if_splits)
    with q have "(d' = d \<or> ledger_step d d') \<and> settled_ids d' = settled_ids d" by auto
    with ledger_step_recorded show ?thesis by (auto simp: ids_step_def)
  qed
  then show ?thesis
    using assms(2) by (auto simp: await_def Let_def split: prod.split) (metis surj_pair fst_conv snd_conv)+
qed

lemma quiet_read [simp]: "quiet_tx (getT f)"
  by (simp add: quiet_tx_def Let_def withTransaction_def)

lemma keeps_read: "(\<And>r. keeps_ledger (k r) own) \<Longrightarrow> keeps_ledger (await_read f k) own"
  unfolding await_read_def by (rule keeps_quiet) simp_all

lemma quiet_operation:
  assumes "tx_within settled_kept m" and "\<And>d. ledger_step d (snd (withTransaction m d))"
  shows "quiet_tx m"
  using settled_frame.within_withTransaction [OF assms(1)] assms(2)
  by (simp add: quiet_tx_def Let_def settled_kept_def)

lemma quiet_operations:
  "quiet_tx (upsertKizunaAccount e acc)" "quiet_tx (insertKizunaUnderwriteDecision e uid dec)"
  "quiet_tx (createKizunaReservation e uid p)" "st = Released \<or> st = Expired \<Longrightarrow> quiet_tx (releaseKizunaReservation e rid st)"
  "quiet_tx (applyKizunaRepayment e q)" "quiet_tx (applyKizunaFundingEvent e g)" "quiet_tx (applyKizunaCollateralEvent e c)"
  by (rule quiet_operation, rule ledger_operations_settled, rule ledger_step.intros, assumption?)+

text \<open>A settlement row is inserted, and the request owns its id; settling under it gives the id up.\<close>

lemma keeps_insertSettlement:
  assumes "\<And>row. keeps_ledger (k (Inr row)) (Some (st_id row))" and "\<And>err. keeps_ledger (k (Inl err)) None"
  shows "keeps_ledger (await (\<lambda>e uid. insertSettlement e uid mw pw amt fee asset h st net) k) None"
proof -
  have "(d' = d \<or> ledger_step d d') \<and> (\<exists>own'. ids_step None d own' d' \<and> keeps_ledger (k r) own')"
    if q: "run_query w (insertSettlement (qw_env w) (qw_uuid w) mw pw amt fee asset h st net) d = (r, d')" for w d r d'
  proof (cases r)
    case (Inl err)
    with q have "d' = d" using run_query_failure by blast
    with assms(2) Inl show ?thesis by (auto simp: ids_step_def)
  next
    case (Inr row)
    let ?m = "insertSettlement (qw_env w) (qw_uuid w) mw pw amt fee asset h st net"
    have run: "?m d = Inr (row, d')" using q Inr by (simp add: run_query_success)
    then have step: "ledger_step d d'" using step_settlement by (metis snd_conv withTransaction_commit)
    have "ids_step None d (Some (st_id row)) d'"
      using insertSettlement_frame [OF run] by (auto simp: ids_step_def settled_ids_def recorded_ids_def)
    with step assms(1) Inr show ?thesis by auto
  qed
  then show ?thesis by (auto simp: await_def Let_def split: prod.split) (metis surj_pair fst_conv snd_conv)+
qed

lemma keeps_finalize:
  assumes "fz_settlementId p = sid" and "\<And>r. keeps_ledger (k r) None"
  shows "keeps_ledger (await (\<lambda>e _. finalizeKizunaSettlement e p) k) (Some sid)"
proof -
  have "(d' = d \<or> ledger_step d d') \<and> ids_step (Some sid) d None d'"
    if "sys_ok d" "sid \<notin> settled_ids d" and q: "run_query w (finalizeKizunaSettlement (qw_env w) p) d = (r, d')" for w d r d'
  proof (cases r)
    case (Inl err)
    with q have "d' = d" using run_query_failure by blast
    then show ?thesis by (simp add: ids_step_def)
  next
    case (Inr res)
    have run: "finalizeKizunaSettlement (qw_env w) p d = Inr (res, d')" using q Inr by (simp add: run_query_success)
    have "fz_settlementId p \<notin> d_settlement_id ` set (t_debts d)" using that(2) assms(1) by (simp add: settled_ids_def)
    from step_finalize [OF this, of "qw_env w"] run have step: "ledger_step d d'" by simp
    have "settled_ids d' \<subseteq> insert (fz_settlementId p) (settled_ids d)"
      by (rule finalize_ids [OF that(1) _ run]) (use that(2) assms(1) in simp)
    with step ledger_step_recorded assms(1) show ?thesis by (auto simp: ids_step_def)
  qed
  then show ?thesis
    using assms(2) by (auto simp: await_def Let_def split: prod.split) (metis surj_pair fst_conv snd_conv)+
qed

end
