(* ===== verification/Kizuna_Routes.thy ===== *)
theory Kizuna_Routes
  imports Route_Programs Credit_Verify
begin

text \<open>
  The routes of \<open>routes/kizuna.ts\<close>: configuration, the services they call, request fields, and the internal job routes that
  reserve, release and settle credit for jobs.
\<close>

section \<open>Configuration and services\<close>

record kizuna_config = verify_config +
  kc_KIZUNA_INTERNAL_TOKEN :: string
  kc_KIZUNA_FASTPATH_ASSET_HAIRCUT_BPS :: int
  kc_KIZUNA_FASTPATH_MIN_HEALTH_FACTOR :: rat

text \<open>Of the identity that the registry package resolves, the fields that the routes depend on.\<close>

record resolved_identity =
  ri_globalId :: string
  ri_ownerWallet :: string
  ri_operationalWallet :: "string option"
  ri_active :: bool
  ri_syncSource :: string

record mandate_caps =
  mc_singleMicro :: "int option"
  mc_dailyMicro :: "int option"
  mc_monthlyMicro :: "int option"
  mc_humanApprovalMicro :: "int option"

datatype kizuna_call =
    ResolveIdentity string
  | BuildIdentity string
  | SyncMandate string "string option" "string list"
  | MandateLimits string
  | DebitCredits string string string
  | CreditsBalance string
  | IngestRepayment string lane string string string string
  | IngestCollateral string lane string string string string flow string

text \<open>
  What these services answer.  \<open>kz_registryFails\<close> is the message with which the registry package fails, if it does; \<open>kz_columns\<close> are the
  registry columns of an account's row; \<open>kz_cap\<close> and \<open>kz_passport\<close> are what PostgreSQL makes of a cap and of a passport that the
  control plane names.
\<close>

record kizuna_services =
  kz_resolve :: "string \<Rightarrow> string + resolved_identity option"
  kz_registryFails :: "string option"
  kz_columns :: "string \<Rightarrow> registry_columns"
  kz_sync :: kernel_answer
  kz_limits :: kernel_answer
  kz_cap :: "json option \<Rightarrow> error + int option"
  kz_passport :: "json option \<Rightarrow> string option"
  kz_debit :: kernel_answer
  kz_balance :: kernel_answer
  kz_ingest :: kernel_answer

section \<open>Answers\<close>

record account_view =
  ac_account :: kizuna_account
  ac_identity :: "kizuna_identity option"
  ac_outstandingMicro :: "string option"
  ac_creditsBalanceMicro :: "string option"
  ac_enterpriseBalance :: "enterprise_balance option"

record repay_view =
  rw_idempotent :: bool
  rw_debitedMicro :: string
  rw_appliedMicro :: string
  rw_outstandingMicro :: string
  rw_balanceMicro :: string
  rw_referenceId :: string
  rw_lane :: lane
  rw_poolId :: string
  rw_kernelIngestError :: "string option"

datatype kizuna_response =
    KizunaError nat string
  | JobReserved string string lane string string funding_mode reservation_status
  | JobRejected string "string list"
  | JobReleased string reservation_status
  | JobSettled string "string option" "string option"
  | Onboarded account_view string
  | AccountShown account_view
  | IdentitySynced account_view
  | NothingToRepay string
  | Repaid repay_view
  | Intent string lane string string
  | Funded lane string funding_result
  | FundingShown string enterprise_balance "funding_event list"
  | Secured lane string collateral_result bool "string option"
  | PoolShown pool_view

type_synonym kizuna_prog = "(kizuna_call, kizuna_services, kizuna_response) prog"

definition sendError :: "nat \<Rightarrow> string \<Rightarrow> kizuna_prog" where
  "sendError status msg = Reply (KizunaError status msg)"

text \<open>The error handler of the application, for what a handler does not catch.\<close>

definition errorHandler :: "string \<Rightarrow> kizuna_prog" where
  "errorHandler msg =
     (if js_includes msg ''Invalid'' \<or> js_includes msg ''Missing'' then sendError 400 msg
      else if js_includes msg ''not found'' \<or> js_includes msg ''Not found'' then sendError 404 msg
      else sendError 500 ''Internal server error'')"

definition uncaught :: "error \<Rightarrow> kizuna_prog" where
  "uncaught err = errorHandler (error_text err)"

definition failing :: "nat \<Rightarrow> error \<Rightarrow> kizuna_prog" where
  "failing status err = sendError status (error_text err)"

section \<open>Request fields\<close>

text \<open>\<open>asString(req.body?.key)\<close>, which is empty for anything but a text.\<close>

definition field_text :: "json option \<Rightarrow> string" where
  "field_text v = or_text (asString v) []"

definition parseLane :: "json option \<Rightarrow> lane option" where
  "parseLane v =
     (let t = field_text v in
      if t = [] \<or> t = ''enterprise'' then Some Enterprise
      else if t = ''crypto-fast'' then Some CryptoFast
      else None)"

definition resolvePoolId :: "credit_config \<Rightarrow> lane \<Rightarrow> json option \<Rightarrow> string" where
  "resolvePoolId cc l requested =
     (let override = field_text requested in
      if override \<noteq> [] then override
      else if l = CryptoFast then cc_KIZUNA_FASTPATH_POOL_ID cc else cc_KIZUNA_ENTERPRISE_POOL_ID cc)"

text \<open>
  \<open>Number.parseFloat\<close>: the number that the longest decimal literal at the front of the text denotes.
\<close>

definition digits_front :: "string \<Rightarrow> string" where
  "digits_front s = takeWhile is_digit s"

definition sign_front :: "string \<Rightarrow> string" where
  "sign_front s = (case s of c # _ \<Rightarrow> if c = CHR ''-'' \<or> c = CHR ''+'' then [c] else [] | [] \<Rightarrow> [])"

definition mantissa_front :: "string \<Rightarrow> string" where
  "mantissa_front s =
     (let whole = digits_front s; rest = drop (length whole) s in
      case rest of
        CHR ''.'' # cs \<Rightarrow>
          (let fraction = digits_front cs in
           if whole = [] \<and> fraction = [] then [] else whole @ CHR ''.'' # fraction)
      | _ \<Rightarrow> whole)"

definition exponent_front :: "string \<Rightarrow> string" where
  "exponent_front s =
     (case s of
        c # cs \<Rightarrow>
          (let sg = sign_front cs; ds = digits_front (drop (length sg) cs) in
           if is_exponent_mark c \<and> ds \<noteq> [] then c # sg @ ds else [])
      | [] \<Rightarrow> [])"

definition parseFloat :: "string \<Rightarrow> js_num" where
  "parseFloat s =
     (let t = js_trim s; sg = sign_front t; u = drop (length sg) t; m = mantissa_front u in
      if take 8 u = ''Infinity'' then Infinite (sg = ''-'')
      else if m = [] then NaN
      else js_Number (sg @ m @ exponent_front (drop (length m) u)))"

definition parsePositiveNumber :: "json option \<Rightarrow> rat option" where
  "parsePositiveNumber v =
     (case v of
        Some (JNum n) \<Rightarrow> if 0 < n then Some n else None
      | Some (JStr t) \<Rightarrow> (case parseFloat (js_trim t) of Finite x \<Rightarrow> if 0 < x then Some x else None | _ \<Rightarrow> None)
      | _ \<Rightarrow> None)"

text \<open>The first checks of every route, and of the internal ones.\<close>

definition when_enabled :: "kizuna_config \<Rightarrow> kizuna_prog \<Rightarrow> kizuna_prog" where
  "when_enabled kc p = (if cc_KIZUNA_ENABLED kc then p else sendError 404 ''Kizuna is disabled'')"

definition requireInternalToken :: "kizuna_config \<Rightarrow> string option \<Rightarrow> kizuna_prog \<Rightarrow> kizuna_prog" where
  "requireInternalToken kc authorization p =
     (let configured = js_trim (kc_KIZUNA_INTERNAL_TOKEN kc) in
      if configured = [] then sendError 503 ''Kizuna internal auth is not configured''
      else if field_text (map_option JStr authorization) \<noteq> ''Bearer '' @ configured then sendError 401 ''Unauthorized''
      else p)"

section \<open>Reserving credit for a job\<close>

record job_request =
  jb_agentId :: string
  jb_payerWallet :: string
  jb_requestNonce :: string
  jb_lane :: lane
  jb_amountMicro :: int
  jb_poolId :: string
  jb_network :: string

definition job_fields :: "kizuna_config \<Rightarrow> json_object option \<Rightarrow> job_request option" where
  "job_fields kc body =
     (let text = (\<lambda>key. field_text (jget_opt body key)) in
      case (parseLane (jget_opt body ''lane''), parsePositiveMicro (jget_opt body ''amountMicro'')) of
        (Some l, Some amountMicro) \<Rightarrow>
          if text ''agentId'' = [] \<or> text ''payerWallet'' = [] \<or> text ''requestNonce'' = [] then None
          else Some \<lparr>jb_agentId = text ''agentId'', jb_payerWallet = text ''payerWallet'', jb_requestNonce = text ''requestNonce'',
                     jb_lane = l, jb_amountMicro = amountMicro,
                     jb_poolId = resolvePoolId (credit_config.truncate kc) l (jget_opt body ''poolId''),
                     jb_network = or_text (asString (jget_opt body ''network'')) ''solana''\<rparr>
      | _ \<Rightarrow> None)"

definition job_replay :: "kizuna_reservation \<times> kizuna_decision \<Rightarrow> kizuna_response" where
  "job_replay found =
     (let (r, dec) = found in
      JobReserved (r_id r) (dc_id dec) (r_lane r) (r_pool_id r) (numeric_text (r_amount_micro r)) (r_funding_mode r) (r_status r))"

text \<open>
  What is offered: the request, cut to the limits and, where prefunding is required, to what is
  available.
\<close>

record job_offer =
  jo_availableMicro :: int
  jo_reasonCodes :: "string list"
  jo_fundingMode :: funding_mode
  jo_lockedMicro :: string

definition capped_offer :: "kizuna_config \<Rightarrow> job_request \<Rightarrow> kizuna_account \<Rightarrow> job_offer" where
  "capped_offer kc q account =
     (let amount = jb_amountMicro q;
          maxSingle = vc_KIZUNA_MAX_SINGLE_MICRO kc;
          mandate = (case parseNonNegativeMicro (map_option (JStr \<circ> numeric_text) (a_mandate_single_limit_micro account)) of
                       Some m \<Rightarrow> m | None \<Rightarrow> maxSingle) in
      \<lparr>jo_availableMicro = min (min amount maxSingle) mandate,
       jo_reasonCodes =
         (if maxSingle < amount then [''kizuna_max_single_limit_exceeded''] else []) @
         (if mandate < amount then [''kizuna_mandate_single_limit_exceeded''] else []),
       jo_fundingMode = (if jb_lane q = CryptoFast then Collateralized else FundNone), jo_lockedMicro = ''0''\<rparr>)"

definition prefund_offer :: "enterprise_balance option \<Rightarrow> job_offer \<Rightarrow> job_offer" where
  "prefund_offer balance offer =
     (let prefund = (case parseNonNegativeMicro (map_option (JStr \<circ> numeric_text \<circ> eb_available_micro) balance) of
                       Some n \<Rightarrow> n | None \<Rightarrow> 0);
          (available, reasons) =
            (if prefund \<le> 0 then (0, jo_reasonCodes offer @ [''kizuna_prefund_insufficient''])
             else if prefund < jo_availableMicro offer
             then (prefund, jo_reasonCodes offer @ [''kizuna_prefund_partial''])
             else (jo_availableMicro offer, jo_reasonCodes offer)) in
      offer\<lparr>jo_availableMicro := available, jo_reasonCodes := reasons,
            jo_fundingMode := (if 0 < available then Prefunded else jo_fundingMode offer),
            jo_lockedMicro := (if 0 < available then numeric_text available else jo_lockedMicro offer)\<rparr>)"

definition job_approved :: "job_offer \<Rightarrow> int" where
  "job_approved offer = max 0 (jo_availableMicro offer)"

definition job_decision :: "job_request \<Rightarrow> kizuna_account \<Rightarrow> int \<Rightarrow> job_offer \<Rightarrow> kizuna_decision" where
  "job_decision q account outstanding offer =
     (let approved = job_approved offer in
      \<lparr>dc_id = [], dc_agent_id = jb_agentId q, dc_payer_wallet = jb_payerWallet q, dc_repay_wallet = a_repay_wallet account,
       dc_request_nonce = jb_requestNonce q, dc_network = jb_network q, dc_lane = jb_lane q, dc_pool_id = jb_poolId q,
       dc_requested_micro = jb_amountMicro q, dc_approved = (0 < approved), dc_approved_micro = approved,
       dc_available_micro = jo_availableMicro offer, dc_outstanding_micro = outstanding,
       dc_score_raw = (if 0 < approved then 700 else 250), dc_reason_codes = jo_reasonCodes offer, dc_tier = ''internal_job'',
       dc_policy_pack_id = Some ''keiro-jobs-v1'', dc_policy_pack_version = None,
       dc_risk_band = Some (if 0 < approved then ''low'' else ''high''), dc_risk_action = None, dc_ltv_bps = None,
       dc_health_factor = None, dc_request_hash = None, dc_signing_kid = None, dc_envelope_version = None,
       dc_decision_envelope_hash = None, dc_created_at = 0\<rparr>)"

definition job_reservation :: "kizuna_config \<Rightarrow> job_request \<Rightarrow> job_offer \<Rightarrow> string \<Rightarrow> reservation_params" where
  "job_reservation kc q offer decisionId =
     \<lparr>rv_decisionId = decisionId, rv_agentId = jb_agentId q, rv_payerWallet = jb_payerWallet q,
      rv_requestNonce = jb_requestNonce q, rv_network = jb_network q, rv_lane = jb_lane q, rv_poolId = jb_poolId q,
      rv_amountMicro = job_approved offer, rv_ttlMs = vc_KIZUNA_RESERVATION_TTL_MS kc,
      rv_fundingMode = Some (jo_fundingMode offer), rv_lockedMicro = Some (jo_lockedMicro offer)\<rparr>"

text \<open>The handler, from its last query to its first.\<close>

definition job_reserve :: "kizuna_config \<Rightarrow> job_request \<Rightarrow> job_offer \<Rightarrow> kizuna_decision \<Rightarrow> kizuna_prog" where
  "job_reserve kc q offer dec =
     (if job_approved offer \<le> 0 then Reply (JobRejected (dc_id dec) (jo_reasonCodes offer))
      else await (\<lambda>e uid. createKizunaReservation e uid (job_reservation kc q offer (dc_id dec))) (catching (failing 500) (\<lambda>r.
        Reply (JobReserved (r_id r) (dc_id dec) (r_lane r) (r_pool_id r) (numeric_text (r_amount_micro r))
                 (r_funding_mode r) (r_status r)))))"

definition job_decide :: "kizuna_config \<Rightarrow> job_request \<Rightarrow> kizuna_account \<Rightarrow> int \<Rightarrow> job_offer \<Rightarrow> kizuna_prog" where
  "job_decide kc q account outstanding offer =
     await (\<lambda>e uid. insertKizunaUnderwriteDecision e uid (job_decision q account outstanding offer))
       (catching (failing 500) (job_reserve kc q offer))"

definition job_limits :: "kizuna_config \<Rightarrow> job_request \<Rightarrow> kizuna_account \<Rightarrow> kizuna_prog" where
  "job_limits kc q account =
     await_read (getKizunaOutstandingMicro (jb_agentId q) (Some (jb_lane q)) (Some (jb_poolId q))) (catching (failing 500) (\<lambda>outstanding.
       let offer = capped_offer kc q account in
       if jb_lane q = Enterprise \<and> vc_KIZUNA_ENTERPRISE_REQUIRE_PREFUND kc
       then await_read (getKizunaEnterpriseBalance (jb_agentId q) (jb_poolId q)) (catching (failing 500) (\<lambda>balance.
              job_decide kc q account outstanding (prefund_offer balance offer)))
       else job_decide kc q account outstanding offer))"

definition post_job_reservation :: "kizuna_config \<Rightarrow> string option \<Rightarrow> json option \<Rightarrow> kizuna_prog" where
  "post_job_reservation kc authorization body =
     when_enabled kc (requireInternalToken kc authorization
       (case job_fields kc (asRecord body) of
          None \<Rightarrow> sendError 400 ''agentId, payerWallet, requestNonce, lane, and amountMicro are required''
        | Some q \<Rightarrow>
            await_read (getKizunaReservationByNonce (jb_payerWallet q) (jb_requestNonce q)) (catching (failing 500) (\<lambda>replay.
            case replay of
              Some found \<Rightarrow> Reply (job_replay found)
            | None \<Rightarrow> await_read (getKizunaAccount (jb_agentId q)) (catching (failing 500) (\<lambda>account.
                case account of
                  None \<Rightarrow> sendError 404 ''Kizuna account not found''
                | Some acc \<Rightarrow>
                    if a_status acc \<noteq> AccountActive then sendError 409 ''Kizuna account is not active''
                    else if a_payer_wallet acc \<noteq> jb_payerWallet q
                    then sendError 400 ''payerWallet does not match the Kizuna account''
                    else job_limits kc q acc))))))"

section \<open>Releasing it\<close>

definition post_job_release :: "kizuna_config \<Rightarrow> string option \<Rightarrow> json option \<Rightarrow> kizuna_prog" where
  "post_job_release kc authorization body =
     when_enabled kc (requireInternalToken kc authorization
       (let ob = asRecord body; reservationId = field_text (jget_opt ob ''reservationId'');
            reason = (if field_text (jget_opt ob ''reason'') = ''expired'' then Expired else Released) in
        if reservationId = [] then sendError 400 ''reservationId is required''
        else await (\<lambda>e _. releaseKizunaReservation e reservationId reason) (catching (failing 500) (\<lambda>_.
               Reply (JobReleased reservationId reason)))))"

section \<open>Settling it\<close>

record job_settlement =
  js_reservationId :: string
  js_merchantWallet :: string
  js_paymentToken :: string
  js_auditRef :: string
  js_amount :: rat
  js_feeAmount :: rat

definition settlement_fields :: "json_object option \<Rightarrow> job_settlement option" where
  "settlement_fields body =
     (let text = (\<lambda>key. field_text (jget_opt body key)) in
      case parsePositiveNumber (jget_opt body ''amount'') of
        None \<Rightarrow> None
      | Some amount \<Rightarrow>
          if text ''reservationId'' = [] \<or> text ''merchantWallet'' = [] \<or> text ''auditRef'' = [] then None
          else Some \<lparr>js_reservationId = text ''reservationId'', js_merchantWallet = text ''merchantWallet'',
                     js_paymentToken = or_text (asString (jget_opt body ''paymentToken'')) ''USDC'',
                     js_auditRef = text ''auditRef'', js_amount = amount,
                     js_feeAmount = (case parsePositiveNumber (jget_opt body ''feeAmount'') of Some f \<Rightarrow> f | None \<Rightarrow> 0)\<rparr>)"

definition job_finalize_params :: "job_settlement \<Rightarrow> kizuna_reservation \<Rightarrow> string \<Rightarrow> finalize_params" where
  "job_finalize_params q r settlementId =
     \<lparr>fz_reservationId = js_reservationId q, fz_settlementId = settlementId, fz_txHash = js_auditRef q,
      fz_feeAmount = js_feeAmount q, fz_feeTxHash = Some (js_auditRef q), fz_lane = Some (r_lane r),
      fz_poolId = Some (r_pool_id r), fz_decisionEnvelopeHash = None\<rparr>"

definition job_settled :: "job_settlement \<Rightarrow> string \<Rightarrow> string option \<Rightarrow> kizuna_prog" where
  "job_settled q settlementId debtId =
     await_read (getKizunaBillableSettlementEvent (js_reservationId q) settlementId) (catching (failing 500) (\<lambda>billable.
       Reply (JobSettled settlementId debtId (map_option be_id billable))))"

definition job_settle :: "job_settlement \<Rightarrow> kizuna_reservation \<Rightarrow> kizuna_prog" where
  "job_settle q r =
     await (\<lambda>e uid. insertSettlement e uid (js_merchantWallet q) (r_payer_wallet r) (js_amount q) (js_feeAmount q)
                      (js_paymentToken q) (js_auditRef q) SettlementConfirmedS (r_network r)) (catching (failing 500) (\<lambda>settlement.
     await (\<lambda>e _. finalizeKizunaSettlement e (job_finalize_params q r (st_id settlement))) (catching (failing 500) (\<lambda>res.
     job_settled q (st_id settlement) (map_option d_id (fr_debt res))))))"

definition job_unsettled :: "job_settlement \<Rightarrow> kizuna_prog" where
  "job_unsettled q =
     await_read (getKizunaReservationById (js_reservationId q)) (catching (failing 500) (\<lambda>found.
       case found of
         None \<Rightarrow> sendError 404 ''Reservation not found''
       | Some r \<Rightarrow>
           if r_status r \<noteq> Reserved then sendError 409 (''Reservation is '' @ reservation_status_text (r_status r))
           else job_settle q r))"

definition post_job_settle :: "kizuna_config \<Rightarrow> string option \<Rightarrow> json option \<Rightarrow> kizuna_prog" where
  "post_job_settle kc authorization body =
     when_enabled kc (requireInternalToken kc authorization
       (case settlement_fields (asRecord body) of
          None \<Rightarrow> sendError 400 ''reservationId, merchantWallet, amount, and auditRef are required''
        | Some q \<Rightarrow>
            await_read (getKizunaDebtByReservationId (js_reservationId q)) (catching (failing 500) (\<lambda>debt.
            case debt of
              Some dbt \<Rightarrow>
                if d_settlement_id dbt \<noteq> [] then job_settled q (d_settlement_id dbt) (Some (d_id dbt)) else job_unsettled q
            | None \<Rightarrow> job_unsettled q))))"



end
