(* ===== verification/Prepaid_Credits.thy ===== *)
theory Prepaid_Credits
  imports Js_Number Js_Text Prelude
begin

text \<open>
  Prepaid credits (\<open>services/api/src/db.ts\<close>): accounts, deposits, usage and the debits that other services
  ask for.  The database is SQLite behind a synchronous driver, so every function runs alone; what
  \<open>db.transaction\<close> wraps is a transaction of the prelude.
\<close>

section \<open>Rows\<close>

record credit_account =
  cx_balance_micro :: int
  cx_total_deposited_micro :: int
  cx_total_spent_micro :: int
  cx_last_deposit_at :: "int option"
  cx_created_at :: int
  cx_updated_at :: int

record credit_deposit =
  dx_wallet :: string
  dx_tx_signature :: string
  dx_kamiyo_amount :: string
  dx_credit_amount_micro :: int
  dx_rate_used :: string
  dx_created_at :: int

record credit_usage =
  ux_wallet :: string
  ux_endpoint :: string
  ux_amount_micro :: int
  ux_description :: "string option"
  ux_created_at :: int

record internal_debit =
  ix_reference_id :: string
  ix_wallet :: string
  ix_endpoint :: string
  ix_amount_micro :: int
  ix_description :: "string option"
  ix_debited_micro :: int
  ix_balance_after_micro :: int
  ix_created_at :: int

record credits_db =
  x_accounts :: "string \<Rightarrow> credit_account option"
  x_deposits :: "credit_deposit list"
  x_usage :: "credit_usage list"
  x_debits :: "internal_debit list"

definition no_credits :: credits_db where
  "no_credits = \<lparr>x_accounts = Map.empty, x_deposits = [], x_usage = [], x_debits = []\<rparr>"

definition put_account :: "string \<Rightarrow> credit_account \<Rightarrow> credits_db \<Rightarrow> credits_db" where
  "put_account wallet a s = s\<lparr>x_accounts := (x_accounts s)(wallet \<mapsto> a)\<rparr>"

interpretation accounts: keyed_store x_accounts put_account
  by unfold_locales (simp_all add: put_account_def)

section \<open>Units\<close>

text \<open>\<open>rate\<close> is \<open>KAMIYO_TO_CREDIT_RATE\<close>; the products are those of doubles.\<close>

definition kamiyoToCredits :: "rat \<Rightarrow> rat \<Rightarrow> int" where
  "kamiyoToCredits rate kamiyoAmount = \<lfloor>fl (fl (kamiyoAmount * rate) * 1000000)\<rfloor>"

definition creditsToUsd :: "int \<Rightarrow> rat" where
  "creditsToUsd creditsMicro = fl (of_int creditsMicro / 1000000)"

definition usdToCredits :: "rat \<Rightarrow> int" where
  "usdToCredits usd = \<lfloor>fl (usd * 1000000)\<rfloor>"

section \<open>Reads\<close>

definition getCreditAccount :: "string \<Rightarrow> credits_db \<Rightarrow> credit_account option" where
  "getCreditAccount wallet s = x_accounts s wallet"

definition getCreditBalance :: "string \<Rightarrow> credits_db \<Rightarrow> int" where
  "getCreditBalance wallet s = (case getCreditAccount wallet s of None \<Rightarrow> 0 | Some a \<Rightarrow> cx_balance_micro a)"

definition isDepositProcessed :: "string \<Rightarrow> credits_db \<Rightarrow> bool" where
  "isDepositProcessed txSignature s = (txSignature \<in> dx_tx_signature ` set (x_deposits s))"

definition getCreditInternalDebit :: "string \<Rightarrow> credits_db \<Rightarrow> internal_debit option" where
  "getCreditInternalDebit referenceId s = find (\<lambda>b. ix_reference_id b = referenceId) (x_debits s)"

text \<open>\<open>ORDER BY created_at DESC LIMIT ?\<close>; SQLite takes a negative limit as none.\<close>

definition newest :: "('r \<Rightarrow> int) \<Rightarrow> int \<Rightarrow> 'r list \<Rightarrow> 'r list" where
  "newest time limit rows = (let xs = sort_key (\<lambda>r. - time r) rows in if limit < 0 then xs else take (nat limit) xs)"

definition getCreditDeposits :: "string \<Rightarrow> int \<Rightarrow> credits_db \<Rightarrow> credit_deposit list" where
  "getCreditDeposits wallet limit s = newest dx_created_at limit (filter (\<lambda>d. dx_wallet d = wallet) (x_deposits s))"

definition getCreditUsage :: "string \<Rightarrow> int \<Rightarrow> credits_db \<Rightarrow> credit_usage list" where
  "getCreditUsage wallet limit s = newest ux_created_at limit (filter (\<lambda>u. ux_wallet u = wallet) (x_usage s))"

section \<open>Writes\<close>

text \<open>\<open>value || null\<close> of an optional text.\<close>

definition or_null :: "string option \<Rightarrow> string option" where
  "or_null v = (if v = Some [] then None else v)"

definition empty_account :: "int \<Rightarrow> credit_account" where
  "empty_account now =
     \<lparr>cx_balance_micro = 0, cx_total_deposited_micro = 0, cx_total_spent_micro = 0, cx_last_deposit_at = None,
      cx_created_at = now, cx_updated_at = now\<rparr>"

definition getOrCreateCreditAccount :: "int \<Rightarrow> string \<Rightarrow> (credits_db, credit_account) tx" where
  "getOrCreateCreditAccount now wallet = (\<lambda>s.
     case getCreditAccount wallet s of
       Some a \<Rightarrow> Inr (a, s)
     | None \<Rightarrow> Inr (empty_account now, put_account wallet (empty_account now) s))"

definition deposit_account :: "int \<Rightarrow> int \<Rightarrow> credit_account option \<Rightarrow> credit_account" where
  "deposit_account now micro found =
     (case found of
        Some a \<Rightarrow> a\<lparr>cx_balance_micro := cx_balance_micro a + micro,
                    cx_total_deposited_micro := cx_total_deposited_micro a + micro,
                    cx_last_deposit_at := Some now, cx_updated_at := now\<rparr>
      | None \<Rightarrow> (empty_account now)\<lparr>cx_balance_micro := micro, cx_total_deposited_micro := micro,
                                    cx_last_deposit_at := Some now\<rparr>)"

definition depositCredits :: "rat \<Rightarrow> int \<Rightarrow> string \<Rightarrow> string \<Rightarrow> string \<Rightarrow> int \<Rightarrow> (credits_db, bool) tx" where
  "depositCredits rate now wallet txSignature kamiyoAmount creditAmountMicro = (\<lambda>s.
     if isDepositProcessed txSignature s then Inr (False, s)
     else
       thenT (modifyT (\<lambda>s. s\<lparr>x_deposits := x_deposits s @
                [\<lparr>dx_wallet = wallet, dx_tx_signature = txSignature, dx_kamiyo_amount = kamiyoAmount,
                  dx_credit_amount_micro = creditAmountMicro, dx_rate_used = js_number_text rate,
                  dx_created_at = now\<rparr>]\<rparr>))
      (thenT (modifyT (\<lambda>s. put_account wallet (deposit_account now creditAmountMicro (getCreditAccount wallet s)) s))
      (returnT True)) s)"

definition spend :: "int \<Rightarrow> int \<Rightarrow> credit_account \<Rightarrow> credit_account" where
  "spend now amount a =
     a\<lparr>cx_balance_micro := cx_balance_micro a - amount, cx_total_spent_micro := cx_total_spent_micro a + amount,
       cx_updated_at := now\<rparr>"

definition insert_usage :: "int \<Rightarrow> string \<Rightarrow> string \<Rightarrow> int \<Rightarrow> string option \<Rightarrow> (credits_db, unit) tx" where
  "insert_usage now wallet endpoint amount description =
     modifyT (\<lambda>s. s\<lparr>x_usage := x_usage s @
       [\<lparr>ux_wallet = wallet, ux_endpoint = endpoint, ux_amount_micro = amount, ux_description = or_null description,
         ux_created_at = now\<rparr>]\<rparr>)"

definition deductCredits :: "int \<Rightarrow> string \<Rightarrow> int \<Rightarrow> string \<Rightarrow> string option \<Rightarrow> (credits_db, bool) tx" where
  "deductCredits now wallet amountMicro endpoint description = (\<lambda>s.
     case getCreditAccount wallet s of
       None \<Rightarrow> Inr (False, s)
     | Some a \<Rightarrow>
         if cx_balance_micro a < amountMicro then Inr (False, s)
         else thenT (modifyT (put_account wallet (spend now amountMicro a)))
             (thenT (insert_usage now wallet endpoint amountMicro description)
             (returnT True)) s)"

record debit_params =
  bp_wallet :: string
  bp_amountMicro :: int
  bp_endpoint :: string
  bp_referenceId :: string
  bp_description :: "string option"

record debit_result =
  br_debitedMicro :: int
  br_balanceMicro :: int
  br_idempotent :: bool

definition debit_matches :: "debit_params \<Rightarrow> internal_debit \<Rightarrow> bool" where
  "debit_matches p b =
     (ix_wallet b = bp_wallet p \<and> ix_amount_micro b = bp_amountMicro p \<and> ix_endpoint b = bp_endpoint p)"

definition debit_row :: "int \<Rightarrow> debit_params \<Rightarrow> int \<Rightarrow> internal_debit" where
  "debit_row now p balanceAfterMicro =
     \<lparr>ix_reference_id = bp_referenceId p, ix_wallet = bp_wallet p, ix_endpoint = bp_endpoint p,
      ix_amount_micro = bp_amountMicro p, ix_description = or_null (bp_description p),
      ix_debited_micro = bp_amountMicro p, ix_balance_after_micro = balanceAfterMicro, ix_created_at = now\<rparr>"

definition debitCreditsInternal :: "int \<Rightarrow> debit_params \<Rightarrow> (credits_db, debit_result option) tx" where
  "debitCreditsInternal now p = (\<lambda>s.
     case getCreditInternalDebit (bp_referenceId p) s of
       Some existing \<Rightarrow>
         if \<not> debit_matches p existing then Inl (Thrown ''credit_internal_reference_conflict'')
         else Inr (Some \<lparr>br_debitedMicro = ix_debited_micro existing,
                         br_balanceMicro = ix_balance_after_micro existing, br_idempotent = True\<rparr>, s)
     | None \<Rightarrow>
         (case getCreditAccount (bp_wallet p) s of
            None \<Rightarrow> Inr (None, s)
          | Some a \<Rightarrow>
              if cx_balance_micro a < bp_amountMicro p then Inr (None, s)
              else (let balanceAfterMicro = cx_balance_micro a - bp_amountMicro p in
                thenT (modifyT (put_account (bp_wallet p) (spend now (bp_amountMicro p) a)))
               (thenT (insert_usage now (bp_wallet p) (bp_endpoint p) (bp_amountMicro p) (bp_description p))
               (thenT (modifyT (\<lambda>s. s\<lparr>x_debits := x_debits s @ [debit_row now p balanceAfterMicro]\<rparr>))
               (returnT (Some \<lparr>br_debitedMicro = bp_amountMicro p, br_balanceMicro = balanceAfterMicro,
                               br_idempotent = False\<rparr>)))) s)))"

section \<open>What the tables keep to\<close>

definition deposited :: "string \<Rightarrow> credits_db \<Rightarrow> int" where
  "deposited wallet s = sum_where (\<lambda>d. dx_wallet d = wallet) dx_credit_amount_micro (x_deposits s)"

definition used :: "string \<Rightarrow> credits_db \<Rightarrow> int" where
  "used wallet s = sum_where (\<lambda>u. ux_wallet u = wallet) ux_amount_micro (x_usage s)"

definition debited :: "string \<Rightarrow> credits_db \<Rightarrow> int" where
  "debited wallet s = sum_where (\<lambda>b. ix_wallet b = wallet) ix_debited_micro (x_debits s)"

text \<open>The three sums of an account, which are zero when it has no row.\<close>

definition account_sums :: "credit_account option \<Rightarrow> int \<times> int \<times> int" where
  "account_sums found =
     (case found of
        None \<Rightarrow> (0, 0, 0)
      | Some a \<Rightarrow> (cx_balance_micro a, cx_total_deposited_micro a, cx_total_spent_micro a))"

definition wallet_ok :: "credits_db \<Rightarrow> string \<Rightarrow> bool" where
  "wallet_ok s w =
     (account_sums (x_accounts s w) = (deposited w s - used w s, deposited w s, used w s)
      \<and> used w s \<le> deposited w s \<and> 0 \<le> debited w s \<and> debited w s \<le> used w s)"

definition credits_ok :: "credits_db \<Rightarrow> bool" where
  "credits_ok s =
     ((\<forall>w. wallet_ok s w) \<and> distinct (map dx_tx_signature (x_deposits s)) \<and> distinct (map ix_reference_id (x_debits s))
      \<and> list_all (\<lambda>b. ix_debited_micro b = ix_amount_micro b \<and> 0 < ix_amount_micro b) (x_debits s))"

lemmas credit_sums = deposited_def used_def debited_def

lemma credits_okD:
  assumes "credits_ok s"
  shows "wallet_ok s w" and "distinct (map dx_tx_signature (x_deposits s))"
    and "distinct (map ix_reference_id (x_debits s))"
    and "b \<in> set (x_debits s) \<Longrightarrow> ix_debited_micro b = ix_amount_micro b \<and> 0 < ix_amount_micro b"
  using assms by (auto simp: credits_ok_def list_all_iff)

lemma wallet_account:
  "wallet_ok s w \<Longrightarrow> x_accounts s w = Some a \<Longrightarrow>
   cx_balance_micro a = deposited w s - used w s \<and> cx_total_deposited_micro a = deposited w s \<and> cx_total_spent_micro a = used w s"
  by (simp add: wallet_ok_def account_sums_def)

lemma wallet_no_account: "wallet_ok s w \<Longrightarrow> x_accounts s w = None \<Longrightarrow> deposited w s = 0 \<and> used w s = 0"
  by (auto simp: wallet_ok_def account_sums_def)

lemma balance_sums: "wallet_ok s w \<Longrightarrow> getCreditBalance w s = deposited w s - used w s"
  by (auto simp: getCreditBalance_def getCreditAccount_def dest: wallet_account wallet_no_account split: option.split)

text \<open>What a committed write leaves behind.\<close>

lemma deposit_success:
  "depositCredits rate now w tx k micro s = Inr (True, s') \<Longrightarrow>
   \<not> isDepositProcessed tx s \<and> s' = s\<lparr>x_accounts := (x_accounts s)(w \<mapsto> deposit_account now micro (x_accounts s w)),
     x_deposits := x_deposits s @ [\<lparr>dx_wallet = w, dx_tx_signature = tx, dx_kamiyo_amount = k,
       dx_credit_amount_micro = micro, dx_rate_used = js_number_text rate, dx_created_at = now\<rparr>]\<rparr>"
  by (auto simp: depositCredits_def put_account_def getCreditAccount_def thenT_success split: if_splits)

lemma deposit_refused: "depositCredits rate now w tx k micro s = Inr (False, s') \<Longrightarrow> isDepositProcessed tx s \<and> s' = s"
  by (auto simp: depositCredits_def thenT_success split: if_splits)

definition usage_row :: "int \<Rightarrow> string \<Rightarrow> string \<Rightarrow> int \<Rightarrow> string option \<Rightarrow> credit_usage" where
  "usage_row now w endpoint amount description =
     \<lparr>ux_wallet = w, ux_endpoint = endpoint, ux_amount_micro = amount, ux_description = or_null description,
      ux_created_at = now\<rparr>"

lemma deduct_success:
  assumes "deductCredits now w amount endpoint desc s = Inr (True, s')"
  obtains a where "x_accounts s w = Some a" "amount \<le> cx_balance_micro a"
    "s' = s\<lparr>x_accounts := (x_accounts s)(w \<mapsto> spend now amount a), x_usage := x_usage s @ [usage_row now w endpoint amount desc]\<rparr>"
  using assms
  by (auto simp: deductCredits_def put_account_def insert_usage_def getCreditAccount_def thenT_success usage_row_def
      split: option.splits if_splits)

lemma deduct_refused:
  "deductCredits now w amount endpoint desc s = Inr (False, s') \<Longrightarrow>
   s' = s \<and> (case x_accounts s w of None \<Rightarrow> True | Some a \<Rightarrow> cx_balance_micro a < amount)"
  by (auto simp: deductCredits_def getCreditAccount_def thenT_success split: option.splits if_splits)

lemma debit_cases:
  assumes "debitCreditsInternal now p s = Inr (r, s')"
  obtains (replay) b where "getCreditInternalDebit (bp_referenceId p) s = Some b" "debit_matches p b" "s' = s"
      "r = Some \<lparr>br_debitedMicro = ix_debited_micro b, br_balanceMicro = ix_balance_after_micro b, br_idempotent = True\<rparr>"
    | (insufficient) "getCreditInternalDebit (bp_referenceId p) s = None" "s' = s" "r = None"
        "case x_accounts s (bp_wallet p) of None \<Rightarrow> True | Some a \<Rightarrow> cx_balance_micro a < bp_amountMicro p"
    | (paid) a where "getCreditInternalDebit (bp_referenceId p) s = None" "x_accounts s (bp_wallet p) = Some a"
        "bp_amountMicro p \<le> cx_balance_micro a"
        "s' = s\<lparr>x_accounts := (x_accounts s)(bp_wallet p \<mapsto> spend now (bp_amountMicro p) a),
          x_usage := x_usage s @ [usage_row now (bp_wallet p) (bp_endpoint p) (bp_amountMicro p) (bp_description p)],
          x_debits := x_debits s @ [debit_row now p (cx_balance_micro a - bp_amountMicro p)]\<rparr>"
        "r = Some \<lparr>br_debitedMicro = bp_amountMicro p, br_balanceMicro = cx_balance_micro a - bp_amountMicro p, br_idempotent = False\<rparr>"
proof -
  consider (Found) b where "getCreditInternalDebit (bp_referenceId p) s = Some b"
    | (New) "getCreditInternalDebit (bp_referenceId p) s = None" by (cases "getCreditInternalDebit (bp_referenceId p) s") auto
  then show thesis
  proof cases
    case Found
    with assms replay [OF Found] show thesis by (simp add: debitCreditsInternal_def split: if_splits)
  next
    case New
    then show thesis
    proof (cases "x_accounts s (bp_wallet p)")
      case None
      with New assms insufficient [OF New] show thesis by (simp add: debitCreditsInternal_def getCreditAccount_def)
    next
      case (Some a)
      show thesis
      proof (cases "cx_balance_micro a < bp_amountMicro p")
        case True
        with New Some assms insufficient [OF New] show thesis by (simp add: debitCreditsInternal_def getCreditAccount_def)
      next
        case False
        with New Some assms paid [OF New Some] show thesis
          by (simp add: debitCreditsInternal_def getCreditAccount_def put_account_def insert_usage_def usage_row_def Let_def)
      qed
    qed
  qed
qed

section \<open>Every operation keeps to it\<close>

inductive credits_step :: "rat \<Rightarrow> credits_db \<Rightarrow> credits_db \<Rightarrow> bool" for rate where
  step_deposit: "0 \<le> micro \<Longrightarrow>
    credits_step rate s (snd (withTransaction (depositCredits rate now w tx k micro) s))"
| step_deduct: "0 \<le> amount \<Longrightarrow> credits_step rate s (snd (withTransaction (deductCredits now w amount endpoint desc) s))"
| step_debit: "0 < bp_amountMicro p \<Longrightarrow> credits_step rate s (snd (withTransaction (debitCreditsInternal now p) s))"
| step_account: "credits_step rate s (snd (withTransaction (getOrCreateCreditAccount now w) s))"

lemma deposit_keeps_ok:
  assumes ok: "credits_ok s" and "0 \<le> micro" and run: "depositCredits rate now w tx k micro s = Inr (r, s')"
  shows "credits_ok s'"
proof (cases r)
  case False
  with run have "s' = s" using deposit_refused [of rate now w tx k micro s s'] by simp
  with ok show ?thesis by simp
next
  case True
  with run have d: "\<not> isDepositProcessed tx s"
    and s': "s' = s\<lparr>x_accounts := (x_accounts s)(w \<mapsto> deposit_account now micro (x_accounts s w)),
     x_deposits := x_deposits s @ [\<lparr>dx_wallet = w, dx_tx_signature = tx, dx_kamiyo_amount = k,
       dx_credit_amount_micro = micro, dx_rate_used = js_number_text rate, dx_created_at = now\<rparr>]\<rparr>"
    using deposit_success [of rate now w tx k micro s s'] by simp_all
  have "wallet_ok s' v" for v
    using credits_okD(1) [OF ok, of v] assms(2)
    by (auto simp: s' wallet_ok_def credit_sums account_sums_def deposit_account_def empty_account_def split: option.splits)
  with d show ?thesis using credits_okD(2,3) [OF ok] ok
    by (simp add: s' credits_ok_def isDepositProcessed_def)
qed

lemma deduct_keeps_ok:
  assumes ok: "credits_ok s" and "0 \<le> amount" and run: "deductCredits now w amount endpoint desc s = Inr (r, s')"
  shows "credits_ok s'"
proof (cases r)
  case False
  with run have "s' = s" using deduct_refused [of now w amount endpoint desc s s'] by simp
  with ok show ?thesis by simp
next
  case True
  with run obtain a where a: "x_accounts s w = Some a" "amount \<le> cx_balance_micro a"
    and s': "s' = s\<lparr>x_accounts := (x_accounts s)(w \<mapsto> spend now amount a), x_usage := x_usage s @ [usage_row now w endpoint amount desc]\<rparr>"
    using deduct_success [of now w amount endpoint desc s s'] by auto
  have "wallet_ok s' v" for v
    using credits_okD(1) [OF ok, of v] assms(2) a
    by (auto simp: s' wallet_ok_def credit_sums account_sums_def spend_def usage_row_def)
  then show ?thesis using credits_okD(2,3) [OF ok] ok by (simp add: s' credits_ok_def)
qed

lemma debit_keeps_ok:
  assumes ok: "credits_ok s" and pos: "0 < bp_amountMicro p" and run: "debitCreditsInternal now p s = Inr (r, s')"
  shows "credits_ok s'"
  using run
proof (cases rule: debit_cases)
  case (paid a)
  have "wallet_ok s' v" for v
    using credits_okD(1) [OF ok, of v] pos paid(2,3)
    by (auto simp: paid(4) wallet_ok_def credit_sums account_sums_def spend_def usage_row_def debit_row_def)
  moreover have "bp_referenceId p \<notin> ix_reference_id ` set (x_debits s)"
    using paid(1) by (auto simp: getCreditInternalDebit_def find_None_iff)
  ultimately show ?thesis using credits_okD(2,3) [OF ok] ok pos by (simp add: paid(4) credits_ok_def debit_row_def)
qed (use ok in auto)

lemma create_keeps_ok:
  assumes ok: "credits_ok s" and run: "getOrCreateCreditAccount now w s = Inr (a, s')"
  shows "credits_ok s'"
proof (cases "x_accounts s w")
  case None
  have "wallet_ok s' v" for v
    using credits_okD(1) [OF ok, of v] run None
    by (auto simp: getOrCreateCreditAccount_def getCreditAccount_def put_account_def wallet_ok_def credit_sums
        account_sums_def empty_account_def)
  then show ?thesis using credits_okD(2,3) [OF ok] ok run None
    by (auto simp: getOrCreateCreditAccount_def getCreditAccount_def put_account_def credits_ok_def)
qed (use run ok in \<open>simp add: getOrCreateCreditAccount_def getCreditAccount_def\<close>)

lemma credits_step_ok: "credits_step rate s s' \<Longrightarrow> credits_ok s \<Longrightarrow> credits_ok s'"
  by (induction rule: credits_step.induct)
    (auto intro: withTransaction_invariant deposit_keeps_ok deduct_keeps_ok debit_keeps_ok create_keeps_ok)

lemma no_credits_ok: "credits_ok no_credits"
  by (simp add: credits_ok_def no_credits_def wallet_ok_def credit_sums account_sums_def)

interpretation prepaid: invariant_system "\<lambda>s. s = no_credits" "credits_step rate" credits_ok
  by unfold_locales (simp_all add: no_credits_ok credits_step_ok)

section \<open>Retries\<close>

text \<open>The debit as its caller sees it: no debit is a failure.\<close>

definition run_debit :: "int \<Rightarrow> debit_params \<Rightarrow> credits_db \<Rightarrow> (error + debit_result) \<times> credits_db" where
  "run_debit now p s =
     (case withTransaction (debitCreditsInternal now p) s of
        (Inl err, s') \<Rightarrow> (Inl err, s')
      | (Inr None, s') \<Rightarrow> (Inl (Thrown ''INSUFFICIENT_CREDITS''), s')
      | (Inr (Some r), s') \<Rightarrow> (Inr r, s'))"

definition debit_recorded :: "debit_params \<Rightarrow> credits_db \<Rightarrow> bool" where
  "debit_recorded p s = (getCreditInternalDebit (bp_referenceId p) s \<noteq> None)"

lemma run_debit_success:
  "run_debit now p s = (Inr r, s') \<longleftrightarrow> debitCreditsInternal now p s = Inr (Some r, s')"
  by (auto simp: run_debit_def withTransaction_def split: sum.splits option.splits)

lemma run_debit_failure: "run_debit now p s = (Inl err, s') \<Longrightarrow> s' = s"
  by (auto simp: run_debit_def withTransaction_def elim: debit_cases split: sum.splits option.splits)

lemma debit_then_recorded:
  "debitCreditsInternal now p s = Inr (Some r, s') \<Longrightarrow>
   \<exists>b. getCreditInternalDebit (bp_referenceId p) s' = Some b \<and> debit_matches p b"
proof (erule debit_cases)
  fix b assume "getCreditInternalDebit (bp_referenceId p) s = Some b" "debit_matches p b" "s' = s"
  then show ?thesis by simp
next
  fix a
  assume n: "getCreditInternalDebit (bp_referenceId p) s = None" and s': "s' = s\<lparr>x_accounts := (x_accounts s)(bp_wallet p \<mapsto> spend now (bp_amountMicro p) a),
          x_usage := x_usage s @ [usage_row now (bp_wallet p) (bp_endpoint p) (bp_amountMicro p) (bp_description p)],
          x_debits := x_debits s @ [debit_row now p (cx_balance_micro a - bp_amountMicro p)]\<rparr>"
  have "getCreditInternalDebit (bp_referenceId p) s' = Some (debit_row now p (cx_balance_micro a - bp_amountMicro p))"
    using n by (simp add: s' getCreditInternalDebit_def find_append debit_row_def)
  then show ?thesis by (simp add: debit_matches_def debit_row_def)
qed simp

lemma debit_replay:
  "getCreditInternalDebit (bp_referenceId p) s = Some b \<Longrightarrow>
   debitCreditsInternal now p s =
     (if debit_matches p b
      then Inr (Some \<lparr>br_debitedMicro = ix_debited_micro b, br_balanceMicro = ix_balance_after_micro b, br_idempotent = True\<rparr>, s)
      else Inl (Thrown ''credit_internal_reference_conflict''))"
  by (simp add: debitCreditsInternal_def)

interpretation debits: idempotent_operation run_debit debit_recorded
proof unfold_locales
  fix e p r and s s' :: credits_db
  assume "run_debit e p s = (Inr r, s')"
  then show "debit_recorded p s'" using debit_then_recorded [of e p s r s'] by (auto simp: run_debit_success debit_recorded_def)
next
  fix e p and s :: credits_db
  assume "debit_recorded p s"
  then show "snd (run_debit e p s) = s" by (auto simp: debit_recorded_def run_debit_def withTransaction_def debit_replay)
next
  fix e p err and s s' :: credits_db
  assume "run_debit e p s = (Inl err, s')"
  then show "s' = s" by (rule run_debit_failure)
qed

text \<open>Debits are kept for good, whatever else happens.\<close>

lemma debits_kept: "credits_step rate s s' \<Longrightarrow> \<exists>bs. x_debits s' = x_debits s @ bs"
proof (induction rule: credits_step.induct)
  case (step_deposit micro s now w tx k)
  then show ?case by (auto simp: withTransaction_def depositCredits_def thenT_success put_account_def split: sum.split)
next
  case (step_deduct amount s now w endpoint desc)
  then show ?case
    by (auto simp: withTransaction_def deductCredits_def insert_usage_def put_account_def split: sum.split option.split)
next
  case (step_debit p s now)
  then show ?case by (auto simp: withTransaction_def elim: debit_cases split: sum.split)
next
  case (step_account s now w)
  then show ?case by (auto simp: withTransaction_def getOrCreateCreditAccount_def put_account_def split: sum.split option.split)
qed

section \<open>Properties\<close>

text \<open>
  Claim C18. No wallet spends more than it deposited: whatever deposits, deductions and debits run in whatever order from an
  empty database, the balance that is read for a wallet is the sum of its deposits less the sum of its usage, it is never
  negative, and the totals of the account row are these sums.
\<close>

theorem prepaid_balance_conserved:
  assumes "(credits_step rate)\<^sup>*\<^sup>* no_credits s"
  shows "getCreditBalance w s = deposited w s - used w s \<and> 0 \<le> getCreditBalance w s \<and> debited w s \<le> used w s \<and>
         (\<forall>a. getCreditAccount w s = Some a \<longrightarrow>
            cx_total_deposited_micro a = deposited w s \<and> cx_total_spent_micro a = used w s)"
proof -
  have "wallet_ok s w" using prepaid.inv_reachable [OF _ assms] credits_okD(1) by simp
  then show ?thesis
    using balance_sums [of s w] wallet_account [of s w] by (auto simp: wallet_ok_def getCreditAccount_def)
qed

definition demo_debit :: debit_params where
  "demo_debit = \<lparr>bp_wallet = ''w'', bp_amountMicro = 300, bp_endpoint = ''kizuna-repay'', bp_referenceId = ''r1'',
                 bp_description = None\<rparr>"

definition demo_credits :: credits_db where
  "demo_credits = snd (withTransaction (depositCredits (1 / 100000) 5 ''w'' ''tx1'' ''100'' 1000) no_credits)"

theorem prepaid_balance_conserved_witness:
  "getCreditBalance ''w'' (snd (withTransaction (debitCreditsInternal 6 demo_debit) demo_credits)) = 700 \<and>
   debited ''w'' (snd (withTransaction (debitCreditsInternal 6 demo_debit) demo_credits)) = 300"
proof -
  let ?s = "snd (withTransaction (debitCreditsInternal 6 demo_debit) demo_credits)"
  have "credits_step (1 / 100000) no_credits demo_credits"
    unfolding demo_credits_def by (rule step_deposit) simp
  moreover have "credits_step (1 / 100000) demo_credits ?s"
    by (rule step_debit) (simp add: demo_debit_def)
  ultimately have run: "(credits_step (1 / 100000))\<^sup>*\<^sup>* no_credits ?s"
    by (meson converse_rtranclp_into_rtranclp r_into_rtranclp)
  have d: "deposited ''w'' ?s = 1000" "used ''w'' ?s = 300" "debited ''w'' ?s = 300"
    by (simp_all add: credit_sums demo_credits_def demo_debit_def no_credits_def depositCredits_def
        isDepositProcessed_def put_account_def getCreditAccount_def deposit_account_def empty_account_def
        debitCreditsInternal_def getCreditInternalDebit_def insert_usage_def debit_row_def Let_def)
  show ?thesis using prepaid_balance_conserved [OF run, of "''w''"] d by simp
qed

text \<open>
  Claim C19. A debit is taken at most once: however often a service repeats a debit with the same reference, with
  whatever clock, the database is the one that some single attempt leaves, or unchanged.
\<close>

theorem debit_at_most_once:
  "fold (\<lambda>now s. snd (run_debit now p s)) nows s \<in> {s} \<union> {snd (run_debit now p s) | now. now \<in> set nows}"
  by (rule debits.at_most_once)

end
