(* ===== verification/Prepaid_Routes.thy ===== *)
theory Prepaid_Routes
  imports Prepaid_Credits Kernel_Envelope Request_Compat
begin

text \<open>
  \<open>services/api/src/api/routes/credits.ts\<close>: the debits that other services ask for, the balances, and the claim of an
  on-chain deposit, whose handler waits for the chain between its checks and its write.
\<close>

section \<open>Configuration\<close>

text \<open>
  \<open>xc_env\<close> is the process environment and \<open>xc_is_key\<close> whether \<open>new PublicKey\<close> accepts a text, which is the wallet library's
  business.
\<close>

record credits_config =
  xc_env :: "string \<Rightarrow> string option"
  xc_rate :: rat
  xc_connected :: bool
  xc_is_key :: "string \<Rightarrow> bool"

definition readEnv :: "credits_config \<Rightarrow> string \<Rightarrow> string option" where
  "readEnv xc key = asString (map_option JStr (xc_env xc key))"

definition INTERNAL_TOKEN :: "credits_config \<Rightarrow> string" where
  "INTERNAL_TOKEN xc =
     or_text (or_else (readEnv xc ''KIZUNA_INTERNAL_TOKEN'')
             (or_else (readEnv xc ''COMPANY_INTERNAL_TOKEN'') (readEnv xc ''COMPANION_INTERNAL_TOKEN''))) []"

record credits_capability =
  xp_enabled :: bool
  xp_reason :: "string option"
  xp_treasuryWallet :: "string option"
  xp_tokenMint :: "string option"

definition getCreditsCapability :: "credits_config \<Rightarrow> credits_capability" where
  "getCreditsCapability xc =
     (let treasury = readEnv xc ''CREDITS_TREASURY_WALLET''; mint = readEnv xc ''KAMIYO_MINT'' in
      if treasury = None
      then \<lparr>xp_enabled = False, xp_reason = Some ''treasury_wallet_missing'', xp_treasuryWallet = treasury, xp_tokenMint = mint\<rparr>
      else if mint = None
      then \<lparr>xp_enabled = False, xp_reason = Some ''token_mint_missing'', xp_treasuryWallet = treasury, xp_tokenMint = mint\<rparr>
      else \<lparr>xp_enabled = True, xp_reason = None, xp_treasuryWallet = treasury, xp_tokenMint = mint\<rparr>)"

definition isValidSolanaAddress :: "credits_config \<Rightarrow> string \<Rightarrow> bool" where
  "isValidSolanaAddress xc addr = (addr \<noteq> [] \<and> 32 \<le> length addr \<and> length addr \<le> 44 \<and> xc_is_key xc addr)"

text \<open>\<open>Number.parseInt(value, 10)\<close>: white space, a sign and the digits that follow; the rest is ignored.\<close>

definition parseInt10 :: "string \<Rightarrow> int option" where
  "parseInt10 s =
     (let t = js_trim s;
          negative = (t \<noteq> [] \<and> hd t = CHR ''-'');
          u = (if negative \<or> (t \<noteq> [] \<and> hd t = CHR ''+'') then tl t else t);
          ds = takeWhile is_digit u in
      if ds = [] then None
      else Some (if negative then - int (digits_value ds) else int (digits_value ds)))"

text \<open>An integer beyond \<open>Number.MAX_SAFE_INTEGER\<close> is read as a double that is not safe either.\<close>

definition parsePositiveInteger :: "json option \<Rightarrow> int option" where
  "parsePositiveInteger v =
     (case v of
        Some (JNum n) \<Rightarrow> if safe_integer n \<and> 0 < n then Some \<lfloor>n\<rfloor> else None
      | Some (JStr t) \<Rightarrow>
          if js_trim t = [] then None
          else (case parseInt10 t of
                  Some n \<Rightarrow> if \<bar>n\<bar> \<le> 9007199254740991 \<and> 0 < n then Some n else None
                | None \<Rightarrow> None)
      | _ \<Rightarrow> None)"

lemma parsePositiveInteger_pos: "parsePositiveInteger v = Some n \<Longrightarrow> 0 < n"
  by (auto simp: parsePositiveInteger_def safe_integer_def zero_less_floor
           split: option.splits json.splits if_splits)

lemma parsePositiveInteger_numeric:
  assumes "0 < n" "n \<le> 9007199254740991"
  shows "parsePositiveInteger (Some (JStr (numeric_text n))) = Some n"
proof -
  let ?t = "nat_text (nat n)"
  have t: "numeric_text n = ?t" using assms by (simp add: numeric_text_def)
  have d: "list_all is_digit ?t" "?t \<noteq> []" by simp_all
  then have trim: "js_trim ?t = ?t" by (simp add: js_trim_digits)
  have hd: "is_digit (hd ?t)" using d by (cases ?t) auto
  then have "hd ?t \<noteq> CHR ''-''" "hd ?t \<noteq> CHR ''+''" by auto
  moreover have tw: "takeWhile is_digit ?t = ?t" by (rule takeWhile_all) (rule d(1))
  ultimately have "parseInt10 ?t = Some n" using assms d(2) by (simp add: parseInt10_def trim Let_def tw)
  then show ?thesis using assms d(2) by (simp add: parsePositiveInteger_def t trim)
qed

section \<open>Answers\<close>

datatype credits_answer =
    CreditsError nat string string
  | DebitAnswer string debit_result
  | InternalBalance string int
  | WalletBalance string rat rat rat
  | DepositAnswer rat rat rat

type_synonym credits_handler = "credits_db \<Rightarrow> credits_answer \<times> credits_db"

definition requireCreditsToken :: "credits_config \<Rightarrow> string option \<Rightarrow> credits_handler \<Rightarrow> credits_handler" where
  "requireCreditsToken xc authorization h s =
     (case authorization of
        None \<Rightarrow> (CreditsError 401 ''UNAUTHORIZED'' ''Missing authorization header'', s)
      | Some header \<Rightarrow>
          if take 7 header \<noteq> ''Bearer '' then (CreditsError 401 ''UNAUTHORIZED'' ''Missing authorization header'', s)
          else if INTERNAL_TOKEN xc = [] \<or> js_trim (drop 7 header) \<noteq> INTERNAL_TOKEN xc
          then (CreditsError 401 ''UNAUTHORIZED'' ''Invalid authorization token'', s)
          else h s)"

section \<open>The internal routes\<close>

definition trimmed_text :: "json option \<Rightarrow> string" where
  "trimmed_text v = or_text (asString v) []"

text \<open>An error that the handler does not know is left to the application's error handler.\<close>

definition debit_answer :: "string \<Rightarrow> (error + debit_result option) \<times> credits_db \<Rightarrow> credits_answer \<times> credits_db" where
  "debit_answer wallet out =
     (case fst out of
        Inr (Some r) \<Rightarrow> DebitAnswer wallet r
      | Inr None \<Rightarrow> CreditsError 402 ''INSUFFICIENT_CREDITS'' ''Insufficient balance for debit request''
      | Inl err \<Rightarrow>
          if err = Thrown ''credit_internal_reference_conflict''
          then CreditsError 409 ''REFERENCE_CONFLICT'' ''referenceId already exists for a different debit request''
          else CreditsError 500 ''INTERNAL_ERROR'' ''Internal server error'', snd out)"

text \<open>The fields of the body, the conflict check, and the debit.\<close>

definition debit_request :: "credits_config \<Rightarrow> json_object option \<Rightarrow> credits_answer + debit_params" where
  "debit_request xc body =
     (let field = jget_opt body; wallet = trimmed_text (field ''wallet'');
          endpoint = trimmed_text (field ''endpoint''); referenceId = trimmed_text (field ''referenceId'') in
      if wallet = [] \<or> \<not> isValidSolanaAddress xc wallet
      then Inl (CreditsError 400 ''INVALID_WALLET'' ''Valid Solana address required'')
      else (case parsePositiveInteger (field ''amountMicro'') of
              None \<Rightarrow> Inl (CreditsError 400 ''INVALID_REQUEST'' ''wallet, amountMicro, endpoint, and referenceId are required'')
            | Some amountMicro \<Rightarrow>
                if endpoint = [] \<or> referenceId = []
                then Inl (CreditsError 400 ''INVALID_REQUEST'' ''wallet, amountMicro, endpoint, and referenceId are required'')
                else Inr \<lparr>bp_wallet = wallet, bp_amountMicro = amountMicro, bp_endpoint = endpoint,
                          bp_referenceId = referenceId, bp_description = asString (field ''description'')\<rparr>))"

definition internal_debit :: "int \<Rightarrow> debit_params \<Rightarrow> credits_handler" where
  "internal_debit now p s =
     (case getCreditInternalDebit (bp_referenceId p) s of
        Some existing \<Rightarrow>
          if \<not> debit_matches p existing
          then (CreditsError 409 ''REFERENCE_CONFLICT'' ''referenceId already exists for a different debit request'', s)
          else debit_answer (bp_wallet p) (withTransaction (debitCreditsInternal now p) s)
      | None \<Rightarrow> debit_answer (bp_wallet p) (withTransaction (debitCreditsInternal now p) s))"

definition post_internal_debit :: "credits_config \<Rightarrow> int \<Rightarrow> string option \<Rightarrow> json option \<Rightarrow> credits_handler" where
  "post_internal_debit xc now authorization body =
     requireCreditsToken xc authorization (\<lambda>s.
       case debit_request xc (asRecord body) of Inl r \<Rightarrow> (r, s) | Inr p \<Rightarrow> internal_debit now p s)"

definition get_internal_balance :: "credits_config \<Rightarrow> string option \<Rightarrow> string option \<Rightarrow> credits_handler" where
  "get_internal_balance xc authorization wallet =
     requireCreditsToken xc authorization (\<lambda>s.
       case wallet of
         None \<Rightarrow> (CreditsError 400 ''INVALID_WALLET'' ''Valid Solana address required'', s)
       | Some w \<Rightarrow>
           if \<not> isValidSolanaAddress xc w then (CreditsError 400 ''INVALID_WALLET'' ''Valid Solana address required'', s)
           else (InternalBalance w (getCreditBalance w s), s))"

definition get_balance :: "credits_config \<Rightarrow> string option \<Rightarrow> credits_handler" where
  "get_balance xc wallet s =
     (case wallet of
        None \<Rightarrow> (CreditsError 400 ''INVALID_WALLET'' ''Valid Solana address required'', s)
      | Some w \<Rightarrow>
          if \<not> isValidSolanaAddress xc w then (CreditsError 400 ''INVALID_WALLET'' ''Valid Solana address required'', s)
          else (let account = getCreditAccount w s;
                    usd = (\<lambda>f. case account of None \<Rightarrow> 0 | Some a \<Rightarrow> creditsToUsd (f a)) in
                (WalletBalance w (usd cx_balance_micro) (usd cx_total_deposited_micro) (usd cx_total_spent_micro), s)))"

section \<open>Claiming a deposit\<close>

text \<open>What the chain reports of a transaction; amounts are the \<open>uiAmount\<close> doubles of the token balances.\<close>

record token_balance =
  tb_accountIndex :: int
  tb_mint :: string
  tb_owner :: "string option"
  tb_uiAmount :: "rat option"

record parsed_transaction =
  px_failed :: bool
  px_pre :: "token_balance list"
  px_post :: "token_balance list"

definition ui_amount :: "token_balance option \<Rightarrow> rat" where
  "ui_amount b = (case b of None \<Rightarrow> 0 | Some x \<Rightarrow> (case tb_uiAmount x of None \<Rightarrow> 0 | Some a \<Rightarrow> a))"

definition TRANSFER_TOLERANCE :: rat where
  "TRANSFER_TOLERANCE = fl (99 / 100)"

text \<open>The inner loop: the first other account that lost about what the treasury gained.\<close>

fun find_sender :: "string \<Rightarrow> string \<Rightarrow> token_balance list \<Rightarrow> rat \<Rightarrow> token_balance list \<Rightarrow> string" where
  "find_sender mint treasury post transferred [] = []"
| "find_sender mint treasury post transferred (otherPre # rest) =
     (if tb_mint otherPre \<noteq> mint \<or> tb_owner otherPre = Some treasury then find_sender mint treasury post transferred rest
      else (let otherPost = find (\<lambda>p. tb_accountIndex p = tb_accountIndex otherPre) post;
                diff = fl (ui_amount (Some otherPre) - ui_amount otherPost) in
            if fl (transferred * TRANSFER_TOLERANCE) \<le> diff then or_text (tb_owner otherPre) []
            else find_sender mint treasury post transferred rest))"

text \<open>The outer loop: the first treasury account that gained, with the sender found for it.\<close>

fun find_transfer ::
  "string \<Rightarrow> string \<Rightarrow> token_balance list \<Rightarrow> token_balance list \<Rightarrow> token_balance list \<Rightarrow> rat \<times> string" where
  "find_transfer mint treasury pre posts [] = (0, [])"
| "find_transfer mint treasury pre posts (post # rest) =
     (if tb_mint post \<noteq> mint \<or> tb_owner post \<noteq> Some treasury then find_transfer mint treasury pre posts rest
      else (let before = find (\<lambda>p. tb_accountIndex p = tb_accountIndex post \<and> tb_mint p = mint) pre;
                transferred = fl (ui_amount (Some post) - ui_amount before) in
            if 0 < transferred then (transferred, find_sender mint treasury posts transferred pre)
            else find_transfer mint treasury pre posts rest))"

text \<open>
  A claim before and after it has waited for the chain.  The wallet of the body is a text or missing here; what
  the address check makes of other JSON values is left out.
\<close>

record deposit_claim =
  dq_wallet :: "string option"
  dq_txSignature :: "json option"

datatype deposit_phase =
    DepositArrived deposit_claim
  | DepositFetching string string
  | DepositDone credits_answer

definition deposit_check :: "credits_config \<Rightarrow> deposit_claim \<Rightarrow> credits_db \<Rightarrow> deposit_phase" where
  "deposit_check xc q s =
     (let capability = getCreditsCapability xc; wallet = or_text (dq_wallet q) [];
          refuse = (\<lambda>status code msg. DepositDone (CreditsError status code msg)) in
      if \<not> xc_connected xc \<or> \<not> xp_enabled capability
      then refuse 503 ''SERVICE_UNAVAILABLE'' ''Credits deposit verification is disabled''
      else if wallet = [] \<or> \<not> isValidSolanaAddress xc wallet
      then refuse 400 ''INVALID_WALLET'' ''Valid Solana address required''
      else (case dq_txSignature q of
              Some (JStr tx) \<Rightarrow>
                if length tx < 80 then refuse 400 ''INVALID_TX'' ''Valid transaction signature required''
                else if isDepositProcessed tx s then refuse 409 ''ALREADY_PROCESSED'' ''Transaction already processed''
                else DepositFetching wallet tx
            | _ \<Rightarrow> refuse 400 ''INVALID_TX'' ''Valid transaction signature required''))"

text \<open>
  \<open>chain\<close> is what \<open>getParsedTransaction\<close> resolves to, or that it rejects; \<open>emits\<close> whether the event that follows the
  write is accepted.
\<close>

definition deposit_verdict ::
  "credits_config \<Rightarrow> (unit + parsed_transaction option) \<Rightarrow> string \<Rightarrow> credits_answer + rat" where
  "deposit_verdict xc chain wallet =
     (let capability = getCreditsCapability xc;
          mint = or_text (xp_tokenMint capability) []; treasury = or_text (xp_treasuryWallet capability) [] in
      case chain of
        Inl _ \<Rightarrow> Inl (CreditsError 500 ''VERIFICATION_FAILED'' ''Failed to verify'')
      | Inr None \<Rightarrow> Inl (CreditsError 404 ''TX_NOT_FOUND'' ''Transaction not found'')
      | Inr (Some t) \<Rightarrow>
          if px_failed t then Inl (CreditsError 400 ''TX_FAILED'' ''Transaction failed on chain'')
          else (let (kamiyoAmount, senderWallet) = find_transfer mint treasury (px_pre t) (px_post t) (px_post t) in
            if kamiyoAmount = 0 then Inl (CreditsError 400 ''NO_TRANSFER'' ''No KAMIYO transfer to treasury found'')
            else if senderWallet \<noteq> [] \<and> senderWallet \<noteq> wallet
            then Inl (CreditsError 400 ''WALLET_MISMATCH'' ''Sender does not match wallet'')
            else if kamiyoToCredits (xc_rate xc) kamiyoAmount = 0
            then Inl (CreditsError 400 ''AMOUNT_TOO_SMALL'' ''Amount too small'')
            else Inr kamiyoAmount))"

definition deposit_credit ::
  "credits_config \<Rightarrow> int \<Rightarrow> (unit + parsed_transaction option) \<Rightarrow> bool \<Rightarrow> string \<Rightarrow> string \<Rightarrow> credits_handler" where
  "deposit_credit xc now chain emits wallet tx s =
     (case deposit_verdict xc chain wallet of
        Inl r \<Rightarrow> (r, s)
      | Inr kamiyoAmount \<Rightarrow>
          (let creditsMicro = kamiyoToCredits (xc_rate xc) kamiyoAmount in
           case withTransaction (depositCredits (xc_rate xc) now wallet tx (js_number_text kamiyoAmount) creditsMicro) s of
             (Inr success, s') \<Rightarrow>
               if \<not> success then (CreditsError 409 ''ALREADY_PROCESSED'' ''Transaction already processed'', s')
               else if \<not> emits then (CreditsError 500 ''VERIFICATION_FAILED'' ''Failed to verify'', s')
               else (DepositAnswer kamiyoAmount (creditsToUsd creditsMicro) (creditsToUsd (getCreditBalance wallet s')), s')
           | (Inl _, s') \<Rightarrow> (CreditsError 500 ''VERIFICATION_FAILED'' ''Failed to verify'', s')))"

definition deposit_step ::
  "credits_config \<Rightarrow> int \<Rightarrow> (unit + parsed_transaction option) \<Rightarrow> bool \<Rightarrow> deposit_phase \<Rightarrow> credits_db \<Rightarrow> deposit_phase \<times> credits_db" where
  "deposit_step xc now chain emits ph s =
     (case ph of
        DepositArrived q \<Rightarrow> (deposit_check xc q s, s)
      | DepositFetching wallet tx \<Rightarrow> map_prod DepositDone id (deposit_credit xc now chain emits wallet tx s)
      | DepositDone r \<Rightarrow> (DepositDone r, s))"

section \<open>Lemmas\<close>

lemma find_transfer_nonneg: "0 \<le> fst (find_transfer mint treasury pre posts ps)"
  by (induction ps) (auto simp: Let_def)

lemma kamiyoToCredits_nonneg: "0 \<le> rate \<Longrightarrow> 0 \<le> a \<Longrightarrow> 0 \<le> kamiyoToCredits rate a"
  by (simp add: kamiyoToCredits_def fl_nonneg)

section \<open>Every route works through the operations\<close>

lemma deposit_verdict_success:
  assumes "deposit_verdict xc chain wallet = Inr a"
  obtains t sender where "chain = Inr (Some t)" "\<not> px_failed t" "0 < a" "sender = [] \<or> sender = wallet"
    "find_transfer (or_text (xp_tokenMint (getCreditsCapability xc)) []) (or_text (xp_treasuryWallet (getCreditsCapability xc)) [])
       (px_pre t) (px_post t) (px_post t) = (a, sender)"
    "kamiyoToCredits (xc_rate xc) a \<noteq> 0"
proof -
  obtain t where t: "chain = Inr (Some t)" using assms by (auto simp: deposit_verdict_def Let_def split: sum.splits option.splits)
  obtain b sender where tr: "find_transfer (or_text (xp_tokenMint (getCreditsCapability xc)) [])
      (or_text (xp_treasuryWallet (getCreditsCapability xc)) []) (px_pre t) (px_post t) (px_post t) = (b, sender)"
    by (metis surj_pair)
  have "0 \<le> b" using find_transfer_nonneg tr by (metis fst_conv)
  with assms have v: "\<not> px_failed t" "0 < b" "sender = [] \<or> sender = wallet" "b = a" "kamiyoToCredits (xc_rate xc) b \<noteq> 0"
    by (auto simp: deposit_verdict_def Let_def t tr split: if_splits)
  show thesis by (rule that [OF t]) (use v tr in auto)
qed

lemma deposit_verdict_failure: "deposit_verdict xc chain wallet = Inl r \<Longrightarrow> \<exists>status code msg. r = CreditsError status code msg"
  by (auto simp: deposit_verdict_def Let_def split: sum.splits option.splits if_splits prod.splits)

lemma deposit_credit_steps:
  assumes run: "deposit_credit xc now chain emits wallet tx s = (r, s')" and rate: "0 \<le> xc_rate xc"
  shows "s' = s \<or> credits_step (xc_rate xc) s s'"
proof (cases "deposit_verdict xc chain wallet")
  case (Inr a)
  let ?w = "withTransaction (depositCredits (xc_rate xc) now wallet tx (js_number_text a) (kamiyoToCredits (xc_rate xc) a)) s"
  have "0 \<le> a" using deposit_verdict_success [OF Inr] by (metis less_imp_le)
  with rate have "credits_step (xc_rate xc) s (snd ?w)" by (intro step_deposit kamiyoToCredits_nonneg)
  moreover have "s' = snd ?w"
    using run by (auto simp: deposit_credit_def Inr Let_def split: sum.splits if_splits prod.splits)
  ultimately show ?thesis by simp
qed (use run in \<open>simp add: deposit_credit_def\<close>)

lemma post_internal_debit_cases:
  assumes "post_internal_debit xc now auth body s = (r, s')"
  obtains (refused) status code msg where "r = CreditsError status code msg" "s' = s"
    | (ran) p where "debit_request xc (asRecord body) = Inr p"
        "debit_answer (bp_wallet p) (withTransaction (debitCreditsInternal now p) s) = (r, s')"
proof -
  from assms consider (Auth) msg where "r = CreditsError 401 ''UNAUTHORIZED'' msg" "s' = s"
    | (Run) "(case debit_request xc (asRecord body) of Inl r \<Rightarrow> (r, s) | Inr p \<Rightarrow> internal_debit now p s) = (r, s')"
    by (auto simp: post_internal_debit_def requireCreditsToken_def split: option.splits if_splits)
  then show thesis
  proof cases
    case Run
    show thesis
    proof (cases "debit_request xc (asRecord body)")
      case (Inl a)
      with Run refused show thesis
        by (auto simp: debit_request_def Let_def split: if_splits option.splits)
    next
      case (Inr p)
      with Run refused ran [OF Inr] show thesis by (auto simp: internal_debit_def split: option.splits if_splits)
    qed
  qed (rule refused)
qed

lemma debit_request_pos: "debit_request xc body = Inr p \<Longrightarrow> 0 < bp_amountMicro p"
  by (auto simp: debit_request_def Let_def parsePositiveInteger_pos split: if_splits option.splits)

lemma internal_debit_steps:
  assumes "post_internal_debit xc now auth body s = (r, s')"
  shows "s' = s \<or> credits_step rate s s'"
  using assms
proof (cases rule: post_internal_debit_cases)
  case (ran p)
  have "s' = snd (withTransaction (debitCreditsInternal now p) s)" using ran(2) by (auto simp: debit_answer_def)
  with step_debit [OF debit_request_pos [OF ran(1)]] show ?thesis by simp
qed simp

section \<open>Properties\<close>


text \<open>
  A deposit without a sender belongs to whoever asks first: when no single other account lost
  ninety-nine percent of what the treasury gained, as when the sender pays from two token accounts, every wallet can
  have the deposit credited to itself.
\<close>

theorem unattributed_deposit_is_anyones:
  assumes "chain = Inr (Some t)" and "\<not> px_failed t"
    and "find_transfer (or_text (xp_tokenMint (getCreditsCapability xc)) [])
           (or_text (xp_treasuryWallet (getCreditsCapability xc)) []) (px_pre t) (px_post t) (px_post t) = (a, [])"
    and "a \<noteq> 0" and "kamiyoToCredits (xc_rate xc) a \<noteq> 0" and "\<not> isDepositProcessed tx s"
  shows "\<exists>bal s'. deposit_credit xc now chain True wallet tx s =
           (DepositAnswer a (creditsToUsd (kamiyoToCredits (xc_rate xc) a)) bal, s')
         \<and> getCreditBalance wallet s' = getCreditBalance wallet s + kamiyoToCredits (xc_rate xc) a"
proof -
  let ?micro = "kamiyoToCredits (xc_rate xc) a"
  have v: "deposit_verdict xc chain wallet = Inr a" using assms(1-5) by (simp add: deposit_verdict_def Let_def)
  obtain s' where run: "depositCredits (xc_rate xc) now wallet tx (js_number_text a) ?micro s = Inr (True, s')"
    using assms(6) by (simp add: depositCredits_def)
  then have "withTransaction (depositCredits (xc_rate xc) now wallet tx (js_number_text a) ?micro) s = (Inr True, s')" by simp
  then have "deposit_credit xc now chain True wallet tx s =
      (DepositAnswer a (creditsToUsd ?micro) (creditsToUsd (getCreditBalance wallet s')), s')"
    by (simp add: deposit_credit_def v Let_def)
  moreover have "getCreditBalance wallet s' = getCreditBalance wallet s + ?micro"
    using deposit_success [OF run] by (simp add: getCreditBalance_def getCreditAccount_def deposit_account_def split: option.split)
  ultimately show ?thesis by blast
qed

section \<open>Witnesses\<close>

definition demo_credits_config :: credits_config where
  "demo_credits_config =
     \<lparr>xc_env = [''CREDITS_TREASURY_WALLET'' \<mapsto> ''t'', ''KAMIYO_MINT'' \<mapsto> ''m'', ''KIZUNA_INTERNAL_TOKEN'' \<mapsto> ''k''],
      xc_rate = 1, xc_connected = True, xc_is_key = (\<lambda>_. True)\<rparr>"

lemma one_letter: "js_trim ''t'' = ''t''" "js_trim ''m'' = ''m''" "js_trim ''k'' = ''k''"
  by code_simp+

lemma demo_readEnv:
  "readEnv demo_credits_config ''CREDITS_TREASURY_WALLET'' = Some ''t''" "readEnv demo_credits_config ''KAMIYO_MINT'' = Some ''m''"
  "readEnv demo_credits_config ''KIZUNA_INTERNAL_TOKEN'' = Some ''k''"
  by (simp_all add: readEnv_def demo_credits_config_def asString_JStr one_letter)

lemma demo_credits_settings:
  "getCreditsCapability demo_credits_config =
     \<lparr>xp_enabled = True, xp_reason = None, xp_treasuryWallet = Some ''t'', xp_tokenMint = Some ''m''\<rparr>"
  "INTERNAL_TOKEN demo_credits_config = ''k''"
  by (simp_all add: getCreditsCapability_def INTERNAL_TOKEN_def demo_readEnv or_text_def)

text \<open>One hundred tokens, sixty and forty of them from two accounts of the same owner.\<close>

definition demo_balance :: "int \<Rightarrow> string \<Rightarrow> rat \<Rightarrow> token_balance" where
  "demo_balance i owner amount = \<lparr>tb_accountIndex = i, tb_mint = ''m'', tb_owner = Some owner, tb_uiAmount = Some amount\<rparr>"

definition split_payment :: parsed_transaction where
  "split_payment =
     \<lparr>px_failed = False,
      px_pre = [demo_balance 0 ''t'' 0, demo_balance 1 ''alice'' 60, demo_balance 2 ''alice'' 40],
      px_post = [demo_balance 0 ''t'' 100, demo_balance 1 ''alice'' 0, demo_balance 2 ''alice'' 0]\<rparr>"

definition single_payment :: parsed_transaction where
  "single_payment =
     \<lparr>px_failed = False, px_pre = [demo_balance 0 ''t'' 0, demo_balance 1 ''alice'' 100],
      px_post = [demo_balance 0 ''t'' 100, demo_balance 1 ''alice'' 0]\<rparr>"

lemma fl_close:
  assumes "1 / 2 \<le> x"
  shows "\<bar>fl x - x\<bar> \<le> x / 2 ^ 53"
proof (rule fl_relative_error)
  have "pow2 (- 1022) \<le> pow2 (- 1)" by (rule pow2_mono) simp
  then show "pow2 (- 1022) \<le> x" using assms by (simp add: pow2_def)
qed (use assms in simp)

lemma tolerance_of_100: "60 < fl (100 * TRANSFER_TOLERANCE) \<and> fl (100 * TRANSFER_TOLERANCE) \<le> 100"
proof -
  let ?t = "TRANSFER_TOLERANCE"
  have t: "\<bar>?t - 99 / 100\<bar> \<le> 99 / 100 / 2 ^ 53" unfolding TRANSFER_TOLERANCE_def by (rule fl_close) simp
  moreover have "(99 / 100 / 2 ^ 53 :: rat) \<le> 5 / 1000" by simp
  ultimately have b: "98 / 100 \<le> ?t" "?t \<le> 995 / 1000" by linarith+
  then have "\<bar>fl (100 * ?t) - 100 * ?t\<bar> \<le> 100 * ?t / 2 ^ 53" by (intro fl_close) simp
  moreover have "100 * ?t / 2 ^ 53 \<le> 1 / 2" using b by simp
  ultimately show ?thesis using b by linarith
qed

lemma fl_demo: "fl 100 = 100" "fl 60 = 60" "fl 40 = 40" "fl 100000000 = 100000000"
  using fl_int [of 100] fl_int [of 60] fl_int [of 40] fl_int [of 100000000] by simp_all

lemma demo_transfers:
  "find_transfer ''m'' ''t'' (px_pre split_payment) (px_post split_payment) (px_post split_payment) = (100, [])"
  "find_transfer ''m'' ''t'' (px_pre single_payment) (px_post single_payment) (px_post single_payment) = (100, ''alice'')"
  "kamiyoToCredits 1 100 = 100000000"
  using tolerance_of_100
  by (simp_all add: split_payment_def single_payment_def demo_balance_def ui_amount_def or_text_def kamiyoToCredits_def fl_demo Let_def)

lemma demo_rate: "xc_rate demo_credits_config = 1" "\<not> isDepositProcessed tx no_credits" "getCreditBalance w no_credits = 0"
  by (simp_all add: demo_credits_config_def isDepositProcessed_def no_credits_def getCreditBalance_def getCreditAccount_def)


theorem unattributed_deposit_is_anyones_witness:
  "\<exists>bal s'. deposit_credit demo_credits_config 9 (Inr (Some split_payment)) True ''mallory'' ''tx9'' no_credits =
       (DepositAnswer 100 (creditsToUsd 100000000) bal, s') \<and> getCreditBalance ''mallory'' s' = 100000000"
proof -
  have "\<not> px_failed split_payment" by (simp add: split_payment_def)
  then show ?thesis
    using unattributed_deposit_is_anyones [of "Inr (Some split_payment)" split_payment demo_credits_config 100 "''tx9''"
        no_credits 9 "''mallory''"] demo_transfers
    by (simp add: demo_credits_settings or_text_def demo_rate)
qed

end
