(* ===== verification/Kizuna_Repay.thy ===== *)
theory Kizuna_Repay
  imports Kizuna_Routes Prepaid_Routes
begin

text \<open>
  \<open>POST /accounts/:agentId/repay\<close> of \<open>routes/kizuna.ts\<close> and its client of the credits service
  (\<open>services/kizuna-credits.ts\<close>): prepaid credits are debited at the other service, then the debts are paid down with what was
  debited.
\<close>

section \<open>The credits client\<close>

text \<open>\<open>String(v)\<close>.\<close>

fun js_String :: "json \<Rightarrow> string" where
  "js_String JNull = ''null''"
| "js_String (JBool b) = (if b then ''true'' else ''false'')"
| "js_String (JNum n) = js_number_text n"
| "js_String (JStr t) = t"
| "js_String (JArr vs) = js_join CHR '','' (map (\<lambda>v. if v = JNull then [] else js_String v) vs)"
| "js_String (JObj ob) = ''[object Object]''"

text \<open>\<open>typeof v === 'number' ? String(v) : String(v || '0')\<close>, and \<open>v || fallback\<close> inside a template.\<close>

definition micro_text :: "json option \<Rightarrow> string" where
  "micro_text v = (case v of Some (JNum n) \<Rightarrow> js_number_text n | Some x \<Rightarrow> if falsy v then ''0'' else js_String x | None \<Rightarrow> ''0'')"

definition text_or :: "json option \<Rightarrow> string \<Rightarrow> string" where
  "text_or v fallback = (case v of Some x \<Rightarrow> if falsy v then fallback else js_String x | None \<Rightarrow> fallback)"

record credits_debit =
  kd_debitedMicro :: string
  kd_balanceMicro :: string
  kd_idempotent :: bool

definition debitKizunaCredits :: "kernel_answer \<Rightarrow> string + credits_debit" where
  "debitKizunaCredits answer =
     (case answer of
        KernelUnreachable msg \<Rightarrow> Inl msg
      | KernelStatus status body \<Rightarrow>
          (let err = asRecord (jget_opt (asRecord body) ''error'') in
           Inl (''credits_debit_failed:'' @ text_or (jget_opt err ''code'') (''HTTP_'' @ nat_text status) @ '':'' @
                text_or (jget_opt err ''message'') (''HTTP '' @ nat_text status)))
      | KernelBody body \<Rightarrow>
          (let field = jget_opt (asRecord body) in
           Inr \<lparr>kd_debitedMicro = micro_text (field ''debitedMicro''), kd_balanceMicro = micro_text (field ''balanceMicro''),
                kd_idempotent = (\<not> falsy (field ''idempotent''))\<rparr>))"

text \<open>A body of \<open>null\<close>, and one that is not JSON, are rejected before the amount is read.\<close>

definition getKizunaCreditsBalance :: "kernel_answer \<Rightarrow> string + int" where
  "getKizunaCreditsBalance answer =
     (case answer of
        KernelUnreachable msg \<Rightarrow> Inl msg
      | KernelStatus status body \<Rightarrow>
          Inl (''credits_balance_failed:'' @
            (case jget_opt (asRecord (jget_opt (asRecord body) ''error'')) ''message'' of
               Some (JStr msg) \<Rightarrow> msg
             | _ \<Rightarrow> ''HTTP '' @ nat_text status))
      | KernelBody body \<Rightarrow>
          (case body of
             None \<Rightarrow> Inl ''invalid json''
           | Some JNull \<Rightarrow> Inl ''Cannot read properties of null''
           | Some v \<Rightarrow>
               (case BigInt_of_string (micro_text (jget_opt (asRecord (Some v)) ''balanceMicro'')) of
                  None \<Rightarrow> Inl ''Cannot convert to a BigInt''
                | Some n \<Rightarrow> Inr n)))"

section \<open>The route\<close>

text \<open>The last \<open>catch\<close> of the handler.\<close>

definition repay_failed :: "string \<Rightarrow> kizuna_prog" where
  "repay_failed msg =
     sendError (if js_includes msg ''INSUFFICIENT_BALANCE'' \<or> js_includes msg ''insufficient'' then 409 else 502) msg"

record repay_request =
  ry_agentId :: string
  ry_referenceId :: string
  ry_requestedMicro :: int
  ry_lane :: lane
  ry_poolId :: string

definition repay_request_of :: "kizuna_config \<Rightarrow> string \<Rightarrow> json_object option \<Rightarrow> kizuna_prog + repay_request" where
  "repay_request_of kc agentIdParam body =
     (let agentId = js_trim agentIdParam; field = jget_opt body; referenceId = field_text (field ''referenceId'') in
      case parseLane (field ''lane'') of
        None \<Rightarrow> Inl (sendError 400 ''lane must be enterprise or crypto-fast'')
      | Some l \<Rightarrow>
          (case parsePositiveMicro (field ''amountMicro'') of
             None \<Rightarrow> Inl (sendError 400 ''agentId, amountMicro, and referenceId are required'')
           | Some n \<Rightarrow>
               if agentId = [] \<or> referenceId = []
               then Inl (sendError 400 ''agentId, amountMicro, and referenceId are required'')
               else if field_text (field ''source'') \<noteq> ''credits'' then Inl (sendError 400 ''Only source=credits is supported'')
               else Inr \<lparr>ry_agentId = agentId, ry_referenceId = referenceId, ry_requestedMicro = n, ry_lane = l,
                         ry_poolId = resolvePoolId (credit_config.truncate kc) l (field ''poolId'')\<rparr>))"

definition repay_params_of :: "repay_request \<Rightarrow> int \<Rightarrow> repay_params" where
  "repay_params_of q amount =
     \<lparr>rq_agentId = ry_agentId q, rq_amountMicro = amount, rq_referenceId = ry_referenceId q,
      rq_lane = Some (ry_lane q), rq_poolId = Some (ry_poolId q)\<rparr>"

text \<open>The kernel is told; that it is not reached does not fail the request.\<close>

definition repay_ingest :: "kizuna_config \<Rightarrow> repay_request \<Rightarrow> credits_debit \<Rightarrow> repay_result \<Rightarrow> kizuna_prog" where
  "repay_ingest kc q debit res =
     (let applied = numeric_text (rp_applied_micro (rr_repayment res)) in
      Call (IngestRepayment (ry_agentId q) (ry_lane q) (ry_poolId q) (ry_referenceId q) (kd_debitedMicro debit) applied) (\<lambda>x.
        Reply (Repaid
          \<lparr>rw_idempotent = (kd_idempotent debit \<or> rr_idempotent res), rw_debitedMicro = kd_debitedMicro debit,
           rw_appliedMicro = applied, rw_outstandingMicro = rr_outstandingMicro res, rw_balanceMicro = kd_balanceMicro debit,
           rw_referenceId = ry_referenceId q, rw_lane = ry_lane q, rw_poolId = ry_poolId q,
           rw_kernelIngestError =
             (case kernelFetch (cc_kernelConfigured kc) (kz_ingest x) of Inl msg \<Rightarrow> Some msg | Inr _ \<Rightarrow> None)\<rparr>)))"

text \<open>
  The amount that was debited is a decimal text in every answer of the credits service; a text that is not one is
  taken as a value that the database refuses.
\<close>

definition repay_debited :: "kizuna_config \<Rightarrow> repay_request \<Rightarrow> string + credits_debit \<Rightarrow> kizuna_prog" where
  "repay_debited kc q r =
     (case r of
        Inl msg \<Rightarrow> repay_failed msg
      | Inr debit \<Rightarrow>
          (case decimal_value (kd_debitedMicro debit) of
             None \<Rightarrow> repay_failed ''query failed''
           | Some amount \<Rightarrow>
               await (\<lambda>e _. applyKizunaRepayment e (repay_params_of q amount))
                 (catching (repay_failed \<circ> error_text) (repay_ingest kc q debit))))"

definition repay_debit :: "kizuna_config \<Rightarrow> repay_request \<Rightarrow> kizuna_account \<Rightarrow> int \<Rightarrow> kizuna_prog" where
  "repay_debit kc q account outstandingMicro =
     (if outstandingMicro \<le> 0 then Reply (NothingToRepay (ry_referenceId q))
      else Call (DebitCredits (a_repay_wallet account) (numeric_text (min (ry_requestedMicro q) outstandingMicro)) (ry_referenceId q))
             (\<lambda>x. repay_debited kc q (debitKizunaCredits (kz_debit x))))"

definition post_repay :: "kizuna_config \<Rightarrow> string \<Rightarrow> json option \<Rightarrow> kizuna_prog" where
  "post_repay kc agentIdParam body =
     when_enabled kc
       (case repay_request_of kc agentIdParam (asRecord body) of
          Inl refused \<Rightarrow> refused
        | Inr q \<Rightarrow>
            await_read (getKizunaAccount (ry_agentId q)) (catching uncaught (\<lambda>account.
              case account of
                None \<Rightarrow> sendError 404 ''Kizuna account not found''
              | Some acc \<Rightarrow>
                  await_read (getKizunaOutstandingMicro (ry_agentId q) (Some (ry_lane q)) (Some (ry_poolId q)))
                    (catching uncaught (repay_debit kc q acc)))))"

end
