(* ===== verification/Repay_System.thy ===== *)
theory Repay_System
  imports Kizuna_Repay
begin

text \<open>
  Repayment requests, the ledger they pay down and the credits service they debit, as one system: what is paid down was
  debited, and where the two services disagree on what a reference names.
\<close>

section \<open>Between the services\<close>

text \<open>\<open>JSON.stringify\<close> of the request and of the answer; \<open>String\<close> of an integer below \<open>10 ^ 21\<close> is its digits.\<close>

definition debit_body :: "string \<Rightarrow> string \<Rightarrow> string \<Rightarrow> json" where
  "debit_body wallet amountMicro referenceId =
     JObj [(''wallet'', JStr wallet), (''amountMicro'', JStr amountMicro), (''endpoint'', JStr ''kizuna-repay''),
           (''referenceId'', JStr referenceId), (''description'', JStr ''Kizuna debt repayment'')]"

definition debit_http :: "credits_answer \<Rightarrow> kernel_answer" where
  "debit_http answer =
     (case answer of
        CreditsError status code msg \<Rightarrow>
          KernelStatus status (Some (JObj [(''error'', JObj [(''code'', JStr code), (''message'', JStr msg)])]))
      | DebitAnswer wallet r \<Rightarrow>
          KernelBody (Some (JObj [(''wallet'', JStr wallet), (''debitedMicro'', JStr (numeric_text (br_debitedMicro r))),
            (''balanceMicro'', JStr (numeric_text (br_balanceMicro r))), (''idempotent'', JBool (br_idempotent r))]))
      | InternalBalance wallet n \<Rightarrow>
          KernelBody (Some (JObj [(''wallet'', JStr wallet), (''balanceMicro'', JStr (numeric_text n))]))
      | _ \<Rightarrow> KernelBody (Some (JObj [])))"

definition serve_debit ::
  "kizuna_config \<Rightarrow> credits_config \<Rightarrow> int \<Rightarrow> string \<Rightarrow> string \<Rightarrow> string \<Rightarrow> credits_db \<Rightarrow> kernel_answer \<times> credits_db" where
  "serve_debit kc xc now wallet amountMicro referenceId cs =
     map_prod debit_http id
       (post_internal_debit xc now (Some (''Bearer '' @ kc_KIZUNA_INTERNAL_TOKEN kc))
          (Some (debit_body wallet amountMicro referenceId)) cs)"

text \<open>A request that stands at its debit, served by the credits service.\<close>

definition serve_call ::
  "kizuna_config \<Rightarrow> credits_config \<Rightarrow> int \<Rightarrow> kizuna_services \<Rightarrow> kizuna_prog \<Rightarrow> credits_db \<Rightarrow> kizuna_prog \<times> credits_db" where
  "serve_call kc xc now x p cs =
     (case p of
        Call (DebitCredits wallet amountMicro referenceId) k \<Rightarrow>
          (let out = serve_debit kc xc now wallet amountMicro referenceId cs in (k (x\<lparr>kz_debit := fst out\<rparr>), snd out))
      | _ \<Rightarrow> (p, cs))"

section \<open>What the two services make of a debit\<close>

definition services_agree :: "kizuna_config \<Rightarrow> credits_config \<Rightarrow> bool" where
  "services_agree kc xc =
     (INTERNAL_TOKEN xc \<noteq> [] \<and> js_trim (kc_KIZUNA_INTERNAL_TOKEN kc) = INTERNAL_TOKEN xc)"

definition repay_debit_params :: "string \<Rightarrow> int \<Rightarrow> string \<Rightarrow> debit_params" where
  "repay_debit_params wallet amount referenceId =
     \<lparr>bp_wallet = wallet, bp_amountMicro = amount, bp_endpoint = ''kizuna-repay'', bp_referenceId = referenceId,
      bp_description = Some ''Kizuna debt repayment''\<rparr>"

lemma debit_texts:
  "asString (Some (JStr ''kizuna-repay'')) = Some ''kizuna-repay''"
  "asString (Some (JStr ''Kizuna debt repayment'')) = Some ''Kizuna debt repayment''"
  "js_trim ''kizuna-repay'' = ''kizuna-repay''"
  by (simp_all add: asString_JStr js_trim_id js_space_def)

lemma debit_request_of_body:
  assumes "isValidSolanaAddress xc wallet" and "js_trim wallet = wallet" and "wallet \<noteq> []"
    and "js_trim ref = ref" and "ref \<noteq> []" and "0 < n" and "n \<le> 9007199254740991"
  shows "debit_request xc (asRecord (Some (debit_body wallet (numeric_text n) ref))) = Inr (repay_debit_params wallet n ref)"
  using assms
  by (simp add: debit_request_def debit_body_def asRecord_def jget_opt_def jget_def trimmed_text_def asString_JStr [of wallet]
      asString_JStr [of ref] debit_texts or_text_def parsePositiveInteger_numeric repay_debit_params_def Let_def)

lemma serve_debit_runs:
  assumes "services_agree kc xc"
    and "debit_request xc (asRecord (Some (debit_body wallet amt ref))) = Inr p"
  shows "serve_debit kc xc now wallet amt ref cs = map_prod debit_http id (internal_debit now p cs)"
  using assms by (simp add: serve_debit_def post_internal_debit_def requireCreditsToken_def services_agree_def)

lemma debit_client:
  "code \<noteq> [] \<Longrightarrow> msg \<noteq> [] \<Longrightarrow>
   debitKizunaCredits (debit_http (CreditsError status code msg)) = Inl (''credits_debit_failed:'' @ code @ '':'' @ msg)"
  "debitKizunaCredits (debit_http (DebitAnswer wallet r)) =
     Inr \<lparr>kd_debitedMicro = numeric_text (br_debitedMicro r), kd_balanceMicro = numeric_text (br_balanceMicro r),
          kd_idempotent = br_idempotent r\<rparr>"
  by (simp_all add: debitKizunaCredits_def debit_http_def asRecord_def jget_opt_def jget_def text_or_def micro_text_def
      falsy_def Let_def)

text \<open>The four outcomes of a well-formed debit, as the client sees them.\<close>

lemma internal_debit_outcomes:
  fixes p :: debit_params
  shows "getCreditInternalDebit (bp_referenceId p) cs = Some b \<Longrightarrow> debit_matches p b \<Longrightarrow>
      internal_debit now p cs =
        (DebitAnswer (bp_wallet p) \<lparr>br_debitedMicro = ix_debited_micro b, br_balanceMicro = ix_balance_after_micro b,
           br_idempotent = True\<rparr>, cs)"
    and "getCreditInternalDebit (bp_referenceId p) cs = Some b \<Longrightarrow> \<not> debit_matches p b \<Longrightarrow>
      internal_debit now p cs =
        (CreditsError 409 ''REFERENCE_CONFLICT'' ''referenceId already exists for a different debit request'', cs)"
    and "getCreditInternalDebit (bp_referenceId p) cs = None \<Longrightarrow> getCreditBalance (bp_wallet p) cs < bp_amountMicro p \<Longrightarrow>
      internal_debit now p cs =
        (CreditsError 402 ''INSUFFICIENT_CREDITS'' ''Insufficient balance for debit request'', cs)"
    and "getCreditInternalDebit (bp_referenceId p) cs = None \<Longrightarrow> 0 < bp_amountMicro p \<Longrightarrow>
      bp_amountMicro p \<le> getCreditBalance (bp_wallet p) cs \<Longrightarrow>
      \<exists>cs'. internal_debit now p cs =
        (DebitAnswer (bp_wallet p) \<lparr>br_debitedMicro = bp_amountMicro p,
           br_balanceMicro = getCreditBalance (bp_wallet p) cs - bp_amountMicro p, br_idempotent = False\<rparr>, cs')
        \<and> getCreditBalance (bp_wallet p) cs' = getCreditBalance (bp_wallet p) cs - bp_amountMicro p
        \<and> (\<exists>b. getCreditInternalDebit (bp_referenceId p) cs' = Some b \<and> debit_matches p b \<and> ix_debited_micro b = bp_amountMicro p)"
proof -
  show "internal_debit now p cs =
        (CreditsError 402 ''INSUFFICIENT_CREDITS'' ''Insufficient balance for debit request'', cs)"
    if "getCreditInternalDebit (bp_referenceId p) cs = None" "getCreditBalance (bp_wallet p) cs < bp_amountMicro p"
    using that by (simp add: internal_debit_def debitCreditsInternal_def debit_answer_def getCreditBalance_def
        split: option.splits)
  assume fresh: "getCreditInternalDebit (bp_referenceId p) cs = None"
    and "0 < bp_amountMicro p" "bp_amountMicro p \<le> getCreditBalance (bp_wallet p) cs"
  then obtain a where acc: "getCreditAccount (bp_wallet p) cs = Some a"
    by (cases "getCreditAccount (bp_wallet p) cs") (simp_all add: getCreditBalance_def)
  then have a: "getCreditAccount (bp_wallet p) cs = Some a" "bp_amountMicro p \<le> cx_balance_micro a"
    "getCreditBalance (bp_wallet p) cs = cx_balance_micro a"
    using \<open>bp_amountMicro p \<le> getCreditBalance (bp_wallet p) cs\<close> by (simp_all add: getCreditBalance_def)
  let ?r = "\<lparr>br_debitedMicro = bp_amountMicro p, br_balanceMicro = cx_balance_micro a - bp_amountMicro p, br_idempotent = False\<rparr>"
  obtain cs' where run: "debitCreditsInternal now p cs = Inr (Some ?r, cs')"
    using fresh a by (simp add: debitCreditsInternal_def insert_usage_def Let_def)
  then have "internal_debit now p cs = (DebitAnswer (bp_wallet p) ?r, cs')"
    using fresh by (simp add: internal_debit_def debit_answer_def)
  moreover have "getCreditBalance (bp_wallet p) cs' = cx_balance_micro a - bp_amountMicro p
      \<and> (\<exists>b. getCreditInternalDebit (bp_referenceId p) cs' = Some b \<and> debit_matches p b \<and> ix_debited_micro b = bp_amountMicro p)"
    using run
  proof (cases rule: debit_cases)
    case (paid a')
    have "a' = a" using paid(2) a(1) by (simp add: getCreditAccount_def)
    then show ?thesis using fresh unfolding paid(4)
      by (simp add: getCreditBalance_def getCreditAccount_def spend_def getCreditInternalDebit_def find_append
          debit_row_def debit_matches_def)
  qed (use fresh in simp_all)
  ultimately show "\<exists>cs'. internal_debit now p cs =
        (DebitAnswer (bp_wallet p) \<lparr>br_debitedMicro = bp_amountMicro p,
           br_balanceMicro = getCreditBalance (bp_wallet p) cs - bp_amountMicro p, br_idempotent = False\<rparr>, cs')
        \<and> getCreditBalance (bp_wallet p) cs' = getCreditBalance (bp_wallet p) cs - bp_amountMicro p
        \<and> (\<exists>b. getCreditInternalDebit (bp_referenceId p) cs' = Some b \<and> debit_matches p b \<and> ix_debited_micro b = bp_amountMicro p)"
    using a(3) by auto
qed (simp_all add: internal_debit_def debit_replay debit_answer_def)

text \<open>A request at its debit: what it asks for, and what it goes on with.\<close>

definition repay_amount :: "repay_request \<Rightarrow> int \<Rightarrow> int" where
  "repay_amount q outstanding = min (ry_requestedMicro q) outstanding"

definition repay_well_formed :: "kizuna_config \<Rightarrow> credits_config \<Rightarrow> repay_request \<Rightarrow> kizuna_account \<Rightarrow> int \<Rightarrow> bool" where
  "repay_well_formed kc xc q acc outstanding =
     (services_agree kc xc \<and> isValidSolanaAddress xc (a_repay_wallet acc) \<and> js_trim (a_repay_wallet acc) = a_repay_wallet acc
      \<and> js_trim (ry_referenceId q) = ry_referenceId q \<and> ry_referenceId q \<noteq> []
      \<and> 0 < repay_amount q outstanding \<and> repay_amount q outstanding \<le> 9007199254740991)"

definition repay_asks :: "repay_request \<Rightarrow> kizuna_account \<Rightarrow> int \<Rightarrow> debit_params" where
  "repay_asks q acc outstanding = repay_debit_params (a_repay_wallet acc) (repay_amount q outstanding) (ry_referenceId q)"

lemma repay_asks_fields [simp]:
  "bp_wallet (repay_asks q acc out) = a_repay_wallet acc" "bp_amountMicro (repay_asks q acc out) = repay_amount q out"
  "bp_referenceId (repay_asks q acc out) = ry_referenceId q" "bp_endpoint (repay_asks q acc out) = ''kizuna-repay''"
  by (simp_all add: repay_asks_def repay_debit_params_def)

lemma repay_call_runs:
  assumes "repay_well_formed kc xc q acc out"
  shows "serve_call kc xc now x (repay_debit kc q acc out) cs =
     (let r = internal_debit now (repay_asks q acc out) cs in
      (repay_debited kc q (debitKizunaCredits (debit_http (fst r))), snd r))"
proof -
  have "debit_request xc (asRecord (Some (debit_body (a_repay_wallet acc) (numeric_text (repay_amount q out)) (ry_referenceId q))))
      = Inr (repay_asks q acc out)"
    unfolding repay_asks_def
    by (rule debit_request_of_body) (use assms in \<open>auto simp: repay_well_formed_def isValidSolanaAddress_def\<close>)
  moreover have "services_agree kc xc" "0 < out" using assms by (auto simp: repay_well_formed_def repay_amount_def)
  ultimately show ?thesis
    using serve_debit_runs [of kc xc "a_repay_wallet acc" "numeric_text (repay_amount q out)" "ry_referenceId q"
        "repay_asks q acc out" now cs]
    by (simp add: serve_call_def repay_debit_def repay_amount_def Let_def)
qed

lemma decimal_numeric [simp]: "0 \<le> n \<Longrightarrow> decimal_value (numeric_text n) = Some n"
  by (simp add: decimal_value_def numeric_text_def)

section \<open>One reference, one debit\<close>

lemma debit_stays:
  assumes "(credits_step rate)\<^sup>*\<^sup>* s s'" and "getCreditInternalDebit ref s = Some b"
  shows "getCreditInternalDebit ref s' = Some b"
  using assms
proof (induction rule: rtranclp_induct)
  case (step t u)
  with debits_kept [OF step(2)] show ?case by (auto simp: getCreditInternalDebit_def find_append)
qed simp

lemma fresh_call:
  assumes wf: "repay_well_formed kc xc q acc out"
    and fresh: "getCreditInternalDebit (ry_referenceId q) cs = None"
    and enough: "repay_amount q out \<le> getCreditBalance (a_repay_wallet acc) cs"
  obtains debit cs' b where "serve_call kc xc now x (repay_debit kc q acc out) cs = (repay_debited kc q (Inr debit), cs')"
    "decimal_value (kd_debitedMicro debit) = Some (repay_amount q out)" "\<not> kd_idempotent debit"
    "getCreditBalance (a_repay_wallet acc) cs' = getCreditBalance (a_repay_wallet acc) cs - repay_amount q out"
    "getCreditInternalDebit (ry_referenceId q) cs' = Some b" "debit_matches (repay_asks q acc out) b"
    "ix_debited_micro b = repay_amount q out"
proof -
  have pos: "0 < repay_amount q out" using wf by (simp add: repay_well_formed_def)
  let ?n = "repay_amount q out" and ?bal = "getCreditBalance (a_repay_wallet acc) cs"
  obtain cs' b where run: "internal_debit now (repay_asks q acc out) cs =
        (DebitAnswer (a_repay_wallet acc) \<lparr>br_debitedMicro = ?n, br_balanceMicro = ?bal - ?n, br_idempotent = False\<rparr>, cs')"
    and cs': "getCreditBalance (a_repay_wallet acc) cs' = ?bal - ?n" "getCreditInternalDebit (ry_referenceId q) cs' = Some b"
      "debit_matches (repay_asks q acc out) b" "ix_debited_micro b = ?n"
    using internal_debit_outcomes(4) [of "repay_asks q acc out" cs now] fresh enough pos by auto
  let ?d = "\<lparr>kd_debitedMicro = numeric_text ?n, kd_balanceMicro = numeric_text (?bal - ?n), kd_idempotent = False\<rparr>"
  have "serve_call kc xc now x (repay_debit kc q acc out) cs = (repay_debited kc q (Inr ?d), cs')"
    using repay_call_runs [OF wf, of now x cs] by (simp add: run debit_client(2))
  then show thesis by (rule that) (use cs' pos in simp_all)
qed

lemma replayed_call:
  assumes wf: "repay_well_formed kc xc q acc out"
    and found: "getCreditInternalDebit (ry_referenceId q) cs = Some b" "debit_matches (repay_asks q acc out) b"
      "ix_debited_micro b = repay_amount q out"
  obtains debit where "serve_call kc xc now x (repay_debit kc q acc out) cs = (repay_debited kc q (Inr debit), cs)"
    "decimal_value (kd_debitedMicro debit) = Some (repay_amount q out)" "kd_idempotent debit"
proof -
  let ?d = "\<lparr>kd_debitedMicro = numeric_text (repay_amount q out), kd_balanceMicro = numeric_text (ix_balance_after_micro b),
             kd_idempotent = True\<rparr>"
  have "serve_call kc xc now x (repay_debit kc q acc out) cs = (repay_debited kc q (Inr ?d), cs)"
    using repay_call_runs [OF wf, of now x cs] internal_debit_outcomes(1) [of "repay_asks q acc out" cs b now] found
    by (simp add: debit_client(2))
  then show thesis by (rule that) (use wf in \<open>simp_all add: repay_well_formed_def\<close>)
qed

lemma conflicting_call:
  assumes wf: "repay_well_formed kc xc q acc out"
    and found: "getCreditInternalDebit (ry_referenceId q) cs = Some b" "\<not> debit_matches (repay_asks q acc out) b"
  shows "serve_call kc xc now x (repay_debit kc q acc out) cs =
     (repay_failed ''credits_debit_failed:REFERENCE_CONFLICT:referenceId already exists for a different debit request'', cs)"
  using repay_call_runs [OF wf, of now x cs] internal_debit_outcomes(2) [of "repay_asks q acc out" cs b now] found
  by (simp add: debit_client(1) repay_debited_def)

lemma insufficient_call:
  assumes wf: "repay_well_formed kc xc q acc out"
    and "getCreditInternalDebit (ry_referenceId q) cs = None"
    and "getCreditBalance (a_repay_wallet acc) cs < repay_amount q out"
  shows "serve_call kc xc now x (repay_debit kc q acc out) cs =
     (repay_failed ''credits_debit_failed:INSUFFICIENT_CREDITS:Insufficient balance for debit request'', cs)"
  using repay_call_runs [OF wf, of now x cs] internal_debit_outcomes(3) [of "repay_asks q acc out" cs now] assms(2,3)
  by (simp add: debit_client(1) repay_debited_def)

lemma repay_failed_statuses:
  "repay_failed ''credits_debit_failed:REFERENCE_CONFLICT:referenceId already exists for a different debit request'' =
   Reply (KizunaError 502 ''credits_debit_failed:REFERENCE_CONFLICT:referenceId already exists for a different debit request'')"
  "repay_failed ''credits_debit_failed:INSUFFICIENT_CREDITS:Insufficient balance for debit request'' =
   Reply (KizunaError 502 ''credits_debit_failed:INSUFFICIENT_CREDITS:Insufficient balance for debit request'')"
  by (simp_all add: repay_failed_def sendError_def)

lemma outstanding_is_scope:
  assumes "ledger_ok d"
  shows "getKizunaOutstandingMicro (ry_agentId q) (Some (ry_lane q)) (Some (ry_poolId q)) d = scope_outstanding (repay_params_of q n) d"
proof -
  have "0 \<le> scope_outstanding (repay_params_of q n) d"
    unfolding scope_outstanding_def
    by (rule sum_where_nonneg) (use debts_ok_mem [OF ledger_okD(2) [OF assms]] in blast)
  then show ?thesis by (simp add: getKizunaOutstandingMicro_def scope_outstanding_def repay_params_of_def)
qed

lemma repayment_applied:
  assumes "ledger_ok d" and "getKizunaRepaymentByReference (ry_agentId q) (ry_referenceId q) d = None"
    and "applyKizunaRepayment e (repay_params_of q n) d = Inr (res, d')"
    and "n \<le> getKizunaOutstandingMicro (ry_agentId q) (Some (ry_lane q)) (Some (ry_poolId q)) d"
  shows "rp_applied_micro (rr_repayment res) = n \<and> rr_repayment res \<in> set (t_repayments d') \<and> ledger_ok d'"
proof -
  have "repay_new e (repay_params_of q n) d = Inr (res, d')"
    using assms(2,3) by (simp add: applyKizunaRepayment_def repay_params_of_def)
  then show ?thesis
    by (rule repay_new_effect [OF assms(1)])
      (use assms(4) outstanding_is_scope [OF assms(1), of q n] in \<open>auto simp: repayment_row_def repay_params_of_def\<close>)
qed

section \<open>The system\<close>

text \<open>
  Requests run statement by statement among each other.  The answer of the credits service may be lost on the way, after
  the debit or before it; deposits, the use of paid routes and the debits of other services go on; and so does everything
  else that works on the ledger, but for repayments.
\<close>

record repay_system =
  rs_ledger :: db
  rs_credits :: credits_db
  rs_requests :: "kizuna_prog list"

inductive repay_sys_step :: "kizuna_config \<Rightarrow> credits_config \<Rightarrow> repay_system \<Rightarrow> repay_system \<Rightarrow> bool" for kc xc where
  sys_arrival: "repay_sys_step kc xc s (s\<lparr>rs_requests := rs_requests s @ [post_repay kc agentId body]\<rparr>)"
| sys_query: "i < length (rs_requests s) \<Longrightarrow> rs_requests s ! i = Query f \<Longrightarrow>
    repay_sys_step kc xc s (s\<lparr>rs_ledger := snd (f w (rs_ledger s)), rs_requests := (rs_requests s)[i := fst (f w (rs_ledger s))]\<rparr>)"
| sys_debit: "i < length (rs_requests s) \<Longrightarrow> serve_call kc xc now x (rs_requests s ! i) (rs_credits s) = (p, c) \<Longrightarrow>
    repay_sys_step kc xc s (s\<lparr>rs_credits := c, rs_requests := (rs_requests s)[i := p]\<rparr>)"
| sys_call_failed: "i < length (rs_requests s) \<Longrightarrow> rs_requests s ! i = Call q k \<Longrightarrow> debitKizunaCredits (kz_debit x) = Inl msg \<Longrightarrow>
    repay_sys_step kc xc s (s\<lparr>rs_requests := (rs_requests s)[i := k x]\<rparr>)"
| sys_answer_lost: "i < length (rs_requests s) \<Longrightarrow> rs_requests s ! i = Call q k \<Longrightarrow> debitKizunaCredits (kz_debit x) = Inl msg \<Longrightarrow>
    serve_call kc xc now x' (rs_requests s ! i) (rs_credits s) = (p, c) \<Longrightarrow>
    repay_sys_step kc xc s (s\<lparr>rs_credits := c, rs_requests := (rs_requests s)[i := k x]\<rparr>)"
| sys_other_call: "i < length (rs_requests s) \<Longrightarrow> rs_requests s ! i = Call q k \<Longrightarrow> (\<nexists>w a ref. q = DebitCredits w a ref) \<Longrightarrow>
    repay_sys_step kc xc s (s\<lparr>rs_requests := (rs_requests s)[i := k x]\<rparr>)"
| sys_credits: "credits_step (xc_rate xc) (rs_credits s) c \<Longrightarrow> repay_sys_step kc xc s (s\<lparr>rs_credits := c\<rparr>)"
| sys_ledger: "ledger_step (rs_ledger s) d \<Longrightarrow> t_repayments d = t_repayments (rs_ledger s) \<Longrightarrow>
    repay_sys_step kc xc s (s\<lparr>rs_ledger := d\<rparr>)"

definition repay_sys_start :: "repay_system \<Rightarrow> bool" where
  "repay_sys_start s = (rs_credits s = no_credits \<and> rs_requests s = [] \<and> t_repayments (rs_ledger s) = [])"

text \<open>A repayment and the debit behind it, and what the answer to a debit tells.\<close>

definition backed :: "internal_debit set \<Rightarrow> kizuna_repayment \<Rightarrow> bool" where
  "backed D r =
     (\<exists>b \<in> D. ix_reference_id b = rp_reference_id r \<and> ix_endpoint b = ''kizuna-repay'' \<and> ix_debited_micro b = rp_amount_micro r)"

definition debit_told :: "kizuna_call \<Rightarrow> kizuna_services \<Rightarrow> internal_debit set \<Rightarrow> bool" where
  "debit_told c x D =
     (\<forall>wallet amount ref debit. c = DebitCredits wallet amount ref \<longrightarrow> debitKizunaCredits (kz_debit x) = Inr debit \<longrightarrow>
       (\<exists>b \<in> D. ix_reference_id b = js_trim ref \<and> ix_endpoint b = ''kizuna-repay''
          \<and> decimal_value (kd_debitedMicro debit) = Some (ix_debited_micro b)))"

text \<open>A request that records a repayment only with a debit behind it.\<close>

primrec repays_with :: "kizuna_prog \<Rightarrow> internal_debit set \<Rightarrow> bool" where
  "repays_with (Reply r) = (\<lambda>D. True)"
| "repays_with (Query f) = (\<lambda>D. \<forall>w d. let out = map_prod repays_with id (f w d) in
     (\<forall>r \<in> set (t_repayments (snd out)). r \<in> set (t_repayments d) \<or> backed D r) \<and> fst out D)"
| "repays_with (Call c k) = (\<lambda>D. \<forall>x D'. D \<subseteq> D' \<longrightarrow> debit_told c x D' \<longrightarrow> repays_with (k x) D')"

lemma backed_mono: "backed D r \<Longrightarrow> D \<subseteq> D' \<Longrightarrow> backed D' r"
  by (auto simp: backed_def)

lemma repays_with_mono: "repays_with p D \<Longrightarrow> D \<subseteq> D' \<Longrightarrow> repays_with p D'"
proof (induction p rule: prog_induct)
  case (Query f)
  then show ?case by (fastforce simp: Let_def intro: backed_mono)
next
  case (Call c k)
  then show ?case by auto
qed simp

lemma js_trim_Nil: "js_trim [] = []"
  by (simp add: js_trim_def)

lemma field_text_trim: "js_trim (field_text v) = field_text v"
  by (auto simp: field_text_def or_text_def asString_def js_trim_trimmed js_trim_Nil split: option.splits json.splits)

lemma repay_loop_repayments: "repay_loop e rows acc s = Inr (acc', s') \<Longrightarrow> t_repayments s' = t_repayments s"
proof (induction rows arbitrary: acc s)
  case (Cons debt rows)
  from Cons.prems show ?case
    by (auto simp: Let_def thenT_success set_debt_def split: if_splits dest!: Cons.IH)
qed simp

lemma bump_outstanding_repayments: "bump_outstanding e ds s = Inr (u, s') \<Longrightarrow> t_repayments s' = t_repayments s"
proof (induction e ds arbitrary: s rule: bump_outstanding.induct)
  case (2 e l pool amount ds)
  from 2(2) obtain s1 where s1: "bumpKizunaPoolReserve e pool l 0 (- amount) 0 s = Inr ((), s1)"
    and rest: "bump_outstanding e ds s1 = Inr (u, s')" by (auto simp: thenT_success)
  from 2(1) [OF rest] bump_success [OF s1] show ?case by simp
qed simp

lemma repayment_rows:
  assumes "applyKizunaRepayment e p s = Inr (res, s')" and "r \<in> set (t_repayments s')" and "r \<notin> set (t_repayments s)"
  shows "rp_reference_id r = rq_referenceId p \<and> rp_amount_micro r = rq_amountMicro p"
proof -
  have "repay_new e p s = Inr (res, s')"
    using assms by (auto simp: applyKizunaRepayment_def split: option.splits)
  then obtain acc s1 s2 s3 where
    st: "repay_loop e (open_debts p s) (repay_start p) s = Inr (acc, s1)"
      "bump_outstanding e (ra_deltas acc) s1 = Inr ((), s2)"
      "insert_repayment (repayment_row e p acc) s2 = Inr ((), s3)"
      "queue_repayment_event e p (repayment_row e p acc) acc s3 = Inr ((), s')"
    by (rule repay_new_stages)
  have "t_repayments s' = t_repayments s @ [repayment_row e p acc]"
    using repay_loop_repayments [OF st(1)] bump_outstanding_repayments [OF st(2)] insert_repayment_success(1) [OF st(3)]
      queue_repayment_event_success [OF st(4)] by auto
  with assms(2,3) show ?thesis by (auto simp: repayment_row_def)
qed

section \<open>A repayment request records only what was debited\<close>

lemma repays_Reply [simp]:
  "repays_with (sendError status msg) D" "repays_with (repay_failed msg) D" "repays_with (uncaught err) D"
  by (simp_all add: sendError_def repay_failed_def uncaught_def errorHandler_def)

lemma repays_read: "(\<And>r. repays_with (k r) D) \<Longrightarrow> repays_with (await_read f k) D"
  by (auto simp: await_read_def await_def run_query_def withTransaction_def Let_def)

lemma repays_debited:
  assumes "debit_told (DebitCredits wallet amount (ry_referenceId q)) x D" and "js_trim (ry_referenceId q) = ry_referenceId q"
  shows "repays_with (repay_debited kc q (debitKizunaCredits (kz_debit x))) D"
proof (cases "debitKizunaCredits (kz_debit x)")
  case (Inr debit)
  then obtain b where b: "b \<in> D" "ix_reference_id b = ry_referenceId q" "ix_endpoint b = ''kizuna-repay''"
    "decimal_value (kd_debitedMicro debit) = Some (ix_debited_micro b)"
    using assms by (auto simp: debit_told_def)
  let ?p = "repay_params_of q (ix_debited_micro b)"
  have row: "backed D r" if "applyKizunaRepayment e ?p d = Inr (res, d')" "r \<in> set (t_repayments d')" "r \<notin> set (t_repayments d)"
    for e d res d' r
    using repayment_rows [OF that] b(1-3) by (auto simp: backed_def repay_params_of_def)
  have k: "repays_with (catching (repay_failed \<circ> error_text) (repay_ingest kc q debit) r) D" for r
    by (cases r) (simp_all add: repay_ingest_def Let_def)
  have "(\<forall>r \<in> set (t_repayments d'). r \<in> set (t_repayments d) \<or> backed D r)"
    if "run_query w (applyKizunaRepayment (qw_env w) ?p) d = (r', d')" for w d r' d'
    using that row [of "qw_env w" d _ d'] by (cases r') (auto simp: run_query_success dest: run_query_failure)
  then show ?thesis
    using k by (auto simp: repay_debited_def Inr b(4) await_def Let_def split: prod.split) (metis surj_pair snd_conv fst_conv)+
qed (simp add: repay_debited_def)

lemma post_repay_repays: "repays_with (post_repay kc agentId body) D"
proof -
  have "js_trim (ry_referenceId q) = ry_referenceId q" if "repay_request_of kc agentId (asRecord body) = Inr q" for q
    using that by (auto simp: repay_request_of_def Let_def field_text_trim split: option.splits if_splits)
  moreover have "repays_with p D" if "repay_request_of kc agentId (asRecord body) = Inl p" for p
    using that by (auto simp: repay_request_of_def Let_def split: option.splits if_splits)
  moreover have "repays_with (catching uncaught (repay_debit kc q acc) out) D" if "js_trim (ry_referenceId q) = ry_referenceId q" for q acc out
    using that by (cases out) (auto simp: repay_debit_def intro: repays_debited)
  ultimately show ?thesis
    by (auto simp: post_repay_def when_enabled_def catching_def intro!: repays_read split: sum.split option.split)
qed

lemma trimmed_text_JStr: "trimmed_text (Some (JStr t)) = js_trim t"
  by (simp add: trimmed_text_def asString_JStr or_text_def)

lemma serve_debitE:
  assumes "serve_debit kc xc now wallet amount ref cs = (answer, cs')"
  obtains a where "post_internal_debit xc now (Some (''Bearer '' @ kc_KIZUNA_INTERNAL_TOKEN kc))
      (Some (debit_body wallet amount ref)) cs = (a, cs')" "answer = debit_http a"
proof (cases "post_internal_debit xc now (Some (''Bearer '' @ kc_KIZUNA_INTERNAL_TOKEN kc)) (Some (debit_body wallet amount ref)) cs")
  case (Pair a c)
  with assms have "c = cs'" "answer = debit_http a" by (simp_all only: serve_debit_def map_prod_simp id_apply prod.inject)
  with Pair that show thesis by simp
qed

lemma serve_debit_told:
  assumes ok: "credits_ok cs" and run: "serve_debit kc xc now wallet amount ref cs = (answer, cs')"
  shows "debit_told (DebitCredits wallet amount ref) (x\<lparr>kz_debit := answer\<rparr>) (set (x_debits cs'))"
proof -
  obtain a where a: "post_internal_debit xc now (Some (''Bearer '' @ kc_KIZUNA_INTERNAL_TOKEN kc))
      (Some (debit_body wallet amount ref)) cs = (a, cs')" and answer: "answer = debit_http a"
    using run by (rule serve_debitE)
  from a show ?thesis
  proof (cases rule: post_internal_debit_cases)
    case (refused status code msg)
    then show ?thesis by (simp add: debit_told_def answer debit_http_def debitKizunaCredits_def Let_def)
  next
    case (ran p)
    have p: "bp_referenceId p = js_trim ref" "bp_endpoint p = ''kizuna-repay''"
      using ran(1) debit_texts(3)
      by (auto simp: debit_request_def debit_body_def asRecord_def jget_opt_def jget_def Let_def trimmed_text_JStr
          split: if_splits option.splits)
    show ?thesis
    proof (cases a)
      case (DebitAnswer wl r)
      with ran(2) have "withTransaction (debitCreditsInternal now p) cs = (Inr (Some r), cs')"
        by (auto simp: debit_answer_def prod_eq_iff split: sum.splits option.splits if_splits)
      then have d: "debitCreditsInternal now p cs = Inr (Some r, cs')" by (simp add: withTransaction_success)
      have ok': "credits_ok cs'" using debit_keeps_ok [OF ok debit_request_pos [OF ran(1)] d] .
      obtain b where b: "b \<in> set (x_debits cs')" "ix_reference_id b = bp_referenceId p" "ix_endpoint b = bp_endpoint p"
        "ix_debited_micro b = br_debitedMicro r"
        using d
      proof (cases rule: debit_cases)
        case (replay b)
        with that [of b] show thesis
          by (auto simp: getCreditInternalDebit_def debit_matches_def dest!: find_Some_mem)
      next
        case (paid acc)
        with that [of "debit_row now p (cx_balance_micro acc - bp_amountMicro p)"] show thesis by (simp add: debit_row_def)
      qed simp
      have "0 \<le> ix_debited_micro b" using credits_okD(4) [OF ok' b(1)] by simp
      then have "decimal_value (numeric_text (br_debitedMicro r)) = Some (ix_debited_micro b)" using b(4) by simp
      with b p show ?thesis by (auto simp: debit_told_def answer DebitAnswer debit_client(2))
    qed (use ran(2) in \<open>auto simp: debit_told_def answer debit_http_def debitKizunaCredits_def debit_answer_def Let_def
        split: sum.splits option.splits if_splits\<close>)
  qed
qed

lemma serve_call_repays:
  assumes "credits_ok cs" and "repays_with p (set (x_debits cs))" and "serve_call kc xc now x p cs = (p', cs')"
  shows "repays_with p' (set (x_debits cs')) \<and> (cs' = cs \<or> credits_step (xc_rate xc) cs cs')"
proof -
  have steps: "s' = s \<or> credits_step (xc_rate xc) s s'" if "serve_debit kc xc now w a ref s = (ans, s')" for w a ref s ans s'
    using that by (rule serve_debitE) (rule internal_debit_steps)
  have grow: "set (x_debits cs) \<subseteq> set (x_debits cs')" if "cs' = cs \<or> credits_step (xc_rate xc) cs cs'"
    using that debits_kept by fastforce
  show ?thesis
  proof (cases "\<exists>w a ref k. p = Call (DebitCredits w a ref) k")
    case True
    then obtain w a ref k where p: "p = Call (DebitCredits w a ref) k" by blast
    obtain ans s' where out: "serve_debit kc xc now w a ref cs = (ans, s')" by (metis surj_pair)
    have r: "p' = k (x\<lparr>kz_debit := ans\<rparr>)" "cs' = s'" using assms(3) by (auto simp: serve_call_def p out)
    with steps [OF out] have st: "cs' = cs \<or> credits_step (xc_rate xc) cs cs'" by simp
    have "debit_told (DebitCredits w a ref) (x\<lparr>kz_debit := ans\<rparr>) (set (x_debits cs'))"
      using serve_debit_told [OF assms(1) out] r(2) by simp
    with assms(2) grow [OF st] have "repays_with p' (set (x_debits cs'))" by (auto simp: p r(1))
    with st show ?thesis by simp
  next
    case False
    then have "p' = p \<and> cs' = cs" using assms(3) by (auto simp: serve_call_def split: prog.splits kizuna_call.splits)
    with assms(2) show ?thesis by simp
  qed
qed

definition repay_sys_inv :: "repay_system \<Rightarrow> bool" where
  "repay_sys_inv s =
     (let D = set (x_debits (rs_credits s)) in
      credits_ok (rs_credits s) \<and> (\<forall>p \<in> set (rs_requests s). repays_with p D) \<and>
      (\<forall>r \<in> set (t_repayments (rs_ledger s)). backed D r))"

lemma repay_sys_inv_credits:
  assumes inv: "repay_sys_inv s" and "c = rs_credits s \<or> credits_step rate (rs_credits s) c"
    and "\<forall>p \<in> set ps. p \<in> set (rs_requests s) \<or> repays_with p (set (x_debits c))"
  shows "repay_sys_inv (s\<lparr>rs_credits := c, rs_requests := ps\<rparr>)"
proof -
  have "set (x_debits (rs_credits s)) \<subseteq> set (x_debits c)" using assms(2) debits_kept by fastforce
  moreover have "credits_ok c" using assms(2) inv credits_step_ok by (auto simp: repay_sys_inv_def Let_def)
  ultimately show ?thesis
    using inv assms(3) repays_with_mono backed_mono by (fastforce simp: repay_sys_inv_def Let_def)
qed

lemma failed_call_repays:
  assumes "repays_with (Call q k) D" and "(\<exists>msg. debitKizunaCredits (kz_debit x) = Inl msg) \<or> (\<nexists>w a ref. q = DebitCredits w a ref)"
  shows "repays_with (k x) D"
  using assms by (auto simp: debit_told_def)

lemma repay_sys_inv_step:
  assumes "repay_sys_step kc xc s s'" and inv: "repay_sys_inv s"
  shows "repay_sys_inv s'"
  using assms(1)
proof cases
  case (sys_arrival agentId body)
  with inv post_repay_repays show ?thesis by (auto simp: repay_sys_inv_def Let_def)
next
  case (sys_query i f w)
  let ?D = "set (x_debits (rs_credits s))"
  have "repays_with (Query f) ?D" using inv sys_query(2,3) by (metis nth_mem repay_sys_inv_def)
  then have "\<forall>r \<in> set (t_repayments (snd (f w (rs_ledger s)))). r \<in> set (t_repayments (rs_ledger s)) \<or> backed ?D r"
    "repays_with (fst (f w (rs_ledger s))) ?D" by (simp_all add: Let_def)
  with inv sys_query(1) show ?thesis
    by (auto simp: repay_sys_inv_def Let_def dest!: set_update_subset_insert [THEN subsetD])
next
  case (sys_debit i now x p c)
  have "repays_with (rs_requests s ! i) (set (x_debits (rs_credits s)))" "credits_ok (rs_credits s)"
    using inv sys_debit(2) by (auto simp: repay_sys_inv_def Let_def)
  with serve_call_repays [OF _ _ sys_debit(3)] have
    "repays_with p (set (x_debits c))" "c = rs_credits s \<or> credits_step (xc_rate xc) (rs_credits s) c" by auto
  with repay_sys_inv_credits [OF inv, of c "xc_rate xc" "(rs_requests s)[i := p]"] show ?thesis
    unfolding sys_debit(1) by (auto dest!: set_update_subset_insert [THEN subsetD])
next
  case (sys_call_failed i q k x msg)
  have "repays_with (Call q k) (set (x_debits (rs_credits s)))"
    using inv sys_call_failed(2,3) by (metis nth_mem repay_sys_inv_def)
  then have "repays_with (k x) (set (x_debits (rs_credits s)))" by (rule failed_call_repays) (use sys_call_failed(4) in simp)
  with repay_sys_inv_credits [OF inv, of "rs_credits s" 0 "(rs_requests s)[i := k x]"] show ?thesis
    unfolding sys_call_failed(1) by (auto dest!: set_update_subset_insert [THEN subsetD])
next
  case (sys_answer_lost i q k x msg now x' p c)
  have r: "repays_with (rs_requests s ! i) (set (x_debits (rs_credits s)))" "credits_ok (rs_credits s)"
    using inv sys_answer_lost(2) by (auto simp: repay_sys_inv_def Let_def)
  with serve_call_repays [OF _ _ sys_answer_lost(5)] have st: "c = rs_credits s \<or> credits_step (xc_rate xc) (rs_credits s) c" by auto
  then have "set (x_debits (rs_credits s)) \<subseteq> set (x_debits c)" using debits_kept by fastforce
  with r(1) have "repays_with (Call q k) (set (x_debits c))" unfolding sys_answer_lost(3) by (rule repays_with_mono)
  then have "repays_with (k x) (set (x_debits c))" by (rule failed_call_repays) (use sys_answer_lost(4) in simp)
  with st repay_sys_inv_credits [OF inv, of c "xc_rate xc" "(rs_requests s)[i := k x]"] show ?thesis
    unfolding sys_answer_lost(1) by (auto dest!: set_update_subset_insert [THEN subsetD])
next
  case (sys_other_call i q k x)
  have "repays_with (Call q k) (set (x_debits (rs_credits s)))"
    using inv sys_other_call(2,3) by (metis nth_mem repay_sys_inv_def)
  then have "repays_with (k x) (set (x_debits (rs_credits s)))" by (rule failed_call_repays) (use sys_other_call(4) in simp)
  with repay_sys_inv_credits [OF inv, of "rs_credits s" 0 "(rs_requests s)[i := k x]"] show ?thesis
    unfolding sys_other_call(1) by (auto dest!: set_update_subset_insert [THEN subsetD])
next
  case (sys_credits c)
  with repay_sys_inv_credits [OF inv, of c "xc_rate xc" "rs_requests s"] show ?thesis by simp
next
  case (sys_ledger d)
  with inv show ?thesis by (simp add: repay_sys_inv_def Let_def)
qed

interpretation repaying: invariant_system repay_sys_start "repay_sys_step kc xc" repay_sys_inv
proof
  show "repay_sys_inv s" if "repay_sys_start s" for s
    using that by (simp add: repay_sys_start_def repay_sys_inv_def no_credits_ok Let_def)
qed (rule repay_sys_inv_step)

end
