(* ===== verification/Repay_Claims.thy ===== *)
theory Repay_Claims
  imports Repay_System Settle_System
begin

text \<open>
  What a repayment promises across the ledger and the credits service, and where the promise ends, with runs that show
  both.
\<close>

section \<open>Properties\<close>

text \<open>
  Claim C15. A retried repayment is charged once and goes through: after the credits service has taken a
  request's debit, whatever became of its answer and whatever the credits service did since, a retry that owes the
  same amount goes on to the repayment of that amount, and the credits service changes nothing.
\<close>

theorem repay_retry_charged_once:
  assumes "repay_well_formed kc xc q acc out" and "getCreditInternalDebit (ry_referenceId q) cs = None"
    and "repay_amount q out \<le> getCreditBalance (a_repay_wallet acc) cs"
    and "serve_call kc xc now x (repay_debit kc q acc out) cs = (p1, cs1)" and "(credits_step rate)\<^sup>*\<^sup>* cs1 cs2"
  shows "getCreditBalance (a_repay_wallet acc) cs1 = getCreditBalance (a_repay_wallet acc) cs - repay_amount q out \<and>
         (\<exists>debit. serve_call kc xc now' x' (repay_debit kc q acc out) cs2 =
            (await (\<lambda>e _. applyKizunaRepayment e (repay_params_of q (repay_amount q out)))
               (catching (repay_failed \<circ> error_text) (repay_ingest kc q debit)), cs2))"
proof -
  obtain debit cs' b where first: "serve_call kc xc now x (repay_debit kc q acc out) cs = (repay_debited kc q (Inr debit), cs')"
    and bal: "getCreditBalance (a_repay_wallet acc) cs' = getCreditBalance (a_repay_wallet acc) cs - repay_amount q out"
    and b: "getCreditInternalDebit (ry_referenceId q) cs' = Some b" "debit_matches (repay_asks q acc out) b"
      "ix_debited_micro b = repay_amount q out"
    using fresh_call [OF assms(1-3), of now x] by metis
  have "cs' = cs1" using first assms(4) by simp
  with debit_stays [OF assms(5)] b(1) have "getCreditInternalDebit (ry_referenceId q) cs2 = Some b" by simp
  then obtain d2 where "serve_call kc xc now' x' (repay_debit kc q acc out) cs2 = (repay_debited kc q (Inr d2), cs2)"
    "decimal_value (kd_debitedMicro d2) = Some (repay_amount q out)"
    using replayed_call [OF assms(1) _ b(2,3), of cs2 now' x'] by metis
  with bal \<open>cs' = cs1\<close> show ?thesis by (auto simp: repay_debited_def)
qed

text \<open>
  Claim C16. One debit can pay the debts of two accounts: the ledger keeps references per agent and the credits service keeps
  them for all, so when a second account with the same repay wallet repays the same amount under the same
  reference, the credits service answers with the first debit, and both debts are paid down in full while the wallet is
  charged once.
\<close>

theorem one_debit_pays_two_accounts:
  assumes wf: "repay_well_formed kc xc q1 acc1 out1" "repay_well_formed kc xc q2 acc2 out2"
    and shared: "a_repay_wallet acc2 = a_repay_wallet acc1" "ry_referenceId q2 = ry_referenceId q1"
      "repay_amount q1 out1 = n" "repay_amount q2 out2 = n"
    and credits: "getCreditInternalDebit (ry_referenceId q1) cs = None" "n \<le> getCreditBalance (a_repay_wallet acc1) cs"
      "serve_call kc xc t1 x1 (repay_debit kc q1 acc1 out1) cs = (p1, cs1)"
      "serve_call kc xc t2 x2 (repay_debit kc q2 acc2 out2) cs1 = (p2, cs2)"
    and ledger: "ledger_ok d0"
      "out1 = getKizunaOutstandingMicro (ry_agentId q1) (Some (ry_lane q1)) (Some (ry_poolId q1)) d0"
      "getKizunaRepaymentByReference (ry_agentId q1) (ry_referenceId q1) d0 = None"
      "applyKizunaRepayment e1 (repay_params_of q1 n) d0 = Inr (res1, d1)"
      "out2 = getKizunaOutstandingMicro (ry_agentId q2) (Some (ry_lane q2)) (Some (ry_poolId q2)) d1"
      "getKizunaRepaymentByReference (ry_agentId q2) (ry_referenceId q2) d1 = None"
      "applyKizunaRepayment e2 (repay_params_of q2 n) d1 = Inr (res2, d2)"
  shows "(\<exists>k. p1 = await (\<lambda>e _. applyKizunaRepayment e (repay_params_of q1 n)) k) \<and>
         (\<exists>k. p2 = await (\<lambda>e _. applyKizunaRepayment e (repay_params_of q2 n)) k) \<and>
         rp_applied_micro (rr_repayment res1) + rp_applied_micro (rr_repayment res2) = 2 * n \<and>
         getCreditBalance (a_repay_wallet acc1) cs2 = getCreditBalance (a_repay_wallet acc1) cs - n"
proof -
  have enough: "repay_amount q1 out1 \<le> getCreditBalance (a_repay_wallet acc1) cs" using credits(2) shared(3) by simp
  obtain debit cs' b where first: "serve_call kc xc t1 x1 (repay_debit kc q1 acc1 out1) cs = (repay_debited kc q1 (Inr debit), cs')"
    and dec1: "decimal_value (kd_debitedMicro debit) = Some (repay_amount q1 out1)"
    and bal: "getCreditBalance (a_repay_wallet acc1) cs' = getCreditBalance (a_repay_wallet acc1) cs - repay_amount q1 out1"
    and b: "getCreditInternalDebit (ry_referenceId q1) cs' = Some b" "debit_matches (repay_asks q1 acc1 out1) b"
      "ix_debited_micro b = repay_amount q1 out1"
    using fresh_call [OF wf(1) credits(1) enough, of t1 x1] by metis
  have "debit_matches (repay_asks q2 acc2 out2) b" "ix_debited_micro b = repay_amount q2 out2"
    "getCreditInternalDebit (ry_referenceId q2) cs' = Some b"
    using b shared by (simp_all add: debit_matches_def)
  then obtain d where second: "serve_call kc xc t2 x2 (repay_debit kc q2 acc2 out2) cs' = (repay_debited kc q2 (Inr d), cs')"
    and dec2: "decimal_value (kd_debitedMicro d) = Some (repay_amount q2 out2)"
    using replayed_call [OF wf(2), of cs' b t2 x2] by metis
  have cs: "cs' = cs1" "cs2 = cs1" "p1 = repay_debited kc q1 (Inr debit)" "p2 = repay_debited kc q2 (Inr d)"
    using first second credits(3,4) by simp_all
  have "n \<le> out1" "n \<le> out2" using shared(3,4) by (auto simp: repay_amount_def)
  then have a1: "rp_applied_micro (rr_repayment res1) = n" "ledger_ok d1"
    using repayment_applied [OF ledger(1,3,4)] ledger(2) by simp_all
  then have "rp_applied_micro (rr_repayment res2) = n"
    using repayment_applied [OF a1(2) ledger(6,7)] \<open>n \<le> out2\<close> ledger(5) by simp
  then show ?thesis using cs bal dec1 dec2 a1(1) shared(3,4) by (auto simp: repay_debited_def)
qed


text \<open>
  Too little credit is reported as a bad gateway: the route answers 409 to errors that mention
  \<open>INSUFFICIENT_BALANCE\<close> or \<open>insufficient\<close>, and the credits service says neither.
\<close>

theorem insufficient_credits_bad_gateway:
  assumes "repay_well_formed kc xc q acc out" and "getCreditInternalDebit (ry_referenceId q) cs = None"
    and "getCreditBalance (a_repay_wallet acc) cs < repay_amount q out"
  shows "serve_call kc xc now x (repay_debit kc q acc out) cs =
    (Reply (KizunaError 502 ''credits_debit_failed:INSUFFICIENT_CREDITS:Insufficient balance for debit request''), cs)"
  using insufficient_call [OF assms] by (simp add: repay_failed_statuses)


section \<open>Witnesses\<close>

definition repay_demo_config :: kizuna_config where
  "repay_demo_config = verify_config.extend
     (credit_config.extend
       (direct_config.extend pay_config
         \<lparr>cc_KIZUNA_ENABLED = True, cc_KIZUNA_SECURED_ONLY = False, cc_KIZUNA_FASTPATH_POOL_ID = ''fastpath-main'',
          cc_KIZUNA_ENTERPRISE_POOL_ID = ''enterprise-main'', cc_KIZUNA_KERNEL_FAIL_CLOSED = True,
          cc_KIZUNA_SHADOW_MODE = False, cc_kernelConfigured = True,
          cc_keys = \<lparr>kk_signingKeys = (\<lambda>_. None), kk_publicKeys = (\<lambda>_. None), kk_hmac = (\<lambda>_ _. []),
                     kk_verify = (\<lambda>_ _ _. Inr False)\<rparr>\<rparr>)
       \<lparr>vc_KIZUNA_ALLOW_LEGACY_AGENT_IDS = False, vc_KIZUNA_ENTERPRISE_REQUIRE_PREFUND = False,
        vc_KIZUNA_MAX_SINGLE_MICRO = 2000000, vc_KIZUNA_FASTPATH_LTV_CAP_BPS = 4000, vc_KIZUNA_RESERVATION_TTL_MS = 120000\<rparr>)
     \<lparr>kc_KIZUNA_INTERNAL_TOKEN = ''k'', kc_KIZUNA_FASTPATH_ASSET_HAIRCUT_BPS = 500, kc_KIZUNA_FASTPATH_MIN_HEALTH_FACTOR = 3 / 2\<rparr>"

lemma repay_demo_settings:
  "kc_KIZUNA_INTERNAL_TOKEN repay_demo_config = ''k''" "cc_KIZUNA_ENABLED repay_demo_config"
  "cc_KIZUNA_ENTERPRISE_POOL_ID (credit_config.truncate repay_demo_config) = ''enterprise-main''"
  by (simp_all add: repay_demo_config_def verify_config.defs credit_config.defs direct_config.defs)

definition repay_wallet :: string where
  "repay_wallet = replicate 32 CHR ''w''"

lemma repay_wallet_ok:
  "js_trim repay_wallet = repay_wallet" "isValidSolanaAddress demo_credits_config repay_wallet" "repay_wallet \<noteq> []"
  by (auto simp: repay_wallet_def isValidSolanaAddress_def demo_credits_config_def js_space_def intro: js_trim_id)

text \<open>Two accounts that owe fifty each and name the same repay wallet.\<close>

definition sharing_account :: "string \<Rightarrow> kizuna_account" where
  "sharing_account agentId = sample_account\<lparr>a_agent_id := agentId, a_repay_wallet := repay_wallet\<rparr>"

definition sharing_ledger :: db where
  "sharing_ledger = sample_ledger
     \<lparr>t_accounts := [''agent-1'' \<mapsto> sharing_account ''agent-1'', ''agent-2'' \<mapsto> sharing_account ''agent-2''],
      t_debts := [sample_debt ''debt-1'' 50 1, (sample_debt ''debt-2'' 50 2)\<lparr>d_agent_id := ''agent-2''\<rparr>],
      t_pool_reserves := [''enterprise-main'' \<mapsto> (seed_reserve Enterprise 0)\<lparr>pr_outstanding_micro := 100\<rparr>]\<rparr>"

lemma ledger_ok_sharing: "ledger_ok sharing_ledger"
  by (simp add: ledger_ok_def reservations_ok_def debts_ok_def pools_ok_def balances_ok_def
      repayments_ok_def sharing_ledger_def sample_debt_def sample_ledger_def sample_funding_def seed_db_def
      reserves_agree_def balances_agree_def reserved_total_def outstanding_total_def locked_total_def
      spent_total_def funded_total_def repaid_total_def paid_down_total_def seed_reserve_def signed_flow_def)

definition sharing_request :: "string \<Rightarrow> repay_request" where
  "sharing_request agentId =
     \<lparr>ry_agentId = agentId, ry_referenceId = ''r'', ry_requestedMicro = 50, ry_lane = Enterprise, ry_poolId = ''enterprise-main''\<rparr>"

definition sharing_credits :: credits_db where
  "sharing_credits = snd (withTransaction (depositCredits 1 5 repay_wallet ''tx1'' ''1'' 1000) no_credits)"

lemma sharing_well_formed: "repay_well_formed repay_demo_config demo_credits_config (sharing_request a) (sharing_account b) 50"
  by (simp add: repay_well_formed_def services_agree_def repay_demo_settings demo_credits_settings one_letter repay_wallet_ok
      sharing_account_def sharing_request_def repay_amount_def js_trim_id js_space_def)

lemma sharing_credits_fresh: "getCreditInternalDebit ref sharing_credits = None" "getCreditBalance repay_wallet sharing_credits = 1000"
  by (simp_all add: sharing_credits_def depositCredits_def isDepositProcessed_def no_credits_def put_account_def
      getCreditAccount_def getCreditInternalDebit_def getCreditBalance_def deposit_account_def empty_account_def)

lemma sharing_requests [simp]:
  "ry_agentId (sharing_request a) = a" "ry_referenceId (sharing_request a) = ''r''" "ry_lane (sharing_request a) = Enterprise"
  "ry_poolId (sharing_request a) = ''enterprise-main''" "repay_amount (sharing_request a) 50 = 50"
  "a_repay_wallet (sharing_account a) = repay_wallet"
  by (simp_all add: sharing_request_def repay_amount_def sharing_account_def)

definition repay_demo_services :: kizuna_services where
  "repay_demo_services =
     \<lparr>kz_resolve = (\<lambda>_. Inr None), kz_registryFails = None,
      kz_columns = (\<lambda>_. \<lparr>rg_sync_source = None, rg_global_id = None, rg_owner_wallet = None, rg_operational_wallet = None,
                       rg_active = None\<rparr>),
      kz_sync = KernelUnreachable [], kz_limits = KernelUnreachable [], kz_cap = (\<lambda>_. Inr None), kz_passport = (\<lambda>_. None),
      kz_debit = KernelUnreachable ''timeout'', kz_balance = KernelUnreachable [], kz_ingest = KernelUnreachable []\<rparr>"

abbreviation sharing_call :: "string \<Rightarrow> kizuna_prog" where
  "sharing_call a \<equiv> repay_debit repay_demo_config (sharing_request a) (sharing_account a) 50"

abbreviation sharing_serve :: "string \<Rightarrow> credits_db \<Rightarrow> kizuna_prog \<times> credits_db" where
  "sharing_serve a cs \<equiv> serve_call repay_demo_config demo_credits_config 6 repay_demo_services (sharing_call a) cs"

lemma sharing_enough: "repay_amount (sharing_request a) 50 \<le> getCreditBalance (a_repay_wallet (sharing_account a)) sharing_credits"
  by (simp add: sharing_credits_fresh)

theorem repay_retry_charged_once_witness:
  "getCreditBalance repay_wallet (snd (sharing_serve ''agent-1'' sharing_credits)) = 950 \<and>
   snd (sharing_serve ''agent-1'' (snd (sharing_serve ''agent-1'' sharing_credits))) =
     snd (sharing_serve ''agent-1'' sharing_credits)"
proof -
  let ?cs = "snd (sharing_serve ''agent-1'' sharing_credits)"
  have fresh: "getCreditInternalDebit (ry_referenceId (sharing_request ''agent-1'')) sharing_credits = None"
    by (simp add: sharing_credits_fresh)
  have run: "sharing_serve ''agent-1'' sharing_credits = (fst (sharing_serve ''agent-1'' sharing_credits), ?cs)" by simp
  have "(credits_step 1)\<^sup>*\<^sup>* ?cs ?cs" by simp
  from repay_retry_charged_once [OF sharing_well_formed fresh sharing_enough run this, of 6 repay_demo_services]
  show ?thesis by (auto simp: sharing_credits_fresh)
qed

definition sharing_env :: env where
  "sharing_env = (sample_env 200)\<lparr>env_uuid := (\<lambda>n. CHR ''b'' # nat_text n)\<rparr>"

definition sharing_repaid :: db where
  "sharing_repaid = run_state (applyKizunaRepayment (sample_env 100) (repay_params_of (sharing_request ''agent-1'') 50)) sharing_ledger"

definition sharing_repaid_twice :: db where
  "sharing_repaid_twice =
     run_state (applyKizunaRepayment sharing_env (repay_params_of (sharing_request ''agent-2'') 50)) sharing_repaid"

lemma sharing_runs:
  "\<exists>res. applyKizunaRepayment (sample_env 100) (repay_params_of (sharing_request ''agent-1'') 50) sharing_ledger =
     Inr (res, sharing_repaid)"
  unfolding sharing_repaid_def by (rule run_state_success) code_simp

lemma sharing_runs_again:
  "\<exists>res. applyKizunaRepayment sharing_env (repay_params_of (sharing_request ''agent-2'') 50) sharing_repaid =
     Inr (res, sharing_repaid_twice)"
  unfolding sharing_repaid_twice_def by (rule run_state_success) code_simp

lemma sharing_reads:
  "getKizunaOutstandingMicro ''agent-1'' (Some Enterprise) (Some ''enterprise-main'') sharing_ledger = 50"
  "getKizunaRepaymentByReference ''agent-1'' ''r'' sharing_ledger = None"
  "getKizunaOutstandingMicro ''agent-2'' (Some Enterprise) (Some ''enterprise-main'') sharing_repaid = 50"
  "getKizunaRepaymentByReference ''agent-2'' ''r'' sharing_repaid = None"
  by code_simp+

theorem one_debit_pays_two_accounts_witness:
  "\<exists>res1 res2 cs.
     applyKizunaRepayment (sample_env 100) (repay_params_of (sharing_request ''agent-1'') 50) sharing_ledger = Inr (res1, sharing_repaid) \<and>
     applyKizunaRepayment sharing_env (repay_params_of (sharing_request ''agent-2'') 50) sharing_repaid = Inr (res2, sharing_repaid_twice) \<and>
     cs = snd (sharing_serve ''agent-2'' (snd (sharing_serve ''agent-1'' sharing_credits))) \<and>
     rp_applied_micro (rr_repayment res1) + rp_applied_micro (rr_repayment res2) = 100 \<and>
     getCreditBalance repay_wallet cs = 950"
proof -
  let ?c1 = "snd (sharing_serve ''agent-1'' sharing_credits)"
  let ?c2 = "snd (sharing_serve ''agent-2'' ?c1)"
  obtain res1 res2 where runs:
    "applyKizunaRepayment (sample_env 100) (repay_params_of (sharing_request ''agent-1'') 50) sharing_ledger = Inr (res1, sharing_repaid)"
    "applyKizunaRepayment sharing_env (repay_params_of (sharing_request ''agent-2'') 50) sharing_repaid = Inr (res2, sharing_repaid_twice)"
    using sharing_runs sharing_runs_again by blast
  have served: "sharing_serve ''agent-1'' sharing_credits = (fst (sharing_serve ''agent-1'' sharing_credits), ?c1)"
    "sharing_serve ''agent-2'' ?c1 = (fst (sharing_serve ''agent-2'' ?c1), ?c2)" by simp_all
  note wf = sharing_well_formed [of "''agent-1''" "''agent-1''"] sharing_well_formed [of "''agent-2''" "''agent-2''"]
  have shared: "a_repay_wallet (sharing_account ''agent-2'') = a_repay_wallet (sharing_account ''agent-1'')"
    "ry_referenceId (sharing_request ''agent-2'') = ry_referenceId (sharing_request ''agent-1'')" by simp_all
  have fresh: "getCreditInternalDebit (ry_referenceId (sharing_request ''agent-1'')) sharing_credits = None"
    "50 \<le> getCreditBalance (a_repay_wallet (sharing_account ''agent-1'')) sharing_credits"
    by (simp_all add: sharing_credits_fresh)
  have reads:
    "50 = getKizunaOutstandingMicro (ry_agentId (sharing_request ''agent-1'')) (Some (ry_lane (sharing_request ''agent-1'')))
       (Some (ry_poolId (sharing_request ''agent-1''))) sharing_ledger"
    "getKizunaRepaymentByReference (ry_agentId (sharing_request ''agent-1'')) (ry_referenceId (sharing_request ''agent-1''))
       sharing_ledger = None"
    "50 = getKizunaOutstandingMicro (ry_agentId (sharing_request ''agent-2'')) (Some (ry_lane (sharing_request ''agent-2'')))
       (Some (ry_poolId (sharing_request ''agent-2''))) sharing_repaid"
    "getKizunaRepaymentByReference (ry_agentId (sharing_request ''agent-2'')) (ry_referenceId (sharing_request ''agent-2''))
       sharing_repaid = None"
    by (simp_all add: sharing_reads)
  have "rp_applied_micro (rr_repayment res1) + rp_applied_micro (rr_repayment res2) = 2 * 50 \<and>
      getCreditBalance (a_repay_wallet (sharing_account ''agent-1'')) ?c2 =
      getCreditBalance (a_repay_wallet (sharing_account ''agent-1'')) sharing_credits - 50"
    using one_debit_pays_two_accounts [OF wf shared sharing_requests(5) sharing_requests(5) fresh served ledger_ok_sharing
        reads(1,2) runs(1) reads(3,4) runs(2)] by (rule conjunct2 [THEN conjunct2])
  then have "rp_applied_micro (rr_repayment res1) + rp_applied_micro (rr_repayment res2) = 100"
    "getCreditBalance repay_wallet ?c2 = 950"
    by (simp_all only: sharing_requests(6) sharing_credits_fresh(2))
  with runs show ?thesis by blast
qed


theorem insufficient_credits_bad_gateway_witness:
  "sharing_serve ''agent-1'' no_credits =
   (Reply (KizunaError 502 ''credits_debit_failed:INSUFFICIENT_CREDITS:Insufficient balance for debit request''), no_credits)"
  by (rule insufficient_credits_bad_gateway [OF sharing_well_formed])
    (simp_all add: getCreditInternalDebit_def no_credits_def getCreditBalance_def getCreditAccount_def)

text \<open>One request, from its arrival to the repayment.\<close>

definition sharing_body :: json where
  "sharing_body = JObj [(''source'', JStr ''credits''), (''referenceId'', JStr ''r''), (''amountMicro'', JNum 50)]"

lemma sharing_request_of:
  "repay_request_of repay_demo_config ''agent-1'' (asRecord (Some sharing_body)) = Inr (sharing_request ''agent-1'')"
proof -
  have t: "js_trim ''agent-1'' = ''agent-1''" "js_trim ''credits'' = ''credits''" "js_trim ''r'' = ''r''"
    by (simp_all add: js_trim_id js_space_def)
  show ?thesis
    by (simp add: repay_request_of_def sharing_body_def asRecord_def jget_opt_def jget_def field_text_def asString_JStr t or_text_def
        parseLane_def parsePositiveMicro_def safe_integer_def resolvePoolId_def repay_demo_settings sharing_request_def Let_def)
qed

lemma sys_await:
  assumes "i < length (rs_requests s)" and "rs_requests s ! i = await m k"
    and "withTransaction (m e uid) (rs_ledger s) = (r, d)"
  shows "repay_sys_step kc xc s (s\<lparr>rs_ledger := d, rs_requests := (rs_requests s)[i := k r]\<rparr>)"
  using sys_query [OF assms(1,2) [unfolded await_def], of kc xc "\<lparr>qw_env = e, qw_uuid = uid, qw_fails = False\<rparr>"]
  by (simp add: run_query_def assms(3))

lemma sys_await_read:
  assumes "i < length (rs_requests s)" and "rs_requests s ! i = await_read f k"
  shows "repay_sys_step kc xc s (s\<lparr>rs_requests := (rs_requests s)[i := k (Inr (f (rs_ledger s)))]\<rparr>)"
  using sys_await [OF assms(1) assms(2) [unfolded await_read_def], where r = "Inr (f (rs_ledger s))" and d = "rs_ledger s"]
  by (simp add: withTransaction_def)


end
