(* ===== verification/Kizuna_Accounts.thy ===== *)
theory Kizuna_Accounts
  imports Kizuna_Repay
begin

text \<open>
  The account routes of \<open>routes/kizuna.ts\<close>: onboarding, the account with its debts and balances, and the
  synchronisation with the agent registry.
\<close>

section \<open>Identities\<close>

definition resolved_columns :: "bool \<Rightarrow> resolved_identity option \<Rightarrow> registry_columns" where
  "resolved_columns allowLegacy found =
     \<lparr>rg_sync_source =
        (case found of Some i \<Rightarrow> Some (ri_syncSource i) | None \<Rightarrow> if allowLegacy then Some ''legacy'' else None),
      rg_global_id = map_option ri_globalId found, rg_owner_wallet = map_option ri_ownerWallet found,
      rg_operational_wallet = Option.bind found ri_operationalWallet, rg_active = map_option ri_active found\<rparr>"

definition authorized_wallet :: "resolved_identity \<Rightarrow> string" where
  "authorized_wallet i = (if truthy (ri_operationalWallet i) then or_text (ri_operationalWallet i) [] else ri_ownerWallet i)"

text \<open>
  \<open>await buildKizunaIdentityPayload(account)\<close>: the registry package is loaded only for an account that
  has been synchronised.
\<close>

definition with_identity ::
  "registry_columns \<Rightarrow> kizuna_account \<Rightarrow> (string \<Rightarrow> kizuna_prog) \<Rightarrow> (kizuna_identity option \<Rightarrow> kizuna_prog) \<Rightarrow> kizuna_prog" where
  "with_identity columns account handle go =
     Call (BuildIdentity (a_agent_id account)) (\<lambda>x.
       let payload = buildKizunaIdentityPayload columns account in
       case (payload, kz_registryFails x) of
         (Some i, Some msg) \<Rightarrow> handle msg
       | _ \<Rightarrow> go payload)"

section \<open>Mandates\<close>

definition parseManualMandateCaps :: "json option \<Rightarrow> mandate_caps option" where
  "parseManualMandateCaps v =
     (case asRecord v of
        None \<Rightarrow> None
      | Some record \<Rightarrow>
          (let field = (\<lambda>key. parseNonNegativeMicro (jget record key));
               human = or_else (field ''humanApprovalMicro'') (or_else (field ''singleLimitMicro'') (field ''singleMicro'')) in
           if field ''singleMicro'' = None \<or> field ''dailyMicro'' = None \<or> field ''monthlyMicro'' = None \<or> human = None then None
           else Some \<lparr>mc_singleMicro = field ''singleMicro'', mc_dailyMicro = field ''dailyMicro'',
                      mc_monthlyMicro = field ''monthlyMicro'', mc_humanApprovalMicro = human\<rparr>))"

definition syncKizunaMandate :: "kernel_answer \<Rightarrow> string + unit" where
  "syncKizunaMandate answer =
     (case answer of
        KernelUnreachable msg \<Rightarrow> Inl msg
      | KernelStatus status body \<Rightarrow>
          Inl (''wallet_control_plane_sync_failed:'' @
            (case jget_opt (asRecord body) ''error'' of
               Some (JStr msg) \<Rightarrow> msg
             | _ \<Rightarrow> ''HTTP '' @ nat_text status))
      | KernelBody _ \<Rightarrow> Inr ())"

record mandate_meta =
  mm_source :: string
  mm_passport :: "string option"
  mm_caps :: mandate_caps

text \<open>
  The mandate that the control plane names: none when it cannot be read, and an error when it comes without caps or with
  caps that the columns do not take.
\<close>

definition meishi_mandate :: "kizuna_services \<Rightarrow> (string + mandate_meta) option" where
  "meishi_mandate x =
     (case getKizunaMandateLimits (kz_limits x) of
        Inl _ \<Rightarrow> None
      | Inr limits \<Rightarrow>
          if falsy limits then None
          else (let caps = jget_opt (asRecord limits) ''caps''; cap = (\<lambda>key. kz_cap x (jget_opt (asRecord caps) key)) in
                if caps = None \<or> caps = Some JNull then Some (Inl ''Cannot read properties of undefined'')
                else (case (cap ''singleMicro'', cap ''dailyMicro'', cap ''monthlyMicro'', cap ''humanApprovalMicro'') of
                        (Inr a, Inr b, Inr c, Inr h) \<Rightarrow>
                          Some (Inr \<lparr>mm_source = ''meishi'', mm_passport = kz_passport x (jget_opt (asRecord limits) ''passportAddress''),
                                     mm_caps = \<lparr>mc_singleMicro = a, mc_dailyMicro = b, mc_monthlyMicro = c,
                                                mc_humanApprovalMicro = h\<rparr>\<rparr>)
                      | _ \<Rightarrow> Some (Inl ''query failed''))))"

section \<open>Onboarding\<close>

record onboarding =
  on_agentId :: string
  on_payerWallet :: string
  on_repayWallet :: string
  on_passportAddress :: "string option"
  on_networks :: "string list"
  on_manual :: "mandate_caps option"

definition requested_networks :: "json option \<Rightarrow> string list" where
  "requested_networks v =
     (let asked = (case v of Some (JArr vs) \<Rightarrow> filter (\<lambda>t. t = ''solana'' \<or> t = ''base'') (map (field_text \<circ> Some) vs) | _ \<Rightarrow> []) in
      if asked \<noteq> [] then asked else [''solana'', ''base''])"

definition onboarding_of :: "json_object option \<Rightarrow> string + onboarding" where
  "onboarding_of body =
     (let field = jget_opt body; text = (\<lambda>key. field_text (field key)); manual = parseManualMandateCaps (field ''manualMandate'') in
      if text ''agentId'' = [] \<or> text ''payerWallet'' = [] \<or> text ''repayWallet'' = []
      then Inl ''agentId, payerWallet, and repayWallet are required''
      else if \<not> falsy (field ''manualMandate'') \<and> manual = None
      then Inl ''manualMandate requires non-negative string/number fields: singleMicro, dailyMicro, monthlyMicro, humanApprovalMicro''
      else Inr \<lparr>on_agentId = text ''agentId'', on_payerWallet = text ''payerWallet'', on_repayWallet = text ''repayWallet'',
                on_passportAddress = asString (field ''passportAddress''),
                on_networks = requested_networks (field ''networks''), on_manual = manual\<rparr>)"

text \<open>The row that is upserted; status and times are the database's.\<close>

definition onboarded_account :: "onboarding \<Rightarrow> mandate_meta \<Rightarrow> kizuna_account" where
  "onboarded_account q m =
     \<lparr>a_agent_id = on_agentId q, a_payer_wallet = on_payerWallet q, a_repay_wallet = on_repayWallet q,
      a_passport_address = mm_passport m, a_networks = on_networks q,
      a_mandate_single_limit_micro = mc_singleMicro (mm_caps m), a_mandate_daily_limit_micro = mc_dailyMicro (mm_caps m),
      a_mandate_monthly_limit_micro = mc_monthlyMicro (mm_caps m),
      a_mandate_human_approval_micro = mc_humanApprovalMicro (mm_caps m),
      a_status = AccountActive, a_created_at = 0, a_updated_at = 0\<rparr>"

text \<open>The handler, from its end.\<close>

definition onboard_answer :: "registry_columns \<Rightarrow> mandate_meta \<Rightarrow> kizuna_account \<Rightarrow> kizuna_prog" where
  "onboard_answer columns m account =
     with_identity columns account (sendError 502) (\<lambda>identity.
       await_read (getKizunaOutstandingMicro (a_agent_id account) None None) (catching (failing 502) (\<lambda>outstanding.
         Reply (Onboarded \<lparr>ac_account = account, ac_identity = identity, ac_outstandingMicro = Some (numeric_text outstanding),
                           ac_creditsBalanceMicro = None, ac_enterpriseBalance = None\<rparr> (mm_source m)))))"

definition onboard_upsert :: "registry_columns \<Rightarrow> onboarding \<Rightarrow> mandate_meta \<Rightarrow> kizuna_prog" where
  "onboard_upsert columns q m =
     await (\<lambda>e _. upsertKizunaAccount e (onboarded_account q m)) (catching (failing 502) (onboard_answer columns m))"

definition onboard_manual :: "registry_columns \<Rightarrow> onboarding \<Rightarrow> kizuna_prog" where
  "onboard_manual columns q =
     (case on_manual q of
        None \<Rightarrow> sendError 502 ''Mandate sync unavailable and no manualMandate provided''
      | Some caps \<Rightarrow>
          onboard_upsert columns q \<lparr>mm_source = ''manual'', mm_passport = on_passportAddress q, mm_caps = caps\<rparr>)"

definition onboard_mandate :: "registry_columns \<Rightarrow> onboarding \<Rightarrow> kizuna_prog" where
  "onboard_mandate columns q =
     Call (SyncMandate (on_agentId q) (on_passportAddress q) (on_networks q)) (\<lambda>x.
       case syncKizunaMandate (kz_sync x) of
         Inl _ \<Rightarrow> onboard_manual columns q
       | Inr _ \<Rightarrow> Call (MandateLimits (on_agentId q)) (\<lambda>y.
           case meishi_mandate y of
             None \<Rightarrow> onboard_manual columns q
           | Some (Inl msg) \<Rightarrow> sendError 502 msg
           | Some (Inr m) \<Rightarrow> onboard_upsert columns q m))"

definition post_onboard :: "kizuna_config \<Rightarrow> json option \<Rightarrow> kizuna_prog" where
  "post_onboard kc body =
     when_enabled kc
       (case onboarding_of (asRecord body) of
          Inl msg \<Rightarrow> sendError 400 msg
        | Inr q \<Rightarrow> Call (ResolveIdentity (on_agentId q)) (\<lambda>x.
            let allowLegacy = vc_KIZUNA_ALLOW_LEGACY_AGENT_IDS kc in
            case kz_resolve x (on_agentId q) of
              Inl msg \<Rightarrow> sendError 502 msg
            | Inr None \<Rightarrow>
                if \<not> allowLegacy then sendError 404 ''Agent Registry identity not found''
                else onboard_mandate (resolved_columns allowLegacy None) q
            | Inr (Some i) \<Rightarrow>
                if \<not> ri_active i then sendError 409 ''Agent Registry identity is inactive''
                else if authorized_wallet i = [] \<or> authorized_wallet i \<noteq> on_payerWallet q
                then sendError 400 ''payerWallet must match the registered operational wallet or owner wallet''
                else onboard_mandate (resolved_columns allowLegacy (Some i)) q))"

section \<open>The account\<close>

definition get_account :: "kizuna_config \<Rightarrow> string \<Rightarrow> kizuna_prog" where
  "get_account kc agentIdParam =
     when_enabled kc
       (let agentId = js_trim agentIdParam in
        if agentId = [] then sendError 400 ''agentId is required''
        else await_read (getKizunaAccount agentId) (catching uncaught (\<lambda>account.
          case account of
            None \<Rightarrow> sendError 404 ''Kizuna account not found''
          | Some acc \<Rightarrow>
              await_read (getKizunaOutstandingMicro agentId None None) (catching uncaught (\<lambda>outstanding.
              await_read (getKizunaEnterpriseBalance agentId (cc_KIZUNA_ENTERPRISE_POOL_ID kc)) (catching uncaught (\<lambda>balance.
              Call (CreditsBalance (a_repay_wallet acc)) (\<lambda>x.
              let credits = (case getKizunaCreditsBalance (kz_balance x) of Inl _ \<Rightarrow> None | Inr n \<Rightarrow> Some (numeric_text n)) in
              with_identity (kz_columns x agentId) acc errorHandler (\<lambda>identity.
              Reply (AccountShown
                \<lparr>ac_account = acc, ac_identity = identity, ac_outstandingMicro = Some (numeric_text outstanding),
                 ac_creditsBalanceMicro = credits, ac_enterpriseBalance = balance\<rparr>))))))))))"

text \<open>Synchronisation moves the payer wallet to the one that the registry authorizes and keeps the rest.\<close>

definition synced_account :: "kizuna_account \<Rightarrow> string \<Rightarrow> kizuna_account" where
  "synced_account current wallet =
     current\<lparr>a_payer_wallet := (if a_payer_wallet current = wallet then a_payer_wallet current else wallet),
             a_networks := filter (\<lambda>t. t \<noteq> []) (map js_trim (a_networks current))\<rparr>"

definition post_identity_sync :: "kizuna_config \<Rightarrow> string \<Rightarrow> kizuna_prog" where
  "post_identity_sync kc agentIdParam =
     when_enabled kc
       (let agentId = js_trim agentIdParam in
        if agentId = [] then sendError 400 ''agentId is required''
        else await_read (getKizunaAccount agentId) (catching uncaught (\<lambda>account.
          case account of
            None \<Rightarrow> sendError 404 ''Kizuna account not found''
          | Some current \<Rightarrow> Call (ResolveIdentity agentId) (\<lambda>x.
              case kz_resolve x agentId of
                Inl msg \<Rightarrow> errorHandler msg
              | Inr None \<Rightarrow> sendError 404 ''Agent Registry identity not found''
              | Inr (Some i) \<Rightarrow>
                  if \<not> ri_active i then sendError 409 ''Agent Registry identity is inactive''
                  else if authorized_wallet i = [] then sendError 409 ''Agent Registry identity has no authorized wallet''
                  else await (\<lambda>e _. upsertKizunaAccount e (synced_account current (authorized_wallet i)))
                         (catching uncaught (\<lambda>updated.
                         with_identity (resolved_columns False (Some i)) updated errorHandler (\<lambda>identity.
                         Reply (IdentitySynced
                           \<lparr>ac_account = updated, ac_identity = identity, ac_outstandingMicro = None,
                            ac_creditsBalanceMicro = None, ac_enterpriseBalance = None\<rparr>))))))))"

end
