(* ===== verification/Kizuna_Funds.thy ===== *)
theory Kizuna_Funds
  imports Kizuna_Routes
begin

text \<open>
  The funding, collateral and pool routes of \<open>routes/kizuna.ts\<close>.  Intents are not stored: the identifier that an intent answers is
  not looked at when the deposit is confirmed.
\<close>

section \<open>Enterprise funding\<close>

record fund_request =
  fq_agentId :: string
  fq_poolId :: string
  fq_referenceId :: string
  fq_txHash :: "string option"
  fq_amountMicro :: int

text \<open>
  The checks that the three writing routes share; an intent carries no reference.  A lane that is neither of
  the two counts as enterprise here.
\<close>

definition fund_request_of :: "kizuna_config \<Rightarrow> bool \<Rightarrow> string \<Rightarrow> json_object option \<Rightarrow> string + fund_request" where
  "fund_request_of kc withReference agentIdParam body =
     (let agentId = js_trim agentIdParam; field = jget_opt body; referenceId = field_text (field ''referenceId'');
          lane = (case parseLane (field ''lane'') of Some l \<Rightarrow> l | None \<Rightarrow> Enterprise) in
      case parsePositiveMicro (field ''amountMicro'') of
        None \<Rightarrow> Inl (if withReference then ''agentId, amountMicro, and referenceId are required'' else ''agentId and amountMicro are required'')
      | Some n \<Rightarrow>
          if agentId = [] \<or> withReference \<and> referenceId = []
          then Inl (if withReference then ''agentId, amountMicro, and referenceId are required'' else ''agentId and amountMicro are required'')
          else if lane \<noteq> Enterprise then Inl ''Funding APIs are enterprise lane only''
          else Inr \<lparr>fq_agentId = agentId, fq_poolId = resolvePoolId (credit_config.truncate kc) Enterprise (field ''poolId''),
                    fq_referenceId = referenceId, fq_txHash = asString (field ''txHash''), fq_amountMicro = n\<rparr>)"

text \<open>Account and pool, read side by side; both have to be there, and the pool has to be an enterprise pool.\<close>

definition with_enterprise_pool :: "fund_request \<Rightarrow> kizuna_prog \<Rightarrow> kizuna_prog" where
  "with_enterprise_pool q go =
     await_read (getKizunaAccount (fq_agentId q)) (catching uncaught (\<lambda>account.
     await_read (getKizunaPool (fq_poolId q)) (catching uncaught (\<lambda>pool.
       if account = None then sendError 404 ''Kizuna account not found''
       else if (case pool of None \<Rightarrow> True | Some p \<Rightarrow> pw_lane p \<noteq> Enterprise) then sendError 404 ''Enterprise pool not found''
       else go))))"

definition post_funding_intent :: "kizuna_config \<Rightarrow> string \<Rightarrow> json option \<Rightarrow> kizuna_prog" where
  "post_funding_intent kc agentId body =
     when_enabled kc
       (case fund_request_of kc False agentId (asRecord body) of
          Inl msg \<Rightarrow> sendError 400 msg
        | Inr q \<Rightarrow> with_enterprise_pool q
            (Reply (Intent (fq_agentId q) Enterprise (fq_poolId q) (numeric_text (fq_amountMicro q)))))"

definition funding_of :: "fund_request \<Rightarrow> flow \<Rightarrow> funding_params" where
  "funding_of q direction =
     \<lparr>fd_agentId = fq_agentId q, fd_lane = Enterprise, fd_poolId = fq_poolId q, fd_referenceId = fq_referenceId q,
      fd_eventType = direction, fd_amountMicro = numeric_text (fq_amountMicro q), fd_txHash = fq_txHash q, fd_metadata = []\<rparr>"

text \<open>\<open>confirm\<close> and \<open>withdraw\<close>: both answer 409 to whatever the transaction throws.\<close>

definition post_funding_event :: "flow \<Rightarrow> kizuna_config \<Rightarrow> string \<Rightarrow> json option \<Rightarrow> kizuna_prog" where
  "post_funding_event direction kc agentId body =
     when_enabled kc
       (case fund_request_of kc True agentId (asRecord body) of
          Inl msg \<Rightarrow> sendError 400 msg
        | Inr q \<Rightarrow> with_enterprise_pool q
            (await (\<lambda>e _. applyKizunaFundingEvent e (funding_of q direction)) (catching (failing 409) (\<lambda>res.
              Reply (Funded Enterprise (fq_poolId q) res)))))"

text \<open>\<open>parseInt(asString(req.query.limit), 10)\<close>, within 1 and 200, or 50.\<close>

definition query_limit :: "json option \<Rightarrow> int" where
  "query_limit v =
     (case signed_digits (let t = field_text v; sg = sign_front t in sg @ digits_front (drop (length sg) t)) of
        Some n \<Rightarrow> if 0 < n then min n 200 else 50
      | None \<Rightarrow> 50)"

definition get_funding :: "kizuna_config \<Rightarrow> string \<Rightarrow> json_object \<Rightarrow> kizuna_prog" where
  "get_funding kc agentIdParam q =
     when_enabled kc
       (let agentId = js_trim agentIdParam; field = jget q;
            lane = (case parseLane (field ''lane'') of Some l \<Rightarrow> l | None \<Rightarrow> Enterprise);
            poolId = resolvePoolId (credit_config.truncate kc) lane (field ''poolId'') in
        if agentId = [] then sendError 400 ''agentId is required''
        else if lane \<noteq> Enterprise then sendError 400 ''Funding APIs are enterprise lane only''
        else
          await_read (getKizunaAccount agentId) (catching uncaught (\<lambda>account.
          await_read (getKizunaEnterpriseBalance agentId poolId) (catching uncaught (\<lambda>balance.
          await_read (listKizunaFundingEvents agentId (query_limit (field ''limit'')) (Some poolId)) (catching uncaught (\<lambda>events.
            if account = None then sendError 404 ''Kizuna account not found''
            else Reply (FundingShown poolId
              (case balance of
                 Some b \<Rightarrow> b
               | None \<Rightarrow> \<lparr>eb_available_micro = 0, eb_reserved_micro = 0, eb_spent_micro = 0, eb_updated_at = 0\<rparr>) events))))))))"

section \<open>Collateral\<close>

record collateral_request =
  cw_agentId :: string
  cw_lane :: lane
  cw_poolId :: string
  cw_collateralAccount :: string
  cw_assetId :: string
  cw_referenceId :: string
  cw_txHash :: "string option"
  cw_amountMicro :: int

text \<open>The fields; an intent needs no reference and checks the account and the amount last.\<close>

definition collateral_lane_check :: "kizuna_config \<Rightarrow> lane \<Rightarrow> string \<Rightarrow> (nat \<times> string) option" where
  "collateral_lane_check kc l assetId =
     (if cc_KIZUNA_SECURED_ONLY kc \<and> l \<noteq> CryptoFast then Some (403, ''Enterprise lane is disabled in secured-only mode'')
      else if assetId \<noteq> ''usdc'' then Some (400, ''Only USDC collateral is supported'')
      else None)"

definition collateral_request_of ::
  "kizuna_config \<Rightarrow> bool \<Rightarrow> string \<Rightarrow> json_object option \<Rightarrow> (nat \<times> string) + collateral_request" where
  "collateral_request_of kc event agentIdParam body =
     (let agentId = js_trim agentIdParam; field = jget_opt body; text = (\<lambda>key. field_text (field key));
          assetId = or_text (asString (field ''assetId'')) ''usdc'' in
      case parseLane (field ''lane'') of
        None \<Rightarrow> Inl (400, if event then ''agentId, lane, collateralAccount, amountMicro, and referenceId are required''
                          else ''agentId and lane are required'')
      | Some l \<Rightarrow>
          (case (collateral_lane_check kc l assetId, parsePositiveMicro (field ''amountMicro'')) of
             (refused, amount) \<Rightarrow>
               if event \<and> (agentId = [] \<or> text ''collateralAccount'' = [] \<or> text ''referenceId'' = [] \<or> amount = None)
               then Inl (400, ''agentId, lane, collateralAccount, amountMicro, and referenceId are required'')
               else if \<not> event \<and> agentId = [] then Inl (400, ''agentId and lane are required'')
               else (case refused of
                   Some r \<Rightarrow> Inl r
                 | None \<Rightarrow>
                     (case amount of
                        None \<Rightarrow> Inl (400, ''collateralAccount and amountMicro are required'')
                      | Some n \<Rightarrow>
                          if text ''collateralAccount'' = [] then Inl (400, ''collateralAccount and amountMicro are required'')
                          else Inr \<lparr>cw_agentId = agentId, cw_lane = l,
                                    cw_poolId = resolvePoolId (credit_config.truncate kc) l (field ''poolId''),
                                    cw_collateralAccount = text ''collateralAccount'', cw_assetId = assetId,
                                    cw_referenceId = text ''referenceId'', cw_txHash = asString (field ''txHash''),
                                    cw_amountMicro = n\<rparr>))))"

definition with_collateral_pool :: "collateral_request \<Rightarrow> (pool_view \<Rightarrow> kizuna_prog) \<Rightarrow> kizuna_prog" where
  "with_collateral_pool q go =
     await_read (getKizunaAccount (cw_agentId q)) (catching uncaught (\<lambda>account.
     await_read (getKizunaPool (cw_poolId q)) (catching uncaught (\<lambda>pool.
       if account = None then sendError 404 ''Kizuna account not found''
       else (case pool of None \<Rightarrow> sendError 404 ''Kizuna pool not found'' | Some p \<Rightarrow> go p)))))"

definition refuse :: "nat \<times> string \<Rightarrow> kizuna_prog" where
  "refuse r = sendError (fst r) (snd r)"

definition post_collateral_intent :: "kizuna_config \<Rightarrow> string \<Rightarrow> json option \<Rightarrow> kizuna_prog" where
  "post_collateral_intent kc agentId body =
     when_enabled kc
       (case collateral_request_of kc False agentId (asRecord body) of
          Inl r \<Rightarrow> refuse r
        | Inr q \<Rightarrow> with_collateral_pool q (\<lambda>_.
            Reply (Intent (cw_agentId q) (cw_lane q) (cw_poolId q) (numeric_text (cw_amountMicro q)))))"

definition collateral_of :: "collateral_request \<Rightarrow> flow \<Rightarrow> collateral_params" where
  "collateral_of q direction =
     \<lparr>co_agentId = cw_agentId q, co_lane = cw_lane q, co_poolId = cw_poolId q,
      co_collateralAccount = cw_collateralAccount q, co_assetId = cw_assetId q,
      co_amountMicro = numeric_text (cw_amountMicro q), co_eventType = direction, co_referenceId = cw_referenceId q,
      co_txHash = (case direction of Deposit \<Rightarrow> cw_txHash q | Withdraw \<Rightarrow> None)\<rparr>"

definition apply_collateral :: "kizuna_config \<Rightarrow> collateral_request \<Rightarrow> flow \<Rightarrow> kizuna_prog" where
  "apply_collateral kc q direction =
     await (\<lambda>e _. applyKizunaCollateralEvent e (collateral_of q direction)) (catching (failing 409) (\<lambda>event.
       Call (IngestCollateral (cw_agentId q) (cw_lane q) (cw_poolId q) (cw_collateralAccount q) (cw_assetId q)
               (numeric_text (cw_amountMicro q)) direction (cw_referenceId q)) (\<lambda>x.
         let failed = (case kernelFetch (cc_kernelConfigured kc) (kz_ingest x) of Inl msg \<Rightarrow> Some msg | Inr _ \<Rightarrow> None) in
         Reply (Secured (cw_lane q) (cw_poolId q) event (failed = None) failed))))"

definition post_collateral_confirm :: "kizuna_config \<Rightarrow> string \<Rightarrow> json option \<Rightarrow> kizuna_prog" where
  "post_collateral_confirm kc agentId body =
     when_enabled kc
       (case collateral_request_of kc True agentId (asRecord body) of
          Inl r \<Rightarrow> refuse r
        | Inr q \<Rightarrow> with_collateral_pool q (\<lambda>_. apply_collateral kc q Deposit))"

text \<open>
  The forecast of a fast-lane withdrawal.  \<open>BigInt\<close> of a text that is not an integer throws outside the handler's \<open>try\<close>.
  Health factors are quotients of doubles in the code and exact here; the text of an unsafe one is left out.
\<close>

definition withdrawal_forecast ::
  "kizuna_config \<Rightarrow> collateral_request \<Rightarrow> pool_view \<Rightarrow> collateral_summary \<Rightarrow> int \<Rightarrow> int \<Rightarrow> int \<Rightarrow> kizuna_prog" where
  "withdrawal_forecast kc q pool summary assetAvailable effectiveAvailable summaryEffective =
     (let amount = cw_amountMicro q;
          effectiveWithdraw = (if 0 < assetAvailable then (amount * effectiveAvailable) div assetAvailable
                               else (amount * (10000 - kc_KIZUNA_FASTPATH_ASSET_HAIRCUT_BPS kc)) div 10000);
          outstanding = parseMicro (Some (cs_outstandingMicro summary));
          nextEffective = max 0 (summaryEffective - effectiveWithdraw);
          ltvCapBps = (case pw_ltvCapBps pool of Some n \<Rightarrow> if n \<noteq> 0 then n else vc_KIZUNA_FASTPATH_LTV_CAP_BPS kc
                                               | None \<Rightarrow> vc_KIZUNA_FASTPATH_LTV_CAP_BPS kc);
          minHealthFactor = (case pw_minHealthFactor pool of Some h \<Rightarrow> h | None \<Rightarrow> kc_KIZUNA_FASTPATH_MIN_HEALTH_FACTOR kc) in
      if health_of outstanding nextEffective ltvCapBps < minHealthFactor
      then sendError 409 ''kizuna_health_factor_unsafe'' else apply_collateral kc q Withdraw)"

definition withdrawal_checks ::
  "kizuna_config \<Rightarrow> collateral_request \<Rightarrow> pool_view \<Rightarrow> collateral_summary option \<Rightarrow> position_view option \<Rightarrow> kizuna_prog" where
  "withdrawal_checks kc q pool summary position =
     (case (summary, position) of
        (Some sm, Some pv) \<Rightarrow>
          (case find (\<lambda>a. av_assetId a = cw_assetId q) (pv_assets pv) of
             None \<Rightarrow> sendError 409 ''kizuna_collateral_asset_missing''
           | Some asset \<Rightarrow>
               (case BigInt_of_string (av_availableMicro asset) of
                  None \<Rightarrow> errorHandler ''Cannot convert to a BigInt''
                | Some assetAvailable \<Rightarrow>
                    if assetAvailable < cw_amountMicro q then sendError 409 ''kizuna_collateral_withdraw_insufficient_available''
                    else (case (BigInt_of_string (av_effectiveCollateralMicro asset), BigInt_of_string (cs_effectiveCollateralMicro sm)) of
                            (Some effectiveAvailable, Some summaryEffective) \<Rightarrow>
                              withdrawal_forecast kc q pool sm assetAvailable effectiveAvailable summaryEffective
                          | _ \<Rightarrow> errorHandler ''Cannot convert to a BigInt'')))
      | _ \<Rightarrow> sendError 409 ''kizuna_collateral_position_missing'')"

definition post_collateral_withdraw :: "kizuna_config \<Rightarrow> string \<Rightarrow> json option \<Rightarrow> kizuna_prog" where
  "post_collateral_withdraw kc agentId body =
     when_enabled kc
       (case collateral_request_of kc True agentId (asRecord body) of
          Inl r \<Rightarrow> refuse r
        | Inr q \<Rightarrow> with_collateral_pool q (\<lambda>pool.
            if cw_lane q = CryptoFast
            then await_read (getKizunaCollateralSummary (cw_agentId q) (cw_poolId q)) (catching uncaught (\<lambda>summary.
                 await_read (getKizunaCollateralPosition (cw_agentId q) (cw_poolId q) (cw_collateralAccount q)) (catching uncaught (\<lambda>position.
                   withdrawal_checks kc q pool summary position))))
            else apply_collateral kc q Withdraw))"

section \<open>Pools\<close>

definition get_pool :: "kizuna_config \<Rightarrow> string \<Rightarrow> kizuna_prog" where
  "get_pool kc poolIdParam =
     when_enabled kc
       (let poolId = js_trim poolIdParam in
        if poolId = [] then sendError 400 ''poolId is required''
        else await_read (getKizunaPool poolId) (catching uncaught (\<lambda>pool.
          case pool of None \<Rightarrow> sendError 404 ''Kizuna pool not found'' | Some p \<Rightarrow> Reply (PoolShown p))))"

end
