(* ===== verification/Kizuna_Gateway.thy ===== *)
theory Kizuna_Gateway
  imports Kizuna_Accounts Kizuna_Funds Credit_Service
begin

text \<open>
  All the routes that work on the ledger, side by side: credit requests at \<open>POST /verify\<close> and \<open>POST /settle\<close> and the
  requests of \<open>routes/kizuna.ts\<close>.  Each of the latter ends, and all of them together are a run of the ledger machine.
\<close>

section \<open>The requests of routes/kizuna.ts\<close>

inductive kizuna_route :: "kizuna_config \<Rightarrow> kizuna_prog \<Rightarrow> bool" for kc where
  "kizuna_route kc (post_job_reservation kc authorization body)"
| "kizuna_route kc (post_job_release kc authorization body)"
| "kizuna_route kc (post_job_settle kc authorization body)"
| "kizuna_route kc (post_onboard kc body)"
| "kizuna_route kc (get_account kc agentId)"
| "kizuna_route kc (post_identity_sync kc agentId)"
| "kizuna_route kc (post_repay kc agentId body)"
| "kizuna_route kc (post_funding_intent kc agentId body)"
| "kizuna_route kc (post_funding_event direction kc agentId body)"
| "kizuna_route kc (get_funding kc agentId q)"
| "kizuna_route kc (post_collateral_intent kc agentId body)"
| "kizuna_route kc (post_collateral_confirm kc agentId body)"
| "kizuna_route kc (post_collateral_withdraw kc agentId body)"
| "kizuna_route kc (get_pool kc poolId)"

lemmas route_shapes =
  post_job_reservation_def post_job_release_def post_job_settle_def post_onboard_def get_account_def post_identity_sync_def
  post_repay_def post_funding_intent_def post_funding_event_def get_funding_def post_collateral_intent_def
  post_collateral_confirm_def post_collateral_withdraw_def get_pool_def when_enabled_def requireInternalToken_def

lemmas handler_parts =
  job_limits_def job_decide_def job_reserve_def job_unsettled_def job_settle_def job_settled_def
  onboard_mandate_def onboard_manual_def onboard_upsert_def onboard_answer_def with_identity_def
  repay_debit_def repay_debited_def repay_ingest_def with_enterprise_pool_def with_collateral_pool_def
  withdrawal_checks_def withdrawal_forecast_def apply_collateral_def

lemmas error_answers = sendError_def failing_def uncaught_def errorHandler_def repay_failed_def refuse_def

section \<open>Every request ends\<close>

named_theorems ends_intros "rules for the length of a handler"

lemma answers_within_parts [ends_intros]:
  "answers_within (Reply r) n" "answers_within (sendError status msg) n" "answers_within (failing status err) n"
  "answers_within (uncaught err) n" "answers_within (errorHandler msg) n" "answers_within (repay_failed msg) n"
  "answers_within (refuse rs) n"
  by (simp_all add: error_answers)

lemma answers_within_call [ends_intros]:
  "0 < n \<Longrightarrow> (\<And>x. answers_within (k x) (n - 1)) \<Longrightarrow> answers_within (Call c k) n"
  by simp

lemma answers_within_catching [ends_intros]:
  "(\<And>err. answers_within (h err) n) \<Longrightarrow> (\<And>x. answers_within (g x) n) \<Longrightarrow> answers_within (catching h g r) n"
  by (cases r) simp_all

lemma answers_within_cases [ends_intros]:
  "answers_within p n \<Longrightarrow> answers_within q n \<Longrightarrow> answers_within (if b then p else q) n"
  "answers_within p n \<Longrightarrow> (\<And>x. answers_within (f x) n) \<Longrightarrow> answers_within (case v of None \<Rightarrow> p | Some x \<Rightarrow> f x) n"
  "(\<And>y. answers_within (g y) n) \<Longrightarrow> (\<And>x. answers_within (h x) n) \<Longrightarrow> answers_within (case r of Inl y \<Rightarrow> g y | Inr x \<Rightarrow> h x) n"
  by (simp_all split: option.split sum.split)

declare answers_within_awaitI [ends_intros]

lemma job_routes_end:
  "answers_within (post_job_reservation kc authorization body) 6" "answers_within (post_job_release kc authorization body) 6"
  "answers_within (post_job_settle kc authorization body) 6"
  by (unfold route_shapes handler_parts Let_def) (intro ends_intros; simp)+

lemma account_routes_end:
  "answers_within (post_onboard kc body) 6" "answers_within (get_account kc agentId) 6"
  "answers_within (post_identity_sync kc agentId) 6"
  by (unfold route_shapes handler_parts Let_def prod.case) (intro ends_intros; simp)+

lemma repay_route_ends: "answers_within (post_repay kc agentId body) 6"
proof -
  have refused: "answers_within p 6" if "repay_request_of kc agentId (asRecord body) = Inl p" for p
    using that by (auto simp: repay_request_of_def Let_def intro!: ends_intros split: option.splits if_splits)
  show ?thesis
  proof (cases "repay_request_of kc agentId (asRecord body)")
    case (Inl p)
    with refused show ?thesis by (auto simp: post_repay_def when_enabled_def intro!: ends_intros)
  next
    case (Inr q)
    show ?thesis
      by (unfold route_shapes handler_parts Let_def Inr sum.case) (intro ends_intros; simp)+
  qed
qed

lemma fund_routes_end:
  "answers_within (post_funding_intent kc agentId body) 6" "answers_within (post_funding_event direction kc agentId body) 6"
  "answers_within (get_funding kc agentId q) 6" "answers_within (get_pool kc poolId) 6"
  by (unfold route_shapes handler_parts Let_def) (intro ends_intros; simp)+

lemma collateral_routes_end:
  "answers_within (post_collateral_intent kc agentId body) 6" "answers_within (post_collateral_confirm kc agentId body) 6"
  "answers_within (post_collateral_withdraw kc agentId body) 6"
  by (unfold route_shapes handler_parts Let_def prod.case) (intro ends_intros; simp)+

section \<open>Every request works through the ledger\<close>

named_theorems keeps_intros "rules for what a handler does to the ledger"

lemma keeps_parts [keeps_intros]:
  "keeps_ledger (Reply r) own" "keeps_ledger (sendError status msg) own" "keeps_ledger (failing status err) own"
  "keeps_ledger (uncaught err) own" "keeps_ledger (errorHandler msg) own" "keeps_ledger (repay_failed msg) own"
  "keeps_ledger (refuse rs) own"
  by (simp_all add: error_answers)

lemma keeps_call [keeps_intros]: "(\<And>x. keeps_ledger (k x) own) \<Longrightarrow> keeps_ledger (Call c k) own"
  by simp

lemma keeps_catching [keeps_intros]:
  "(\<And>err. keeps_ledger (h err) own) \<Longrightarrow> (\<And>x. keeps_ledger (g x) own) \<Longrightarrow> keeps_ledger (catching h g r) own"
  by (cases r) simp_all

lemma keeps_cases [keeps_intros]:
  "keeps_ledger p own \<Longrightarrow> keeps_ledger q own \<Longrightarrow> keeps_ledger (if b then p else q) own"
  "keeps_ledger p own \<Longrightarrow> (\<And>x. keeps_ledger (f x) own) \<Longrightarrow> keeps_ledger (case v of None \<Rightarrow> p | Some x \<Rightarrow> f x) own"
  "(\<And>y. keeps_ledger (g y) own) \<Longrightarrow> (\<And>x. keeps_ledger (h x) own) \<Longrightarrow> keeps_ledger (case r of Inl y \<Rightarrow> g y | Inr x \<Rightarrow> h x) own"
  by (simp_all split: option.split sum.split)

lemma keeps_operations [keeps_intros]:
  "(\<And>r. keeps_ledger (k0 r) own) \<Longrightarrow> keeps_ledger (await_read f k0) own"
  "(\<And>r. keeps_ledger (k1 r) own) \<Longrightarrow> keeps_ledger (await (\<lambda>e _. upsertKizunaAccount e acc) k1) own"
  "(\<And>r. keeps_ledger (k2 r) own) \<Longrightarrow> keeps_ledger (await (\<lambda>e uid. insertKizunaUnderwriteDecision e uid dec) k2) own"
  "(\<And>r. keeps_ledger (k3 r) own) \<Longrightarrow> keeps_ledger (await (\<lambda>e uid. createKizunaReservation e uid rv) k3) own"
  "(\<And>r. keeps_ledger (k4 r) own) \<Longrightarrow> keeps_ledger (await (\<lambda>e _. applyKizunaRepayment e rq) k4) own"
  "(\<And>r. keeps_ledger (k5 r) own) \<Longrightarrow> keeps_ledger (await (\<lambda>e _. applyKizunaFundingEvent e fd) k5) own"
  "(\<And>r. keeps_ledger (k6 r) own) \<Longrightarrow> keeps_ledger (await (\<lambda>e _. applyKizunaCollateralEvent e co) k6) own"
  "(\<And>r. keeps_ledger (k7 r) own) \<Longrightarrow> st = Released \<or> st = Expired \<Longrightarrow>
     keeps_ledger (await (\<lambda>e _. releaseKizunaReservation e rid st) k7) own"
  by (rule keeps_read, assumption)
    (rule keeps_quiet, (rule quiet_operations; assumption?), assumption)+

lemma job_routes_keep:
  "keeps_ledger (post_job_reservation kc authorization body) None" "keeps_ledger (post_job_release kc authorization body) None"
  by (unfold route_shapes handler_parts Let_def) (intro keeps_intros; simp)+

lemma job_settled_keeps: "keeps_ledger (job_settled q sid did) own"
  by (unfold job_settled_def) (intro keeps_intros)+

lemma job_settle_keeps: "keeps_ledger (job_settle q r) None"
  unfolding job_settle_def
  by (rule keeps_insertSettlement)
    (auto simp: job_finalize_params_def intro!: keeps_finalize job_settled_keeps keeps_intros)

lemma job_settle_route_keeps: "keeps_ledger (post_job_settle kc authorization body) None"
  unfolding post_job_settle_def when_enabled_def requireInternalToken_def job_unsettled_def Let_def
  by (intro keeps_intros job_settle_keeps job_settled_keeps)+

lemma account_routes_keep:
  "keeps_ledger (post_onboard kc body) None" "keeps_ledger (get_account kc agentId) None"
  "keeps_ledger (post_identity_sync kc agentId) None"
  by (unfold route_shapes handler_parts Let_def prod.case) (intro keeps_intros; simp)+

lemma repay_route_keeps: "keeps_ledger (post_repay kc agentId body) None"
proof -
  have refused: "keeps_ledger p None" if "repay_request_of kc agentId (asRecord body) = Inl p" for p
    using that by (auto simp: repay_request_of_def Let_def intro!: keeps_intros split: option.splits if_splits)
  show ?thesis
  proof (cases "repay_request_of kc agentId (asRecord body)")
    case (Inl p)
    with refused show ?thesis by (auto simp: post_repay_def when_enabled_def intro!: keeps_intros)
  next
    case (Inr q)
    show ?thesis
      by (unfold route_shapes handler_parts Let_def Inr sum.case) (intro keeps_intros; simp)+
  qed
qed

lemma fund_routes_keep:
  "keeps_ledger (post_funding_intent kc agentId body) None" "keeps_ledger (post_funding_event direction kc agentId body) None"
  "keeps_ledger (get_funding kc agentId q) None" "keeps_ledger (get_pool kc poolId) None"
  by (unfold route_shapes handler_parts Let_def) (intro keeps_intros; simp)+

lemma collateral_routes_keep:
  "keeps_ledger (post_collateral_intent kc agentId body) None" "keeps_ledger (post_collateral_confirm kc agentId body) None"
  "keeps_ledger (post_collateral_withdraw kc agentId body) None"
  by (unfold route_shapes handler_parts Let_def prod.case) (intro keeps_intros; simp)+

lemma kizuna_route_keeps: "kizuna_route kc p \<Longrightarrow> keeps_ledger p None"
  by (induction rule: kizuna_route.induct)
    (rule job_routes_keep job_settle_route_keeps account_routes_keep repay_route_keeps fund_routes_keep collateral_routes_keep)+

lemma kizuna_route_answers: "kizuna_route kc p \<Longrightarrow> answers_within p 6"
  by (induction rule: kizuna_route.induct)
    (rule job_routes_end account_routes_end repay_route_ends fund_routes_end collateral_routes_end)+

section \<open>The gateway\<close>

record gateway =
  gw_credit :: credit_system
  gw_verifies :: "verify_phase list"
  gw_requests :: "kizuna_prog list"

definition put_db :: "db \<Rightarrow> gateway \<Rightarrow> gateway" where
  "put_db d g = g\<lparr>gw_credit := (gw_credit g)\<lparr>ks_db := d\<rparr>\<rparr>"

abbreviation gateway_db :: "gateway \<Rightarrow> db" where
  "gateway_db g \<equiv> ks_db (gw_credit g)"

text \<open>
  A statement or a call of any request, with whatever clock, connection and answers; the settle requests that pay directly and the
  trust-event worker work on the ledger without making debts.
\<close>

inductive gateway_step :: "kizuna_config \<Rightarrow> gateway \<Rightarrow> gateway \<Rightarrow> bool" for kc where
  gateway_settle_arrives: "gateway_step kc g
     (g\<lparr>gw_credit := (gw_credit g)\<lparr>ks_requests := ks_requests (gw_credit g) @ [CArrived body apiMerchant]\<rparr>\<rparr>)"
| gateway_settle: "i < length (ks_requests (gw_credit g)) \<Longrightarrow>
     gateway_step kc g (g\<lparr>gw_credit := run_credit (credit_config.truncate kc) w i (gw_credit g)\<rparr>)"
| gateway_verify_arrives: "gateway_step kc g (g\<lparr>gw_verifies := gw_verifies g @ [VArrived body]\<rparr>)"
| gateway_verify: "i < length (gw_verifies g) \<Longrightarrow>
     verify_step (verify_config.truncate kc) w (gw_verifies g ! i) (gateway_db g) = (ph, d) \<Longrightarrow>
     gateway_step kc g (put_db d (g\<lparr>gw_verifies := (gw_verifies g)[i := ph]\<rparr>))"
| gateway_arrives: "kizuna_route kc p \<Longrightarrow> gateway_step kc g (g\<lparr>gw_requests := gw_requests g @ [p]\<rparr>)"
| gateway_request: "i < length (gw_requests g) \<Longrightarrow>
     prog_step answers w (gw_requests g ! i) (gateway_db g) = ((p, d), calls) \<Longrightarrow>
     gateway_step kc g (put_db d (g\<lparr>gw_requests := (gw_requests g)[i := p]\<rparr>))"
| gateway_elsewhere: "ledger_step (gateway_db g) d \<Longrightarrow> settled_ids d = settled_ids (gateway_db g) \<Longrightarrow> gateway_step kc g (put_db d g)"

definition gateway_start :: "gateway \<Rightarrow> bool" where
  "gateway_start g = (credit_start (gw_credit g) \<and> gw_verifies g = [] \<and> gw_requests g = [])"

text \<open>Every request in flight keeps to the ledger with the settlement id it owns, and no two own the same.\<close>

definition gateway_owns :: "gateway \<Rightarrow> string option list \<Rightarrow> bool" where
  "gateway_owns g ids =
     (length ids = length (gw_requests g) \<and> (\<forall>i < length ids. keeps_ledger (gw_requests g ! i) (ids ! i))
      \<and> owned_ok (map pending (ks_requests (gw_credit g)) @ ids) (gateway_db g))"

definition gateway_inv :: "gateway \<Rightarrow> bool" where
  "gateway_inv g = (credit_inv (gw_credit g) \<and> (\<exists>ids. gateway_owns g ids))"

lemma owned_ok_same:
  "owned_ok ids d \<Longrightarrow> settled_ids d' = settled_ids d \<Longrightarrow> recorded_ids d \<subseteq> recorded_ids d' \<Longrightarrow> owned_ok ids d'"
  unfolding owned_ok_def by blast

lemma owned_ok_pending:
  assumes "owned_ok (map pending phs @ ids) d"
  shows "settled_ids d \<subseteq> recorded_ids d" and "\<forall>ph \<in> set phs. set_option (pending ph) \<inter> settled_ids d = {}"
proof -
  show "settled_ids d \<subseteq> recorded_ids d" using assms by (rule owned_okD)
  show "\<forall>ph \<in> set phs. set_option (pending ph) \<inter> settled_ids d = {}"
  proof
    fix ph assume "ph \<in> set phs"
    then obtain i where i: "i < length phs" "ph = phs ! i" by (auto simp: in_set_conv_nth)
    then have "i < length (map pending phs @ ids)" "(map pending phs @ ids) ! i = pending ph" by (simp_all add: nth_append)
    then show "set_option (pending ph) \<inter> settled_ids d = {}" using owned_okD(2) [OF assms, of i] by force
  qed
qed

text \<open>A step outside the credit requests is one of the other routes to them.\<close>

lemma elsewhere_credit:
  assumes "d = gateway_db g \<or> ledger_step (gateway_db g) d" and "owned_ok (map pending (ks_requests (gw_credit g)) @ ids) d"
  shows "gw_credit (put_db d g) = gw_credit g \<or> credit_sys_step cc (gw_credit g) (gw_credit (put_db d g))"
  using assms(1)
proof
  assume "ledger_step (gateway_db g) d"
  then show ?thesis using credit_elsewhere owned_ok_pending [OF assms(2)] by (simp add: put_db_def)
qed (simp add: put_db_def)

lemma elsewhere_inv:
  assumes inv: "credit_inv (gw_credit g)" and st: "d = gateway_db g \<or> ledger_step (gateway_db g) d"
    and own: "owned_ok (map pending (ks_requests (gw_credit g)) @ ids) d"
    and reqs: "length ids = length ps" "\<forall>i < length ids. keeps_ledger (ps ! i) (ids ! i)"
  shows "gateway_inv (put_db d (g\<lparr>gw_verifies := vs, gw_requests := ps\<rparr>))"
proof -
  have "credit_inv ((gw_credit g)\<lparr>ks_db := d\<rparr>)"
    using elsewhere_credit [OF st own, of undefined] inv credit_inv_step by (auto simp: put_db_def)
  moreover have "gateway_owns (put_db d (g\<lparr>gw_verifies := vs, gw_requests := ps\<rparr>)) ids"
    using own reqs by (simp add: gateway_owns_def put_db_def)
  ultimately show ?thesis by (auto simp: gateway_inv_def put_db_def)
qed

lemma owned_ok_insert:
  assumes "owned_ok (xs @ ys) d"
  shows "owned_ok (xs @ [None] @ ys) d"
proof -
  let ?n = "length xs" and ?zs = "xs @ [None] @ ys"
  define f where "f i = (if i < ?n then i else i - 1)" for i
  have at: "i \<noteq> ?n \<and> f i < length (xs @ ys) \<and> (xs @ ys) ! f i = Some sid" if "i < length ?zs" "?zs ! i = Some sid" for i sid
  proof -
    consider "i < ?n" | "i = ?n" | j where "i = Suc (?n + j)" by (metis less_imp_Suc_add linorder_neqE_nat)
    then show ?thesis using that by cases (auto simp: f_def nth_append)
  qed
  have apart: "f i \<noteq> f j" if "i \<noteq> j" "i \<noteq> ?n" "j \<noteq> ?n" for i j using that by (auto simp: f_def)
  have "?zs ! i \<noteq> ?zs ! j" if ij: "i < length ?zs" "j < length ?zs" "i \<noteq> j" and some: "?zs ! i \<noteq> None" for i j
  proof
    assume "?zs ! i = ?zs ! j"
    moreover obtain sid where "?zs ! i = Some sid" using some by (cases "?zs ! i") simp_all
    ultimately show False using at [OF ij(1)] at [OF ij(2)] apart [OF ij(3)] owned_okD(3) [OF assms] by metis
  qed
  moreover have "sid \<in> recorded_ids d - settled_ids d" if "i < length ?zs" "?zs ! i = Some sid" for i sid
    using at [OF that] owned_okD(2) [OF assms] by blast
  ultimately show ?thesis using owned_okD(1) [OF assms] unfolding owned_ok_def by blast
qed

lemma gateway_settle_inv:
  assumes inv: "gateway_inv g" and i: "i < length (ks_requests (gw_credit g))"
  shows "gateway_inv (g\<lparr>gw_credit := run_credit cc w i (gw_credit g)\<rparr>)"
proof -
  let ?c = "gw_credit g"
  obtain ids where own: "gateway_owns g ids" and cinv: "credit_inv ?c" using inv by (auto simp: gateway_inv_def)
  obtain ph d moved where r: "credit_step cc w (ks_requests ?c ! i) (ks_db ?c) = ((ph, d), moved)" by (metis surj_pair)
  let ?l = "map pending (ks_requests ?c) @ ids"
  have o: "owned_ok ?l (ks_db ?c)" and il: "i < length ?l" and at: "?l ! i = pending (ks_requests ?c ! i)"
    using own i by (simp_all add: gateway_owns_def nth_append)
  have "sid \<notin> settled_ids (ks_db ?c)" if "pending (ks_requests ?c ! i) = Some sid" for sid
    using owned_okD(2) [OF o il, of sid] at that by simp
  then have "ids_step (?l ! i) (ks_db ?c) (pending ph) d"
    using credit_step_ids [OF _ _ r] cinv at by (simp add: credit_inv_def)
  then have "owned_ok (?l[i := pending ph]) d" by (rule owned_ok_step [OF o il])
  moreover have "?l[i := pending ph] = map pending ((ks_requests ?c)[i := ph]) @ ids" using i by (simp add: list_update_append map_update)
  moreover have "credit_inv (run_credit cc w i ?c)" using credit_inv_step [OF credit_progress [OF i] cinv] .
  ultimately show ?thesis using own by (auto simp: gateway_inv_def gateway_owns_def run_credit_def Let_def r)
qed

lemma gateway_request_step:
  assumes inv: "gateway_inv g" and i: "i < length (gw_requests g)"
    and run: "prog_step answers w (gw_requests g ! i) (gateway_db g) = ((p, d), calls)"
  shows "\<exists>ids. (d = gateway_db g \<or> ledger_step (gateway_db g) d) \<and> owned_ok (map pending (ks_requests (gw_credit g)) @ ids) d
    \<and> length ids = length (gw_requests g) \<and> (\<forall>j < length ids. keeps_ledger ((gw_requests g)[i := p] ! j) (ids ! j))"
proof -
  obtain ids where own: "gateway_owns g ids" and cinv: "credit_inv (gw_credit g)" using inv by (auto simp: gateway_inv_def)
  let ?ps = "map pending (ks_requests (gw_credit g))"
  let ?l = "?ps @ ids" and ?n = "length (ks_requests (gw_credit g))"
  have o: "owned_ok ?l (gateway_db g)" and len: "length ids = length (gw_requests g)"
    and k: "\<forall>j < length ids. keeps_ledger (gw_requests g ! j) (ids ! j)" using own by (simp_all add: gateway_owns_def)
  have il: "?n + i < length ?l" and at: "?l ! (?n + i) = ids ! i" using i len by (simp_all add: nth_append)
  have ki: "keeps_ledger (gw_requests g ! i) (ids ! i)" using k i len by simp
  have free: "set_option (ids ! i) \<inter> settled_ids (gateway_db g) = {}"
    using owned_okD(2) [OF o il] at by (cases "ids ! i") auto
  have ok: "sys_ok (gateway_db g)" using cinv by (simp add: credit_inv_def)
  obtain own' where st: "d = gateway_db g \<or> ledger_step (gateway_db g) d" "ids_step (ids ! i) (gateway_db g) own' d"
    "keeps_ledger p own'"
  proof (cases "gw_requests g ! i")
    case (Reply r)
    with run that [of "ids ! i"] ki show thesis by (simp add: ids_step_def)
  next
    case (Query f)
    with run have "f w (gateway_db g) = (p, d)" by simp
    moreover from ki Query ok free have "let out = map_prod keeps_ledger id (f w (gateway_db g)) in
        (snd out = gateway_db g \<or> ledger_step (gateway_db g) (snd out))
        \<and> (\<exists>own'. ids_step (ids ! i) (gateway_db g) own' (snd out) \<and> fst out own')"
      by (simp del: split_paired_All)
    ultimately show thesis using that by (auto simp: Let_def)
  next
    case (Call c k')
    with run that [of "ids ! i"] ki show thesis by (auto simp: ids_step_def)
  qed
  have "owned_ok (?l[?n + i := own']) d" by (rule owned_ok_step [OF o il]) (use st(2) at in simp)
  moreover have "?l[?n + i := own'] = ?ps @ ids[i := own']" by (simp add: list_update_append)
  moreover have "keeps_ledger ((gw_requests g)[i := p] ! j) (ids[i := own'] ! j)" if "j < length ids" for j
    using that k st(3) len by (cases "j = i") simp_all
  ultimately show ?thesis using st(1) len by (intro exI [of _ "ids[i := own']"]) simp
qed

lemma gateway_step_good:
  assumes "gateway_step kc g g'" and "gateway_inv g"
  shows "(gw_credit g' = gw_credit g \<or> credit_sys_step (credit_config.truncate kc) (gw_credit g) (gw_credit g')) \<and> gateway_inv g'"
  using assms
proof (induction rule: gateway_step.induct)
  case (gateway_settle_arrives g body apiMerchant)
  then obtain ids where own: "gateway_owns g ids" "credit_inv (gw_credit g)" by (auto simp: gateway_inv_def)
  let ?ps = "map pending (ks_requests (gw_credit g))"
  have "owned_ok (?ps @ [None] @ ids) (gateway_db g)"
    by (rule owned_ok_insert) (use own(1) in \<open>simp add: gateway_owns_def\<close>)
  with own credit_inv_step [OF credit_arrive [of _ "gw_credit g" body apiMerchant] own(2)]
  show ?case using credit_arrive by (auto simp: gateway_inv_def gateway_owns_def)
next
  case (gateway_settle i g w)
  then show ?case using gateway_settle_inv credit_progress by auto
next
  case (gateway_verify_arrives g body)
  then show ?case by (simp add: gateway_inv_def gateway_owns_def)
next
  case (gateway_verify i g w ph d)
  then obtain ids where own: "gateway_owns g ids" "credit_inv (gw_credit g)" by (auto simp: gateway_inv_def)
  have st: "d = gateway_db g \<or> ledger_step (gateway_db g) d" and same: "settled_ids d = settled_ids (gateway_db g)"
    using verify_step_ledger [OF gateway_verify(2)] by (simp_all add: settled_ids_def)
  have "owned_ok (map pending (ks_requests (gw_credit g)) @ ids) d"
    using own(1) by (intro owned_ok_same [OF _ same ledger_step_recorded [OF st]]) (simp add: gateway_owns_def)
  moreover have "g\<lparr>gw_verifies := vs, gw_requests := gw_requests g\<rparr> = g\<lparr>gw_verifies := vs\<rparr>" for vs by (cases g) simp
  ultimately show ?case
    using elsewhere_credit [OF st] elsewhere_inv [OF own(2) st, of ids "gw_requests g" "(gw_verifies g)[i := ph]"] own(1)
    by (auto simp: gateway_owns_def put_db_def)
next
  case (gateway_arrives p g)
  then obtain ids where own: "gateway_owns g ids" "credit_inv (gw_credit g)" by (auto simp: gateway_inv_def)
  then have "gateway_owns (g\<lparr>gw_requests := gw_requests g @ [p]\<rparr>) (ids @ [None])"
    using owned_ok_arrive kizuna_route_keeps [OF gateway_arrives(1)]
    by (auto simp: gateway_owns_def nth_append less_Suc_eq simp flip: append_assoc)
  with own(2) show ?case by (auto simp: gateway_inv_def)
next
  case (gateway_request i g answers w p d calls)
  then have "credit_inv (gw_credit g)" by (simp add: gateway_inv_def)
  moreover obtain ids where "d = gateway_db g \<or> ledger_step (gateway_db g) d"
    "owned_ok (map pending (ks_requests (gw_credit g)) @ ids) d" "length ids = length (gw_requests g)"
    "\<forall>j < length ids. keeps_ledger ((gw_requests g)[i := p] ! j) (ids ! j)"
    using gateway_request_step [OF gateway_request(3,1,2)] by blast
  ultimately show ?case
    using elsewhere_credit [of d g ids] elsewhere_inv [of g d ids "(gw_requests g)[i := p]" "gw_verifies g"]
    by (auto simp: put_db_def)
next
  case (gateway_elsewhere g d)
  then obtain ids where own: "gateway_owns g ids" "credit_inv (gw_credit g)" by (auto simp: gateway_inv_def)
  then have "owned_ok (map pending (ks_requests (gw_credit g)) @ ids) d"
    using gateway_elsewhere(1) by (intro owned_ok_same [OF _ gateway_elsewhere(2) ledger_step_recorded]) (simp_all add: gateway_owns_def)
  with elsewhere_credit [of d g ids] elsewhere_inv [of g d ids "gw_requests g" "gw_verifies g"] own gateway_elsewhere(1)
  show ?case by (auto simp: gateway_owns_def put_db_def)
qed

lemma gateway_start_inv: "gateway_start g \<Longrightarrow> gateway_inv g"
  using crediting.inv_start
  by (auto simp: gateway_start_def gateway_inv_def gateway_owns_def credit_inv_def ids_ok_def intro!: exI [of _ "[]"])

interpretation gateway_runs: invariant_system gateway_start "gateway_step kc" gateway_inv
  by unfold_locales (auto intro: gateway_start_inv dest: gateway_step_good)

text \<open>The credit requests do not notice the other routes: a run of the gateway is one of the credit system.\<close>

lemma gateway_run_credit:
  assumes "gateway_start g0" and "(gateway_step kc)\<^sup>*\<^sup>* g0 g"
  shows "(credit_sys_step (credit_config.truncate kc))\<^sup>*\<^sup>* (gw_credit g0) (gw_credit g)"
  using assms(2)
proof (induction rule: rtranclp_induct)
  case (step g g')
  have "gateway_inv g" using assms(1) step(1) by (rule gateway_runs.inv_reachable)
  from gateway_step_good [OF step(2) this] step(3) show ?case by (auto intro: rtranclp.rtrancl_into_rtrancl)
qed simp

end
