(* ===== verification/Gateway_Claims.thy ===== *)
theory Gateway_Claims
  imports Kizuna_Gateway
begin

text \<open>
  What the requests of \<open>routes/kizuna.ts\<close> promise: together with the credit requests they go through the ledger machine, each of
  them ends, a fast-lane withdrawal of collateral is never granted, and funding needs no proof.
\<close>

section \<open>Handlers that only look and refuse\<close>

text \<open>Where the databases that a handler reads have a property, it changes none and its answers are of a kind.\<close>

primrec looks_only :: "(db \<Rightarrow> bool) \<Rightarrow> ('r \<Rightarrow> bool) \<Rightarrow> ('c, 'x, 'r) prog \<Rightarrow> bool" where
  "looks_only P R (Reply r) = R r"
| "looks_only P R (Query f) =
     (\<forall>w d. P d \<longrightarrow> (let out = map_prod (looks_only P R) id (f w d) in fst out \<and> snd out = d))"
| "looks_only P R (Call c k) = (\<forall>x. looks_only P R (k x))"

lemma looks_only_step:
  "looks_only P R p \<Longrightarrow> P d \<Longrightarrow> prog_step answers w p d = ((p', d'), calls) \<Longrightarrow> d' = d \<and> looks_only P R p'"
  by (cases p) (auto simp: Let_def dest!: spec [of _ w] spec [of _ d])

lemma looks_only_run:
  "looks_only P R p \<Longrightarrow> \<forall>(answers, w, d) \<in> set ws. P d \<Longrightarrow> looks_only P R (run_prog ws p)"
proof (induction ws arbitrary: p)
  case (Cons e ws)
  obtain answers w d where e: "e = (answers, w, d)" by (cases e)
  obtain p' d' calls where s: "prog_step answers w p d = ((p', d'), calls)" by (metis surj_pair)
  have "looks_only P R p'" using looks_only_step [OF Cons.prems(1) _ s] Cons.prems(2) e by simp
  with Cons.IH [of p'] Cons.prems(2) e s show ?case by simp
qed simp

lemma looks_only_read:
  assumes "\<And>err. looks_only P R (k (Inl err))" and "\<And>d. P d \<Longrightarrow> looks_only P R (k (Inr (f d)))"
  shows "looks_only P R (await_read f k)"
  using assms by (simp add: await_read_def await_def run_query_def withTransaction_def getT_def Let_def)

lemma read_step: "\<not> qw_fails w \<Longrightarrow> prog_step answers w (await_read f k) d = ((k (Inr (f d)), d), [])"
  by (simp add: await_read_def await_def run_query_def withTransaction_def getT_def)

definition refused_answer :: "kizuna_response \<Rightarrow> bool" where
  "refused_answer r = (case r of KizunaError status msg \<Rightarrow> True | _ \<Rightarrow> False)"

lemma refused_answers [simp]:
  "looks_only P refused_answer (sendError status msg)" "looks_only P refused_answer (uncaught err)"
  "looks_only P refused_answer (errorHandler msg)" "looks_only P refused_answer (refuse rs)"
  by (simp_all add: error_answers refused_answer_def)

section \<open>Withdrawing fast-lane collateral\<close>

text \<open>Positions below ten billion USDC and discounts within a hundred percent.\<close>

definition modest_collateral :: "db \<Rightarrow> bool" where
  "modest_collateral d =
     ((\<forall>x \<in> set (t_collateral_positions d). position_available x < 10 ^ 16) \<and>
      (\<forall>a \<in> ran (t_collateral_assets d). 0 \<le> ca_haircut_bps a \<and> ca_haircut_bps a \<le> 10000))"

lemma join_assets_mem: "x \<in> set (join_assets A ps) \<Longrightarrow> fst x \<in> set ps \<and> A (cp_asset_id (fst x)) = Some (snd x)"
  by (induction ps) (auto split: option.splits)

lemma BigInt_scaled: "0 < pg_scale x \<Longrightarrow> BigInt_of_string (pg_text x) = None"
  by (simp add: pg_text_def BigInt_point)

text \<open>The value of every asset of a position is a text that is not a whole number.\<close>

lemma position_values_scaled:
  assumes "modest_collateral d" and "getKizunaCollateralPosition agentId poolId account d = Some pv" and "a \<in> set (pv_assets pv)"
  shows "BigInt_of_string (av_effectiveCollateralMicro a) = None"
proof -
  obtain x ps where a: "a = asset_view_of x" and x: "x \<in> set (join_assets (t_collateral_assets d) ps)"
    and ps: "set ps \<subseteq> set (t_collateral_positions d)"
  proof -
    let ?ps = "filter (\<lambda>p. cp_agent_id p = agentId \<and> cp_pool_id p = poolId \<and> cp_collateral_account p = account \<and>
        cp_status p = PositionActive) (t_collateral_positions d)"
    have "pv_assets pv = map asset_view_of (join_assets (t_collateral_assets d) ?ps)"
      using assms(2) by (auto simp: getKizunaCollateralPosition_def Let_def split: if_splits)
    with assms(3) that [of _ ?ps] show thesis by auto
  qed
  have "fst x \<in> set (t_collateral_positions d)" "snd x \<in> ran (t_collateral_assets d)"
    using join_assets_mem [OF x] ps by (auto intro: ranI)
  then have "position_available (fst x) < 10 ^ 16" "0 \<le> ca_haircut_bps (snd x)" "ca_haircut_bps (snd x) \<le> 10000"
    using assms(1) by (auto simp: modest_collateral_def)
  moreover then have "position_available (fst x) * (10000 - ca_haircut_bps (snd x)) \<le> position_available (fst x) * 10000"
    by (intro mult_left_mono) (auto simp: position_available_def)
  ultimately have "0 < pg_scale (effective_value (snd x) (fst x))" by (intro effective_value_scaled) simp
  then show ?thesis by (simp add: a asset_view_of_def BigInt_scaled)
qed

lemma withdrawal_refused:
  assumes "\<And>pv a. position = Some pv \<Longrightarrow> a \<in> set (pv_assets pv) \<Longrightarrow> BigInt_of_string (av_effectiveCollateralMicro a) = None"
  shows "looks_only P refused_answer (withdrawal_checks kc q pool summary position)"
  using assms
  by (auto simp: withdrawal_checks_def find_Some_iff split: option.split)

section \<open>Properties\<close>

text \<open>
  Claim C13. All credit traffic refines the ledger: whatever credit requests at \<open>POST /verify\<close> and \<open>POST /settle\<close> and whatever
  requests of \<open>routes/kizuna.ts\<close> (jobs, accounts, repayments, funding, collateral) are in flight, interleaved statement by statement
  with failing statements and any answers of the other services, the ledger goes through a run of the ledger machine.
  So the ledger balances at every moment of such a run and everything else shown of the machine's runs holds.
\<close>

theorem gateway_refines_ledger:
  assumes "gateway_start g0" and "(gateway_step kc)\<^sup>*\<^sup>* g0 g"
  shows "ledger_step\<^sup>*\<^sup>* (gateway_db g0) (gateway_db g)"
  using credit_run_refines [OF _ gateway_run_credit [OF assms]] assms(1) by (simp add: gateway_start_def)


text \<open>
  Claim C22. Fast-lane collateral cannot be withdrawn: below ten billion USDC, every request to withdraw it is
  answered with an error and changes nothing, because the value of the position is a text with a decimal point, which
  \<open>BigInt\<close> does not take.
\<close>

theorem fast_withdrawal_refused:
  assumes "collateral_request_of kc True agentId (asRecord body) = Inr q" and "cw_lane q = CryptoFast"
    and "\<forall>(answers, w, d) \<in> set ws. modest_collateral d"
    and "run_prog ws (post_collateral_withdraw kc agentId body) = p"
  shows "(\<forall>r. p = Reply r \<longrightarrow> (\<exists>status msg. r = KizunaError status msg)) \<and>
         (modest_collateral d \<longrightarrow> snd (fst (prog_step answers w p d)) = d)"
proof -
  have "looks_only modest_collateral refused_answer (post_collateral_withdraw kc agentId body)"
    unfolding post_collateral_withdraw_def when_enabled_def with_collateral_pool_def assms(1)
    using assms(2)
    by (auto intro!: looks_only_read withdrawal_refused position_values_scaled split: option.split)
  from looks_only_run [OF this assms(3)] have p: "looks_only modest_collateral refused_answer p" by (simp add: assms(4))
  then have "\<exists>status msg. r = KizunaError status msg" if "p = Reply r" for r
    using that by (cases r) (simp_all add: refused_answer_def)
  moreover have "snd (fst (prog_step answers w p d)) = d" if "modest_collateral d"
    using looks_only_step [OF p that, of answers w] by (metis prod.collapse)
  ultimately show ?thesis by blast
qed

text \<open>
  Funding needs no proof: a confirmation that names an account, an enterprise pool and a reference not used
  before adds the amount that it names to the account's spendable balance; nothing of the request but
  these fields is looked at, and no transaction.
\<close>

theorem funding_needs_no_proof:
  assumes "cc_KIZUNA_ENABLED kc" and "fund_request_of kc True agentId (asRecord body) = Inr q"
    and "getKizunaAccount (fq_agentId q) d = Some account" and "getKizunaPool (fq_poolId q) d = Some pool" and "pw_lane pool = Enterprise"
    and "\<not> qw_fails w1" and "\<not> qw_fails w2" and "\<not> qw_fails w3" and "ledger_ok d" and "0 < fq_amountMicro q"
    and "applyKizunaFundingEvent (qw_env w3) (funding_of q Deposit) d = Inr (res, d')" and "\<not> fg_idempotent res"
    and "p = run_prog [(x1, w1, d), (x2, w2, d)] (post_funding_event Deposit kc agentId body)"
  shows "prog_step x3 w3 p d = ((Reply (Funded Enterprise (fq_poolId q) res), d'), []) \<and>
         prefund_available d' (fq_agentId q, fq_poolId q) = prefund_available d (fq_agentId q, fq_poolId q) + fq_amountMicro q"
proof -
  have "p = await (\<lambda>e _. applyKizunaFundingEvent e (funding_of q Deposit)) (catching (failing 409) (\<lambda>res.
              Reply (Funded Enterprise (fq_poolId q) res)))"
    unfolding assms(13) using assms(1-7)
    by (simp add: post_funding_event_def when_enabled_def with_enterprise_pool_def read_step)
  then have "prog_step x3 w3 p d = ((Reply (Funded Enterprise (fq_poolId q) res), d'), [])"
    using assms(8,11) by (simp add: await_def run_query_def withTransaction_def)
  moreover have "parseMicro (Some (fd_amountMicro (funding_of q Deposit))) = fq_amountMicro q"
    using assms(10) by (simp add: funding_of_def)
  ultimately show ?thesis
    using funding_moves_available [OF assms(9,11,12)] by (simp add: Let_def funding_of_def signed_flow_def)
qed

section \<open>Witnesses\<close>

definition gateway_demo_config :: kizuna_config where
  "gateway_demo_config = verify_config.extend service_vc
     \<lparr>kc_KIZUNA_INTERNAL_TOKEN = ''k'', kc_KIZUNA_FASTPATH_ASSET_HAIRCUT_BPS = 500, kc_KIZUNA_FASTPATH_MIN_HEALTH_FACTOR = 3 / 2\<rparr>"

lemma gateway_demo_settings:
  "cc_KIZUNA_ENABLED gateway_demo_config" "cc_KIZUNA_SECURED_ONLY gateway_demo_config = False"
  "cc_KIZUNA_ENTERPRISE_POOL_ID (credit_config.truncate gateway_demo_config) = ''enterprise-main''"
  "cc_KIZUNA_FASTPATH_POOL_ID (credit_config.truncate gateway_demo_config) = ''fastpath-main''"
  by (simp_all add: gateway_demo_config_def service_vc_def service_config_def credit_demo_config_def pay_config_def
      verify_config.defs credit_config.defs direct_config.defs)

text \<open>An account is opened, and whoever knows its name funds it with 25 micro.\<close>

definition demo_funding_body :: "json option" where
  "demo_funding_body = Some (JObj [(''referenceId'', JStr ''f1''), (''amountMicro'', JStr ''25'')])"

definition demo_funding :: fund_request where
  "demo_funding = \<lparr>fq_agentId = ''agent-1'', fq_poolId = ''enterprise-main'', fq_referenceId = ''f1'', fq_txHash = None, fq_amountMicro = 25\<rparr>"

lemma demo_funding_fields:
  "fq_agentId demo_funding = ''agent-1''" "fq_poolId demo_funding = ''enterprise-main''"
  by (simp_all add: demo_funding_def)

lemma demo_funding_request:
  "fund_request_of gateway_demo_config True ''agent-1'' (asRecord demo_funding_body) = Inr demo_funding"
proof -
  have "js_trim ''agent-1'' = ''agent-1''" "js_trim ''f1'' = ''f1''" by code_simp+
  moreover have "parsePositiveMicro (Some (JStr ''25'')) = Some 25" by code_simp
  ultimately show ?thesis
    by (simp add: fund_request_of_def demo_funding_body_def demo_funding_def asRecord_def jget_opt_def jget_def
        field_text_def or_text_def asString_def parseLane_def resolvePoolId_def gateway_demo_settings Let_def)
qed

definition demo_world :: query_world where
  "demo_world = \<lparr>qw_env = sample_env 7, qw_uuid = ''u'', qw_fails = False\<rparr>"

lemma demo_world_simps [simp]: "\<not> qw_fails demo_world" "qw_env demo_world = sample_env 7"
  by (simp_all add: demo_world_def)

definition demo_db :: db where
  "demo_db = snd (withTransaction (upsertKizunaAccount (sample_env 1) sample_account) (seed_db 0))"

definition demo_funded :: db where
  "demo_funded = run_state (applyKizunaFundingEvent (sample_env 7) (funding_of demo_funding Deposit)) demo_db"

lemma demo_funding_runs:
  "\<exists>res. applyKizunaFundingEvent (sample_env 7) (funding_of demo_funding Deposit) demo_db = Inr (res, demo_funded)"
  unfolding demo_funded_def by (rule run_state_success) code_simp

lemma demo_reads:
  "\<exists>account. getKizunaAccount (fq_agentId demo_funding) demo_db = Some account"
  "\<exists>pool. getKizunaPool (fq_poolId demo_funding) demo_db = Some pool \<and> pw_lane pool = Enterprise"
  "find (same_funding_reference (funding_of demo_funding Deposit)) (t_funding_events demo_db) = None"
  "t_debts demo_db = []"
proof -
  have "(case getKizunaAccount (fq_agentId demo_funding) demo_db of None \<Rightarrow> False | Some _ \<Rightarrow> True)" by code_simp
  then show "\<exists>account. getKizunaAccount (fq_agentId demo_funding) demo_db = Some account" by (simp split: option.splits)
  have "(case getKizunaPool (fq_poolId demo_funding) demo_db of None \<Rightarrow> False | Some pool \<Rightarrow> pw_lane pool = Enterprise)" by code_simp
  then show "\<exists>pool. getKizunaPool (fq_poolId demo_funding) demo_db = Some pool \<and> pw_lane pool = Enterprise"
    by (simp split: option.splits)
  show "find (same_funding_reference (funding_of demo_funding Deposit)) (t_funding_events demo_db) = None" by code_simp
  show "t_debts demo_db = []" by code_simp
qed

lemma demo_step: "ledger_step (seed_db 0) demo_db"
  unfolding demo_db_def by (rule Ledger_System.ledger_step.step_account)

lemma demo_ledger_ok: "ledger_ok demo_db"
proof -
  have "sys_ok demo_db" using demo_step sys_ok_seed sys_ok_step by blast
  then show ?thesis by (simp add: sys_ok_def)
qed

abbreviation demo_request :: kizuna_prog where
  "demo_request \<equiv> post_funding_event Deposit gateway_demo_config ''agent-1'' demo_funding_body"

theorem funding_needs_no_proof_witness:
  "prefund_available demo_funded (''agent-1'', ''enterprise-main'') = prefund_available demo_db (''agent-1'', ''enterprise-main'') + 25"
proof -
  obtain res where run: "applyKizunaFundingEvent (qw_env demo_world) (funding_of demo_funding Deposit) demo_db = Inr (res, demo_funded)"
    using demo_funding_runs by auto
  obtain account pool where reads: "getKizunaAccount (fq_agentId demo_funding) demo_db = Some account"
    "getKizunaPool (fq_poolId demo_funding) demo_db = Some pool" "pw_lane pool = Enterprise" using demo_reads by blast
  have new: "\<not> fg_idempotent res" using funding_cases [OF run] demo_reads(3) by (auto simp: find_None_iff)
  have pos: "0 < fq_amountMicro demo_funding" by (simp add: demo_funding_def)
  from funding_needs_no_proof [OF gateway_demo_settings(1) demo_funding_request reads demo_world_simps(1) demo_world_simps(1)
      demo_world_simps(1) demo_ledger_ok pos run new refl, of undefined undefined undefined]
  show ?thesis by (simp add: demo_funding_def)
qed

text \<open>The same confirmation in the gateway.\<close>

theorem gateway_refines_ledger_witness: "ledger_step\<^sup>*\<^sup>* (seed_db 0) demo_funded"
proof -
  let ?g = "\<lambda>d ps. \<lparr>gw_credit = \<lparr>ks_db = d, ks_requests = [], ks_paid = []\<rparr>, gw_verifies = [], gw_requests = ps\<rparr>"
  let ?step = "gateway_step gateway_demo_config"
  obtain res where run: "applyKizunaFundingEvent (sample_env 7) (funding_of demo_funding Deposit) demo_db = Inr (res, demo_funded)"
    using demo_funding_runs by auto
  obtain account pool where reads: "getKizunaAccount ''agent-1'' demo_db = Some account"
    "getKizunaPool ''enterprise-main'' demo_db = Some pool" "pw_lane pool = Enterprise"
    using demo_reads by (auto simp: demo_funding_fields)
  have go: "?step (?g d [p]) (?g d' [p'])" if "prog_step undefined demo_world p d = ((p', d'), calls)" for p d p' d' calls
    using gateway_request [of 0 "?g d [p]" undefined demo_world p' d' calls gateway_demo_config] that by (simp add: put_db_def)
  let ?apply = "await (\<lambda>e _. applyKizunaFundingEvent e (funding_of demo_funding Deposit)) (catching (failing 409) (\<lambda>res.
      Reply (Funded Enterprise ''enterprise-main'' res)))"
  let ?pool = "await_read (getKizunaPool ''enterprise-main'') (catching uncaught (\<lambda>pool.
      if Some account = None then sendError 404 ''Kizuna account not found''
      else if (case pool of None \<Rightarrow> True | Some p \<Rightarrow> pw_lane p \<noteq> Enterprise) then sendError 404 ''Enterprise pool not found''
      else ?apply))"
  have "prog_step undefined demo_world demo_request demo_db = ((?pool, demo_db), [])"
    by (simp add: post_funding_event_def when_enabled_def gateway_demo_settings demo_funding_request with_enterprise_pool_def
        read_step demo_funding_fields reads)
  note s1 = go [OF this]
  have "prog_step undefined demo_world ?pool demo_db = ((?apply, demo_db), [])" by (simp add: read_step reads)
  note s2 = go [OF this]
  have "prog_step undefined demo_world ?apply demo_db = ((Reply (Funded Enterprise ''enterprise-main'' res), demo_funded), [])"
    by (simp add: await_def run_query_def withTransaction_def run)
  note s3 = go [OF this]
  have "?step (?g (seed_db 0) []) (?g demo_db [])"
    using gateway_elsewhere [of "?g (seed_db 0) []" demo_db gateway_demo_config] demo_step demo_reads(4)
    by (simp add: put_db_def settled_ids_def seed_db_def)
  moreover have "?step (?g demo_db []) (?g demo_db [demo_request])"
    using gateway_arrives [of gateway_demo_config demo_request "?g demo_db []"] by (simp add: kizuna_route.intros)
  ultimately have run: "?step\<^sup>*\<^sup>* (?g (seed_db 0) []) (?g demo_funded [Reply (Funded Enterprise ''enterprise-main'' res)])"
    using s1 s2 s3 by (meson rtranclp.rtrancl_into_rtrancl rtranclp.rtrancl_refl)
  have "gateway_start (?g (seed_db 0) [])" by (simp add: gateway_start_def credit_start_def)
  from gateway_refines_ledger [OF this run] show ?thesis by simp
qed


text \<open>Five dollars of collateral, of which the account asks one back.\<close>

definition demo_withdrawal_body :: "json option" where
  "demo_withdrawal_body = Some (JObj [(''lane'', JStr ''crypto-fast''), (''collateralAccount'', JStr ''vault''),
     (''referenceId'', JStr ''w1''), (''amountMicro'', JStr ''1000000'')])"

definition demo_withdrawal :: collateral_request where
  "demo_withdrawal = \<lparr>cw_agentId = ''agent-1'', cw_lane = CryptoFast, cw_poolId = ''fastpath-main'', cw_collateralAccount = ''vault'',
     cw_assetId = ''usdc'', cw_referenceId = ''w1'', cw_txHash = None, cw_amountMicro = 1000000\<rparr>"

lemma demo_withdrawal_request:
  "collateral_request_of gateway_demo_config True ''agent-1'' (asRecord demo_withdrawal_body) = Inr demo_withdrawal"
proof -
  have "js_trim ''agent-1'' = ''agent-1''" "js_trim ''w1'' = ''w1''" "js_trim ''vault'' = ''vault''"
    "js_trim ''crypto-fast'' = ''crypto-fast''" by code_simp+
  moreover have "parsePositiveMicro (Some (JStr ''1000000'')) = Some 1000000" by code_simp
  ultimately show ?thesis
    by (simp add: collateral_request_of_def demo_withdrawal_body_def demo_withdrawal_def asRecord_def jget_opt_def jget_def
        field_text_def or_text_def asString_def parseLane_def resolvePoolId_def gateway_demo_settings collateral_lane_check_def
        Let_def)
qed

lemma demo_modest: "modest_collateral sample_secured"
  by (auto simp: modest_collateral_def sample_secured_def sample_position_def new_position_def position_available_def
      sample_ledger_def seed_db_def ran_def split: if_splits)

theorem fast_withdrawal_refused_witness:
  "\<exists>status msg. run_prog (replicate 6 (undefined, demo_world, sample_secured))
     (post_collateral_withdraw gateway_demo_config ''agent-1'' demo_withdrawal_body) = Reply (KizunaError status msg)"
proof -
  let ?ws = "replicate 6 (undefined, demo_world, sample_secured)"
    and ?p = "post_collateral_withdraw gateway_demo_config ''agent-1'' demo_withdrawal_body"
  have "\<exists>r. run_prog ?ws ?p = Reply r" by (rule answers_within_ends [OF collateral_routes_end(3)]) simp
  then obtain r where r: "run_prog ?ws ?p = Reply r" ..
  have lane: "cw_lane demo_withdrawal = CryptoFast" by (simp add: demo_withdrawal_def)
  have ws: "\<forall>(answers, w, d) \<in> set ?ws. modest_collateral d" using demo_modest by simp
  have "\<exists>status msg. r = KizunaError status msg"
    using fast_withdrawal_refused [OF demo_withdrawal_request lane ws r, THEN conjunct1, rule_format, OF refl] .
  then show ?thesis using r by metis
qed

end
