(* ===== verification/Underwriting.thy ===== *)
theory Underwriting
  imports Credit_Verify
begin

text \<open>
  The local underwriting model (\<open>services/kizuna-underwrite.ts\<close>): a credit score from the history of an account, the limit it
  gives, and what of a request is approved.  \<open>Math.exp\<close>, whose precision is the implementation's, is an argument.
\<close>

section \<open>The score\<close>

record score_input =
  si_disputeWinRate :: "rat option"
  si_onTimeRepaymentRate :: "rat option"
  si_avgQualityScore :: rat
  si_tenureDays :: rat
  si_inactiveDays :: rat
  si_pledgedAmount :: rat
  si_tierBaseLimit :: rat
  si_escrowsCompleted :: rat

record score_output =
  so_rawScore :: rat
  so_effectiveLimit :: rat

definition clamp :: "rat \<Rightarrow> rat \<Rightarrow> rat \<Rightarrow> rat" where
  "clamp v lo hi = max lo (min hi v)"

text \<open>\<open>Math.LN2\<close>.\<close>

definition LN2 :: rat where
  "LN2 = 6243314768165359 / 2 ^ 53"

definition computeAgingPenalty :: "(rat \<Rightarrow> rat) \<Rightarrow> rat \<Rightarrow> rat \<Rightarrow> rat" where
  "computeAgingPenalty exp_of inactiveDays halfLifeDays =
     (if inactiveDays \<le> 0 then 1
      else if halfLifeDays \<le> 0 then 0
      else exp_of (fl (- inactiveDays * fl (LN2 / halfLifeDays))))"

definition raw_score :: "score_input \<Rightarrow> rat" where
  "raw_score q =
     (let disputeComponent = (case si_disputeWinRate q of Some r \<Rightarrow> fl (250 * clamp r 0 1) | None \<Rightarrow> 200);
          repaymentComponent = (case si_onTimeRepaymentRate q of Some r \<Rightarrow> fl (250 * clamp r 0 1) | None \<Rightarrow> 125);
          qualityComponent = fl (250 * fl (clamp (si_avgQualityScore q) 0 100 / 100));
          tenureComponent = fl (250 * min 1 (fl (max 0 (si_tenureDays q) / 180))) in
      clamp (fl (fl (fl (disputeComponent + repaymentComponent) + qualityComponent) + tenureComponent)) 0 1000)"

definition computeCreditScore :: "(rat \<Rightarrow> rat) \<Rightarrow> score_input \<Rightarrow> score_output" where
  "computeCreditScore exp_of q =
     (let rawScore = raw_score q;
          multiplier = fl (fl (rawScore / 200) * computeAgingPenalty exp_of (si_inactiveDays q) 30);
          collateralBoost = fl (max 0 (si_pledgedAmount q) * 3);
          escrows = max 0 \<lfloor>si_escrowsCompleted q\<rfloor>;
          baseLimit = max 0 (si_tierBaseLimit q) in
      \<lparr>so_rawScore = rawScore,
       so_effectiveLimit = (if escrows < 3 then 0 else fl (fl (baseLimit * multiplier) + collateralBoost))\<rparr>)"

section \<open>The decision\<close>

record underwrite_input =
  ui_requestedMicro :: int
  ui_outstandingMicro :: int
  ui_maxSingleMicro :: int
  ui_mandateSingleLimitMicro :: "int option"
  ui_snapshot :: underwrite_snapshot
  ui_nowMs :: int

datatype underwrite_tier = Guarded | Standard | Trusted

record underwrite_result =
  ux_approved :: bool
  ux_approvedMicro :: int
  ux_availableMicro :: int
  ux_outstandingMicro :: int
  ux_scoreRaw :: int
  ux_reasonCodes :: "string list"
  ux_tier :: underwrite_tier

definition toSafeNumber :: "int \<Rightarrow> rat" where
  "toSafeNumber v = (if v \<le> 0 then 0 else of_int (min v 9007199254740991))"

definition tierForScore :: "int \<Rightarrow> underwrite_tier" where
  "tierForScore scoreRaw = (if 700 \<le> scoreRaw then Trusted else if 420 \<le> scoreRaw then Standard else Guarded)"

definition hard_cap :: "underwrite_input \<Rightarrow> int" where
  "hard_cap q =
     (case ui_mandateSingleLimitMicro q of
        Some m \<Rightarrow> if 0 < m then (if m < ui_maxSingleMicro q then m else ui_maxSingleMicro q) else ui_maxSingleMicro q
      | None \<Rightarrow> ui_maxSingleMicro q)"

definition days_since :: "int \<Rightarrow> int \<Rightarrow> rat" where
  "days_since now t = of_int (max 0 \<lfloor>fl (of_int (now - t) / 86400000)\<rfloor>)"

definition score_input_of :: "underwrite_input \<Rightarrow> score_input" where
  "score_input_of q =
     (let sn = ui_snapshot q;
          rate = (\<lambda>part whole. if 0 < whole then Some (fl (of_int part / of_int whole)) else None) in
      \<lparr>si_disputeWinRate = rate (sn_disputesWon sn) (sn_disputesFiled sn),
       si_onTimeRepaymentRate = rate (sn_debtsClosed sn) (sn_debtsTotal sn),
       si_avgQualityScore = (if 0 < sn_avgQuality sn then sn_avgQuality sn else 75),
       si_tenureDays = days_since (ui_nowMs q) (sn_accountCreatedAt sn),
       si_inactiveDays = days_since (ui_nowMs q) (sn_latestActivityAt sn),
       si_pledgedAmount = 0, si_tierBaseLimit = toSafeNumber (hard_cap q),
       si_escrowsCompleted = of_int (sn_settlementsConfirmed sn)\<rparr>)"

definition reason_codes :: "int \<Rightarrow> int \<Rightarrow> int \<Rightarrow> int \<Rightarrow> int \<Rightarrow> string list" where
  "reason_codes requested hardCap modelLimit available approvedMicro =
     (let codes =
        (if hardCap < requested then [''hard_cap_exceeded''] else []) @
        (if modelLimit \<le> 0 then [''model_limit_zero''] else []) @
        (if available \<le> 0 then [''no_available_credit''] else []) @
        (if 0 < approvedMicro \<and> approvedMicro < requested then [''partial_approval''] else []) in
      if codes = [] then [''approved''] else codes)"

definition runKizunaUnderwrite :: "(rat \<Rightarrow> rat) \<Rightarrow> underwrite_input \<Rightarrow> underwrite_result" where
  "runKizunaUnderwrite exp_of q =
     (let hardCap = hard_cap q;
          scoring = computeCreditScore exp_of (score_input_of q);
          modelLimit = \<lfloor>max 0 (so_effectiveLimit scoring)\<rfloor>;
          effectiveLimit = (if modelLimit < hardCap then modelLimit else hardCap);
          outstanding = max 0 (ui_outstandingMicro q);
          available = (if outstanding < effectiveLimit then effectiveLimit - outstanding else 0);
          requested = max 0 (ui_requestedMicro q);
          approvedMicro = (if requested < available then requested else available);
          scoreRaw = \<lfloor>so_rawScore scoring + 1 / 2\<rfloor> in
      \<lparr>ux_approved = (0 < approvedMicro), ux_approvedMicro = approvedMicro, ux_availableMicro = available,
       ux_outstandingMicro = outstanding, ux_scoreRaw = scoreRaw,
       ux_reasonCodes = reason_codes requested hardCap modelLimit available approvedMicro,
       ux_tier = tierForScore scoreRaw\<rparr>)"

section \<open>Properties\<close>

lemma raw_score_range: "0 \<le> raw_score q \<and> raw_score q \<le> 1000"
  by (simp add: raw_score_def Let_def clamp_def)

lemma hard_cap_bounds:
  "hard_cap q \<le> ui_maxSingleMicro q"
  "ui_mandateSingleLimitMicro q = Some m \<Longrightarrow> 0 < m \<Longrightarrow> hard_cap q \<le> m"
  by (auto simp: hard_cap_def split: option.split)

lemma within_cap:
  "limit = (if model < cap then model else cap) \<Longrightarrow> available = (if out < limit then limit - out else 0) \<Longrightarrow>
     approved = (if requested < available then requested else available) \<Longrightarrow> 0 < approved \<Longrightarrow> approved + out \<le> (cap :: int)"
  by (auto split: if_splits)

lemma approved_reason:
  "limit = (if model < cap then model else cap) \<Longrightarrow> available = (if out < limit then limit - out else 0) \<Longrightarrow>
     approved = (if requested < available then requested else available) \<Longrightarrow> 0 < requested \<Longrightarrow> 0 \<le> out \<Longrightarrow>
     reason_codes requested cap model available approved = [''approved''] \<longleftrightarrow> approved = requested"
  by (auto simp: reason_codes_def Let_def split: if_splits)

text \<open>
  Claim C37. Underwriting keeps to every limit: what is approved is at most what was asked for, together with what is owed already it is at most
  the configured maximum and the mandate of the account, an account with fewer than three confirmed settlements gets
  nothing, the score is between 0 and 1000, and a request that is approved in full, and no other, has the one reason \<open>approved\<close>, but for
  a request for nothing.
\<close>

theorem underwriting_within_limits:
  "let r = runKizunaUnderwrite exp_of q in
         0 \<le> ux_approvedMicro r \<and> ux_approvedMicro r \<le> max 0 (ui_requestedMicro q) \<and>
         0 \<le> ux_scoreRaw r \<and> ux_scoreRaw r \<le> 1000 \<and>
         (ux_approved r \<longrightarrow> ux_approvedMicro r + max 0 (ui_outstandingMicro q) \<le> ui_maxSingleMicro q) \<and>
         (\<forall>m. ux_approved r \<and> ui_mandateSingleLimitMicro q = Some m \<and> 0 < m \<longrightarrow>
            ux_approvedMicro r + max 0 (ui_outstandingMicro q) \<le> m) \<and>
         (sn_settlementsConfirmed (ui_snapshot q) < 3 \<longrightarrow> \<not> ux_approved r) \<and>
         (0 < ui_requestedMicro q \<longrightarrow> (ux_reasonCodes r = [''approved''] \<longleftrightarrow> ux_approvedMicro r = ui_requestedMicro q))"
proof -
  define r where "r = runKizunaUnderwrite exp_of q"
  define sc where "sc = computeCreditScore exp_of (score_input_of q)"
  define model where "model = \<lfloor>max 0 (so_effectiveLimit sc)\<rfloor>"
  define cap where "cap = hard_cap q"
  define out where "out = max 0 (ui_outstandingMicro q)"
  define req where "req = max 0 (ui_requestedMicro q)"
  define limit where "limit = (if model < cap then model else cap)"
  define avail where "avail = (if out < limit then limit - out else 0)"
  define ok where "ok = (if req < avail then req else avail)"
  have r: "ux_approved r = (0 < ok)" "ux_approvedMicro r = ok" "ux_scoreRaw r = \<lfloor>so_rawScore sc + 1 / 2\<rfloor>"
    "ux_reasonCodes r = reason_codes req cap model avail ok"
    unfolding r_def runKizunaUnderwrite_def Let_def underwrite_result.simps ok_def avail_def limit_def req_def out_def cap_def
      model_def sc_def by (rule refl)+
  have "so_rawScore sc = raw_score (score_input_of q)" by (simp add: sc_def computeCreditScore_def Let_def)
  then have "0 \<le> ux_scoreRaw r \<and> ux_scoreRaw r \<le> 1000"
    using raw_score_range [of "score_input_of q"] by (simp add: r floor_le_iff)
  moreover have "0 \<le> ok" "ok \<le> req" by (simp_all add: ok_def avail_def req_def)
  moreover have "ok + out \<le> cap" if "0 < ok" using within_cap [OF limit_def avail_def ok_def that] .
  moreover have "model = 0" if "sn_settlementsConfirmed (ui_snapshot q) < 3"
    using that by (simp add: model_def sc_def computeCreditScore_def score_input_of_def Let_def)
  moreover have "model = 0 \<Longrightarrow> ok \<le> 0" by (auto simp: ok_def avail_def limit_def out_def)
  moreover have "reason_codes req cap model avail ok = [''approved''] \<longleftrightarrow> ok = req" if "0 < req"
    using approved_reason [OF limit_def avail_def ok_def that] by (simp add: out_def)
  ultimately show ?thesis
    using hard_cap_bounds [of q] unfolding r_def [symmetric] Let_def
    by (auto simp: r(1,2,4) cap_def out_def req_def intro: order_trans)
qed

text \<open>A history without a blemish: the whole request is approved.\<close>

definition perfect_input :: underwrite_input where
  "perfect_input =
     \<lparr>ui_requestedMicro = 250000, ui_outstandingMicro = 500000, ui_maxSingleMicro = 1000000, ui_mandateSingleLimitMicro = Some 800000,
      ui_snapshot =
        \<lparr>sn_accountCreatedAt = 0, sn_settlementsConfirmed = 9, sn_disputesFiled = 1, sn_disputesWon = 1, sn_avgQuality = 100,
         sn_debtsTotal = 1, sn_debtsClosed = 1, sn_latestActivityAt = 180 * 86400000\<rparr>,
      ui_nowMs = 180 * 86400000\<rparr>"

lemma perfect_score: "computeCreditScore exp_of (score_input_of perfect_input) = \<lparr>so_rawScore = 1000, so_effectiveLimit = 4000000\<rparr>"
  using fl_int [of 1] fl_int [of 180] fl_int [of 250] fl_int [of 500] fl_int [of 750] fl_int [of 1000] fl_int [of 5] fl_int [of 4000000]
  by (simp add: computeCreditScore_def raw_score_def score_input_of_def perfect_input_def clamp_def days_since_def
      computeAgingPenalty_def toSafeNumber_def hard_cap_def Let_def)

theorem underwriting_within_limits_witness:
  "ux_approvedMicro (runKizunaUnderwrite (\<lambda>_. 0) perfect_input) = 250000 \<and>
   ux_reasonCodes (runKizunaUnderwrite (\<lambda>_. 0) perfect_input) = [''approved''] \<and>
   ux_approvedMicro (runKizunaUnderwrite (\<lambda>_. 0) perfect_input) + 500000 \<le> 800000"
proof -
  have r: "ux_approvedMicro (runKizunaUnderwrite (\<lambda>_. 0) perfect_input) = 250000"
    "ux_approved (runKizunaUnderwrite (\<lambda>_. 0) perfect_input)"
    by (simp_all add: runKizunaUnderwrite_def perfect_score Let_def) (simp_all add: perfect_input_def hard_cap_def)
  show ?thesis
    using underwriting_within_limits [of "\<lambda>_. 0" perfect_input] r by (simp add: Let_def perfect_input_def)
qed

end
