(* ===== verification/Access_Control.thy ===== *)
theory Access_Control
  imports Schema Js_Text
begin

text \<open>
  The middleware in front of the routes: API keys and the internal token (\<open>middleware/auth.ts\<close>), and the rate limit
  (\<open>middleware/rate-limit.ts\<close>), which counts requests in the database and falls back to memory when that fails.
\<close>

section \<open>API keys and the internal token\<close>

record api_key =
  ak_id :: string
  ak_key_hash :: string
  ak_merchant_wallet :: string
  ak_rate_limit :: int
  ak_revoked :: bool

text \<open>What the middleware leaves on the request.\<close>

record authenticated =
  au_merchantWallet :: string
  au_apiKeyId :: string
  au_rateLimit :: int

definition hashApiKey :: "env \<Rightarrow> string \<Rightarrow> string" where
  "hashApiKey e key = env_sha256 e key"

definition find_key :: "env \<Rightarrow> string \<Rightarrow> api_key list \<Rightarrow> authenticated option" where
  "find_key e key rows =
     (case find (\<lambda>r. ak_key_hash r = hashApiKey e key \<and> \<not> ak_revoked r) rows of
        None \<Rightarrow> None
      | Some row \<Rightarrow>
          Some \<lparr>au_merchantWallet = ak_merchant_wallet row, au_apiKeyId = ak_id row, au_rateLimit = ak_rate_limit row\<rparr>)"

definition apiKeyAuth :: "env \<Rightarrow> string option \<Rightarrow> api_key list \<Rightarrow> string + authenticated" where
  "apiKeyAuth e header rows =
     (case header of
        None \<Rightarrow> Inl ''Missing X-API-Key header''
      | Some key \<Rightarrow>
          if key = [] then Inl ''Missing X-API-Key header''
          else (case find_key e key rows of None \<Rightarrow> Inl ''Invalid API key'' | Some a \<Rightarrow> Inr a))"

definition optionalApiKeyAuth :: "env \<Rightarrow> string option \<Rightarrow> api_key list \<Rightarrow> authenticated option" where
  "optionalApiKeyAuth e header rows =
     (case header of None \<Rightarrow> None | Some key \<Rightarrow> if key = [] then None else find_key e key rows)"

text \<open>
  \<open>/^Bearer\s+(.+)$/i\<close> on a header, which has no line breaks: the word, white space, and at least one more character.
\<close>

definition bearer_token :: "string \<Rightarrow> string option" where
  "bearer_token header =
     (let rest = drop 6 header in
      if js_lower (take 6 header) = ''bearer'' \<and> 2 \<le> length rest \<and> js_space (hd rest) then Some (js_trim rest) else None)"

definition readInternalToken :: "string option \<Rightarrow> string list \<Rightarrow> string" where
  "readInternalToken authorization direct =
     (case Option.bind authorization bearer_token of
        Some t \<Rightarrow> t
      | None \<Rightarrow> (case direct of h # _ \<Rightarrow> js_trim h | [] \<Rightarrow> []))"

definition internalTokenAuth :: "string \<Rightarrow> string option \<Rightarrow> string list \<Rightarrow> bool" where
  "internalTokenAuth configured authorization direct =
     (let expected = js_trim configured; provided = readInternalToken authorization direct in
      expected \<noteq> [] \<and> provided \<noteq> [] \<and> provided = expected)"

lemma apiKeyAuth_known:
  "apiKeyAuth e header rows = Inr a \<Longrightarrow>
     \<exists>key row. header = Some key \<and> row \<in> set rows \<and> ak_key_hash row = hashApiKey e key \<and> \<not> ak_revoked row \<and>
               au_apiKeyId a = ak_id row \<and> au_merchantWallet a = ak_merchant_wallet row"
  by (fastforce simp: apiKeyAuth_def find_key_def find_Some_iff in_set_conv_nth split: option.splits if_splits)

section \<open>The rate limit\<close>

definition WINDOW_MS :: int where
  "WINDOW_MS = 60000"

definition DEFAULT_LIMIT :: int where
  "DEFAULT_LIMIT = 100"

text \<open>\<open>resolveLimit\<close> of \<open>Number(value)\<close>.\<close>

definition resolveLimit :: "js_num \<Rightarrow> int" where
  "resolveLimit parsed = (case parsed of Finite x \<Rightarrow> if x \<le> 0 then DEFAULT_LIMIT else \<lfloor>x\<rfloor> | _ \<Rightarrow> DEFAULT_LIMIT)"

definition rate_key :: "authenticated option \<Rightarrow> string \<Rightarrow> string" where
  "rate_key auth ip =
     (case auth of
        Some a \<Rightarrow> if au_apiKeyId a \<noteq> [] then ''api:'' @ au_apiKeyId a else ''ip:'' @ (if ip = [] then ''unknown'' else ip)
      | None \<Rightarrow> ''ip:'' @ (if ip = [] then ''unknown'' else ip))"

record rate_headers =
  rh_limit :: int
  rh_remaining :: int
  rh_reset :: int

definition setRateLimitHeaders :: "int \<Rightarrow> int \<Rightarrow> int \<Rightarrow> rate_headers" where
  "setRateLimitHeaders limit remaining resetEpochSeconds =
     \<lparr>rh_limit = limit, rh_remaining = max 0 remaining, rh_reset = max 0 resetEpochSeconds\<rparr>"

datatype rate_answer =
    Passed rate_headers
  | TooMany int rate_headers

definition passed :: "rate_answer \<Rightarrow> bool" where
  "passed r = (case r of Passed h \<Rightarrow> True | TooMany n h \<Rightarrow> False)"

record limiter =
  lm_windows :: "string \<times> int \<Rightarrow> int option"
  lm_store :: "string \<Rightarrow> (int \<times> int) option"

text \<open>
  Seconds of a time in milliseconds, rounded down and up.  A double between two whole numbers of seconds does not round to one of
  them at this size, so the quotients are exact integers here.
\<close>

definition seconds_down :: "int \<Rightarrow> int" where
  "seconds_down ms = ms div 1000"

definition seconds_up :: "int \<Rightarrow> int" where
  "seconds_up ms = - ((- ms) div 1000)"

definition applyMemoryRateLimit ::
  "int \<Rightarrow> string \<Rightarrow> int \<Rightarrow> (string \<Rightarrow> (int \<times> int) option) \<Rightarrow> rate_answer \<times> (string \<Rightarrow> (int \<times> int) option)" where
  "applyMemoryRateLimit now key limit store =
     (let fresh = (Passed (setRateLimitHeaders limit (limit - 1) (seconds_down (now + WINDOW_MS))),
                   store(key \<mapsto> (1, now + WINDOW_MS))) in
      case store key of
        None \<Rightarrow> fresh
      | Some (count, resetAt) \<Rightarrow>
          if resetAt < now then fresh
          else if limit \<le> count
          then (TooMany (seconds_up (resetAt - now)) (setRateLimitHeaders limit 0 (seconds_down resetAt)), store)
          else (Passed (setRateLimitHeaders limit (limit - (count + 1)) (seconds_down resetAt)),
                store(key \<mapsto> (count + 1, resetAt))))"

text \<open>
  \<open>rateLimit\<close>.  A window is a minute of the database's clock, its count an \<open>INT\<close>.  \<open>fails\<close> says that the query fails.
\<close>

definition minute_of :: "int \<Rightarrow> int" where
  "minute_of dbNow = dbNow div 60000"

definition rateLimit :: "int \<Rightarrow> int \<Rightarrow> bool \<Rightarrow> string \<Rightarrow> int \<Rightarrow> limiter \<Rightarrow> rate_answer \<times> limiter" where
  "rateLimit now dbNow fails key limit s =
     (let m = minute_of dbNow;
          count = (case lm_windows s (key, m) of None \<Rightarrow> 1 | Some c \<Rightarrow> c + 1) in
      if fails \<or> 2147483647 < count
      then (let (r, store) = applyMemoryRateLimit now key limit (lm_store s) in (r, s\<lparr>lm_store := store\<rparr>))
      else (let s' = s\<lparr>lm_windows := (lm_windows s)((key, m) \<mapsto> count)\<rparr>; resetEpoch = 60 * m + 60 in
        if limit < count
        then (TooMany (max 1 (seconds_up (resetEpoch * 1000 - now))) (setRateLimitHeaders limit 0 resetEpoch), s')
        else (Passed (setRateLimitHeaders limit (limit - count) resetEpoch), s')))"

text \<open>The two timers.\<close>

definition sweep_store :: "int \<Rightarrow> limiter \<Rightarrow> limiter" where
  "sweep_store now s =
     s\<lparr>lm_store := (\<lambda>k. case lm_store s k of
                           None \<Rightarrow> None
                         | Some (count, resetAt) \<Rightarrow> if resetAt < now then None else Some (count, resetAt))\<rparr>"

definition sweep_windows :: "int \<Rightarrow> limiter \<Rightarrow> limiter" where
  "sweep_windows dbNow s =
     s\<lparr>lm_windows := (\<lambda>(k, m). if m * 60000 < dbNow - 600000 then None else lm_windows s (k, m))\<rparr>"

section \<open>The limiter at work\<close>

text \<open>
  The clocks, which only go forward, and what was let through: by the database with the key and the minute, by the
  memory with the key and the end of the window.
\<close>

record limiter_system = limiter +
  lm_now :: int
  lm_dbNow :: int
  lm_dbPassed :: "(string \<times> int) list"
  lm_memoryPassed :: "(string \<times> int) list"

definition through_database :: "int \<Rightarrow> bool \<Rightarrow> string \<Rightarrow> limiter \<Rightarrow> bool" where
  "through_database dbNow fails key s =
     (\<not> fails \<and> (case lm_windows s (key, minute_of dbNow) of None \<Rightarrow> True | Some c \<Rightarrow> c < 2147483647))"

definition serve_request :: "bool \<Rightarrow> string \<Rightarrow> int \<Rightarrow> limiter_system \<Rightarrow> limiter_system" where
  "serve_request fails key limit s =
     (let (r, l) = rateLimit (lm_now s) (lm_dbNow s) fails key limit (limiter.truncate s);
          entered = (if passed r then 1 else 0);
          db = through_database (lm_dbNow s) fails key (limiter.truncate s) in
      s\<lparr>lm_windows := lm_windows l, lm_store := lm_store l,
        lm_dbPassed := replicate (if db then entered else 0) (key, minute_of (lm_dbNow s)) @ lm_dbPassed s,
        lm_memoryPassed := replicate (if db then 0 else entered) (key, (case lm_store l key of Some (c, t) \<Rightarrow> t | None \<Rightarrow> 0))
                             @ lm_memoryPassed s\<rparr>)"

text \<open>The limit of a key is that of its row, and 100 for an address.\<close>

inductive limiter_step :: "(string \<Rightarrow> int) \<Rightarrow> limiter_system \<Rightarrow> limiter_system \<Rightarrow> bool" for quota where
  limit_tick: "lm_now s \<le> t \<Longrightarrow> lm_dbNow s \<le> u \<Longrightarrow> limiter_step quota s (s\<lparr>lm_now := t, lm_dbNow := u\<rparr>)"
| limit_request: "limiter_step quota s (serve_request fails key (quota key) s)"
| limit_sweep_store:
    "limiter_step quota s (s\<lparr>lm_store := lm_store (sweep_store (lm_now s) (limiter.truncate s))\<rparr>)"
| limit_sweep_windows:
    "limiter_step quota s (s\<lparr>lm_windows := lm_windows (sweep_windows (lm_dbNow s) (limiter.truncate s))\<rparr>)"

definition limiter_start :: "limiter_system \<Rightarrow> bool" where
  "limiter_start s = (lm_windows s = (\<lambda>_. None) \<and> lm_store s = (\<lambda>_. None) \<and> lm_dbPassed s = [] \<and> lm_memoryPassed s = [])"

text \<open>
  The windows still there count at least what was let through, those that were swept are past; so with the store.
\<close>

definition window_ok :: "int \<Rightarrow> bool \<Rightarrow> int option \<Rightarrow> nat \<Rightarrow> bool" where
  "window_ok limit current w n =
     (int n \<le> max 0 limit \<and> (case w of Some c \<Rightarrow> int n \<le> c | None \<Rightarrow> current \<longrightarrow> n = 0))"

definition windows_ok :: "(string \<Rightarrow> int) \<Rightarrow> limiter_system \<Rightarrow> bool" where
  "windows_ok quota s =
     (\<forall>k m. window_ok (quota k) (minute_of (lm_dbNow s) \<le> m) (lm_windows s (k, m)) (count_list (lm_dbPassed s) (k, m)))"

definition entry_ok :: "int \<Rightarrow> int \<Rightarrow> (int \<times> int) option \<Rightarrow> (int \<Rightarrow> nat) \<Rightarrow> bool" where
  "entry_ok limit now w n =
     ((\<forall>t. int (n t) \<le> max 1 limit) \<and>
      (case w of Some (c, t) \<Rightarrow> int (n t) \<le> c \<and> (\<forall>t' > t. n t' = 0) | None \<Rightarrow> \<forall>t' \<ge> now. n t' = 0))"

definition store_ok :: "(string \<Rightarrow> int) \<Rightarrow> limiter_system \<Rightarrow> bool" where
  "store_ok quota s =
     (\<forall>k. entry_ok (quota k) (lm_now s) (lm_store s k) (\<lambda>t. count_list (lm_memoryPassed s) (k, t)))"

lemma window_ok_later: "window_ok q b w n \<Longrightarrow> (b' \<Longrightarrow> b) \<Longrightarrow> window_ok q b' w n"
  by (auto simp: window_ok_def split: option.splits)

lemma window_ok_swept: "window_ok q b w n \<Longrightarrow> \<not> b \<Longrightarrow> window_ok q b None n"
  by (auto simp: window_ok_def)

lemma window_ok_counted:
  "window_ok q True w n \<Longrightarrow> (case w of None \<Rightarrow> 1 | Some c \<Rightarrow> c + 1) = c' \<Longrightarrow>
     window_ok q b (Some c') (n + (if q < c' then 0 else 1))"
  by (auto simp: window_ok_def split: option.splits)

lemma entry_ok_later: "entry_ok q now w n \<Longrightarrow> now \<le> now' \<Longrightarrow> entry_ok q now' w n"
  by (auto simp: entry_ok_def split: option.splits)

lemma entry_ok_gone:
  "entry_ok q now w n \<Longrightarrow> (case w of None \<Rightarrow> True | Some (c, t) \<Rightarrow> t < now) \<Longrightarrow> entry_ok q now None n"
  by (auto simp: entry_ok_def split: option.splits)

lemma entry_ok_fresh: "entry_ok q now None n \<Longrightarrow> now \<le> t \<Longrightarrow> entry_ok q now (Some (1, t)) (n(t := Suc (n t)))"
  by (auto simp: entry_ok_def)

lemma entry_ok_counted:
  "entry_ok q now (Some (c, t)) n \<Longrightarrow> c < q \<Longrightarrow> entry_ok q now (Some (c + 1, t)) (n(t := Suc (n t)))"
  by (auto simp: entry_ok_def)

text \<open>What one request does: to the window of the minute, or to the store.\<close>

lemma truncate_fields [simp]:
  "lm_windows (limiter.truncate s) = lm_windows s" "lm_store (limiter.truncate s) = lm_store s"
  by (simp_all add: limiter.defs)

lemma serve_cases:
  assumes "s' = serve_request fails key limit s"
  obtains (window) c where "lm_windows s (key, minute_of (lm_dbNow s)) = c"
      "s' = s\<lparr>lm_windows := (lm_windows s)((key, minute_of (lm_dbNow s)) \<mapsto> (case c of None \<Rightarrow> 1 | Some n \<Rightarrow> n + 1)),
              lm_dbPassed := replicate (if limit < (case c of None \<Rightarrow> 1 | Some n \<Rightarrow> n + 1) then 0 else 1)
                (key, minute_of (lm_dbNow s)) @ lm_dbPassed s\<rparr>"
    | (fresh) "case lm_store s key of None \<Rightarrow> True | Some (c, t) \<Rightarrow> t < lm_now s"
      "s' = s\<lparr>lm_store := (lm_store s)(key \<mapsto> (1, lm_now s + WINDOW_MS)),
              lm_memoryPassed := (key, lm_now s + WINDOW_MS) # lm_memoryPassed s\<rparr>"
    | (refused) "s' = s"
    | (counted) c t where "lm_store s key = Some (c, t)" "lm_now s \<le> t" "c < limit"
      "s' = s\<lparr>lm_store := (lm_store s)(key \<mapsto> (c + 1, t)), lm_memoryPassed := (key, t) # lm_memoryPassed s\<rparr>"
proof (cases "through_database (lm_dbNow s) fails key (limiter.truncate s)")
  case True
  have "s' = s\<lparr>lm_windows := (lm_windows s)((key, minute_of (lm_dbNow s)) \<mapsto>
      (case lm_windows s (key, minute_of (lm_dbNow s)) of None \<Rightarrow> 1 | Some n \<Rightarrow> n + 1)),
      lm_dbPassed := replicate (if limit < (case lm_windows s (key, minute_of (lm_dbNow s)) of None \<Rightarrow> 1 | Some n \<Rightarrow> n + 1) then 0 else 1)
        (key, minute_of (lm_dbNow s)) @ lm_dbPassed s\<rparr>"
    using True by (auto simp: assms serve_request_def through_database_def rateLimit_def Let_def passed_def split: option.splits)
  then show thesis by (intro window) simp_all
next
  case False
  let ?out = "applyMemoryRateLimit (lm_now s) key limit (lm_store s)"
  have memory: "rateLimit (lm_now s) (lm_dbNow s) fails key limit (limiter.truncate s) =
      (fst ?out, (limiter.truncate s)\<lparr>lm_store := snd ?out\<rparr>)"
    using False by (auto simp: through_database_def rateLimit_def Let_def case_prod_beta split: option.splits)
  have s': "s' = s\<lparr>lm_store := snd ?out,
      lm_memoryPassed := replicate (if passed (fst ?out) then 1 else 0)
        (key, (case snd ?out key of Some (c, t) \<Rightarrow> t | None \<Rightarrow> 0)) @ lm_memoryPassed s\<rparr>"
    using False by (simp add: assms serve_request_def memory Let_def case_prod_beta)
  show thesis
  proof (cases "lm_store s key")
    case None
    then show thesis by (intro fresh) (simp_all add: s' applyMemoryRateLimit_def Let_def passed_def)
  next
    case (Some ct)
    then obtain c t where ct: "lm_store s key = Some (c, t)" by (cases ct) simp
    consider "t < lm_now s" | "\<not> t < lm_now s" "limit \<le> c" | "\<not> t < lm_now s" "c < limit" by linarith
    then show thesis
    proof cases
      case 1
      with ct show thesis by (intro fresh) (simp_all add: s' applyMemoryRateLimit_def Let_def passed_def)
    next
      case 2
      with ct show thesis by (intro refused) (simp add: s' applyMemoryRateLimit_def Let_def passed_def)
    next
      case 3
      with ct show thesis by (intro counted [of c t]) (simp_all add: s' applyMemoryRateLimit_def Let_def passed_def)
    qed
  qed
qed

lemma minute_mono: "a \<le> b \<Longrightarrow> minute_of a \<le> minute_of b"
  by (simp add: minute_of_def zdiv_mono1)

lemma serve_windows:
  assumes ok: "windows_ok quota s"
  shows "windows_ok quota (serve_request fails key (quota key) s)"
proof (rule serve_cases [OF refl [of "serve_request fails key (quota key) s"]])
  fix c :: "int option" let ?m = "minute_of (lm_dbNow s)" let ?n = "case c of None \<Rightarrow> 1 | Some n \<Rightarrow> n + 1"
  assume c: "lm_windows s (key, ?m) = c"
    and s': "serve_request fails key (quota key) s = s\<lparr>lm_windows := (lm_windows s)((key, ?m) \<mapsto> ?n),
      lm_dbPassed := replicate (if quota key < ?n then 0 else 1) (key, ?m) @ lm_dbPassed s\<rparr>"
  have "window_ok (quota key) True c (count_list (lm_dbPassed s) (key, ?m))"
    using ok [unfolded windows_ok_def, rule_format, of key ?m] c by simp
  from window_ok_counted [OF this refl]
  have "window_ok (quota key) True (Some ?n) (count_list (lm_dbPassed s) (key, ?m) + (if quota key < ?n then 0 else 1))" .
  moreover have "window_ok (quota k) (?m \<le> m) (lm_windows s (k, m)) (count_list (lm_dbPassed s) (k, m))" for k m
    using ok by (simp add: windows_ok_def)
  ultimately show ?thesis unfolding s' windows_ok_def by (auto split: if_splits)
qed (use ok in \<open>simp_all add: windows_ok_def\<close>)

lemma count_list_key: "(\<lambda>t'. count_list ((key, t) # xs) (key, t')) = (\<lambda>t'. count_list xs (key, t'))(t := Suc (count_list xs (key, t)))"
  by (auto simp: fun_eq_iff)

lemma store_ok_update:
  assumes "store_ok quota s"
    and "entry_ok (quota key) (lm_now s) (Some e) ((\<lambda>t'. count_list (lm_memoryPassed s) (key, t'))(t := Suc (count_list (lm_memoryPassed s) (key, t))))"
  shows "store_ok quota (s\<lparr>lm_store := (lm_store s)(key \<mapsto> e), lm_memoryPassed := (key, t) # lm_memoryPassed s\<rparr>)"
  unfolding store_ok_def
proof
  fix k
  show "entry_ok (quota k) (lm_now (s\<lparr>lm_store := (lm_store s)(key \<mapsto> e), lm_memoryPassed := (key, t) # lm_memoryPassed s\<rparr>))
     (lm_store (s\<lparr>lm_store := (lm_store s)(key \<mapsto> e), lm_memoryPassed := (key, t) # lm_memoryPassed s\<rparr>) k)
     (\<lambda>t'. count_list (lm_memoryPassed (s\<lparr>lm_store := (lm_store s)(key \<mapsto> e), lm_memoryPassed := (key, t) # lm_memoryPassed s\<rparr>)) (k, t'))"
  proof (cases "k = key")
    case True
    then show ?thesis using assms(2) count_list_key [of key t "lm_memoryPassed s"] by simp
  next
    case False
    then show ?thesis using assms(1) by (simp add: store_ok_def)
  qed
qed

lemma serve_store:
  assumes ok: "store_ok quota s"
  shows "store_ok quota (serve_request fails key (quota key) s)"
proof (rule serve_cases [OF refl [of "serve_request fails key (quota key) s"]])
  let ?n = "\<lambda>t. count_list (lm_memoryPassed s) (key, t)"
  have entry: "entry_ok (quota key) (lm_now s) (lm_store s key) ?n" using ok by (simp add: store_ok_def)
  {
    assume f: "case lm_store s key of None \<Rightarrow> True | Some (c, t) \<Rightarrow> t < lm_now s"
      and s': "serve_request fails key (quota key) s = s\<lparr>lm_store := (lm_store s)(key \<mapsto> (1, lm_now s + WINDOW_MS)),
        lm_memoryPassed := (key, lm_now s + WINDOW_MS) # lm_memoryPassed s\<rparr>"
    show ?thesis unfolding s'
      by (rule store_ok_update [OF ok]) (rule entry_ok_fresh [OF entry_ok_gone [OF entry f]], simp add: WINDOW_MS_def)
  next
    fix c t
    assume m: "lm_store s key = Some (c, t)" "c < quota key"
      and s': "serve_request fails key (quota key) s = s\<lparr>lm_store := (lm_store s)(key \<mapsto> (c + 1, t)),
        lm_memoryPassed := (key, t) # lm_memoryPassed s\<rparr>"
    show ?thesis unfolding s'
      by (rule store_ok_update [OF ok]) (rule entry_ok_counted [OF entry [unfolded m(1)] m(2)])
  }
qed (use ok in \<open>simp_all add: store_ok_def\<close>)

definition limiter_inv :: "(string \<Rightarrow> int) \<Rightarrow> limiter_system \<Rightarrow> bool" where
  "limiter_inv quota s = (windows_ok quota s \<and> store_ok quota s)"

lemma limiter_inv_step: "limiter_step quota s s' \<Longrightarrow> limiter_inv quota s \<Longrightarrow> limiter_inv quota s'"
proof (induction rule: limiter_step.induct)
  case (limit_tick s t u)
  have "minute_of u \<le> m \<Longrightarrow> minute_of (lm_dbNow s) \<le> m" for m
    using minute_mono [OF limit_tick(2)] by (rule order_trans)
  note later = window_ok_later [OF _ this] entry_ok_later [OF _ limit_tick(1)]
  have "windows_ok quota s" "store_ok quota s" using limit_tick(3) by (simp_all add: limiter_inv_def)
  then have "windows_ok quota (s\<lparr>lm_now := t, lm_dbNow := u\<rparr>)" "store_ok quota (s\<lparr>lm_now := t, lm_dbNow := u\<rparr>)"
    unfolding windows_ok_def store_ok_def by (auto intro: later)
  then show ?case by (simp add: limiter_inv_def)
next
  case (limit_request s fails key)
  then show ?case by (simp add: limiter_inv_def serve_windows serve_store)
next
  case (limit_sweep_store s)
  have "entry_ok (quota k) (lm_now s) (lm_store (sweep_store (lm_now s) (limiter.truncate s)) k)
      (\<lambda>t. count_list (lm_memoryPassed s) (k, t))" for k
  proof -
    have "entry_ok (quota k) (lm_now s) (lm_store s k) (\<lambda>t. count_list (lm_memoryPassed s) (k, t))"
      using limit_sweep_store by (simp add: limiter_inv_def store_ok_def)
    with entry_ok_gone [OF this] show ?thesis by (cases "lm_store s k") (auto simp: sweep_store_def)
  qed
  with limit_sweep_store show ?case by (simp add: limiter_inv_def windows_ok_def store_ok_def)
next
  case (limit_sweep_windows s)
  have "\<not> minute_of (lm_dbNow s) \<le> m" if "m * 60000 < lm_dbNow s - 600000" for m
    using that unfolding minute_of_def by linarith
  moreover have ok: "window_ok (quota k) (minute_of (lm_dbNow s) \<le> m) (lm_windows s (k, m)) (count_list (lm_dbPassed s) (k, m))" for k m
    using limit_sweep_windows by (simp add: limiter_inv_def windows_ok_def)
  ultimately have "window_ok (quota k) (minute_of (lm_dbNow s) \<le> m) (lm_windows (sweep_windows (lm_dbNow s) (limiter.truncate s)) (k, m))
      (count_list (lm_dbPassed s) (k, m))" for k m
    using window_ok_swept [OF ok, of m k] ok [of k m] by (simp add: sweep_windows_def)
  with limit_sweep_windows show ?case by (simp add: limiter_inv_def windows_ok_def store_ok_def)
qed

lemma limiter_start_inv: "limiter_start s \<Longrightarrow> limiter_inv quota s"
  by (simp add: limiter_start_def limiter_inv_def windows_ok_def store_ok_def window_ok_def entry_ok_def max_def)

interpretation limiting: invariant_system limiter_start "limiter_step quota" "limiter_inv quota"
  by unfold_locales (fact limiter_start_inv, fact limiter_inv_step)

section \<open>Property\<close>

text \<open>
  Claim C36. The rate limit holds: whatever requests arrive, whenever the database fails, and whenever the two timers clean up,
  the database lets no more requests of a key through in a minute than its limit, and the memory that stands in for it
  no more in a window than the limit, or one where the limit is below that.
\<close>

theorem rate_limit_respected:
  assumes "limiter_start s0" and "(limiter_step quota)\<^sup>*\<^sup>* s0 s"
  shows "int (count_list (lm_dbPassed s) (key, minute)) \<le> max 0 (quota key) \<and>
         int (count_list (lm_memoryPassed s) (key, windowEnd)) \<le> max 1 (quota key)"
  using limiting.inv_reachable [OF assms]
  by (simp add: limiter_inv_def windows_ok_def store_ok_def window_ok_def entry_ok_def)

definition quiet_limiter :: limiter_system where
  "quiet_limiter = \<lparr>lm_windows = (\<lambda>_. None), lm_store = (\<lambda>_. None), lm_now = 5, lm_dbNow = 5, lm_dbPassed = [], lm_memoryPassed = []\<rparr>"

text \<open>Two requests through the database and two through memory, with one allowed.\<close>

definition busy_limiter :: limiter_system where
  "busy_limiter = serve_request True ''k'' 1 (serve_request True ''k'' 1 (serve_request False ''k'' 1 (serve_request False ''k'' 1 quiet_limiter)))"

theorem rate_limit_respected_witness:
  "lm_dbPassed busy_limiter = [(''k'', 0)] \<and> lm_memoryPassed busy_limiter = [(''k'', 60005)] \<and>
   int (count_list (lm_dbPassed busy_limiter) (''k'', 0)) \<le> 1 \<and> int (count_list (lm_memoryPassed busy_limiter) (''k'', 60005)) \<le> 1"
proof -
  have "limiter_step (\<lambda>_. 1) s (serve_request fails ''k'' 1 s)" for fails s
    using limit_request [of "\<lambda>_. 1" s fails "''k''"] by simp
  then have "(limiter_step (\<lambda>_. 1))\<^sup>*\<^sup>* quiet_limiter busy_limiter"
    unfolding busy_limiter_def by (meson rtranclp.rtrancl_into_rtrancl rtranclp.rtrancl_refl)
  moreover have "limiter_start quiet_limiter" by (simp add: limiter_start_def quiet_limiter_def)
  ultimately have "int (count_list (lm_dbPassed busy_limiter) (''k'', 0)) \<le> max 0 1 \<and>
      int (count_list (lm_memoryPassed busy_limiter) (''k'', 60005)) \<le> max 1 1"
    by (rule rate_limit_respected [rotated])
  moreover have "lm_dbPassed busy_limiter = [(''k'', 0)]" "lm_memoryPassed busy_limiter = [(''k'', 60005)]" by code_simp+
  ultimately show ?thesis by simp
qed

end
