(* ===== verification/Spec2Isabelle.thy ===== *)
theory Spec2Isabelle
  imports Ledger_System Settle_System Credit_Service Repay_Claims Gateway_Claims Underwriting Access_Control
begin

text \<open>
  \<^bold>\<open>A verification development of the x402 facilitator\<close> (\<open>services/x402-facilitator/src\<close>) of the KAMIYO
  protocol, and of the prepaid credits (\<open>services/api/src\<close>) that its repayments draw on.

  The facilitator takes payments for HTTP resources.  A payer authorizes a session once and then spends
  out of it, or signs each payment, or draws on credit underwritten by the Kizuna lanes.  Money moves
  on Solana or Base; what was promised, reserved, owed and repaid is kept in PostgreSQL.

  \<^bold>\<open>Layers and theories\<close>

  Vocabulary.
    \<^item> Prelude: errors as values, database transactions (\<open>withTransaction\<close> of \<open>db/pool.ts\<close>) as functions
      from a database to an error or a result with a database, select, sum and update on tables as
      lists and maps, and the locales.
    \<^item> Micro, Pg_Numeric: micro-USDC amounts, their decimal text, \<open>BigInt(string)\<close>, the text of a SQL quotient.
    \<^item> Json, Js_Number, Js_Text, Js_Json: the parts of JavaScript that the code computes with: doubles and
      their rounding, \<open>Number\<close>, \<open>String\<close>, \<open>split\<close>, \<open>JSON.stringify\<close>, \<open>JSON.parse\<close>, base64 and UTF-8.

  The ledger (\<open>db/queries.ts\<close>, \<open>db/migrate.ts\<close>).
    \<^item> Schema: one record per row type, and \<open>db\<close>, the tables.
    \<^item> Pools: the reserve row of a pool and the prefunded balance of an agent.
    \<^item> Totals: the sums over debts, reservations and repayments that the balances have to equal.
    \<^item> Reservations, Settlement, Repayment, Funding, Collateral: one ledger transaction or group of
      transactions each, from \<open>insertKizunaUnderwriteDecision\<close> and \<open>createKizunaReservation\<close> through
      \<open>finalizeKizunaSettlement\<close> to \<open>applyKizunaRepayment\<close>.
    \<^item> Outbox: trust events queued by settlements and repayments, leased by the delivery worker.
    \<^item> Ledger_System: a step relation with one rule per transaction, its invariant and its histories.

  Requests and payments (\<open>protocol\<close>, \<open>services\<close>, \<open>routes\<close>).
    \<^item> Amounts, Networks, Request_Compat, Payment_Header: amount parsers, network identifiers, the
      adapters of verify and settle bodies, the signed payment header (\<open>services/signature.ts\<close>).
    \<^item> Sessions, Session_Routes: nonce guards, challenges and sessions of \<open>db/queries.ts\<close>, and the challenge,
      authorize, status and revoke operations of \<open>routes/session.ts\<close>.
    \<^item> Fees, Delegated_Transfer, Treasury_Transfer: reputation, fee split and the on-chain transfers of
      \<open>services/settlement.ts\<close>, \<open>services/base-settlement.ts\<close> and \<open>services/solana-session.ts\<close>.
    \<^item> Session_Settle, Direct_Settle: the session and direct branches of \<open>POST /settle\<close> (\<open>routes/settle.ts\<close>), one step per
      statement that reads or writes shared state.
    \<^item> Settle_System: all the session and direct settle requests of the service at once, interleaved.
    \<^item> Canonical_Json, Kernel_Envelope: canonical JSON text and request hashes
      (\<open>services/kizuna-request-hash.ts\<close>), the decision envelopes and answers of the Kizuna kernel
      (\<open>services/kizuna-kernel.ts\<close>).
    \<^item> Credit_Settle, Credit_System, Credit_Runs: the credit branch of \<open>POST /settle\<close> step by step, its requests
      interleaved with each other and with every ledger operation of the other routes, and what holds of their
      runs.  Ledger_Frames shows which tables the ledger operations leave alone.
    \<^item> Verify, Credit_Verify: \<open>POST /verify\<close> (\<open>routes/verify.ts\<close>): the session and direct branches, which only read, and the
      credit branch, which asks the kernel, records its decision and makes the reservation, at most 11 steps.
    \<^item> Credit_Service: credit requests at verify and at settle in one system.

  The Kizuna routes (\<open>routes/kizuna.ts\<close>) and the credits service.
    \<^item> Route_Programs: a handler as a program that answers, runs one database statement or transaction, or calls another
      service and goes on with its answer; how such a program ends and what it does to the ledger.
    \<^item> Kizuna_Routes, Kizuna_Accounts, Kizuna_Funds: the job reservations of the internal routes; onboarding, account and
      identity synchronisation; funding, collateral and pools.
    \<^item> Prepaid_Credits, Prepaid_Routes: the credit tables of \<open>services/api/src/db.ts\<close>, and the balance, internal debit and
      deposit routes of \<open>services/api/src/api/routes/credits.ts\<close>.
    \<^item> Kizuna_Repay, Repay_System, Repay_Claims: the repayment route with its client \<open>services/kizuna-credits.ts\<close>, the two services
      as one system in which answers get lost, and what a repayment promises across them.
    \<^item> Underwriting: the scoring of \<open>services/kizuna-underwrite.ts\<close>, which no route calls.  Access_Control: API keys, the internal
      token and the rate limit of \<open>middleware\<close>.
    \<^item> Kizuna_Gateway, Gateway_Claims: all credit requests at verify and settle and all requests of the Kizuna routes in one system.

  \<^bold>\<open>What the lemmas show\<close>

    \<^item> State invariants by rule induction over the step relations.  \<open>ledger_ok\<close>: every balance row equals
      the sum of the rows that justify it, statuses only move forward, a reservation has at most one debt.
      For settle requests: the recorded spending covers what moved and what is still reserved, and a
      nonce is claimed by one request at a time.
    \<^item> Functional behaviour of every ledger operation on its success and error branches, and
      refinement of the repayment loop to \<open>pay_off\<close>, which pays a list of debts in order.
    \<^item> Equivalence of the floating point and the bigint amount parser below \<open>2 ^ 50\<close> micro-USDC, and of the
      settle and verify adapters; round trips of the session header, the payment header, JSON, UTF-8,
      base64 and decimal text.  Canonical JSON text identifies a value up to the order of properties.
    \<^item> Refinement: a run of credit requests is a run of the ledger machine, and what such a request reports is in
      the ledger.
    \<^item> Across services: no wallet spends more credits than it deposited, a debit is taken at most once under its reference, and
      every repayment in the ledger was debited; where the services disagree on what a reference names, the theorems
      exhibit it.
    \<^item> Agreement of verify and settle: a request that verify answers as valid is admitted by settle, its session budget
      is reserved, and a credit request passes the checks of its reservation and envelope.
    \<^item> Termination: a rank on the control points of a settle request, at most 14 statements in the
      session branch 13 in the direct branch and 12 in the credit branch, whatever the database answers; at most six
      statements and calls for a request of the Kizuna routes.

  The locales are the interfaces between those groups: \<open>keyed_store\<close> (a table read and written by key, interpreted
  on the balance, position and session tables), \<open>idempotent_operation\<close> (a request that is
  recorded under a reference and replayed from it, interpreted on the ledger transactions), \<open>tx_frame\<close> (a relation that
  a transaction keeps between its database before and after, interpreted on the set of settlement ids), \<open>invariant_system\<close> (a step
  relation with an invariant, interpreted on the ledger, the sessions, the settle systems, the credit requests, the
  gateway, the prepaid credits, the repayment system and the rate limiter).

  \<^bold>\<open>Modelling decisions\<close>

    \<^item> \<open>NUMERIC(30, 0)\<close> and \<open>bigint\<close> are integers; a write outside the column range is an error.  \<open>bigint\<close> crosses to
      SQL as decimal text.  A double is the rational it denotes and every operation rounds with \<open>fl\<close>; the sign of
      zero is not kept.
    \<^item> A string is a list of code units below 256.  Texts with larger code units are outside the model.
      \<open>JSON.parse\<close> of a number beyond the doubles gives null here.
    \<^item> \<open>NOW()\<close>, generated UUIDs and SHA-256 are fields of an \<open>env\<close> argument.  Signature checks, address checks and
      what a chain answers are arguments: a transfer is confirmed, rejected, or executed while
      the caller sees an error.
    \<^item> A ledger step is a whole transaction: row locks and unique constraints serialise transactions on the same
      rows.  In a settle request, which runs in no transaction, every statement is a step of its own, and steps of
      different requests interleave in any order.
    \<^item> \<open>ORDER BY\<close> is stable.  Check, unique and foreign key constraints raise and undo the transaction; texts of
      errors from the database and from other libraries are not modelled.  The foreign key of the fee ledger
      to escrows is not modelled.
    \<^item> Bounds: amounts in text have at most 30 digits (the columns); the collateral summary is computed for amounts below
      \<open>10 ^ 15\<close>; credit payments are bounded by their reservation when the configured limit is at most \<open>10 ^ 9\<close> USDC,
      far above its default.  No definition uses fuel.
    \<^item> The keys, HMAC and signature checks of decision envelopes are arguments, and so is the answer of the kernel.  A key id
      that is the name of an inherited property, such as \<open>constructor\<close>, counts as unknown: the
      code fails too, with another message.
    \<^item> A query that fails outside every \<open>try\<close> goes to the error handler of the application, which answers 500: such a
      request ends with no answer of its own (\<open>None\<close>).
    \<^item> The four reads before the kernel is asked run side by side in the code and are one step.  The registry columns of an
      account, and what PostgreSQL reads the kernel's numbers as, are arguments; of the identity that verify returns, the fields that
      a decision depends on are kept.
    \<^item> \<open>BigInt\<close> of an array, the USDC authorization block of a challenge response and the reason text of a
      discount are left out.

    \<^item> What PostgreSQL makes of the caps that the wallet control plane names, what the registry package resolves, and what the other
      services answer are arguments of the handlers (\<open>kizuna_services\<close>).  Of the registry columns those
      are kept that an answer depends on.  Reads that run side by side are taken one after the other.  Health factors are
      exact quotients.
    \<^item> The credit tables live in SQLite, whose transactions run to completion: a debit or a deposit is one step.  Amounts there are
      integers below \<open>2 ^ 53\<close>; the token amounts and the credit rate are doubles.

  \<^bold>\<open>Not modelled\<close>

  In the facilitator: the listings of transactions and of collateral positions, which only read; escrows and disputes, whose route checks compare columns that the rows do not have;
  the trust-sync worker over the modelled outbox; start-up and configuration.  The registry file of an
  identity is built by a third-party package, and privacy and SAEP adapters pass requests on.  In the credits service: history and
  statistics, which only read, and the paid routes that deduct credits.  Outside the two: the other
  services, client packages, applications, and the on-chain programs and circuits of the repository, which are in other
  languages.
\<close>

end
